(* ===== verification/Prelude.thy ===== *)
theory Prelude
  imports Main "HOL-Library.Char_ord" "HOL-Library.List_Lexorder" "HOL-Library.Multiset"
begin

text \<open>
  Shared vocabulary of the development: results with typed errors, the list idioms of the
  source (insertion-ordered sets, \<open>indexOf\<close>, bounded tails), JavaScript strings and their byte
  length, and the collections of simplification rules the component theories extend.

  A JavaScript string is a list of UTF-16 code units; the model's \<open>string\<close> is its restriction
  to code units below 256, which have one unit each and one or two bytes in UTF-8.
\<close>

named_theorems wf_intros \<open>an operation keeps a component's invariant\<close>
named_theorems frame_simps \<open>what an operation leaves unchanged\<close>

section \<open>Results\<close>

type_synonym ('e, 'a) result = "'e + 'a"

definition bind_result :: "('e, 'a) result \<Rightarrow> ('a \<Rightarrow> ('e, 'b) result) \<Rightarrow> ('e, 'b) result" where
  "bind_result r f = (case r of Inl e \<Rightarrow> Inl e | Inr a \<Rightarrow> f a)"

lemma bind_result_simps [simp]:
  "bind_result (Inl e) f = Inl e"
  "bind_result (Inr a) f = f a"
  by (simp_all add: bind_result_def)

lemma bind_result_eq_Inr_conv:
  "bind_result r f = Inr b \<longleftrightarrow> (\<exists>a. r = Inr a \<and> f a = Inr b)"
  by (cases r) auto

lemma bind_result_eq_Inl_conv:
  "bind_result r f = Inl e \<longleftrightarrow> r = Inl e \<or> (\<exists>a. r = Inr a \<and> f a = Inl e)"
  by (cases r) auto

text \<open>A guard before the rest of a function.\<close>

lemma guard_Inr: "(if P then Inl e else x) = Inr y \<longleftrightarrow> \<not> P \<and> x = Inr y"
  by simp

lemma check_Inr: "(if P then x else Inl e) = Inr y \<longleftrightarrow> P \<and> x = Inr y"
  by simp

section \<open>Lists\<close>

text \<open>\<open>Array.prototype.indexOf\<close>: the first position, or -1.\<close>

fun index_of :: "'a list \<Rightarrow> 'a \<Rightarrow> int" where
  "index_of [] y = -1"
| "index_of (x # xs) y =
     (if x = y then 0 else (let i = index_of xs y in if i = -1 then -1 else i + 1))"

text \<open>\<open>[...new Set(xs)]\<close>: each value once, at its first position.\<close>

fun js_uniq :: "'a list \<Rightarrow> 'a list" where
  "js_uniq [] = []"
| "js_uniq (x # xs) = x # filter (\<lambda>y. y \<noteq> x) (js_uniq xs)"

lemma set_js_uniq [simp]: "set (js_uniq xs) = set xs"
  by (induction xs) auto

lemma distinct_js_uniq [simp]: "distinct (js_uniq xs)"
  by (induction xs) auto

lemma js_uniq_distinct [simp]: "distinct xs \<Longrightarrow> js_uniq xs = xs"
proof (induction xs)
  case Nil
  show ?case by simp
next
  case (Cons x xs)
  then show ?case by (auto intro: filter_True)
qed

text \<open>The newest \<open>n\<close> entries of a list kept oldest first.\<close>

definition last_n :: "nat \<Rightarrow> 'a list \<Rightarrow> 'a list" where
  "last_n n xs = drop (length xs - n) xs"

lemma length_last_n [simp]: "length (last_n n xs) = min n (length xs)"
  by (simp add: last_n_def)

lemma last_n_all [simp]: "length xs \<le> n \<Longrightarrow> last_n n xs = xs"
  by (simp add: last_n_def)

lemma set_last_n: "set (last_n n xs) \<subseteq> set xs"
  by (simp add: last_n_def set_drop_subset)

lemma last_n_snoc: "last_n n (last_n n xs @ [x]) = last_n n (xs @ [x])"
proof (cases "length xs \<le> n")
  case True
  then show ?thesis by simp
next
  case False
  then have len: "length xs - n + (Suc n - n) = Suc (length xs) - n" by simp
  have "last_n n (last_n n xs @ [x]) = drop (Suc n - n) (drop (length xs - n) (xs @ [x]))"
    using False by (simp add: last_n_def min_def)
  also have "\<dots> = drop (Suc (length xs) - n) (xs @ [x])"
    using len by (simp only: drop_drop add.commute)
  finally show ?thesis by (simp add: last_n_def)
qed

lemma distinct_map_filter_ne:
  "distinct (map f xs) \<Longrightarrow> distinct (map f (filter P xs))"
  by (induction xs) auto

section \<open>Strings\<close>

text \<open>\<open>Buffer.byteLength(value, "utf8")\<close> on code units below 256.\<close>

definition byte_length :: "string \<Rightarrow> nat" where
  "byte_length s = sum_list (map (\<lambda>c. if (of_char c :: nat) < 128 then 1 else 2) s)"

lemma byte_length_Nil [simp]: "byte_length [] = 0"
  by (simp add: byte_length_def)

lemma byte_length_Cons [simp]:
  "byte_length (c # s) = (if (of_char c :: nat) < 128 then 1 else 2) + byte_length s"
  by (simp add: byte_length_def)

lemma length_le_byte_length: "length s \<le> byte_length s"
  by (induction s) auto

text \<open>The character class \<open>[\0\r\n]\<close> most identifiers of the program exclude.\<close>

definition ctl_chars :: "char list" where
  "ctl_chars = [CHR 0x00, CHR 0x0D, CHR 0x0A]"

definition has_ctl :: "string \<Rightarrow> bool" where
  "has_ctl s = list_ex (\<lambda>c. c \<in> set ctl_chars) s"

text \<open>A non-empty single-line string: \<open>value.length > 0 && !/[\0\r\n]/.test(value)\<close>.\<close>

definition usable :: "string \<Rightarrow> bool" where
  "usable s \<longleftrightarrow> s \<noteq> [] \<and> \<not> has_ctl s"

definition char_in :: "char \<Rightarrow> char \<Rightarrow> char \<Rightarrow> bool" where
  "char_in lo hi c \<longleftrightarrow> lo \<le> c \<and> c \<le> hi"

definition is_lower :: "char \<Rightarrow> bool" where
  "is_lower c = char_in CHR ''a'' CHR ''z'' c"

definition is_upper :: "char \<Rightarrow> bool" where
  "is_upper c = char_in CHR ''A'' CHR ''Z'' c"

definition is_digit :: "char \<Rightarrow> bool" where
  "is_digit c = char_in CHR ''0'' CHR ''9'' c"

definition is_hex :: "char \<Rightarrow> bool" where
  "is_hex c \<longleftrightarrow> is_digit c \<or> char_in CHR ''a'' CHR ''f'' c"

text \<open>\<open>/^[0-9a-f]{64}$/\<close>, the shape of every hashed key.\<close>

definition sha256_hex :: "string \<Rightarrow> bool" where
  "sha256_hex s \<longleftrightarrow> length s = 64 \<and> list_all is_hex s"

text \<open>The white space of \<open>String.prototype.trim\<close> and of \<open>\s\<close>, on code units below 256.\<close>

definition js_space :: "char \<Rightarrow> bool" where
  "js_space c = (let n = (of_char c :: nat) in (9 \<le> n \<and> n \<le> 13) \<or> n = 32 \<or> n = 160)"

definition js_trim_end :: "string \<Rightarrow> string" where
  "js_trim_end s = rev (dropWhile js_space (rev s))"

definition js_trim :: "string \<Rightarrow> string" where
  "js_trim s = js_trim_end (dropWhile js_space s)"

text \<open>\<open>value.split(sep)\<close> for a separator of one character.\<close>

fun split_at :: "char \<Rightarrow> string \<Rightarrow> string list" where
  "split_at sep [] = [[]]"
| "split_at sep (c # cs) =
     (case split_at sep cs of l # ls \<Rightarrow> if c = sep then [] # l # ls else (c # l) # ls | [] \<Rightarrow> [[c]])"

section \<open>Association lists\<close>

text \<open>Directories and maps of the program are association lists from names to contents.\<close>

fun al_put :: "'k \<Rightarrow> 'v \<Rightarrow> ('k \<times> 'v) list \<Rightarrow> ('k \<times> 'v) list" where
  "al_put k v [] = [(k, v)]"
| "al_put k v ((k', v') # xs) = (if k' = k then (k, v) # xs else (k', v') # al_put k v xs)"

definition al_del :: "'k \<Rightarrow> ('k \<times> 'v) list \<Rightarrow> ('k \<times> 'v) list" where
  "al_del k xs = filter (\<lambda>(k', _). k' \<noteq> k) xs"

lemma map_of_al_put [simp]: "map_of (al_put k v xs) = (map_of xs)(k \<mapsto> v)"
  by (induction k v xs rule: al_put.induct) (auto simp: fun_eq_iff)

lemma map_of_al_del [simp]: "map_of (al_del k xs) = (map_of xs)(k := None)"
  by (induction xs) (auto simp: al_del_def fun_eq_iff)

lemma keys_al_put [simp]: "fst ` set (al_put k v xs) = insert k (fst ` set xs)"
  by (induction k v xs rule: al_put.induct) auto

lemma keys_al_del [simp]: "fst ` set (al_del k xs) = fst ` set xs - {k}"
  by (auto simp: al_del_def)

lemma distinct_al_put [simp]: "distinct (map fst (al_put k v xs)) \<longleftrightarrow> distinct (map fst xs)"
proof (induction k v xs rule: al_put.induct)
  case (2 k v k' v' xs)
  have "k' \<in> fst ` set (al_put k v xs) \<longleftrightarrow> k' = k \<or> k' \<in> fst ` set xs"
    by simp
  with 2 show ?case by (auto simp: image_iff)
qed simp

lemma distinct_al_del [simp]: "distinct (map fst xs) \<Longrightarrow> distinct (map fst (al_del k xs))"
  by (simp add: al_del_def distinct_map_filter_ne)

lemma al_del_absent: "k \<notin> fst ` set xs \<Longrightarrow> al_del k xs = xs"
  by (force simp: al_del_def intro!: filter_True)

lemma length_al_put_absent: "k \<notin> fst ` set xs \<Longrightarrow> length (al_put k v xs) = Suc (length xs)"
  by (induction k v xs rule: al_put.induct) auto

lemma map_of_None_keys: "map_of xs k = None \<longleftrightarrow> k \<notin> fst ` set xs"
  by (simp add: map_of_eq_None_iff)

lemma length_al_del:
  "distinct (map fst xs) \<Longrightarrow> k \<in> fst ` set xs \<Longrightarrow> Suc (length (al_del k xs)) = length xs"
proof (induction xs)
  case Nil
  then show ?case by simp
next
  case (Cons x xs)
  show ?case
  proof (cases "fst x = k")
    case True
    with Cons.prems have "k \<notin> fst ` set xs" by (auto simp: image_iff)
    then have "al_del k xs = xs" by (rule al_del_absent)
    with True show ?thesis by (cases x) (simp add: al_del_def)
  next
    case False
    with Cons show ?thesis by (cases x) (auto simp: al_del_def)
  qed
qed

lemma map_fst_al_put_present: "k \<in> fst ` set xs \<Longrightarrow> map fst (al_put k v xs) = map fst xs"
  by (induction k v xs rule: al_put.induct) auto

lemma filter_al_put_absent:
  "k \<notin> fst ` set xs \<Longrightarrow> filter P (al_put k v xs) = filter P xs @ (if P (k, v) then [(k, v)] else [])"
  by (induction k v xs rule: al_put.induct) auto

lemma map_of_filter_keys: "map_of (filter (\<lambda>f. fst f \<notin> S) xs) k = (if k \<in> S then None else map_of xs k)"
  by (induction xs) auto

lemma sum_list_fun_upd:
  fixes f :: "'a \<Rightarrow> nat"
  shows "distinct xs \<Longrightarrow> k \<in> set xs \<Longrightarrow> sum_list (map (f(k := v)) xs) + f k = sum_list (map f xs) + v"
proof (induction xs)
  case (Cons x xs)
  show ?case
  proof (cases "x = k")
    case True
    with Cons.prems have "map (f(k := v)) xs = map f xs" by (intro map_cong) auto
    then have "sum_list (map (f(k := v)) xs) = sum_list (map f xs)" by (rule arg_cong)
    with True show ?thesis by (simp only: list.map sum_list.Cons fun_upd_same)
  qed (use Cons in auto)
qed simp

section \<open>Optional values\<close>

definition opt_all :: "('a \<Rightarrow> bool) \<Rightarrow> 'a option \<Rightarrow> bool" where
  "opt_all P v = (case v of None \<Rightarrow> True | Some x \<Rightarrow> P x)"

lemma opt_all_simps [simp]: "opt_all P None" "opt_all P (Some x) = P x"
  by (simp_all add: opt_all_def)

lemma opt_all_trivial [simp]: "opt_all (\<lambda>w. True) x"
  by (cases x) simp_all

end
