(* ===== verification/Routing_Policy.thy ===== *)
theory Routing_Policy
  imports Prelude "HOL-Library.Product_Lexorder" Complex_Main
begin

text \<open>
  The deterministic tier policy of \<open>src/routing-policy.ts\<close>: the total order of quality tiers and
  the effective start tier, the tier interval of a workload, the workspace state derived from
  recovery evidence, and the fitness ranking of operating points. The module is pure, so every
  definition is a function; the one exception it raises is a value of the error type.
\<close>

section \<open>Quality tiers\<close>

datatype quality_tier = Utility | Economy | Standard | Strong | Frontier | MaxTier

definition QUALITY_TIERS :: "quality_tier list" where
  "QUALITY_TIERS = [Utility, Economy, Standard, Strong, Frontier, MaxTier]"

definition tierRank :: "quality_tier \<Rightarrow> int" where
  "tierRank t = index_of QUALITY_TIERS t"

definition compareTiers :: "quality_tier \<Rightarrow> quality_tier \<Rightarrow> int" where
  "compareTiers a b = tierRank a - tierRank b"

definition maxTier :: "quality_tier \<Rightarrow> quality_tier \<Rightarrow> quality_tier" where
  "maxTier a b = (if compareTiers a b \<ge> 0 then a else b)"

definition nextTier :: "quality_tier \<Rightarrow> quality_tier" where
  "nextTier t = QUALITY_TIERS ! nat (min (tierRank t + 1) (int (length QUALITY_TIERS) - 1))"

definition effectiveStartTier ::
  "quality_tier \<Rightarrow> quality_tier option \<Rightarrow> quality_tier option \<Rightarrow> quality_tier" where
  "effectiveStartTier base requested minimum =
     (let cap = nextTier base;
          start = (case requested of
                     None \<Rightarrow> base
                   | Some r \<Rightarrow> maxTier base (if compareTiers r cap \<le> 0 then r else cap))
      in case minimum of None \<Rightarrow> start | Some m \<Rightarrow> maxTier start m)"

definition tierAt :: "int \<Rightarrow> quality_tier" where
  "tierAt rank = QUALITY_TIERS ! nat (min rank (int (length QUALITY_TIERS) - 1))"

section \<open>Cost and latency envelopes\<close>

datatype cost_class = Low | Medium | High | Extreme

type_synonym latency_class = cost_class

datatype class_bound = Bound cost_class | Unbounded

fun CLASS_RANK :: "cost_class \<Rightarrow> int" where
  "CLASS_RANK Low = 0"
| "CLASS_RANK Medium = 1"
| "CLASS_RANK High = 2"
| "CLASS_RANK Extreme = 3"

fun boundRank :: "class_bound \<Rightarrow> int" where
  "boundRank Unbounded = CLASS_RANK Extreme + 1"
| "boundRank (Bound c) = CLASS_RANK c"

record tier_envelope =
  maxCostClass :: class_bound
  maxLatencyClass :: class_bound

fun TIER_ENVELOPES :: "quality_tier \<Rightarrow> tier_envelope" where
  "TIER_ENVELOPES Utility = \<lparr>maxCostClass = Bound Low, maxLatencyClass = Bound Low\<rparr>"
| "TIER_ENVELOPES Economy = \<lparr>maxCostClass = Bound Low, maxLatencyClass = Bound Medium\<rparr>"
| "TIER_ENVELOPES Standard = \<lparr>maxCostClass = Bound Medium, maxLatencyClass = Bound Medium\<rparr>"
| "TIER_ENVELOPES Strong = \<lparr>maxCostClass = Bound High, maxLatencyClass = Bound High\<rparr>"
| "TIER_ENVELOPES Frontier = \<lparr>maxCostClass = Bound Extreme, maxLatencyClass = Bound Extreme\<rparr>"
| "TIER_ENVELOPES MaxTier = \<lparr>maxCostClass = Unbounded, maxLatencyClass = Unbounded\<rparr>"

section \<open>Workload profiles\<close>

datatype workload_intent =
  Explore | Reason | Implement | Debug | Verify | Review | Coordinate | UnknownIntent
datatype workload_mutation = MutNone | MutBounded | MutBroad
datatype workload_scope = ScopeLocal | ScopeMultiFile | ScopeRepoWide
datatype workload_horizon = HorizonShort | HorizonMedium | HorizonLong
datatype workload_verifiability = VerStrong | VerPartial | VerWeak
datatype workspace_state = WsClean | WsPartial | WsFailed
datatype workload_ambiguity = AmbLow | AmbMedium | AmbHigh

record workload_profile =
  wp_intent :: workload_intent
  wp_mutation :: workload_mutation
  wp_scope :: workload_scope
  wp_horizon :: workload_horizon
  wp_verifiability :: workload_verifiability
  wp_workspaceState :: workspace_state
  wp_ambiguity :: workload_ambiguity

fun INTENT_TIER_INTERVALS :: "workload_intent \<Rightarrow> quality_tier \<times> quality_tier" where
  "INTENT_TIER_INTERVALS Explore = (Utility, Standard)"
| "INTENT_TIER_INTERVALS Reason = (Economy, Frontier)"
| "INTENT_TIER_INTERVALS Implement = (Standard, Frontier)"
| "INTENT_TIER_INTERVALS Debug = (Standard, MaxTier)"
| "INTENT_TIER_INTERVALS Verify = (Utility, Standard)"
| "INTENT_TIER_INTERVALS Review = (Standard, Frontier)"
| "INTENT_TIER_INTERVALS Coordinate = (Standard, Frontier)"
| "INTENT_TIER_INTERVALS UnknownIntent = (Standard, MaxTier)"

datatype difficult_modifier =
  ModMutationBroad | ModScopeRepoWide | ModHorizonLong | ModAmbiguityHigh
| ModWorkspaceStatePartial | ModWorkspaceStateFailed

definition difficultModifiers :: "workload_profile \<Rightarrow> difficult_modifier list" where
  "difficultModifiers p =
     (if wp_mutation p = MutBroad then [ModMutationBroad] else [])
   @ (if wp_scope p = ScopeRepoWide then [ModScopeRepoWide] else [])
   @ (if wp_horizon p = HorizonLong then [ModHorizonLong] else [])
   @ (if wp_ambiguity p = AmbHigh then [ModAmbiguityHigh] else [])
   @ (if wp_workspaceState p = WsPartial then [ModWorkspaceStatePartial] else [])
   @ (if wp_workspaceState p = WsFailed then [ModWorkspaceStateFailed] else [])"

record workload_tier_policy =
  tp_requestedTier :: quality_tier
  tp_baseFloor :: quality_tier
  tp_baseCeiling :: quality_tier
  tp_difficultModifiers :: "difficult_modifier list"
  tp_adjustedFloor :: quality_tier
  tp_adjustedCeiling :: quality_tier
  tp_effectiveStart :: quality_tier
  tp_effectiveCeiling :: quality_tier

definition resolveTierPolicy ::
  "workload_profile \<Rightarrow> quality_tier option \<Rightarrow> workload_tier_policy" where
  "resolveTierPolicy profile requestedTier =
     (let requested = (case requestedTier of None \<Rightarrow> Standard | Some t \<Rightarrow> t);
          base = INTENT_TIER_INTERVALS (wp_intent profile);
          modifiers = difficultModifiers profile;
          adjustedFloor = tierAt (tierRank (fst base) + int (length modifiers));
          adjustedCeiling = (if wp_workspaceState profile = WsFailed then MaxTier
                             else tierAt (tierRank (snd base) + int (length modifiers)));
          effectiveStart = maxTier requested adjustedFloor
      in \<lparr>tp_requestedTier = requested, tp_baseFloor = fst base, tp_baseCeiling = snd base,
          tp_difficultModifiers = modifiers, tp_adjustedFloor = adjustedFloor,
          tp_adjustedCeiling = adjustedCeiling, tp_effectiveStart = effectiveStart,
          tp_effectiveCeiling = maxTier adjustedCeiling effectiveStart\<rparr>)"

section \<open>Recovery evidence\<close>

text \<open>
  The argument of \<open>deriveWorkspaceState\<close> is absent, \<open>null\<close> or a record. Its fields are read with
  \<open>?.\<close>, so \<open>null\<close> behaves as a record with neither field.
\<close>

record recovery_evidence =
  re_lifecycle :: "string option"
  re_artifactStatus :: "string option"

datatype recovery_input = RecoveryUndefined | RecoveryNull | RecoveryEvidence recovery_evidence

datatype routing_policy_error = RECOVERY_SOURCE_UNRESOLVABLE string "string option"

definition MAX_EVIDENCE_STRING :: nat where
  "MAX_EVIDENCE_STRING = 128"

fun bounded_evidence :: "string option \<Rightarrow> string" where
  "bounded_evidence (Some s) = take MAX_EVIDENCE_STRING s"
| "bounded_evidence None = ''undefined''"

definition TERMINAL_ARTIFACT_STATUSES :: "string list" where
  "TERMINAL_ARTIFACT_STATUSES = [''done'', ''blocked'', ''cancelled'', ''failed'']"

definition deriveWorkspaceState ::
  "recovery_input \<Rightarrow> (routing_policy_error, workspace_state) result" where
  "deriveWorkspaceState recovery =
     (if recovery = RecoveryUndefined then Inr WsClean
      else
        let lifecycle = (case recovery of RecoveryEvidence r \<Rightarrow> re_lifecycle r | _ \<Rightarrow> None);
            artifactStatus = (case recovery of RecoveryEvidence r \<Rightarrow> re_artifactStatus r | _ \<Rightarrow> None)
        in if lifecycle = Some ''failed'' \<or> lifecycle = Some ''cancelled'' then Inr WsFailed
           else if lifecycle = Some ''recovery_pending''
             then Inr (if artifactStatus = Some ''failed'' then WsFailed else WsPartial)
           else if lifecycle = Some ''handed_off'' \<and> artifactStatus \<noteq> None
                     \<and> the artifactStatus \<in> set TERMINAL_ARTIFACT_STATUSES
             then Inr (if artifactStatus = Some ''failed'' then WsFailed else WsClean)
           else Inl (RECOVERY_SOURCE_UNRESOLVABLE (bounded_evidence lifecycle)
                  (map_option (\<lambda>s. bounded_evidence (Some s)) artifactStatus)))"

section \<open>Ranking operating points\<close>

record scored_operating_point =
  sp_id :: string
  sp_provider :: string
  sp_costClass :: cost_class
  sp_latencyClass :: latency_class
  sp_fitnessByTier :: "quality_tier \<Rightarrow> rat"

definition MAX_ATTEMPTS :: nat where
  "MAX_ATTEMPTS = 4"

datatype chain_exclusion_reason =
  CostClassExceeded | LatencyClassExceeded | AttemptBound | Unavailable
| RequiredResource | RecoveryExcluded

record chain_exclusion =
  ce_id :: string
  ce_provider :: string
  ce_reasons :: "chain_exclusion_reason list"

record ranked_candidates =
  rc_ordered :: "scored_operating_point list"
  rc_excluded :: "chain_exclusion list"

definition exclusion_reasons ::
  "quality_tier \<Rightarrow> scored_operating_point \<Rightarrow> chain_exclusion_reason list" where
  "exclusion_reasons tier p =
     (let envelope = TIER_ENVELOPES tier
      in (if boundRank (maxCostClass envelope) < CLASS_RANK (sp_costClass p)
          then [CostClassExceeded] else [])
       @ (if boundRank (maxLatencyClass envelope) < CLASS_RANK (sp_latencyClass p)
          then [LatencyClassExceeded] else []))"

text \<open>
  \<open>Array.prototype.sort\<close> is stable and its comparator orders by descending fitness, then by
  ascending id, which is the lexicographic order of the key below.
\<close>

definition fitness_key :: "quality_tier \<Rightarrow> scored_operating_point \<Rightarrow> rat \<times> string" where
  "fitness_key tier p = (- sp_fitnessByTier p tier, sp_id p)"

text \<open>The two passes over the ranked points: the best of each provider, then the rest.\<close>

fun best_per_provider ::
  "string set \<Rightarrow> scored_operating_point list \<Rightarrow> scored_operating_point list" where
  "best_per_provider providers [] = []"
| "best_per_provider providers (p # ps) =
     (if sp_provider p \<in> providers then best_per_provider providers ps
      else p # best_per_provider (insert (sp_provider p) providers) ps)"

fun remaining_points ::
  "string set \<Rightarrow> scored_operating_point list \<Rightarrow> scored_operating_point list" where
  "remaining_points chosen [] = []"
| "remaining_points chosen (p # ps) =
     (if sp_id p \<in> chosen then remaining_points chosen ps
      else p # remaining_points (insert (sp_id p) chosen) ps)"

definition rankFallbackCandidates ::
  "scored_operating_point list \<Rightarrow> quality_tier \<Rightarrow> ranked_candidates" where
  "rankFallbackCandidates points effectiveTier =
     (let eligible = filter (\<lambda>p. exclusion_reasons effectiveTier p = []) points;
          excluded = map (\<lambda>p. \<lparr>ce_id = sp_id p, ce_provider = sp_provider p,
                               ce_reasons = exclusion_reasons effectiveTier p\<rparr>)
                       (filter (\<lambda>p. exclusion_reasons effectiveTier p \<noteq> []) points);
          ranked = sort_key (fitness_key effectiveTier) eligible;
          first = best_per_provider {} ranked;
          rest = remaining_points (set (map sp_id first)) ranked
      in \<lparr>rc_ordered = first @ rest, rc_excluded = sort_key ce_id excluded\<rparr>)"

section \<open>The tiers are a linear order\<close>

lemma tierRank_simps [simp]:
  "tierRank Utility = 0" "tierRank Economy = 1" "tierRank Standard = 2"
  "tierRank Strong = 3" "tierRank Frontier = 4" "tierRank MaxTier = 5"
  by (simp_all add: tierRank_def QUALITY_TIERS_def)

lemma tierRank_inj [simp]: "tierRank a = tierRank b \<longleftrightarrow> a = b"
  by (cases a; cases b) simp_all

lemma tierRank_bounds: "0 \<le> tierRank t" "tierRank t \<le> 5"
  by (cases t; simp)+

instantiation quality_tier :: linorder
begin

definition less_eq_quality_tier :: "quality_tier \<Rightarrow> quality_tier \<Rightarrow> bool" where
  "less_eq_quality_tier a b \<longleftrightarrow> tierRank a \<le> tierRank b"

definition less_quality_tier :: "quality_tier \<Rightarrow> quality_tier \<Rightarrow> bool" where
  "less_quality_tier a b \<longleftrightarrow> tierRank a < tierRank b"

instance
  by intro_classes (auto simp: less_eq_quality_tier_def less_quality_tier_def)

end

lemmas tier_order = less_eq_quality_tier_def less_quality_tier_def

lemma maxTier_max [simp]: "maxTier a b = max a b"
  by (auto simp: maxTier_def compareTiers_def max_def tier_order)

lemma compareTiers_le [simp]: "compareTiers a b \<le> 0 \<longleftrightarrow> a \<le> b"
  by (simp add: compareTiers_def tier_order)

lemma nextTier_simps [simp]:
  "nextTier Utility = Economy" "nextTier Economy = Standard" "nextTier Standard = Strong"
  "nextTier Strong = Frontier" "nextTier Frontier = MaxTier" "nextTier MaxTier = MaxTier"
  by (simp_all add: nextTier_def QUALITY_TIERS_def)

lemma nextTier_above: "t \<le> nextTier t"
  by (cases t) (simp_all add: tier_order)

lemma le_MaxTier [simp]: "t \<le> MaxTier"
  by (cases t) (simp_all add: tier_order)

lemma tierAt_tierRank [simp]: "tierAt (tierRank t) = t"
  by (cases t) (simp_all add: tierAt_def QUALITY_TIERS_def)

lemma nat_small_cases: "n < 6 \<Longrightarrow> n = 0 \<or> n = 1 \<or> n = 2 \<or> n = 3 \<or> n = 4 \<or> n = (5::nat)"
  by arith

lemma tierRank_tierAt: "0 \<le> r \<Longrightarrow> tierRank (tierAt r) = min r 5"
proof -
  assume r: "0 \<le> r"
  define n where "n = nat (min r 5)"
  have "n < 6" using r by (simp add: n_def)
  then have "tierRank (QUALITY_TIERS ! n) = int n"
    by (drule_tac nat_small_cases) (auto simp: QUALITY_TIERS_def)
  then show ?thesis using r by (simp add: tierAt_def n_def QUALITY_TIERS_def)
qed

lemma tierAt_mono: "0 \<le> a \<Longrightarrow> a \<le> b \<Longrightarrow> tierAt a \<le> tierAt b"
  by (simp add: tier_order tierRank_tierAt)

lemma intent_interval_le: "fst (INTENT_TIER_INTERVALS i) \<le> snd (INTENT_TIER_INTERVALS i)"
  by (cases i) (simp_all add: tier_order)

lemma effectiveStartTier_eq:
  "effectiveStartTier f r m =
     (let start = (case r of None \<Rightarrow> f | Some t \<Rightarrow> max f (min t (nextTier f)))
      in case m of None \<Rightarrow> start | Some t \<Rightarrow> max start t)"
  by (simp add: effectiveStartTier_def min_def split: option.split)

section \<open>Ranking lemmas\<close>

lemma best_per_provider_subset: "set (best_per_provider P ps) \<subseteq> set ps"
  by (induction P ps rule: best_per_provider.induct) auto

lemma providers_best_per_provider:
  "sp_provider ` set (best_per_provider P ps) = sp_provider ` set ps - P"
  by (induction P ps rule: best_per_provider.induct) auto

lemma distinct_best_per_provider: "distinct (map sp_provider (best_per_provider P ps))"
proof (induction P ps rule: best_per_provider.induct)
  case (2 P p ps)
  have "sp_provider p \<notin> sp_provider ` set (best_per_provider (insert (sp_provider p) P) ps)"
    unfolding providers_best_per_provider by simp
  with 2 show ?case by (auto simp: image_iff)
qed simp

lemma sorted_best_per_provider:
  "sorted (map k ps) \<Longrightarrow> sorted (map k (best_per_provider P ps))"
  by (induction P ps rule: best_per_provider.induct)
     (auto dest: subsetD [OF best_per_provider_subset])

lemma best_per_provider_best:
  "sorted (map k ps) \<Longrightarrow> p \<in> set (best_per_provider P ps) \<Longrightarrow> q \<in> set ps \<Longrightarrow>
   sp_provider q = sp_provider p \<Longrightarrow> k p \<le> k q"
proof (induction P ps rule: best_per_provider.induct)
  case (2 P r ps)
  have notin: "sp_provider p \<notin> P"
    using 2(4) providers_best_per_provider [of P "r # ps"] by blast
  show ?case
  proof (cases "sp_provider r \<in> P")
    case True
    with notin 2(6) have "q \<noteq> r" by auto
    with True 2 show ?thesis by auto
  next
    case False
    show ?thesis
    proof (cases "p = r")
      case True
      with 2(3,5) show ?thesis by auto
    next
      case pr: False
      with False 2(4) have "p \<in> set (best_per_provider (insert (sp_provider r) P) ps)" by simp
      moreover from this have "sp_provider p \<noteq> sp_provider r"
        using providers_best_per_provider [of "insert (sp_provider r) P" ps] by blast
      ultimately show ?thesis using 2 False by auto
    qed
  qed
qed simp

lemma remaining_points_filter:
  "distinct (map sp_id ps) \<Longrightarrow>
   remaining_points C ps = filter (\<lambda>p. sp_id p \<notin> C) ps"
proof (induction C ps rule: remaining_points.induct)
  case (2 C p ps)
  then have "filter (\<lambda>q. sp_id q \<notin> insert (sp_id p) C) ps = filter (\<lambda>q. sp_id q \<notin> C) ps"
    by (intro filter_cong) (auto simp: image_iff)
  with 2 show ?case by auto
qed simp

lemma mset_best_and_remaining:
  assumes "distinct (map sp_id ps)"
  shows "mset (best_per_provider {} ps
                @ remaining_points (set (map sp_id (best_per_provider {} ps))) ps) = mset ps"
proof -
  let ?b = "best_per_provider {} ps"
  have inj: "inj_on sp_id (set ps)" and "distinct ps"
    using assms by (simp_all add: distinct_map)
  have "distinct ?b"
    using distinct_best_per_provider [of "{}" ps] by (simp add: distinct_map)
  have "filter (\<lambda>p. sp_id p \<notin> sp_id ` set ?b) ps = filter (\<lambda>p. p \<notin> set ?b) ps"
    using inj best_per_provider_subset [of "{}" ps]
    by (intro filter_cong) (auto dest: inj_onD)
  then have "distinct (?b @ remaining_points (set (map sp_id ?b)) ps)"
    and "set (?b @ remaining_points (set (map sp_id ?b)) ps) = set ps"
    using \<open>distinct ?b\<close> \<open>distinct ps\<close> best_per_provider_subset [of "{}" ps] assms
    by (auto simp: remaining_points_filter)
  then show ?thesis using \<open>distinct ps\<close> set_eq_iff_mset_eq_distinct by blast
qed

section \<open>Properties\<close>

text \<open>
  The effective start tier: it is never below the workload floor, an explicit request raises it
  by at most one tier, and a recovery minimum is always respected and is the only thing that can
  lift the start above that cap.
\<close>

theorem effective_start_tier_bounds:
  "f \<le> effectiveStartTier f r m
   \<and> effectiveStartTier f None None = f
   \<and> effectiveStartTier f r None \<in> {f, nextTier f}
   \<and> effectiveStartTier f (Some q) None = max f (min q (nextTier f))
   \<and> t \<le> effectiveStartTier f r (Some t)
   \<and> effectiveStartTier f r (Some t) \<le> max (nextTier f) t"
proof -
  have "effectiveStartTier f r None \<in> {f, nextTier f}"
  proof (cases r)
    case (Some q)
    then show ?thesis by (cases f; cases q) (simp_all add: effectiveStartTier_eq tier_order
          max_def min_def)
  qed (simp add: effectiveStartTier_eq)
  then show ?thesis
    using nextTier_above [of f]
    by (auto simp: effectiveStartTier_eq Let_def max_def min_def split: option.split)
qed

text \<open>
  The resolved tier interval of a workload: the effective start is the larger of the request
  and the adjusted floor, the adjusted floor is the intent floor raised by one rank per difficult
  modifier and clamped at the top, and the interval is never empty.
\<close>

theorem resolve_tier_policy_interval:
  "let pol = resolveTierPolicy p r; k = int (length (difficultModifiers p));
       base = INTENT_TIER_INTERVALS (wp_intent p)
   in tierRank (tp_adjustedFloor pol) = min 5 (tierRank (fst base) + k)
      \<and> tp_effectiveStart pol = max (tp_requestedTier pol) (tp_adjustedFloor pol)
      \<and> tp_adjustedFloor pol \<le> tp_adjustedCeiling pol
      \<and> tp_effectiveStart pol \<le> tp_effectiveCeiling pol
      \<and> fst base \<le> tp_effectiveStart pol"
proof -
  let ?base = "INTENT_TIER_INTERVALS (wp_intent p)"
  let ?k = "int (length (difficultModifiers p))"
  have nonneg: "0 \<le> tierRank (fst ?base) + ?k"
    using tierRank_bounds(1) by simp
  have rank: "tierRank (tierAt (tierRank (fst ?base) + ?k)) = min 5 (tierRank (fst ?base) + ?k)"
    using nonneg by (simp add: tierRank_tierAt min.commute)
  have base_le: "fst ?base \<le> tierAt (tierRank (fst ?base) + ?k)"
    using rank tierRank_bounds(2) [of "fst ?base"] by (simp add: tier_order)
  have "tierAt (tierRank (fst ?base) + ?k) \<le> tierAt (tierRank (snd ?base) + ?k)"
    using intent_interval_le [of "wp_intent p"] nonneg by (intro tierAt_mono) (simp_all add: tier_order)
  with rank base_le show ?thesis
    by (auto simp: resolveTierPolicy_def Let_def intro: le_max_iff_disj [THEN iffD2] max.coboundedI2)
qed

text \<open>
  Ranking loses no operating point: with distinct ids, the ordering is a permutation of the
  points inside the tier envelope, and exactly the other points are excluded, each with at least
  one reason.
\<close>

theorem rank_fallback_partition:
  assumes "distinct (map sp_id points)"
  shows "mset (rc_ordered (rankFallbackCandidates points t))
           = mset (filter (\<lambda>p. exclusion_reasons t p = []) points)
         \<and> mset (map ce_id (rc_excluded (rankFallbackCandidates points t)))
           = mset (map sp_id (filter (\<lambda>p. exclusion_reasons t p \<noteq> []) points))
         \<and> (\<forall>e \<in> set (rc_excluded (rankFallbackCandidates points t)). ce_reasons e \<noteq> [])"
proof -
  let ?el = "filter (\<lambda>p. exclusion_reasons t p = []) points"
  have ids: "distinct (map sp_id (sort_key (fitness_key t) ?el))"
    using assms
    by (metis (no_types, lifting) distinct_map_filter_ne mset_map mset_sort mset_eq_imp_distinct_iff)
  have "mset (rc_ordered (rankFallbackCandidates points t)) = mset ?el"
    using mset_best_and_remaining [OF ids]
    by (simp add: rankFallbackCandidates_def Let_def)
  moreover have "mset (map ce_id (rc_excluded (rankFallbackCandidates points t)))
      = mset (map sp_id (filter (\<lambda>p. exclusion_reasons t p \<noteq> []) points))"
    by (simp add: rankFallbackCandidates_def Let_def image_mset.compositionality comp_def)
  ultimately show ?thesis
    by (auto simp: rankFallbackCandidates_def Let_def)
qed

definition example_points :: "scored_operating_point list" where
  "example_points =
     [\<lparr>sp_id = ''a'', sp_provider = ''x'', sp_costClass = Low, sp_latencyClass = Low,
       sp_fitnessByTier = (\<lambda>_. 1)\<rparr>,
      \<lparr>sp_id = ''b'', sp_provider = ''x'', sp_costClass = Extreme, sp_latencyClass = Low,
       sp_fitnessByTier = (\<lambda>_. 2)\<rparr>,
      \<lparr>sp_id = ''c'', sp_provider = ''y'', sp_costClass = Low, sp_latencyClass = Low,
       sp_fitnessByTier = (\<lambda>_. 3)\<rparr>]"

theorem rank_fallback_partition_witness:
  "mset (rc_ordered (rankFallbackCandidates example_points Standard))
     = mset (filter (\<lambda>p. exclusion_reasons Standard p = []) example_points)"
proof -
  have "distinct (map sp_id example_points)" by (simp add: example_points_def)
  then show ?thesis using rank_fallback_partition [of example_points Standard] by simp
qed

text \<open>
  C25. Provider-first fallback order: the ordering starts with exactly one point of every eligible
  provider, that provider's best by fitness and then id, in best-first order; then follow all the
  other eligible points, best first: the two parts together are exactly the eligible points, each
  as often as it was given, so the second pass may not lose or repeat one.
\<close>

theorem rank_fallback_provider_first:
  assumes "distinct (map sp_id points)"
  shows "\<exists>first rest. rc_ordered (rankFallbackCandidates points t) = first @ rest
     \<and> distinct (map sp_provider first)
     \<and> sp_provider ` set first
         = sp_provider ` {p \<in> set points. exclusion_reasons t p = []}
     \<and> (\<forall>p \<in> set first. \<forall>q \<in> set points. exclusion_reasons t q = [] \<and> sp_provider q = sp_provider p
           \<longrightarrow> fitness_key t p \<le> fitness_key t q)
     \<and> mset first + mset rest = mset (filter (\<lambda>p. exclusion_reasons t p = []) points)
     \<and> sorted (map (fitness_key t) first) \<and> sorted (map (fitness_key t) rest)"
proof -
  let ?el = "filter (\<lambda>p. exclusion_reasons t p = []) points"
  let ?ranked = "sort_key (fitness_key t) ?el"
  let ?first = "best_per_provider {} ?ranked"
  let ?rest = "remaining_points (set (map sp_id ?first)) ?ranked"
  have ids: "distinct (map sp_id ?ranked)"
    using assms
    by (metis (no_types, lifting) distinct_map_filter_ne mset_map mset_sort mset_eq_imp_distinct_iff)
  have srt: "sorted (map (fitness_key t) ?ranked)" by simp
  have "rc_ordered (rankFallbackCandidates points t) = ?first @ ?rest"
    by (simp add: rankFallbackCandidates_def Let_def)
  moreover have "mset ?first + mset ?rest = mset ?el"
    using mset_best_and_remaining [OF ids] by simp
  moreover have "sp_provider ` set ?first = sp_provider ` {p \<in> set points. exclusion_reasons t p = []}"
    by (simp add: providers_best_per_provider)
  moreover have "sorted (map (fitness_key t) ?rest)"
    unfolding remaining_points_filter [OF ids] by (rule sorted_filter) (rule srt)
  moreover have "\<forall>p \<in> set ?first. \<forall>q \<in> set points.
      exclusion_reasons t q = [] \<and> sp_provider q = sp_provider p \<longrightarrow> fitness_key t p \<le> fitness_key t q"
    using best_per_provider_best [OF srt] by auto
  ultimately show ?thesis
    using distinct_best_per_provider [of "{}" ?ranked] sorted_best_per_provider [OF srt] by blast
qed

theorem rank_fallback_provider_first_witness:
  "\<exists>first rest. rc_ordered (rankFallbackCandidates example_points Standard) = first @ rest
     \<and> sp_provider ` set first = {''x'', ''y''}
     \<and> mset first + mset rest = mset [example_points ! 0, example_points ! 2]"
proof -
  have "distinct (map sp_id example_points)" by (simp add: example_points_def)
  from rank_fallback_provider_first [OF this, of Standard]
  obtain first rest where ord: "rc_ordered (rankFallbackCandidates example_points Standard) = first @ rest"
    and prov: "sp_provider ` set first
         = sp_provider ` {p \<in> set example_points. exclusion_reasons Standard p = []}"
    and all: "mset first + mset rest
         = mset (filter (\<lambda>p. exclusion_reasons Standard p = []) example_points)" by blast
  have el: "filter (\<lambda>p. exclusion_reasons Standard p = []) example_points
      = [example_points ! 0, example_points ! 2]"
    by (simp add: example_points_def exclusion_reasons_def)
  then have "{p \<in> set example_points. exclusion_reasons Standard p = []}
      = {example_points ! 0, example_points ! 2}"
    by (metis set_filter list.simps(15) empty_set)
  then have "sp_provider ` {p \<in> set example_points. exclusion_reasons Standard p = []} = {''x'', ''y''}"
    by (simp add: example_points_def)
  with ord prov all [unfolded el] show ?thesis by metis
qed

text \<open>
  Recovery evidence is classified only when it proves a terminal prior run: the error is raised
  exactly when the lifecycle is neither terminal nor an unresolved dead host's run nor a hand-off
  with a terminal artifact record, and a failed lifecycle or artifact always yields \<open>failed\<close>.
\<close>

theorem derive_workspace_state_terminal:
  "((\<exists>e. deriveWorkspaceState (RecoveryEvidence r) = Inl e)
      \<longleftrightarrow> re_lifecycle r \<notin> {Some ''failed'', Some ''cancelled'', Some ''recovery_pending''}
         \<and> \<not> (re_lifecycle r = Some ''handed_off''
              \<and> (\<exists>s \<in> set TERMINAL_ARTIFACT_STATUSES. re_artifactStatus r = Some s)))
   \<and> (deriveWorkspaceState (RecoveryEvidence r) = Inr WsFailed
      \<longleftrightarrow> re_lifecycle r \<in> {Some ''failed'', Some ''cancelled''}
         \<or> re_artifactStatus r = Some ''failed''
           \<and> re_lifecycle r \<in> {Some ''recovery_pending'', Some ''handed_off''})
   \<and> (\<exists>e. deriveWorkspaceState RecoveryNull = Inl e)"
  by (auto simp: deriveWorkspaceState_def Let_def TERMINAL_ARTIFACT_STATUSES_def)

end
