(* ===== verification/Sessions.thy ===== *)
theory Sessions
  imports Prelude Complex_Main
begin

text \<open>
  Native session identities and their hashed keys: the four-part \<open>agent_session\<close> record of
  \<open>src/supervision/protocol.ts\<close>, JSON string literals as \<open>JSON.stringify\<close> prints them, and
  \<open>managerSessionKey\<close> of \<open>src/daemon/intents.ts\<close>.

  What the program takes from its runtime (the SHA-256 digest, \<open>Date.parse\<close>,
  \<open>Date.prototype.toISOString\<close>, the printing of numbers) is the record \<open>ambient\<close>, an argument of the definitions that use it.
  \<open>Date.parse\<close> answers \<open>None\<close> for \<open>NaN\<close>.
\<close>

record ambient =
  am_sha256 :: "string \<Rightarrow> string"
  am_dateParse :: "string \<Rightarrow> int option"
  am_iso :: "int \<Rightarrow> string"
  am_numStr :: "rat \<Rightarrow> string"

record agent_session =
  as_source :: string
  as_agent :: string
  as_kind :: string
  as_value :: string

section \<open>JSON string literals\<close>

definition hex_digit :: "nat \<Rightarrow> char" where
  "hex_digit n = ''0123456789abcdef'' ! n"

text \<open>
  \<open>JSON.stringify\<close> escapes the quote, the backslash and the control characters below 32; every
  other code unit below 256 is copied.
\<close>

definition json_escape :: "char \<Rightarrow> string" where
  "json_escape c =
     (let n = (of_char c :: nat) in
      if c = CHR 0x22 then [CHR 0x5C, CHR 0x22]
      else if c = CHR 0x5C then [CHR 0x5C, CHR 0x5C]
      else if n = 8 then [CHR 0x5C, CHR ''b'']
      else if n = 9 then [CHR 0x5C, CHR ''t'']
      else if n = 10 then [CHR 0x5C, CHR ''n'']
      else if n = 12 then [CHR 0x5C, CHR ''f'']
      else if n = 13 then [CHR 0x5C, CHR ''r'']
      else if n < 32 then [CHR 0x5C, CHR ''u'', CHR ''0'', CHR ''0'', hex_digit (n div 16), hex_digit (n mod 16)]
      else [c])"

definition json_string :: "string \<Rightarrow> string" where
  "json_string s = CHR 0x22 # concat (map json_escape s) @ [CHR 0x22]"

fun join_with :: "string \<Rightarrow> string list \<Rightarrow> string" where
  "join_with sep [] = []"
| "join_with sep [x] = x"
| "join_with sep (x # y # xs) = x @ sep @ join_with sep (y # xs)"

definition session_json :: "agent_session \<Rightarrow> string" where
  "session_json s = ''['' @ join_with '','' (map json_string [as_source s, as_agent s, as_kind s, as_value s]) @ '']''"

section \<open>The manager session key\<close>

text \<open>The key, or the first field that is not a usable identifier.\<close>

definition managerSessionKey :: "ambient \<Rightarrow> agent_session \<Rightarrow> (string, string) result" where
  "managerSessionKey am s =
     (if \<not> usable (as_source s) then Inl ''managerSession.source''
      else if \<not> usable (as_agent s) then Inl ''managerSession.agent''
      else if \<not> usable (as_kind s) then Inl ''managerSession.kind''
      else if \<not> usable (as_value s) then Inl ''managerSession.value''
      else Inr (am_sha256 am (session_json s)))"

section \<open>JSON literals are uniquely readable\<close>

lemma of_char_less_256: "(of_char c :: nat) < 256"
  by (metis of_char_mod_256 mod_less_divisor zero_less_numeral)

text \<open>A prefix decoder of one escaped character, the inverse of the escaping.\<close>

lemma json_escape_not_quote: "json_escape c \<noteq> [] \<and> hd (json_escape c) \<noteq> CHR 0x22"
  by (auto simp: json_escape_def Let_def)

lemma hex_digit_inj: "a < 16 \<Longrightarrow> b < 16 \<Longrightarrow> hex_digit a = hex_digit b \<Longrightarrow> a = b"
proof -
  have d: "distinct ''0123456789abcdef''" by simp
  have l: "length ''0123456789abcdef'' = 16" by simp
  assume "a < 16" "b < 16" "hex_digit a = hex_digit b"
  then show "a = b"
    using nth_eq_iff_index_eq [OF d, of a b] l by (simp add: hex_digit_def)
qed

lemma of_char_nat_eq: "(of_char c :: nat) = of_char d \<Longrightarrow> c = d"
  by simp

definition escape_code :: "char \<Rightarrow> nat" where
  "escape_code c =
     (let n = (of_char c :: nat) in
      if n = 34 then 1 else if n = 92 then 2 else if n = 8 then 3 else if n = 9 then 4
      else if n = 10 then 5 else if n = 12 then 6 else if n = 13 then 7 else if n < 32 then 8 else 0)"

lemma json_escape_cases:
  "escape_code c = 1 \<and> c = CHR 0x22 \<and> json_escape c = [CHR 0x5C, CHR 0x22]
 \<or> escape_code c = 2 \<and> c = CHR 0x5C \<and> json_escape c = [CHR 0x5C, CHR 0x5C]
 \<or> escape_code c = 3 \<and> c = CHR 0x08 \<and> json_escape c = [CHR 0x5C, CHR ''b'']
 \<or> escape_code c = 4 \<and> c = CHR 0x09 \<and> json_escape c = [CHR 0x5C, CHR ''t'']
 \<or> escape_code c = 5 \<and> c = CHR 0x0A \<and> json_escape c = [CHR 0x5C, CHR ''n'']
 \<or> escape_code c = 6 \<and> c = CHR 0x0C \<and> json_escape c = [CHR 0x5C, CHR ''f'']
 \<or> escape_code c = 7 \<and> c = CHR 0x0D \<and> json_escape c = [CHR 0x5C, CHR ''r'']
 \<or> escape_code c = 8 \<and> (of_char c :: nat) < 32 \<and>
     json_escape c = [CHR 0x5C, CHR ''u'', CHR ''0'', CHR ''0'',
        hex_digit (of_char c div 16), hex_digit (of_char c mod 16)]
 \<or> escape_code c = 0 \<and> c \<noteq> CHR 0x22 \<and> c \<noteq> CHR 0x5C \<and> json_escape c = [c]"
proof -
  have q: "c = CHR 0x22 \<longleftrightarrow> (of_char c :: nat) = 34" and b: "c = CHR 0x5C \<longleftrightarrow> (of_char c :: nat) = 92"
    using of_char_eq_iff [where ?'a = nat, of c "CHR 0x22"]
      of_char_eq_iff [where ?'a = nat, of c "CHR 0x5C"] by simp_all
  have n: "c = CHR 0x08 \<longleftrightarrow> (of_char c :: nat) = 8" "c = CHR 0x09 \<longleftrightarrow> (of_char c :: nat) = 9"
    "c = CHR 0x0A \<longleftrightarrow> (of_char c :: nat) = 10" "c = CHR 0x0C \<longleftrightarrow> (of_char c :: nat) = 12"
    "c = CHR 0x0D \<longleftrightarrow> (of_char c :: nat) = 13"
    using of_char_eq_iff [where ?'a = nat, of c "CHR 0x08"]
      of_char_eq_iff [where ?'a = nat, of c "CHR 0x09"]
      of_char_eq_iff [where ?'a = nat, of c "CHR 0x0A"]
      of_char_eq_iff [where ?'a = nat, of c "CHR 0x0C"]
      of_char_eq_iff [where ?'a = nat, of c "CHR 0x0D"] by simp_all
  show ?thesis
    unfolding json_escape_def escape_code_def Let_def q b n by auto
qed

lemma json_escape_prefix:
  assumes "json_escape c @ r = json_escape d @ t"
  shows "c = d \<and> r = t"
proof -
  have u: "c = d" if "(of_char c :: nat) < 32" "(of_char d :: nat) < 32"
      "hex_digit (of_char c div 16) = hex_digit (of_char d div 16)"
      "hex_digit (of_char c mod 16) = hex_digit (of_char d mod 16)"
  proof -
    have "(of_char c :: nat) div 16 = of_char d div 16" "(of_char c :: nat) mod 16 = of_char d mod 16"
      using that by (auto intro!: hex_digit_inj)
    then have "(of_char c :: nat) = of_char d"
      by (metis div_mult_mod_eq)
    then show ?thesis by (rule of_char_nat_eq)
  qed
  show ?thesis
    using assms json_escape_cases [of c] json_escape_cases [of d] u by (elim disjE conjE) simp_all
qed

lemma json_chars_prefix:
  "concat (map json_escape s) @ CHR 0x22 # r = concat (map json_escape t) @ CHR 0x22 # r'
   \<Longrightarrow> s = t \<and> r = r'"
proof (induction s arbitrary: t)
  case Nil
  show ?case
  proof (cases t)
    case (Cons d u)
    then have "hd (json_escape d @ concat (map json_escape u) @ CHR 0x22 # r') = CHR 0x22"
      using Nil.prems by (metis append.assoc append_Nil concat.simps list.map list.sel(1))
    then show ?thesis using json_escape_not_quote [of d] by simp
  qed (use Nil.prems in simp)
next
  case (Cons c s)
  show ?case
  proof (cases t)
    case Nil
    then have "hd (json_escape c @ concat (map json_escape s) @ CHR 0x22 # r) = CHR 0x22"
      using Cons.prems by (metis append.assoc append_Nil concat.simps list.map list.sel(1))
    then show ?thesis using json_escape_not_quote [of c] by simp
  next
    case (Cons d u)
    with Cons.prems have "c = d \<and> concat (map json_escape s) @ CHR 0x22 # r
        = concat (map json_escape u) @ CHR 0x22 # r'"
      using json_escape_prefix by auto
    with Cons.IH Cons show ?thesis by auto
  qed
qed

lemma json_string_prefix: "json_string s @ r = json_string t @ r' \<Longrightarrow> s = t \<and> r = r'"
  using json_chars_prefix [of s r t r'] by (simp add: json_string_def)

lemma session_json_inj: "session_json s = session_json t \<Longrightarrow> s = t"
proof -
  assume "session_json s = session_json t"
  then have e: "json_string (as_source s) @ '','' @ json_string (as_agent s) @ '','' @
      json_string (as_kind s) @ '','' @ json_string (as_value s) @ '']''
    = json_string (as_source t) @ '','' @ json_string (as_agent t) @ '','' @
      json_string (as_kind t) @ '','' @ json_string (as_value t) @ '']''"
    by (simp add: session_json_def)
  from json_string_prefix [OF e] have 1: "as_source s = as_source t" and
    "json_string (as_agent s) @ '','' @ json_string (as_kind s) @ '','' @ json_string (as_value s) @ '']''
   = json_string (as_agent t) @ '','' @ json_string (as_kind t) @ '','' @ json_string (as_value t) @ '']''"
    by simp_all
  from json_string_prefix [OF this(2)] have 2: "as_agent s = as_agent t" and
    "json_string (as_kind s) @ '','' @ json_string (as_value s) @ '']''
   = json_string (as_kind t) @ '','' @ json_string (as_value t) @ '']''"
    by simp_all
  from json_string_prefix [OF this(2)] have 3: "as_kind s = as_kind t" and
    "json_string (as_value s) @ '']'' = json_string (as_value t) @ '']''"
    by simp_all
  from json_string_prefix [OF this(2)] have "as_value s = as_value t" by simp
  with 1 2 3 show "s = t" by simp
qed

lemma managerSessionKey_eq_Inr:
  "managerSessionKey am s = Inr k \<Longrightarrow> k = am_sha256 am (session_json s)"
  by (auto simp: managerSessionKey_def split: if_splits)

section \<open>Property\<close>

text \<open>
  One key is one native session: two sessions with keys have the same key only when they agree
  in all four fields, provided SHA-256 does not collide on their two canonical encodings.
\<close>

theorem manager_session_key_injective:
  assumes "managerSessionKey am s = Inr k" and "managerSessionKey am t = Inr k"
    and no_collision: "am_sha256 am (session_json s) = am_sha256 am (session_json t)
       \<Longrightarrow> session_json s = session_json t"
  shows "s = t"
proof -
  have "am_sha256 am (session_json s) = am_sha256 am (session_json t)"
    using assms(1,2) [THEN managerSessionKey_eq_Inr] by simp
  then have "session_json s = session_json t" by (rule no_collision)
  then show ?thesis by (rule session_json_inj)
qed

definition example_ambient :: ambient where
  "example_ambient = \<lparr>am_sha256 = id, am_dateParse = (\<lambda>_. Some 0), am_iso = (\<lambda>_. ''2026-01-01T00:00:00.000Z''),
     am_numStr = (\<lambda>_. ''0'')\<rparr>"

definition example_session :: agent_session where
  "example_session = \<lparr>as_source = ''herdr'', as_agent = ''pi'', as_kind = ''id'', as_value = ''s1''\<rparr>"

theorem manager_session_key_injective_witness:
  "managerSessionKey example_ambient example_session = Inr (session_json example_session)
   \<and> managerSessionKey example_ambient (example_session\<lparr>as_value := ''s2''\<rparr>) \<noteq> Inr (session_json example_session)"
proof
  show k: "managerSessionKey example_ambient example_session = Inr (session_json example_session)"
    by (simp add: managerSessionKey_def example_session_def example_ambient_def usable_def has_ctl_def
        ctl_chars_def)
  show "managerSessionKey example_ambient (example_session\<lparr>as_value := ''s2''\<rparr>)
      \<noteq> Inr (session_json example_session)"
  proof
    assume eq: "managerSessionKey example_ambient (example_session\<lparr>as_value := ''s2''\<rparr>)
      = Inr (session_json example_session)"
    have "example_session\<lparr>as_value := ''s2''\<rparr> = example_session"
      by (rule manager_session_key_injective [OF eq k]) (simp add: example_ambient_def)
    then show False by (simp add: example_session_def)
  qed
qed

end
