(* ===== verification/Redaction.thy ===== *)
theory Redaction
  imports Sessions Complex_Main
begin

text \<open>
  The model-boundary redaction of \<open>src/redaction.ts\<close>. A JavaScript value without sharing is a tree
  (\<open>jsval\<close>); \<open>JUndef\<close> also stands for functions and symbols, which the code treats alike. A value
  with sharing, cycles and \<open>toJSON\<close> methods lives in an explicit heap (\<open>hval\<close>), because the cycle
  marker and the call of \<open>toJSON\<close> depend on object identity. \<open>modelSafeJson\<close> is given on both: the
  heap version is the code's recursion with fuel, the tree version is what it computes on the plain
  records the other components write, and the two are related by \<open>hproject_tree\<close>.
\<close>

section \<open>Values\<close>

datatype jsval =
    JUndef | JNull | JBool bool | JNum rat | JNonFinite | JBig int | JStr string
  | JArr "jsval list" | JObj "(string \<times> jsval) list"

definition lower_char :: "char \<Rightarrow> char" where
  "lower_char c = (if is_upper c then char_of (of_char c + (32 :: nat)) else c)"

definition ENVIRONMENT_KEYS :: "string list" where
  "ENVIRONMENT_KEYS = [''env'', ''environment'', ''env_vars'', ''environment_variables'',
     ''environment_overrides'', ''environmentoverrides'']"

definition MODEL_SAFE_DEPTH_LIMIT :: nat where
  "MODEL_SAFE_DEPTH_LIMIT = 32"

definition CYCLIC_MARKER :: string where
  "CYCLIC_MARKER = ''[cyclic]''"

definition DEPTH_LIMIT_MARKER :: string where
  "DEPTH_LIMIT_MARKER = ''[depth limit]''"

definition isEnvironmentKey :: "string \<Rightarrow> bool" where
  "isEnvironmentKey key \<longleftrightarrow> map lower_char key \<in> set ENVIRONMENT_KEYS"

fun carriesText :: "jsval \<Rightarrow> bool" where
  "carriesText (JStr s) = True"
| "carriesText (JArr xs) = (\<exists>x \<in> set xs. carriesText x)"
| "carriesText (JObj kvs) = (\<exists>kv \<in> set kvs. carriesText (snd kv))"
| "carriesText v = False"

definition redactsEnvironment :: "string \<Rightarrow> jsval \<Rightarrow> bool" where
  "redactsEnvironment key v \<longleftrightarrow> isEnvironmentKey key \<and> carriesText v"

fun strip :: "jsval \<Rightarrow> jsval" where
  "strip (JArr xs) = JArr (map strip xs)"
| "strip (JObj kvs) =
     JObj (map (\<lambda>kv. (fst kv, strip (snd kv))) (filter (\<lambda>kv. \<not> redactsEnvironment (fst kv) (snd kv)) kvs))"
| "strip v = v"

definition withoutEnvironment :: "jsval \<Rightarrow> jsval" where
  "withoutEnvironment v = strip v"

section \<open>The projection on trees\<close>

fun nat_digits :: "nat \<Rightarrow> string" where
  "nat_digits n = (if n < 10 then [char_of (48 + n)] else nat_digits (n div 10) @ [char_of (48 + n mod 10)])"

declare nat_digits.simps [simp del]

definition int_digits :: "int \<Rightarrow> string" where
  "int_digits i = (if i < 0 then CHR ''-'' # nat_digits (nat (- i)) else nat_digits (nat i))"

text \<open>\<open>None\<close> is \<open>undefined\<close>: the entry is dropped from an object and \<open>null\<close> in an array.\<close>

fun project :: "nat \<Rightarrow> jsval \<Rightarrow> jsval option" where
  "project d JUndef = None"
| "project d JNull = Some JNull"
| "project d (JBool b) = Some (JBool b)"
| "project d (JNum q) = Some (JNum q)"
| "project d JNonFinite = Some JNull"
| "project d (JBig i) = Some (JStr (int_digits i))"
| "project d (JStr s) = Some (JStr s)"
| "project d (JArr xs) =
     (if d > MODEL_SAFE_DEPTH_LIMIT then Some (JStr DEPTH_LIMIT_MARKER)
      else Some (JArr (map (\<lambda>x. case project (Suc d) x of None \<Rightarrow> JNull | Some y \<Rightarrow> y) xs)))"
| "project d (JObj kvs) =
     (if d > MODEL_SAFE_DEPTH_LIMIT then Some (JStr DEPTH_LIMIT_MARKER)
      else Some (JObj (concat (map (\<lambda>kv. case project (Suc d) (snd kv) of
                  None \<Rightarrow> []
                | Some y \<Rightarrow> if redactsEnvironment (fst kv) y then [] else [(fst kv, y)]) kvs))))"

section \<open>The projection on heaps\<close>

datatype hval =
    HUndef | HNull | HBool bool | HNum rat | HNonFinite | HBig int | HStr string | HRef nat

datatype hcell = HArr "hval list" | HObj "(string \<times> hval) list"

text \<open>
  An object is its cell and, when it has a \<open>toJSON\<close> method, the value the method returns.
\<close>

record hobject =
  ho_cell :: hcell
  ho_toJSON :: "hval option"

type_synonym heap = "nat \<Rightarrow> hobject"

fun seq_results :: "'a option list \<Rightarrow> 'a list option" where
  "seq_results [] = Some []"
| "seq_results (None # xs) = None"
| "seq_results (Some x # xs) = map_option (Cons x) (seq_results xs)"

text \<open>
  \<open>hproject\<close> answers \<open>None\<close> when the fuel runs out, \<open>Some None\<close> for \<open>undefined\<close> and
  \<open>Some (Some v)\<close> for a projected value. The set \<open>seen\<close> holds the objects on the current path: the
  code adds the object before it descends and removes it in the \<open>finally\<close> block.
\<close>

fun hproject :: "nat \<Rightarrow> heap \<Rightarrow> hval \<Rightarrow> nat set \<Rightarrow> nat \<Rightarrow> jsval option option" where
  "hproject 0 h v seen d = None"
| "hproject (Suc n) h HUndef seen d = Some None"
| "hproject (Suc n) h HNull seen d = Some (Some JNull)"
| "hproject (Suc n) h (HBool b) seen d = Some (Some (JBool b))"
| "hproject (Suc n) h (HNum q) seen d = Some (Some (JNum q))"
| "hproject (Suc n) h HNonFinite seen d = Some (Some JNull)"
| "hproject (Suc n) h (HBig i) seen d = Some (Some (JStr (int_digits i)))"
| "hproject (Suc n) h (HStr s) seen d = Some (Some (JStr s))"
| "hproject (Suc n) h (HRef a) seen d =
     (if d > MODEL_SAFE_DEPTH_LIMIT then Some (Some (JStr DEPTH_LIMIT_MARKER))
      else if a \<in> seen then Some (Some (JStr CYCLIC_MARKER))
      else case ho_toJSON (h a) of
        Some v \<Rightarrow> hproject n h v seen d
      | None \<Rightarrow>
          (case ho_cell (h a) of
             HArr xs \<Rightarrow>
               map_option (\<lambda>ys. Some (JArr (map (\<lambda>y. case y of None \<Rightarrow> JNull | Some w \<Rightarrow> w) ys)))
                 (seq_results (map (\<lambda>x. hproject n h x (insert a seen) (Suc d)) xs))
           | HObj kvs \<Rightarrow>
               map_option (\<lambda>ys. Some (JObj (concat (map (\<lambda>(k, y). case y of
                     None \<Rightarrow> []
                   | Some w \<Rightarrow> if redactsEnvironment k w then [] else [(k, w)]) (zip (map fst kvs) ys)))))
                 (seq_results (map (\<lambda>kv. hproject n h (snd kv) (insert a seen) (Suc d)) kvs))))"

text \<open>
  Without \<open>toJSON\<close> methods the recursion goes at most one level below the depth limit, so the fuel
  below always suffices (\<open>modelSafeJson_total\<close>).
\<close>

definition MODEL_SAFE_FUEL :: nat where
  "MODEL_SAFE_FUEL = MODEL_SAFE_DEPTH_LIMIT + 2"

definition modelSafeJson :: "nat \<Rightarrow> heap \<Rightarrow> hval \<Rightarrow> jsval option option" where
  "modelSafeJson fuel h v = hproject fuel h v {} 0"

definition modelSafeTree :: "jsval \<Rightarrow> jsval option" where
  "modelSafeTree v = project 0 v"

section \<open>What a safe value is\<close>

text \<open>No environment-shaped key carries text, at any depth.\<close>

fun env_free :: "jsval \<Rightarrow> bool" where
  "env_free (JArr xs) = (\<forall>x \<in> set xs. env_free x)"
| "env_free (JObj kvs) = (\<forall>kv \<in> set kvs. \<not> redactsEnvironment (fst kv) (snd kv) \<and> env_free (snd kv))"
| "env_free v = True"

text \<open>\<open>JSON.stringify\<close> prints the value as it is: no \<open>undefined\<close>, bigint or non-finite number.\<close>

fun json_safe :: "jsval \<Rightarrow> bool" where
  "json_safe (JArr xs) = (\<forall>x \<in> set xs. json_safe x)"
| "json_safe (JObj kvs) = (\<forall>kv \<in> set kvs. json_safe (snd kv))"
| "json_safe JUndef = False"
| "json_safe JNonFinite = False"
| "json_safe (JBig i) = False"
| "json_safe v = True"

fun json_depth :: "jsval \<Rightarrow> nat" where
  "json_depth (JArr xs) = Suc (Max (insert 0 (json_depth ` set xs)))"
| "json_depth (JObj kvs) = Suc (Max (insert 0 ((\<lambda>kv. json_depth (snd kv)) ` set kvs)))"
| "json_depth v = 0"

lemma seq_results_Some:
  "seq_results xs = Some ys \<longleftrightarrow> xs = map Some ys"
proof (induction xs arbitrary: ys)
  case (Cons x xs)
  then show ?case by (cases x; cases ys) auto
qed auto

lemma seq_results_total: "(\<And>x. x \<in> set xs \<Longrightarrow> x \<noteq> None) \<Longrightarrow> \<exists>ys. seq_results xs = Some ys"
proof (induction xs)
  case (Cons x xs)
  then show ?case by (cases x) fastforce+
qed simp

lemma seq_results_elem:
  "seq_results (map f xs) = Some ys \<Longrightarrow> y \<in> set ys \<Longrightarrow> \<exists>x \<in> set xs. f x = Some y"
proof (induction xs arbitrary: ys)
  case (Cons x xs)
  then show ?case by (cases "f x") auto
qed simp

section \<open>Safety of the projection\<close>

definition safe_at :: "nat \<Rightarrow> jsval \<Rightarrow> bool" where
  "safe_at d r \<longleftrightarrow> env_free r \<and> json_safe r \<and> json_depth r \<le> Suc MODEL_SAFE_DEPTH_LIMIT - d"

lemma safe_at_leaf [simp]:
  "safe_at d JNull" "safe_at d (JBool b)" "safe_at d (JNum q)" "safe_at d (JStr s)"
  by (simp_all add: safe_at_def)

lemma safe_at_arr:
  assumes "d \<le> MODEL_SAFE_DEPTH_LIMIT" and "\<And>x. x \<in> set xs \<Longrightarrow> safe_at (Suc d) x"
  shows "safe_at d (JArr xs)"
proof -
  have "Max (insert 0 (json_depth ` set xs)) \<le> MODEL_SAFE_DEPTH_LIMIT - d"
    using assms(2) by (auto simp: safe_at_def)
  then have "json_depth (JArr xs) \<le> Suc MODEL_SAFE_DEPTH_LIMIT - d"
    unfolding json_depth.simps using assms(1) by (simp only: Suc_diff_le Suc_le_mono)
  moreover have "env_free (JArr xs)" "json_safe (JArr xs)"
    using assms(2) by (simp_all add: safe_at_def)
  ultimately show ?thesis unfolding safe_at_def by blast
qed

lemma safe_at_obj:
  assumes "d \<le> MODEL_SAFE_DEPTH_LIMIT"
    and "\<And>k x. (k, x) \<in> set kvs \<Longrightarrow> safe_at (Suc d) x \<and> \<not> redactsEnvironment k x"
  shows "safe_at d (JObj kvs)"
proof -
  have "json_depth (snd kv) \<le> MODEL_SAFE_DEPTH_LIMIT - d" if "kv \<in> set kvs" for kv
    using assms(2) [of "fst kv" "snd kv"] that by (simp add: safe_at_def)
  then have "Max (insert 0 ((\<lambda>kv. json_depth (snd kv)) ` set kvs)) \<le> MODEL_SAFE_DEPTH_LIMIT - d"
    by auto
  then have "json_depth (JObj kvs) \<le> Suc MODEL_SAFE_DEPTH_LIMIT - d"
    unfolding json_depth.simps using assms(1) by (simp only: Suc_diff_le Suc_le_mono)
  moreover have "env_free (JObj kvs)" "json_safe (JObj kvs)"
    using assms(2) by (force simp: safe_at_def)+
  ultimately show ?thesis unfolding safe_at_def by blast
qed

lemma hproject_safe_at: "hproject n h v seen d = Some (Some r) \<Longrightarrow> safe_at d r"
proof (induction n arbitrary: v seen d r)
  case (Suc n)
  show ?case
  proof (cases v)
    case (HRef a)
    consider "d > MODEL_SAFE_DEPTH_LIMIT" | "d \<le> MODEL_SAFE_DEPTH_LIMIT" "a \<in> seen"
      | w where "d \<le> MODEL_SAFE_DEPTH_LIMIT" "a \<notin> seen" "ho_toJSON (h a) = Some w"
      | xs where "d \<le> MODEL_SAFE_DEPTH_LIMIT" "a \<notin> seen" "ho_toJSON (h a) = None" "ho_cell (h a) = HArr xs"
      | kvs where "d \<le> MODEL_SAFE_DEPTH_LIMIT" "a \<notin> seen" "ho_toJSON (h a) = None" "ho_cell (h a) = HObj kvs"
      by (metis hcell.exhaust not_le option.exhaust)
    then show ?thesis
    proof cases
      case (4 xs)
      with Suc.prems HRef obtain ys where
        ys: "seq_results (map (\<lambda>x. hproject n h x (insert a seen) (Suc d)) xs) = Some ys" and
        r: "r = JArr (map (\<lambda>y. case y of None \<Rightarrow> JNull | Some w \<Rightarrow> w) ys)" by auto
      show ?thesis unfolding r
      proof (rule safe_at_arr [OF 4(1)])
        fix x assume "x \<in> set (map (\<lambda>y. case y of None \<Rightarrow> JNull | Some w \<Rightarrow> w) ys)"
        then obtain y where y: "y \<in> set ys" "x = (case y of None \<Rightarrow> JNull | Some w \<Rightarrow> w)" by auto
        from seq_results_elem [OF ys y(1)] obtain z where "hproject n h z (insert a seen) (Suc d) = Some y"
          by blast
        with y(2) show "safe_at (Suc d) x" by (cases y) (auto dest: Suc.IH)
      qed
    next
      case (5 kvs)
      with Suc.prems HRef obtain ys where
        ys: "seq_results (map (\<lambda>kv. hproject n h (snd kv) (insert a seen) (Suc d)) kvs) = Some ys" and
        r: "r = JObj (concat (map (\<lambda>(k, y). case y of None \<Rightarrow> []
              | Some w \<Rightarrow> if redactsEnvironment k w then [] else [(k, w)]) (zip (map fst kvs) ys)))"
        by auto
      show ?thesis unfolding r
      proof (rule safe_at_obj [OF 5(1)])
        fix k x assume "(k, x) \<in> set (concat (map (\<lambda>(k, y). case y of None \<Rightarrow> []
              | Some w \<Rightarrow> if redactsEnvironment k w then [] else [(k, w)]) (zip (map fst kvs) ys)))"
        then have "Some x \<in> set ys" and nr: "\<not> redactsEnvironment k x"
          by (auto split: option.splits if_splits dest: set_zip_rightD)
        with seq_results_elem [OF ys] Suc.IH show "safe_at (Suc d) x \<and> \<not> redactsEnvironment k x"
          by blast
      qed
    qed (use Suc HRef in auto)
  qed (use Suc.prems in auto)
qed simp

section \<open>The projection always returns on objects without \<open>toJSON\<close>\<close>

lemma hproject_total:
  assumes "\<And>a. ho_toJSON (h a) = None"
  shows "0 < n \<Longrightarrow> MODEL_SAFE_DEPTH_LIMIT + 2 \<le> n + d \<Longrightarrow> \<exists>r. hproject n h v seen d = Some r"
proof (induction n arbitrary: v seen d)
  case (Suc n)
  have IH: "\<exists>r. hproject n h w s (Suc d) = Some r" if "d \<le> MODEL_SAFE_DEPTH_LIMIT" for w s
    using Suc.IH [of "Suc d" w s] Suc.prems that by simp
  show ?case
  proof (cases v)
    case (HRef a)
    show ?thesis
    proof (cases "d \<le> MODEL_SAFE_DEPTH_LIMIT")
      case True
      have total: "\<exists>ys. seq_results (map (\<lambda>x. hproject n h (g x) (insert a seen) (Suc d)) xs) = Some ys"
        for xs :: "'b list" and g
      proof (rule seq_results_total)
        fix x assume "x \<in> set (map (\<lambda>x. hproject n h (g x) (insert a seen) (Suc d)) xs)"
        then obtain y where "x = hproject n h (g y) (insert a seen) (Suc d)" by auto
        then show "x \<noteq> None" using IH [OF True, of "g y" "insert a seen"] by auto
      qed
      show ?thesis
      proof (cases "ho_cell (h a)")
        case (HArr xs)
        with HRef True assms total [of "\<lambda>x. x" xs] show ?thesis by auto
      next
        case (HObj kvs)
        with HRef True assms total [of snd kvs] show ?thesis by auto
      qed
    qed (use HRef in simp)
  qed simp_all
qed simp

section \<open>Trees and heaps\<close>

text \<open>A heap value without sharing on a path and without \<open>toJSON\<close> methods represents a tree.\<close>

inductive represents :: "heap \<Rightarrow> nat set \<Rightarrow> hval \<Rightarrow> jsval \<Rightarrow> bool" for h where
  "represents h seen HUndef JUndef"
| "represents h seen HNull JNull"
| "represents h seen (HBool b) (JBool b)"
| "represents h seen (HNum q) (JNum q)"
| "represents h seen HNonFinite JNonFinite"
| "represents h seen (HBig i) (JBig i)"
| "represents h seen (HStr s) (JStr s)"
| "a \<notin> seen \<Longrightarrow> ho_toJSON (h a) = None \<Longrightarrow> ho_cell (h a) = HArr xs \<Longrightarrow>
   list_all2 (represents h (insert a seen)) xs ts \<Longrightarrow> represents h seen (HRef a) (JArr ts)"
| "a \<notin> seen \<Longrightarrow> ho_toJSON (h a) = None \<Longrightarrow> ho_cell (h a) = HObj kvs \<Longrightarrow>
   list_all2 (\<lambda>kv kt. fst kv = fst kt \<and> represents h (insert a seen) (snd kv) (snd kt)) kvs kts \<Longrightarrow>
   represents h seen (HRef a) (JObj kts)"

lemma hproject_tree:
  "represents h seen v t \<Longrightarrow> MODEL_SAFE_DEPTH_LIMIT + 2 \<le> n + d \<Longrightarrow> 0 < n \<Longrightarrow>
   hproject n h v seen d = Some (project d t)"
proof (induction arbitrary: n d rule: represents.induct)
  case (8 a seen xs ts)
  then obtain m where n: "n = Suc m" using gr0_implies_Suc by blast
  show ?case
  proof (cases "d \<le> MODEL_SAFE_DEPTH_LIMIT")
    case True
    then have "map (\<lambda>x. hproject m h x (insert a seen) (Suc d)) xs = map Some (map (project (Suc d)) ts)"
      using 8 n by (auto simp: list_all2_conv_all_nth intro!: nth_equalityI)
    then have "seq_results (map (\<lambda>x. hproject m h x (insert a seen) (Suc d)) xs)
        = Some (map (project (Suc d)) ts)" by (simp only: seq_results_Some)
    with 8 True n show ?thesis by (simp add: comp_def)
  qed (use 8 n in simp)
next
  case (9 a seen kvs kts)
  then obtain m where n: "n = Suc m" using gr0_implies_Suc by blast
  have keys: "map fst kvs = map fst kts"
    using 9(4) by (auto simp: list_all2_conv_all_nth intro!: nth_equalityI)
  show ?case
  proof (cases "d \<le> MODEL_SAFE_DEPTH_LIMIT")
    case True
    then have "map (\<lambda>kv. hproject m h (snd kv) (insert a seen) (Suc d)) kvs
        = map Some (map (\<lambda>kt. project (Suc d) (snd kt)) kts)"
      using 9 n by (auto simp: list_all2_conv_all_nth intro!: nth_equalityI)
    then have "seq_results (map (\<lambda>kv. hproject m h (snd kv) (insert a seen) (Suc d)) kvs)
        = Some (map (\<lambda>kt. project (Suc d) (snd kt)) kts)" by (simp only: seq_results_Some)
    moreover have "zip (map fst kts) (map (\<lambda>kt. project (Suc d) (snd kt)) kts)
        = map (\<lambda>kt. (fst kt, project (Suc d) (snd kt))) kts"
      by (induction kts) auto
    ultimately show ?thesis using 9(1-3) True n keys
      by (simp add: comp_def case_prod_beta cong: if_cong option.case_cong)
  qed (use 9 n in simp)
qed (auto dest!: gr0_implies_Suc)

section \<open>Stripping\<close>

lemma carriesText_strip: "carriesText (strip v) \<Longrightarrow> carriesText v"
  by (induction v rule: strip.induct) force+

lemma env_free_strip: "env_free (strip v)"
proof (induction v rule: strip.induct)
  case (2 kvs)
  then show ?case
    by (auto simp: redactsEnvironment_def dest: carriesText_strip)
qed auto

lemma strip_env_free: "env_free v \<Longrightarrow> strip v = v"
proof (induction v rule: strip.induct)
  case (1 xs)
  then show ?case by (auto intro: map_idI)
next
  case (2 kvs)
  then have "filter (\<lambda>kv. \<not> redactsEnvironment (fst kv) (snd kv)) kvs = kvs"
    by (auto intro: filter_True)
  with 2 show ?case by (force intro: map_idI)
qed auto

section \<open>Properties\<close>

text \<open>
  C3. Nothing an environment could hold crosses the model boundary: whatever the object graph
  (shared, cyclic, with \<open>toJSON\<close> methods), a projection that returns has no environment-shaped key
  whose value carries text at any depth, prints as JSON without loss, and nests at most 33 levels.
\<close>

theorem model_safe_json_sound:
  assumes "modelSafeJson fuel h v = Some (Some r)"
  shows "env_free r \<and> json_safe r \<and> json_depth r \<le> 33"
  using hproject_safe_at [OF assms [unfolded modelSafeJson_def]]
  by (simp add: safe_at_def MODEL_SAFE_DEPTH_LIMIT_def)

definition example_cyclic_heap :: heap where
  "example_cyclic_heap = (\<lambda>_. \<lparr>ho_cell = HObj [(''self'', HRef 0), (''env'', HStr ''SECRET''), (''n'', HNum 1)],
     ho_toJSON = None\<rparr>)"

theorem model_safe_json_sound_witness:
  "modelSafeJson 3 example_cyclic_heap (HRef 0)
     = Some (Some (JObj [(''self'', JStr CYCLIC_MARKER), (''n'', JNum 1)]))
   \<and> env_free (JObj [(''self'', JStr CYCLIC_MARKER), (''n'', JNum 1)])"
proof -
  have k: "isEnvironmentKey ''env''" "\<not> isEnvironmentKey ''self''" "\<not> isEnvironmentKey ''n''"
    by (simp_all add: isEnvironmentKey_def ENVIRONMENT_KEYS_def lower_char_def is_upper_def char_in_def
        less_eq_char_def)
  have "modelSafeJson 3 example_cyclic_heap (HRef 0)
     = Some (Some (JObj [(''self'', JStr CYCLIC_MARKER), (''n'', JNum 1)]))"
    using k by (simp add: modelSafeJson_def example_cyclic_heap_def MODEL_SAFE_DEPTH_LIMIT_def
        redactsEnvironment_def numeral_3_eq_3)
  with model_safe_json_sound [OF this] show ?thesis by simp
qed

text \<open>
  C26. The projection always returns: on every heap without \<open>toJSON\<close> methods, cyclic ones included,
  a recursion depth of 34 suffices.
\<close>

theorem model_safe_json_total:
  assumes "\<And>a. ho_toJSON (h a) = None"
  shows "\<exists>r. modelSafeJson MODEL_SAFE_FUEL h v = Some r"
  unfolding modelSafeJson_def MODEL_SAFE_FUEL_def
  by (rule hproject_total [OF assms]) (simp_all add: MODEL_SAFE_DEPTH_LIMIT_def)

theorem model_safe_json_total_witness:
  "\<exists>r. modelSafeJson MODEL_SAFE_FUEL example_cyclic_heap (HRef 0) = Some r"
  by (rule model_safe_json_total) (simp add: example_cyclic_heap_def)

text \<open>
  The one object the projection does not survive: an object whose \<open>toJSON\<close> returns the object
  itself is projected forever, for no recursion depth returns, because \<open>toJSON\<close> is called before the
  object is remembered and without going one level deeper.
\<close>

theorem model_safe_json_self_toJSON_diverges:
  assumes "ho_toJSON (h a) = Some (HRef a)"
  shows "modelSafeJson fuel h (HRef a) = None"
proof -
  have "hproject fuel h (HRef a) {} 0 = None"
    by (induction fuel) (use assms in \<open>simp_all add: MODEL_SAFE_DEPTH_LIMIT_def\<close>)
  then show ?thesis by (simp add: modelSafeJson_def)
qed

theorem model_safe_json_self_toJSON_diverges_witness:
  "modelSafeJson 1000 (\<lambda>_. \<lparr>ho_cell = HObj [], ho_toJSON = Some (HRef 7)\<rparr>) (HRef 7) = None"
  by (rule model_safe_json_self_toJSON_diverges) simp

text \<open>
  \<open>withoutEnvironment\<close> removes every environment-shaped key that carries text, at every depth,
  changes nothing else of a value that has none, and is idempotent.
\<close>

theorem without_environment_spec:
  "env_free (withoutEnvironment v)
   \<and> (withoutEnvironment v = v \<longleftrightarrow> env_free v)
   \<and> withoutEnvironment (withoutEnvironment v) = withoutEnvironment v"
  unfolding withoutEnvironment_def using env_free_strip strip_env_free by metis

end
