(* ===== verification/Canonical_Json.thy ===== *)
theory Canonical_Json
  imports Redaction Routing_Policy
begin

text \<open>
  Launch tasks (\<open>src/launch-schema.ts\<close>), their canonical rendering \<open>renderTask\<close>, and the task digest
  of \<open>src/daemon/intents.ts\<close>: the key-sorted JSON text of the normalised task, hashed.
\<close>

section \<open>Tasks\<close>

record launch_task =
  lt_objective :: string
  lt_scope :: string
  lt_doneWhen :: "string list"
  lt_constraints :: "string list option"
  lt_tier :: "quality_tier option"
  lt_recoveryOf :: "string option"
  lt_label :: "string option"
  lt_cwd :: "string option"
  lt_operatingPoint :: "string option"
  lt_retention :: "string option"

fun tier_name :: "quality_tier \<Rightarrow> string" where
  "tier_name Utility = ''utility''"
| "tier_name Economy = ''economy''"
| "tier_name Standard = ''standard''"
| "tier_name Strong = ''strong''"
| "tier_name Frontier = ''frontier''"
| "tier_name MaxTier = ''max''"

abbreviation newline :: string where
  "newline \<equiv> [CHR 0x0A]"

definition constraints_of :: "launch_task \<Rightarrow> string list" where
  "constraints_of t = (case lt_constraints t of None \<Rightarrow> [] | Some cs \<Rightarrow> cs)"

definition renderTask :: "launch_task \<Rightarrow> string" where
  "renderTask t =
     (let constraints = constraints_of t
      in join_with (newline @ newline)
          [''Objective:'' @ newline @ lt_objective t,
           ''Scope:'' @ newline @ lt_scope t,
           ''Done when:'' @ newline @ join_with newline (map (\<lambda>e. ''- '' @ e) (lt_doneWhen t)),
           ''Constraints:'' @ (if constraints = [] then '' (none)''
             else newline @ join_with newline (map (\<lambda>e. ''- '' @ e) constraints))])"

section \<open>Canonical JSON and the digest\<close>

fun canonicalJson :: "(rat \<Rightarrow> string) \<Rightarrow> jsval \<Rightarrow> string" where
  "canonicalJson ns (JArr xs) = ''['' @ join_with '','' (map (canonicalJson ns) xs) @ '']''"
| "canonicalJson ns (JObj kvs) =
     ''{'' @ join_with '','' (map (\<lambda>kv. json_string (fst kv) @ '':'' @ snd kv)
        (sort_key fst (map (\<lambda>kv. (fst kv, canonicalJson ns (snd kv))) kvs))) @ ''}''"
| "canonicalJson ns (JStr s) = json_string s"
| "canonicalJson ns (JNum q) = ns q"
| "canonicalJson ns (JBool b) = (if b then ''true'' else ''false'')"
| "canonicalJson ns JNull = ''null''"
| "canonicalJson ns JNonFinite = ''null''"
| "canonicalJson ns JUndef = ''undefined''"
| "canonicalJson ns (JBig i) = []"  \<comment> \<open>\<open>JSON.stringify\<close> throws; a projected value has no bigint\<close>

definition opt_entry :: "string \<Rightarrow> string option \<Rightarrow> (string \<times> jsval) list" where
  "opt_entry k v = (case v of None \<Rightarrow> [] | Some s \<Rightarrow> [(k, JStr s)])"

text \<open>\<open>{ ...task, constraints: task.constraints ?? [] }\<close>\<close>

definition task_entries :: "launch_task \<Rightarrow> (string \<times> jsval) list" where
  "task_entries t =
     [(''objective'', JStr (lt_objective t)), (''scope'', JStr (lt_scope t)),
      (''doneWhen'', JArr (map JStr (lt_doneWhen t))),
      (''constraints'', JArr (map JStr (constraints_of t)))]
     @ opt_entry ''tier'' (map_option tier_name (lt_tier t))
     @ opt_entry ''recoveryOf'' (lt_recoveryOf t) @ opt_entry ''label'' (lt_label t)
     @ opt_entry ''cwd'' (lt_cwd t) @ opt_entry ''operatingPoint'' (lt_operatingPoint t)
     @ opt_entry ''retention'' (lt_retention t)"

definition normalized_task :: "launch_task \<Rightarrow> jsval" where
  "normalized_task t = JObj (task_entries t)"

definition taskDigest :: "ambient \<Rightarrow> launch_task \<Rightarrow> string" where
  "taskDigest am t =
     am_sha256 am (canonicalJson (am_numStr am)
       (case modelSafeTree (normalized_task t) of None \<Rightarrow> JUndef | Some v \<Rightarrow> v))"

section \<open>Canonical JSON is uniquely readable\<close>

text \<open>Printing in the given key order, and the sorting of keys, separately.\<close>

fun json_text :: "(rat \<Rightarrow> string) \<Rightarrow> jsval \<Rightarrow> string" where
  "json_text ns (JArr xs) = ''['' @ join_with '','' (map (json_text ns) xs) @ '']''"
| "json_text ns (JObj kvs) =
     ''{'' @ join_with '','' (map (\<lambda>kv. json_string (fst kv) @ '':'' @ json_text ns (snd kv)) kvs) @ ''}''"
| "json_text ns v = canonicalJson ns v"

fun sort_keys :: "jsval \<Rightarrow> jsval" where
  "sort_keys (JArr xs) = JArr (map sort_keys xs)"
| "sort_keys (JObj kvs) = JObj (sort_key fst (map (\<lambda>kv. (fst kv, sort_keys (snd kv))) kvs))"
| "sort_keys v = v"

lemma insort_key_map: "insort_key k (f x) (map f xs) = map f (insort_key (\<lambda>a. k (f a)) x xs)"
  by (induction xs) auto

lemma sort_key_map: "sort_key k (map f xs) = map f (sort_key (\<lambda>a. k (f a)) xs)"
  by (induction xs) (simp_all add: insort_key_map)

lemma canonicalJson_json_text: "canonicalJson ns v = json_text ns (sort_keys v)"
proof (induction v)
  case (JArr xs)
  then have "map (canonicalJson ns) xs = map (json_text ns) (map sort_keys xs)"
    unfolding map_map by (intro map_cong) simp_all
  then show ?case by (simp only: canonicalJson.simps sort_keys.simps json_text.simps)
next
  case (JObj kvs)
  have IH: "canonicalJson ns (snd kv) = json_text ns (sort_keys (snd kv))" if "kv \<in> set kvs" for kv
    using JObj.IH [OF that] by (cases kv) auto
  have m: "map (\<lambda>kv. (fst kv, canonicalJson ns (snd kv))) kvs
      = map (\<lambda>kv. (fst kv, json_text ns (snd kv))) (map (\<lambda>kv. (fst kv, sort_keys (snd kv))) kvs)"
    using IH by simp
  show ?case
    unfolding canonicalJson.simps sort_keys.simps json_text.simps m
    by (subst sort_key_map) (simp add: comp_def)
qed simp_all

text \<open>Values built from strings, arrays and objects only: the shape of a task.\<close>

fun text_only :: "jsval \<Rightarrow> bool" where
  "text_only (JStr s) = True"
| "text_only (JArr xs) = (\<forall>x \<in> set xs. text_only x)"
| "text_only (JObj kvs) = (\<forall>kv \<in> set kvs. text_only (snd kv))"
| "text_only v = False"

lemma json_text_head:
  "text_only v \<Longrightarrow> \<exists>c cs. json_text ns v = c # cs \<and> c \<noteq> CHR '']'' \<and> c \<noteq> CHR ''}'' \<and> c \<noteq> CHR '',''"
  by (cases v) (auto simp: json_string_def)

text \<open>
  A bracketed, comma-separated list is read back item by item, when every item's text determines
  where it ends and no item starts with the closing bracket.
\<close>

lemma join_with_prefix:
  assumes item: "\<And>x y r r'. x \<in> set xs \<Longrightarrow> y \<in> set ys \<Longrightarrow> f x @ r = g y @ r' \<Longrightarrow> R x y \<and> r = r'"
    and fx: "\<And>x. x \<in> set xs \<Longrightarrow> f x \<noteq> [] \<and> hd (f x) \<noteq> c"
    and gy: "\<And>y. y \<in> set ys \<Longrightarrow> g y \<noteq> [] \<and> hd (g y) \<noteq> c"
    and c: "c \<noteq> CHR '',''"
    and eq: "join_with '','' (map f xs) @ c # r = join_with '','' (map g ys) @ c # r'"
  shows "list_all2 R xs ys \<and> r = r'"
  using assms
proof (induction xs arbitrary: ys)
  case Nil
  show ?case
  proof (cases ys)
    case (Cons y zs)
    then obtain d ds where g: "g y = d # ds" "d \<noteq> c" using Nil.prems(3) [of y] by (cases "g y") auto
    from Nil.prems(5) Cons g have False by (cases zs) auto
    then show ?thesis ..
  qed (use Nil.prems(5) in simp)
next
  case (Cons x xs)
  obtain d ds where f: "f x = d # ds" "d \<noteq> c" using Cons.prems(2) [of x] by (cases "f x") auto
  show ?case
  proof (cases ys)
    case Nil
    with Cons.prems(5) f have False by (cases xs) auto
    then show ?thesis ..
  next
    case ys: (Cons y zs)
    define tx where "tx = (case xs of [] \<Rightarrow> c # r | _ \<Rightarrow> CHR '','' # join_with '','' (map f xs) @ c # r)"
    define ty where "ty = (case zs of [] \<Rightarrow> c # r' | _ \<Rightarrow> CHR '','' # join_with '','' (map g zs) @ c # r')"
    have "f x @ tx = g y @ ty"
      using Cons.prems(5) ys by (cases xs; cases zs) (simp_all add: tx_def ty_def)
    with Cons.prems(1) [of x y tx ty] ys have R: "R x y" and t: "tx = ty" by auto
    have "list_all2 R xs zs \<and> r = r'"
    proof (cases "xs = [] \<or> zs = []")
      case True
      with t c show ?thesis by (cases xs; cases zs) (auto simp: tx_def ty_def)
    next
      case False
      then have "join_with '','' (map f xs) @ c # r = join_with '','' (map g zs) @ c # r'"
        using t by (cases xs; cases zs) (simp_all add: tx_def ty_def)
      with Cons.prems ys show ?thesis by (intro Cons.IH) auto
    qed
    with R ys show ?thesis by simp
  qed
qed

lemma list_all2_eq_conv: "list_all2 (=) xs ys \<longleftrightarrow> xs = ys"
  by (simp add: list.rel_eq)

lemma json_text_prefix:
  "text_only v \<Longrightarrow> text_only w \<Longrightarrow> json_text ns v @ r = json_text ns w @ r' \<Longrightarrow> v = w \<and> r = r'"
proof (induction v arbitrary: w r r')
  case (JStr s)
  then show ?case
    by (cases w) (auto simp: json_string_def dest: json_chars_prefix)
next
  case (JArr xs)
  from JArr.prems obtain ys where w: "w = JArr ys" by (cases w) (auto simp: json_string_def)
  have "list_all2 (=) xs ys \<and> r = r'"
  proof (rule join_with_prefix [where f = "json_text ns" and g = "json_text ns" and c = "CHR '']''"])
    fix x y r r' assume "x \<in> set xs" "y \<in> set ys" "json_text ns x @ r = json_text ns y @ r'"
    with JArr w show "x = y \<and> r = r'" by auto
  next
    fix x assume "x \<in> set xs"
    with JArr.prems json_text_head [of x ns] show "json_text ns x \<noteq> [] \<and> hd (json_text ns x) \<noteq> CHR '']''" by auto
  next
    fix y assume "y \<in> set ys"
    with JArr.prems w json_text_head [of y ns] show "json_text ns y \<noteq> [] \<and> hd (json_text ns y) \<noteq> CHR '']''" by auto
  qed (use JArr.prems w in simp_all)
  with w show ?case by (simp add: list_all2_eq_conv)
next
  case (JObj kvs)
  from JObj.prems obtain kws where w: "w = JObj kws" by (cases w) (auto simp: json_string_def)
  have "list_all2 (=) kvs kws \<and> r = r'"
  proof (rule join_with_prefix [where f = "\<lambda>kv. json_string (fst kv) @ '':'' @ json_text ns (snd kv)"
        and g = "\<lambda>kv. json_string (fst kv) @ '':'' @ json_text ns (snd kv)" and c = "CHR ''}''"])
    fix x y r r'
    assume x: "x \<in> set kvs" and y: "y \<in> set kws"
      and e: "(json_string (fst x) @ '':'' @ json_text ns (snd x)) @ r
            = (json_string (fst y) @ '':'' @ json_text ns (snd y)) @ r'"
    then have "fst x = fst y" and "json_text ns (snd x) @ r = json_text ns (snd y) @ r'"
      using json_string_prefix [of "fst x" "'':'' @ json_text ns (snd x) @ r" "fst y" "'':'' @ json_text ns (snd y) @ r'"]
      by simp_all
    moreover have "text_only (snd x)" "text_only (snd y)" using JObj.prems(1,2) x y w by auto
    moreover have "snd x \<in> Basic_BNFs.snds x" by (cases x) simp
    ultimately have "snd x = snd y \<and> r = r'" using JObj.IH [OF x] by blast
    moreover note \<open>fst x = fst y\<close>
    ultimately show "x = y \<and> r = r'" by (cases x; cases y) simp
  qed (use JObj.prems w in \<open>simp_all add: json_string_def\<close>)
  with w show ?case by (simp add: list_all2_eq_conv)
qed simp_all

section \<open>What the digest binds\<close>

lemma task_keys_plain:
  "\<not> isEnvironmentKey ''objective''" "\<not> isEnvironmentKey ''scope''" "\<not> isEnvironmentKey ''doneWhen''"
  "\<not> isEnvironmentKey ''constraints''" "\<not> isEnvironmentKey ''tier''" "\<not> isEnvironmentKey ''recoveryOf''"
  "\<not> isEnvironmentKey ''label''" "\<not> isEnvironmentKey ''cwd''" "\<not> isEnvironmentKey ''operatingPoint''"
  "\<not> isEnvironmentKey ''retention''"
  by code_simp+

lemma set_opt_entry [simp]: "set (opt_entry k v) = (case v of None \<Rightarrow> {} | Some s \<Rightarrow> {(k, JStr s)})"
  by (simp add: opt_entry_def split: option.splits)

lemma task_entries_key: "kv \<in> set (task_entries t) \<Longrightarrow> \<not> isEnvironmentKey (fst kv)"
proof -
  have o: "list_all (\<lambda>kv. \<not> isEnvironmentKey (fst kv)) (opt_entry k v)" if "\<not> isEnvironmentKey k" for k v
    using that by (cases v) (simp_all add: opt_entry_def)
  have "list_all (\<lambda>kv. \<not> isEnvironmentKey (fst kv)) (task_entries t)"
    unfolding task_entries_def by (simp only: list_all_append list.pred_inject fst_conv task_keys_plain o simp_thms)
  then show "kv \<in> set (task_entries t) \<Longrightarrow> \<not> isEnvironmentKey (fst kv)" by (simp add: list_all_iff)
qed

lemma task_entries_value:
  "kv \<in> set (task_entries t) \<Longrightarrow> (\<exists>s. snd kv = JStr s) \<or> (\<exists>ss. snd kv = JArr (map JStr ss))"
  unfolding task_entries_def by (auto split: option.splits)

lemma project_task_entry:
  assumes "kv \<in> set (task_entries t)"
  shows "project (Suc 0) (snd kv) = Some (snd kv)"
  using task_entries_value [OF assms] by (auto simp: MODEL_SAFE_DEPTH_LIMIT_def comp_def)

lemma modelSafeTree_normalized_task [simp]: "modelSafeTree (normalized_task t) = Some (normalized_task t)"
proof -
  have "(case project (Suc 0) (snd kv) of None \<Rightarrow> []
         | Some y \<Rightarrow> if redactsEnvironment (fst kv) y then [] else [(fst kv, y)]) = [kv]"
    if "kv \<in> set (task_entries t)" for kv
    using project_task_entry [OF that] task_entries_key [OF that]
    by (simp add: redactsEnvironment_def)
  then have "map (\<lambda>kv. case project (Suc 0) (snd kv) of None \<Rightarrow> []
         | Some y \<Rightarrow> if redactsEnvironment (fst kv) y then [] else [(fst kv, y)]) (task_entries t)
      = map (\<lambda>kv. [kv]) (task_entries t)"
    by (intro map_cong) simp_all
  then have "concat (map (\<lambda>kv. case project (Suc 0) (snd kv) of None \<Rightarrow> []
         | Some y \<Rightarrow> if redactsEnvironment (fst kv) y then [] else [(fst kv, y)]) (task_entries t))
      = task_entries t"
    by (simp only: concat_map_singleton map_ident)
  then show ?thesis
    unfolding modelSafeTree_def normalized_task_def project.simps
    by (simp only: MODEL_SAFE_DEPTH_LIMIT_def not_less0 if_False)
qed

lemma sort_keys_task_entry: "kv \<in> set (task_entries t) \<Longrightarrow> (fst kv, sort_keys (snd kv)) = kv"
  using task_entries_value [of kv t] by (cases kv) (auto simp: comp_def)

lemma text_only_task_entry: "kv \<in> set (task_entries t) \<Longrightarrow> text_only (snd kv)"
  using task_entries_value [of kv t] by auto

lemma sort_keys_normalized_task: "sort_keys (normalized_task t) = JObj (sort_key fst (task_entries t))"
proof -
  have "map (\<lambda>kv. (fst kv, sort_keys (snd kv))) (task_entries t) = task_entries t"
    by (intro map_idI) (simp add: sort_keys_task_entry)
  then show ?thesis by (simp add: normalized_task_def)
qed

lemma tier_name_inj: "tier_name a = tier_name b \<longleftrightarrow> a = b"
  by (cases a; cases b) simp_all

lemma task_entries_opt:
  "(''tier'', JStr s) \<in> set (task_entries t) \<longleftrightarrow> map_option tier_name (lt_tier t) = Some s"
  "(''recoveryOf'', JStr s) \<in> set (task_entries t) \<longleftrightarrow> lt_recoveryOf t = Some s"
  "(''label'', JStr s) \<in> set (task_entries t) \<longleftrightarrow> lt_label t = Some s"
  "(''cwd'', JStr s) \<in> set (task_entries t) \<longleftrightarrow> lt_cwd t = Some s"
  "(''operatingPoint'', JStr s) \<in> set (task_entries t) \<longleftrightarrow> lt_operatingPoint t = Some s"
  "(''retention'', JStr s) \<in> set (task_entries t) \<longleftrightarrow> lt_retention t = Some s"
  unfolding task_entries_def by (auto split: option.splits)

lemma task_entries_req:
  "(''objective'', v) \<in> set (task_entries t) \<longleftrightarrow> v = JStr (lt_objective t)"
  "(''scope'', v) \<in> set (task_entries t) \<longleftrightarrow> v = JStr (lt_scope t)"
  "(''doneWhen'', v) \<in> set (task_entries t) \<longleftrightarrow> v = JArr (map JStr (lt_doneWhen t))"
  "(''constraints'', v) \<in> set (task_entries t) \<longleftrightarrow> v = JArr (map JStr (constraints_of t))"
  unfolding task_entries_def by (auto split: option.splits)

lemma option_eq_by_Some: "(\<And>s. a = Some s \<longleftrightarrow> b = Some s) \<Longrightarrow> a = b"
  by (cases a; cases b) auto

lemma map_JStr_inj: "map JStr xs = map JStr ys \<longleftrightarrow> xs = ys"
  by (rule inj_map_eq_map) (simp add: inj_def)

text \<open>The task with omitted constraints written out, the one normalisation the digest makes.\<close>

definition explicit_constraints :: "launch_task \<Rightarrow> launch_task" where
  "explicit_constraints t = t\<lparr>lt_constraints := Some (constraints_of t)\<rparr>"

lemma task_entries_determine:
  assumes "set (task_entries t) = set (task_entries u)"
  shows "explicit_constraints t = explicit_constraints u"
proof -
  have r: "lt_objective t = lt_objective u" "lt_scope t = lt_scope u" "lt_doneWhen t = lt_doneWhen u"
    "constraints_of t = constraints_of u"
    using assms task_entries_req(1) [of _ t] task_entries_req(1) [of _ u]
      task_entries_req(2) [of _ t] task_entries_req(2) [of _ u]
      task_entries_req(3) [of _ t] task_entries_req(3) [of _ u]
      task_entries_req(4) [of _ t] task_entries_req(4) [of _ u]
    by (metis jsval.inject(4), metis jsval.inject(4), metis jsval.inject(5) map_JStr_inj,
        metis jsval.inject(5) map_JStr_inj)
  have o: "lt_recoveryOf t = lt_recoveryOf u" "lt_label t = lt_label u" "lt_cwd t = lt_cwd u"
    "lt_operatingPoint t = lt_operatingPoint u" "lt_retention t = lt_retention u"
    "map_option tier_name (lt_tier t) = map_option tier_name (lt_tier u)"
    by (rule option_eq_by_Some, simp only: task_entries_opt [symmetric] assms)+
  from o(6) have "lt_tier t = lt_tier u"
    by (cases "lt_tier t"; cases "lt_tier u") (simp_all add: tier_name_inj)
  with r o show ?thesis by (simp add: explicit_constraints_def)
qed

text \<open>
  C24. The task digest binds every contract field: two tasks have the same digest exactly when they
  are equal after an omitted \<open>constraints\<close> is read as the empty list, provided SHA-256 does not
  collide on their two canonical texts. An omitted tier and an explicit one never share a digest.
\<close>

theorem task_digest_binds_every_field:
  assumes no_collision: "am_sha256 am (canonicalJson (am_numStr am) (normalized_task t))
      = am_sha256 am (canonicalJson (am_numStr am) (normalized_task u))
      \<Longrightarrow> canonicalJson (am_numStr am) (normalized_task t) = canonicalJson (am_numStr am) (normalized_task u)"
  shows "taskDigest am t = taskDigest am u \<longleftrightarrow> explicit_constraints t = explicit_constraints u"
proof
  assume "taskDigest am t = taskDigest am u"
  then have "canonicalJson (am_numStr am) (normalized_task t) = canonicalJson (am_numStr am) (normalized_task u)"
    using no_collision by (simp add: taskDigest_def)
  then have "json_text (am_numStr am) (JObj (sort_key fst (task_entries t))) @ []
      = json_text (am_numStr am) (JObj (sort_key fst (task_entries u))) @ []"
    by (simp only: canonicalJson_json_text sort_keys_normalized_task)
  then have "sort_key fst (task_entries t) = sort_key fst (task_entries u)"
    by (rule json_text_prefix [THEN conjunct1, THEN jsval.inject(6) [THEN iffD1], rotated 2])
      (simp_all add: text_only_task_entry)
  then have "set (task_entries t) = set (task_entries u)" by (metis set_sort)
  then show "explicit_constraints t = explicit_constraints u" by (rule task_entries_determine)
next
  assume e: "explicit_constraints t = explicit_constraints u"
  have "task_entries (explicit_constraints v) = task_entries v" for v
    by (simp add: task_entries_def explicit_constraints_def constraints_of_def)
  with e have "normalized_task t = normalized_task u" by (metis normalized_task_def)
  then show "taskDigest am t = taskDigest am u" by (simp add: taskDigest_def)
qed

definition example_task :: launch_task where
  "example_task = \<lparr>lt_objective = ''o'', lt_scope = ''s'', lt_doneWhen = [''d''], lt_constraints = None,
     lt_tier = None, lt_recoveryOf = None, lt_label = None, lt_cwd = None, lt_operatingPoint = None,
     lt_retention = None\<rparr>"

theorem task_digest_binds_every_field_witness:
  "taskDigest example_ambient example_task = taskDigest example_ambient (example_task\<lparr>lt_constraints := Some []\<rparr>)
   \<and> taskDigest example_ambient example_task \<noteq> taskDigest example_ambient (example_task\<lparr>lt_tier := Some Standard\<rparr>)"
  using task_digest_binds_every_field [of example_ambient example_task "example_task\<lparr>lt_constraints := Some []\<rparr>"]
    task_digest_binds_every_field [of example_ambient example_task "example_task\<lparr>lt_tier := Some Standard\<rparr>"]
  by (simp add: example_ambient_def example_task_def explicit_constraints_def constraints_of_def)

end
