(* ===== verification/Js_Access.thy ===== *)
theory Js_Access
  imports Redaction
begin

text \<open>
  Reading and validating untyped JavaScript values: property access, the \<open>record\<close> guard the
  validators share, regular-expression shapes as executable predicates, and the fact that the
  redaction leaves a plain value as it is (\<open>project_plain\<close>), which is why what the stores write is
  what they read back.
\<close>

section \<open>Access\<close>

text \<open>\<open>value[key]\<close>; an absent key is \<open>undefined\<close>.\<close>

fun jget :: "string \<Rightarrow> jsval \<Rightarrow> jsval" where
  "jget k (JObj kvs) = (case map_of kvs k of None \<Rightarrow> JUndef | Some v \<Rightarrow> v)"
| "jget k v = JUndef"

text \<open>\<open>typeof value === "object" && value !== null && !Array.isArray(value)\<close>\<close>

fun is_record :: "jsval \<Rightarrow> bool" where
  "is_record (JObj kvs) = True"
| "is_record v = False"

fun obj_keys :: "jsval \<Rightarrow> string list" where
  "obj_keys (JObj kvs) = map fst kvs"
| "obj_keys v = []"

fun is_str :: "(string \<Rightarrow> bool) \<Rightarrow> jsval \<Rightarrow> bool" where
  "is_str P (JStr s) = P s"
| "is_str P v = False"

fun str_of :: "jsval \<Rightarrow> string" where
  "str_of (JStr s) = s"
| "str_of v = []"

fun opt_str :: "jsval \<Rightarrow> string option" where
  "opt_str (JStr s) = Some s"
| "opt_str v = None"

text \<open>An optional field: absent, or accepted by the check.\<close>

definition opt_field :: "(jsval \<Rightarrow> bool) \<Rightarrow> jsval \<Rightarrow> bool" where
  "opt_field P v \<longleftrightarrow> v = JUndef \<or> P v"

definition opt_json :: "string \<Rightarrow> jsval option \<Rightarrow> (string \<times> jsval) list" where
  "opt_json k v = (case v of None \<Rightarrow> [] | Some x \<Rightarrow> [(k, x)])"

lemma opt_field_simps [simp]:
  "opt_field P JUndef"
  "opt_field P (JStr s) = P (JStr s)"
  "opt_field P (JObj kvs) = P (JObj kvs)"
  "opt_field P (JBool b) = P (JBool b)"
  "opt_field P (JNum q) = P (JNum q)"
  by (simp_all add: opt_field_def)

lemma opt_json_simps [simp]: "opt_json k None = []" "opt_json k (Some x) = [(k, x)]"
  by (simp_all add: opt_json_def)

definition ojs :: "jsval option \<Rightarrow> jsval" where
  "ojs v = (case v of None \<Rightarrow> JUndef | Some x \<Rightarrow> x)"

lemma ojs_simps [simp]: "ojs None = JUndef" "ojs (Some x) = x"
  by (simp_all add: ojs_def)

lemma jget_obj [simp]: "jget k (JObj kvs) = ojs (map_of kvs k)"
  by (simp add: ojs_def)

declare jget.simps(1) [simp del]

text \<open>Reading a literal object with optional entries, key by key.\<close>

lemma map_of_opt_json: "map_of (opt_json k v) q = (if q = k then v else None)"
  by (cases v) auto

definition orElse :: "'a option \<Rightarrow> 'a option \<Rightarrow> 'a option" where
  "orElse a b = (case a of None \<Rightarrow> b | Some x \<Rightarrow> Some x)"

lemma orElse_simps [simp]: "orElse a None = a" "orElse None b = b" "orElse (Some x) b = Some x"
  by (simp_all add: orElse_def split: option.splits)

lemma map_add_opt_json: "(m ++ map_of (opt_json k v)) q = (if q = k then orElse v (m q) else m q)"
  by (cases v) (auto simp: map_add_def)

lemmas json_gets = map_of_opt_json map_add_opt_json

section \<open>Shapes\<close>

text \<open>A first character, then at most \<open>n\<close> characters of a class: \<open>/^[..][..]{0,n}$/\<close>.\<close>

fun head_tail_shape :: "(char \<Rightarrow> bool) \<Rightarrow> (char \<Rightarrow> bool) \<Rightarrow> nat \<Rightarrow> string \<Rightarrow> bool" where
  "head_tail_shape H T n [] = False"
| "head_tail_shape H T n (c # cs) = (H c \<and> length cs \<le> n \<and> list_all T cs)"

section \<open>Values the redaction does not touch\<close>

fun plain_keys :: "jsval \<Rightarrow> bool" where
  "plain_keys (JArr xs) = (\<forall>x \<in> set xs. plain_keys x)"
| "plain_keys (JObj kvs) = (\<forall>kv \<in> set kvs. \<not> isEnvironmentKey (fst kv) \<and> plain_keys (snd kv))"
| "plain_keys v = True"

fun depth_within :: "nat \<Rightarrow> jsval \<Rightarrow> bool" where
  "depth_within n (JArr xs) = (0 < n \<and> (\<forall>x \<in> set xs. depth_within (n - 1) x))"
| "depth_within n (JObj kvs) = (0 < n \<and> (\<forall>kv \<in> set kvs. depth_within (n - 1) (snd kv)))"
| "depth_within n v = True"

definition plain :: "nat \<Rightarrow> jsval \<Rightarrow> bool" where
  "plain n v \<longleftrightarrow> plain_keys v \<and> json_safe v \<and> depth_within n v"

lemma plain_simps [simp]:
  "plain n (JStr s)" "plain n JNull" "plain n (JBool b)" "plain n (JNum q)"
  "\<not> plain n JUndef"
  "plain (Suc n) (JArr xs) \<longleftrightarrow> (\<forall>x \<in> set xs. plain n x)"
  "plain (Suc n) (JObj kvs) \<longleftrightarrow> (\<forall>kv \<in> set kvs. \<not> isEnvironmentKey (fst kv) \<and> plain n (snd kv))"
  by (auto simp: plain_def)

lemma plain_opt_json [simp]:
  "(\<forall>kv \<in> set (opt_json k v). P kv) \<longleftrightarrow> (case v of None \<Rightarrow> True | Some x \<Rightarrow> P (k, x))"
  by (cases v) simp_all

lemma concat_singletons: "(\<And>x. x \<in> set xs \<Longrightarrow> f x = [x]) \<Longrightarrow> concat (map f xs) = xs"
  by (induction xs) simp_all

lemma project_plain: "plain n v \<Longrightarrow> n + d \<le> Suc MODEL_SAFE_DEPTH_LIMIT \<Longrightarrow> project d v = Some v"
proof (induction v arbitrary: n d)
  case (JArr xs)
  then obtain m where n: "n = Suc m" by (cases n) (auto simp: plain_def)
  have "project (Suc d) x = Some x" if "x \<in> set xs" for x
    using JArr.IH [OF that, of m "Suc d"] JArr.prems that n by simp
  then have "map (\<lambda>x. case project (Suc d) x of None \<Rightarrow> JNull | Some y \<Rightarrow> y) xs = xs"
    by (intro map_idI) simp
  then show ?case using JArr.prems n by simp
next
  case (JObj kvs)
  then obtain m where n: "n = Suc m" by (cases n) (auto simp: plain_def)
  have "project (Suc d) (snd kv) = Some (snd kv) \<and> \<not> redactsEnvironment (fst kv) (snd kv)" if "kv \<in> set kvs" for kv
    using JObj.IH [OF that, of "snd kv" m "Suc d"] JObj.prems that n
    by (cases kv) (auto simp: redactsEnvironment_def)
  then have "concat (map (\<lambda>kv. case project (Suc d) (snd kv) of None \<Rightarrow> []
       | Some y \<Rightarrow> if redactsEnvironment (fst kv) y then [] else [(fst kv, y)]) kvs) = kvs"
    by (intro concat_singletons) simp
  then show ?case using JObj.prems n by simp
qed (auto simp: plain_def)

lemma modelSafeTree_plain: "plain n v \<Longrightarrow> n \<le> Suc MODEL_SAFE_DEPTH_LIMIT \<Longrightarrow> modelSafeTree v = Some v"
  unfolding modelSafeTree_def by (rule project_plain) simp_all

end
