(* ===== verification/Histories.thy ===== *)
theory Histories
  imports Prelude
begin

text \<open>
  Keyed stores seen through their lookups. The durable stores of the program (launch intents,
  mailbox events, run records) promise the same thing: whatever sequence of operations, faults and
  restarts happens, what is stored under one key moves only along that record's own lifecycle. The
  locale states that contract; its lemmas turn it into statements about whole histories.
\<close>

locale keyed_history =
  fixes step :: "'s \<Rightarrow> 's \<Rightarrow> bool"
    and look :: "'s \<Rightarrow> 'k \<Rightarrow> 'r option"
    and life :: "'r option \<Rightarrow> 'r option \<Rightarrow> bool"
  assumes step_life: "step s s' \<Longrightarrow> life\<^sup>*\<^sup>* (look s k) (look s' k)"
begin

lemma history_life: "step\<^sup>*\<^sup>* s s' \<Longrightarrow> life\<^sup>*\<^sup>* (look s k) (look s' k)"
  by (induction rule: rtranclp_induct) (blast intro: rtranclp_trans step_life)+

lemma history_invariant:
  assumes "step\<^sup>*\<^sup>* s s'" and "P (look s k)"
    and "\<And>r r'. P r \<Longrightarrow> life r r' \<Longrightarrow> P r'"
  shows "P (look s' k)"
proof -
  have "P r'" if "life\<^sup>*\<^sup>* r r'" "P r" for r r'
    using that by (induction rule: rtranclp_induct) (auto intro: assms(3))
  then show ?thesis using history_life [OF assms(1)] assms(2) by blast
qed

lemma history_preserves:
  assumes "step\<^sup>*\<^sup>* s s'" and "look s k = Some r"
    and "\<And>r r'. life (Some r) r' \<Longrightarrow> \<exists>q. r' = Some q \<and> R r q"
    and "\<And>a. R a a" and "\<And>a b c. R a b \<Longrightarrow> R b c \<Longrightarrow> R a c"
  shows "\<exists>r'. look s' k = Some r' \<and> R r r'"
proof (rule history_invariant [OF assms(1), where P = "\<lambda>x. \<exists>r'. x = Some r' \<and> R r r'"])
  show "\<exists>r'. look s k = Some r' \<and> R r r'" using assms(2,4) by blast
next
  fix x x' assume "\<exists>r'. x = Some r' \<and> R r r'" and "life x x'"
  then show "\<exists>r'. x' = Some r' \<and> R r r'" using assms(3,5) by blast
qed

end

end
