(* ===== verification/Retries.thy ===== *)
theory Retries
  imports Main
begin

text \<open>
  Operations that are retried until they are done. An attempt may fail anywhere; what holds before it holds
  after it, so after any history of attempts one calm attempt settles the matter.
\<close>

locale recoverable =
  fixes attempt :: "'io \<Rightarrow> 's \<Rightarrow> 's \<times> 'r"
    and inv :: "'s \<Rightarrow> bool"
    and calm_run :: "'io \<Rightarrow> bool"
    and settled :: "'r \<Rightarrow> 's \<Rightarrow> bool"
  assumes keeps: "inv s \<Longrightarrow> inv (fst (attempt io s))"
    and settles: "inv s \<Longrightarrow> calm_run io \<Longrightarrow> \<exists>s' r. attempt io s = (s', r) \<and> settled r s'"
begin

lemma history_keeps: "inv s \<Longrightarrow> inv (foldl (\<lambda>s io. fst (attempt io s)) s ios)"
  by (induction ios arbitrary: s) (simp_all add: keeps)

lemma history_settles:
  assumes "inv s" and "calm_run io"
  shows "\<exists>s' r. attempt io (foldl (\<lambda>s io. fst (attempt io s)) s ios) = (s', r) \<and> settled r s'"
  by (rule settles [OF history_keeps [OF assms(1)] assms(2)])

end

end
