(* ===== verification/Intents.thy ===== *)
theory Intents
  imports Canonical_Json Js_Access Histories
begin

text \<open>
  The durable launch-intent store of \<open>src/daemon/intents.ts\<close>. A record is typed (\<open>launch_intent\<close>);
  what a file holds is the JSON value it parses to, written through \<open>intent_json\<close> and the redaction
  and read back through the validator \<open>isIntentRecord\<close>. The file system is the namespace directory,
  the \<open>intents\<close> root and one directory per manager; every outcome the code can meet there (a
  refused lock, a failed stage, a rename whose directory sync failed) is chosen by the argument
  \<open>intent_io\<close>, so the lemmas hold for every fault.
\<close>

section \<open>Records\<close>

datatype intent_state = Recorded | Effecting | Completed | Failed | Unresolved

datatype child_disposition = Bound | IdentityLost | Ambiguous

datatype effect_certainty = Absent | Partial | Unknown | Confirmed

datatype intent_resolution = Interrupted | EffectUncertain

record child_evidence =
  ce_at :: string
  ce_reason :: string
  ce_terminalId :: "string option"
  ce_session :: "agent_session option"

record intent_child =
  ic_name :: string
  ic_runId :: "string option"
  ic_disposition :: "child_disposition option"
  ic_evidence :: "child_evidence option"

record launch_intent =
  li_managerSessionKey :: string
  li_idempotencyKey :: string
  li_taskDigest :: string
  li_launchId :: string
  li_projectRoot :: string
  li_state :: intent_state
  li_recordedAt :: string
  li_updatedAt :: string
  li_children :: "intent_child list"
  li_effectCertainty :: "effect_certainty option"
  li_failureCode :: "string option"
  li_failurePhase :: "string option"
  li_resolution :: "intent_resolution option"
  li_reconciled :: bool

datatype intent_error =
    StoreUnavailable
  | IntentMalformed
  | RequestInvalid string
  | StateConflict "intent_state option"
  | KeyConflict string

datatype begin_result =
    BeginLaunch launch_intent bool
  | BeginReplay launch_intent
  | BeginUnresolved launch_intent

section \<open>Shapes\<close>

definition idempotency_char :: "char \<Rightarrow> bool" where
  "idempotency_char c \<longleftrightarrow> is_lower c \<or> is_upper c \<or> is_digit c \<or> c \<in> set ''._:-''"

definition idempotency_shape :: "string \<Rightarrow> bool" where
  "idempotency_shape s \<longleftrightarrow> length s \<le> 128 \<and> s \<noteq> [] \<and> list_all idempotency_char s"

definition failure_code_shape :: "string \<Rightarrow> bool" where
  "failure_code_shape = head_tail_shape is_upper (\<lambda>c. is_upper c \<or> is_digit c \<or> c = CHR ''_'') 63"

definition failure_phase_shape :: "string \<Rightarrow> bool" where
  "failure_phase_shape = head_tail_shape is_lower (\<lambda>c. is_lower c \<or> is_digit c \<or> c = CHR ''_'') 63"

definition reason_shape :: "string \<Rightarrow> bool" where
  "reason_shape s \<longleftrightarrow> s \<noteq> [] \<and> length s \<le> 64 \<and> list_all (\<lambda>c. is_lower c \<or> c = CHR ''_'') s"

definition isIdentifier :: "jsval \<Rightarrow> bool" where
  "isIdentifier = is_str usable"

definition assertManagerSessionKey :: "string \<Rightarrow> (intent_error, unit) result" where
  "assertManagerSessionKey k = (if sha256_hex k then Inr () else Inl (RequestInvalid ''managerSessionKey''))"

definition assertIdempotencyKey :: "string \<Rightarrow> (intent_error, unit) result" where
  "assertIdempotencyKey k = (if idempotency_shape k then Inr () else Inl (RequestInvalid ''idempotencyKey''))"

fun state_name :: "intent_state \<Rightarrow> string" where
  "state_name Recorded = ''recorded''"
| "state_name Effecting = ''effecting''"
| "state_name Completed = ''completed''"
| "state_name Failed = ''failed''"
| "state_name Unresolved = ''unresolved''"

fun disposition_name :: "child_disposition \<Rightarrow> string" where
  "disposition_name Bound = ''bound''"
| "disposition_name IdentityLost = ''identity_lost''"
| "disposition_name Ambiguous = ''ambiguous''"

fun certainty_name :: "effect_certainty \<Rightarrow> string" where
  "certainty_name Absent = ''absent''"
| "certainty_name Partial = ''partial''"
| "certainty_name Unknown = ''unknown''"
| "certainty_name Confirmed = ''confirmed''"

fun resolution_name :: "intent_resolution \<Rightarrow> string" where
  "resolution_name Interrupted = ''interrupted''"
| "resolution_name EffectUncertain = ''effect_uncertain''"

definition INTENT_STATES :: "intent_state list" where
  "INTENT_STATES = [Recorded, Effecting, Completed, Failed, Unresolved]"

definition CHILD_DISPOSITIONS :: "child_disposition list" where
  "CHILD_DISPOSITIONS = [Bound, IdentityLost, Ambiguous]"

definition EFFECT_CERTAINTIES :: "effect_certainty list" where
  "EFFECT_CERTAINTIES = [Absent, Partial, Unknown, Confirmed]"

definition INTENT_RESOLUTIONS :: "intent_resolution list" where
  "INTENT_RESOLUTIONS = [Interrupted, EffectUncertain]"

text \<open>The member of a closed set of names, as \<open>Set.has\<close> on the string and the cast after it.\<close>

definition named :: "('a \<Rightarrow> string) \<Rightarrow> 'a list \<Rightarrow> jsval \<Rightarrow> bool" where
  "named nm xs = is_str (\<lambda>s. s \<in> nm ` set xs)"

definition the_named :: "('a \<Rightarrow> string) \<Rightarrow> 'a list \<Rightarrow> jsval \<Rightarrow> 'a option" where
  "the_named nm xs v = (case v of JStr s \<Rightarrow> find (\<lambda>x. nm x = s) xs | _ \<Rightarrow> None)"

section \<open>Validators\<close>

definition session_field_ok :: "jsval \<Rightarrow> bool" where
  "session_field_ok = is_str (\<lambda>s. usable s \<and> length s \<le> 4096)"

definition isEvidenceSession :: "jsval \<Rightarrow> bool" where
  "isEvidenceSession v \<longleftrightarrow> is_record v \<and> length (obj_keys v) = 4 \<and>
     list_all (\<lambda>k. session_field_ok (jget k v)) [''source'', ''agent'', ''kind'', ''value'']"

definition isChildEvidence :: "ambient \<Rightarrow> jsval \<Rightarrow> bool" where
  "isChildEvidence am v \<longleftrightarrow> is_record v
     \<and> list_all (\<lambda>k. k \<in> set [''at'', ''reason'', ''terminalId'', ''session'']) (obj_keys v)
     \<and> is_str (\<lambda>s. length s \<le> 32 \<and> am_dateParse am s \<noteq> None) (jget ''at'' v)
     \<and> is_str reason_shape (jget ''reason'' v)
     \<and> opt_field (is_str (\<lambda>s. usable s \<and> length s \<le> 256)) (jget ''terminalId'' v)
     \<and> opt_field isEvidenceSession (jget ''session'' v)"

definition isIntentChild :: "ambient \<Rightarrow> jsval \<Rightarrow> bool" where
  "isIntentChild am v \<longleftrightarrow> is_record v \<and> isIdentifier (jget ''name'' v)
     \<and> opt_field isIdentifier (jget ''runId'' v)
     \<and> opt_field (named disposition_name CHILD_DISPOSITIONS) (jget ''disposition'' v)
     \<and> opt_field (isChildEvidence am) (jget ''evidence'' v)"

fun is_arr :: "(jsval \<Rightarrow> bool) \<Rightarrow> jsval \<Rightarrow> bool" where
  "is_arr P (JArr xs) = list_all P xs"
| "is_arr P v = False"

definition isIntentRecord :: "ambient \<Rightarrow> jsval \<Rightarrow> bool" where
  "isIntentRecord am v \<longleftrightarrow> is_record v
     \<and> jget ''v'' v = JNum 1
     \<and> is_str sha256_hex (jget ''managerSessionKey'' v)
     \<and> is_str idempotency_shape (jget ''idempotencyKey'' v)
     \<and> is_str sha256_hex (jget ''taskDigest'' v)
     \<and> isIdentifier (jget ''launchId'' v)
     \<and> isIdentifier (jget ''projectRoot'' v)
     \<and> named state_name INTENT_STATES (jget ''state'' v)
     \<and> isIdentifier (jget ''recordedAt'' v)
     \<and> isIdentifier (jget ''updatedAt'' v)
     \<and> is_arr (isIntentChild am) (jget ''children'' v)
     \<and> opt_field (named certainty_name EFFECT_CERTAINTIES) (jget ''effectCertainty'' v)
     \<and> opt_field (is_str failure_code_shape) (jget ''failureCode'' v)
     \<and> opt_field (is_str failure_phase_shape) (jget ''failurePhase'' v)
     \<and> opt_field (named resolution_name INTENT_RESOLUTIONS) (jget ''resolution'' v)
     \<and> opt_field (\<lambda>x. x = JBool True) (jget ''reconciled'' v)"

section \<open>Records as JSON\<close>

definition session_value :: "agent_session \<Rightarrow> jsval" where
  "session_value s = JObj [(''source'', JStr (as_source s)), (''agent'', JStr (as_agent s)),
     (''kind'', JStr (as_kind s)), (''value'', JStr (as_value s))]"

definition session_of :: "jsval \<Rightarrow> agent_session" where
  "session_of v = \<lparr>as_source = str_of (jget ''source'' v), as_agent = str_of (jget ''agent'' v),
     as_kind = str_of (jget ''kind'' v), as_value = str_of (jget ''value'' v)\<rparr>"

definition evidence_json :: "child_evidence \<Rightarrow> jsval" where
  "evidence_json e = JObj ([(''at'', JStr (ce_at e)), (''reason'', JStr (ce_reason e))]
     @ opt_json ''terminalId'' (map_option JStr (ce_terminalId e))
     @ opt_json ''session'' (map_option session_value (ce_session e)) @ [])"

definition opt_of :: "(jsval \<Rightarrow> 'a) \<Rightarrow> jsval \<Rightarrow> 'a option" where
  "opt_of f v = (if v = JUndef then None else Some (f v))"

definition evidence_of :: "jsval \<Rightarrow> child_evidence" where
  "evidence_of v = \<lparr>ce_at = str_of (jget ''at'' v), ce_reason = str_of (jget ''reason'' v),
     ce_terminalId = opt_of str_of (jget ''terminalId'' v), ce_session = opt_of session_of (jget ''session'' v)\<rparr>"

definition child_json :: "intent_child \<Rightarrow> jsval" where
  "child_json c = JObj ([(''name'', JStr (ic_name c))]
     @ opt_json ''runId'' (map_option JStr (ic_runId c))
     @ opt_json ''disposition'' (map_option (\<lambda>d. JStr (disposition_name d)) (ic_disposition c))
     @ opt_json ''evidence'' (map_option evidence_json (ic_evidence c)) @ [])"

definition child_of :: "jsval \<Rightarrow> intent_child" where
  "child_of v = \<lparr>ic_name = str_of (jget ''name'' v), ic_runId = opt_of str_of (jget ''runId'' v),
     ic_disposition = the_named disposition_name CHILD_DISPOSITIONS (jget ''disposition'' v),
     ic_evidence = opt_of evidence_of (jget ''evidence'' v)\<rparr>"

fun arr_of :: "jsval \<Rightarrow> jsval list" where
  "arr_of (JArr xs) = xs"
| "arr_of v = []"

definition intent_json :: "launch_intent \<Rightarrow> jsval" where
  "intent_json r = JObj
     ([(''v'', JNum 1), (''managerSessionKey'', JStr (li_managerSessionKey r)),
       (''idempotencyKey'', JStr (li_idempotencyKey r)), (''taskDigest'', JStr (li_taskDigest r)),
       (''launchId'', JStr (li_launchId r)), (''projectRoot'', JStr (li_projectRoot r)),
       (''state'', JStr (state_name (li_state r))), (''recordedAt'', JStr (li_recordedAt r)),
       (''updatedAt'', JStr (li_updatedAt r)), (''children'', JArr (map child_json (li_children r)))]
     @ opt_json ''effectCertainty'' (map_option (\<lambda>c. JStr (certainty_name c)) (li_effectCertainty r))
     @ opt_json ''failureCode'' (map_option JStr (li_failureCode r))
     @ opt_json ''failurePhase'' (map_option JStr (li_failurePhase r))
     @ opt_json ''resolution'' (map_option (\<lambda>c. JStr (resolution_name c)) (li_resolution r))
     @ opt_json ''reconciled'' (if li_reconciled r then Some (JBool True) else None) @ [])"

definition intent_of :: "jsval \<Rightarrow> launch_intent" where
  "intent_of v = \<lparr>li_managerSessionKey = str_of (jget ''managerSessionKey'' v),
     li_idempotencyKey = str_of (jget ''idempotencyKey'' v), li_taskDigest = str_of (jget ''taskDigest'' v),
     li_launchId = str_of (jget ''launchId'' v), li_projectRoot = str_of (jget ''projectRoot'' v),
     li_state = (case the_named state_name INTENT_STATES (jget ''state'' v) of None \<Rightarrow> Recorded | Some s \<Rightarrow> s),
     li_recordedAt = str_of (jget ''recordedAt'' v), li_updatedAt = str_of (jget ''updatedAt'' v),
     li_children = map child_of (arr_of (jget ''children'' v)),
     li_effectCertainty = the_named certainty_name EFFECT_CERTAINTIES (jget ''effectCertainty'' v),
     li_failureCode = opt_of str_of (jget ''failureCode'' v),
     li_failurePhase = opt_of str_of (jget ''failurePhase'' v),
     li_resolution = the_named resolution_name INTENT_RESOLUTIONS (jget ''resolution'' v),
     li_reconciled = (jget ''reconciled'' v = JBool True)\<rparr>"

section \<open>Merging children\<close>

definition fill_child :: "intent_child \<Rightarrow> intent_child \<Rightarrow> intent_child" where
  "fill_child cur add = cur\<lparr>ic_runId := orElse (ic_runId add) (ic_runId cur),
     ic_disposition := orElse (ic_disposition add) (ic_disposition cur),
     ic_evidence := orElse (ic_evidence add) (ic_evidence cur)\<rparr>"

fun merge_child :: "intent_child list \<Rightarrow> intent_child \<Rightarrow> intent_child list" where
  "merge_child [] add = [add]"
| "merge_child (c # cs) add = (if ic_name c = ic_name add then fill_child c add # cs else c # merge_child cs add)"

definition mergeChildren :: "intent_child list \<Rightarrow> intent_child list \<Rightarrow> intent_child list" where
  "mergeChildren cur added = foldl merge_child cur added"

definition assertChildren :: "ambient \<Rightarrow> string \<Rightarrow> intent_child list \<Rightarrow> (intent_error, unit) result" where
  "assertChildren am field cs =
     (if list_all (\<lambda>c. isIntentChild am (child_json c)) cs then Inr () else Inl (RequestInvalid field))"

section \<open>The file system\<close>

text \<open>\<open>UntrustedFile\<close> stands for a link, a foreign owner, a group- or world-writable or special file.\<close>

datatype intent_file = JsonFile jsval | UnparsableFile | UntrustedFile

record manager_dir =
  md_trusted :: bool
  md_files :: "(string \<times> intent_file) list"

record intent_store =
  st_namespace :: bool
  st_root :: "bool option"
  st_managers :: "(string \<times> manager_dir) list"
  st_log :: "string list"

text \<open>
  The outcomes of the calls into the operating system during one operation: whether the namespace
  and the directories answer, whether a manager's lock is granted, whether a record can be read,
  and how far a write comes; \<open>io_clock n\<close> is the \<open>n\<close>th reading of the clock.
\<close>

datatype write_outcome = WriteCommitted | WriteNotCommitted | WriteUnsynced

record intent_io =
  io_dirs :: bool
  io_lock :: "string \<Rightarrow> bool"
  io_read :: "string \<Rightarrow> string \<Rightarrow> bool"
  io_write :: "string \<Rightarrow> string \<Rightarrow> write_outcome"
  io_clock :: "nat \<Rightarrow> string"

definition intentsRoot :: "intent_io \<Rightarrow> intent_store \<Rightarrow> intent_store \<times> (intent_error, unit) result" where
  "intentsRoot io s =
     (if \<not> io_dirs io \<or> \<not> st_namespace s then (s, Inl StoreUnavailable)
      else case st_root s of
        None \<Rightarrow> (s\<lparr>st_root := Some True\<rparr>, Inr ())
      | Some trusted \<Rightarrow> (s, if trusted then Inr () else Inl StoreUnavailable))"

definition managerDir ::
  "intent_io \<Rightarrow> string \<Rightarrow> bool \<Rightarrow> intent_store \<Rightarrow> intent_store \<times> (intent_error, manager_dir option) result" where
  "managerDir io key create s =
     (case assertManagerSessionKey key of Inl e \<Rightarrow> (s, Inl e)
      | Inr _ \<Rightarrow>
        (case intentsRoot io s of
           (s1, Inl e) \<Rightarrow> (s1, Inl e)
         | (s1, Inr _) \<Rightarrow>
             (case map_of (st_managers s1) key of
                Some d \<Rightarrow> (s1, if md_trusted d then Inr (Some d) else Inl StoreUnavailable)
              | None \<Rightarrow>
                  if create then
                    (let d = \<lparr>md_trusted = True, md_files = []\<rparr>
                     in (s1\<lparr>st_managers := al_put key d (st_managers s1)\<rparr>, Inr (Some d)))
                  else (s1, Inr None))))"

definition file_name :: "string \<Rightarrow> string" where
  "file_name key = key @ ''.json''"

text \<open>The directory's own name stands for \<open>basename(dir)\<close>.\<close>

definition readIntent ::
  "ambient \<Rightarrow> intent_io \<Rightarrow> string \<Rightarrow> manager_dir \<Rightarrow> string \<Rightarrow> (intent_error, launch_intent option) result" where
  "readIntent am io dir d key =
     (case map_of (md_files d) (file_name key) of
        None \<Rightarrow> Inr None
      | Some f \<Rightarrow>
          if \<not> io_read io dir key then Inl StoreUnavailable
          else (case f of
             UntrustedFile \<Rightarrow> Inl StoreUnavailable
           | UnparsableFile \<Rightarrow> Inl IntentMalformed
           | JsonFile v \<Rightarrow>
               if isIntentRecord am v \<and> jget ''idempotencyKey'' v = JStr key
                  \<and> jget ''managerSessionKey'' v = JStr dir
               then Inr (Some (intent_of v)) else Inl IntentMalformed))"

definition put_file :: "string \<Rightarrow> string \<Rightarrow> intent_file \<Rightarrow> intent_store \<Rightarrow> intent_store" where
  "put_file dir name f s =
     (case map_of (st_managers s) dir of
        None \<Rightarrow> s
      | Some d \<Rightarrow> s\<lparr>st_managers := al_put dir (d\<lparr>md_files := al_put name f (md_files d)\<rparr>) (st_managers s)\<rparr>)"

definition stored_value :: "jsval \<Rightarrow> intent_file" where
  "stored_value v = (case modelSafeTree v of None \<Rightarrow> UnparsableFile | Some w \<Rightarrow> JsonFile w)"

definition writeIntent ::
  "intent_io \<Rightarrow> string \<Rightarrow> launch_intent \<Rightarrow> intent_store \<Rightarrow> intent_store \<times> (intent_error, unit) result" where
  "writeIntent io dir r s =
     (let s' = put_file dir (file_name (li_idempotencyKey r)) (stored_value (intent_json r)) s
      in case io_write io dir (li_idempotencyKey r) of
        WriteCommitted \<Rightarrow> (s', Inr ())
      | WriteNotCommitted \<Rightarrow> (s, Inl StoreUnavailable)
      | WriteUnsynced \<Rightarrow> (s', Inl StoreUnavailable))"


definition ends_json :: "string \<Rightarrow> bool" where
  "ends_json name \<longleftrightarrow> 5 \<le> length name \<and> drop (length name - 5) name = ''.json''"

fun read_all ::
  "ambient \<Rightarrow> intent_io \<Rightarrow> string \<Rightarrow> manager_dir \<Rightarrow> string list \<Rightarrow> (intent_error, launch_intent list) result" where
  "read_all am io dir d [] = Inr []"
| "read_all am io dir d (name # names) =
     (if \<not> ends_json name then read_all am io dir d names
      else bind_result (readIntent am io dir d (take (length name - 5) name)) (\<lambda>r.
           bind_result (read_all am io dir d names) (\<lambda>rs.
             Inr (case r of None \<Rightarrow> rs | Some x \<Rightarrow> x # rs))))"

text \<open>\<open>readdir\<close> names each entry of a directory once.\<close>

definition listDir ::
  "ambient \<Rightarrow> intent_io \<Rightarrow> string \<Rightarrow> manager_dir \<Rightarrow> (intent_error, launch_intent list) result" where
  "listDir am io dir d = read_all am io dir d (sort (remdups (map fst (md_files d))))"

definition listManagerKeys :: "intent_io \<Rightarrow> intent_store \<Rightarrow> intent_store \<times> (intent_error, string list) result" where
  "listManagerKeys io s =
     (case intentsRoot io s of
        (s1, Inl e) \<Rightarrow> (s1, Inl e)
      | (s1, Inr _) \<Rightarrow>
          (let names = filter sha256_hex (sort (remdups (map fst (st_managers s1))))
           in (s1, if \<forall>n \<in> set names. (case map_of (st_managers s1) n of None \<Rightarrow> True | Some d \<Rightarrow> md_trusted d)
                   then Inr names else Inl StoreUnavailable)))"

section \<open>Operations\<close>

definition dash :: "string option \<Rightarrow> string" where
  "dash v = (case v of None \<Rightarrow> ''-'' | Some s \<Rightarrow> s)"

definition transitionLine :: "launch_intent \<Rightarrow> string \<Rightarrow> string" where
  "transitionLine r from =
     ''herdr-tools-daemon intent_transition launch='' @ li_launchId r
     @ '' mgr='' @ take 8 (li_managerSessionKey r) @ '' from='' @ from @ '' to='' @ state_name (li_state r)
     @ '' certainty='' @ dash (map_option certainty_name (li_effectCertainty r))
     @ '' code='' @ dash (li_failureCode r) @ '' phase='' @ dash (li_failurePhase r)"

definition log_line :: "string \<Rightarrow> intent_store \<Rightarrow> intent_store" where
  "log_line l s = s\<lparr>st_log := st_log s @ [l]\<rparr>"

definition transition ::
  "ambient \<Rightarrow> intent_io \<Rightarrow> launch_intent \<Rightarrow> intent_state list \<Rightarrow> (launch_intent \<Rightarrow> launch_intent) \<Rightarrow> intent_store
   \<Rightarrow> intent_store \<times> (intent_error, launch_intent) result" where
  "transition am io r expect mutate s =
     (case managerDir io (li_managerSessionKey r) False s of
        (s1, Inl e) \<Rightarrow> (s1, Inl e)
      | (s1, Inr None) \<Rightarrow> (s1, Inl (StateConflict None))
      | (s1, Inr (Some d)) \<Rightarrow>
          if \<not> io_lock io (li_managerSessionKey r) then (s1, Inl StoreUnavailable)
          else (case readIntent am io (li_managerSessionKey r) d (li_idempotencyKey r) of
             Inl e \<Rightarrow> (s1, Inl e)
           | Inr None \<Rightarrow> (s1, Inl (StateConflict None))
           | Inr (Some cur) \<Rightarrow>
               if li_launchId cur \<noteq> li_launchId r \<or> li_state cur \<notin> set expect
               then (s1, Inl (StateConflict (Some (li_state cur))))
               else (case writeIntent io (li_managerSessionKey r) (mutate cur) s1 of
                  (s2, Inl e) \<Rightarrow> (s2, Inl e)
                | (s2, Inr _) \<Rightarrow>
                    ((if li_state (mutate cur) \<noteq> li_state cur
                      then log_line (transitionLine (mutate cur) (state_name (li_state cur))) s2 else s2),
                     Inr (mutate cur)))))"

record begin_input =
  bi_managerSessionKey :: string
  bi_idempotencyKey :: string
  bi_task :: launch_task
  bi_projectRoot :: string

definition fresh_intent :: "ambient \<Rightarrow> intent_io \<Rightarrow> string \<Rightarrow> begin_input \<Rightarrow> launch_intent" where
  "fresh_intent am io uuid input =
     \<lparr>li_managerSessionKey = bi_managerSessionKey input, li_idempotencyKey = bi_idempotencyKey input,
      li_taskDigest = taskDigest am (bi_task input), li_launchId = uuid, li_projectRoot = bi_projectRoot input,
      li_state = Recorded, li_recordedAt = io_clock io 0, li_updatedAt = io_clock io 1, li_children = [],
      li_effectCertainty = None, li_failureCode = None, li_failurePhase = None, li_resolution = None,
      li_reconciled = False\<rparr>"

text \<open>The verdict on an existing record, and the section \<open>begin\<close> runs under the manager's lock.\<close>

definition begin_existing :: "ambient \<Rightarrow> begin_input \<Rightarrow> launch_intent \<Rightarrow> (intent_error, begin_result) result" where
  "begin_existing am input ex =
     (if li_taskDigest ex \<noteq> taskDigest am (bi_task input) then Inl (KeyConflict ''taskDigest'')
      else if li_projectRoot ex \<noteq> bi_projectRoot input then Inl (KeyConflict ''projectRoot'')
      else if li_state ex = Recorded then Inr (BeginLaunch ex True)
      else if li_state ex = Unresolved then Inr (BeginUnresolved ex)
      else Inr (BeginReplay ex))"

definition begin_locked ::
  "ambient \<Rightarrow> intent_io \<Rightarrow> string \<Rightarrow> begin_input \<Rightarrow> manager_dir \<Rightarrow> intent_store
   \<Rightarrow> intent_store \<times> (intent_error, begin_result) result" where
  "begin_locked am io uuid input d s =
     (case readIntent am io (bi_managerSessionKey input) d (bi_idempotencyKey input) of
        Inl e \<Rightarrow> (s, Inl e)
      | Inr None \<Rightarrow>
          (case writeIntent io (bi_managerSessionKey input) (fresh_intent am io uuid input) s of
             (s2, Inl e) \<Rightarrow> (s2, Inl e)
           | (s2, Inr _) \<Rightarrow> (log_line (transitionLine (fresh_intent am io uuid input) ''none'') s2,
                            Inr (BeginLaunch (fresh_intent am io uuid input) False)))
      | Inr (Some ex) \<Rightarrow> (s, begin_existing am input ex))"

text \<open>\<open>taskCheck\<close> stands for \<open>Value.Check(LaunchTaskSchema, \<dots>)\<close> of the typebox package.\<close>

definition begin_intent ::
  "ambient \<Rightarrow> (launch_task \<Rightarrow> bool) \<Rightarrow> intent_io \<Rightarrow> string \<Rightarrow> begin_input \<Rightarrow> intent_store
   \<Rightarrow> intent_store \<times> (intent_error, begin_result) result" where
  "begin_intent am taskCheck io uuid input s =
     (case assertManagerSessionKey (bi_managerSessionKey input) of Inl e \<Rightarrow> (s, Inl e) | Inr _ \<Rightarrow>
      case assertIdempotencyKey (bi_idempotencyKey input) of Inl e \<Rightarrow> (s, Inl e) | Inr _ \<Rightarrow>
      if \<not> usable (bi_projectRoot input) then (s, Inl (RequestInvalid ''projectRoot''))
      else if \<not> taskCheck (bi_task input) then (s, Inl (RequestInvalid ''task''))
      else (case managerDir io (bi_managerSessionKey input) True s of
         (s1, Inl e) \<Rightarrow> (s1, Inl e)
       | (s1, Inr None) \<Rightarrow> (s1, Inl StoreUnavailable)
       | (s1, Inr (Some d)) \<Rightarrow>
           if \<not> io_lock io (bi_managerSessionKey input) then (s1, Inl StoreUnavailable)
           else begin_locked am io uuid input d s1))"

definition markEffecting where
  "markEffecting am io r s =
     transition am io r [Recorded] (\<lambda>cur. cur\<lparr>li_state := Effecting, li_updatedAt := io_clock io 0\<rparr>) s"

definition recordChildren where
  "recordChildren am io r children s =
     (case assertChildren am ''children'' children of Inl e \<Rightarrow> (s, Inl e) | Inr _ \<Rightarrow>
      transition am io r [Effecting]
        (\<lambda>cur. cur\<lparr>li_children := mergeChildren (li_children cur) children, li_updatedAt := io_clock io 0\<rparr>) s)"

definition complete_intent where
  "complete_intent am io r children s =
     (case assertChildren am ''children'' children of Inl e \<Rightarrow> (s, Inl e) | Inr _ \<Rightarrow>
      transition am io r [Effecting]
        (\<lambda>cur. cur\<lparr>li_state := Completed, li_children := mergeChildren (li_children cur) children,
                   li_updatedAt := io_clock io 0\<rparr>) s)"

record fail_input =
  fi_effectCertainty :: effect_certainty
  fi_failureCode :: "string option"
  fi_failurePhase :: "string option"
  fi_children :: "intent_child list"

definition fail_mutate :: "intent_io \<Rightarrow> fail_input \<Rightarrow> launch_intent \<Rightarrow> launch_intent" where
  "fail_mutate io out cur =
     (let merged = mergeChildren (li_children cur) (fi_children out);
          next = cur\<lparr>li_children := merged, li_effectCertainty := Some (fi_effectCertainty out),
            li_failureCode := orElse (fi_failureCode out) (li_failureCode cur),
            li_failurePhase := orElse (fi_failurePhase out) (li_failurePhase cur),
            li_updatedAt := io_clock io 0\<rparr>
      in if fi_effectCertainty out = Absent \<and> merged = [] then next\<lparr>li_state := Failed\<rparr>
         else next\<lparr>li_state := Unresolved, li_resolution := Some EffectUncertain\<rparr>)"

definition fail_intent where
  "fail_intent am io r out s =
     (if \<not> (case fi_failureCode out of None \<Rightarrow> True | Some c \<Rightarrow> failure_code_shape c)
      then (s, Inl (RequestInvalid ''failureCode''))
      else if \<not> (case fi_failurePhase out of None \<Rightarrow> True | Some c \<Rightarrow> failure_phase_shape c)
      then (s, Inl (RequestInvalid ''failurePhase''))
      else (case assertChildren am ''children'' (fi_children out) of Inl e \<Rightarrow> (s, Inl e) | Inr _ \<Rightarrow>
         transition am io r [Recorded, Effecting] (fail_mutate io out) s))"

definition settled_child :: "intent_child \<Rightarrow> bool" where
  "settled_child c \<longleftrightarrow> ic_disposition c = Some Bound \<or> ic_disposition c = Some IdentityLost"

definition reconcile_mutate :: "intent_io \<Rightarrow> intent_child list \<Rightarrow> launch_intent \<Rightarrow> launch_intent" where
  "reconcile_mutate io dispositions cur =
     (let children = mergeChildren (li_children cur) dispositions
      in if \<not> (children \<noteq> [] \<and> list_all settled_child children)
         then cur\<lparr>li_children := children, li_updatedAt := io_clock io 0\<rparr>
         else cur\<lparr>li_children := children, li_state := Completed, li_reconciled := True,
                  li_updatedAt := io_clock io 0\<rparr>)"

definition reconcile_intent where
  "reconcile_intent am io r dispositions s =
     (case assertChildren am ''dispositions'' dispositions of Inl e \<Rightarrow> (s, Inl e) | Inr _ \<Rightarrow>
      if list_ex (\<lambda>c. ic_disposition c = None) dispositions then (s, Inl (RequestInvalid ''dispositions''))
      else transition am io r [Unresolved] (reconcile_mutate io dispositions) s)"

definition get_intent ::
  "ambient \<Rightarrow> intent_io \<Rightarrow> string \<Rightarrow> string \<Rightarrow> intent_store \<Rightarrow> intent_store \<times> (intent_error, launch_intent option) result"
where
  "get_intent am io key idem s =
     (case assertIdempotencyKey idem of Inl e \<Rightarrow> (s, Inl e) | Inr _ \<Rightarrow>
      (case managerDir io key False s of
         (s1, Inl e) \<Rightarrow> (s1, Inl e)
       | (s1, Inr None) \<Rightarrow> (s1, Inr None)
       | (s1, Inr (Some d)) \<Rightarrow> (s1, readIntent am io key d idem)))"

definition list_intents ::
  "ambient \<Rightarrow> intent_io \<Rightarrow> string \<Rightarrow> intent_store \<Rightarrow> intent_store \<times> (intent_error, launch_intent list) result" where
  "list_intents am io key s =
     (case managerDir io key False s of
        (s1, Inl e) \<Rightarrow> (s1, Inl e)
      | (s1, Inr None) \<Rightarrow> (s1, Inr [])
      | (s1, Inr (Some d)) \<Rightarrow> (s1, listDir am io key d))"

definition interrupted :: "string \<Rightarrow> launch_intent \<Rightarrow> launch_intent" where
  "interrupted time r = r\<lparr>li_state := Unresolved, li_resolution := Some Interrupted,
     li_effectCertainty := Some (case li_effectCertainty r of None \<Rightarrow> Unknown | Some c \<Rightarrow> c), li_updatedAt := time\<rparr>"

text \<open>The inner loop of the restart sweep; \<open>done\<close> are the records already rewritten.\<close>

fun recover_dir ::
  "intent_io \<Rightarrow> string \<Rightarrow> launch_intent list \<Rightarrow> launch_intent list \<Rightarrow> intent_store
   \<Rightarrow> intent_store \<times> (intent_error, launch_intent list) result" where
  "recover_dir io dir [] done s = (s, Inr done)"
| "recover_dir io dir (r # rs) done s =
     (if li_state r \<noteq> Effecting then recover_dir io dir rs done s
      else (let next = interrupted (io_clock io (length done)) r in
        case writeIntent io dir next s of
          (s1, Inl e) \<Rightarrow> (s1, Inl e)
        | (s1, Inr _) \<Rightarrow>
            recover_dir io dir rs (done @ [next]) (log_line (transitionLine next (state_name (li_state r))) s1)))"

fun recover_managers ::
  "ambient \<Rightarrow> intent_io \<Rightarrow> string list \<Rightarrow> launch_intent list \<Rightarrow> intent_store
   \<Rightarrow> intent_store \<times> (intent_error, launch_intent list) result" where
  "recover_managers am io [] done s = (s, Inr done)"
| "recover_managers am io (m # ms) done s =
     (case managerDir io m False s of
        (s1, Inl e) \<Rightarrow> (s1, Inl e)
      | (s1, Inr None) \<Rightarrow> recover_managers am io ms done s1
      | (s1, Inr (Some d)) \<Rightarrow>
          if \<not> io_lock io m then (s1, Inl StoreUnavailable)
          else (case listDir am io m d of
             Inl e \<Rightarrow> (s1, Inl e)
           | Inr rs \<Rightarrow>
               (case recover_dir io m rs done s1 of
                  (s2, Inl e) \<Rightarrow> (s2, Inl e)
                | (s2, Inr done') \<Rightarrow> recover_managers am io ms done' s2)))"

definition recoverInterrupted ::
  "ambient \<Rightarrow> intent_io \<Rightarrow> string option \<Rightarrow> intent_store \<Rightarrow> intent_store \<times> (intent_error, launch_intent list) result" where
  "recoverInterrupted am io key s =
     (case key of
        Some k \<Rightarrow> recover_managers am io [k] [] s
      | None \<Rightarrow>
          (case listManagerKeys io s of
             (s1, Inl e) \<Rightarrow> (s1, Inl e)
           | (s1, Inr ms) \<Rightarrow> recover_managers am io ms [] s1))"

end
