(* ===== verification/Intent_Lifecycle.thy ===== *)
theory Intent_Lifecycle
  imports Intents
begin

text \<open>
  Correctness of the launch-intent store: records survive the file round trip, every operation
  moves every binding only along the abstract lifecycle \<open>life\<close>, whatever faults occur, and from
  that the binding of a key, the evidence behind \<open>failed\<close>, the exactly-once effect and the restart
  sweep.
\<close>

section \<open>Records survive the round trip through their file\<close>

lemma named_find:
  "(\<And>a b. nm a = nm b \<longleftrightarrow> a = b) \<Longrightarrow> x \<in> set xs \<Longrightarrow> the_named nm xs (JStr (nm x)) = Some x"
  unfolding the_named_def by (induction xs) auto

lemma name_inj:
  "state_name a = state_name b \<longleftrightarrow> a = b"
  "disposition_name d = disposition_name e \<longleftrightarrow> d = e"
  "certainty_name f = certainty_name g \<longleftrightarrow> f = g"
  "resolution_name h = resolution_name i \<longleftrightarrow> h = i"
     apply (cases a; cases b; simp)
    apply (cases d; cases e; simp)
   apply (cases f; cases g; simp)
  apply (cases h; cases i; simp)
  done

lemma names_total:
  "s \<in> set INTENT_STATES" "d \<in> set CHILD_DISPOSITIONS" "c \<in> set EFFECT_CERTAINTIES" "r \<in> set INTENT_RESOLUTIONS"
     apply (cases s; simp add: INTENT_STATES_def)
    apply (cases d; simp add: CHILD_DISPOSITIONS_def)
   apply (cases c; simp add: EFFECT_CERTAINTIES_def)
  apply (cases r; simp add: INTENT_RESOLUTIONS_def)
  done

lemma the_named_simps [simp]:
  "the_named state_name INTENT_STATES (JStr (state_name s)) = Some s"
  "the_named disposition_name CHILD_DISPOSITIONS (JStr (disposition_name d)) = Some d"
  "the_named certainty_name EFFECT_CERTAINTIES (JStr (certainty_name c)) = Some c"
  "the_named resolution_name INTENT_RESOLUTIONS (JStr (resolution_name r)) = Some r"
  "the_named nm xs JUndef = None"
  by (simp_all add: named_find name_inj names_total) (simp add: the_named_def)

lemma named_simps [simp]:
  "named state_name INTENT_STATES (JStr (state_name s))"
  "named disposition_name CHILD_DISPOSITIONS (JStr (disposition_name d))"
  "named certainty_name EFFECT_CERTAINTIES (JStr (certainty_name c))"
  "named resolution_name INTENT_RESOLUTIONS (JStr (resolution_name r))"
  by (simp_all add: named_def names_total)

lemma opt_of_simps [simp]:
  "opt_of f JUndef = None" "opt_of f (JStr s) = Some (f (JStr s))" "opt_of f (JObj kvs) = Some (f (JObj kvs))"
  by (simp_all add: opt_of_def)

lemma session_gets [simp]:
  "jget ''source'' (session_value s) = JStr (as_source s)" "jget ''agent'' (session_value s) = JStr (as_agent s)"
  "jget ''kind'' (session_value s) = JStr (as_kind s)" "jget ''value'' (session_value s) = JStr (as_value s)"
  by (simp_all add: session_value_def)

lemma session_of_value [simp]: "session_of (session_value s) = s"
  by (simp add: session_of_def)

lemma evidence_gets [simp]:
  "jget ''at'' (evidence_json e) = JStr (ce_at e)" "jget ''reason'' (evidence_json e) = JStr (ce_reason e)"
  "jget ''terminalId'' (evidence_json e) = ojs (map_option JStr (ce_terminalId e))"
  "jget ''session'' (evidence_json e) = ojs (map_option session_value (ce_session e))"
  by (simp_all add: evidence_json_def json_gets del: opt_json_simps)

lemma session_value_neq [simp]: "session_value e \<noteq> JUndef"
  by (simp add: session_value_def)

lemma evidence_of_json [simp]: "evidence_of (evidence_json e) = e"
  by (cases "ce_terminalId e"; cases "ce_session e") (simp_all add: evidence_of_def opt_of_def)

lemma child_gets [simp]:
  "jget ''name'' (child_json c) = JStr (ic_name c)"
  "jget ''runId'' (child_json c) = ojs (map_option JStr (ic_runId c))"
  "jget ''disposition'' (child_json c) = ojs (map_option (\<lambda>d. JStr (disposition_name d)) (ic_disposition c))"
  "jget ''evidence'' (child_json c) = ojs (map_option evidence_json (ic_evidence c))"
  by (simp_all add: child_json_def json_gets del: opt_json_simps)

lemma evidence_json_neq [simp]: "evidence_json e \<noteq> JUndef"
  by (simp add: evidence_json_def)

lemma child_of_json [simp]: "child_of (child_json c) = c"
  by (cases "ic_runId c"; cases "ic_disposition c"; cases "ic_evidence c") (simp_all add: child_of_def opt_of_def)

lemma intent_gets [simp]:
  "jget ''v'' (intent_json r) = JNum 1"
  "jget ''managerSessionKey'' (intent_json r) = JStr (li_managerSessionKey r)"
  "jget ''idempotencyKey'' (intent_json r) = JStr (li_idempotencyKey r)"
  "jget ''taskDigest'' (intent_json r) = JStr (li_taskDigest r)"
  "jget ''launchId'' (intent_json r) = JStr (li_launchId r)"
  "jget ''projectRoot'' (intent_json r) = JStr (li_projectRoot r)"
  "jget ''state'' (intent_json r) = JStr (state_name (li_state r))"
  "jget ''recordedAt'' (intent_json r) = JStr (li_recordedAt r)"
  "jget ''updatedAt'' (intent_json r) = JStr (li_updatedAt r)"
  "jget ''children'' (intent_json r) = JArr (map child_json (li_children r))"
  "jget ''effectCertainty'' (intent_json r) = ojs (map_option (\<lambda>c. JStr (certainty_name c)) (li_effectCertainty r))"
  "jget ''failureCode'' (intent_json r) = ojs (map_option JStr (li_failureCode r))"
  "jget ''failurePhase'' (intent_json r) = ojs (map_option JStr (li_failurePhase r))"
  "jget ''resolution'' (intent_json r) = ojs (map_option (\<lambda>c. JStr (resolution_name c)) (li_resolution r))"
  "jget ''reconciled'' (intent_json r) = (if li_reconciled r then JBool True else JUndef)"
  by (simp_all add: intent_json_def json_gets del: opt_json_simps)

lemma opt_str_decode [simp]: "opt_of str_of (ojs (map_option JStr v)) = v"
  by (cases v) simp_all

lemma named_decode [simp]:
  "the_named certainty_name EFFECT_CERTAINTIES (ojs (map_option (\<lambda>c. JStr (certainty_name c)) v)) = v"
  "the_named resolution_name INTENT_RESOLUTIONS (ojs (map_option (\<lambda>c. JStr (resolution_name c)) w)) = w"
  by (cases v; simp) (cases w; simp)

lemma intent_of_json [simp]: "intent_of (intent_json r) = r"
  by (simp add: intent_of_def comp_def)

section \<open>Valid records\<close>

definition opt_ok :: "('a \<Rightarrow> bool) \<Rightarrow> 'a option \<Rightarrow> bool" where
  "opt_ok P v \<longleftrightarrow> (case v of None \<Rightarrow> True | Some x \<Rightarrow> P x)"

lemma opt_ok_simps [simp]: "opt_ok P None" "opt_ok P (Some x) = P x"
  by (simp_all add: opt_ok_def)

definition valid_child :: "ambient \<Rightarrow> intent_child \<Rightarrow> bool" where
  "valid_child am c \<longleftrightarrow> isIntentChild am (child_json c)"

definition valid_intent :: "ambient \<Rightarrow> launch_intent \<Rightarrow> bool" where
  "valid_intent am r \<longleftrightarrow> sha256_hex (li_managerSessionKey r) \<and> idempotency_shape (li_idempotencyKey r)
     \<and> sha256_hex (li_taskDigest r) \<and> usable (li_launchId r) \<and> usable (li_projectRoot r)
     \<and> usable (li_recordedAt r) \<and> usable (li_updatedAt r) \<and> list_all (valid_child am) (li_children r)
     \<and> opt_ok failure_code_shape (li_failureCode r) \<and> opt_ok failure_phase_shape (li_failurePhase r)"

lemma opt_field_ojs: "opt_field (is_str P) (ojs (map_option JStr v)) = opt_ok P v"
  by (cases v) simp_all

lemma opt_field_named [simp]:
  "opt_field (named certainty_name EFFECT_CERTAINTIES) (ojs (map_option (\<lambda>c. JStr (certainty_name c)) v))"
  "opt_field (named resolution_name INTENT_RESOLUTIONS) (ojs (map_option (\<lambda>c. JStr (resolution_name c)) w))"
  "opt_field (named disposition_name CHILD_DISPOSITIONS) (ojs (map_option (\<lambda>c. JStr (disposition_name c)) x))"
    apply (cases v; simp)
   apply (cases w; simp)
  apply (cases x; simp)
  done

lemma isIntentRecord_json: "isIntentRecord am (intent_json r) \<longleftrightarrow> valid_intent am r"
  unfolding isIntentRecord_def valid_intent_def
  by (simp add: opt_field_ojs isIdentifier_def list.pred_map comp_def flip: valid_child_def)
    (simp add: intent_json_def)

text \<open>What the validator accepts is valid once it is read into the typed record.\<close>

lemma is_strE: "is_str P v \<Longrightarrow> (\<And>s. v = JStr s \<Longrightarrow> P s \<Longrightarrow> thesis) \<Longrightarrow> thesis"
  by (cases v) auto

lemma opt_fieldE: "opt_field P v \<Longrightarrow> (v = JUndef \<Longrightarrow> thesis) \<Longrightarrow> (P v \<Longrightarrow> thesis) \<Longrightarrow> thesis"
  by (auto simp: opt_field_def)

lemma is_str_JStr: "is_str P v \<Longrightarrow> P (str_of v)"
  by (cases v) auto

lemma opt_str_ok: "opt_field (is_str P) v \<Longrightarrow> opt_ok P (opt_of str_of v)"
  by (cases v) (auto simp: opt_field_def)

lemma isEvidenceSession_of: "isEvidenceSession v \<Longrightarrow> isEvidenceSession (session_value (session_of v))"
  unfolding isEvidenceSession_def session_field_ok_def
  by (auto simp: session_of_def dest: is_str_JStr) (auto simp: session_value_def)

lemma isChildEvidence_json:
  "isChildEvidence am (evidence_json e) \<longleftrightarrow>
     length (ce_at e) \<le> 32 \<and> am_dateParse am (ce_at e) \<noteq> None \<and> reason_shape (ce_reason e)
     \<and> opt_ok (\<lambda>s. usable s \<and> length s \<le> 256) (ce_terminalId e)
     \<and> opt_ok (\<lambda>s. isEvidenceSession (session_value s)) (ce_session e)"
proof -
  have "is_record (evidence_json e)"
    "list_all (\<lambda>k. k \<in> set [''at'', ''reason'', ''terminalId'', ''session'']) (obj_keys (evidence_json e))"
    by (cases "ce_terminalId e"; cases "ce_session e"; simp add: evidence_json_def)+
  moreover have "opt_field isEvidenceSession (ojs (map_option session_value (ce_session e)))
      = opt_ok (\<lambda>s. isEvidenceSession (session_value s)) (ce_session e)"
    by (cases "ce_session e") (simp_all add: opt_field_def)
  ultimately show ?thesis
    unfolding isChildEvidence_def evidence_gets opt_field_ojs is_str.simps by blast
qed

lemma isChildEvidence_of: "isChildEvidence am v \<Longrightarrow> isChildEvidence am (evidence_json (evidence_of v))"
proof -
  assume v: "isChildEvidence am v"
  have s: "opt_ok (\<lambda>s. isEvidenceSession (session_value s)) (opt_of session_of (jget ''session'' v))"
    using v isEvidenceSession_of by (auto simp: isChildEvidence_def opt_field_def opt_of_def)
  show ?thesis
    unfolding isChildEvidence_json
    using v s opt_str_ok [of "\<lambda>s. usable s \<and> length s \<le> 256" "jget ''terminalId'' v"]
      is_str_JStr [of "\<lambda>s. length s \<le> 32 \<and> am_dateParse am s \<noteq> None" "jget ''at'' v"]
      is_str_JStr [of reason_shape "jget ''reason'' v"]
    by (simp add: isChildEvidence_def evidence_of_def)
qed

lemma valid_child_iff:
  "valid_child am c \<longleftrightarrow> usable (ic_name c) \<and> opt_ok usable (ic_runId c)
     \<and> opt_ok (\<lambda>e. isChildEvidence am (evidence_json e)) (ic_evidence c)"
proof -
  have "opt_field (isChildEvidence am) (ojs (map_option evidence_json (ic_evidence c)))
      = opt_ok (\<lambda>e. isChildEvidence am (evidence_json e)) (ic_evidence c)"
    by (cases "ic_evidence c") (simp_all add: opt_field_def)
  moreover have "is_record (child_json c)" by (simp add: child_json_def)
  ultimately show ?thesis
    unfolding valid_child_def isIntentChild_def child_gets isIdentifier_def opt_field_ojs by simp
qed

lemma valid_child_of: "isIntentChild am v \<Longrightarrow> valid_child am (child_of v)"
proof -
  assume v: "isIntentChild am v"
  have "opt_ok (\<lambda>e. isChildEvidence am (evidence_json e)) (opt_of evidence_of (jget ''evidence'' v))"
    using v isChildEvidence_of by (auto simp: isIntentChild_def opt_field_def opt_of_def)
  then show ?thesis
    using v opt_str_ok [of usable "jget ''runId'' v"] is_str_JStr [of usable "jget ''name'' v"]
    by (simp add: valid_child_iff isIntentChild_def isIdentifier_def child_of_def)
qed

lemma valid_intent_of: "isIntentRecord am v \<Longrightarrow> valid_intent am (intent_of v)"
proof -
  assume v: "isIntentRecord am v"
  have "list_all (valid_child am) (map child_of (arr_of (jget ''children'' v)))"
    using v by (cases "jget ''children'' v") (auto simp: isIntentRecord_def list_all_iff intro: valid_child_of)
  then show ?thesis
    using v unfolding isIntentRecord_def valid_intent_def isIdentifier_def intent_of_def
    by (simp add: is_str_JStr opt_str_ok)
qed

section \<open>What a binding durably holds\<close>

lemma intent_keys_plain:
  "list_all (\<lambda>k. \<not> isEnvironmentKey k) [''source'', ''agent'', ''kind'', ''value'', ''at'', ''reason'', ''terminalId'',
     ''session'', ''name'', ''runId'', ''disposition'', ''evidence'', ''v'', ''managerSessionKey'', ''idempotencyKey'',
     ''taskDigest'', ''launchId'', ''projectRoot'', ''state'', ''recordedAt'', ''updatedAt'', ''children'',
     ''effectCertainty'', ''failureCode'', ''failurePhase'', ''resolution'', ''reconciled'']"
  by code_simp

lemmas intent_key_plain = intent_keys_plain [unfolded list.pred_inject]

lemma all_opt_json: "list_all P (opt_json k v) \<longleftrightarrow> opt_ok (\<lambda>x. P (k, x)) v"
  by (cases v) simp_all

lemma plain_obj: "plain (Suc n) (JObj kvs) \<longleftrightarrow> list_all (\<lambda>kv. \<not> isEnvironmentKey (fst kv) \<and> plain n (snd kv)) kvs"
  by (simp add: list_all_iff)

lemma opt_ok_map: "opt_ok P (map_option f v) \<longleftrightarrow> opt_ok (\<lambda>x. P (f x)) v"
  by (cases v) simp_all

lemma opt_ok_all: "(\<And>x. P x) \<Longrightarrow> opt_ok P v"
  by (cases v) simp_all

lemma plain_session: "plain (Suc n) (session_value s)"
  unfolding session_value_def plain_obj using intent_key_plain by simp

lemma plain_evidence: "plain (Suc (Suc n)) (evidence_json e)"
  unfolding evidence_json_def plain_obj using intent_key_plain
  by (simp add: all_opt_json opt_ok_map opt_ok_all plain_session del: plain_simps(7))

lemma plain_child: "plain (Suc (Suc (Suc n))) (child_json c)"
  unfolding child_json_def plain_obj using intent_key_plain
  by (simp add: all_opt_json opt_ok_map opt_ok_all plain_evidence del: plain_simps(7))

lemma plain_intent: "plain 5 (intent_json r)"
proof -
  have "plain (Suc 4) (intent_json r)"
    unfolding intent_json_def plain_obj using intent_key_plain plain_child [of 0]
    by (simp add: all_opt_json opt_ok_map opt_ok_all numeral_eq_Suc del: plain_simps(7))
  then show ?thesis by simp
qed

lemma stored_intent [simp]: "stored_value (intent_json r) = JsonFile (intent_json r)"
  unfolding stored_value_def
  by (simp add: modelSafeTree_plain [OF plain_intent] MODEL_SAFE_DEPTH_LIMIT_def)

definition file_binding :: "ambient \<Rightarrow> string \<Rightarrow> string \<Rightarrow> intent_file option \<Rightarrow> launch_intent option" where
  "file_binding am dir key f =
     (case f of
        Some (JsonFile v) \<Rightarrow>
          if isIntentRecord am v \<and> jget ''idempotencyKey'' v = JStr key \<and> jget ''managerSessionKey'' v = JStr dir
          then Some (intent_of v) else None
      | _ \<Rightarrow> None)"

definition dir_file :: "intent_store \<Rightarrow> string \<Rightarrow> string \<Rightarrow> intent_file option" where
  "dir_file s dir key =
     (case map_of (st_managers s) dir of None \<Rightarrow> None | Some d \<Rightarrow> map_of (md_files d) (file_name key))"

definition binding :: "ambient \<Rightarrow> intent_store \<Rightarrow> string \<times> string \<Rightarrow> launch_intent option" where
  "binding am s mk = file_binding am (fst mk) (snd mk) (dir_file s (fst mk) (snd mk))"

lemma file_name_inj [simp]: "file_name a = file_name b \<longleftrightarrow> a = b"
  by (simp add: file_name_def)

lemma binding_valid:
  assumes "binding am s (m, k) = Some r"
  shows "valid_intent am r \<and> li_managerSessionKey r = m \<and> li_idempotencyKey r = k"
proof -
  from assms obtain v where v: "isIntentRecord am v" "jget ''idempotencyKey'' v = JStr k"
      "jget ''managerSessionKey'' v = JStr m" "r = intent_of v"
    unfolding binding_def file_binding_def by (auto split: option.splits intent_file.splits if_splits)
  then show ?thesis using valid_intent_of [OF v(1)] by (simp add: intent_of_def)
qed

lemma read_binding:
  assumes "map_of (st_managers s) m = Some d"
  shows "readIntent am io m d k = Inr (Some r) \<Longrightarrow> binding am s (m, k) = Some r"
    and "readIntent am io m d k = Inr None \<Longrightarrow> dir_file s m k = None"
  using assms by (auto simp: readIntent_def binding_def file_binding_def dir_file_def
      split: option.splits intent_file.splits if_splits)

lemma binding_no_file: "dir_file s m k = None \<Longrightarrow> binding am s (m, k) = None"
  by (simp add: binding_def file_binding_def)

lemma dir_file_put:
  assumes "map_of (st_managers s) m = Some d"
  shows "dir_file (put_file m (file_name k) f s) m' k' = (if m' = m \<and> k' = k then Some f else dir_file s m' k')"
  using assms by (simp add: dir_file_def put_file_def)

lemma file_binding_intent [simp]:
  "valid_intent am r \<Longrightarrow> file_binding am (li_managerSessionKey r) (li_idempotencyKey r) (Some (JsonFile (intent_json r))) = Some r"
  by (simp add: file_binding_def isIntentRecord_json)

lemma binding_put:
  assumes "valid_intent am r" and "li_managerSessionKey r = m" and "map_of (st_managers s) m = Some d"
  shows "binding am (put_file m (file_name (li_idempotencyKey r)) (stored_value (intent_json r)) s)
       = (binding am s)((m, li_idempotencyKey r) \<mapsto> r)"
proof
  fix mk :: "string \<times> string"
  show "binding am (put_file m (file_name (li_idempotencyKey r)) (stored_value (intent_json r)) s) mk
       = ((binding am s)((m, li_idempotencyKey r) \<mapsto> r)) mk"
    using assms by (cases mk) (auto simp: binding_def dir_file_put [OF assms(3)])
qed

lemma binding_log [simp]: "binding am (log_line l s) = binding am s"
  by (simp add: fun_eq_iff binding_def dir_file_def log_line_def)

lemma intentsRoot_managers: "st_managers (fst (intentsRoot io s)) = st_managers s"
  by (simp add: intentsRoot_def split: option.splits)

lemma managerDir_files: "dir_file (fst (managerDir io m create s)) m' k = dir_file s m' k"
proof -
  obtain s1 r where r: "intentsRoot io s = (s1, r)" by fastforce
  with intentsRoot_managers [of io s] have "st_managers s1 = st_managers s" by simp
  then show ?thesis
    by (simp add: managerDir_def r dir_file_def Let_def split: sum.split option.split)
qed

lemma managerDir_binding: "binding am (fst (managerDir io m create s)) = binding am s"
  by (simp add: fun_eq_iff binding_def managerDir_files)

lemma managerDir_dir:
  "managerDir io m create s = (s1, Inr (Some d)) \<Longrightarrow> map_of (st_managers s1) m = Some d \<and> sha256_hex m"
  by (auto simp: managerDir_def Let_def assertManagerSessionKey_def
      split: sum.splits prod.splits option.splits if_splits)

section \<open>The lifecycle of a binding\<close>

definition fresh_record :: "launch_intent \<Rightarrow> bool" where
  "fresh_record r \<longleftrightarrow> li_state r = Recorded \<and> li_children r = [] \<and> li_effectCertainty r = None
     \<and> li_failureCode r = None \<and> li_failurePhase r = None \<and> li_resolution r = None \<and> \<not> li_reconciled r"

text \<open>The specification: the transitions the module's header allows, on one binding.\<close>

inductive life :: "launch_intent option \<Rightarrow> launch_intent option \<Rightarrow> bool" where
  life_record: "fresh_record r \<Longrightarrow> life None (Some r)"
| life_effect: "li_state r = Recorded \<Longrightarrow> life (Some r) (Some (r\<lparr>li_state := Effecting, li_updatedAt := t\<rparr>))"
| life_children: "li_state r = Effecting \<Longrightarrow>
    life (Some r) (Some (r\<lparr>li_children := mergeChildren (li_children r) cs, li_updatedAt := t\<rparr>))"
| life_complete: "li_state r = Effecting \<Longrightarrow>
    life (Some r) (Some (r\<lparr>li_state := Completed, li_children := mergeChildren (li_children r) cs, li_updatedAt := t\<rparr>))"
| life_fail: "li_state r = Recorded \<or> li_state r = Effecting \<Longrightarrow> life (Some r) (Some (fail_mutate io out r))"
| life_reconcile: "li_state r = Unresolved \<Longrightarrow> life (Some r) (Some (reconcile_mutate io cs r))"
| life_interrupt: "li_state r = Effecting \<Longrightarrow> life (Some r) (Some (interrupted t r))"

inductive_cases life_NoneE: "life None x"
inductive_cases life_SomeE: "life (Some r) x"

section \<open>Operations move bindings along their lifecycle\<close>

lemma writeIntent_binding:
  assumes "writeIntent io m r s = (s', res)" and "valid_intent am r" and "li_managerSessionKey r = m"
    and "map_of (st_managers s) m = Some d"
  shows "(binding am s' = binding am s \<and> res \<noteq> Inr ()) \<or> binding am s' = (binding am s)((m, li_idempotencyKey r) \<mapsto> r)"
  using assms(1) binding_put [OF assms(2,3,4)]
  by (auto simp: writeIntent_def Let_def split: write_outcome.splits)

lemma writeIntent_dir:
  "writeIntent io m r s = (s', res) \<Longrightarrow> map_of (st_managers s) q = Some d \<Longrightarrow> \<exists>d'. map_of (st_managers s') q = Some d'"
  by (auto simp: writeIntent_def Let_def put_file_def split: write_outcome.splits option.splits)

text \<open>A change of a record the code can make under the lock keeps its binding and its validity.\<close>

definition keeps_record :: "ambient \<Rightarrow> (launch_intent \<Rightarrow> launch_intent) \<Rightarrow> bool" where
  "keeps_record am f \<longleftrightarrow> (\<forall>r. valid_intent am r \<longrightarrow> valid_intent am (f r)
     \<and> li_managerSessionKey (f r) = li_managerSessionKey r \<and> li_idempotencyKey (f r) = li_idempotencyKey r)"

lemma transition_cases:
  assumes "transition am io r expect mutate s = (s', res)" and "keeps_record am mutate"
  obtains (refused) e where "res = Inl e" "binding am s' = binding am s"
    | (moved) cur where "binding am s (li_managerSessionKey r, li_idempotencyKey r) = Some cur"
        "li_launchId cur = li_launchId r" "li_state cur \<in> set expect"
        "binding am s' = (binding am s)((li_managerSessionKey r, li_idempotencyKey r) \<mapsto> mutate cur)"
        "\<And>x. res = Inr x \<Longrightarrow> x = mutate cur"
proof -
  let ?m = "li_managerSessionKey r" and ?k = "li_idempotencyKey r"
  obtain s1 q where m: "managerDir io ?m False s = (s1, q)" by fastforce
  with managerDir_binding [of am io ?m False s] have b1: "binding am s1 = binding am s" by simp
  show thesis
  proof (cases "\<exists>d cur. q = Inr (Some d) \<and> io_lock io ?m \<and> readIntent am io ?m d ?k = Inr (Some cur)
        \<and> li_launchId cur = li_launchId r \<and> li_state cur \<in> set expect")
    case True
    then obtain d cur where q: "q = Inr (Some d)" "io_lock io ?m" "readIntent am io ?m d ?k = Inr (Some cur)"
      and cur: "li_launchId cur = li_launchId r" "li_state cur \<in> set expect" by blast
    have d: "map_of (st_managers s1) ?m = Some d" using managerDir_dir [of io ?m False s s1 d] m q by simp
    have b: "binding am s (?m, ?k) = Some cur" using read_binding(1) [OF d q(3)] b1 by simp
    note v = binding_valid [OF b]
    have keep: "valid_intent am (mutate cur)" "li_managerSessionKey (mutate cur) = ?m" "li_idempotencyKey (mutate cur) = ?k"
      using assms(2) v unfolding keeps_record_def by auto
    obtain s2 w where w: "writeIntent io ?m (mutate cur) s1 = (s2, w)" by fastforce
    from writeIntent_binding [OF w keep(1,2) d] b1 keep(3)
    have two: "(binding am s2 = binding am s \<and> w \<noteq> Inr ()) \<or> binding am s2 = (binding am s)((?m, ?k) \<mapsto> mutate cur)"
      by simp
    show thesis
    proof (cases w)
      case (Inl e)
      then have r: "s' = s2" "res = Inl e" using assms(1) m q cur w by (simp_all add: transition_def)
      from two show thesis
      proof
        assume "binding am s2 = binding am s \<and> w \<noteq> Inr ()"
        then show thesis using refused r by simp
      next
        assume "binding am s2 = (binding am s)((?m, ?k) \<mapsto> mutate cur)"
        then show thesis by (rule moved [OF b cur, unfolded r]) (simp add: r)
      qed
    next
      case (Inr u)
      then have r: "binding am s' = binding am s2" "res = Inr (mutate cur)"
        using assms(1) m q cur w by (auto simp: transition_def split: if_splits)
      from two Inr have "binding am s' = (binding am s)((?m, ?k) \<mapsto> mutate cur)" unfolding r by simp
      then show thesis by (rule moved [OF b cur]) (simp add: r)
    qed
  next
    case False
    have "\<exists>e. transition am io r expect mutate s = (s1, Inl e)"
    proof (cases q)
      case (Inr x)
      show ?thesis
      proof (cases x)
        case (Some d)
        show ?thesis
        proof (cases "readIntent am io ?m d ?k")
          case inr: (Inr y)
          then show ?thesis using False Inr Some m by (cases y) (auto simp: transition_def)
        qed (use Inr Some m in \<open>simp add: transition_def\<close>)
      qed (use Inr m in \<open>simp add: transition_def\<close>)
    qed (use m in \<open>simp add: transition_def\<close>)
    then show thesis using assms(1) refused b1 by auto
  qed
qed

lemma orElse_ok: "opt_ok P a \<Longrightarrow> opt_ok P b \<Longrightarrow> opt_ok P (orElse a b)"
  by (cases a) simp_all

lemma fill_child_valid: "valid_child am a \<Longrightarrow> valid_child am b \<Longrightarrow> valid_child am (fill_child a b)"
  by (simp add: valid_child_iff fill_child_def orElse_ok)

lemma merge_child_valid: "list_all (valid_child am) cs \<Longrightarrow> valid_child am c \<Longrightarrow> list_all (valid_child am) (merge_child cs c)"
  by (induction cs) (simp_all add: fill_child_valid)

lemma mergeChildren_valid:
  "list_all (valid_child am) cs \<Longrightarrow> list_all (valid_child am) added \<Longrightarrow> list_all (valid_child am) (mergeChildren cs added)"
  unfolding mergeChildren_def by (induction added arbitrary: cs) (simp_all add: merge_child_valid)

lemma assertChildren_valid: "assertChildren am f cs = Inr u \<longleftrightarrow> list_all (valid_child am) cs"
  by (simp add: assertChildren_def flip: valid_child_def)

definition clock_ok :: "intent_io \<Rightarrow> bool" where
  "clock_ok io \<longleftrightarrow> (\<forall>n. usable (io_clock io n))"

lemma mutate_keeps:
  assumes "clock_ok io"
  shows "keeps_record am (\<lambda>cur. cur\<lparr>li_state := st, li_updatedAt := io_clock io 0\<rparr>)"
    and "list_all (valid_child am) cs \<Longrightarrow>
      keeps_record am (\<lambda>cur. cur\<lparr>li_children := mergeChildren (li_children cur) cs, li_updatedAt := io_clock io 0\<rparr>)"
    and "list_all (valid_child am) cs \<Longrightarrow> keeps_record am (\<lambda>cur. cur\<lparr>li_state := st,
        li_children := mergeChildren (li_children cur) cs, li_updatedAt := io_clock io 0\<rparr>)"
    and "list_all (valid_child am) cs \<Longrightarrow> keeps_record am (reconcile_mutate io cs)"
    and "list_all (valid_child am) (fi_children out) \<Longrightarrow> opt_ok failure_code_shape (fi_failureCode out) \<Longrightarrow>
      opt_ok failure_phase_shape (fi_failurePhase out) \<Longrightarrow> keeps_record am (fail_mutate io out)"
    and "keeps_record am (interrupted (io_clock io n))"
  using assms unfolding keeps_record_def valid_intent_def clock_ok_def
  by (simp_all add: mergeChildren_valid reconcile_mutate_def fail_mutate_def Let_def orElse_ok interrupted_def)

text \<open>\<open>moved s s'\<close>: every binding made at most one lifecycle step.\<close>

definition moved :: "ambient \<Rightarrow> intent_store \<Rightarrow> intent_store \<Rightarrow> bool" where
  "moved am s s' \<longleftrightarrow> (\<forall>mk. life\<^sup>=\<^sup>= (binding am s mk) (binding am s' mk))"

lemma moved_same: "binding am s' = binding am s \<Longrightarrow> moved am s s'"
  by (simp add: moved_def)

lemma moved_upd: "binding am s' = (binding am s)(mk \<mapsto> r) \<Longrightarrow> life (binding am s mk) (Some r) \<Longrightarrow> moved am s s'"
  by (simp add: moved_def)

lemma transition_moved:
  assumes "transition am io r expect mutate s = (s', res)" and "keeps_record am mutate"
    and "\<And>cur. li_state cur \<in> set expect \<Longrightarrow> life (Some cur) (Some (mutate cur))"
  shows "moved am s s'"
  using assms(1,2)
proof (cases rule: transition_cases)
  case (moved cur)
  then show ?thesis using assms(3) [OF moved(3)] by (intro moved_upd [OF moved(4)]) simp
qed (simp add: moved_same)

lemma opt_ok_case: "opt_ok P v \<longleftrightarrow> (case v of None \<Rightarrow> True | Some x \<Rightarrow> P x)"
  by (simp add: opt_ok_def)

lemma ops_moved:
  assumes "clock_ok io"
  shows "moved am s (fst (markEffecting am io r s))"
    and "moved am s (fst (recordChildren am io r cs s))"
    and "moved am s (fst (complete_intent am io r cs s))"
    and "moved am s (fst (fail_intent am io r out s))"
    and "moved am s (fst (reconcile_intent am io r cs s))"
proof -
  note keep = mutate_keeps [OF assms, of am]
  have t: "moved am s (fst (transition am io r expect f s))"
    if "keeps_record am f" "\<And>cur. li_state cur \<in> set expect \<Longrightarrow> life (Some cur) (Some (f cur))" for expect f
    by (rule transition_moved [OF _ that, of io r expect s _ "snd (transition am io r expect f s)"]) simp_all
  show "moved am s (fst (markEffecting am io r s))"
    unfolding markEffecting_def by (rule t [OF keep(1)]) (simp add: life_effect)
  have *: "moved am s s" by (simp add: moved_same)
  show "moved am s (fst (recordChildren am io r cs s))"
    using t [OF keep(2), of cs "[Effecting]"] *
    by (auto simp: recordChildren_def assertChildren_valid life_children split: sum.split)
  show "moved am s (fst (complete_intent am io r cs s))"
    using t [OF keep(3), of cs "[Effecting]" Completed] *
    by (auto simp: complete_intent_def assertChildren_valid life_complete split: sum.split)
  show "moved am s (fst (fail_intent am io r out s))"
    using t [OF keep(5), of out "[Recorded, Effecting]"] *
    by (auto simp: fail_intent_def assertChildren_valid life_fail opt_ok_case split: sum.split)
  show "moved am s (fst (reconcile_intent am io r cs s))"
    using t [OF keep(4), of cs "[Unresolved]"] *
    by (auto simp: reconcile_intent_def assertChildren_valid life_reconcile split: sum.split)
qed

definition digests_ok :: "ambient \<Rightarrow> bool" where
  "digests_ok am \<longleftrightarrow> (\<forall>x. sha256_hex (am_sha256 am x))"

lemma begin_existing_resumed: "begin_existing am input ex \<noteq> Inr (BeginLaunch r False)"
  by (simp add: begin_existing_def)

lemma begin_locked_cases:
  assumes "begin_locked am io uuid input d s = (s', res)" and "map_of (st_managers s) (bi_managerSessionKey input) = Some d"
    and "valid_intent am (fresh_intent am io uuid input)"
  obtains (same) "binding am s' = binding am s" "\<And>r. res \<noteq> Inr (BeginLaunch r False)"
    | (fresh) "dir_file s (bi_managerSessionKey input) (bi_idempotencyKey input) = None"
      "binding am s' = (binding am s)((bi_managerSessionKey input, bi_idempotencyKey input) \<mapsto> fresh_intent am io uuid input)"
proof -
  let ?m = "bi_managerSessionKey input" and ?k = "bi_idempotencyKey input" and ?r = "fresh_intent am io uuid input"
  show thesis
  proof (cases "readIntent am io ?m d ?k = Inr None")
    case True
    obtain s2 w where w: "writeIntent io ?m ?r s = (s2, w)" by fastforce
    have r: "binding am s' = binding am s2" "w \<noteq> Inr () \<Longrightarrow> \<exists>e. res = Inl e"
      using assms(1) True w by (auto simp: begin_locked_def split: sum.splits)
    have "li_managerSessionKey ?r = ?m" "li_idempotencyKey ?r = ?k" by (simp_all add: fresh_intent_def)
    with writeIntent_binding [OF w assms(3) _ assms(2)]
    consider "binding am s2 = binding am s" "w \<noteq> Inr ()" | "binding am s2 = (binding am s)((?m, ?k) \<mapsto> ?r)" by auto
    then show thesis
    proof cases
      case 1
      show thesis by (rule same) (use 1 r in auto)
    next
      case 2
      show thesis by (rule fresh [OF read_binding(2) [OF assms(2) True]]) (simp add: 2 r)
    qed
  next
    case False
    then have "s' = s \<and> (\<forall>r. res \<noteq> Inr (BeginLaunch r False))"
      using assms(1) begin_existing_resumed by (auto simp: begin_locked_def split: sum.splits option.splits)
    then show thesis using same by simp
  qed
qed

lemma begin_cases:
  assumes "begin_intent am tc io uuid input s = (s', res)" and "clock_ok io" and "usable uuid" and "digests_ok am"
  obtains (same) "binding am s' = binding am s" "\<And>r. res \<noteq> Inr (BeginLaunch r False)"
    | (fresh) "dir_file s (bi_managerSessionKey input) (bi_idempotencyKey input) = None"
      "binding am s' = (binding am s)((bi_managerSessionKey input, bi_idempotencyKey input) \<mapsto> fresh_intent am io uuid input)"
proof -
  let ?m = "bi_managerSessionKey input" and ?k = "bi_idempotencyKey input"
  define ok where "ok \<longleftrightarrow> sha256_hex ?m \<and> idempotency_shape ?k \<and> usable (bi_projectRoot input) \<and> tc (bi_task input)"
  obtain s1 q where m: "managerDir io ?m True s = (s1, q)" by fastforce
  with managerDir_binding [of am io ?m True s] have b1: "binding am s1 = binding am s" by simp
  show thesis
  proof (cases "\<exists>d. ok \<and> q = Inr (Some d) \<and> io_lock io ?m")
    case True
    then obtain d where ok: "ok" and q: "q = Inr (Some d)" "io_lock io ?m" by blast
    have run: "begin_locked am io uuid input d s1 = (s', res)"
      using assms(1) ok q m by (simp add: ok_def begin_intent_def assertManagerSessionKey_def assertIdempotencyKey_def)
    have d: "map_of (st_managers s1) ?m = Some d" using managerDir_dir [of io ?m True s s1 d] m q by simp
    have "valid_intent am (fresh_intent am io uuid input)"
      using ok assms(2,3,4)
      by (simp add: ok_def valid_intent_def fresh_intent_def taskDigest_def digests_ok_def clock_ok_def)
    from run d this show thesis
      using same fresh managerDir_files [of io ?m True s ?m ?k] m b1 by (cases rule: begin_locked_cases) simp_all
  next
    case False
    have "(s' = s \<or> s' = s1) \<and> (\<forall>r. res \<noteq> Inr (BeginLaunch r False))"
      using assms(1) False m unfolding ok_def
      by (auto simp: begin_intent_def assertManagerSessionKey_def assertIdempotencyKey_def
          split: sum.splits option.splits if_splits)
    then show thesis using same b1 by auto
  qed
qed

lemma begin_moved:
  assumes "clock_ok io" and "usable uuid" and "digests_ok am"
  shows "moved am s (fst (begin_intent am tc io uuid input s))"
proof -
  obtain s' res where r: "begin_intent am tc io uuid input s = (s', res)" by fastforce
  from r assms have "moved am s s'"
  proof (cases rule: begin_cases)
    case fresh
    show ?thesis
      by (rule moved_upd [OF fresh(2)])
        (simp add: binding_no_file [OF fresh(1)] life_record fresh_record_def fresh_intent_def)
  qed (simp add: moved_same)
  with r show ?thesis by simp
qed

section \<open>The restart sweep\<close>

lemma ends_json_file_name: "ends_json name \<longleftrightarrow> (\<exists>key. name = file_name key)"
proof
  assume "ends_json name"
  then have "name = take (length name - 5) name @ ''.json''"
    by (metis append_take_drop_id ends_json_def)
  then show "\<exists>key. name = file_name key" unfolding file_name_def by blast
qed (auto simp: ends_json_def file_name_def)

lemma take_file_name: "take (length (file_name key) - 5) (file_name key) = key"
  by (simp add: file_name_def)

lemma read_all_sound:
  assumes "map_of (st_managers s) m = Some d"
  shows "read_all am io m d names = Inr rs \<Longrightarrow> r \<in> set rs \<Longrightarrow>
    binding am s (m, li_idempotencyKey r) = Some r \<and> file_name (li_idempotencyKey r) \<in> set names"
proof (induction names arbitrary: rs)
  case (Cons name names)
  show ?case
  proof (cases "ends_json name")
    case True
    then obtain key where n: "name = file_name key" by (auto simp: ends_json_file_name)
    then obtain x rs' where x: "readIntent am io m d key = Inr x" "read_all am io m d names = Inr rs'"
      and rs: "rs = (case x of None \<Rightarrow> rs' | Some y \<Rightarrow> y # rs')"
      using Cons.prems(1) True by (auto simp: bind_result_eq_Inr_conv take_file_name)
    show ?thesis
    proof (cases "r \<in> set rs'")
      case False
      then have "x = Some r" using rs Cons.prems(2) by (cases x) auto
      then have "binding am s (m, key) = Some r" using x(1) read_binding(1) [OF assms] by simp
      then show ?thesis using binding_valid n by auto
    qed (use Cons.IH [OF x(2)] in auto)
  qed (use Cons in auto)
qed simp

lemma read_all_distinct:
  fixes s :: intent_store
  assumes "map_of (st_managers s) m = Some d"
  shows "distinct names \<Longrightarrow> read_all am io m d names = Inr rs \<Longrightarrow> distinct (map li_idempotencyKey rs)"
proof (induction names arbitrary: rs)
  case (Cons name names)
  show ?case
  proof (cases "ends_json name")
    case True
    then obtain key where n: "name = file_name key" by (auto simp: ends_json_file_name)
    then obtain x rs' where x: "readIntent am io m d key = Inr x" "read_all am io m d names = Inr rs'"
      and rs: "rs = (case x of None \<Rightarrow> rs' | Some y \<Rightarrow> y # rs')"
      using Cons.prems(2) True by (auto simp: bind_result_eq_Inr_conv take_file_name)
    have "li_idempotencyKey y = key" if "x = Some y" for y
      using x(1) that read_binding(1) [OF assms] binding_valid by blast
    moreover have "key \<noteq> li_idempotencyKey r" if "r \<in> set rs'" for r
      using read_all_sound [OF assms x(2) that] Cons.prems(1) n by auto
    ultimately show ?thesis using Cons.IH [OF _ x(2)] Cons.prems(1) rs by (cases x) auto
  qed (use Cons in auto)
qed simp

lemma read_all_complete:
  assumes "map_of (st_managers s) m = Some d"
  shows "read_all am io m d names = Inr rs \<Longrightarrow> file_name key \<in> set names \<Longrightarrow> binding am s (m, key) = Some r \<Longrightarrow> r \<in> set rs"
proof (induction names arbitrary: rs)
  case (Cons name names)
  show ?case
  proof (cases "ends_json name")
    case True
    then obtain k where n: "name = file_name k" by (auto simp: ends_json_file_name)
    then obtain x rs' where x: "readIntent am io m d k = Inr x" "read_all am io m d names = Inr rs'"
      and rs: "rs = (case x of None \<Rightarrow> rs' | Some y \<Rightarrow> y # rs')"
      using Cons.prems(1) True by (auto simp: bind_result_eq_Inr_conv take_file_name)
    show ?thesis
    proof (cases "k = key")
      case True
      then have "x = Some r"
        using x(1) Cons.prems(3) read_binding [OF assms, of am io k] binding_no_file by (cases x) fastforce+
      then show ?thesis using rs by simp
    next
      case False
      then show ?thesis using Cons.IH [OF x(2)] Cons.prems n rs by (cases x) auto
    qed
  next
    case False
    then show ?thesis using Cons ends_json_file_name by auto
  qed
qed simp

lemma listDir_facts:
  assumes "map_of (st_managers s) m = Some d" and "listDir am io m d = Inr rs"
  shows "r \<in> set rs \<Longrightarrow> binding am s (m, li_idempotencyKey r) = Some r"
    and "distinct (map li_idempotencyKey rs)"
    and "binding am s (m, key) = Some r \<Longrightarrow> r \<in> set rs"
proof -
  show "r \<in> set rs \<Longrightarrow> binding am s (m, li_idempotencyKey r) = Some r"
    using read_all_sound [OF assms(1) assms(2) [unfolded listDir_def]] by blast
  show "distinct (map li_idempotencyKey rs)"
    by (rule read_all_distinct [OF assms(1) _ assms(2) [unfolded listDir_def]]) simp
  assume b: "binding am s (m, key) = Some r"
  then have "map_of (md_files d) (file_name key) \<noteq> None"
    using assms(1) by (auto simp: binding_def file_binding_def dir_file_def split: option.splits)
  then have "file_name key \<in> set (sort (remdups (map fst (md_files d))))" by (simp add: map_of_eq_None_iff)
  with b assms(2) show "r \<in> set rs" unfolding listDir_def by (intro read_all_complete [OF assms(1)])
qed

text \<open>
  The sweep of one directory rewrites effecting records only, each to its interrupted form; when it
  reports success it has rewritten all of them.
\<close>

lemma recover_dir_effect:
  assumes "recover_dir io m rs done s = (s', res)" and "clock_ok io" and "map_of (st_managers s) m = Some d"
    and "\<And>r. r \<in> set rs \<Longrightarrow> binding am s (m, li_idempotencyKey r) = Some r"
    and "distinct (map li_idempotencyKey rs)"
  shows "(binding am s' mk = binding am s mk \<and>
            (res \<in> range Inr \<longrightarrow> (\<forall>r \<in> set rs. li_state r = Effecting \<longrightarrow> mk \<noteq> (m, li_idempotencyKey r))))
         \<or> (\<exists>r \<in> set rs. \<exists>n. mk = (m, li_idempotencyKey r) \<and> li_state r = Effecting
              \<and> binding am s' mk = Some (interrupted (io_clock io n) r))"
  using assms(1,3,4,5)
proof (induction rs arbitrary: "done" s d)
  case (Cons r rs)
  show ?case
  proof (cases "li_state r = Effecting")
    case False
    then show ?thesis using Cons.IH [of "done" s d] Cons.prems by auto
  next
    case True
    let ?n = "interrupted (io_clock io (length done)) r"
    have b: "binding am s (m, li_idempotencyKey r) = Some r" using Cons.prems(3) by simp
    have keep: "valid_intent am ?n" "li_managerSessionKey ?n = m" "li_idempotencyKey ?n = li_idempotencyKey r"
      using mutate_keeps(6) [OF assms(2)] binding_valid [OF b] unfolding keeps_record_def by auto
    obtain s1 w where w: "writeIntent io m ?n s = (s1, w)" by fastforce
    note wb = writeIntent_binding [OF w keep(1,2) Cons.prems(2), unfolded keep(3)]
    show ?thesis
    proof (cases w)
      case (Inl e)
      then have r: "s' = s1" "res = Inl e" using Cons.prems(1) True w by simp_all
      then show ?thesis using wb True by (cases "mk = (m, li_idempotencyKey r)") auto
    next
      case (Inr u)
      let ?s = "log_line (transitionLine ?n (state_name (li_state r))) s1"
      have up: "binding am ?s = (binding am s)((m, li_idempotencyKey r) \<mapsto> ?n)" using wb Inr by simp
      obtain d' where d': "map_of (st_managers ?s) m = Some d'"
        using writeIntent_dir [OF w Cons.prems(2)] by (auto simp: log_line_def)
      have run: "recover_dir io m rs (done @ [?n]) ?s = (s', res)" using Cons.prems(1) True w Inr by (simp add: Let_def)
      have bs: "binding am ?s (m, li_idempotencyKey q) = Some q" if "q \<in> set rs" for q
      proof -
        have "li_idempotencyKey q \<noteq> li_idempotencyKey r"
          using Cons.prems(4) imageI [OF that, of li_idempotencyKey] by auto
        then show ?thesis using up Cons.prems(3) [of q] that by simp
      qed
      from Cons.IH [OF run d' bs] Cons.prems(4) show ?thesis
        using up True by (cases "mk = (m, li_idempotencyKey r)") auto
    qed
  qed
qed simp

lemma recover_dir_dir:
  "recover_dir io m rs done s = (s', res) \<Longrightarrow> map_of (st_managers s) q = Some d \<Longrightarrow> \<exists>d'. map_of (st_managers s') q = Some d'"
proof (induction rs arbitrary: "done" s d)
  case (Cons r rs)
  show ?case
  proof (cases "li_state r = Effecting")
    case True
    let ?n = "interrupted (io_clock io (length done)) r"
    obtain s1 w where w: "writeIntent io m ?n s = (s1, w)" by fastforce
    obtain d1 where "map_of (st_managers s1) q = Some d1" using writeIntent_dir [OF w Cons.prems(2)] by blast
    then show ?thesis using Cons.IH Cons.prems(1) True w by (cases w) (auto simp: log_line_def Let_def)
  qed (use Cons in auto)
qed auto

definition swept :: "ambient \<Rightarrow> intent_store \<Rightarrow> intent_store \<Rightarrow> bool" where
  "swept am s s' \<longleftrightarrow> (\<forall>mk. binding am s' mk = binding am s mk
     \<or> (\<exists>r t. binding am s mk = Some r \<and> li_state r = Effecting \<and> binding am s' mk = Some (interrupted t r)))"

lemma swept_same: "binding am s' = binding am s \<Longrightarrow> swept am s s'"
  by (simp add: swept_def)

lemma interrupted_state [simp]: "li_state (interrupted t r) = Unresolved"
  by (simp add: interrupted_def)

lemma swept_trans: "swept am s s1 \<Longrightarrow> swept am s1 s2 \<Longrightarrow> swept am s s2"
  unfolding swept_def by (metis (no_types) interrupted_state intent_state.distinct(14) option.inject)

lemma swept_keeps_settled:
  "swept am s s' \<Longrightarrow> (\<And>r. binding am s mk = Some r \<Longrightarrow> li_state r \<noteq> Effecting) \<Longrightarrow> binding am s' mk = binding am s mk"
  unfolding swept_def by blast

lemma recover_dir_swept:
  assumes "recover_dir io m rs done s = (s', res)" and "clock_ok io" and "map_of (st_managers s) m = Some d"
    and "listDir am io m d = Inr rs"
  shows "swept am s s'"
    and "res = Inr x \<Longrightarrow> binding am s' (m, k) = Some r \<Longrightarrow> li_state r \<noteq> Effecting"
proof -
  note l = listDir_facts [OF assms(3,4)]
  have e: "(binding am s' mk = binding am s mk \<and>
            (res \<in> range Inr \<longrightarrow> (\<forall>r \<in> set rs. li_state r = Effecting \<longrightarrow> mk \<noteq> (m, li_idempotencyKey r))))
         \<or> (\<exists>r \<in> set rs. \<exists>n. mk = (m, li_idempotencyKey r) \<and> li_state r = Effecting
              \<and> binding am s' mk = Some (interrupted (io_clock io n) r))" for mk
    by (rule recover_dir_effect [OF assms(1-3) l(1,2)])
  show "swept am s s'"
    unfolding swept_def
  proof
    fix mk
    from e [of mk] show "binding am s' mk = binding am s mk
     \<or> (\<exists>r t. binding am s mk = Some r \<and> li_state r = Effecting \<and> binding am s' mk = Some (interrupted t r))"
      using l(1) by blast
  qed
  assume "res = Inr x" and b: "binding am s' (m, k) = Some r"
  with e [of "(m, k)"] show "li_state r \<noteq> Effecting"
  proof (elim disjE conjE bexE exE)
    assume same: "binding am s' (m, k) = binding am s (m, k)"
      and no: "res \<in> range Inr \<longrightarrow> (\<forall>r \<in> set rs. li_state r = Effecting \<longrightarrow> (m, k) \<noteq> (m, li_idempotencyKey r))"
    have "r \<in> set rs" and "li_idempotencyKey r = k"
      using l(3) [of k r] b same binding_valid [of am s m k r] by simp_all
    then show ?thesis using no \<open>res = Inr x\<close> by auto
  qed auto
qed

lemma managerDir_None: "managerDir io m False s = (s1, Inr None) \<Longrightarrow> binding am s (m, k) = None"
  using managerDir_files [of io m False s m k]
  by (auto simp: managerDir_def Let_def binding_def file_binding_def dir_file_def
      split: sum.splits prod.splits option.splits if_splits)

lemma recover_managers_swept:
  assumes "clock_ok io"
  shows "recover_managers am io ms done s = (s', res) \<Longrightarrow> swept am s s'
    \<and> (res \<in> range Inr \<longrightarrow> (\<forall>m \<in> set ms. \<forall>k r. binding am s' (m, k) = Some r \<longrightarrow> li_state r \<noteq> Effecting))"
proof (induction ms arbitrary: "done" s)
  case (Cons m ms)
  obtain s1 q where q: "managerDir io m False s = (s1, q)" by fastforce
  with managerDir_binding [of am io m False s] have b1: "binding am s1 = binding am s" by simp
  note s1 = swept_same [OF b1]
  consider (err) e where "s' = s1" "res = Inl e"
    | (none) "q = Inr None" "recover_managers am io ms done s1 = (s', res)"
    | (dir) d rs s2 w where "q = Inr (Some d)" "listDir am io m d = Inr rs" "recover_dir io m rs done s1 = (s2, w)"
        "(\<exists>e. w = Inl e \<and> res = Inl e \<and> s' = s2) \<or> (\<exists>x. w = Inr x \<and> recover_managers am io ms x s2 = (s', res))"
  proof (cases "\<exists>d rs. q = Inr (Some d) \<and> io_lock io m \<and> listDir am io m d = Inr rs")
    case True
    then obtain d rs where d: "q = Inr (Some d)" "io_lock io m" "listDir am io m d = Inr rs" by blast
    obtain s2 w where w: "recover_dir io m rs done s1 = (s2, w)" by fastforce
    show ?thesis by (rule dir [OF d(1,3) w]) (use Cons.prems q d w in \<open>cases w; fastforce\<close>)
  next
    case False
    then show ?thesis
      using Cons.prems q err none by (cases q) (auto split: option.splits if_splits sum.splits dest!: sym [of "Inl x" for x])
  qed
  then show ?case
  proof cases
    case none
    note IH = Cons.IH [OF none(2)]
    have "binding am s1 (m, k) = None" for k using managerDir_None q none(1) b1 by metis
    then have "binding am s' (m, k) = None" for k using swept_keeps_settled [of am s1 s' "(m, k)"] IH by simp
    then show ?thesis using IH swept_trans [OF s1] by auto
  next
    case dir
    have d: "map_of (st_managers s1) m = Some d" using managerDir_dir [of io m False s s1 d] q dir by simp
    note sw = recover_dir_swept [OF dir(3) assms d dir(2)]
    from dir(4) show ?thesis
    proof (elim disjE exE conjE)
      fix x assume w: "w = Inr x" and run: "recover_managers am io ms x s2 = (s', res)"
      note IH = Cons.IH [OF run]
      have "binding am s' (m, k) = binding am s2 (m, k)" for k
        using IH sw(2) [OF w] by (intro swept_keeps_settled [of am s2]) auto
      then show ?thesis using IH sw(2) [OF w] swept_trans [OF s1 swept_trans [OF sw(1)]] by auto
    qed (use swept_trans [OF s1 sw(1)] in auto)
  qed (use s1 in auto)
qed (simp add: swept_same)

section \<open>Histories of the store\<close>

datatype intent_op =
    OpBegin string begin_input
  | OpMark launch_intent
  | OpChildren launch_intent "intent_child list"
  | OpComplete launch_intent "intent_child list"
  | OpFail launch_intent fail_input
  | OpReconcile launch_intent "intent_child list"
  | OpGet string string
  | OpList string
  | OpListManagers
  | OpRecover "string option"

fun exec :: "ambient \<Rightarrow> (launch_task \<Rightarrow> bool) \<Rightarrow> intent_io \<Rightarrow> intent_op \<Rightarrow> intent_store \<Rightarrow> intent_store" where
  "exec am tc io (OpBegin uuid input) s = fst (begin_intent am tc io uuid input s)"
| "exec am tc io (OpMark r) s = fst (markEffecting am io r s)"
| "exec am tc io (OpChildren r cs) s = fst (recordChildren am io r cs s)"
| "exec am tc io (OpComplete r cs) s = fst (complete_intent am io r cs s)"
| "exec am tc io (OpFail r out) s = fst (fail_intent am io r out s)"
| "exec am tc io (OpReconcile r cs) s = fst (reconcile_intent am io r cs s)"
| "exec am tc io (OpGet m k) s = fst (get_intent am io m k s)"
| "exec am tc io (OpList m) s = fst (list_intents am io m s)"
| "exec am tc io OpListManagers s = fst (listManagerKeys io s)"
| "exec am tc io (OpRecover key) s = fst (recoverInterrupted am io key s)"

text \<open>
  The runtime gives usable timestamps and identifiers and 64-digit hashes; the rest of \<open>io\<close>, faults
  included, is arbitrary.
\<close>

fun op_ok :: "intent_io \<Rightarrow> intent_op \<Rightarrow> bool" where
  "op_ok io (OpBegin uuid input) = (clock_ok io \<and> usable uuid)"
| "op_ok io op = clock_ok io"

definition intent_step :: "ambient \<Rightarrow> (launch_task \<Rightarrow> bool) \<Rightarrow> intent_store \<Rightarrow> intent_store \<Rightarrow> bool" where
  "intent_step am tc s s' \<longleftrightarrow> digests_ok am \<and> (\<exists>io op. op_ok io op \<and> s' = exec am tc io op s)"

lemma binding_managers: "st_managers s = st_managers t \<Longrightarrow> binding am s = binding am t"
  by (simp add: fun_eq_iff binding_def dir_file_def)

lemma reads_binding:
  "binding am (fst (get_intent am io m k s)) = binding am s"
  "binding am (fst (list_intents am io m s)) = binding am s"
  "binding am (fst (listManagerKeys io s)) = binding am s"
proof -
  show "binding am (fst (get_intent am io m k s)) = binding am s"
    using managerDir_binding [of am io m False s]
    by (auto simp: get_intent_def split: sum.split prod.split option.split)
  show "binding am (fst (list_intents am io m s)) = binding am s"
    using managerDir_binding [of am io m False s]
    by (auto simp: list_intents_def split: sum.split prod.split option.split)
  show "binding am (fst (listManagerKeys io s)) = binding am s"
    using binding_managers [OF intentsRoot_managers [of io s], of am]
    by (auto simp: listManagerKeys_def Let_def split: sum.split prod.split)
qed

lemma recoverInterrupted_swept:
  assumes "clock_ok io" and "recoverInterrupted am io key s = (s', res)"
  shows "swept am s s'"
proof (cases key)
  case None
  obtain s1 q where q: "listManagerKeys io s = (s1, q)" by fastforce
  then have "swept am s s1" using reads_binding(3) [of am io s] by (simp add: swept_same)
  then show ?thesis
    using assms(2) None q recover_managers_swept [OF assms(1), of am _ "[]" s1 s' res] swept_trans
    by (cases q) (auto simp: recoverInterrupted_def)
next
  case (Some k)
  then show ?thesis
    using assms(2) recover_managers_swept [OF assms(1), of am "[k]" "[]" s s' res]
    by (simp add: recoverInterrupted_def del: recover_managers.simps)
qed

lemma swept_moved: "swept am s s' \<Longrightarrow> moved am s s'"
  unfolding swept_def moved_def by (metis life_interrupt sup2CI)

lemma exec_moved: "digests_ok am \<Longrightarrow> op_ok io op \<Longrightarrow> moved am s (exec am tc io op s)"
proof (induction am tc io op s rule: exec.induct)
  case (10 am tc io key s)
  then show ?case using recoverInterrupted_swept [of io am key s] by (cases "recoverInterrupted am io key s") (simp add: swept_moved)
qed (simp_all add: begin_moved ops_moved moved_same reads_binding)

lemma life_reflclp_rtrancl: "life\<^sup>=\<^sup>= x y \<Longrightarrow> life\<^sup>*\<^sup>* x y"
  by auto

interpretation intents: keyed_history "intent_step am tc" "binding am" life for am tc
proof
  fix s s' k assume "intent_step am tc s s'"
  then show "life\<^sup>*\<^sup>* (binding am s k) (binding am s' k)"
    using exec_moved unfolding intent_step_def moved_def by (metis life_reflclp_rtrancl)
qed

section \<open>Invariants of a record\<close>

definition child_names :: "launch_intent \<Rightarrow> string set" where
  "child_names r = ic_name ` set (li_children r)"

definition intent_evidence :: "launch_intent \<Rightarrow> bool" where
  "intent_evidence r \<longleftrightarrow>
     (li_state r = Recorded \<longrightarrow> fresh_record r)
   \<and> (li_state r = Failed \<longrightarrow> li_effectCertainty r = Some Absent \<and> li_children r = [])
   \<and> (li_state r = Unresolved \<longrightarrow> li_resolution r \<noteq> None \<and> li_effectCertainty r \<noteq> None)
   \<and> (li_reconciled r \<longrightarrow> li_state r = Completed \<and> li_children r \<noteq> [] \<and> list_all settled_child (li_children r))
   \<and> distinct (map ic_name (li_children r))"

lemma merge_child_names: "map ic_name (merge_child cs c) =
    map ic_name cs @ (if ic_name c \<in> ic_name ` set cs then [] else [ic_name c])"
  by (induction cs) (auto simp: fill_child_def)

lemma mergeChildren_distinct:
  "distinct (map ic_name cs) \<Longrightarrow> distinct (map ic_name (mergeChildren cs added))"
  unfolding mergeChildren_def by (induction added arbitrary: cs) (auto simp: merge_child_names)

lemma mergeChildren_names: "ic_name ` set cs \<subseteq> ic_name ` set (mergeChildren cs added)"
proof -
  have "set (map ic_name cs) \<subseteq> set (map ic_name (foldl merge_child cs added))"
  proof (induction added arbitrary: cs)
    case (Cons c added)
    have "set (map ic_name cs) \<subseteq> set (map ic_name (merge_child cs c))" by (simp only: merge_child_names) auto
    with Cons show ?case by fastforce
  qed simp
  then show ?thesis by (simp add: mergeChildren_def)
qed

lemma mergeChildren_Nil: "mergeChildren cs added = [] \<Longrightarrow> cs = []"
  using mergeChildren_names [of cs added] by simp

lemma evidence_fail:
  "intent_evidence r \<Longrightarrow> li_state r = Recorded \<or> li_state r = Effecting \<Longrightarrow> intent_evidence (fail_mutate io out r)"
  unfolding intent_evidence_def fail_mutate_def by (auto simp: Let_def mergeChildren_distinct fresh_record_def)

lemma evidence_reconcile:
  "intent_evidence r \<Longrightarrow> li_state r = Unresolved \<Longrightarrow> intent_evidence (reconcile_mutate io cs r)"
  unfolding intent_evidence_def reconcile_mutate_def by (auto simp: Let_def mergeChildren_distinct)

lemma evidence_interrupt: "intent_evidence r \<Longrightarrow> li_state r = Effecting \<Longrightarrow> intent_evidence (interrupted t r)"
  by (simp add: intent_evidence_def interrupted_def)

lemma evidence_effecting:
  "intent_evidence r \<Longrightarrow> li_state r = Recorded \<Longrightarrow> intent_evidence (r\<lparr>li_state := Effecting, li_updatedAt := t\<rparr>)"
  "intent_evidence r \<Longrightarrow> li_state r = Effecting \<Longrightarrow>
     intent_evidence (r\<lparr>li_children := mergeChildren (li_children r) cs, li_updatedAt := t\<rparr>)"
  "intent_evidence r \<Longrightarrow> li_state r = Effecting \<Longrightarrow>
     intent_evidence (r\<lparr>li_state := Completed, li_children := mergeChildren (li_children r) cs, li_updatedAt := t\<rparr>)"
  "fresh_record r \<Longrightarrow> intent_evidence r"
  by (simp_all add: intent_evidence_def fresh_record_def mergeChildren_distinct)

lemma life_evidence:
  assumes "life x y" and "\<And>r. x = Some r \<Longrightarrow> intent_evidence r" and "y = Some q"
  shows "intent_evidence q"
  using assms
proof (cases rule: life.cases)
  case (life_fail r io out)
  then show ?thesis using assms evidence_fail by simp
next
  case (life_reconcile r io cs)
  then show ?thesis using assms evidence_reconcile by simp
next
  case (life_interrupt r t)
  then show ?thesis using assms evidence_interrupt by simp
next
  case (life_effect r t)
  then show ?thesis using assms evidence_effecting by simp
next
  case (life_children r cs t)
  then show ?thesis using assms evidence_effecting by simp
next
  case (life_complete r cs t)
  then show ?thesis using assms evidence_effecting by simp
next
  case (life_record r)
  then show ?thesis using assms evidence_effecting by simp
qed

fun state_rank :: "intent_state \<Rightarrow> nat" where
  "state_rank Recorded = 0"
| "state_rank Effecting = 1"
| "state_rank Unresolved = 2"
| "state_rank Failed = 3"
| "state_rank Completed = 3"

text \<open>What never changes in a binding once it is recorded, and how its state may move.\<close>

definition continues :: "launch_intent \<Rightarrow> launch_intent \<Rightarrow> bool" where
  "continues r r' \<longleftrightarrow> li_managerSessionKey r' = li_managerSessionKey r \<and> li_idempotencyKey r' = li_idempotencyKey r
     \<and> li_taskDigest r' = li_taskDigest r \<and> li_launchId r' = li_launchId r \<and> li_projectRoot r' = li_projectRoot r
     \<and> li_recordedAt r' = li_recordedAt r \<and> child_names r \<subseteq> child_names r'
     \<and> state_rank (li_state r) \<le> state_rank (li_state r')
     \<and> (li_state r \<in> {Completed, Failed} \<longrightarrow> r' = r)"

lemma continues_refl: "continues r r"
  by (simp add: continues_def)

lemma continues_trans: "continues a b \<Longrightarrow> continues b c \<Longrightarrow> continues a c"
  by (auto simp: continues_def)

lemma life_continues: "life (Some r) y \<Longrightarrow> \<exists>q. y = Some q \<and> continues r q"
  by (erule life_SomeE)
    (use mergeChildren_names in \<open>auto simp: continues_def child_names_def fail_mutate_def reconcile_mutate_def
      interrupted_def Let_def dest: mergeChildren_Nil\<close>)

section \<open>Granted effects\<close>

text \<open>The bindings whose effect an operation grants: a \<open>markEffecting\<close> that returned to its caller.\<close>

fun granted :: "ambient \<Rightarrow> intent_io \<Rightarrow> intent_op \<Rightarrow> intent_store \<Rightarrow> (string \<times> string) list" where
  "granted am io (OpMark r) s =
     (case snd (markEffecting am io r s) of
        Inr r' \<Rightarrow> [(li_managerSessionKey r', li_idempotencyKey r')] | Inl e \<Rightarrow> [])"
| "granted am io op s = []"

fun grants ::
  "ambient \<Rightarrow> (launch_task \<Rightarrow> bool) \<Rightarrow> (intent_io \<times> intent_op) list \<Rightarrow> intent_store \<Rightarrow> (string \<times> string) list" where
  "grants am tc [] s = []"
| "grants am tc ((io, op) # h) s = granted am io op s @ grants am tc h (exec am tc io op s)"

definition started :: "ambient \<Rightarrow> intent_store \<Rightarrow> string \<times> string \<Rightarrow> bool" where
  "started am s mk \<longleftrightarrow> (\<exists>r. binding am s mk = Some r \<and> li_state r \<noteq> Recorded)"

lemma mark_cases:
  assumes "markEffecting am io r s = (s', Inr r')" and "clock_ok io"
  obtains cur where "binding am s (li_managerSessionKey r, li_idempotencyKey r) = Some cur" "li_state cur = Recorded"
    "li_launchId cur = li_launchId r"
    "r' = cur\<lparr>li_state := Effecting, li_updatedAt := io_clock io 0\<rparr>"
    "binding am s' = (binding am s)((li_managerSessionKey r, li_idempotencyKey r) \<mapsto> r')"
  using assms(1) mutate_keeps(1) [OF assms(2), of am Effecting] unfolding markEffecting_def
  by (cases rule: transition_cases) (auto intro: that)

lemma granted_once:
  assumes "clock_ok io" and "mk \<in> set (granted am io op s)"
  shows "\<not> started am s mk \<and> started am (exec am tc io op s) mk \<and> granted am io op s = [mk]"
proof -
  from assms(2) obtain r where op: "op = OpMark r" by (cases op) auto
  with assms(2) obtain s' r' where m: "markEffecting am io r s = (s', Inr r')"
      and mk: "mk = (li_managerSessionKey r', li_idempotencyKey r')"
    by (cases "markEffecting am io r s") (auto split: sum.splits)
  from m assms(1) obtain cur where
    cur: "binding am s (li_managerSessionKey r, li_idempotencyKey r) = Some cur" "li_state cur = Recorded"
      "r' = cur\<lparr>li_state := Effecting, li_updatedAt := io_clock io 0\<rparr>"
      "binding am s' = (binding am s)((li_managerSessionKey r, li_idempotencyKey r) \<mapsto> r')"
    by (rule mark_cases)
  have "mk = (li_managerSessionKey r, li_idempotencyKey r)" using binding_valid [OF cur(1)] cur(3) mk by simp
  then show ?thesis using cur m mk op by (simp add: started_def)
qed

lemma started_exec:
  assumes "digests_ok am" and "op_ok io op" and "started am s mk"
  shows "started am (exec am tc io op s) mk"
proof -
  from assms(3) obtain r where r: "binding am s mk = Some r" "li_state r \<noteq> Recorded" by (auto simp: started_def)
  have "life\<^sup>=\<^sup>= (Some r) (binding am (exec am tc io op s) mk)"
    using exec_moved [OF assms(1,2), of s tc] r by (metis moved_def)
  then obtain q where "binding am (exec am tc io op s) mk = Some q" "continues r q"
    by (metis sup2E life_continues continues_refl)
  then show ?thesis using r by (cases "li_state r"; cases "li_state q") (auto simp: started_def continues_def)
qed

lemma grants_fresh:
  assumes "digests_ok am"
  shows "list_all (\<lambda>x. op_ok (fst x) (snd x)) h \<Longrightarrow> started am s mk \<Longrightarrow> mk \<notin> set (grants am tc h s)"
proof (induction h arbitrary: s)
  case (Cons x h)
  obtain io op where x: "x = (io, op)" by fastforce
  have "clock_ok io" using Cons.prems(1) x by (cases op) auto
  then show ?case
    using Cons x granted_once [of io mk am op s tc] started_exec [OF assms, of io op s mk tc] by auto
qed simp

section \<open>A concrete store\<close>

definition zeros :: string where
  "zeros = replicate 64 (CHR ''0'')"

definition hex_ambient :: ambient where
  "hex_ambient = \<lparr>am_sha256 = (\<lambda>_. zeros), am_dateParse = (\<lambda>_. Some 0), am_iso = (\<lambda>_. ''t''), am_numStr = (\<lambda>_. ''0'')\<rparr>"

definition calm_io :: intent_io where
  "calm_io = \<lparr>io_dirs = True, io_lock = (\<lambda>_. True), io_read = (\<lambda>_ _. True), io_write = (\<lambda>_ _. WriteCommitted),
     io_clock = (\<lambda>_. ''t'')\<rparr>"

definition empty_store :: intent_store where
  "empty_store = \<lparr>st_namespace = True, st_root = None, st_managers = [], st_log = []\<rparr>"

definition example_input :: begin_input where
  "example_input = \<lparr>bi_managerSessionKey = zeros, bi_idempotencyKey = ''k'', bi_task = example_task, bi_projectRoot = ''/r''\<rparr>"

abbreviation example_intent :: launch_intent where
  "example_intent \<equiv> fresh_intent hex_ambient calm_io ''u'' example_input"

definition example_store :: intent_store where
  "example_store = exec hex_ambient (\<lambda>_. True) calm_io (OpBegin ''u'' example_input) empty_store"

lemma example_ok:
  "digests_ok hex_ambient" "clock_ok calm_io" "op_ok calm_io (OpBegin ''u'' example_input)"
  by (simp_all add: digests_ok_def hex_ambient_def clock_ok_def calm_io_def zeros_def sha256_hex_def usable_def has_ctl_def
      ctl_chars_def is_hex_def is_digit_def char_in_def less_eq_char_def list_all_iff)

lemma empty_binding: "binding am empty_store mk = None"
  by (simp add: binding_def file_binding_def dir_file_def empty_store_def)

lemma example_binding: "binding hex_ambient example_store (zeros, ''k'') = Some example_intent"
  by code_simp

lemma example_grants:
  "grants hex_ambient (\<lambda>_. True) [(calm_io, OpBegin ''u'' example_input), (calm_io, OpMark example_intent),
     (calm_io, OpMark example_intent)] empty_store = [(zeros, ''k'')]"
  by code_simp

lemma exec_step: "digests_ok am \<Longrightarrow> op_ok io op \<Longrightarrow> (intent_step am tc)\<^sup>*\<^sup>* s (exec am tc io op s)"
  by (rule r_into_rtranclp) (auto simp: intent_step_def)

lemma example_reached: "(intent_step hex_ambient (\<lambda>_. True))\<^sup>*\<^sup>* empty_store example_store"
  unfolding example_store_def by (rule exec_step [OF example_ok(1,3)])

section \<open>Every file is a record\<close>

text \<open>A file of the record \<open>key\<close> of manager \<open>m\<close>, on the value it holds.\<close>

definition record_file :: "ambient \<Rightarrow> string \<Rightarrow> string \<Rightarrow> intent_file \<Rightarrow> bool" where
  "record_file am m n f \<longleftrightarrow> (\<exists>k v. n = file_name k \<and> f = JsonFile v \<and> isIntentRecord am v
     \<and> jget ''managerSessionKey'' v = JStr m \<and> jget ''idempotencyKey'' v = JStr k)"

definition record_files :: "ambient \<Rightarrow> intent_store \<Rightarrow> bool" where
  "record_files am s \<longleftrightarrow> (\<forall>m d n f. map_of (st_managers s) m = Some d \<longrightarrow> map_of (md_files d) n = Some f \<longrightarrow> record_file am m n f)"

lemma record_files_managers: "st_managers s' = st_managers s \<Longrightarrow> record_files am s' = record_files am s"
  by (simp add: record_files_def)

lemma record_files_log [simp]: "record_files am (log_line l s) = record_files am s"
  by (rule record_files_managers) (simp add: log_line_def)

lemma record_files_root: "record_files am s \<Longrightarrow> record_files am (fst (intentsRoot io s))"
  using record_files_managers [OF intentsRoot_managers] by blast

lemma record_files_dir:
  assumes "record_files am s"
  shows "record_files am (fst (managerDir io m create s))"
proof -
  obtain s1 r where r: "intentsRoot io s = (s1, r)" by fastforce
  then have "st_managers s1 = st_managers s" using intentsRoot_managers [of io s] by simp
  then show ?thesis using assms
    by (auto simp: managerDir_def r record_files_def Let_def split: sum.splits option.splits)
qed

lemma record_files_write:
  assumes "record_files am s" and "valid_intent am r" and "li_managerSessionKey r = m"
  shows "record_files am (fst (writeIntent io m r s))"
proof -
  have "record_file am m (file_name (li_idempotencyKey r)) (JsonFile (intent_json r))"
    using assms(2,3) by (auto simp: record_file_def isIntentRecord_json)
  then have "record_files am (put_file m (file_name (li_idempotencyKey r)) (JsonFile (intent_json r)) s)"
    using assms(1) by (auto simp: record_files_def put_file_def split: option.splits if_splits)
  then show ?thesis using assms(1) by (simp add: writeIntent_def Let_def split: write_outcome.split)
qed

lemma record_files_transition:
  assumes "record_files am s" and "keeps_record am f"
  shows "record_files am (fst (transition am io r expect f s))"
proof -
  let ?m = "li_managerSessionKey r" and ?k = "li_idempotencyKey r"
  obtain s1 q where m: "managerDir io ?m False s = (s1, q)" by fastforce
  have s1: "record_files am s1" using record_files_dir [OF assms(1), of io ?m False] m by simp
  have written: "record_files am (fst (writeIntent io ?m (f cur) s1))"
    if "q = Inr (Some d)" "readIntent am io ?m d ?k = Inr (Some cur)" for d cur
  proof -
    have "map_of (st_managers s1) ?m = Some d" using managerDir_dir [of io ?m False s s1 d] m that by simp
    from binding_valid [OF read_binding(1) [OF this that(2)]] assms(2) show ?thesis
      unfolding keeps_record_def by (intro record_files_write [OF s1]) auto
  qed
  show ?thesis
  proof (cases "\<exists>d cur. q = Inr (Some d) \<and> readIntent am io ?m d ?k = Inr (Some cur)")
    case True
    then obtain d cur where q: "q = Inr (Some d)" "readIntent am io ?m d ?k = Inr (Some cur)" by blast
    obtain s2 w where w: "writeIntent io ?m (f cur) s1 = (s2, w)" by fastforce
    have "record_files am s2" using written [OF q] w by simp
    then show ?thesis using s1 by (cases w) (simp_all add: transition_def m q w)
  next
    case False
    then show ?thesis using s1 by (auto simp: transition_def m split: sum.split option.split)
  qed
qed

lemma record_files_ops:
  assumes "clock_ok io" and "record_files am s"
  shows "record_files am (fst (markEffecting am io r s))"
    and "record_files am (fst (recordChildren am io r cs s))"
    and "record_files am (fst (complete_intent am io r cs s))"
    and "record_files am (fst (fail_intent am io r out s))"
    and "record_files am (fst (reconcile_intent am io r cs s))"
proof -
  note keep = mutate_keeps [OF assms(1), of am]
  note t = record_files_transition [OF assms(2)]
  show "record_files am (fst (markEffecting am io r s))"
    unfolding markEffecting_def by (rule t [OF keep(1)])
  show "record_files am (fst (recordChildren am io r cs s))"
    using t [OF keep(2)] assms(2) by (auto simp: recordChildren_def assertChildren_valid split: sum.split)
  show "record_files am (fst (complete_intent am io r cs s))"
    using t [OF keep(3)] assms(2) by (auto simp: complete_intent_def assertChildren_valid split: sum.split)
  show "record_files am (fst (fail_intent am io r out s))"
    using t [OF keep(5)] assms(2) by (auto simp: fail_intent_def assertChildren_valid opt_ok_case split: sum.split)
  show "record_files am (fst (reconcile_intent am io r cs s))"
    using t [OF keep(4)] assms(2) by (auto simp: reconcile_intent_def assertChildren_valid split: sum.split)
qed

lemma record_files_begin:
  assumes "clock_ok io" and "usable uuid" and "digests_ok am" and "record_files am s"
  shows "record_files am (fst (begin_intent am tc io uuid input s))"
proof -
  let ?m = "bi_managerSessionKey input" and ?r = "fresh_intent am io uuid input"
  obtain s1 q where m: "managerDir io ?m True s = (s1, q)" by fastforce
  have s1: "record_files am s1" using record_files_dir [OF assms(4), of io ?m True] m by simp
  have locked: "record_files am (fst (begin_locked am io uuid input d s1))"
    if "sha256_hex ?m" "idempotency_shape (bi_idempotencyKey input)" "usable (bi_projectRoot input)" for d
  proof -
    have "valid_intent am ?r" "li_managerSessionKey ?r = ?m"
      using that assms(1-3) by (simp_all add: valid_intent_def fresh_intent_def taskDigest_def digests_ok_def clock_ok_def)
    from record_files_write [OF s1 this, of io] s1 show ?thesis
      by (auto simp: begin_locked_def split: sum.split option.split prod.split)
  qed
  show ?thesis using assms(4) s1 locked
    by (auto simp: begin_intent_def assertManagerSessionKey_def assertIdempotencyKey_def m split: sum.split option.split)
qed

lemma record_files_recover_dir:
  assumes "clock_ok io" and "record_files am s" and "\<And>r. r \<in> set rs \<Longrightarrow> valid_intent am r \<and> li_managerSessionKey r = m"
  shows "record_files am (fst (recover_dir io m rs done s))"
  using assms(2,3)
proof (induction rs arbitrary: "done" s)
  case (Cons r rs)
  show ?case
  proof (cases "li_state r = Effecting")
    case True
    let ?n = "interrupted (io_clock io (length done)) r"
    have "valid_intent am ?n" "li_managerSessionKey ?n = m"
      using mutate_keeps(6) [OF assms(1)] Cons.prems(2) [of r] unfolding keeps_record_def by auto
    note w = record_files_write [OF Cons.prems(1) this, of io]
    obtain s1 x where x: "writeIntent io m ?n s = (s1, x)" by fastforce
    then show ?thesis using w Cons.IH [of "log_line l s1" for l] Cons.prems(2) True by (cases x) (simp_all add: Let_def)
  qed (use Cons in auto)
qed simp

lemma record_files_recover_managers:
  assumes "clock_ok io"
  shows "record_files am s \<Longrightarrow> record_files am (fst (recover_managers am io ms done s))"
proof (induction ms arbitrary: "done" s)
  case (Cons m ms)
  obtain s1 q where q: "managerDir io m False s = (s1, q)" by fastforce
  have s1: "record_files am s1" using record_files_dir [OF Cons.prems, of io m False] q by simp
  have sweep: "record_files am (fst (recover_dir io m rs done s1))" if "q = Inr (Some d)" "listDir am io m d = Inr rs" for d rs
  proof (rule record_files_recover_dir [OF assms s1])
    fix r assume r: "r \<in> set rs"
    have "map_of (st_managers s1) m = Some d" using managerDir_dir [of io m False s s1 d] q that by simp
    from binding_valid [OF listDir_facts(1) [OF this that(2) r]] show "valid_intent am r \<and> li_managerSessionKey r = m" by simp
  qed
  show ?case
  proof (cases "\<exists>d rs. q = Inr (Some d) \<and> io_lock io m \<and> listDir am io m d = Inr rs")
    case True
    then obtain d rs where d: "q = Inr (Some d)" "io_lock io m" "listDir am io m d = Inr rs" by blast
    obtain s2 w where w: "recover_dir io m rs done s1 = (s2, w)" by fastforce
    then show ?thesis using sweep [OF d(1,3)] Cons.IH d q by (cases w) simp_all
  next
    case False
    then show ?thesis using s1 Cons.IH q by (auto split: sum.split option.split)
  qed
qed simp

lemma record_files_reads:
  assumes "record_files am s"
  shows "record_files am (fst (get_intent am io m k s))" "record_files am (fst (list_intents am io m s))"
    "record_files am (fst (listManagerKeys io s))"
  using record_files_dir [OF assms, of io m False] record_files_root [OF assms, of io] assms
  by (auto simp: get_intent_def list_intents_def listManagerKeys_def Let_def split: sum.split prod.split option.split)

lemma record_files_recover:
  assumes "clock_ok io" and "record_files am s"
  shows "record_files am (fst (recoverInterrupted am io key s))"
proof (cases key)
  case None
  obtain s1 q where q: "listManagerKeys io s = (s1, q)" by fastforce
  then have "record_files am s1" using record_files_reads(3) [OF assms(2), of io] by simp
  then show ?thesis
    using record_files_recover_managers [OF assms(1)] None q by (cases q) (simp_all add: recoverInterrupted_def)
qed (use record_files_recover_managers [OF assms] in \<open>simp add: recoverInterrupted_def del: recover_managers.simps\<close>)

lemma exec_record_files: "digests_ok am \<Longrightarrow> op_ok io op \<Longrightarrow> record_files am s \<Longrightarrow> record_files am (exec am tc io op s)"
  by (cases op) (simp_all add: record_files_begin record_files_ops record_files_reads record_files_recover)

lemma reached_record_files: "(intent_step am tc)\<^sup>*\<^sup>* s s' \<Longrightarrow> record_files am s \<Longrightarrow> record_files am s'"
  by (induction rule: rtranclp_induct) (auto simp: intent_step_def exec_record_files)

lemma record_file_binding:
  assumes "map_of (st_managers s) m = Some d" and "map_of (md_files d) (file_name k) = Some (JsonFile v)"
    and "isIntentRecord am v" "jget ''managerSessionKey'' v = JStr m" "jget ''idempotencyKey'' v = JStr k"
  shows "binding am s (m, k) = Some (intent_of v)"
  using assms by (simp add: binding_def dir_file_def file_binding_def)

lemma no_files_no_bindings:
  assumes "\<And>m d. map_of (st_managers s) m = Some d \<Longrightarrow> md_files d = []"
  shows "binding am s mk = None" and "record_files am s"
  using assms by (auto simp: binding_def file_binding_def dir_file_def record_files_def split: option.splits)

section \<open>Properties\<close>

text \<open>
  C4. No operation ever writes a bad record. In every store reached from one without files, by any sequence of
  operations, faults and restarts, every file in every manager's directory is the file of one of its
  keys and holds a value the validator accepts, for that manager and key; the record it reads as is valid
  field by field and carries the evidence of its state: \<open>failed\<close> only with absent certainty and no
  children, \<open>unresolved\<close> only with a resolution and a certainty, reconciled only as \<open>completed\<close> with
  every child bound or lost, and never two children of one name.
\<close>

theorem intent_state_evidence:
  assumes "(intent_step am tc)\<^sup>*\<^sup>* s0 s" and "\<And>m d. map_of (st_managers s0) m = Some d \<Longrightarrow> md_files d = []"
    and "map_of (st_managers s) m = Some d" and "map_of (md_files d) n = Some f"
  shows "\<exists>k v. n = file_name k \<and> f = JsonFile v \<and> isIntentRecord am v
     \<and> jget ''managerSessionKey'' v = JStr m \<and> jget ''idempotencyKey'' v = JStr k
     \<and> valid_intent am (intent_of v) \<and> intent_evidence (intent_of v)"
proof -
  have start: "record_files am s0" "binding am s0 mk = None" for mk
    using no_files_no_bindings [of s0] assms(2) by blast+
  have "record_file am m n f"
    using reached_record_files [OF assms(1) start(1)] assms(3,4) unfolding record_files_def by blast
  then obtain k v where v: "n = file_name k" "f = JsonFile v" "isIntentRecord am v"
      "jget ''managerSessionKey'' v = JStr m" "jget ''idempotencyKey'' v = JStr k" unfolding record_file_def by blast
  have b: "binding am s (m, k) = Some (intent_of v)"
    by (rule record_file_binding [OF assms(3) _ v(3,4,5)]) (use assms(4) v in simp)
  have "\<forall>q. binding am s (m, k) = Some q \<longrightarrow> intent_evidence q"
  proof (rule intents.history_invariant [OF assms(1), where P = "\<lambda>x. \<forall>q. x = Some q \<longrightarrow> intent_evidence q"])
    show "\<forall>q. binding am s0 (m, k) = Some q \<longrightarrow> intent_evidence q" using start(2) by simp
  qed (metis life_evidence)
  with v b valid_intent_of [OF v(3)] show ?thesis by blast
qed

theorem intent_state_evidence_witness:
  "\<exists>v. map_of (md_files (the (map_of (st_managers example_store) zeros))) (file_name ''k'') = Some (JsonFile v)
     \<and> isIntentRecord hex_ambient v \<and> intent_evidence (intent_of v)"
proof -
  have stored: "map_of (st_managers example_store) zeros = Some \<lparr>md_trusted = True, md_files = [(file_name ''k'', JsonFile (intent_json example_intent))]\<rparr>"
    by code_simp
  have empty: "map_of (st_managers empty_store) m = Some d \<Longrightarrow> md_files d = []" for m d by (simp add: empty_store_def)
  have entry: "map_of (md_files \<lparr>md_trusted = True, md_files = [(file_name ''k'', JsonFile (intent_json example_intent))]\<rparr>) (file_name ''k'')
      = Some (JsonFile (intent_json example_intent))" by simp
  from intent_state_evidence [OF example_reached empty stored entry] show ?thesis by (auto simp: stored)
qed

text \<open>
  C5. A binding is permanent: whatever happens after a record exists, its binding still holds a record
  with the same manager, key, task digest, launch identifier, project root, recording time and all
  its children, in the same or a later state; a completed or failed record never changes again.
\<close>

theorem intent_binding_permanent:
  assumes "(intent_step am tc)\<^sup>*\<^sup>* s s'" and "binding am s mk = Some r"
  shows "\<exists>r'. binding am s' mk = Some r' \<and> continues r r'"
  using intents.history_preserves [OF assms life_continues continues_refl continues_trans] .

theorem intent_binding_permanent_witness:
  "\<exists>r'. binding hex_ambient (exec hex_ambient (\<lambda>_. True) calm_io (OpFail example_intent
       \<lparr>fi_effectCertainty = Unknown, fi_failureCode = None, fi_failurePhase = None, fi_children = []\<rparr>) example_store)
     (zeros, ''k'') = Some r' \<and> continues example_intent r'"
proof (rule intent_binding_permanent [where tc = "\<lambda>_. True", OF _ example_binding])
  show "(intent_step hex_ambient (\<lambda>_. True))\<^sup>*\<^sup>* example_store (exec hex_ambient (\<lambda>_. True) calm_io (OpFail example_intent
       \<lparr>fi_effectCertainty = Unknown, fi_failureCode = None, fi_failurePhase = None, fi_children = []\<rparr>) example_store)"
    by (rule exec_step [OF example_ok(1)]) (simp add: example_ok)
qed

text \<open>
  C1. At most one effect per binding: over any history of operations, with any faults, lost replies and
  restart sweeps, \<open>markEffecting\<close> succeeds at most once for each manager session and idempotency key.
\<close>

theorem intent_effect_at_most_once:
  assumes "digests_ok am" and "list_all (\<lambda>x. op_ok (fst x) (snd x)) h"
  shows "distinct (grants am tc h s)"
  using assms(2)
proof (induction h arbitrary: s)
  case (Cons x h)
  obtain io op where x: "x = (io, op)" by fastforce
  have c: "clock_ok io" using Cons.prems x by (cases op) auto
  show ?case
  proof (cases "granted am io op s")
    case (Cons mk mks)
    then have "granted am io op s = [mk]" "started am (exec am tc io op s) mk"
      using granted_once [OF c, of mk am op s tc] by auto
    then show ?thesis using Cons.IH Cons.prems x grants_fresh [OF assms(1)] by auto
  qed (use Cons x in auto)
qed simp

theorem intent_effect_at_most_once_witness:
  "distinct (grants hex_ambient (\<lambda>_. True) [(calm_io, OpBegin ''u'' example_input), (calm_io, OpMark example_intent),
     (calm_io, OpMark example_intent)] empty_store)
   \<and> grants hex_ambient (\<lambda>_. True) [(calm_io, OpBegin ''u'' example_input), (calm_io, OpMark example_intent),
     (calm_io, OpMark example_intent)] empty_store = [(zeros, ''k'')]"
  using intent_effect_at_most_once [OF example_ok(1), of "[(calm_io, OpBegin ''u'' example_input),
      (calm_io, OpMark example_intent), (calm_io, OpMark example_intent)]" "\<lambda>_. True" empty_store]
    example_ok example_grants by simp

text \<open>
  Replay and conflict: on an existing record \<open>begin\<close> has no effect and answers with that record, as
  a resumed launch when it is still \<open>recorded\<close>, as \<open>unresolved\<close> or as a replay otherwise; a different
  task digest or project root is a key conflict.
\<close>

theorem begin_on_existing_record:
  assumes "sha256_hex (bi_managerSessionKey input)" and "idempotency_shape (bi_idempotencyKey input)"
    and "usable (bi_projectRoot input)" and "tc (bi_task input)"
    and "io_dirs io" and "st_namespace s" and "st_root s = Some True"
    and "map_of (st_managers s) (bi_managerSessionKey input) = Some d" and "md_trusted d"
    and "io_lock io (bi_managerSessionKey input)" and "io_read io (bi_managerSessionKey input) (bi_idempotencyKey input)"
    and "binding am s (bi_managerSessionKey input, bi_idempotencyKey input) = Some ex"
  shows "begin_intent am tc io uuid input s = (s,
     if li_taskDigest ex \<noteq> taskDigest am (bi_task input) then Inl (KeyConflict ''taskDigest'')
     else if li_projectRoot ex \<noteq> bi_projectRoot input then Inl (KeyConflict ''projectRoot'')
     else (case li_state ex of Recorded \<Rightarrow> Inr (BeginLaunch ex True) | Unresolved \<Rightarrow> Inr (BeginUnresolved ex)
           | _ \<Rightarrow> Inr (BeginReplay ex)))"
proof -
  have "managerDir io (bi_managerSessionKey input) True s = (s, Inr (Some d))"
    using assms by (simp add: managerDir_def intentsRoot_def assertManagerSessionKey_def)
  moreover have "readIntent am io (bi_managerSessionKey input) d (bi_idempotencyKey input) = Inr (Some ex)"
    using assms by (auto simp: readIntent_def binding_def file_binding_def dir_file_def
        split: option.splits intent_file.splits if_splits)
  ultimately show ?thesis
    using assms by (simp add: begin_intent_def begin_locked_def begin_existing_def assertManagerSessionKey_def
        assertIdempotencyKey_def split: intent_state.split)
qed

theorem begin_on_existing_record_witness:
  "snd (begin_intent hex_ambient (\<lambda>_. True) calm_io ''u2'' example_input example_store)
     = Inr (BeginLaunch example_intent True)"
proof -
  obtain d where d: "map_of (st_managers example_store) zeros = Some d" "md_trusted d"
    and "st_namespace example_store" "st_root example_store = Some True"
  proof -
    have "map_option md_trusted (map_of (st_managers example_store) zeros) = Some True \<and> st_namespace example_store
        \<and> st_root example_store = Some True"
      by code_simp
    then show ?thesis using that by auto
  qed
  moreover have "sha256_hex zeros" "idempotency_shape ''k''" "usable ''/r''" by code_simp+
  moreover have "li_taskDigest example_intent = taskDigest hex_ambient example_task" "li_projectRoot example_intent = ''/r''"
      "li_state example_intent = Recorded"
    by (simp_all add: fresh_intent_def example_input_def)
  ultimately show ?thesis
    using begin_on_existing_record [of example_input "\<lambda>_. True" calm_io example_store d hex_ambient example_intent "''u2''"]
      example_binding by (simp add: example_input_def calm_io_def)
qed

text \<open>
  The restart sweep: when \<open>recoverInterrupted\<close> over all managers succeeds, no binding is left
  \<open>effecting\<close>; every record that was is now \<open>unresolved\<close> as interrupted, with its certainty or
  \<open>unknown\<close>, and every other record is untouched.
\<close>

theorem recover_interrupted_complete:
  assumes "clock_ok io" and "recoverInterrupted am io None s = (s', Inr rs)"
  shows "\<forall>mk. (\<exists>r t. binding am s mk = Some r \<and> li_state r = Effecting \<and> binding am s' mk = Some (interrupted t r))
           \<or> ((\<forall>r. binding am s mk = Some r \<longrightarrow> li_state r \<noteq> Effecting) \<and> binding am s' mk = binding am s mk)"
proof
  fix mk
  obtain s1 ms where m: "listManagerKeys io s = (s1, Inr ms)" and run: "recover_managers am io ms [] s1 = (s', Inr rs)"
    using assms(2) by (auto simp: recoverInterrupted_def split: prod.splits sum.splits)
  have b1: "binding am s1 = binding am s" using reads_binding(3) [of am io s] m by simp
  note sw = recover_managers_swept [OF assms(1) run]
  have ms: "fst mk \<in> set ms" if r: "binding am s mk = Some r" for r
  proof -
    have "st_managers s1 = st_managers s" and ms: "ms = filter sha256_hex (sort (remdups (map fst (st_managers s1))))"
      using m intentsRoot_managers [of io s]
      by (auto simp: listManagerKeys_def Let_def split: prod.splits sum.splits if_splits)
    moreover have "map_of (st_managers s) (fst mk) \<noteq> None"
      using r by (auto simp: binding_def file_binding_def dir_file_def split: option.splits)
    moreover have "sha256_hex (fst mk)"
      using binding_valid [of am s "fst mk" "snd mk" r] r by (auto simp: valid_intent_def)
    ultimately show ?thesis by (simp add: map_of_eq_None_iff)
  qed
  show "(\<exists>r t. binding am s mk = Some r \<and> li_state r = Effecting \<and> binding am s' mk = Some (interrupted t r))
           \<or> ((\<forall>r. binding am s mk = Some r \<longrightarrow> li_state r \<noteq> Effecting) \<and> binding am s' mk = binding am s mk)"
    using sw ms b1 unfolding swept_def by (cases mk) (metis fst_conv rangeI)
qed

definition effecting_store :: intent_store where
  "effecting_store = exec hex_ambient (\<lambda>_. True) calm_io (OpMark example_intent) example_store"

theorem recover_interrupted_complete_witness:
  "\<exists>t. binding hex_ambient (fst (recoverInterrupted hex_ambient calm_io None effecting_store)) (zeros, ''k'')
     = Some (interrupted t (example_intent\<lparr>li_state := Effecting\<rparr>))"
proof -
  have b: "binding hex_ambient effecting_store (zeros, ''k'') = Some (example_intent\<lparr>li_state := Effecting\<rparr>)"
    by code_simp
  have "case snd (recoverInterrupted hex_ambient calm_io None effecting_store) of Inr rs \<Rightarrow> True | Inl e \<Rightarrow> False"
    by code_simp
  then obtain rs where "recoverInterrupted hex_ambient calm_io None effecting_store
      = (fst (recoverInterrupted hex_ambient calm_io None effecting_store), Inr rs)"
    by (metis old.sum.exhaust old.sum.simps(5) prod.collapse)
  from recover_interrupted_complete [OF example_ok(2) this, rule_format, of "(zeros, ''k'')"] b
  show ?thesis by auto
qed

text \<open>
  An acknowledgement is durable: when \<open>begin\<close> hands out a fresh launch or \<open>markEffecting\<close> returns,
  the binding holds exactly the record the caller received, in state \<open>recorded\<close> or \<open>effecting\<close>.
\<close>

theorem intent_ack_durable:
  assumes "clock_ok io" and "usable uuid" and "digests_ok am"
  shows "(begin_intent am tc io uuid input s = (s', Inr (BeginLaunch r False)) \<longrightarrow>
            binding am s' (bi_managerSessionKey input, bi_idempotencyKey input) = Some (fresh_intent am io uuid input))
       \<and> (markEffecting am io q s = (s', Inr r) \<longrightarrow>
            binding am s' (li_managerSessionKey q, li_idempotencyKey q) = Some r \<and> li_state r = Effecting
            \<and> li_launchId r = li_launchId q)"
proof (intro conjI impI)
  assume b: "begin_intent am tc io uuid input s = (s', Inr (BeginLaunch r False))"
  from b assms show "binding am s' (bi_managerSessionKey input, bi_idempotencyKey input) = Some (fresh_intent am io uuid input)"
    by (cases rule: begin_cases) auto
next
  assume m: "markEffecting am io q s = (s', Inr r)"
  from m assms(1) show "binding am s' (li_managerSessionKey q, li_idempotencyKey q) = Some r"
    "li_state r = Effecting" "li_launchId r = li_launchId q"
    by (rule mark_cases; simp)+
qed

theorem intent_ack_durable_witness:
  "(\<exists>r. snd (markEffecting hex_ambient calm_io example_intent example_store) = Inr r
      \<and> binding hex_ambient effecting_store (zeros, ''k'') = Some r)"
proof -
  have "case snd (markEffecting hex_ambient calm_io example_intent example_store) of Inr r \<Rightarrow> True | Inl e \<Rightarrow> False"
    by code_simp
  then obtain r where r: "snd (markEffecting hex_ambient calm_io example_intent example_store) = Inr r"
    by (metis old.sum.exhaust old.sum.simps(5))
  then have "markEffecting hex_ambient calm_io example_intent example_store = (effecting_store, Inr r)"
    unfolding effecting_store_def by (simp add: prod_eq_iff)
  moreover have "usable ''u''" by code_simp
  moreover have "li_managerSessionKey example_intent = zeros" "li_idempotencyKey example_intent = ''k''"
    by (simp_all add: fresh_intent_def example_input_def)
  ultimately show ?thesis
    using intent_ack_durable [OF example_ok(2) _ example_ok(1), of "''u''" "\<lambda>_. True" example_input example_store
        effecting_store r example_intent] r by auto
qed

end
