(* ===== verification/Mailbox.thy ===== *)
theory Mailbox
  imports Canonical_Json Js_Access Histories
begin

text \<open>
  The owner-only filesystem mailbox of \<open>src/daemon/mailbox.ts\<close>: one box per manager session with
  the files of its \<open>unread\<close> and \<open>acked\<close> directories, and the loss accounting in \<open>daemon.json\<close>. An
  event file is the JSON value it parses to, its size in bytes and whether its type and mode are
  trusted. The outcomes of the file system during one operation (locks, the staged write and its
  directory sync, each rename, each update of \<open>daemon.json\<close>) are the argument \<open>mail_io\<close>.
\<close>

section \<open>Limits and errors\<close>

definition MAILBOX_UNREAD_MAX_FILES :: nat where
  "MAILBOX_UNREAD_MAX_FILES = 500"

definition MAILBOX_UNREAD_MAX_BYTES :: nat where
  "MAILBOX_UNREAD_MAX_BYTES = 8 * 1024 * 1024"

definition MAILBOX_GLOBAL_UNREAD_MAX_FILES :: nat where
  "MAILBOX_GLOBAL_UNREAD_MAX_FILES = 5000"

definition MAILBOX_ACKED_RETAINED_FILES :: nat where
  "MAILBOX_ACKED_RETAINED_FILES = 1000"

definition MAILBOX_EVENT_MAX_BYTES :: nat where
  "MAILBOX_EVENT_MAX_BYTES = 32 * 1024"

definition MAILBOX_DECISION_EXCERPT_MAX_BYTES :: nat where
  "MAILBOX_DECISION_EXCERPT_MAX_BYTES = 8 * 1024"

datatype mail_error = MailUnavailable | MailInvalid | MailNotFound

section \<open>Events\<close>

record mail_account =
  ma_count :: nat
  ma_firstAt :: string
  ma_lastAt :: string

record mail_child =
  mc_agentName :: string
  mc_agentKind :: string
  mc_paneId :: string
  mc_terminalId :: "string option"

record mail_decision =
  dc_verdict :: string
  dc_labels :: "string list"
  dc_evidenceDigest :: string
  dc_evidenceExcerpt :: "string option"
  dc_reviewerModel :: string

record mail_handoff =
  mh_state :: string
  mh_artifactSha256 :: "string option"

record mail_limit =
  ml_operatingPointId :: string
  ml_retryNotBefore :: "string option"

record run_event =
  re_id :: string
  re_at :: string
  re_kind :: string
  re_runId :: string
  re_jobId :: string
  re_child :: "mail_child option"
  re_decision :: "mail_decision option"
  re_handoff :: "mail_handoff option"
  re_limit :: "mail_limit option"
  re_actions :: "string list"

record gap_event =
  ge_id :: string
  ge_at :: jsval
  ge_from :: string
  ge_to :: string
  ge_lost :: jsval

record run_input =
  ri_kind :: string
  ri_runId :: string
  ri_jobId :: string
  ri_child :: "mail_child option"
  ri_decision :: "mail_decision option"
  ri_handoff :: "mail_handoff option"
  ri_limit :: "mail_limit option"
  ri_actions :: "string list option"
  ri_id :: "string option"

record gap_input =
  gi_from :: string
  gi_to :: string
  gi_lost :: jsval
  gi_id :: "string option"
  gi_at :: "jsval option"

section \<open>Shapes\<close>

definition boundedText :: "nat \<Rightarrow> string \<Rightarrow> bool" where
  "boundedText n s \<longleftrightarrow> s \<noteq> [] \<and> length s \<le> n \<and> CHR 0x00 \<notin> set s"

definition event_id_pattern :: "(char \<Rightarrow> bool) list" where
  "event_id_pattern =
     replicate 4 is_digit @ [(=) (CHR ''-'')] @ replicate 2 is_digit @ [(=) (CHR ''-'')] @ replicate 2 is_digit
     @ [(=) (CHR ''T'')] @ replicate 6 is_digit @ [(=) (CHR ''.'')] @ replicate 3 is_digit @ [(=) (CHR ''Z''), (=) (CHR ''-'')]
     @ replicate 8 is_hex @ [(=) (CHR ''-'')] @ replicate 4 is_hex @ [(=) (CHR ''-'')] @ replicate 4 is_hex
     @ [(=) (CHR ''-'')] @ replicate 4 is_hex @ [(=) (CHR ''-'')] @ replicate 12 is_hex"

definition event_id_shape :: "string \<Rightarrow> bool" where
  "event_id_shape s = list_all2 (\<lambda>P c. P c) event_id_pattern s"

definition mailboxEventId :: "string \<Rightarrow> string \<Rightarrow> string" where
  "mailboxEventId stamp uuid = filter (\<lambda>c. c \<noteq> CHR '':'') stamp @ ''-'' @ uuid"

definition assertEventId :: "string \<Rightarrow> (mail_error, unit) result" where
  "assertEventId s = (if event_id_shape s then Inr () else Inl MailInvalid)"

definition assertMailKey :: "string \<Rightarrow> (mail_error, unit) result" where
  "assertMailKey s = (if sha256_hex s then Inr () else Inl MailInvalid)"

definition validDecision :: "mail_decision \<Rightarrow> bool" where
  "validDecision d \<longleftrightarrow> boundedText 64 (dc_verdict d)
     \<and> length (dc_labels d) \<le> 16 \<and> list_all (boundedText 64) (dc_labels d)
     \<and> length (dc_evidenceDigest d) \<le> 128
     \<and> opt_all (\<lambda>x. byte_length x \<le> MAILBOX_DECISION_EXCERPT_MAX_BYTES) (dc_evidenceExcerpt d)
     \<and> boundedText 64 (dc_reviewerModel d)"

definition validHandoff :: "mail_handoff \<Rightarrow> bool" where
  "validHandoff h \<longleftrightarrow> boundedText 64 (mh_state h) \<and> opt_all (boundedText 128) (mh_artifactSha256 h)"

definition validLimit :: "ambient \<Rightarrow> mail_limit \<Rightarrow> bool" where
  "validLimit am l \<longleftrightarrow> boundedText 128 (ml_operatingPointId l)
     \<and> opt_all (\<lambda>x. boundedText 64 x \<and> am_dateParse am x \<noteq> None) (ml_retryNotBefore l)"

text \<open>\<open>assertRunEventInput\<close>, on an event whose optional actions are already a list.\<close>

definition assertRunEventInput :: "ambient \<Rightarrow> run_event \<Rightarrow> (mail_error, unit) result" where
  "assertRunEventInput am e =
     (if boundedText 64 (re_kind e) \<and> boundedText 200 (re_runId e) \<and> boundedText 200 (re_jobId e)
         \<and> list_all (boundedText 256) (re_actions e)
         \<and> opt_all validDecision (re_decision e) \<and> opt_all validHandoff (re_handoff e)
         \<and> opt_all (validLimit am) (re_limit e)
      then Inr () else Inl MailInvalid)"

definition assertGapEventInput :: "gap_input \<Rightarrow> (mail_error, unit) result" where
  "assertGapEventInput g = (if boundedText 64 (gi_from g) \<and> boundedText 64 (gi_to g) \<and> is_record (gi_lost g) then Inr () else Inl MailInvalid)"

section \<open>Bodies\<close>

definition mail_child_json :: "mail_child \<Rightarrow> jsval" where
  "mail_child_json c = JObj ([(''agentName'', JStr (mc_agentName c)), (''agentKind'', JStr (mc_agentKind c)),
     (''paneId'', JStr (mc_paneId c))] @ opt_json ''terminalId'' (map_option JStr (mc_terminalId c)))"

definition decision_json :: "mail_decision \<Rightarrow> jsval" where
  "decision_json d = JObj ([(''verdict'', JStr (dc_verdict d)), (''labels'', JArr (map JStr (dc_labels d))),
     (''evidenceDigest'', JStr (dc_evidenceDigest d))]
     @ opt_json ''evidenceExcerpt'' (map_option JStr (dc_evidenceExcerpt d))
     @ [(''reviewerModel'', JStr (dc_reviewerModel d))])"

definition handoff_json :: "mail_handoff \<Rightarrow> jsval" where
  "handoff_json h = JObj ([(''state'', JStr (mh_state h))] @ opt_json ''artifactSha256'' (map_option JStr (mh_artifactSha256 h)))"

definition limit_json :: "mail_limit \<Rightarrow> jsval" where
  "limit_json l = JObj ([(''operatingPointId'', JStr (ml_operatingPointId l))]
     @ opt_json ''retryNotBefore'' (map_option JStr (ml_retryNotBefore l)))"

definition run_event_json :: "run_event \<Rightarrow> jsval" where
  "run_event_json e = JObj
     ([(''id'', JStr (re_id e)), (''at'', JStr (re_at e)), (''kind'', JStr (re_kind e)), (''runId'', JStr (re_runId e)),
       (''jobId'', JStr (re_jobId e))]
      @ opt_json ''childIdentity'' (map_option mail_child_json (re_child e))
      @ opt_json ''decision'' (map_option decision_json (re_decision e))
      @ opt_json ''handoff'' (map_option handoff_json (re_handoff e))
      @ opt_json ''limit'' (map_option limit_json (re_limit e))
      @ [(''actions'', JArr (map JStr (re_actions e)))])"

definition account_json :: "mail_account \<Rightarrow> jsval" where
  "account_json a = JObj [(''count'', JNum (of_nat (ma_count a))), (''firstAt'', JStr (ma_firstAt a)), (''lastAt'', JStr (ma_lastAt a))]"

definition gap_event_json :: "gap_event \<Rightarrow> jsval" where
  "gap_event_json g = JObj [(''id'', JStr (ge_id g)), (''at'', ge_at g), (''kind'', JStr ''downtime_gap''),
     (''from'', JStr (ge_from g)), (''to'', JStr (ge_to g)),
     (''lost'', ge_lost g)]"

record payload =
  pl_value :: jsval
  pl_bytes :: nat

definition serialize :: "ambient \<Rightarrow> jsval \<Rightarrow> (mail_error, payload) result" where
  "serialize am body =
     (let v = (case modelSafeTree body of None \<Rightarrow> JUndef | Some w \<Rightarrow> w);
          n = byte_length (json_text (am_numStr am) v)
      in if n > MAILBOX_EVENT_MAX_BYTES then Inl MailInvalid else Inr \<lparr>pl_value = v, pl_bytes = n\<rparr>)"

definition buildRunBody :: "ambient \<Rightarrow> string \<Rightarrow> string \<Rightarrow> run_input \<Rightarrow> (mail_error, string \<times> payload) result" where
  "buildRunBody am stamp uuid i =
     (let eventId = (case ri_id i of None \<Rightarrow> mailboxEventId stamp uuid | Some x \<Rightarrow> x);
          e = \<lparr>re_id = eventId, re_at = stamp, re_kind = ri_kind i, re_runId = ri_runId i, re_jobId = ri_jobId i,
               re_child = ri_child i, re_decision = ri_decision i, re_handoff = ri_handoff i, re_limit = ri_limit i,
               re_actions = (case ri_actions i of None \<Rightarrow> [] | Some as \<Rightarrow> as)\<rparr>
      in bind_result (assertRunEventInput am e) (\<lambda>_.
         bind_result (assertEventId eventId) (\<lambda>_.
         bind_result (serialize am (run_event_json e)) (\<lambda>p. Inr (eventId, p)))))"

definition buildGapBody ::
  "ambient \<Rightarrow> string \<Rightarrow> string \<Rightarrow> string \<Rightarrow> gap_input \<Rightarrow> (mail_error, string \<times> payload \<times> gap_event) result" where
  "buildGapBody am stamp uuid key g =
     (let eventId = (case gi_id g of None \<Rightarrow> mailboxEventId stamp uuid | Some x \<Rightarrow> x);
          body = \<lparr>ge_id = eventId, ge_at = (case gi_at g of None \<Rightarrow> JStr stamp | Some t \<Rightarrow> t), ge_from = gi_from g,
                  ge_to = gi_to g, ge_lost = gi_lost g\<rparr>
      in bind_result (assertGapEventInput g) (\<lambda>_.
         bind_result (assertMailKey key) (\<lambda>_.
         bind_result (assertEventId eventId) (\<lambda>_.
         bind_result (serialize am (gap_event_json body)) (\<lambda>p. Inr (eventId, p, body))))))"

section \<open>The mailbox on disk\<close>

record mail_file =
  mf_value :: "jsval option"
  mf_bytes :: nat
  mf_trusted :: bool

type_synonym mail_files = "(string \<times> mail_file) list"

text \<open>A manager's directory; a missing subdirectory is \<open>None\<close>.\<close>

record mail_box =
  bx_trusted :: bool
  bx_unread :: "mail_files option"
  bx_acked :: "mail_files option"

record mail_store =
  ms_namespace :: bool
  ms_root :: "bool option"
  ms_boxes :: "(string \<times> mail_box) list"
  ms_status :: "jsval option"
  ms_log :: "string list"

datatype commit_outcome = Committed | NotCommitted | Unsynced

text \<open>
  Outcomes during one operation: directories and locks, the event write, the \<open>n\<close>th update of
  \<open>daemon.json\<close>, the rename of each event, and the \<open>n\<close>th reading of the clock as ISO text.
\<close>

record mail_io =
  mo_dirs :: bool
  mo_lock :: bool
  mo_event :: commit_outcome
  mo_status :: "nat \<Rightarrow> commit_outcome"
  mo_move :: "string \<Rightarrow> commit_outcome"
  mo_now :: "nat \<Rightarrow> string"

definition json_name :: "string \<Rightarrow> string" where
  "json_name eventId = eventId @ ''.json''"

definition is_json_name :: "string \<Rightarrow> bool" where
  "is_json_name name \<longleftrightarrow> 5 \<le> length name \<and> drop (length name - 5) name = ''.json''"

definition box_files :: "mail_files option \<Rightarrow> mail_files" where
  "box_files v = (case v of None \<Rightarrow> [] | Some fs \<Rightarrow> fs)"

definition unread_files :: "mail_store \<Rightarrow> string \<Rightarrow> mail_files" where
  "unread_files s key = (case map_of (ms_boxes s) key of None \<Rightarrow> [] | Some b \<Rightarrow> box_files (bx_unread b))"

definition acked_files :: "mail_store \<Rightarrow> string \<Rightarrow> mail_files" where
  "acked_files s key = (case map_of (ms_boxes s) key of None \<Rightarrow> [] | Some b \<Rightarrow> box_files (bx_acked b))"

definition update_box :: "string \<Rightarrow> (mail_box \<Rightarrow> mail_box) \<Rightarrow> mail_store \<Rightarrow> mail_store" where
  "update_box key f s =
     (case map_of (ms_boxes s) key of None \<Rightarrow> s | Some b \<Rightarrow> s\<lparr>ms_boxes := al_put key (f b) (ms_boxes s)\<rparr>)"

definition set_unread :: "string \<Rightarrow> mail_files \<Rightarrow> mail_store \<Rightarrow> mail_store" where
  "set_unread key fs = update_box key (\<lambda>b. b\<lparr>bx_unread := Some fs\<rparr>)"

definition set_acked :: "string \<Rightarrow> mail_files \<Rightarrow> mail_store \<Rightarrow> mail_store" where
  "set_acked key fs = update_box key (\<lambda>b. b\<lparr>bx_acked := Some fs\<rparr>)"

definition mail_log :: "string \<Rightarrow> mail_store \<Rightarrow> mail_store" where
  "mail_log l s = s\<lparr>ms_log := ms_log s @ [l]\<rparr>"

definition mailboxRoot :: "mail_io \<Rightarrow> bool \<Rightarrow> mail_store \<Rightarrow> mail_store \<times> (mail_error, bool) result" where
  "mailboxRoot io create s =
     (if \<not> mo_dirs io \<or> \<not> ms_namespace s then (s, Inl MailUnavailable)
      else case ms_root s of
        None \<Rightarrow> if create then (s\<lparr>ms_root := Some True\<rparr>, Inr True) else (s, Inr False)
      | Some trusted \<Rightarrow> (s, if trusted then Inr True else Inl MailUnavailable))"

definition box_ok :: "mail_box \<Rightarrow> bool" where
  "box_ok b \<longleftrightarrow> bx_trusted b \<and> bx_unread b \<noteq> None \<and> bx_acked b \<noteq> None"

definition fill_box :: "mail_box \<Rightarrow> mail_box" where
  "fill_box b = b\<lparr>bx_unread := Some (box_files (bx_unread b)), bx_acked := Some (box_files (bx_acked b))\<rparr>"

definition create_box :: "string \<Rightarrow> mail_store \<Rightarrow> mail_store" where
  "create_box key s = s\<lparr>ms_boxes := al_put key
     (case map_of (ms_boxes s) key of
        None \<Rightarrow> \<lparr>bx_trusted = True, bx_unread = Some [], bx_acked = Some []\<rparr>
      | Some b \<Rightarrow> fill_box b) (ms_boxes s)\<rparr>"

definition box_verdict :: "string \<Rightarrow> mail_store \<Rightarrow> (mail_error, bool) result" where
  "box_verdict key s =
     (case map_of (ms_boxes s) key of
        None \<Rightarrow> Inr False
      | Some b \<Rightarrow> if box_ok b then Inr True else Inl MailUnavailable)"

definition managerDirs :: "mail_io \<Rightarrow> string \<Rightarrow> bool \<Rightarrow> mail_store \<Rightarrow> mail_store \<times> (mail_error, bool) result" where
  "managerDirs io key create s =
     (case assertMailKey key of Inl e \<Rightarrow> (s, Inl e) | Inr _ \<Rightarrow>
      (case mailboxRoot io create s of
         (s1, Inl e) \<Rightarrow> (s1, Inl e)
       | (s1, Inr present) \<Rightarrow>
           if \<not> present then (s1, Inr False)
           else (let s2 = (if create then create_box key s1 else s1) in (s2, box_verdict key s2))))"

text \<open>The locks of an admission section: the index lock, then the mailbox lock.\<close>

definition admission :: "mail_io \<Rightarrow> string \<Rightarrow> mail_store \<Rightarrow> mail_store \<times> (mail_error, unit) result" where
  "admission io key s =
     (case mailboxRoot io True s of
        (s1, Inl e) \<Rightarrow> (s1, Inl e)
      | (s1, Inr _) \<Rightarrow>
          (case managerDirs io key True s1 of
             (s2, Inl e) \<Rightarrow> (s2, Inl e)
           | (s2, Inr present) \<Rightarrow> (s2, if present \<and> mo_lock io then Inr () else Inl MailUnavailable)))"

fun admission_all :: "mail_io \<Rightarrow> string list \<Rightarrow> mail_store \<Rightarrow> mail_store \<times> (mail_error, unit) result" where
  "admission_all io [] s = (s, if mo_lock io then Inr () else Inl MailUnavailable)"
| "admission_all io (key # keys) s =
     (case managerDirs io key True s of
        (s1, Inl e) \<Rightarrow> (s1, Inl e)
      | (s1, Inr present) \<Rightarrow> if present then admission_all io keys s1 else (s1, Inl MailUnavailable))"

definition multiMailboxLocks :: "mail_io \<Rightarrow> string list \<Rightarrow> mail_store \<Rightarrow> mail_store \<times> (mail_error, unit) result" where
  "multiMailboxLocks io keys s =
     (case mailboxRoot io True s of
        (s1, Inl e) \<Rightarrow> (s1, Inl e)
      | (s1, Inr _) \<Rightarrow> admission_all io (sort (js_uniq keys)) s1)"

section \<open>Counts and caps\<close>

type_synonym mail_counts = "(string \<times> nat \<times> nat) list"

definition count_files :: "mail_files \<Rightarrow> nat" where
  "count_files fs = length (filter (\<lambda>f. is_json_name (fst f)) fs)"

definition count_bytes :: "mail_files \<Rightarrow> nat" where
  "count_bytes fs = sum_list (map (\<lambda>f. mf_bytes (snd f)) (filter (\<lambda>f. is_json_name (fst f)) fs))"

definition counted_keys :: "mail_store \<Rightarrow> string list" where
  "counted_keys s = filter sha256_hex (sort (map fst (ms_boxes s)))"

definition scanCounts :: "mail_io \<Rightarrow> mail_store \<Rightarrow> mail_store \<times> (mail_error, mail_counts) result" where
  "scanCounts io s =
     (case mailboxRoot io True s of
        (s1, Inl e) \<Rightarrow> (s1, Inl e)
      | (s1, Inr _) \<Rightarrow>
          (s1, if list_all (\<lambda>k. box_verdict k s1 = Inr True) (counted_keys s1)
               then Inr (map (\<lambda>k. (k, count_files (unread_files s1 k), count_bytes (unread_files s1 k))) (counted_keys s1))
               else Inl MailUnavailable))"

definition global_count :: "mail_counts \<Rightarrow> nat" where
  "global_count cs = sum_list (map (\<lambda>c. fst (snd c)) cs)"

definition capState :: "mail_counts \<Rightarrow> string" where
  "capState cs =
     (if list_ex (\<lambda>c. fst (snd c) \<ge> MAILBOX_UNREAD_MAX_FILES \<or> snd (snd c) \<ge> MAILBOX_UNREAD_MAX_BYTES) cs
         \<or> global_count cs \<ge> MAILBOX_GLOBAL_UNREAD_MAX_FILES then ''degraded'' else ''ok'')"

text \<open>\<open>None\<close> where the source would read a property of \<open>undefined\<close> (the entry is missing).\<close>

definition atCap :: "mail_counts \<Rightarrow> string \<Rightarrow> nat \<Rightarrow> bool option" where
  "atCap cs key add =
     map_option (\<lambda>fb. fst fb + 1 > MAILBOX_UNREAD_MAX_FILES \<or> snd fb + add > MAILBOX_UNREAD_MAX_BYTES
                      \<or> global_count cs + 1 > MAILBOX_GLOBAL_UNREAD_MAX_FILES) (map_of cs key)"

section \<open>The loss accounting in \<open>daemon.json\<close>\<close>

fun jput :: "string \<Rightarrow> jsval \<Rightarrow> jsval \<Rightarrow> jsval" where
  "jput k v (JObj kvs) = JObj (al_put k v kvs)"
| "jput k v w = JObj [(k, v)]"

lemma jget_jput: "is_record w \<Longrightarrow> jget k (jput k' v w) = (if k = k' then v else jget k w)"
  by (cases w) auto

lemma is_record_jput [simp]: "is_record (jput k v w)"
  by (cases w) simp_all

fun jdel :: "string \<Rightarrow> jsval \<Rightarrow> jsval" where
  "jdel k (JObj kvs) = JObj (al_del k kvs)"
| "jdel k w = JObj []"

text \<open>\<open>record(value) ? value : {}\<close>\<close>

definition as_record :: "jsval \<Rightarrow> jsval" where
  "as_record v = (if is_record v then v else JObj [])"

definition status_read :: "mail_store \<Rightarrow> jsval" where
  "status_read s = (case ms_status s of None \<Rightarrow> JObj [] | Some v \<Rightarrow> as_record v)"

definition status_write :: "(string \<times> jsval) list \<Rightarrow> mail_store \<Rightarrow> mail_store" where
  "status_write patch s = s\<lparr>ms_status := Some (foldl (\<lambda>v kv. jput (fst kv) (snd kv) v) (status_read s) patch)\<rparr>"

text \<open>One read-merge-write of \<open>daemon.json\<close>: whether it was claimed as written, or logged as failed.\<close>

definition status_update :: "mail_io \<Rightarrow> nat \<Rightarrow> string \<Rightarrow> (string \<times> jsval) list \<Rightarrow> mail_store \<Rightarrow> mail_store \<times> bool" where
  "status_update io n what patch s =
     (case mo_status io n of
        Committed \<Rightarrow> (status_write patch s, True)
      | NotCommitted \<Rightarrow> (mail_log what s, False)
      | Unsynced \<Rightarrow> (mail_log what (status_write patch s), False))"

definition next_account :: "string \<Rightarrow> jsval \<Rightarrow> jsval" where
  "next_account time previous =
     JObj [(''count'', JNum ((case jget ''count'' previous of JNum q \<Rightarrow> q | _ \<Rightarrow> 0) + 1)),
           (''firstAt'', JStr (case jget ''firstAt'' previous of JStr t \<Rightarrow> t | _ \<Rightarrow> time)),
           (''lastAt'', JStr time)]"

definition recordFailure ::
  "mail_io \<Rightarrow> nat \<Rightarrow> string \<Rightarrow> string \<Rightarrow> gap_event option \<Rightarrow> mail_store \<Rightarrow> mail_store \<times> bool" where
  "recordFailure io n key time hold s =
     (let current = status_read s; what = ''herdr-tools-daemon mailbox loss accounting failed'' in
      case hold of
        Some g \<Rightarrow> status_update io n what
          [(''capacity'', JStr ''degraded''),
           (''pendingGap'', jput key (gap_event_json g) (as_record (jget ''pendingGap'' current)))] s
      | None \<Rightarrow>
          (let all = as_record (jget ''unpersisted'' current) in
           (fst (status_update io n what
             [(''capacity'', JStr ''degraded''),
              (''unpersisted'', jput key (next_account time (jget key all)) all)] s), False)))"

definition recordCapacity :: "mail_io \<Rightarrow> nat \<Rightarrow> mail_counts \<Rightarrow> mail_store \<Rightarrow> mail_store" where
  "recordCapacity io n cs s =
     fst (status_update io n ''herdr-tools-daemon mailbox capacity write failed'' [(''capacity'', JStr (capState cs))] s)"

definition clearPendingGap :: "mail_io \<Rightarrow> nat \<Rightarrow> string \<Rightarrow> mail_store \<Rightarrow> mail_store" where
  "clearPendingGap io n key s =
     fst (status_update io n ''herdr-tools-daemon mailbox pendingGap write failed''
       [(''pendingGap'', jdel key (jget ''pendingGap'' (status_read s)))] s)"

section \<open>Writing an event\<close>

datatype refusal = CapacityRefused | CollisionRefused | UnavailableRefused

datatype write_result =
    Persisted string
  | NotPersisted string refusal string bool  \<comment> \<open>event, reason, time, held as a pending gap\<close>

fun refusal_name :: "refusal \<Rightarrow> string" where
  "refusal_name CapacityRefused = ''capacity''"
| "refusal_name CollisionRefused = ''collision''"
| "refusal_name UnavailableRefused = ''unavailable''"

definition writeEventFile ::
  "mail_io \<Rightarrow> string \<Rightarrow> string \<Rightarrow> payload \<Rightarrow> mail_store \<Rightarrow> mail_store \<times> (mail_error, bool) result" where
  "writeEventFile io key eventId p s =
     (let fs = unread_files s key;
          f = \<lparr>mf_value = Some (pl_value p), mf_bytes = pl_bytes p, mf_trusted = True\<rparr>;
          s' = set_unread key (al_put (json_name eventId) f fs) s
      in if mo_event io = NotCommitted then (s, Inl MailUnavailable)
         else if json_name eventId \<in> fst ` set fs then (s, Inr False)
         else (s', if mo_event io = Committed then Inr True else Inl MailUnavailable))"

definition refuse_write ::
  "mail_io \<Rightarrow> nat \<Rightarrow> string \<Rightarrow> string \<Rightarrow> string \<Rightarrow> refusal \<Rightarrow> mail_store \<Rightarrow> mail_store \<times> (mail_error, write_result) result" where
  "refuse_write io n key eventId time why s =
     (mail_log (''herdr-tools-daemon mailbox_write_refused mgr='' @ take 8 key @ '' reason='' @ refusal_name why
        @ '' event='' @ eventId) (fst (recordFailure io n key time None s)),
      Inr (NotPersisted eventId why time False))"

definition persistEvent ::
  "mail_io \<Rightarrow> nat \<Rightarrow> string \<Rightarrow> string \<Rightarrow> payload \<Rightarrow> gap_event option \<Rightarrow> mail_store
   \<Rightarrow> mail_store \<times> (mail_error, write_result) result" where
  "persistEvent io n key eventId p hold s =
     (let time = mo_now io (Suc n) in
      case scanCounts io s of
        (s1, Inl e) \<Rightarrow> (s1, Inl e)
      | (s1, Inr counts) \<Rightarrow>
        (case managerDirs io key True s1 of
           (s2, Inl e) \<Rightarrow> (s2, Inl e)
         | (s2, Inr present) \<Rightarrow>
           if \<not> present then (s2, Inl MailUnavailable)
           else (case atCap counts key (pl_bytes p) of
              None \<Rightarrow> (s2, Inl MailUnavailable)
            | Some True \<Rightarrow>
                (case hold of
                   None \<Rightarrow> refuse_write io n key eventId time CapacityRefused s2
                 | Some g \<Rightarrow>
                     (case recordFailure io n key time (Some g) s2 of
                        (s3, True) \<Rightarrow>
                          (mail_log (''herdr-tools-daemon mailbox_write_refused mgr='' @ take 8 key
                             @ '' reason=capacity event='' @ eventId) s3,
                           Inr (NotPersisted eventId CapacityRefused time True))
                      | (s3, False) \<Rightarrow> refuse_write io (Suc n) key eventId time CapacityRefused s3))
            | Some False \<Rightarrow>
                (case writeEventFile io key eventId p s2 of
                   (s3, Inl e) \<Rightarrow> refuse_write io n key eventId time UnavailableRefused s3
                 | (s3, Inr False) \<Rightarrow> refuse_write io n key eventId time CollisionRefused s3
                 | (s3, Inr True) \<Rightarrow>
                     (case scanCounts io s3 of
                        (s4, Inl e) \<Rightarrow> (s4, Inl e)
                      | (s4, Inr counts') \<Rightarrow> (recordCapacity io n counts' s4, Inr (Persisted eventId)))))))"

definition admitted ::
  "mail_io \<Rightarrow> string \<Rightarrow> (mail_store \<Rightarrow> mail_store \<times> (mail_error, 'a) result) \<Rightarrow> mail_store
   \<Rightarrow> mail_store \<times> (mail_error, 'a) result" where
  "admitted io key section s =
     (case admission io key s of (s1, Inl e) \<Rightarrow> (s1, Inl e) | (s1, Inr _) \<Rightarrow> section s1)"

text \<open>\<open>owner\<close> is the ownership seam's \<open>ownerOfRun\<close>, resolved under the run lock.\<close>

definition writeRunEvent ::
  "ambient \<Rightarrow> (string \<Rightarrow> (mail_error, string) result) \<Rightarrow> mail_io \<Rightarrow> string \<Rightarrow> run_input \<Rightarrow> mail_store
   \<Rightarrow> mail_store \<times> (mail_error, write_result) result" where
  "writeRunEvent am owner io uuid i s =
     (case buildRunBody am (mo_now io 0) uuid i of
        Inl e \<Rightarrow> (s, Inl e)
      | Inr (eventId, p) \<Rightarrow>
          (case owner (ri_runId i) of
             Inl e \<Rightarrow> (s, Inl e)
           | Inr key \<Rightarrow> admitted io key (persistEvent io 0 key eventId p None) s))"

definition writeGapEvent ::
  "ambient \<Rightarrow> mail_io \<Rightarrow> nat \<Rightarrow> string \<Rightarrow> string \<Rightarrow> gap_input \<Rightarrow> mail_store
   \<Rightarrow> mail_store \<times> (mail_error, write_result) result" where
  "writeGapEvent am io n uuid key g s =
     (case buildGapBody am (mo_now io n) uuid key g of
        Inl e \<Rightarrow> (s, Inl e)
      | Inr (eventId, p, body) \<Rightarrow> admitted io key (persistEvent io n key eventId p (Some body)) s)"

section \<open>Retrying held gaps\<close>

text \<open>A held value as \<open>writeGapEvent\<close> reads it; \<open>None\<close> when its typed fields are not strings.\<close>

definition gap_input_of :: "jsval \<Rightarrow> gap_input option" where
  "gap_input_of v =
     (case (jget ''from'' v, jget ''to'' v) of
        (JStr f, JStr t) \<Rightarrow>
          (let mk = (\<lambda>i. \<lparr>gi_from = f, gi_to = t, gi_lost = jget ''lost'' v, gi_id = i,
                gi_at = (if jget ''at'' v = JUndef \<or> jget ''at'' v = JNull then None else Some (jget ''at'' v))\<rparr>)
           in case jget ''id'' v of
                JStr i \<Rightarrow> Some (mk (Some i)) | JUndef \<Rightarrow> Some (mk None) | JNull \<Rightarrow> Some (mk None) | _ \<Rightarrow> None)
      | _ \<Rightarrow> None)"

definition has_event :: "mail_store \<Rightarrow> string \<Rightarrow> string \<Rightarrow> bool" where
  "has_event s key eventId \<longleftrightarrow> json_name eventId \<in> fst ` set (unread_files s key)
     \<or> json_name eventId \<in> fst ` set (acked_files s key)"

definition retry_gap :: "ambient \<Rightarrow> mail_io \<Rightarrow> nat \<Rightarrow> string \<Rightarrow> string \<Rightarrow> jsval \<Rightarrow> mail_store \<Rightarrow> mail_store" where
  "retry_gap am io n uuid key held s =
     (let landed = (case jget ''id'' held of
            JStr i \<Rightarrow> (case managerDirs io key False s of (_, Inr True) \<Rightarrow> has_event s key i | _ \<Rightarrow> False)
          | _ \<Rightarrow> False);
          failed = mail_log ''herdr-tools-daemon mailbox pendingGap retry failed''
      in if \<not> is_record held then s
         else if landed then clearPendingGap io n key s
         else (case gap_input_of held of
            None \<Rightarrow> failed s
          | Some g \<Rightarrow>
              (case writeGapEvent am io n uuid key g s of
                 (s1, Inr (Persisted i)) \<Rightarrow> clearPendingGap io (n + 2) key s1
               | (s1, Inr (NotPersisted i why t held')) \<Rightarrow> s1
               | (s1, Inl e) \<Rightarrow> failed s1)))"

fun retry_gaps :: "ambient \<Rightarrow> mail_io \<Rightarrow> nat \<Rightarrow> (nat \<Rightarrow> string) \<Rightarrow> (string \<times> jsval) list \<Rightarrow> mail_store \<Rightarrow> mail_store" where
  "retry_gaps am io n uuid [] s = s"
| "retry_gaps am io n uuid (kv # kvs) s =
     retry_gaps am io (n + 3) uuid kvs (retry_gap am io n (uuid n) (fst kv) (snd kv) s)"

fun obj_entries :: "jsval \<Rightarrow> (string \<times> jsval) list" where
  "obj_entries (JObj kvs) = kvs"
| "obj_entries v = []"

definition retryPendingGaps :: "ambient \<Rightarrow> mail_io \<Rightarrow> (nat \<Rightarrow> string) \<Rightarrow> mail_store \<Rightarrow> mail_store" where
  "retryPendingGaps am io uuid s = retry_gaps am io 0 uuid (obj_entries (jget ''pendingGap'' (status_read s))) s"

section \<open>Reading, acknowledging and moving\<close>

definition checkLaunchCapacity :: "mail_io \<Rightarrow> string \<Rightarrow> mail_store \<Rightarrow> mail_store \<times> (mail_error, bool) result" where
  "checkLaunchCapacity io key s =
     (case assertMailKey key of Inl e \<Rightarrow> (s, Inl e) | Inr _ \<Rightarrow>
      admitted io key (\<lambda>s1.
        case scanCounts io s1 of
          (s2, Inl e) \<Rightarrow> (s2, Inl e)
        | (s2, Inr counts) \<Rightarrow>
            (case atCap counts key 0 of
               None \<Rightarrow> (s2, Inl MailUnavailable)
             | Some full \<Rightarrow>
                 ((if full then mail_log (''herdr-tools-daemon mailbox_write_refused mgr='' @ take 8 key
                     @ '' reason=capacity event=launch'') s2 else s2), Inr (\<not> full)))) s)"

definition list_unread :: "mail_io \<Rightarrow> string \<Rightarrow> mail_store \<Rightarrow> (mail_error, string list) result" where
  "list_unread io key s =
     (case snd (managerDirs io key False s) of
        Inl e \<Rightarrow> Inl e
      | Inr present \<Rightarrow>
          Inr (if present then map (\<lambda>n. take (length n - 5) n) (sort (filter is_json_name (map fst (unread_files s key))))
               else []))"

definition readEventBody :: "string \<Rightarrow> mail_file option \<Rightarrow> (mail_error, jsval) result" where
  "readEventBody eventId f =
     (case f of
        None \<Rightarrow> Inl MailNotFound
      | Some g \<Rightarrow>
          if \<not> mf_trusted g then Inl MailUnavailable
          else (case mf_value g of
             None \<Rightarrow> Inl MailUnavailable
           | Some v \<Rightarrow> if is_record v \<and> jget ''id'' v = JStr eventId then Inr v else Inl MailUnavailable))"

definition read_event :: "mail_io \<Rightarrow> string \<Rightarrow> string \<Rightarrow> mail_store \<Rightarrow> (mail_error, jsval) result" where
  "read_event io key eventId s =
     (case assertEventId eventId of Inl e \<Rightarrow> Inl e | Inr _ \<Rightarrow>
      (case snd (managerDirs io key False s) of
         Inl e \<Rightarrow> Inl e
       | Inr present \<Rightarrow>
           if \<not> present then Inl MailNotFound
           else (case readEventBody eventId (map_of (unread_files s key) (json_name eventId)) of
              Inl MailNotFound \<Rightarrow> readEventBody eventId (map_of (acked_files s key) (json_name eventId))
            | r \<Rightarrow> r)))"

definition pruned :: "mail_files \<Rightarrow> mail_files" where
  "pruned fs =
     (let names = sort (filter is_json_name (map fst fs));
          gone = take (length names - MAILBOX_ACKED_RETAINED_FILES) names
      in filter (\<lambda>f. fst f \<notin> set gone) fs)"

datatype ack_result = Acked | AlreadyAcked

definition ack_event :: "mail_io \<Rightarrow> string \<Rightarrow> string \<Rightarrow> mail_store \<Rightarrow> mail_store \<times> (mail_error, ack_result) result" where
  "ack_event io key eventId s =
     (case assertEventId eventId of Inl e \<Rightarrow> (s, Inl e) | Inr _ \<Rightarrow>
      admitted io key (\<lambda>s0.
        case managerDirs io key True s0 of
          (s1, Inl e) \<Rightarrow> (s1, Inl e)
        | (s1, Inr present) \<Rightarrow>
          if \<not> present then (s1, Inl MailUnavailable)
          else (case map_of (unread_files s1 key) (json_name eventId) of
             None \<Rightarrow> (s1, if json_name eventId \<in> fst ` set (acked_files s1 key) then Inr AlreadyAcked else Inl MailNotFound)
           | Some f \<Rightarrow>
              (let renamed = set_unread key (al_del (json_name eventId) (unread_files s1 key))
                     (set_acked key (al_put (json_name eventId) f (acked_files s1 key)) s1) in
               case mo_move io eventId of
                 NotCommitted \<Rightarrow> (s1, Inl MailUnavailable)
               | Unsynced \<Rightarrow> (renamed, Inl MailUnavailable)
               | Committed \<Rightarrow>
                   (case scanCounts io (set_acked key (pruned (acked_files renamed key)) renamed) of
                      (s2, Inl e) \<Rightarrow> (s2, Inl e)
                    | (s2, Inr counts) \<Rightarrow> (recordCapacity io 0 counts s2, Inr Acked))))) s)"

record move_outcome =
  mv_moved :: "string list"
  mv_already :: "string list"
  mv_lost :: "string list"

text \<open>The rename loop: the outcome so far is the last argument but one.\<close>

fun move_loop ::
  "mail_io \<Rightarrow> string \<Rightarrow> string \<Rightarrow> string list \<Rightarrow> move_outcome \<Rightarrow> mail_store \<Rightarrow> mail_store \<times> (mail_error, move_outcome) result" where
  "move_loop io src dst [] out s = (s, Inr out)"
| "move_loop io src dst (i # is) out s =
     (case map_of (unread_files s src) (json_name i) of
        Some f \<Rightarrow>
          (let s' = set_unread src (al_del (json_name i) (unread_files s src))
                 (set_unread dst (al_put (json_name i) f (unread_files s dst)) s)
           in case mo_move io i of
                NotCommitted \<Rightarrow> (s, Inl MailUnavailable)
              | Unsynced \<Rightarrow> (s', Inl MailUnavailable)
              | Committed \<Rightarrow> move_loop io src dst is (out\<lparr>mv_moved := mv_moved out @ [i]\<rparr>) s')
      | None \<Rightarrow>
          move_loop io src dst is
            (if json_name i \<in> fst ` set (unread_files s dst) then out\<lparr>mv_already := mv_already out @ [i]\<rparr>
             else out\<lparr>mv_lost := mv_lost out @ [i]\<rparr>) s)"

fun account_lost :: "mail_io \<Rightarrow> nat \<Rightarrow> string \<Rightarrow> string list \<Rightarrow> mail_store \<Rightarrow> mail_store" where
  "account_lost io n key [] s = s"
| "account_lost io n key (i # is) s = account_lost io (Suc n) key is (fst (recordFailure io n key (mo_now io n) None s))"

definition moveUnreadLocked ::
  "mail_io \<Rightarrow> string \<Rightarrow> string \<Rightarrow> string list \<Rightarrow> mail_store \<Rightarrow> mail_store \<times> (mail_error, move_outcome) result" where
  "moveUnreadLocked io src dst is s =
     (case managerDirs io src True s of
        (s1, Inl e) \<Rightarrow> (s1, Inl e)
      | (s1, Inr p1) \<Rightarrow>
        (case managerDirs io dst True s1 of
           (s2, Inl e) \<Rightarrow> (s2, Inl e)
         | (s2, Inr p2) \<Rightarrow>
           if \<not> (p1 \<and> p2) then (s2, Inl MailUnavailable)
           else (case move_loop io src dst is \<lparr>mv_moved = [], mv_already = [], mv_lost = []\<rparr> s2 of
              (s3, Inl e) \<Rightarrow> (s3, Inl e)
            | (s3, Inr out) \<Rightarrow>
                (let s4 = account_lost io 0 src (mv_lost out) s3 in
                 case scanCounts io s4 of
                   (s5, Inl e) \<Rightarrow> (s5, Inl e)
                 | (s5, Inr counts) \<Rightarrow> (recordCapacity io (length (mv_lost out)) counts s5, Inr out)))))"

definition moveUnread ::
  "mail_io \<Rightarrow> string \<Rightarrow> string \<Rightarrow> string list \<Rightarrow> mail_store \<Rightarrow> mail_store \<times> (mail_error, move_outcome) result" where
  "moveUnread io src dst is s =
     (case assertMailKey src of Inl e \<Rightarrow> (s, Inl e) | Inr _ \<Rightarrow>
      case assertMailKey dst of Inl e \<Rightarrow> (s, Inl e) | Inr _ \<Rightarrow>
      if src = dst \<or> \<not> list_all event_id_shape is then (s, Inl MailInvalid)
      else (case multiMailboxLocks io [src, dst] s of
         (s1, Inl e) \<Rightarrow> (s1, Inl e)
       | (s1, Inr _) \<Rightarrow> moveUnreadLocked io src dst is s1))"

section \<open>Operations inside \<open>withMailboxes\<close>\<close>

text \<open>\<open>held\<close> are the keys whose locks the section holds.\<close>

definition locked_list :: "mail_io \<Rightarrow> string list \<Rightarrow> string \<Rightarrow> mail_store \<Rightarrow> (mail_error, string list) result" where
  "locked_list io held key s = (if key \<notin> set held then Inl MailInvalid else list_unread io key s)"

definition locked_read :: "mail_io \<Rightarrow> string list \<Rightarrow> string \<Rightarrow> string \<Rightarrow> mail_store \<Rightarrow> (mail_error, jsval) result" where
  "locked_read io held key eventId s = (if key \<notin> set held then Inl MailInvalid else read_event io key eventId s)"

definition locked_moveUnread ::
  "mail_io \<Rightarrow> string list \<Rightarrow> string \<Rightarrow> string \<Rightarrow> string list \<Rightarrow> mail_store
   \<Rightarrow> mail_store \<times> (mail_error, move_outcome) result" where
  "locked_moveUnread io held src dst is s =
     (if src \<notin> set held \<or> dst \<notin> set held \<or> src = dst \<or> \<not> list_all event_id_shape is then (s, Inl MailInvalid)
      else moveUnreadLocked io src dst is s)"

definition locked_writeRecordedEvent ::
  "ambient \<Rightarrow> mail_io \<Rightarrow> string list \<Rightarrow> string \<Rightarrow> run_event \<Rightarrow> mail_store
   \<Rightarrow> mail_store \<times> (mail_error, write_result) result" where
  "locked_writeRecordedEvent am io held key e s =
     (if key \<notin> set held then (s, Inl MailInvalid)
      else case bind_result (assertRunEventInput am e) (\<lambda>_. assertEventId (re_id e)) of
        Inl x \<Rightarrow> (s, Inl x)
      | Inr _ \<Rightarrow>
          (case read_event io key (re_id e) s of
             Inr v \<Rightarrow> (s, Inr (Persisted (re_id e)))
           | Inl MailNotFound \<Rightarrow>
               (case serialize am (run_event_json e) of
                  Inl x \<Rightarrow> (s, Inl x)
                | Inr p \<Rightarrow> persistEvent io 0 key (re_id e) p None s)
           | Inl x \<Rightarrow> (s, Inl x)))"

definition degradation :: "mail_store \<Rightarrow> bool \<times> jsval \<times> jsval" where
  "degradation s =
     (let current = status_read s in
      (jget ''capacity'' current = JStr ''degraded'', as_record (jget ''unpersisted'' current),
       as_record (jget ''pendingGap'' current)))"

end
