(* ===== verification/Mailbox_Properties.thy ===== *)
theory Mailbox_Properties
  imports Mailbox
begin

text \<open>
  Correctness of the mailbox: what each operation leaves unchanged (\<open>frame_simps\<close>), the caps at
  write time, writes that never clobber, honest write results with durable loss accounting,
  acknowledgement with bounded retention, and the journaled move.
\<close>

section \<open>What the operations leave unchanged\<close>

lemma mailboxRoot_boxes [frame_simps]: "ms_boxes (fst (mailboxRoot io c s)) = ms_boxes s"
  by (simp add: mailboxRoot_def split: option.splits)

lemma status_update_boxes [frame_simps]: "ms_boxes (fst (status_update io n w p s)) = ms_boxes s"
  by (simp add: status_update_def status_write_def mail_log_def split: commit_outcome.splits)

lemma mail_log_boxes [frame_simps]: "ms_boxes (mail_log l s) = ms_boxes s"
  by (simp add: mail_log_def)

lemma recordFailure_boxes [frame_simps]: "ms_boxes (fst (recordFailure io n key t hold s)) = ms_boxes s"
  by (simp add: recordFailure_def Let_def status_update_boxes split: option.splits)

lemma recordCapacity_boxes [frame_simps]: "ms_boxes (recordCapacity io n cs s) = ms_boxes s"
  by (simp add: recordCapacity_def status_update_boxes)

lemma clearPendingGap_boxes [frame_simps]: "ms_boxes (clearPendingGap io n key s) = ms_boxes s"
  by (simp add: clearPendingGap_def status_update_boxes)

lemma scanCounts_boxes [frame_simps]: "ms_boxes (fst (scanCounts io s)) = ms_boxes s"
  using mailboxRoot_boxes [of io True s] by (auto simp: scanCounts_def split: prod.splits sum.splits)

lemma refuse_write_boxes [frame_simps]: "ms_boxes (fst (refuse_write io n key i t w s)) = ms_boxes s"
  by (simp add: refuse_write_def mail_log_boxes recordFailure_boxes)

lemma account_lost_boxes [frame_simps]: "ms_boxes (account_lost io n key is s) = ms_boxes s"
  by (induction "is" arbitrary: n s) (simp_all add: recordFailure_boxes)

lemma files_of_boxes:
  "ms_boxes s = ms_boxes t \<Longrightarrow> unread_files s = unread_files t"
  "ms_boxes s = ms_boxes t \<Longrightarrow> acked_files s = acked_files t"
  by (simp_all add: fun_eq_iff unread_files_def acked_files_def)

lemma box_files_Some [simp]: "box_files (Some fs) = fs"
  by (simp add: box_files_def)

lemma create_box_files [simp]:
  "unread_files (create_box key s) k = unread_files s k"
  "acked_files (create_box key s) k = acked_files s k"
  by (simp_all add: unread_files_def acked_files_def create_box_def fill_box_def split: option.splits)

lemma managerDirs_files:
  "unread_files (fst (managerDirs io key c s)) = unread_files s"
  "acked_files (fst (managerDirs io key c s)) = acked_files s"
proof -
  obtain s1 r where r: "mailboxRoot io c s = (s1, r)" by fastforce
  then have b: "ms_boxes s1 = ms_boxes s" using mailboxRoot_boxes [of io c s] by simp
  show "unread_files (fst (managerDirs io key c s)) = unread_files s"
    "acked_files (fst (managerDirs io key c s)) = acked_files s"
    using files_of_boxes [OF b]
    by (auto simp: managerDirs_def r Let_def fun_eq_iff split: sum.split)
qed

lemma set_unread_files:
  assumes "map_of (ms_boxes s) key = Some b"
  shows "unread_files (set_unread key fs s) = (unread_files s)(key := fs)"
    and "acked_files (set_unread key fs s) = acked_files s"
  using assms by (auto simp: fun_eq_iff unread_files_def acked_files_def set_unread_def update_box_def)

lemma set_acked_files:
  assumes "map_of (ms_boxes s) key = Some b"
  shows "acked_files (set_acked key fs s) = (acked_files s)(key := fs)"
    and "unread_files (set_acked key fs s) = unread_files s"
  using assms by (auto simp: fun_eq_iff unread_files_def acked_files_def set_acked_def update_box_def)

lemma set_keys:
  "fst ` set (ms_boxes (set_unread key fs s)) = fst ` set (ms_boxes s)"
  "fst ` set (ms_boxes (set_acked key fs s)) = fst ` set (ms_boxes s)"
  "distinct (map fst (ms_boxes (set_unread key fs s))) = distinct (map fst (ms_boxes s))"
  "distinct (map fst (ms_boxes (set_acked key fs s))) = distinct (map fst (ms_boxes s))"
  by (auto simp: set_unread_def set_acked_def update_box_def split: option.splits dest: map_of_SomeD
      intro: rev_image_eqI)

lemma managerDirs_box:
  "managerDirs io key c s = (s', Inr True) \<Longrightarrow> \<exists>b. map_of (ms_boxes s') key = Some b \<and> box_ok b"
  by (auto simp: managerDirs_def Let_def box_verdict_def split: sum.splits prod.splits if_splits option.splits)

lemma managerDirs_hex: "managerDirs io key c s = (s', Inr x) \<Longrightarrow> sha256_hex key"
  by (auto simp: managerDirs_def assertMailKey_def split: if_splits)

section \<open>Well-formed mailboxes\<close>

text \<open>Directories hold each name once.\<close>

definition wf_mail :: "mail_store \<Rightarrow> bool" where
  "wf_mail s \<longleftrightarrow> distinct (map fst (ms_boxes s))
     \<and> (\<forall>key. distinct (map fst (unread_files s key)) \<and> distinct (map fst (acked_files s key)))"

lemma wf_mail_boxes: "wf_mail s \<Longrightarrow> ms_boxes s' = ms_boxes s \<Longrightarrow> wf_mail s'"
  unfolding wf_mail_def by (metis files_of_boxes)

lemma create_box_wf: "wf_mail s \<Longrightarrow> wf_mail (create_box key s)"
  by (simp add: wf_mail_def) (simp add: create_box_def)

lemma managerDirs_wf [wf_intros]: "wf_mail s \<Longrightarrow> wf_mail (fst (managerDirs io key c s))"
proof -
  assume wf: "wf_mail s"
  obtain s1 r where r: "mailboxRoot io c s = (s1, r)" by fastforce
  then have "wf_mail s1" using wf wf_mail_boxes mailboxRoot_boxes [of io c s] by (metis fst_conv)
  then show ?thesis using wf by (auto simp: managerDirs_def r Let_def create_box_wf split: sum.split)
qed

lemma set_unread_wf [wf_intros]: "wf_mail s \<Longrightarrow> distinct (map fst fs) \<Longrightarrow> wf_mail (set_unread key fs s)"
  by (cases "map_of (ms_boxes s) key") (auto simp: wf_mail_def set_keys set_unread_files, simp_all add: set_unread_def update_box_def)

lemma set_acked_wf [wf_intros]: "wf_mail s \<Longrightarrow> distinct (map fst fs) \<Longrightarrow> wf_mail (set_acked key fs s)"
  by (cases "map_of (ms_boxes s) key") (auto simp: wf_mail_def set_keys set_acked_files, simp_all add: set_acked_def update_box_def)

section \<open>Counting\<close>

definition total_files :: "mail_store \<Rightarrow> nat" where
  "total_files s = sum_list (map (\<lambda>k. count_files (unread_files s k)) (counted_keys s))"

lemma counted_keys_boxes: "map fst (ms_boxes s) = map fst (ms_boxes t) \<Longrightarrow> counted_keys s = counted_keys t"
  by (simp add: counted_keys_def)

lemma distinct_counted_keys: "wf_mail s \<Longrightarrow> distinct (counted_keys s)"
  by (simp add: counted_keys_def wf_mail_def)

lemma scanCounts_result:
  assumes "scanCounts io s = (s1, Inr cs)"
  shows "cs = map (\<lambda>k. (k, count_files (unread_files s k), count_bytes (unread_files s k))) (counted_keys s)"
    and "ms_boxes s1 = ms_boxes s"
proof -
  obtain s0 r where r: "mailboxRoot io True s = (s0, r)" by fastforce
  then have b: "ms_boxes s0 = ms_boxes s" using mailboxRoot_boxes [of io True s] by simp
  have "s1 = s0" and cs: "cs = map (\<lambda>k. (k, count_files (unread_files s0 k), count_bytes (unread_files s0 k))) (counted_keys s0)"
    using assms by (auto simp: scanCounts_def r split: sum.splits if_splits)
  then show "ms_boxes s1 = ms_boxes s" using b by simp
  show "cs = map (\<lambda>k. (k, count_files (unread_files s k), count_bytes (unread_files s k))) (counted_keys s)"
    using cs files_of_boxes(1) [OF b] counted_keys_boxes [of s0 s] b by simp
qed

lemma map_of_keyed: "map_of (map (\<lambda>k. (k, f k)) ks) key = (if key \<in> set ks then Some (f key) else None)"
  by (induction ks) auto

lemma atCap_result:
  assumes "scanCounts io s = (s1, Inr cs)" and "atCap cs key add = Some full"
  shows "key \<in> set (counted_keys s)"
    and "full \<longleftrightarrow> count_files (unread_files s key) + 1 > MAILBOX_UNREAD_MAX_FILES
          \<or> count_bytes (unread_files s key) + add > MAILBOX_UNREAD_MAX_BYTES
          \<or> total_files s + 1 > MAILBOX_GLOBAL_UNREAD_MAX_FILES"
proof -
  have "global_count cs = total_files s"
    by (simp add: global_count_def total_files_def scanCounts_result(1) [OF assms(1)] comp_def)
  moreover have "map_of cs key = (if key \<in> set (counted_keys s)
      then Some (count_files (unread_files s key), count_bytes (unread_files s key)) else None)"
    by (simp add: scanCounts_result(1) [OF assms(1)] map_of_keyed)
  ultimately show "key \<in> set (counted_keys s)"
    "full \<longleftrightarrow> count_files (unread_files s key) + 1 > MAILBOX_UNREAD_MAX_FILES
          \<or> count_bytes (unread_files s key) + add > MAILBOX_UNREAD_MAX_BYTES
          \<or> total_files s + 1 > MAILBOX_GLOBAL_UNREAD_MAX_FILES"
    using assms(2) by (auto simp: atCap_def split: if_splits)
qed

lemma is_json_name_json_name [simp]: "is_json_name (json_name i)"
  by (simp add: is_json_name_def json_name_def)

lemma count_al_put:
  assumes "json_name i \<notin> fst ` set fs"
  shows "count_files (al_put (json_name i) f fs) = Suc (count_files fs)"
    and "count_bytes (al_put (json_name i) f fs) = count_bytes fs + mf_bytes f"
  using assms by (simp_all add: count_files_def count_bytes_def filter_al_put_absent)

section \<open>Outcomes of an event write\<close>

definition event_file :: "payload \<Rightarrow> mail_file" where
  "event_file p = \<lparr>mf_value = Some (pl_value p), mf_bytes = pl_bytes p, mf_trusted = True\<rparr>"

text \<open>What admission proved before the link: room in the box and in the whole.\<close>

definition has_room :: "mail_store \<Rightarrow> string \<Rightarrow> nat \<Rightarrow> bool" where
  "has_room s key add \<longleftrightarrow> count_files (unread_files s key) + 1 \<le> MAILBOX_UNREAD_MAX_FILES
     \<and> count_bytes (unread_files s key) + add \<le> MAILBOX_UNREAD_MAX_BYTES
     \<and> total_files s + 1 \<le> MAILBOX_GLOBAL_UNREAD_MAX_FILES"

lemma managerDirs_keys:
  assumes "key \<in> fst ` set (ms_boxes s)"
  shows "map fst (ms_boxes (fst (managerDirs io key c s))) = map fst (ms_boxes s)"
proof -
  obtain s1 r where r: "mailboxRoot io c s = (s1, r)" by fastforce
  then have "ms_boxes s1 = ms_boxes s" using mailboxRoot_boxes [of io c s] by simp
  then show ?thesis
    using assms by (auto simp: managerDirs_def r Let_def create_box_def map_fst_al_put_present split: sum.split)
qed

lemma update_box_keys: "map fst (ms_boxes (update_box key f s)) = map fst (ms_boxes s)"
  by (cases "map_of (ms_boxes s) key")
    (auto simp: update_box_def intro!: map_fst_al_put_present dest: map_of_SomeD intro: rev_image_eqI)

lemma writeEventFile_cases:
  assumes "writeEventFile io key i p s = (s', res)" and "map_of (ms_boxes s) key = Some b"
  obtains (none) "s' = s" "res \<noteq> Inr True" "res = Inr False \<Longrightarrow> json_name i \<in> fst ` set (unread_files s key)"
    | (put) "json_name i \<notin> fst ` set (unread_files s key)" "res \<noteq> Inr False"
        "unread_files s' = (unread_files s)(key := al_put (json_name i) (event_file p) (unread_files s key))"
        "acked_files s' = acked_files s" "map fst (ms_boxes s') = map fst (ms_boxes s)"
proof -
  let ?s = "set_unread key (al_put (json_name i) (event_file p) (unread_files s key)) s"
  have w: "writeEventFile io key i p s =
      (if mo_event io = NotCommitted then (s, Inl MailUnavailable)
       else if json_name i \<in> fst ` set (unread_files s key) then (s, Inr False)
       else (?s, if mo_event io = Committed then Inr True else Inl MailUnavailable))"
    by (simp add: writeEventFile_def event_file_def Let_def)
  show thesis
  proof (cases "mo_event io = NotCommitted \<or> json_name i \<in> fst ` set (unread_files s key)")
    case True
    then show thesis using assms(1) none unfolding w by (auto split: if_splits)
  next
    case False
    then have "s' = ?s" "res \<noteq> Inr False" using assms(1) unfolding w by (auto split: if_splits)
    then show thesis
      using False put set_unread_files [OF assms(2)] update_box_keys by (simp add: set_unread_def)
  qed
qed

text \<open>
  Every event write either leaves all files as they were or adds exactly its own file, in a box
  with room where no file of that name was.
\<close>

lemma refuse_write_result: "snd (refuse_write io n key i t w s) = Inr (NotPersisted i w t False)"
  by (simp add: refuse_write_def)

section \<open>Caps and no-clobber\<close>

definition within_caps :: "mail_store \<Rightarrow> bool" where
  "within_caps s \<longleftrightarrow> (\<forall>key. count_files (unread_files s key) \<le> MAILBOX_UNREAD_MAX_FILES
       \<and> count_bytes (unread_files s key) \<le> MAILBOX_UNREAD_MAX_BYTES)
     \<and> total_files s \<le> MAILBOX_GLOBAL_UNREAD_MAX_FILES"

lemma total_files_set:
  assumes "wf_mail s"
  shows "total_files s = (\<Sum>k \<in> {k \<in> fst ` set (ms_boxes s). sha256_hex k}. count_files (unread_files s k))"
proof -
  have "total_files s = (\<Sum>k \<in> set (counted_keys s). count_files (unread_files s k))"
    unfolding total_files_def by (rule sum_list_distinct_conv_sum_set [OF distinct_counted_keys [OF assms]])
  moreover have "set (counted_keys s) = {k \<in> fst ` set (ms_boxes s). sha256_hex k}"
    by (auto simp: counted_keys_def)
  ultimately show ?thesis by simp
qed

lemma count_files_Nil [simp]: "count_files [] = 0"
  by (simp add: count_files_def)

lemma unread_files_absent: "key \<notin> fst ` set (ms_boxes s) \<Longrightarrow> unread_files s key = []"
  by (simp add: unread_files_def map_of_eq_None_iff [THEN iffD2])

lemma total_files_create: "wf_mail s \<Longrightarrow> total_files (create_box key s) = total_files s"
proof -
  assume wf: "wf_mail s"
  let ?K = "{k \<in> fst ` set (ms_boxes s). sha256_hex k}" and ?f = "\<lambda>k. count_files (unread_files s k)"
  have k: "{k \<in> fst ` set (ms_boxes (create_box key s)). sha256_hex k} = (if sha256_hex key then insert key ?K else ?K)"
    by (auto simp: create_box_def simp del: image_eqI)
  have "sum ?f (insert key ?K) = sum ?f ?K" if "sha256_hex key"
    using that by (cases "key \<in> ?K") (auto simp: insert_absorb unread_files_absent)
  then show ?thesis
    unfolding total_files_set [OF wf] total_files_set [OF create_box_wf [OF wf]] k by simp
qed

lemma total_files_cong:
  "ms_boxes s = ms_boxes t \<Longrightarrow> total_files s = total_files t"
  by (simp add: total_files_def counted_keys_def files_of_boxes(1) [of s t])

lemma managerDirs_total: "wf_mail s \<Longrightarrow> total_files (fst (managerDirs io key c s)) = total_files s"
proof -
  assume wf: "wf_mail s"
  obtain s1 r where r: "mailboxRoot io c s = (s1, r)" by fastforce
  then have b: "ms_boxes s1 = ms_boxes s" using mailboxRoot_boxes [of io c s] by simp
  have "total_files (create_box key s1) = total_files s" "total_files s1 = total_files s"
    using total_files_create [OF wf_mail_boxes [OF wf b]] total_files_cong [OF b] by simp_all
  then show ?thesis by (simp add: managerDirs_def r Let_def split: sum.split)
qed

text \<open>Nothing but directories changed.\<close>

definition same_files :: "mail_store \<Rightarrow> mail_store \<Rightarrow> bool" where
  "same_files s s' \<longleftrightarrow> unread_files s' = unread_files s \<and> acked_files s' = acked_files s
     \<and> total_files s' = total_files s \<and> wf_mail s'"

lemma same_files_trans: "same_files s s1 \<Longrightarrow> same_files s1 s2 \<Longrightarrow> same_files s s2"
  by (simp add: same_files_def)

lemma same_files_boxes: "wf_mail s \<Longrightarrow> ms_boxes s' = ms_boxes s \<Longrightarrow> same_files s s'"
  using files_of_boxes [of s' s] total_files_cong [of s' s] wf_mail_boxes [of s s'] by (simp add: same_files_def)

lemma managerDirs_same: "wf_mail s \<Longrightarrow> same_files s (fst (managerDirs io key c s))"
  by (simp add: same_files_def managerDirs_files managerDirs_total managerDirs_wf)

lemma admission_same: "wf_mail s \<Longrightarrow> same_files s (fst (admission io key s))"
proof -
  assume wf: "wf_mail s"
  obtain s1 r where r: "mailboxRoot io True s = (s1, r)" by fastforce
  then have s1: "same_files s s1" using same_files_boxes [OF wf] mailboxRoot_boxes [of io True s] by simp
  obtain s2 q where q: "managerDirs io key True s1 = (s2, q)" by fastforce
  have "same_files s1 s2" using managerDirs_same [of s1 io key True] s1 q by (simp add: same_files_def)
  with s1 have "same_files s s2" by (rule same_files_trans)
  then show ?thesis using s1 r q by (auto simp: admission_def split: sum.split)
qed

lemma persistEvent_cases:
  assumes "persistEvent io n key i p hold s = (s', res)" and "wf_mail s"
  obtains (refused) "same_files s s'" "\<And>j. res \<noteq> Inr (Persisted j)"
    | (written) "has_room s key (pl_bytes p)" "key \<in> set (counted_keys s)"
      "json_name i \<notin> fst ` set (unread_files s key)"
      "unread_files s' = (unread_files s)(key := al_put (json_name i) (event_file p) (unread_files s key))"
      "acked_files s' = acked_files s" "map fst (ms_boxes s') = map fst (ms_boxes s)"
      "\<And>j. res = Inr (Persisted j) \<Longrightarrow> j = i"
proof -
  obtain s1 c where c: "scanCounts io s = (s1, c)" by fastforce
  have b1: "ms_boxes s1 = ms_boxes s" using scanCounts_boxes [of io s] c by simp
  note s1 = same_files_boxes [OF assms(2) b1]
  obtain s2 d where d: "managerDirs io key True s1 = (s2, d)" by fastforce
  have s2: "same_files s s2"
    using same_files_trans [OF s1] managerDirs_same [of s1 io key True] s1 d by (simp add: same_files_def)
  then have f2: "unread_files s2 = unread_files s" "acked_files s2 = acked_files s" "wf_mail s2"
    by (simp_all add: same_files_def)
  note sim = persistEvent_def Let_def c d
  show thesis
  proof (cases "\<exists>cs. c = Inr cs \<and> d = Inr True \<and> atCap cs key (pl_bytes p) = Some False")
    case True
    then obtain cs where cs: "c = Inr cs" "d = Inr True" "atCap cs key (pl_bytes p) = Some False" by blast
    note room = atCap_result [OF c [unfolded cs(1)] cs(3)]
    obtain b where b: "map_of (ms_boxes s2) key = Some b" using managerDirs_box [of io key True s1 s2] d cs(2) by auto
    have keys: "map fst (ms_boxes s2) = map fst (ms_boxes s)"
      using managerDirs_keys [of key s1 io True] room(1) b1 d by (simp add: counted_keys_def)
    obtain s3 w where w: "writeEventFile io key i p s2 = (s3, w)" by fastforce
    obtain s4 c4 where c4: "scanCounts io s3 = (s4, c4)" by fastforce
    have b4: "ms_boxes s4 = ms_boxes s3" using scanCounts_boxes [of io s3] c4 by simp
    have run: "(s', res) = (case w of Inl e \<Rightarrow> refuse_write io n key i (mo_now io (Suc n)) UnavailableRefused s3
        | Inr False \<Rightarrow> refuse_write io n key i (mo_now io (Suc n)) CollisionRefused s3
        | Inr True \<Rightarrow> (case c4 of Inl e \<Rightarrow> (s4, Inl e) | Inr cs' \<Rightarrow> (recordCapacity io n cs' s4, Inr (Persisted i))))"
      using assms(1) cs w c4 by (simp add: sim split: sum.split bool.split)
    have b': "ms_boxes s' = ms_boxes s3" and res: "\<And>j. res = Inr (Persisted j) \<Longrightarrow> j = i \<and> w = Inr True"
      using run b4 refuse_write_boxes [of io n key i _ _ s3] recordCapacity_boxes refuse_write_result [of io n key i]
      by (auto split: sum.splits bool.splits simp: prod_eq_iff)
    from w b show thesis
    proof (cases rule: writeEventFile_cases)
      case none
      have "same_files s s'" using same_files_trans [OF s2 same_files_boxes [OF f2(3)]] b' none(1) by simp
      then show thesis by (rule refused) (use none res in auto)
    next
      case put
      show thesis
        by (rule written) (use put room keys files_of_boxes [OF b'] f2 b' res in \<open>auto simp: has_room_def\<close>)
    qed
  next
    case False
    have "same_files s s' \<and> (\<forall>j. res \<noteq> Inr (Persisted j))"
    proof (cases "\<exists>cs. c = Inr cs \<and> d = Inr True \<and> atCap cs key (pl_bytes p) = Some True")
      case True
      then obtain cs where cs: "c = Inr cs" "d = Inr True" "atCap cs key (pl_bytes p) = Some True" by blast
      have "ms_boxes s' = ms_boxes s2 \<and> (\<forall>j. res \<noteq> Inr (Persisted j))"
        using assms(1) cs refuse_write_boxes recordFailure_boxes [of io n key "mo_now io (Suc n)" hold s2] refuse_write_result
        by (auto simp: sim mail_log_boxes prod_eq_iff split: option.splits prod.splits bool.splits)
      then show ?thesis using same_files_trans [OF s2 same_files_boxes [OF f2(3)]] by blast
    next
      case no: False
      have "(s' = s1 \<or> s' = s2) \<and> (\<forall>j. res \<noteq> Inr (Persisted j))"
        using assms(1) False no by (auto simp: sim split: sum.splits option.splits bool.splits if_splits)
      then show ?thesis using s1 s2 by auto
    qed
    then show thesis using refused by simp
  qed
qed

text \<open>An event write extends the files: nothing disappears, nothing is overwritten.\<close>

definition extends :: "mail_store \<Rightarrow> mail_store \<Rightarrow> bool" where
  "extends s s' \<longleftrightarrow> acked_files s' = acked_files s
     \<and> (\<forall>key. map_of (unread_files s key) \<subseteq>\<^sub>m map_of (unread_files s' key))"

definition sound_write :: "mail_store \<Rightarrow> mail_store \<Rightarrow> bool" where
  "sound_write s s' \<longleftrightarrow> extends s s' \<and> wf_mail s' \<and> (within_caps s \<longrightarrow> within_caps s')"

lemma same_files_sound: "same_files s s' \<Longrightarrow> sound_write s s'"
  by (simp add: same_files_def sound_write_def extends_def within_caps_def)

lemma extends_trans: "extends s s1 \<Longrightarrow> extends s1 s2 \<Longrightarrow> extends s s2"
  unfolding extends_def using map_le_trans by fastforce

lemma sound_write_trans: "sound_write s s1 \<Longrightarrow> sound_write s1 s2 \<Longrightarrow> sound_write s s2"
  unfolding sound_write_def using extends_trans by blast

lemma counts_after_write:
  assumes "wf_mail s" and "key \<in> set (counted_keys s)" and "json_name i \<notin> fst ` set (unread_files s key)"
    and "unread_files s' = (unread_files s)(key := al_put (json_name i) (event_file p) (unread_files s key))"
    and "map fst (ms_boxes s') = map fst (ms_boxes s)"
  shows "count_files (unread_files s' key) = count_files (unread_files s key) + 1"
    and "count_bytes (unread_files s' key) = count_bytes (unread_files s key) + pl_bytes p"
    and "total_files s' = total_files s + 1"
proof -
  show f: "count_files (unread_files s' key) = count_files (unread_files s key) + 1"
    and "count_bytes (unread_files s' key) = count_bytes (unread_files s key) + pl_bytes p"
    using count_al_put [OF assms(3), of "event_file p"] assms(4) by (simp_all add: event_file_def)
  have g: "(\<lambda>k. count_files (unread_files s' k)) = (\<lambda>k. count_files (unread_files s k))(key := count_files (unread_files s key) + 1)"
    using f assms(4) by auto
  have "counted_keys s' = counted_keys s" using counted_keys_boxes assms(5) by blast
  then show "total_files s' = total_files s + 1"
    unfolding total_files_def g
    using sum_list_fun_upd [OF distinct_counted_keys [OF assms(1)] assms(2), of "\<lambda>k. count_files (unread_files s k)"
        "count_files (unread_files s key) + 1"] by simp
qed

lemma map_le_fresh: "m k = None \<Longrightarrow> m \<subseteq>\<^sub>m m(k \<mapsto> v)"
  by (auto simp: map_le_def)

lemma persistEvent_sound:
  assumes "wf_mail s"
  shows "sound_write s (fst (persistEvent io n key i p hold s))"
proof -
  obtain s' res where r: "persistEvent io n key i p hold s = (s', res)" by fastforce
  from r assms have "sound_write s s'"
  proof (cases rule: persistEvent_cases)
    case refused
    then show ?thesis by (simp add: same_files_sound)
  next
    case written
    have "map_of (unread_files s k) \<subseteq>\<^sub>m map_of (unread_files s' k)" for k
      using written(3,4) map_le_fresh [of "map_of (unread_files s key)" "json_name i"]
      by (simp add: map_of_eq_None_iff)
    moreover have "wf_mail s'" using written(4-6) assms by (simp add: wf_mail_def)
    ultimately show ?thesis
      using written counts_after_write [OF assms written(2-4,6)]
      by (auto simp: sound_write_def extends_def within_caps_def has_room_def)
  qed
  with r show ?thesis by simp
qed

lemma admitted_sound:
  assumes "wf_mail s" and "\<And>x. wf_mail x \<Longrightarrow> sound_write x (fst (sec x))"
  shows "sound_write s (fst (admitted io key sec s))"
proof -
  obtain s1 r where r: "admission io key s = (s1, r)" by fastforce
  then have s1: "same_files s s1" using admission_same [OF assms(1), of io key] by simp
  then have "sound_write s1 (fst (sec s1))" by (intro assms(2)) (simp add: same_files_def)
  then show ?thesis
    using sound_write_trans [OF same_files_sound [OF s1]] same_files_sound [OF s1]
    by (simp add: admitted_def r split: sum.split)
qed

lemma sound_write_refl: "wf_mail s \<Longrightarrow> sound_write s s"
  by (simp add: same_files_sound same_files_boxes)

lemma writes_sound:
  assumes "wf_mail s"
  shows "sound_write s (fst (writeRunEvent am owner io uuid i s))"
    and "sound_write s (fst (writeGapEvent am io n uuid' key g s))"
proof -
  have p: "sound_write s (fst (admitted io k (persistEvent io m k j p hold) s))" for k m j p hold
    by (rule admitted_sound [OF assms persistEvent_sound])
  show "sound_write s (fst (writeRunEvent am owner io uuid i s))"
    and "sound_write s (fst (writeGapEvent am io n uuid' key g s))"
    using p sound_write_refl [OF assms]
    by (auto simp: writeRunEvent_def writeGapEvent_def split: sum.split prod.split)
qed

lemma retry_gap_sound: "wf_mail s \<Longrightarrow> sound_write s (retry_gap am io n uuid key held s)"
proof -
  assume wf: "wf_mail s"
  have same: "ms_boxes x = ms_boxes s1 \<Longrightarrow> sound_write s s1 \<Longrightarrow> sound_write s x" for x s1
    using sound_write_trans same_files_sound same_files_boxes unfolding sound_write_def by metis
  have b: "ms_boxes (clearPendingGap io m key s1) = ms_boxes s1" "ms_boxes (mail_log l s1) = ms_boxes s1" for m l s1
    by (simp_all add: clearPendingGap_boxes mail_log_boxes)
  have w: "sound_write s s1" if "writeGapEvent am io n uuid key g s = (s1, r)" for g s1 r
    using writes_sound(2) [OF wf, of am io n uuid key g] that by simp
  show ?thesis
    using sound_write_refl [OF wf] same [OF b(1)] same [OF b(2)] w
    by (auto simp: retry_gap_def Let_def split: option.split sum.split prod.split write_result.split)
qed

lemma retry_gaps_sound: "wf_mail s \<Longrightarrow> sound_write s (retry_gaps am io n uuid kvs s)"
proof (induction kvs arbitrary: n s)
  case (Cons kv kvs)
  have "sound_write s (retry_gap am io n (uuid n) (fst kv) (snd kv) s)" by (rule retry_gap_sound [OF Cons.prems])
  with Cons.IH show ?case using sound_write_trans by (auto simp: sound_write_def)
qed (simp add: sound_write_refl)

section \<open>Healthy stores and calm runs\<close>

definition healthy :: "mail_store \<Rightarrow> bool" where
  "healthy s \<longleftrightarrow> ms_namespace s \<and> ms_root s = Some True
     \<and> (\<forall>k b. sha256_hex k \<longrightarrow> map_of (ms_boxes s) k = Some b \<longrightarrow> box_ok b)"

definition has_box :: "mail_store \<Rightarrow> string \<Rightarrow> bool" where
  "has_box s key \<longleftrightarrow> sha256_hex key \<and> map_of (ms_boxes s) key \<noteq> None"

definition calm :: "mail_io \<Rightarrow> bool" where
  "calm io \<longleftrightarrow> mo_dirs io \<and> mo_lock io \<and> mo_event io = Committed \<and> (\<forall>n. mo_status io n = Committed)
     \<and> (\<forall>i. mo_move io i = Committed)"

lemma al_put_same: "map_of xs k = Some v \<Longrightarrow> al_put k v xs = xs"
  by (induction k v xs rule: al_put.induct) (auto split: if_splits)

lemma fill_box_ok: "box_ok b \<Longrightarrow> fill_box b = b"
  by (cases b) (auto simp: box_ok_def fill_box_def box_files_def)

lemma managerDirs_healthy:
  "healthy s \<Longrightarrow> has_box s key \<Longrightarrow> mo_dirs io \<Longrightarrow> managerDirs io key c s = (s, Inr True)"
  by (auto simp: managerDirs_def assertMailKey_def mailboxRoot_def healthy_def has_box_def create_box_def box_verdict_def
      al_put_same fill_box_ok Let_def)

lemma admission_healthy:
  "healthy s \<Longrightarrow> has_box s key \<Longrightarrow> mo_dirs io \<Longrightarrow> mo_lock io \<Longrightarrow> admission io key s = (s, Inr ())"
  using managerDirs_healthy [of s key io True] by (simp add: admission_def mailboxRoot_def healthy_def)

lemma scanCounts_healthy:
  assumes "healthy s" and "mo_dirs io"
  shows "scanCounts io s =
    (s, Inr (map (\<lambda>k. (k, count_files (unread_files s k), count_bytes (unread_files s k))) (counted_keys s)))"
proof -
  have "box_verdict k s = Inr True" if "k \<in> set (counted_keys s)" for k
  proof -
    have "sha256_hex k" "k \<in> fst ` set (ms_boxes s)" using that by (auto simp: counted_keys_def)
    then obtain b where "map_of (ms_boxes s) k = Some b" by (cases "map_of (ms_boxes s) k") (auto simp: map_of_eq_None_iff)
    then show ?thesis using assms(1) \<open>sha256_hex k\<close> by (auto simp: box_verdict_def healthy_def)
  qed
  then show ?thesis using assms by (simp add: scanCounts_def mailboxRoot_def healthy_def list_all_iff)
qed

lemma atCap_healthy:
  assumes "healthy s" and "has_box s key"
  shows "atCap (map (\<lambda>k. (k, count_files (unread_files s k), count_bytes (unread_files s k))) (counted_keys s)) key add
    = Some (\<not> has_room s key add)"
proof -
  have "key \<in> set (counted_keys s)" using assms(2)
    by (cases "map_of (ms_boxes s) key") (auto simp: has_box_def counted_keys_def dest!: map_of_SomeD intro: rev_image_eqI)
  then show ?thesis
    by (auto simp: atCap_def map_of_keyed has_room_def global_count_def total_files_def comp_def)
qed

lemma update_box_lookup:
  "map_of (ms_boxes (update_box key f s)) = (case map_of (ms_boxes s) key of None \<Rightarrow> map_of (ms_boxes s)
     | Some b \<Rightarrow> (map_of (ms_boxes s))(key \<mapsto> f b))"
  by (simp add: update_box_def split: option.split)

lemma update_box_healthy:
  assumes "healthy s" and "\<And>b. box_ok b \<Longrightarrow> box_ok (f b)"
  shows "healthy (update_box key f s)"
proof -
  have "ms_namespace (update_box key f s) = ms_namespace s" "ms_root (update_box key f s) = ms_root s"
    by (simp_all add: update_box_def split: option.split)
  then show ?thesis
    using assms by (auto simp: healthy_def update_box_lookup split: option.splits if_splits)
qed

lemma set_files_healthy:
  "healthy s \<Longrightarrow> healthy (set_unread key fs s)" "healthy s \<Longrightarrow> healthy (set_acked key fs s)"
  "has_box (set_unread key fs s) k = has_box s k" "has_box (set_acked key fs s) k = has_box s k"
  by (auto simp: set_unread_def set_acked_def box_ok_def has_box_def update_box_lookup intro!: update_box_healthy split: option.splits)

lemma healthy_cong:
  "ms_boxes s' = ms_boxes s \<Longrightarrow> ms_namespace s' = ms_namespace s \<Longrightarrow> ms_root s' = ms_root s \<Longrightarrow> healthy s' = healthy s"
  "ms_boxes s' = ms_boxes s \<Longrightarrow> has_box s' k = has_box s k"
  by (simp_all add: healthy_def has_box_def)

lemma status_update_healthy:
  "healthy (fst (status_update io n w p s)) = healthy s" "has_box (fst (status_update io n w p s)) k = has_box s k"
  by (auto simp: status_update_def status_write_def mail_log_def healthy_def has_box_def split: commit_outcome.splits)

section \<open>Accounting\<close>

lemma is_record_obj: "is_record v \<longleftrightarrow> (\<exists>kvs. v = JObj kvs)"
  by (cases v) simp_all

lemma is_record_as_record [simp]: "is_record (as_record v)"
  by (simp add: as_record_def)

lemma as_record_id [simp]: "is_record v \<Longrightarrow> as_record v = v"
  by (simp add: as_record_def)

lemma is_record_status_read [simp]: "is_record (status_read s)"
  by (simp add: status_read_def split: option.split)

lemma status_read_write:
  "status_read (status_write [(k1, v1)] s) = jput k1 v1 (status_read s)"
  "status_read (status_write [(k1, v1), (k2, v2)] s) = jput k2 v2 (jput k1 v1 (status_read s))"
  by (simp_all add: status_read_def status_write_def)

definition loss_count :: "mail_store \<Rightarrow> string \<Rightarrow> rat" where
  "loss_count s key =
     (case jget ''count'' (jget key (as_record (jget ''unpersisted'' (status_read s)))) of JNum q \<Rightarrow> q | _ \<Rightarrow> 0)"

definition held_gap :: "mail_store \<Rightarrow> string \<Rightarrow> jsval" where
  "held_gap s key = jget key (as_record (jget ''pendingGap'' (status_read s)))"

lemma recordFailure_committed:
  assumes "mo_status io n = Committed" and "recordFailure io n key t hold s = (s', h)"
  shows "h = (hold \<noteq> None)"
    and "loss_count s' k = loss_count s k + (if k = key \<and> hold = None then 1 else 0)"
    and "held_gap s' k = (case hold of Some g \<Rightarrow> if k = key then gap_event_json g else held_gap s k | None \<Rightarrow> held_gap s k)"
    and "jget ''capacity'' (status_read s') = JStr ''degraded''"
  using assms
  by (cases hold; auto simp: recordFailure_def Let_def status_update_def status_read_write jget_jput loss_count_def
      held_gap_def next_account_def)+

section \<open>Retention\<close>

lemma pruned_distinct: "distinct (map fst fs) \<Longrightarrow> distinct (map fst (pruned fs))"
  by (simp add: pruned_def Let_def distinct_map_filter_ne)

definition json_names :: "mail_files \<Rightarrow> string list" where
  "json_names fs = filter is_json_name (map fst fs)"

definition pruned_names :: "mail_files \<Rightarrow> string list" where
  "pruned_names fs = take (length (json_names fs) - MAILBOX_ACKED_RETAINED_FILES) (sort (json_names fs))"

lemma pruned_eq: "pruned fs = filter (\<lambda>f. fst f \<notin> set (pruned_names fs)) fs"
  by (simp add: pruned_def pruned_names_def json_names_def Let_def)

lemma count_json_names: "count_files fs = length (json_names fs)"
  by (simp add: count_files_def json_names_def filter_map comp_def)

text \<open>The sorted names split into what is pruned and what stays, oldest first.\<close>

lemma sorted_take_drop_le: "sorted xs \<Longrightarrow> x \<in> set (take n xs) \<Longrightarrow> y \<in> set (drop n xs) \<Longrightarrow> x \<le> y"
  by (metis append_take_drop_id sorted_append)

lemma json_names_pruned:
  assumes "distinct (map fst fs)"
  shows "set (json_names (pruned fs)) = set (drop (length (json_names fs) - MAILBOX_ACKED_RETAINED_FILES) (sort (json_names fs)))"
    and "count_files (pruned fs) = min (count_files fs) MAILBOX_ACKED_RETAINED_FILES"
proof -
  let ?n = "length (json_names fs) - MAILBOX_ACKED_RETAINED_FILES" and ?l = "sort (json_names fs)"
  have d: "distinct ?l" using assms by (simp add: json_names_def)
  have "set ?l = set (take ?n ?l) \<union> set (drop ?n ?l)" by (metis append_take_drop_id set_append)
  moreover have "set (take ?n ?l) \<inter> set (drop ?n ?l) = {}" using d by (rule set_take_disj_set_drop_if_distinct) simp
  moreover have "set (json_names (pruned fs)) = set ?l - set (take ?n ?l)"
    by (auto simp: json_names_def pruned_eq pruned_names_def)
  ultimately show e: "set (json_names (pruned fs)) = set (drop ?n ?l)" by blast
  have "distinct (json_names (pruned fs))" using pruned_distinct [OF assms] by (simp add: json_names_def)
  then have "count_files (pruned fs) = card (set (drop ?n ?l))"
    using distinct_card [of "json_names (pruned fs)"] e by (simp add: count_json_names)
  also have "\<dots> = length (drop ?n ?l)" using distinct_card [OF distinct_drop [OF d]] by simp
  finally show "count_files (pruned fs) = min (count_files fs) MAILBOX_ACKED_RETAINED_FILES"
    by (simp add: count_json_names)
qed

lemma pruned_oldest:
  assumes "distinct (map fst fs)" and "g \<in> set (pruned_names fs)" and "k \<in> set (json_names (pruned fs))"
  shows "g < k"
proof -
  have "g \<le> k"
    using sorted_take_drop_le [of "sort (json_names fs)" g _ k] assms(2,3)
    unfolding pruned_names_def json_names_pruned(1) [OF assms(1)] by simp
  moreover have "g \<noteq> k" using assms(2,3) by (auto simp: pruned_eq json_names_def)
  ultimately show ?thesis by simp
qed

lemma pruned_names_json: "g \<in> set (pruned_names fs) \<Longrightarrow> g \<in> set (json_names fs)"
  unfolding pruned_names_def by (metis in_set_takeD set_sort)

lemma pruned_lookup:
  assumes "distinct (map fst fs)"
  shows "map_of (pruned fs) nm = map_of fs nm
       \<or> (map_of (pruned fs) nm = None \<and> nm \<in> set (json_names fs) \<and> (\<forall>k \<in> set (json_names (pruned fs)). nm < k))"
proof (cases "nm \<in> set (pruned_names fs)")
  case True
  then have "map_of (pruned fs) nm = None" unfolding pruned_eq by (simp add: map_of_filter_keys)
  with True pruned_names_json pruned_oldest [OF assms] show ?thesis by blast
next
  case False
  then show ?thesis unfolding pruned_eq by (simp add: map_of_filter_keys)
qed

section \<open>Acknowledgement\<close>

definition acked_store :: "string \<Rightarrow> string \<Rightarrow> mail_file \<Rightarrow> mail_store \<Rightarrow> mail_store" where
  "acked_store key i f s = (let r = set_unread key (al_del (json_name i) (unread_files s key))
       (set_acked key (al_put (json_name i) f (acked_files s key)) s)
     in set_acked key (pruned (acked_files r key)) r)"

lemma has_box_lookup: "has_box s key \<Longrightarrow> \<exists>b. map_of (ms_boxes s) key = Some b"
  by (auto simp: has_box_def)

lemma acked_store_files:
  assumes "has_box s key"
  shows "unread_files (acked_store key i f s) = (unread_files s)(key := al_del (json_name i) (unread_files s key))"
    and "acked_files (acked_store key i f s)
       = (acked_files s)(key := pruned (al_put (json_name i) f (acked_files s key)))"
    and "healthy s \<Longrightarrow> healthy (acked_store key i f s)"
    and "has_box (acked_store key i f s) k = has_box s k"
proof -
  let ?a = "set_acked key (al_put (json_name i) f (acked_files s key)) s"
  let ?r = "set_unread key (al_del (json_name i) (unread_files s key)) ?a"
  obtain b where b: "map_of (ms_boxes s) key = Some b" using has_box_lookup [OF assms] by blast
  obtain c where c: "map_of (ms_boxes ?a) key = Some c" using has_box_lookup assms set_files_healthy(4) by metis
  obtain d where d: "map_of (ms_boxes ?r) key = Some d" using has_box_lookup assms set_files_healthy(3,4) by metis
  note fs = set_acked_files [OF b] set_unread_files [OF c] set_acked_files [OF d]
  show "unread_files (acked_store key i f s) = (unread_files s)(key := al_del (json_name i) (unread_files s key))"
    and "acked_files (acked_store key i f s) = (acked_files s)(key := pruned (al_put (json_name i) f (acked_files s key)))"
    by (simp_all add: acked_store_def Let_def fs)
  show "healthy s \<Longrightarrow> healthy (acked_store key i f s)" "has_box (acked_store key i f s) k = has_box s k"
    by (simp_all add: acked_store_def Let_def set_files_healthy)
qed

lemma ack_event_healthy:
  assumes "healthy s" and "has_box s key" and "calm io" and "event_id_shape i"
  shows "ack_event io key i s =
    (case map_of (unread_files s key) (json_name i) of
       None \<Rightarrow> (s, if json_name i \<in> fst ` set (acked_files s key) then Inr AlreadyAcked else Inl MailNotFound)
     | Some f \<Rightarrow>
         (recordCapacity io 0 (map (\<lambda>k. (k, count_files (unread_files (acked_store key i f s) k),
              count_bytes (unread_files (acked_store key i f s) k))) (counted_keys (acked_store key i f s)))
            (acked_store key i f s), Inr Acked))"
proof -
  have io: "mo_dirs io" "mo_lock io" "mo_move io i = Committed" using assms(3) by (simp_all add: calm_def)
  show ?thesis
    using scanCounts_healthy [OF acked_store_files(3) [OF assms(2,1)] io(1)]
    by (simp add: ack_event_def assertEventId_def assms(4) admitted_def admission_healthy [OF assms(1,2) io(1,2)]
        managerDirs_healthy [OF assms(1,2) io(1)] io acked_store_def Let_def split: option.split)
qed

lemma recordCapacity_healthy:
  "healthy (recordCapacity io n cs s) = healthy s" "has_box (recordCapacity io n cs s) k = has_box s k"
  by (simp_all add: recordCapacity_def status_update_healthy)

section \<open>The move\<close>

definition move_one :: "string \<Rightarrow> string \<Rightarrow> string \<Rightarrow> mail_file \<Rightarrow> mail_store \<Rightarrow> mail_store" where
  "move_one src dst i f s = set_unread src (al_del (json_name i) (unread_files s src))
     (set_unread dst (al_put (json_name i) f (unread_files s dst)) s)"

lemma move_one_files:
  assumes "src \<noteq> dst" and "has_box s src" and "has_box s dst"
  shows "unread_files (move_one src dst i f s) src = al_del (json_name i) (unread_files s src)"
    and "unread_files (move_one src dst i f s) dst = al_put (json_name i) f (unread_files s dst)"
    and "k \<noteq> src \<Longrightarrow> k \<noteq> dst \<Longrightarrow> unread_files (move_one src dst i f s) k = unread_files s k"
    and "acked_files (move_one src dst i f s) = acked_files s"
    and "has_box (move_one src dst i f s) k = has_box s k"
    and "healthy s \<Longrightarrow> healthy (move_one src dst i f s)"
proof -
  let ?a = "set_unread dst (al_put (json_name i) f (unread_files s dst)) s"
  obtain b where b: "map_of (ms_boxes s) dst = Some b" using has_box_lookup [OF assms(3)] by blast
  obtain b' where b': "map_of (ms_boxes ?a) src = Some b'"
    using has_box_lookup assms(2) set_files_healthy(3) by metis
  note u = set_unread_files [OF b] set_unread_files [OF b']
  show "unread_files (move_one src dst i f s) src = al_del (json_name i) (unread_files s src)"
    and "unread_files (move_one src dst i f s) dst = al_put (json_name i) f (unread_files s dst)"
    and "k \<noteq> src \<Longrightarrow> k \<noteq> dst \<Longrightarrow> unread_files (move_one src dst i f s) k = unread_files s k"
    and "acked_files (move_one src dst i f s) = acked_files s"
    using assms(1) u by (simp_all add: move_one_def)
  show "has_box (move_one src dst i f s) k = has_box s k" "healthy s \<Longrightarrow> healthy (move_one src dst i f s)"
    by (simp_all add: move_one_def set_files_healthy)
qed

lemma move_loop_Some:
  assumes "map_of (unread_files s src) (json_name i) = Some f" and "move_loop io src dst (i # is) out s = (s', Inr res)"
  shows "move_loop io src dst is (out\<lparr>mv_moved := mv_moved out @ [i]\<rparr>) (move_one src dst i f s) = (s', Inr res)"
  using assms by (auto simp: Let_def move_one_def split: commit_outcome.splits)

lemma json_name_inj [simp]: "json_name i = json_name j \<longleftrightarrow> i = j"
  by (simp add: json_name_def)

lemma move_loop_frame:
  assumes "src \<noteq> dst"
  shows "move_loop io src dst is out s = (s', Inr res) \<Longrightarrow> has_box s src \<Longrightarrow> has_box s dst \<Longrightarrow>
     acked_files s' = acked_files s \<and> (\<forall>k. k \<noteq> src \<longrightarrow> k \<noteq> dst \<longrightarrow> unread_files s' k = unread_files s k)
     \<and> (healthy s \<longrightarrow> healthy s') \<and> (\<forall>k. has_box s' k = has_box s k)"
proof (induction "is" arbitrary: out s)
  case (Cons i "is")
  show ?case
  proof (cases "map_of (unread_files s src) (json_name i)")
    case None
    then show ?thesis using Cons by auto
  next
    case (Some f)
    from Cons.IH [OF move_loop_Some [OF Some Cons.prems(1)]] Cons.prems(2,3)
    show ?thesis by (simp add: move_one_files [OF assms Cons.prems(2,3)])
  qed
qed simp

text \<open>Where a file of the source or the destination is after a completed move.\<close>

lemma move_loop_source:
  assumes "src \<noteq> dst"
  shows "move_loop io src dst is out s = (s', Inr res) \<Longrightarrow> has_box s src \<Longrightarrow> has_box s dst \<Longrightarrow>
     map_of (unread_files s' src) n = (if n \<in> json_name ` set is then None else map_of (unread_files s src) n)"
proof (induction "is" arbitrary: out s)
  case (Cons i "is")
  show ?case
  proof (cases "map_of (unread_files s src) (json_name i)")
    case None
    then have "map_of (unread_files s' src) n = (if n \<in> json_name ` set is then None else map_of (unread_files s src) n)"
      using Cons.IH Cons.prems by simp
    with None show ?thesis by auto
  next
    case (Some f)
    from Cons.IH [OF move_loop_Some [OF Some Cons.prems(1)]] Cons.prems(2,3)
    show ?thesis by (simp add: move_one_files [OF assms Cons.prems(2,3)])
  qed
qed simp

lemma move_loop_dest:
  assumes "src \<noteq> dst"
  shows "move_loop io src dst is out s = (s', Inr res) \<Longrightarrow> has_box s src \<Longrightarrow> has_box s dst \<Longrightarrow>
     map_of (unread_files s' dst) n =
       (if n \<in> json_name ` set is \<and> map_of (unread_files s src) n \<noteq> None then map_of (unread_files s src) n
        else map_of (unread_files s dst) n)"
proof (induction "is" arbitrary: out s)
  case (Cons i "is")
  show ?case
  proof (cases "map_of (unread_files s src) (json_name i)")
    case None
    then have "map_of (unread_files s' dst) n =
       (if n \<in> json_name ` set is \<and> map_of (unread_files s src) n \<noteq> None then map_of (unread_files s src) n
        else map_of (unread_files s dst) n)"
      using Cons.IH Cons.prems by simp
    with None show ?thesis by auto
  next
    case (Some f)
    from Cons.IH [OF move_loop_Some [OF Some Cons.prems(1)]] Cons.prems(2,3) Some
    show ?thesis by (auto simp: move_one_files [OF assms Cons.prems(2,3)])
  qed
qed simp

text \<open>Every listed event is reported exactly once, as moved, already there, or lost.\<close>

lemma move_loop_outcome:
  assumes "src \<noteq> dst"
  shows "move_loop io src dst is out s = (s', Inr res) \<Longrightarrow> has_box s src \<Longrightarrow> has_box s dst \<Longrightarrow> distinct is \<Longrightarrow>
     mv_moved res = mv_moved out @ filter (\<lambda>i. map_of (unread_files s src) (json_name i) \<noteq> None) is
   \<and> mv_already res = mv_already out @ filter (\<lambda>i. map_of (unread_files s src) (json_name i) = None
        \<and> map_of (unread_files s dst) (json_name i) \<noteq> None) is
   \<and> mv_lost res = mv_lost out @ filter (\<lambda>i. map_of (unread_files s src) (json_name i) = None
        \<and> map_of (unread_files s dst) (json_name i) = None) is"
proof (induction "is" arbitrary: out s)
  case (Cons i "is")
  show ?case
  proof (cases "map_of (unread_files s src) (json_name i)")
    case None
    show ?thesis
    proof (cases "map_of (unread_files s dst) (json_name i)")
      case none: None
      then have "json_name i \<notin> fst ` set (unread_files s dst)" by (simp add: map_of_eq_None_iff)
      with Cons.prems(1) None have run: "move_loop io src dst is (out\<lparr>mv_lost := mv_lost out @ [i]\<rparr>) s = (s', Inr res)" by simp
      from Cons.IH [OF run Cons.prems(2,3)] Cons.prems(4) None none show ?thesis by simp
    next
      case (Some g)
      then have "json_name i \<in> fst ` set (unread_files s dst)" by (metis map_of_eq_None_iff option.distinct(1))
      with Cons.prems(1) None have run: "move_loop io src dst is (out\<lparr>mv_already := mv_already out @ [i]\<rparr>) s = (s', Inr res)" by simp
      from Cons.IH [OF run Cons.prems(2,3)] Cons.prems(4) None Some show ?thesis by simp
    qed
  next
    case (Some f)
    have ne: "j \<noteq> i" if "j \<in> set is" for j using that Cons.prems(4) by auto
    note IH = Cons.IH [OF move_loop_Some [OF Some Cons.prems(1)]]
    from IH Cons.prems(2-4) Some ne show ?thesis
      by (simp add: move_one_files [OF assms Cons.prems(2,3)] cong: filter_cong)
  qed
qed simp

lemma account_lost_count:
  assumes "\<And>n. mo_status io n = Committed"
  shows "loss_count (account_lost io n key is s) k = loss_count s k + (if k = key then of_nat (length is) else 0)"
proof (induction "is" arbitrary: n s)
  case (Cons i "is")
  obtain s1 h where r: "recordFailure io n key (mo_now io n) None s = (s1, h)" by fastforce
  from recordFailure_committed(2) [OF assms r, of k] Cons show ?case by (simp add: r)
qed simp

lemma recordCapacity_accounts:
  "mo_status io n = Committed \<Longrightarrow> loss_count (recordCapacity io n cs s) k = loss_count s k"
  "mo_status io n = Committed \<Longrightarrow> held_gap (recordCapacity io n cs s) k = held_gap s k"
  by (simp_all add: recordCapacity_def status_update_def status_read_write jget_jput loss_count_def held_gap_def)

lemma same_boxes_accounts:
  "status_read s' = status_read s \<Longrightarrow> loss_count s' k = loss_count s k"
  by (simp add: loss_count_def)

lemma set_files_status: "ms_status (set_unread key fs s) = ms_status s" "ms_status (set_acked key fs s) = ms_status s"
  by (simp_all add: set_unread_def set_acked_def update_box_def split: option.split)

lemma move_loop_status: "move_loop io src dst is out s = (s', res) \<Longrightarrow> ms_status s' = ms_status s"
proof (induction "is" arbitrary: out s)
  case (Cons i "is")
  then show ?case
    by (auto simp: Let_def set_files_status split: option.splits commit_outcome.splits)
qed simp

lemma account_lost_healthy:
  "healthy (account_lost io n key is s) = healthy s" "has_box (account_lost io n key is s) k = has_box s k"
proof (induction "is" arbitrary: n s)
  case (Cons i "is")
  {
    case 1
    show ?case using Cons(1) by (simp add: recordFailure_def Let_def status_update_healthy)
  next
    case 2
    show ?case using Cons(2) by (simp add: recordFailure_def Let_def status_update_healthy)
  }
qed simp_all

text \<open>The store after a completed move, before the capacity patch.\<close>

lemma moveUnreadLocked_run:
  assumes "healthy s" and "has_box s src" and "has_box s dst" and "calm io" and "src \<noteq> dst"
    and "moveUnreadLocked io src dst is s = (s', Inr out)"
  obtains s3 cs where "move_loop io src dst is \<lparr>mv_moved = [], mv_already = [], mv_lost = []\<rparr> s = (s3, Inr out)"
    "s' = recordCapacity io (length (mv_lost out)) cs (account_lost io 0 src (mv_lost out) s3)"
proof -
  have io: "mo_dirs io" using assms(4) by (simp add: calm_def)
  note m = managerDirs_healthy [OF assms(1,2) io] managerDirs_healthy [OF assms(1,3) io]
  obtain s3 r where r: "move_loop io src dst is \<lparr>mv_moved = [], mv_already = [], mv_lost = []\<rparr> s = (s3, r)" by fastforce
  obtain out' where o: "r = Inr out'" using assms(6) by (cases r) (simp_all add: moveUnreadLocked_def m r)
  let ?s4 = "account_lost io 0 src (mv_lost out') s3"
  have "healthy ?s4"
    using move_loop_frame [OF assms(5) r [unfolded o] assms(2,3)] assms(1) by (simp add: account_lost_healthy)
  from scanCounts_healthy [OF this io] show thesis
    using assms(6) that r o by (auto simp: moveUnreadLocked_def m Let_def)
qed

section \<open>The four outcomes of a fault-free write\<close>

lemma refuse_write_accounts:
  assumes "mo_status io n = Committed"
  shows "loss_count (fst (refuse_write io n key i t w s)) key = loss_count s key + 1"
    and "unread_files (fst (refuse_write io n key i t w s)) = unread_files s"
proof -
  obtain sf h where f: "recordFailure io n key t None s = (sf, h)" by fastforce
  show "loss_count (fst (refuse_write io n key i t w s)) key = loss_count s key + 1"
    using recordFailure_committed(2) [OF assms f, of key]
    by (simp add: refuse_write_def f loss_count_def mail_log_def status_read_def)
  show "unread_files (fst (refuse_write io n key i t w s)) = unread_files s"
    by (rule files_of_boxes(1) [OF refuse_write_boxes])
qed

lemma persist_with_room:
  assumes "healthy s" and "has_box s key" and "calm io" and "has_room s key (pl_bytes p)"
  shows "json_name i \<in> fst ` set (unread_files s key) \<Longrightarrow>
      persistEvent io n key i p hold s = refuse_write io n key i (mo_now io (Suc n)) CollisionRefused s"
    and "json_name i \<notin> fst ` set (unread_files s key) \<Longrightarrow>
      \<exists>cs. persistEvent io n key i p hold s = (recordCapacity io n cs
        (set_unread key (al_put (json_name i) (event_file p) (unread_files s key)) s), Inr (Persisted i))"
proof -
  have io: "mo_dirs io" "mo_event io = Committed" using assms(3) by (simp_all add: calm_def)
  note m = managerDirs_healthy [OF assms(1,2) io(1)] scanCounts_healthy [OF assms(1) io(1)] atCap_healthy [OF assms(1,2)]
  show "persistEvent io n key i p hold s = refuse_write io n key i (mo_now io (Suc n)) CollisionRefused s"
    if "json_name i \<in> fst ` set (unread_files s key)"
    using that io assms(4) by (simp add: persistEvent_def m writeEventFile_def Let_def)
  assume free: "json_name i \<notin> fst ` set (unread_files s key)"
  let ?s3 = "set_unread key (al_put (json_name i) (event_file p) (unread_files s key)) s"
  have w: "writeEventFile io key i p s = (?s3, Inr True)"
    using io free by (simp add: writeEventFile_def event_file_def Let_def)
  have "healthy ?s3" by (simp add: set_files_healthy assms(1))
  from scanCounts_healthy [OF this io(1)]
  show "\<exists>cs. persistEvent io n key i p hold s = (recordCapacity io n cs ?s3, Inr (Persisted i))"
    using assms(4) by (simp add: persistEvent_def m w Let_def) blast
qed

lemma persist_without_room:
  assumes "healthy s" and "has_box s key" and "calm io" and "\<not> has_room s key (pl_bytes p)"
  shows "persistEvent io n key i p None s = refuse_write io n key i (mo_now io (Suc n)) CapacityRefused s"
    and "persistEvent io n key i p (Some g) s = (s', res) \<Longrightarrow>
      res = Inr (NotPersisted i CapacityRefused (mo_now io (Suc n)) True) \<and> held_gap s' key = gap_event_json g
      \<and> loss_count s' key = loss_count s key \<and> ms_boxes s' = ms_boxes s \<and> healthy s'"
proof -
  have io: "mo_dirs io" "mo_status io n = Committed" using assms(3) by (simp_all add: calm_def)
  note m = managerDirs_healthy [OF assms(1,2) io(1)] scanCounts_healthy [OF assms(1) io(1)] atCap_healthy [OF assms(1,2)]
  show "persistEvent io n key i p None s = refuse_write io n key i (mo_now io (Suc n)) CapacityRefused s"
    using assms(4) by (simp add: persistEvent_def m Let_def)
  assume run: "persistEvent io n key i p (Some g) s = (s', res)"
  obtain sg h where g: "recordFailure io n key (mo_now io (Suc n)) (Some g) s = (sg, h)" by fastforce
  note rf = recordFailure_committed [OF io(2) g]
  have b: "ms_boxes sg = ms_boxes s" using recordFailure_boxes [of io n key "mo_now io (Suc n)" "Some g" s] g by simp
  have "\<exists>l. s' = mail_log l sg" and "res = Inr (NotPersisted i CapacityRefused (mo_now io (Suc n)) True)"
    using run assms(4) rf(1) by (auto simp: persistEvent_def m g Let_def)
  moreover have "healthy sg"
    using status_update_healthy(1) assms(1) g by (metis fst_conv recordFailure_def option.simps(5))
  ultimately show "res = Inr (NotPersisted i CapacityRefused (mo_now io (Suc n)) True) \<and> held_gap s' key = gap_event_json g
      \<and> loss_count s' key = loss_count s key \<and> ms_boxes s' = ms_boxes s \<and> healthy s'"
    using rf(2,3) [of key] b
    by (auto simp: loss_count_def held_gap_def mail_log_def status_read_def healthy_def)
qed

section \<open>Concrete stores\<close>

definition key0 :: string where
  "key0 = replicate 64 (CHR ''0'')"

definition key1 :: string where
  "key1 = replicate 64 (CHR ''1'')"

definition empty_box :: mail_box where
  "empty_box = \<lparr>bx_trusted = True, bx_unread = Some [], bx_acked = Some []\<rparr>"

definition two_boxes :: mail_store where
  "two_boxes = \<lparr>ms_namespace = True, ms_root = Some True, ms_boxes = [(key0, empty_box), (key1, empty_box)],
     ms_status = None, ms_log = []\<rparr>"

definition steady_io :: mail_io where
  "steady_io = \<lparr>mo_dirs = True, mo_lock = True, mo_event = Committed, mo_status = (\<lambda>_. Committed), mo_move = (\<lambda>_. Committed),
     mo_now = (\<lambda>_. ''2026-01-01T00:00:00.000Z'')\<rparr>"

definition event1 :: string where
  "event1 = ''2026-01-01T000000.000Z-00000000-0000-0000-0000-000000000001''"

definition small_payload :: payload where
  "small_payload = \<lparr>pl_value = JObj [(''id'', JStr event1)], pl_bytes = 70\<rparr>"

definition one_event :: mail_store where
  "one_event = set_unread key0 [(json_name event1, event_file small_payload)] two_boxes"

definition gap1 :: gap_input where
  "gap1 = \<lparr>gi_from = ''2025-12-31'', gi_to = ''2026-01-01'', gi_lost = JObj [], gi_id = Some event1, gi_at = None\<rparr>"

lemma key_hex: "sha256_hex key0" "sha256_hex key1" "key0 \<noteq> key1" "event_id_shape event1"
  by code_simp+

lemma two_boxes_healthy: "healthy two_boxes" "has_box two_boxes key0" "has_box two_boxes key1" "calm steady_io"
  by (auto simp: healthy_def two_boxes_def empty_box_def box_ok_def has_box_def key_hex calm_def steady_io_def split: if_splits)

lemma one_event_healthy: "healthy one_event" "has_box one_event key0" "has_box one_event key1"
  by (simp_all add: one_event_def set_files_healthy two_boxes_healthy)

lemma two_boxes_files: "unread_files two_boxes k = []" "acked_files two_boxes k = []"
  by (simp_all add: unread_files_def acked_files_def two_boxes_def empty_box_def)

lemma one_event_files:
  "unread_files one_event = (\<lambda>_. [])(key0 := [(json_name event1, event_file small_payload)])" "acked_files one_event k = []"
proof -
  obtain b where b: "map_of (ms_boxes two_boxes) key0 = Some b" using has_box_lookup [OF two_boxes_healthy(2)] by blast
  show "unread_files one_event = (\<lambda>_. [])(key0 := [(json_name event1, event_file small_payload)])" "acked_files one_event k = []"
    by (simp_all add: one_event_def set_unread_files [OF b] two_boxes_files fun_eq_iff)
qed

lemma two_boxes_wf: "wf_mail two_boxes"
  by (simp add: wf_mail_def two_boxes_files) (simp add: two_boxes_def key_hex)

lemma two_boxes_total: "total_files two_boxes = 0"
  by (simp add: total_files_def two_boxes_files sum_list_triv)

lemma two_boxes_room: "has_room two_boxes key0 (pl_bytes small_payload)"
  by (simp add: has_room_def two_boxes_total two_boxes_files count_bytes_def small_payload_def MAILBOX_UNREAD_MAX_FILES_def
      MAILBOX_UNREAD_MAX_BYTES_def MAILBOX_GLOBAL_UNREAD_MAX_FILES_def)

lemma one_event_wf: "wf_mail one_event"
  unfolding one_event_def by (rule set_unread_wf [OF two_boxes_wf]) simp

lemma one_event_total: "total_files one_event \<le> 1"
proof -
  have "total_files one_event = (\<Sum>k \<in> {k \<in> fst ` set (ms_boxes one_event). sha256_hex k}. if k = key0 then 1 else 0)"
    unfolding total_files_set [OF one_event_wf] by (rule sum.cong) (simp_all add: one_event_files count_files_def)
  also have "\<dots> \<le> 1" by (simp add: sum.delta)
  finally show ?thesis .
qed

lemma one_event_room: "has_room one_event key0 (pl_bytes small_payload)"
  using one_event_total
  by (simp add: has_room_def one_event_files count_files_def count_bytes_def event_file_def small_payload_def
      MAILBOX_UNREAD_MAX_FILES_def MAILBOX_UNREAD_MAX_BYTES_def MAILBOX_GLOBAL_UNREAD_MAX_FILES_def)

lemma two_boxes_caps: "within_caps two_boxes"
  by (simp add: within_caps_def two_boxes_files count_bytes_def total_files_def sum_list_triv)

section \<open>Properties\<close>

text \<open>
  C2. The caps are hard bounds on event writes: from a store within the caps (500 files and 8 MiB per
  mailbox, 5000 files in all), run events, gap events and the retry of held gaps never leave them,
  under every fault, and no such write removes or overwrites any event file.
\<close>

theorem mailbox_writes_within_caps:
  assumes "wf_mail s" and "within_caps s"
  shows "within_caps (fst (writeRunEvent am owner io uuid i s)) \<and> extends s (fst (writeRunEvent am owner io uuid i s))
       \<and> within_caps (fst (writeGapEvent am io n uuid' key g s)) \<and> extends s (fst (writeGapEvent am io n uuid' key g s))
       \<and> within_caps (retryPendingGaps am io ids s) \<and> extends s (retryPendingGaps am io ids s)"
proof -
  have "sound_write s (retryPendingGaps am io ids s)"
    unfolding retryPendingGaps_def by (rule retry_gaps_sound [OF assms(1)])
  then show ?thesis
    using writes_sound(1) [OF assms(1), of am owner io uuid i] writes_sound(2) [OF assms(1), of am io n uuid' key g] assms(2)
    by (simp add: sound_write_def)
qed

theorem mailbox_writes_within_caps_witness:
  "within_caps (fst (writeGapEvent example_ambient steady_io 0 ''u'' key0 gap1 two_boxes))
   \<and> extends two_boxes (fst (writeGapEvent example_ambient steady_io 0 ''u'' key0 gap1 two_boxes))"
  using mailbox_writes_within_caps [OF two_boxes_wf two_boxes_caps, of example_ambient "\<lambda>_. Inl MailUnavailable" steady_io
      "''u''" _ 0 "''u''" key0 gap1] by blast

text \<open>
  An event reported as persisted was admitted: whatever the store looked like before (a move may
  have filled the box), after the write the destination box is within its file and byte caps, the
  total within the global cap, and the box holds exactly the new payload under the event's name.
\<close>

theorem persisted_event_was_admitted:
  assumes "wf_mail s" and "persistEvent io n key i p hold s = (s', Inr (Persisted j))"
  shows "j = i \<and> map_of (unread_files s key) (json_name i) = None
       \<and> map_of (unread_files s' key) = (map_of (unread_files s key))(json_name i \<mapsto> event_file p)
       \<and> count_files (unread_files s' key) \<le> MAILBOX_UNREAD_MAX_FILES
       \<and> count_bytes (unread_files s' key) \<le> MAILBOX_UNREAD_MAX_BYTES
       \<and> total_files s' \<le> MAILBOX_GLOBAL_UNREAD_MAX_FILES"
  using assms(2,1)
proof (cases rule: persistEvent_cases)
  case written
  then show ?thesis
    using counts_after_write [OF assms(1) written(2-4,6)] map_of_eq_None_iff [of "unread_files s key" "json_name i"]
    by (simp add: has_room_def)
qed blast

theorem persisted_event_was_admitted_witness:
  "map_of (unread_files (fst (persistEvent steady_io 0 key0 event1 small_payload None two_boxes)) key0) (json_name event1)
     = Some (event_file small_payload)"
proof -
  have "snd (persistEvent steady_io 0 key0 event1 small_payload None two_boxes) = Inr (Persisted event1)"
    using persist_with_room(2) [OF two_boxes_healthy(1,2,4), of small_payload event1 0 None] two_boxes_room
    by (auto simp: two_boxes_files)
  then have "persistEvent steady_io 0 key0 event1 small_payload None two_boxes
      = (fst (persistEvent steady_io 0 key0 event1 small_payload None two_boxes), Inr (Persisted event1))"
    by (simp add: prod_eq_iff)
  from persisted_event_was_admitted [OF two_boxes_wf this] show ?thesis by simp
qed

text \<open>
  C7. Every event write has an accounted outcome. Without faults: with room and a free name it is
  persisted, and the file with exactly the event's content is then in that mailbox's \<open>unread\<close> directory,
  every other unread and acknowledged file being what it was; with room and a taken name it is refused as a collision; without room it is refused
  for capacity. A refused run event adds one to the mailbox's loss count; a refused gap is held
  verbatim instead, and costs no count.
\<close>

theorem event_write_outcomes:
  assumes "healthy s" and "has_box s key" and "calm io" and "persistEvent io n key i p hold s = (s', res)"
  shows "(has_room s key (pl_bytes p) \<and> json_name i \<notin> fst ` set (unread_files s key) \<longrightarrow>
            res = Inr (Persisted i) \<and> loss_count s' key = loss_count s key
            \<and> unread_files s' = (unread_files s)(key := al_put (json_name i) (event_file p) (unread_files s key))
            \<and> map_of (unread_files s' key) (json_name i) = Some (event_file p) \<and> acked_files s' = acked_files s)
       \<and> (has_room s key (pl_bytes p) \<and> json_name i \<in> fst ` set (unread_files s key) \<longrightarrow>
            res = Inr (NotPersisted i CollisionRefused (mo_now io (Suc n)) False)
            \<and> loss_count s' key = loss_count s key + 1 \<and> unread_files s' = unread_files s)
       \<and> (\<not> has_room s key (pl_bytes p) \<and> hold = None \<longrightarrow>
            res = Inr (NotPersisted i CapacityRefused (mo_now io (Suc n)) False)
            \<and> loss_count s' key = loss_count s key + 1 \<and> unread_files s' = unread_files s)
       \<and> (\<forall>g. \<not> has_room s key (pl_bytes p) \<and> hold = Some g \<longrightarrow>
            res = Inr (NotPersisted i CapacityRefused (mo_now io (Suc n)) True)
            \<and> held_gap s' key = gap_event_json g \<and> loss_count s' key = loss_count s key \<and> unread_files s' = unread_files s)"
proof -
  have c: "mo_status io n = Committed" using assms(3) by (simp add: calm_def)
  note rw = refuse_write_accounts [OF c] refuse_write_result
  show ?thesis
  proof (cases "has_room s key (pl_bytes p)")
    case True
    note room = persist_with_room [OF assms(1-3) True, of i n hold]
    show ?thesis
    proof (cases "json_name i \<in> fst ` set (unread_files s key)")
      case taken: True
      with room(1) assms(4) have "(s', res) = refuse_write io n key i (mo_now io (Suc n)) CollisionRefused s" by simp
      then show ?thesis using True taken rw by (metis fst_conv snd_conv)
    next
      case False
      with room(2) assms(4) obtain cs where "res = Inr (Persisted i)"
        and "s' = recordCapacity io n cs (set_unread key (al_put (json_name i) (event_file p) (unread_files s key)) s)" by auto
      moreover obtain b where "map_of (ms_boxes s) key = Some b" using has_box_lookup [OF assms(2)] by blast
      ultimately show ?thesis using True False
        by (simp add: files_of_boxes [OF recordCapacity_boxes] set_unread_files recordCapacity_accounts [OF c] loss_count_def [of "set_unread _ _ _"] loss_count_def [of s]
            status_read_def set_files_status)
    qed
  next
    case False
    note full = persist_without_room [OF assms(1-3) False, of n i]
    show ?thesis
    proof (cases hold)
      case None
      with full(1) assms(4) have "(s', res) = refuse_write io n key i (mo_now io (Suc n)) CapacityRefused s" by simp
      then show ?thesis using False None rw by (metis fst_conv option.distinct(1) snd_conv)
    next
      case (Some g)
      with full(2) assms(4) False files_of_boxes(1) [of s' s] show ?thesis by simp
    qed
  qed
qed

theorem event_write_outcomes_witness:
  "snd (persistEvent steady_io 0 key0 event1 small_payload None one_event)
     = Inr (NotPersisted event1 CollisionRefused ''2026-01-01T00:00:00.000Z'' False)
   \<and> loss_count (fst (persistEvent steady_io 0 key0 event1 small_payload None one_event)) key0 = loss_count one_event key0 + 1"
proof -
  show ?thesis
    using event_write_outcomes [OF one_event_healthy(1,2) two_boxes_healthy(4), of 0 event1 small_payload None]
      one_event_room one_event_files by (simp add: prod_eq_iff) (simp add: steady_io_def)
qed

text \<open>
  C23. Acknowledging an unread event moves its file unchanged from \<open>unread\<close> to \<open>acked\<close>, touches no other
  box, and prunes \<open>acked\<close> to the newest 1000 files by name: exactly the smaller of its file count and
  1000 remain, each with its content, and a file that went is an event file older by name than every
  event file that stayed; an event already acknowledged and still
  retained is answered as such with nothing changed, and an unknown event is not found.
\<close>

theorem ack_moves_and_prunes:
  assumes "healthy s" and "has_box s key" and "wf_mail s" and "calm io" and "event_id_shape i"
    and "ack_event io key i s = (s', res)"
  shows "(\<forall>f. map_of (unread_files s key) (json_name i) = Some f \<longrightarrow>
            res = Inr Acked
          \<and> unread_files s' = (unread_files s)(key := al_del (json_name i) (unread_files s key))
          \<and> (\<forall>k. k \<noteq> key \<longrightarrow> acked_files s' k = acked_files s k)
          \<and> (let A = al_put (json_name i) f (acked_files s key); B = acked_files s' key in
               count_files B = min (count_files A) MAILBOX_ACKED_RETAINED_FILES
             \<and> (\<forall>nm. map_of B nm = map_of A nm
                  \<or> (map_of B nm = None \<and> nm \<in> set (json_names A) \<and> (\<forall>k \<in> set (json_names B). nm < k)))))
       \<and> (map_of (unread_files s key) (json_name i) = None \<longrightarrow>
            s' = s \<and> res = (if json_name i \<in> fst ` set (acked_files s key) then Inr AlreadyAcked else Inl MailNotFound))"
proof (cases "map_of (unread_files s key) (json_name i)")
  case None
  have "ack_event io key i s
      = (s, if json_name i \<in> fst ` set (acked_files s key) then Inr AlreadyAcked else Inl MailNotFound)"
    unfolding ack_event_healthy [OF assms(1,2,4,5)] None by simp
  with assms(6) have "s' = s" "res = (if json_name i \<in> fst ` set (acked_files s key) then Inr AlreadyAcked else Inl MailNotFound)"
    by (metis prod.inject)+
  with None show ?thesis by (simp only: option.distinct simp_thms)
next
  case (Some f)
  let ?a = "al_put (json_name i) f (acked_files s key)"
  obtain cs where s': "s' = recordCapacity io 0 cs (acked_store key i f s)" and res: "res = Inr Acked"
    using assms(6) Some unfolding ack_event_healthy [OF assms(1,2,4,5)] by auto
  have files: "unread_files s' = (unread_files s)(key := al_del (json_name i) (unread_files s key))"
    "acked_files s' = (acked_files s)(key := pruned ?a)"
    using acked_store_files [OF assms(2), of i f] files_of_boxes [OF recordCapacity_boxes, of io 0 cs "acked_store key i f s"]
    unfolding s' by simp_all
  have d: "distinct (map fst ?a)" using assms(3) by (simp add: wf_mail_def)
  have "(let A = ?a; B = acked_files s' key in
               count_files B = min (count_files A) MAILBOX_ACKED_RETAINED_FILES
             \<and> (\<forall>nm. map_of B nm = map_of A nm
                  \<or> (map_of B nm = None \<and> nm \<in> set (json_names A) \<and> (\<forall>k \<in> set (json_names B). nm < k))))"
    using json_names_pruned(2) [OF d] pruned_lookup [OF d] by (simp add: files(2) Let_def)
  with res files Some show ?thesis by auto
qed

theorem ack_moves_and_prunes_witness:
  "snd (ack_event steady_io key0 event1 one_event) = Inr Acked
   \<and> unread_files (fst (ack_event steady_io key0 event1 one_event)) key0 = []"
proof -
  obtain s' res where r: "ack_event steady_io key0 event1 one_event = (s', res)" by fastforce
  have "map_of (unread_files one_event key0) (json_name event1) = Some (event_file small_payload)"
    by (simp add: one_event_files)
  with ack_moves_and_prunes [OF one_event_healthy(1,2) one_event_wf two_boxes_healthy(4) key_hex(4) r]
  have "res = Inr Acked" "unread_files s' key0 = al_del (json_name event1) (unread_files one_event key0)" by auto
  then show ?thesis by (simp add: r one_event_files al_del_def)
qed

lemma hd_sort_least:
  assumes "x \<in> set xs" and "\<And>y. y \<in> set xs \<Longrightarrow> x \<le> y"
  shows "hd (sort xs) = x"
proof -
  have ne: "sort xs \<noteq> []" using assms(1) set_sort [of "\<lambda>x. x" xs] by (metis empty_iff list.set(1))
  have "x \<in> set (sort xs)" using assms(1) by simp
  then have "hd (sort xs) \<le> x" using sorted_sort [of xs] by (cases "sort xs") (auto simp del: sorted_sort)
  moreover have "x \<le> hd (sort xs)" using ne assms(2) hd_in_set [OF ne] by simp
  ultimately show ?thesis by simp
qed

lemma oldest_is_pruned:
  assumes "x \<in> set (json_names fs)" and "\<And>y. y \<in> set (json_names fs) \<Longrightarrow> x \<le> y"
    and "length (json_names fs) > MAILBOX_ACKED_RETAINED_FILES"
  shows "x \<in> set (pruned_names fs)"
proof -
  let ?n = "length (json_names fs) - MAILBOX_ACKED_RETAINED_FILES"
  have "sort (json_names fs) \<noteq> []" using assms(1) set_sort [of "\<lambda>x. x" "json_names fs"] by (metis empty_iff list.set(1))
  then obtain y ys where y: "sort (json_names fs) = y # ys" by (cases "sort (json_names fs)") auto
  have "y = x" using hd_sort_least [OF assms(1,2)] y by simp
  moreover have "?n > 0" using assms(3) by simp
  ultimately show ?thesis unfolding pruned_names_def y by (cases ?n) auto
qed

text \<open>
  Acknowledgement is not idempotent at the retention bound: when 1000 newer events are already
  acknowledged, acknowledging an older unread event succeeds and prunes the event's own record in
  the same operation, so repeating the call answers that the event does not exist.
\<close>

theorem ack_retry_after_prune_not_found:
  assumes "healthy s" and "has_box s key" and "calm io" and "event_id_shape i"
    and "map_of (unread_files s key) (json_name i) = Some f"
    and "MAILBOX_ACKED_RETAINED_FILES \<le> length (json_names (acked_files s key))"
    and "\<And>nm. nm \<in> set (json_names (acked_files s key)) \<Longrightarrow> json_name i < nm"
  shows "snd (ack_event io key i s) = Inr Acked
       \<and> snd (ack_event io key i (fst (ack_event io key i s))) = Inl MailNotFound"
proof -
  let ?a = "al_put (json_name i) f (acked_files s key)"
  obtain cs where run: "ack_event io key i s = (recordCapacity io 0 cs (acked_store key i f s), Inr Acked)"
    using assms(5) unfolding ack_event_healthy [OF assms(1-4)] by auto
  let ?s = "recordCapacity io 0 cs (acked_store key i f s)"
  have h: "healthy ?s" "has_box ?s key"
    using acked_store_files(3,4) [OF assms(2)] assms(1,2) by (simp_all add: recordCapacity_healthy)
  have files: "unread_files ?s = (unread_files s)(key := al_del (json_name i) (unread_files s key))"
    "acked_files ?s = (acked_files s)(key := pruned ?a)"
    using acked_store_files [OF assms(2), of i f] files_of_boxes [OF recordCapacity_boxes, of io 0 cs "acked_store key i f s"]
    by simp_all
  have fresh: "json_name i \<notin> fst ` set (acked_files s key)"
    using assms(7) [of "json_name i"] by (auto simp: json_names_def)
  then have names: "set (json_names ?a) = insert (json_name i) (set (json_names (acked_files s key)))"
    "length (json_names ?a) = Suc (length (json_names (acked_files s key)))"
    by (auto simp: json_names_def filter_map comp_def filter_al_put_absent)
  have "json_name i \<in> set (pruned_names ?a)"
    by (rule oldest_is_pruned) (use names assms(6,7) in \<open>auto intro: less_imp_le\<close>)
  then have "json_name i \<notin> fst ` set (acked_files ?s key)" by (auto simp: files pruned_eq)
  moreover have "map_of (unread_files ?s key) (json_name i) = None" by (simp add: files)
  ultimately have "snd (ack_event io key i ?s) = Inl MailNotFound"
    unfolding ack_event_healthy [OF h assms(3,4)] by simp
  then show ?thesis by (simp add: run)
qed

definition full_acked :: mail_files where
  "full_acked = map (\<lambda>n. (json_name (replicate (Suc n) (CHR ''9'')), event_file small_payload)) [0..<1000]"

definition retained_store :: mail_store where
  "retained_store = set_acked key0 full_acked one_event"

theorem ack_retry_after_prune_not_found_witness:
  "snd (ack_event steady_io key0 event1 retained_store) = Inr Acked
   \<and> snd (ack_event steady_io key0 event1 (fst (ack_event steady_io key0 event1 retained_store))) = Inl MailNotFound"
proof (rule ack_retry_after_prune_not_found)
  obtain b where b: "map_of (ms_boxes one_event) key0 = Some b" using has_box_lookup [OF one_event_healthy(2)] by blast
  note files = set_acked_files [OF b, of full_acked, folded retained_store_def]
  show "healthy retained_store" "has_box retained_store key0"
    by (simp_all add: retained_store_def set_files_healthy one_event_healthy)
  show "calm steady_io" "event_id_shape event1" by (rule two_boxes_healthy key_hex)+
  show "map_of (unread_files retained_store key0) (json_name event1) = Some (event_file small_payload)"
    by (simp add: files one_event_files)
  have names: "json_names full_acked = map (\<lambda>n. json_name (replicate (Suc n) (CHR ''9''))) [0..<1000]"
    by (simp add: json_names_def full_acked_def comp_def del: replicate_Suc upt_conv_Cons)
  show "MAILBOX_ACKED_RETAINED_FILES \<le> length (json_names (acked_files retained_store key0))"
    by (simp add: files names MAILBOX_ACKED_RETAINED_FILES_def)
  fix nm assume "nm \<in> set (json_names (acked_files retained_store key0))"
  then obtain n where "nm = json_name (replicate (Suc n) (CHR ''9''))" by (auto simp: files names)
  then show "json_name event1 < nm" by (simp add: json_name_def event1_def less_char_def)
qed

lemma move_loop_completes:
  assumes "\<And>i. mo_move io i = Committed"
  shows "\<exists>s' out'. move_loop io src dst is out s = (s', Inr out')"
proof (induction "is" arbitrary: out s)
  case (Cons i "is")
  show ?case using Cons assms by (cases "map_of (unread_files s src) (json_name i)") (simp_all add: Let_def)
qed simp

lemma moveUnreadLocked_completes:
  assumes "healthy s" and "has_box s src" and "has_box s dst" and "calm io" and "src \<noteq> dst"
  shows "\<exists>s' out. moveUnreadLocked io src dst is s = (s', Inr out)"
proof -
  have io: "mo_dirs io" "\<And>i. mo_move io i = Committed" using assms(4) by (simp_all add: calm_def)
  note m = managerDirs_healthy [OF assms(1,2) io(1)] managerDirs_healthy [OF assms(1,3) io(1)]
  obtain s3 out where r: "move_loop io src dst is \<lparr>mv_moved = [], mv_already = [], mv_lost = []\<rparr> s = (s3, Inr out)"
    using move_loop_completes [OF io(2)] by blast
  have "healthy (account_lost io 0 src (mv_lost out) s3)"
    using move_loop_frame [OF assms(5) r assms(2,3)] assms(1) by (simp add: account_lost_healthy)
  from scanCounts_healthy [OF this io(1)] show ?thesis by (simp add: moveUnreadLocked_def m r Let_def)
qed

text \<open>
  C6. On a healthy store, without faults of the operating system, a journaled move completes and conserves
  events: every listed event is reported exactly once, as
  moved, already at the destination, or lost (on neither side, and then counted in the loss
  account); a moved file arrives unchanged and leaves the source, every unlisted file and every
  acknowledged file stays where it is.
\<close>

theorem move_conserves_events:
  assumes "healthy s" and "has_box s src" and "has_box s dst" and "calm io" and "src \<noteq> dst" and "distinct is"
  shows "\<exists>s' out. moveUnreadLocked io src dst is s = (s', Inr out)
     \<and> mset (mv_moved out @ mv_already out @ mv_lost out) = mset is
     \<and> (\<forall>i \<in> set (mv_moved out). map_of (unread_files s' dst) (json_name i) = map_of (unread_files s src) (json_name i)
            \<and> map_of (unread_files s src) (json_name i) \<noteq> None)
     \<and> (\<forall>i \<in> set is. map_of (unread_files s' src) (json_name i) = None)
     \<and> (\<forall>i \<in> set (mv_already out). map_of (unread_files s' dst) (json_name i) = map_of (unread_files s dst) (json_name i)
            \<and> map_of (unread_files s dst) (json_name i) \<noteq> None)
     \<and> (\<forall>nm. nm \<notin> json_name ` set is \<longrightarrow> map_of (unread_files s' src) nm = map_of (unread_files s src) nm
            \<and> map_of (unread_files s' dst) nm = map_of (unread_files s dst) nm)
     \<and> acked_files s' = acked_files s
     \<and> loss_count s' src = loss_count s src + of_nat (length (mv_lost out))"
proof -
  obtain s' out where run: "moveUnreadLocked io src dst is s = (s', Inr out)"
    using moveUnreadLocked_completes [OF assms(1-5)] by blast
  obtain s3 cs where loop: "move_loop io src dst is \<lparr>mv_moved = [], mv_already = [], mv_lost = []\<rparr> s = (s3, Inr out)"
    and s': "s' = recordCapacity io (length (mv_lost out)) cs (account_lost io 0 src (mv_lost out) s3)"
    using moveUnreadLocked_run [OF assms(1-5) run] by blast
  have st: "\<And>n. mo_status io n = Committed" using assms(4) by (simp add: calm_def)
  have b: "ms_boxes s' = ms_boxes s3" by (simp add: s' recordCapacity_boxes account_lost_boxes)
  note f = files_of_boxes [OF b]
  note src = move_loop_source [OF assms(5) loop assms(2,3)]
  note dst = move_loop_dest [OF assms(5) loop assms(2,3)]
  note out = move_loop_outcome [OF assms(5) loop assms(2,3,6)]
  have ack: "acked_files s' = acked_files s" using move_loop_frame [OF assms(5) loop assms(2,3)] f(2) by simp
  have loss: "loss_count s' src = loss_count s src + of_nat (length (mv_lost out))"
    using account_lost_count [OF st] recordCapacity_accounts(1) [OF st] move_loop_status [OF loop]
    by (simp add: s' loss_count_def [of s3] loss_count_def [of s] status_read_def)
  have part: "mset (mv_moved out @ mv_already out @ mv_lost out) = mset is"
    using out by (induction "is") (auto simp: multiset_eq_iff)
  have ex: "\<forall>i \<in> set (mv_moved out). map_of (unread_files s' dst) (json_name i) = map_of (unread_files s src) (json_name i)
            \<and> map_of (unread_files s src) (json_name i) \<noteq> None"
    "\<forall>i \<in> set is. map_of (unread_files s' src) (json_name i) = None"
    "\<forall>i \<in> set (mv_already out). map_of (unread_files s' dst) (json_name i) = map_of (unread_files s dst) (json_name i)
            \<and> map_of (unread_files s dst) (json_name i) \<noteq> None"
    "\<forall>nm. nm \<notin> json_name ` set is \<longrightarrow> map_of (unread_files s' src) nm = map_of (unread_files s src) nm
            \<and> map_of (unread_files s' dst) nm = map_of (unread_files s dst) nm"
    using out by (simp_all add: f(1) src dst)
  show ?thesis using run part ex ack loss by blast
qed

theorem move_conserves_events_witness:
  "\<exists>s' out. moveUnreadLocked steady_io key0 key1 [event1] one_event = (s', Inr out)
     \<and> mset (mv_moved out @ mv_already out @ mv_lost out) = {#event1#}
     \<and> map_of (unread_files s' key0) (json_name event1) = None"
  using move_conserves_events [OF one_event_healthy two_boxes_healthy(4) key_hex(3), of "[event1]"] by auto

text \<open>
  A held gap is lost when a second one is refused: with no room, the second refused gap of the
  same mailbox replaces the first in \<open>pendingGap\<close>; the first is then neither held nor written, and
  the loss account does not count it.
\<close>

theorem second_held_gap_replaces_first:
  assumes "healthy s" and "has_box s key" and "calm io" and "\<not> has_room s key (pl_bytes p)" and "\<not> has_room s key (pl_bytes q)"
    and "persistEvent io n key i p (Some g) s = (s1, r1)" and "persistEvent io m key j q (Some h) s1 = (s2, r2)"
  shows "held_gap s1 key = gap_event_json g \<and> held_gap s2 key = gap_event_json h
       \<and> loss_count s2 key = loss_count s key \<and> unread_files s2 = unread_files s \<and> acked_files s2 = acked_files s"
proof -
  note 1 = persist_without_room(2) [OF assms(1-4,6)]
  have "has_box s1 key" using healthy_cong(2) 1 assms(2) by blast
  moreover have "\<not> has_room s1 key (pl_bytes q)"
    using assms(5) 1 files_of_boxes(1) [of s1 s] total_files_cong [of s1 s] by (simp add: has_room_def)
  ultimately have "held_gap s2 key = gap_event_json h \<and> loss_count s2 key = loss_count s1 key \<and> ms_boxes s2 = ms_boxes s1"
    using persist_without_room(2) [OF _ _ assms(3) _ assms(7)] 1 by blast
  then show ?thesis using 1 files_of_boxes [of s2 s] by simp
qed

definition full_store :: mail_store where
  "full_store = set_unread key0 (map (\<lambda>n. (json_name (replicate (Suc n) (CHR ''9'')), event_file small_payload)) [0..<500]) two_boxes"

definition gap_a :: gap_event where
  "gap_a = \<lparr>ge_id = ''a'', ge_at = JStr ''t'', ge_from = ''f'', ge_to = ''t'', ge_lost = JObj []\<rparr>"

theorem second_held_gap_replaces_first_witness:
  "held_gap (fst (persistEvent steady_io 0 key0 ''b'' small_payload (Some (gap_a\<lparr>ge_id := ''b''\<rparr>))
      (fst (persistEvent steady_io 0 key0 ''a'' small_payload (Some gap_a) full_store)))) key0
     = gap_event_json (gap_a\<lparr>ge_id := ''b''\<rparr>)"
proof -
  obtain b where b: "map_of (ms_boxes two_boxes) key0 = Some b" using has_box_lookup [OF two_boxes_healthy(2)] by blast
  have "unread_files full_store key0 = map (\<lambda>n. (json_name (replicate (Suc n) (CHR ''9'')), event_file small_payload)) [0..<500]"
    by (simp add: full_store_def set_unread_files [OF b] del: replicate_Suc)
  then have "count_files (unread_files full_store key0) = 500"
    by (simp add: count_files_def filter_map comp_def del: replicate_Suc)
  then have "\<not> has_room full_store key0 (pl_bytes small_payload)"
    by (simp add: has_room_def MAILBOX_UNREAD_MAX_FILES_def)
  moreover have "healthy full_store" "has_box full_store key0"
    by (simp_all add: full_store_def set_files_healthy two_boxes_healthy)
  ultimately show ?thesis
    using second_held_gap_replaces_first [OF _ _ two_boxes_healthy(4), of full_store key0 small_payload small_payload 0 "''a''" gap_a
        _ _ 0 "''b''" "gap_a\<lparr>ge_id := ''b''\<rparr>"] by (metis prod.collapse)
qed

section \<open>Events read back as they were written\<close>

lemma event_keys_plain:
  "list_all (\<lambda>k. \<not> isEnvironmentKey k) [''id'', ''at'', ''kind'', ''runId'', ''jobId'', ''childIdentity'', ''decision'',
     ''handoff'', ''limit'', ''actions'', ''agentName'', ''agentKind'', ''paneId'', ''terminalId'', ''verdict'', ''labels'',
     ''evidenceDigest'', ''evidenceExcerpt'', ''reviewerModel'', ''state'', ''artifactSha256'', ''operatingPointId'',
     ''retryNotBefore'']"
  by code_simp

lemmas event_key_plain = event_keys_plain [unfolded list.pred_inject]

lemma plain_obj_all: "plain (Suc n) (JObj kvs) \<longleftrightarrow> list_all (\<lambda>kv. \<not> isEnvironmentKey (fst kv) \<and> plain n (snd kv)) kvs"
  by (simp add: list_all_iff)

lemma list_all_opt_json: "list_all P (opt_json k (map_option f v)) \<longleftrightarrow> opt_all (\<lambda>x. P (k, f x)) v"
  by (cases v) (simp_all add: opt_all_def)

lemma opt_all_I: "(\<And>x. P x) \<Longrightarrow> opt_all P v"
  by (cases v) (simp_all add: opt_all_def)

lemma plain_parts:
  "plain (Suc (Suc n)) (mail_child_json c)" "plain (Suc (Suc n)) (decision_json d)"
  "plain (Suc (Suc n)) (handoff_json h)" "plain (Suc (Suc n)) (limit_json l)"
  unfolding mail_child_json_def decision_json_def handoff_json_def limit_json_def plain_obj_all
  using event_key_plain by (simp_all add: list_all_opt_json opt_all_I del: plain_simps(7))

lemma plain_run_event: "plain 4 (run_event_json e)"
proof -
  have "plain (Suc 3) (run_event_json e)"
    unfolding run_event_json_def plain_obj_all using event_key_plain plain_parts [of 1]
    by (simp add: list_all_opt_json opt_all_I numeral_eq_Suc del: plain_simps(7))
  then show ?thesis by simp
qed

lemma serialize_run_event: "serialize am (run_event_json e) = Inr p \<Longrightarrow> pl_value p = run_event_json e"
  using modelSafeTree_plain [OF plain_run_event, of e]
  by (auto simp: serialize_def Let_def MODEL_SAFE_DEPTH_LIMIT_def split: if_splits)

lemma run_event_id: "jget ''id'' (run_event_json e) = JStr (re_id e)" "is_record (run_event_json e)"
  by (simp_all add: run_event_json_def)

lemma read_event_healthy:
  assumes "healthy s" and "has_box s key" and "mo_dirs io" and "event_id_shape i"
    and "map_of (unread_files s key) (json_name i) = Some (event_file p)" and "is_record (pl_value p)"
    and "jget ''id'' (pl_value p) = JStr i"
  shows "read_event io key i s = Inr (pl_value p)"
  using assms by (simp add: read_event_def assertEventId_def managerDirs_healthy [OF assms(1-3)] readEventBody_def event_file_def)

lemma persist_read_back:
  assumes "healthy s" and "has_box s key" and "calm io" and "mo_dirs io'" and "event_id_shape i" and "wf_mail s"
    and "persistEvent io n key i p hold s = (s', Inr (Persisted j))" and "is_record (pl_value p)"
    and "jget ''id'' (pl_value p) = JStr i"
  shows "read_event io' key i s' = Inr (pl_value p) \<and> healthy s' \<and> has_box s' key"
proof -
  have room: "has_room s key (pl_bytes p)"
    using assms(7) persist_without_room [OF assms(1-3), of p n i]
    by (cases hold) (auto simp: refuse_write_def)
  have free: "json_name i \<notin> fst ` set (unread_files s key)"
    using persist_with_room(1) [OF assms(1-3) room, of i n hold] assms(7) by (auto simp: refuse_write_def)
  obtain cs where s': "s' = recordCapacity io n cs (set_unread key (al_put (json_name i) (event_file p) (unread_files s key)) s)"
    using persist_with_room(2) [OF assms(1-3) room free, of n hold] assms(7) by auto
  obtain b where b: "map_of (ms_boxes s) key = Some b" using has_box_lookup [OF assms(2)] by blast
  have h: "healthy s'" "has_box s' key" using assms(1,2) by (simp_all add: s' recordCapacity_healthy set_files_healthy)
  have "map_of (unread_files s' key) (json_name i) = Some (event_file p)"
    unfolding s' by (simp add: files_of_boxes(1) [OF recordCapacity_boxes] set_unread_files [OF b])
  with h show ?thesis using read_event_healthy [OF h assms(4,5)] assms(8,9) by simp
qed

definition ostr :: "string option \<Rightarrow> jsval" where
  "ostr x = (case x of None \<Rightarrow> JUndef | Some s \<Rightarrow> JStr s)"

text \<open>The document says what the input said, stated on the raw fields of the JSON document.\<close>

definition spells_input :: "run_input \<Rightarrow> jsval \<Rightarrow> bool" where
  "spells_input i doc \<longleftrightarrow>
     jget ''kind'' doc = JStr (ri_kind i) \<and> jget ''runId'' doc = JStr (ri_runId i) \<and> jget ''jobId'' doc = JStr (ri_jobId i)
   \<and> jget ''actions'' doc = JArr (map JStr (case ri_actions i of None \<Rightarrow> [] | Some as \<Rightarrow> as))
   \<and> (case ri_child i of None \<Rightarrow> jget ''childIdentity'' doc = JUndef
      | Some c \<Rightarrow> (let d = jget ''childIdentity'' doc in
          jget ''agentName'' d = JStr (mc_agentName c) \<and> jget ''agentKind'' d = JStr (mc_agentKind c)
          \<and> jget ''paneId'' d = JStr (mc_paneId c) \<and> jget ''terminalId'' d = ostr (mc_terminalId c)))
   \<and> (case ri_decision i of None \<Rightarrow> jget ''decision'' doc = JUndef
      | Some c \<Rightarrow> (let d = jget ''decision'' doc in
          jget ''verdict'' d = JStr (dc_verdict c) \<and> jget ''labels'' d = JArr (map JStr (dc_labels c))
          \<and> jget ''evidenceDigest'' d = JStr (dc_evidenceDigest c)
          \<and> jget ''evidenceExcerpt'' d = ostr (dc_evidenceExcerpt c)
          \<and> jget ''reviewerModel'' d = JStr (dc_reviewerModel c)))
   \<and> (case ri_handoff i of None \<Rightarrow> jget ''handoff'' doc = JUndef
      | Some c \<Rightarrow> (let d = jget ''handoff'' doc in
          jget ''state'' d = JStr (mh_state c) \<and> jget ''artifactSha256'' d = ostr (mh_artifactSha256 c)))
   \<and> (case ri_limit i of None \<Rightarrow> jget ''limit'' doc = JUndef
      | Some c \<Rightarrow> (let d = jget ''limit'' doc in
          jget ''operatingPointId'' d = JStr (ml_operatingPointId c)
          \<and> jget ''retryNotBefore'' d = ostr (ml_retryNotBefore c)))"

lemma map_of_opt_front: "map_of (opt_json k v @ r) k' = (if k = k' \<and> v \<noteq> None then v else map_of r k')"
  by (cases v) (simp_all add: opt_json_def)

lemma run_event_fields:
  "jget ''at'' (run_event_json e) = JStr (re_at e)"
  "jget ''kind'' (run_event_json e) = JStr (re_kind e)"
  "jget ''runId'' (run_event_json e) = JStr (re_runId e)"
  "jget ''jobId'' (run_event_json e) = JStr (re_jobId e)"
  "jget ''actions'' (run_event_json e) = JArr (map JStr (re_actions e))"
  "jget ''childIdentity'' (run_event_json e) = ojs (map_option mail_child_json (re_child e))"
  "jget ''decision'' (run_event_json e) = ojs (map_option decision_json (re_decision e))"
  "jget ''handoff'' (run_event_json e) = ojs (map_option handoff_json (re_handoff e))"
  "jget ''limit'' (run_event_json e) = ojs (map_option limit_json (re_limit e))"
  by (simp_all only: run_event_json_def jget_obj append.simps map_of.simps fst_conv snd_conv fun_upd_apply map_of_opt_front)
    (simp_all)

lemma nested_fields:
  "jget ''agentName'' (mail_child_json c) = JStr (mc_agentName c)"
  "jget ''agentKind'' (mail_child_json c) = JStr (mc_agentKind c)"
  "jget ''paneId'' (mail_child_json c) = JStr (mc_paneId c)"
  "jget ''terminalId'' (mail_child_json c) = ostr (mc_terminalId c)"
  "jget ''verdict'' (decision_json d) = JStr (dc_verdict d)"
  "jget ''labels'' (decision_json d) = JArr (map JStr (dc_labels d))"
  "jget ''evidenceDigest'' (decision_json d) = JStr (dc_evidenceDigest d)"
  "jget ''evidenceExcerpt'' (decision_json d) = ostr (dc_evidenceExcerpt d)"
  "jget ''reviewerModel'' (decision_json d) = JStr (dc_reviewerModel d)"
  "jget ''state'' (handoff_json h) = JStr (mh_state h)"
  "jget ''artifactSha256'' (handoff_json h) = ostr (mh_artifactSha256 h)"
  "jget ''operatingPointId'' (limit_json l) = JStr (ml_operatingPointId l)"
  "jget ''retryNotBefore'' (limit_json l) = ostr (ml_retryNotBefore l)"
  by (simp_all add: mail_child_json_def decision_json_def handoff_json_def limit_json_def opt_json_def ostr_def split: option.split)

lemma run_event_json_spells:
  assumes "re_kind e = ri_kind i" and "re_runId e = ri_runId i" and "re_jobId e = ri_jobId i" and "re_child e = ri_child i"
    and "re_decision e = ri_decision i" and "re_handoff e = ri_handoff i" and "re_limit e = ri_limit i"
    and "re_actions e = (case ri_actions i of None \<Rightarrow> [] | Some as \<Rightarrow> as)"
  shows "spells_input i (run_event_json e)"
  using assms by (simp add: spells_input_def run_event_fields nested_fields Let_def split: option.split)

text \<open>
  C22. Round trip: an event the daemon wrote for a run and reported as persisted is read back from the
  current owner's mailbox with every field it was given: identifier, time, kind, run, job, child
  identity, decision, handoff, limit and actions, each stated on the fields of the document read, an
  absent one being absent there.
\<close>

theorem run_event_round_trip:
  assumes "healthy s" and "has_box s key" and "wf_mail s" and "calm io" and "mo_dirs io'" and "owner (ri_runId i) = Inr key"
    and "writeRunEvent am owner io uuid i s = (s', Inr (Persisted j))"
  shows "\<exists>doc. read_event io' key j s' = Inr doc \<and> jget ''id'' doc = JStr j \<and> jget ''at'' doc = JStr (mo_now io 0)
       \<and> j = (case ri_id i of None \<Rightarrow> mailboxEventId (mo_now io 0) uuid | Some x \<Rightarrow> x) \<and> spells_input i doc"
proof -
  have io: "mo_dirs io" "mo_lock io" using assms(4) by (simp_all add: calm_def)
  obtain x p where x: "buildRunBody am (mo_now io 0) uuid i = Inr (x, p)"
    using assms(7) by (auto simp: writeRunEvent_def split: sum.splits)
  then have run: "persistEvent io 0 key x p None s = (s', Inr (Persisted j))"
    using assms(6,7) by (simp add: writeRunEvent_def admitted_def admission_healthy [OF assms(1,2) io])
  define e where "e = \<lparr>re_id = x, re_at = mo_now io 0, re_kind = ri_kind i, re_runId = ri_runId i, re_jobId = ri_jobId i,
     re_child = ri_child i, re_decision = ri_decision i, re_handoff = ri_handoff i, re_limit = ri_limit i,
     re_actions = (case ri_actions i of None \<Rightarrow> [] | Some as \<Rightarrow> as)\<rparr>"
  have shape: "event_id_shape x" and ser: "serialize am (run_event_json e) = Inr p"
    using x unfolding buildRunBody_def Let_def e_def
    by (auto simp: bind_result_eq_Inr_conv assertEventId_def split: if_splits)
  note v = serialize_run_event [OF ser]
  have "read_event io' key x s' = Inr (run_event_json e)"
    using persist_read_back [OF assms(1,2,4,5) shape assms(3) run] v run_event_id [of e] by (simp add: e_def)
  moreover have "j = x" using run assms(3) by (cases rule: persistEvent_cases) auto
  moreover have "x = (case ri_id i of None \<Rightarrow> mailboxEventId (mo_now io 0) uuid | Some y \<Rightarrow> y)"
    using x unfolding buildRunBody_def Let_def by (auto simp: bind_result_eq_Inr_conv)
  moreover have "spells_input i (run_event_json e)" by (rule run_event_json_spells) (simp_all add: e_def)
  moreover have "jget ''at'' (run_event_json e) = JStr (mo_now io 0)" by (simp add: run_event_json_def e_def)
  ultimately show ?thesis using run_event_id(1) [of e] by (intro exI [of _ "run_event_json e"]) (simp add: e_def)
qed

definition input1 :: run_input where
  "input1 = \<lparr>ri_kind = ''done'', ri_runId = ''r'', ri_jobId = ''j'',
     ri_child = Some \<lparr>mc_agentName = ''w'', mc_agentKind = ''pi'', mc_paneId = ''p'', mc_terminalId = None\<rparr>,
     ri_decision = None, ri_handoff = None, ri_limit = None, ri_actions = Some [''look''], ri_id = Some event1\<rparr>"

theorem run_event_round_trip_witness:
  "\<exists>doc. read_event steady_io key0 event1 (fst (writeRunEvent example_ambient (\<lambda>_. Inr key0) steady_io ''u'' input1 two_boxes))
     = Inr doc \<and> jget ''kind'' doc = JStr ''done'' \<and> jget ''paneId'' (jget ''childIdentity'' doc) = JStr ''p''
     \<and> jget ''actions'' doc = JArr [JStr ''look'']"
proof -
  have "case buildRunBody example_ambient (mo_now steady_io 0) ''u'' input1 of Inr (x, p) \<Rightarrow> x = event1 \<and> pl_bytes p < 1000 | _ \<Rightarrow> False"
    by code_simp
  then obtain p where b: "buildRunBody example_ambient (mo_now steady_io 0) ''u'' input1 = Inr (event1, p)" and n: "pl_bytes p < 1000"
    by (cases "buildRunBody example_ambient (mo_now steady_io 0) ''u'' input1") auto
  have "has_room two_boxes key0 (pl_bytes p)"
    using n by (simp add: has_room_def two_boxes_total two_boxes_files count_bytes_def MAILBOX_UNREAD_MAX_FILES_def
        MAILBOX_UNREAD_MAX_BYTES_def MAILBOX_GLOBAL_UNREAD_MAX_FILES_def)
  from persist_with_room(2) [OF two_boxes_healthy(1,2,4) this, of event1 0 None]
  have "snd (writeRunEvent example_ambient (\<lambda>_. Inr key0) steady_io ''u'' input1 two_boxes) = Inr (Persisted event1)"
    using admission_healthy [OF two_boxes_healthy(1,2), of steady_io] two_boxes_healthy(4)
    by (auto simp: writeRunEvent_def b admitted_def two_boxes_files calm_def)
  then have "writeRunEvent example_ambient (\<lambda>_. Inr key0) steady_io ''u'' input1 two_boxes
     = (fst (writeRunEvent example_ambient (\<lambda>_. Inr key0) steady_io ''u'' input1 two_boxes), Inr (Persisted event1))"
    by (simp add: prod_eq_iff)
  from run_event_round_trip [OF two_boxes_healthy(1,2) two_boxes_wf two_boxes_healthy(4) _ _ this, of steady_io]
  show ?thesis using two_boxes_healthy(4) by (auto simp: calm_def input1_def spells_input_def Let_def)
qed

end
