(* ===== verification/Mailbox_Faults.thy ===== *)
theory Mailbox_Faults
  imports Mailbox_Properties
begin

text \<open>
  The mailbox under arbitrary faults. On a healthy store an operation that fails leaves a healthy store:
  a lock or a directory that cannot be opened changes nothing, an interrupted move has moved some of the
  listed files and left the others (\<open>shifted\<close>), an interrupted write has added its one file or none.
\<close>

section \<open>Directories and locks\<close>

lemma managerDirs_any:
  "healthy s \<Longrightarrow> has_box s key \<Longrightarrow> managerDirs io key c s = (s, if mo_dirs io then Inr True else Inl MailUnavailable)"
  using managerDirs_healthy [of s key io c]
  by (auto simp: managerDirs_def assertMailKey_def mailboxRoot_def has_box_def)

lemma scanCounts_any: "healthy s \<Longrightarrow> fst (scanCounts io s) = s"
  by (auto simp: scanCounts_def mailboxRoot_def healthy_def)

lemma admission_all_any:
  "healthy s \<Longrightarrow> list_all (has_box s) keys \<Longrightarrow> mo_dirs io \<Longrightarrow>
   admission_all io keys s = (s, if mo_lock io then Inr () else Inl MailUnavailable)"
  by (induction keys) (simp_all add: managerDirs_any)

lemma multiMailboxLocks_any:
  assumes "healthy s" and "list_all (has_box s) keys"
  shows "multiMailboxLocks io keys s = (s, if mo_dirs io \<and> mo_lock io then Inr () else Inl MailUnavailable)"
proof (cases "mo_dirs io")
  case True
  have "list_all (has_box s) (sort (js_uniq keys))" using assms(2) by (simp add: list_all_iff)
  then show ?thesis
    using True assms(1) admission_all_any by (simp add: multiMailboxLocks_def mailboxRoot_def healthy_def)
qed (simp add: multiMailboxLocks_def mailboxRoot_def)

section \<open>An interrupted write\<close>

lemma mail_log_healthy: "healthy (mail_log l s) = healthy s" "has_box (mail_log l s) k = has_box s k"
  by (simp_all add: mail_log_def healthy_def has_box_def)

lemma recordFailure_healthy:
  "healthy (fst (recordFailure io n key t hold s)) = healthy s" "has_box (fst (recordFailure io n key t hold s)) k = has_box s k"
  by (simp_all add: recordFailure_def Let_def status_update_healthy split: option.split)

lemma refuse_write_healthy:
  "healthy (fst (refuse_write io n key i t w s)) = healthy s" "has_box (fst (refuse_write io n key i t w s)) k = has_box s k"
  by (simp_all add: refuse_write_def mail_log_healthy recordFailure_healthy)

lemma writeEventFile_healthy:
  "healthy s \<Longrightarrow> healthy (fst (writeEventFile io key i p s))" "has_box (fst (writeEventFile io key i p s)) k = has_box s k"
  by (auto simp: writeEventFile_def Let_def set_files_healthy)

lemma persistEvent_healthy:
  assumes "healthy s" and "has_box s key"
  shows "healthy (fst (persistEvent io n key i p None s)) \<and> has_box (fst (persistEvent io n key i p None s)) k = has_box s k"
proof -
  obtain s1 c where c: "scanCounts io s = (s1, c)" by fastforce
  have s1: "s1 = s" using scanCounts_any [OF assms(1), of io] c by simp
  obtain s3 w where w: "writeEventFile io key i p s = (s3, w)" by fastforce
  have h3: "healthy s3" "has_box s3 k = has_box s k"
    using writeEventFile_healthy(1) [OF assms(1), of io key i p] writeEventFile_healthy(2) [of io key i p s k] w by simp_all
  obtain s4 c4 where c4: "scanCounts io s3 = (s4, c4)" by fastforce
  have s4: "s4 = s3" using scanCounts_any [OF h3(1), of io] c4 by simp
  have "fst (persistEvent io n key i p None s) \<in> {s, s3, s4}
      \<or> (\<exists>t r x. x \<in> {s, s3} \<and> fst (persistEvent io n key i p None s) = fst (refuse_write io n key i t r x))
      \<or> (\<exists>cs. fst (persistEvent io n key i p None s) = recordCapacity io n cs s4)"
    by (simp add: persistEvent_def Let_def c s1 managerDirs_any [OF assms] w c4 split: sum.split option.split bool.split) blast
  then show ?thesis using assms h3 s4 refuse_write_healthy recordCapacity_healthy by auto
qed

section \<open>An interrupted move\<close>

definition shifted :: "string \<Rightarrow> string \<Rightarrow> string set \<Rightarrow> mail_store \<Rightarrow> mail_store \<Rightarrow> bool" where
  "shifted src dst names s s' \<longleftrightarrow> acked_files s' = acked_files s
     \<and> (\<forall>k. k \<noteq> src \<longrightarrow> k \<noteq> dst \<longrightarrow> unread_files s' k = unread_files s k)
     \<and> (\<forall>n. map_of (unread_files s' src) n = map_of (unread_files s src) n
            \<and> map_of (unread_files s' dst) n = map_of (unread_files s dst) n
          \<or> (\<exists>f. n \<in> names \<and> map_of (unread_files s src) n = Some f \<and> map_of (unread_files s' src) n = None
               \<and> map_of (unread_files s' dst) n = Some f))"

lemma shifted_same: "acked_files s' = acked_files s \<Longrightarrow> unread_files s' = unread_files s \<Longrightarrow> shifted src dst names s s'"
  by (simp add: shifted_def)

lemma shifted_trans:
  assumes "shifted src dst names s s1" and "shifted src dst names s1 s2"
  shows "shifted src dst names s s2"
proof -
  have "map_of (unread_files s2 src) n = map_of (unread_files s src) n \<and> map_of (unread_files s2 dst) n = map_of (unread_files s dst) n
     \<or> (\<exists>f. n \<in> names \<and> map_of (unread_files s src) n = Some f \<and> map_of (unread_files s2 src) n = None
           \<and> map_of (unread_files s2 dst) n = Some f)" for n
    using assms unfolding shifted_def by (metis option.distinct(1))
  then show ?thesis using assms by (simp add: shifted_def)
qed

lemma shifted_mono: "shifted src dst names s s' \<Longrightarrow> names \<subseteq> names' \<Longrightarrow> shifted src dst names' s s'"
  unfolding shifted_def by blast

lemma move_one_shifted:
  assumes "src \<noteq> dst" and "has_box s src" and "has_box s dst" and "map_of (unread_files s src) (json_name i) = Some f"
  shows "shifted src dst {json_name i} s (move_one src dst i f s)"
  using assms(4) by (auto simp: shifted_def move_one_files [OF assms(1-3)])

lemma move_one_wf: "wf_mail s \<Longrightarrow> wf_mail (move_one src dst i f s)"
  unfolding move_one_def by (intro set_unread_wf) (auto simp: wf_mail_def)

lemma move_loop_any:
  assumes "src \<noteq> dst"
  shows "move_loop io src dst is out s = (s', res) \<Longrightarrow> healthy s \<Longrightarrow> has_box s src \<Longrightarrow> has_box s dst \<Longrightarrow> wf_mail s \<Longrightarrow>
     healthy s' \<and> wf_mail s' \<and> (\<forall>k. has_box s' k = has_box s k) \<and> shifted src dst (json_name ` set is) s s'"
proof (induction "is" arbitrary: out s)
  case (Cons i "is")
  show ?case
  proof (cases "map_of (unread_files s src) (json_name i)")
    case None
    then obtain out' where run: "move_loop io src dst is out' s = (s', res)" using Cons.prems(1) by (auto split: if_splits)
    show ?thesis using Cons.IH [OF run Cons.prems(2-5)] shifted_mono [of src dst "json_name ` set is" s s'] by auto
  next
    case (Some f)
    let ?m = "move_one src dst i f s"
    note one = move_one_files [OF assms Cons.prems(3,4), where i = i and f = f]
    have m: "healthy ?m" "wf_mail ?m" "has_box ?m src" "has_box ?m dst"
      using one(5,6) Cons.prems(2-4) move_one_wf [OF Cons.prems(5)] by simp_all
    have shift: "shifted src dst (json_name ` set (i # is)) s ?m"
      using shifted_mono [OF move_one_shifted [OF assms Cons.prems(3,4) Some]] by simp
    consider (stay) "s' = s" | (once) "s' = ?m" | (go) out' where "move_loop io src dst is out' ?m = (s', res)"
      using Cons.prems(1) Some by (cases "mo_move io i") (auto simp: Let_def move_one_def)
    then show ?thesis
    proof cases
      case go
      from Cons.IH [OF go m(1,3,4,2)] have "shifted src dst (json_name ` set (i # is)) ?m s'" and
        "healthy s' \<and> wf_mail s' \<and> (\<forall>k. has_box s' k = has_box s k)"
        using shifted_mono [of src dst "json_name ` set is" ?m s'] one(5) by auto
      then show ?thesis using shifted_trans [OF shift] by blast
    qed (use m shift one(5) Cons.prems shifted_same in auto)
  qed
qed (simp add: shifted_same)

lemma account_lost_wf: "wf_mail s \<Longrightarrow> wf_mail (account_lost io n key is s)"
  using wf_mail_boxes account_lost_boxes by blast

lemma moveUnreadLocked_any:
  assumes "healthy s" and "has_box s src" and "has_box s dst" and "wf_mail s" and "src \<noteq> dst"
    and "moveUnreadLocked io src dst is s = (s', res)"
  shows "healthy s' \<and> wf_mail s' \<and> (\<forall>k. has_box s' k = has_box s k) \<and> shifted src dst (json_name ` set is) s s'
     \<and> (\<forall>out. res = Inr out \<longrightarrow> (\<forall>i \<in> set is. map_of (unread_files s' src) (json_name i) = None))"
proof (cases "mo_dirs io")
  case True
  obtain s3 r where r: "move_loop io src dst is \<lparr>mv_moved = [], mv_already = [], mv_lost = []\<rparr> s = (s3, r)" by fastforce
  note loop = move_loop_any [OF assms(5) r assms(1,2,3,4)]
  show ?thesis
  proof (cases r)
    case (Inl e)
    then show ?thesis using assms(6) loop r True by (auto simp: moveUnreadLocked_def managerDirs_any assms(1-3))
  next
    case (Inr out)
    let ?s4 = "account_lost io 0 src (mv_lost out) s3"
    have h4: "healthy ?s4" using loop by (simp add: account_lost_healthy)
    obtain s5 c where c: "scanCounts io ?s4 = (s5, c)" by fastforce
    then have s5: "s5 = ?s4" using scanCounts_any [OF h4, of io] by simp
    have s': "s' = ?s4 \<or> (\<exists>cs. s' = recordCapacity io (length (mv_lost out)) cs ?s4)"
      using assms(6) r Inr c s5 True
      by (cases c) (auto simp: moveUnreadLocked_def managerDirs_any assms(1-3) Let_def)
    then have b: "ms_boxes s' = ms_boxes s3" by (auto simp: recordCapacity_boxes account_lost_boxes)
    have files: "unread_files s' = unread_files s3" "acked_files s' = acked_files s3" using files_of_boxes [OF b] by simp_all
    have "shifted src dst (json_name ` set is) s3 s'" using files shifted_same by blast
    then have "shifted src dst (json_name ` set is) s s'" using loop shifted_trans by blast
    moreover have "healthy s' = healthy s3" "has_box s' k = has_box s3 k" for k
      using s' by (elim disjE exE; simp only: recordCapacity_healthy account_lost_healthy)+
    moreover have "\<forall>i \<in> set is. map_of (unread_files s' src) (json_name i) = None"
      using move_loop_source [OF assms(5) r [unfolded Inr] assms(2,3)] files by simp
    ultimately show ?thesis using wf_mail_boxes [OF _ b] loop by blast
  qed
next
  case False
  then show ?thesis
    using assms(1,4,6) by (auto simp: moveUnreadLocked_def managerDirs_any [OF assms(1,2)] shifted_same)
qed

section \<open>A recorded event\<close>

text \<open>What a write that may be repeated leaves: its one file where none was, or nothing.\<close>

definition event_added :: "ambient \<Rightarrow> string \<Rightarrow> run_event \<Rightarrow> mail_store \<Rightarrow> mail_store \<Rightarrow> bool" where
  "event_added am key e s s' \<longleftrightarrow> acked_files s' = acked_files s
     \<and> (unread_files s' = unread_files s
        \<or> (\<exists>p. serialize am (run_event_json e) = Inr p \<and> json_name (re_id e) \<notin> fst ` set (unread_files s key)
             \<and> unread_files s' = (unread_files s)(key := al_put (json_name (re_id e)) (event_file p) (unread_files s key))))"

lemma locked_write_any:
  assumes "healthy s" and "has_box s key" and "wf_mail s"
    and "locked_writeRecordedEvent am io held key e s = (s', res)"
  shows "healthy s' \<and> wf_mail s' \<and> has_box s' k = has_box s k \<and> event_added am key e s s'"
proof (cases "s' = s")
  case False
  then obtain p where p: "serialize am (run_event_json e) = Inr p" "persistEvent io 0 key (re_id e) p None s = (s', res)"
    using assms(4) by (auto simp: locked_writeRecordedEvent_def split: if_splits sum.splits mail_error.splits)
  have h: "healthy s'" "has_box s' k = has_box s k" using persistEvent_healthy [OF assms(1,2), of io 0 "re_id e" p k] p(2) by simp_all
  have wf: "wf_mail s'" using persistEvent_sound [OF assms(3), of io 0 key "re_id e" p None] p(2) by (simp add: sound_write_def)
  from p(2) assms(3) have "event_added am key e s s'"
    by (cases rule: persistEvent_cases) (auto simp: event_added_def same_files_def p(1))
  with h wf show ?thesis by simp
qed (use assms in \<open>simp add: event_added_def\<close>)

text \<open>The event can be written: it passes the checks, and its name is free or holds it already.\<close>

definition event_ready :: "ambient \<Rightarrow> run_event \<Rightarrow> bool" where
  "event_ready am e \<longleftrightarrow> assertRunEventInput am e = Inr () \<and> event_id_shape (re_id e)
     \<and> (\<exists>p. serialize am (run_event_json e) = Inr p)"

definition event_slot :: "ambient \<Rightarrow> string \<Rightarrow> run_event \<Rightarrow> mail_store \<Rightarrow> bool" where
  "event_slot am key e s \<longleftrightarrow> map_of (acked_files s key) (json_name (re_id e)) = None
     \<and> (map_of (unread_files s key) (json_name (re_id e)) = None
        \<or> (\<exists>p. serialize am (run_event_json e) = Inr p \<and> map_of (unread_files s key) (json_name (re_id e)) = Some (event_file p)))"

lemma event_added_slot:
  "event_slot am key e s \<Longrightarrow> event_added am key' e' s s' \<Longrightarrow> (key' = key \<longrightarrow> re_id e' = re_id e \<longrightarrow> e' = e) \<Longrightarrow> event_slot am key e s'"
proof -
  assume slot: "event_slot am key e s" and added: "event_added am key' e' s s'" and same: "key' = key \<longrightarrow> re_id e' = re_id e \<longrightarrow> e' = e"
  have acked: "acked_files s' = acked_files s" using added by (simp add: event_added_def)
  consider "unread_files s' key = unread_files s key"
    | p where "key' = key" "serialize am (run_event_json e') = Inr p" "json_name (re_id e') \<notin> fst ` set (unread_files s key)"
        "unread_files s' key = al_put (json_name (re_id e')) (event_file p) (unread_files s key)"
    using added by (cases "key' = key") (auto simp: event_added_def)
  then show "event_slot am key e s'"
  proof cases
    case 1
    then show ?thesis using slot acked by (simp add: event_slot_def)
  next
    case 2
    then show ?thesis
      using slot acked same by (cases "re_id e' = re_id e") (auto simp: event_slot_def)
  qed
qed

lemma locked_write_calm:
  assumes "healthy s" and "has_box s key" and "calm io" and "key \<in> set held" and "event_ready am e" and "event_slot am key e s"
  shows "\<exists>s' r. locked_writeRecordedEvent am io held key e s = (s', Inr r)
     \<and> (r = Persisted (re_id e) \<or> (\<exists>t h. r = NotPersisted (re_id e) CapacityRefused t h))"
proof -
  have io: "mo_dirs io" using assms(3) by (simp add: calm_def)
  obtain p where p: "serialize am (run_event_json e) = Inr p" using assms(5) by (auto simp: event_ready_def)
  have ready: "assertRunEventInput am e = Inr ()" "assertEventId (re_id e) = Inr ()" "event_id_shape (re_id e)"
    using assms(5) by (simp_all add: event_ready_def assertEventId_def)
  note dirs = managerDirs_healthy [OF assms(1,2) io]
  show ?thesis
  proof (cases "map_of (unread_files s key) (json_name (re_id e))")
    case None
    have "map_of (acked_files s key) (json_name (re_id e)) = None" using assms(6) by (simp add: event_slot_def)
    then have missing: "read_event io key (re_id e) s = Inl MailNotFound"
      using None by (simp add: read_event_def ready dirs readEventBody_def)
    have run: "locked_writeRecordedEvent am io held key e s = persistEvent io 0 key (re_id e) p None s"
      using assms(4) missing by (simp add: locked_writeRecordedEvent_def ready p)
    have free: "json_name (re_id e) \<notin> fst ` set (unread_files s key)" using None by (simp add: map_of_eq_None_iff)
    show ?thesis
    proof (cases "has_room s key (pl_bytes p)")
      case True
      then show ?thesis using persist_with_room(2) [OF assms(1-3) True free, of 0 None] run by auto
    next
      case False
      then show ?thesis using persist_without_room(1) [OF assms(1-3) False, of 0 "re_id e"] run refuse_write_result
        by (metis prod.collapse)
    qed
  next
    case (Some f)
    then obtain q where q: "serialize am (run_event_json e) = Inr q" "f = event_file q" using assms(6) by (auto simp: event_slot_def)
    have "read_event io key (re_id e) s = Inr (pl_value q)"
      using read_event_healthy [OF assms(1,2) io ready(3)] Some q run_event_id serialize_run_event [OF q(1)] by simp
    then show ?thesis using assms(4) by (auto simp: locked_writeRecordedEvent_def ready)
  qed
qed

end
