(* ===== verification/Prompt_Identity.thy ===== *)
theory Prompt_Identity
  imports Intents
begin

text \<open>
  The identity join of \<open>src/messages/prompt.ts\<close>: which single pane, terminal, name, kind and native
  session a set of authoritative records proves, the acknowledgement of one prompt submission, and
  the classification of an observation after it. A record is a \<open>jsval\<close> object; an error carries the
  code and the field it is about, and the bounded diagnostic tree is \<open>boundAgentSessionStrings\<close>.
\<close>

section \<open>Bounded diagnostics\<close>

definition MODEL_AGENT_SESSION_STRING_LIMIT :: nat where
  "MODEL_AGENT_SESSION_STRING_LIMIT = 256"

definition sessionKey :: "string \<Rightarrow> bool" where
  "sessionKey key =
     (let normalized = map lower_char (filter (\<lambda>c. c \<notin> set ''_.-'') key); n = length normalized
      in 12 \<le> n \<and> drop (n - 12) normalized = ''agentsession'')"

definition clip :: "string \<Rightarrow> string" where
  "clip s = take MODEL_AGENT_SESSION_STRING_LIMIT s"

definition compactAgentSession :: "agent_session \<Rightarrow> agent_session" where
  "compactAgentSession s = \<lparr>as_source = clip (as_source s), as_agent = clip (as_agent s),
     as_kind = clip (as_kind s), as_value = clip (as_value s)\<rparr>"

text \<open>
  The session record under a session-shaped key, its missing fields empty; other values are visited.
  On a tree no object is met inside itself, so the cycle marker is never produced.
\<close>

fun boundAgentSessionStrings :: "jsval \<Rightarrow> jsval" where
  "boundAgentSessionStrings (JStr s) = JStr (clip s)"
| "boundAgentSessionStrings (JArr xs) = JArr (map boundAgentSessionStrings xs)"
| "boundAgentSessionStrings (JObj kvs) =
     JObj (map (\<lambda>kv. (fst kv, if sessionKey (fst kv) \<and> is_record (snd kv)
        then session_value (compactAgentSession (session_of (snd kv)))
        else boundAgentSessionStrings (snd kv))) kvs)"
| "boundAgentSessionStrings v = v"

section \<open>Candidates\<close>

record prompt_identity =
  pi_paneId :: string
  pi_terminalId :: string
  pi_agentName :: string
  pi_agentKind :: string
  pi_agentSession :: agent_session

datatype prompt_error = IdentityUnavailable string | IdentityChanged string

definition own :: "jsval \<Rightarrow> string \<Rightarrow> bool" where
  "own v k \<longleftrightarrow> k \<in> set (obj_keys v)"

definition identityString :: "string \<Rightarrow> jsval \<Rightarrow> (prompt_error, string) result" where
  "identityString field v =
     (case v of JStr s \<Rightarrow> if usable s then Inr s else Inl (IdentityUnavailable field)
      | _ \<Rightarrow> Inl (IdentityUnavailable field))"

definition requiredPaneId :: "jsval \<Rightarrow> string \<Rightarrow> (prompt_error, string) result" where
  "requiredPaneId v expected =
     bind_result (identityString ''pane_id'' v) (\<lambda>p.
       if p \<noteq> expected then Inl (IdentityChanged ''pane_id'') else Inr p)"

text \<open>The inner loop over the aliases of one field in one record, then the loop over the records.\<close>

fun alias_loop :: "string \<Rightarrow> jsval \<Rightarrow> string list \<Rightarrow> string option \<Rightarrow> (prompt_error, string option) result" where
  "alias_loop field v [] selected = Inr selected"
| "alias_loop field v (alias # aliases) selected =
     (if \<not> own v alias \<or> jget alias v = JNull then alias_loop field v aliases selected
      else case identityString alias (jget alias v) of
        Inl e \<Rightarrow> Inl e
      | Inr candidate \<Rightarrow>
          (case selected of
             None \<Rightarrow> alias_loop field v aliases (Some candidate)
           | Some s \<Rightarrow> if candidate \<noteq> s then Inl (IdentityChanged field)
                       else alias_loop field v aliases selected))"

fun candidate_loop :: "string \<Rightarrow> string list \<Rightarrow> jsval list \<Rightarrow> string option \<Rightarrow> (prompt_error, string option) result" where
  "candidate_loop field aliases [] selected = Inr selected"
| "candidate_loop field aliases (v # vs) selected =
     (case alias_loop field v aliases selected of
        Inl e \<Rightarrow> Inl e
      | Inr selected' \<Rightarrow> candidate_loop field aliases vs selected')"

definition optionalCandidateStrings :: "jsval list \<Rightarrow> string list \<Rightarrow> string \<Rightarrow> (prompt_error, string option) result" where
  "optionalCandidateStrings records aliases field = candidate_loop field aliases records None"

definition candidateStrings :: "jsval list \<Rightarrow> string list \<Rightarrow> string \<Rightarrow> (prompt_error, string) result" where
  "candidateStrings records aliases field =
     bind_result (optionalCandidateStrings records aliases field) (\<lambda>selected.
       case selected of None \<Rightarrow> Inl (IdentityUnavailable field) | Some s \<Rightarrow> Inr s)"

definition read_session :: "jsval \<Rightarrow> (prompt_error, agent_session) result" where
  "read_session raw =
     (if \<not> is_record raw then Inl (IdentityUnavailable ''agent_session'')
      else bind_result (identityString ''source'' (jget ''source'' raw)) (\<lambda>src.
           bind_result (identityString ''agent'' (jget ''agent'' raw)) (\<lambda>agent.
           bind_result (identityString ''kind'' (jget ''kind'' raw)) (\<lambda>kind.
           bind_result (identityString ''value'' (jget ''value'' raw)) (\<lambda>v.
             Inr \<lparr>as_source = src, as_agent = agent, as_kind = kind, as_value = v\<rparr>)))))"

fun session_loop :: "jsval list \<Rightarrow> agent_session option \<Rightarrow> (prompt_error, agent_session option) result" where
  "session_loop [] selected = Inr selected"
| "session_loop (v # vs) selected =
     (if \<not> own v ''agent_session'' \<or> jget ''agent_session'' v = JNull then session_loop vs selected
      else case read_session (jget ''agent_session'' v) of
        Inl e \<Rightarrow> Inl e
      | Inr candidate \<Rightarrow>
          (case selected of
             None \<Rightarrow> session_loop vs (Some candidate)
           | Some s \<Rightarrow> if s \<noteq> candidate then Inl (IdentityChanged ''agent_session'') else session_loop vs selected))"

definition optionalSessionCandidate :: "jsval list \<Rightarrow> (prompt_error, agent_session option) result" where
  "optionalSessionCandidate records = session_loop records None"

definition sessionCandidates :: "jsval list \<Rightarrow> (prompt_error, agent_session) result" where
  "sessionCandidates records =
     bind_result (optionalSessionCandidate records) (\<lambda>selected.
       case selected of None \<Rightarrow> Inl (IdentityUnavailable ''agent_session'') | Some s \<Rightarrow> Inr s)"

section \<open>The join\<close>

record identity_fields =
  if_paneId :: "string option"
  if_terminalId :: "string option"
  if_agentName :: "string option"
  if_agentKind :: "string option"
  if_agentSession :: "agent_session option"

definition NAME_ALIASES :: "string list" where
  "NAME_ALIASES = [''name'', ''agent_name'']"

definition KIND_ALIASES :: "string list" where
  "KIND_ALIASES = [''agent'', ''agent_kind'', ''kind'']"

definition parsePromptTargetIdentityFields :: "jsval \<Rightarrow> string option \<Rightarrow> (prompt_error, identity_fields) result" where
  "parsePromptTargetIdentityFields v expected =
     (if \<not> is_record v then Inl (IdentityUnavailable ''record'')
      else bind_result (optionalCandidateStrings [v] [''pane_id''] ''pane_id'') (\<lambda>pane.
        if pane \<noteq> None \<and> expected \<noteq> None \<and> pane \<noteq> expected then Inl (IdentityChanged ''pane_id'')
        else bind_result (optionalCandidateStrings [v] [''terminal_id''] ''terminal_id'') (\<lambda>terminal.
             bind_result (optionalCandidateStrings [v] NAME_ALIASES ''agent_name'') (\<lambda>name.
             bind_result (optionalCandidateStrings [v] KIND_ALIASES ''agent_kind'') (\<lambda>kind.
             bind_result (optionalSessionCandidate [v]) (\<lambda>session.
               if session \<noteq> None \<and> kind \<noteq> None \<and> as_agent (the session) \<noteq> the kind
               then Inl (IdentityChanged ''agent_session.agent'')
               else Inr \<lparr>if_paneId = pane, if_terminalId = terminal, if_agentName = name,
                         if_agentKind = kind, if_agentSession = session\<rparr>))))))"

text \<open>The check of each record; \<open>first\<close> is whether this is the record an incomplete start may supply.\<close>

definition check_record :: "bool \<Rightarrow> string \<Rightarrow> jsval \<Rightarrow> (prompt_error, unit) result" where
  "check_record first pane v =
     (if \<not> is_record v then Inl (IdentityUnavailable ''record'')
      else if first then bind_result (parsePromptTargetIdentityFields v (Some pane)) (\<lambda>_. Inr ())
      else bind_result (requiredPaneId (jget ''pane_id'' v) pane) (\<lambda>_. Inr ()))"

fun check_records :: "bool \<Rightarrow> string \<Rightarrow> jsval list \<Rightarrow> (prompt_error, unit) result" where
  "check_records first pane [] = Inr ()"
| "check_records first pane (v # vs) = bind_result (check_record first pane v) (\<lambda>_. check_records False pane vs)"

definition joinPromptTargetIdentity :: "jsval list \<Rightarrow> string \<Rightarrow> bool \<Rightarrow> (prompt_error, prompt_identity) result" where
  "joinPromptTargetIdentity vs expected allowIncompleteFirstRecord =
     bind_result (identityString ''pane_id'' (JStr expected)) (\<lambda>pane.
     if vs = [] then Inl (IdentityUnavailable ''record'')
     else bind_result (check_records allowIncompleteFirstRecord pane vs) (\<lambda>_.
          bind_result (candidateStrings vs [''terminal_id''] ''terminal_id'') (\<lambda>terminal.
          bind_result (candidateStrings vs NAME_ALIASES ''agent_name'') (\<lambda>name.
          bind_result (candidateStrings vs KIND_ALIASES ''agent_kind'') (\<lambda>kind.
          bind_result (sessionCandidates vs) (\<lambda>session.
            if as_agent session \<noteq> kind then Inl (IdentityChanged ''agent_session.agent'')
            else Inr \<lparr>pi_paneId = pane, pi_terminalId = terminal, pi_agentName = name,
                      pi_agentKind = kind, pi_agentSession = session\<rparr>))))))"

definition requirePromptTargetIdentity :: "jsval list \<Rightarrow> string \<Rightarrow> (prompt_error, prompt_identity) result" where
  "requirePromptTargetIdentity vs expected = joinPromptTargetIdentity vs expected False"

definition samePromptTargetIdentity :: "prompt_identity \<Rightarrow> prompt_identity \<Rightarrow> bool" where
  "samePromptTargetIdentity l r \<longleftrightarrow> pi_paneId l = pi_paneId r \<and> pi_terminalId l = pi_terminalId r
     \<and> pi_agentName l = pi_agentName r \<and> pi_agentKind l = pi_agentKind r
     \<and> as_source (pi_agentSession l) = as_source (pi_agentSession r) \<and> as_agent (pi_agentSession l) = as_agent (pi_agentSession r)
     \<and> as_kind (pi_agentSession l) = as_kind (pi_agentSession r) \<and> as_value (pi_agentSession l) = as_value (pi_agentSession r)"

definition compactPromptTargetIdentity :: "prompt_identity \<Rightarrow> prompt_identity" where
  "compactPromptTargetIdentity i = \<lparr>pi_paneId = clip (pi_paneId i), pi_terminalId = clip (pi_terminalId i),
     pi_agentName = clip (pi_agentName i), pi_agentKind = clip (pi_agentKind i),
     pi_agentSession = compactAgentSession (pi_agentSession i)\<rparr>"

section \<open>The submission acknowledgement\<close>

text \<open>\<open>Number.isSafeInteger(value) && value >= 0\<close>, and the number then.\<close>

definition safe_nat :: "jsval \<Rightarrow> nat option" where
  "safe_nat v =
     (case v of JNum q \<Rightarrow> if snd (quotient_of q) = 1 \<and> 0 \<le> q \<and> q \<le> 9007199254740991
                          then Some (nat (fst (quotient_of q))) else None
      | _ \<Rightarrow> None)"

datatype interactive_proof = ManagedProof | DetectionProof

record submission =
  su_operationId :: string
  su_identity :: prompt_identity
  su_proof :: interactive_proof
  su_revision :: nat
  su_stateChangeSeq :: "nat option"
  su_screenDetectionSkipped :: "bool option"

datatype ack_error =
    AckIncompatible
  | AckIdentity prompt_error
  | AckMismatch
  | AckNotInteractive
  | AckCounter string

fun bool_of :: "jsval \<Rightarrow> bool option" where
  "bool_of (JBool b) = Some b"
| "bool_of v = None"

definition optionalSafeInteger :: "string \<Rightarrow> jsval \<Rightarrow> (ack_error, nat option) result" where
  "optionalSafeInteger field v =
     (if v = JUndef then Inr None
      else case safe_nat v of None \<Rightarrow> Inl (AckCounter field) | Some n \<Rightarrow> Inr (Some n))"

definition DETECTED_LIVE_STATES :: "string list" where
  "DETECTED_LIVE_STATES = [''idle'', ''working'', ''blocked'', ''done'']"

definition interactive_proof_of :: "jsval \<Rightarrow> interactive_proof option" where
  "interactive_proof_of agent =
     (if jget ''interactive_ready'' agent = JBool True then Some ManagedProof
      else if jget ''interactive_ready'' agent = JUndef
              \<and> (jget ''launch_pending'' agent = JUndef \<or> jget ''launch_pending'' agent = JBool False)
              \<and> is_str (\<lambda>s. s \<in> set DETECTED_LIVE_STATES) (jget ''agent_status'' agent)
      then Some DetectionProof else None)"

text \<open>The envelope is its \<open>id\<close> and its \<open>result\<close>.\<close>

definition parsePromptSubmission ::
  "jsval \<Rightarrow> jsval \<Rightarrow> prompt_identity \<Rightarrow> string option \<Rightarrow> (ack_error, submission) result" where
  "parsePromptSubmission ident reply expected expectedRequestId =
     (if \<not> is_str usable ident \<or> (expectedRequestId \<noteq> None \<and> ident \<noteq> JStr (the expectedRequestId))
         \<or> \<not> is_record reply \<or> jget ''type'' reply \<noteq> JStr ''agent_prompted'' \<or> \<not> is_record (jget ''agent'' reply)
      then Inl AckIncompatible
      else let agent = jget ''agent'' reply in
        case joinPromptTargetIdentity [agent] (pi_paneId expected) False of
          Inl e \<Rightarrow> Inl (AckIdentity e)
        | Inr identity \<Rightarrow>
            if \<not> samePromptTargetIdentity identity expected then Inl AckMismatch
            else (case interactive_proof_of agent of
                    None \<Rightarrow> Inl AckNotInteractive
                  | Some proof \<Rightarrow>
                      bind_result (optionalSafeInteger ''revision'' (jget ''revision'' agent)) (\<lambda>rev.
                      case rev of None \<Rightarrow> Inl (AckCounter ''revision'')
                      | Some revision \<Rightarrow>
                      bind_result (optionalSafeInteger ''state_change_seq'' (jget ''state_change_seq'' agent)) (\<lambda>seq.
                        Inr \<lparr>su_operationId = str_of ident, su_identity = identity, su_proof = proof,
                             su_revision = revision, su_stateChangeSeq = seq,
                             su_screenDetectionSkipped = bool_of (jget ''screen_detection_skipped'' agent)\<rparr>))))"

section \<open>Observations\<close>

record lifecycle_values =
  lv_state :: "string option"
  lv_stateChangeSeq :: "nat option"
  lv_revision :: "nat option"
  lv_screenDetectionSkipped :: "bool option"
  lv_invalid :: bool

definition KNOWN_PROMPT_STATES :: "string list" where
  "KNOWN_PROMPT_STATES = [''idle'', ''working'', ''blocked'', ''done'', ''unknown'']"

definition absent_value :: "jsval \<Rightarrow> bool" where
  "absent_value v \<longleftrightarrow> v = JUndef \<or> v = JNull"

definition promptLifecycle :: "jsval \<Rightarrow> lifecycle_values" where
  "promptLifecycle v =
     (let rawState = jget ''agent_status'' v;
          state = (case rawState of JStr s \<Rightarrow> if s \<in> set KNOWN_PROMPT_STATES then Some s else None | _ \<Rightarrow> None);
          seq = safe_nat (jget ''state_change_seq'' v);
          revision = safe_nat (jget ''revision'' v)
      in \<lparr>lv_state = state, lv_stateChangeSeq = seq, lv_revision = revision,
          lv_screenDetectionSkipped = bool_of (jget ''screen_detection_skipped'' v),
          lv_invalid = ((\<not> absent_value rawState \<and> state = None)
            \<or> (\<not> absent_value (jget ''state_change_seq'' v) \<and> seq = None)
            \<or> (\<not> absent_value (jget ''revision'' v) \<and> revision = None))\<rparr>)"

record prompt_baseline =
  pb_state :: string
  pb_stateChangeSeq :: nat
  pb_revision :: nat
  pb_screenDetectionSkipped :: "bool option"

definition capturePromptObservationBaseline :: "jsval \<Rightarrow> prompt_identity \<Rightarrow> (prompt_error, prompt_baseline) result" where
  "capturePromptObservationBaseline agentState identity =
     bind_result (requirePromptTargetIdentity [agentState] (pi_paneId identity)) (\<lambda>observed.
     if \<not> samePromptTargetIdentity observed identity then Inl (IdentityChanged ''baseline'')
     else let values = promptLifecycle agentState in
       case (lv_stateChangeSeq values, lv_revision values) of
         (Some seq, Some revision) \<Rightarrow>
           if lv_invalid values \<or> lv_state values \<noteq> Some ''idle'' then Inl (IdentityUnavailable ''baseline'')
           else Inr \<lparr>pb_state = ''idle'', pb_stateChangeSeq = seq, pb_revision = revision,
                     pb_screenDetectionSkipped = lv_screenDetectionSkipped values\<rparr>
       | _ \<Rightarrow> Inl (IdentityUnavailable ''baseline''))"

datatype observation_status = ObsWorking | ObsNotWorking | ObsUnknown | ObsStale | ObsUnavailable

datatype consumption = ConsumptionConfirmed | ConsumptionUnconfirmed

record observation =
  ob_status :: observation_status
  ob_state :: "string option"
  ob_stateChangeSeq :: "nat option"
  ob_revision :: "nat option"
  ob_screenDetectionSkipped :: "bool option"
  ob_consumption :: "consumption option"
  ob_code :: "string option"
  ob_evidence :: "jsval option"

definition IDENTITY_FIELDS :: "string list" where
  "IDENTITY_FIELDS = [''pane_id'', ''terminal_id'', ''name'', ''agent_name'', ''agent'', ''agent_kind'', ''kind'', ''agent_status'',
     ''revision'', ''state_change_seq'', ''interactive_ready'', ''screen_detection_skipped'']"

fun clip_value :: "jsval \<Rightarrow> jsval" where
  "clip_value (JStr s) = JStr (clip s)"
| "clip_value v = v"

definition compactIdentityRecord :: "jsval \<Rightarrow> jsval" where
  "compactIdentityRecord v = JObj
     (map (\<lambda>k. (k, clip_value (jget k v))) (filter (\<lambda>k. jget k v \<noteq> JUndef) IDENTITY_FIELDS)
      @ (if is_record (jget ''agent_session'' v)
         then [(''agent_session'', session_value (compactAgentSession (session_of (jget ''agent_session'' v))))] else []))"

definition boundedObservationEvidence :: "jsval list \<Rightarrow> jsval" where
  "boundedObservationEvidence records = JObj [(''records'', JArr (map compactIdentityRecord records))]"

definition observation_common :: "observation_status \<Rightarrow> lifecycle_values \<Rightarrow> bool option \<Rightarrow> consumption option \<Rightarrow> observation" where
  "observation_common status lv skipped c = \<lparr>ob_status = status, ob_state = lv_state lv, ob_stateChangeSeq = lv_stateChangeSeq lv,
     ob_revision = lv_revision lv, ob_screenDetectionSkipped = orElse (lv_screenDetectionSkipped lv) skipped,
     ob_consumption = c, ob_code = None, ob_evidence = None\<rparr>"

definition observation_unavailable :: "string \<Rightarrow> jsval option \<Rightarrow> consumption option \<Rightarrow> observation" where
  "observation_unavailable code evidence c = \<lparr>ob_status = ObsUnavailable, ob_state = None, ob_stateChangeSeq = None,
     ob_revision = None, ob_screenDetectionSkipped = None, ob_consumption = c, ob_code = Some code, ob_evidence = evidence\<rparr>"

definition classifyPromptObservation ::
  "jsval \<Rightarrow> submission \<Rightarrow> prompt_baseline option \<Rightarrow> jsval list \<Rightarrow> observation" where
  "classifyPromptObservation agentState sub baseline continuity =
     (let evidence = boundedObservationEvidence (agentState # continuity);
          unconfirmed = map_option (\<lambda>_. ConsumptionUnconfirmed) baseline;
          pane = pi_paneId (su_identity sub) in
      case bind_result (requirePromptTargetIdentity [agentState] pane)
             (\<lambda>_. requirePromptTargetIdentity (agentState # continuity) pane) of
        Inl (IdentityChanged f) \<Rightarrow> observation_unavailable ''POSTSTATE_IDENTITY_CHANGED'' (Some evidence) unconfirmed
      | Inl (IdentityUnavailable f) \<Rightarrow> observation_unavailable ''POSTSTATE_IDENTITY_UNAVAILABLE'' None unconfirmed
      | Inr identity \<Rightarrow>
        if \<not> samePromptTargetIdentity identity (su_identity sub)
        then observation_unavailable ''POSTSTATE_IDENTITY_CHANGED'' (Some evidence) unconfirmed
        else let values = promptLifecycle agentState; skipped = su_screenDetectionSkipped sub in
          if lv_invalid values
          then (observation_common ObsUnavailable values skipped unconfirmed)
                 \<lparr>ob_code := Some ''POSTSTATE_CONTRADICTORY'', ob_evidence := Some evidence\<rparr>
          else (case lv_state values of
             None \<Rightarrow> (observation_common ObsUnavailable values skipped unconfirmed)\<lparr>ob_code := Some ''POSTSTATE_UNAVAILABLE''\<rparr>
           | Some state \<Rightarrow>
              (let minimumRevision = (case baseline of None \<Rightarrow> su_revision sub | Some b \<Rightarrow> max (su_revision sub) (pb_revision b)) in
               if (case lv_revision values of None \<Rightarrow> False | Some r \<Rightarrow> r < minimumRevision)
               then observation_common ObsStale values skipped unconfirmed
               else let status = (if state = ''working'' then ObsWorking else if state = ''unknown'' then ObsUnknown else ObsNotWorking) in
                 case baseline of
                   None \<Rightarrow> observation_common status values skipped None
                 | Some b \<Rightarrow>
                     observation_common status values skipped (Some (
                       if status \<noteq> ObsUnknown
                          \<and> (case lv_stateChangeSeq values of None \<Rightarrow> False | Some n \<Rightarrow> n > pb_stateChangeSeq b)
                          \<and> (case lv_revision values of None \<Rightarrow> False | Some r \<Rightarrow> r \<ge> minimumRevision)
                       then ConsumptionConfirmed else ConsumptionUnconfirmed)))))"

definition unavailablePromptObservation :: "jsval \<Rightarrow> observation" where
  "unavailablePromptObservation err =
     observation_unavailable (case jget ''code'' err of JStr c \<Rightarrow> c | _ \<Rightarrow> ''POSTSTATE_UNAVAILABLE'') None None"


section \<open>What a record set proves\<close>

text \<open>The values a record set supplies for an alias group, and for the native session.\<close>

definition supplied :: "string list \<Rightarrow> jsval list \<Rightarrow> jsval list" where
  "supplied aliases vs =
     concat (map (\<lambda>v. map (\<lambda>a. jget a v) (filter (\<lambda>a. own v a \<and> jget a v \<noteq> JNull) aliases)) vs)"

definition proves :: "string list \<Rightarrow> jsval list \<Rightarrow> string \<Rightarrow> bool" where
  "proves aliases vs s \<longleftrightarrow> usable s \<and> set (supplied aliases vs) = {JStr s}"

definition proves_session :: "jsval list \<Rightarrow> agent_session \<Rightarrow> bool" where
  "proves_session vs s \<longleftrightarrow> supplied [''agent_session''] vs \<noteq> []
     \<and> list_all (\<lambda>raw. read_session raw = Inr s) (supplied [''agent_session''] vs)"

lemma supplied_simps [simp]:
  "supplied aliases [] = []"
  "supplied aliases (v # vs) = map (\<lambda>a. jget a v) (filter (\<lambda>a. own v a \<and> jget a v \<noteq> JNull) aliases) @ supplied aliases vs"
  by (simp_all add: supplied_def)

lemma identityString_Inr [simp]: "identityString f v = Inr s \<longleftrightarrow> v = JStr s \<and> usable s"
  by (cases v) (auto simp: identityString_def)

text \<open>One step of either loop on the values themselves.\<close>

fun agree :: "string option \<Rightarrow> jsval list \<Rightarrow> string option \<Rightarrow> bool" where
  "agree selected [] result \<longleftrightarrow> result = selected"
| "agree selected (v # vs) result \<longleftrightarrow>
     (\<exists>s. v = JStr s \<and> usable s \<and> (selected = None \<or> selected = Some s) \<and> agree (Some s) vs result)"

lemma agree_append: "agree sel (xs @ ys) res \<longleftrightarrow> (\<exists>mid. agree sel xs mid \<and> agree mid ys res)"
  by (induction sel xs res rule: agree.induct) auto

lemma alias_loop_agree:
  "alias_loop field v aliases sel = Inr res
   \<longleftrightarrow> agree sel (map (\<lambda>a. jget a v) (filter (\<lambda>a. own v a \<and> jget a v \<noteq> JNull) aliases)) res"
proof (induction aliases arbitrary: sel)
  case Nil
  show ?case by auto
next
  case (Cons a as)
  show ?case
  proof (cases "own v a \<and> jget a v \<noteq> JNull")
    case True
    then show ?thesis
      by (cases "identityString a (jget a v)"; cases sel)
        (auto simp: Cons.IH identityString_def split: jsval.splits if_splits)
  next
    case False
    then show ?thesis by (auto simp: Cons.IH)
  qed
qed

lemma candidate_loop_agree: "candidate_loop field aliases vs sel = Inr res \<longleftrightarrow> agree sel (supplied aliases vs) res"
proof (induction vs arbitrary: sel)
  case Nil
  show ?case by auto
next
  case (Cons v vs)
  show ?case
  proof (cases "alias_loop field v aliases sel")
    case (Inl e)
    then have "\<not> agree sel (map (\<lambda>a. jget a v) (filter (\<lambda>a. own v a \<and> jget a v \<noteq> JNull) aliases)) mid" for mid
      using alias_loop_agree [of field v aliases sel mid] by auto
    with Inl show ?thesis by (simp add: agree_append)
  next
    case (Inr mid)
    then have "agree sel (map (\<lambda>a. jget a v) (filter (\<lambda>a. own v a \<and> jget a v \<noteq> JNull) aliases)) m \<longleftrightarrow> m = mid" for m
      using alias_loop_agree [of field v aliases sel m] by auto
    with Inr show ?thesis by (simp add: agree_append Cons.IH)
  qed
qed

lemma agree_Some: "agree (Some s) vs res \<longleftrightarrow> res = Some s \<and> (vs = [] \<or> usable s) \<and> set vs \<subseteq> {JStr s}"
  by (induction vs arbitrary: res) auto

lemma agree_None: "agree None vs res \<longleftrightarrow> (vs = [] \<and> res = None) \<or> (\<exists>s. res = Some s \<and> usable s \<and> set vs = {JStr s})"
proof (cases vs)
  case Nil
  then show ?thesis by auto
next
  case (Cons v us)
  have "set (v # us) = {JStr s} \<longleftrightarrow> v = JStr s \<and> set us \<subseteq> {JStr s}" for s by auto
  then show ?thesis using Cons by (simp add: agree_Some) blast
qed

lemma optionalCandidateStrings_spec:
  "optionalCandidateStrings vs aliases field = Inr res
   \<longleftrightarrow> (supplied aliases vs = [] \<and> res = None) \<or> (\<exists>s. res = Some s \<and> proves aliases vs s)"
  by (simp add: optionalCandidateStrings_def candidate_loop_agree agree_None proves_def)

lemma candidateStrings_spec: "candidateStrings vs aliases field = Inr s \<longleftrightarrow> proves aliases vs s"
  by (auto simp: candidateStrings_def bind_result_eq_Inr_conv optionalCandidateStrings_spec split: option.splits)

fun agree_session :: "agent_session option \<Rightarrow> jsval list \<Rightarrow> agent_session option \<Rightarrow> bool" where
  "agree_session selected [] result \<longleftrightarrow> result = selected"
| "agree_session selected (v # vs) result \<longleftrightarrow>
     (\<exists>s. read_session v = Inr s \<and> (selected = None \<or> selected = Some s) \<and> agree_session (Some s) vs result)"

lemma session_loop_agree: "session_loop vs sel = Inr res \<longleftrightarrow> agree_session sel (supplied [''agent_session''] vs) res"
proof (induction vs arbitrary: sel)
  case Nil
  show ?case by auto
next
  case (Cons v vs)
  show ?case
    by (cases "own v ''agent_session'' \<and> jget ''agent_session'' v \<noteq> JNull"; cases "read_session (jget ''agent_session'' v)"; cases sel)
      (auto simp: Cons.IH)
qed

lemma agree_session_Some: "agree_session (Some s) vs res \<longleftrightarrow> res = Some s \<and> list_all (\<lambda>raw. read_session raw = Inr s) vs"
  by (induction vs arbitrary: res) auto

lemma agree_session_None:
  "agree_session None vs res \<longleftrightarrow> (vs = [] \<and> res = None)
     \<or> (\<exists>s. res = Some s \<and> vs \<noteq> [] \<and> list_all (\<lambda>raw. read_session raw = Inr s) vs)"
  by (cases vs) (auto simp: agree_session_Some)

lemma optionalSessionCandidate_spec:
  "optionalSessionCandidate vs = Inr res
   \<longleftrightarrow> (supplied [''agent_session''] vs = [] \<and> res = None) \<or> (\<exists>s. res = Some s \<and> proves_session vs s)"
  by (simp add: optionalSessionCandidate_def session_loop_agree agree_session_None proves_session_def)

lemma sessionCandidates_spec: "sessionCandidates vs = Inr s \<longleftrightarrow> proves_session vs s"
  by (auto simp: sessionCandidates_def bind_result_eq_Inr_conv optionalSessionCandidate_spec split: option.splits)

lemma check_records_strict:
  "check_records False pane vs = Inr () \<longleftrightarrow> list_all (\<lambda>v. is_record v \<and> jget ''pane_id'' v = JStr pane \<and> usable pane) vs"
  by (induction vs)
    (auto simp: check_record_def requiredPaneId_def bind_result_eq_Inr_conv split: if_splits)

lemma join_strict:
  "joinPromptTargetIdentity vs pane False = Inr i \<longleftrightarrow>
     vs \<noteq> [] \<and> usable pane \<and> pi_paneId i = pane
     \<and> list_all (\<lambda>v. is_record v \<and> jget ''pane_id'' v = JStr pane) vs
     \<and> proves [''terminal_id''] vs (pi_terminalId i) \<and> proves NAME_ALIASES vs (pi_agentName i)
     \<and> proves KIND_ALIASES vs (pi_agentKind i) \<and> proves_session vs (pi_agentSession i)
     \<and> as_agent (pi_agentSession i) = pi_agentKind i"
proof (cases i)
  case (fields p t n k s)
  have guard: "(if P then Inl e else Inr x) = Inr y \<longleftrightarrow> \<not> P \<and> x = y" for P e and x y :: prompt_identity by simp
  have unit: "(\<exists>u. check_records False pane vs = Inr u \<and> R) \<longleftrightarrow> check_records False pane vs = Inr () \<and> R" for R by auto
  show ?thesis
    unfolding joinPromptTargetIdentity_def fields
    by (auto simp: bind_result_eq_Inr_conv guard unit candidateStrings_spec sessionCandidates_spec check_records_strict
        list_all_iff)
qed

section \<open>Properties\<close>

lemma set_supplied: "set (supplied aliases vs) = (\<Union>v \<in> set vs. (\<lambda>a. jget a v) ` {a \<in> set aliases. own v a \<and> jget a v \<noteq> JNull})"
  by (induction vs) auto

lemma proves_set_cong: "set vs = set us \<Longrightarrow> proves aliases vs s \<longleftrightarrow> proves aliases us s"
  by (simp add: proves_def set_supplied)

lemma proves_session_set_cong:
  assumes "set vs = set us"
  shows "proves_session vs s \<longleftrightarrow> proves_session us s"
proof -
  have "set (supplied [''agent_session''] vs) = set (supplied [''agent_session''] us)"
    using assms by (simp add: set_supplied)
  then show ?thesis unfolding proves_session_def list_all_iff by (metis set_empty)
qed

lemma samePromptTargetIdentity_eq: "samePromptTargetIdentity i j \<longleftrightarrow> i = j"
  by (cases i; cases j; cases "pi_agentSession i"; cases "pi_agentSession j")
    (auto simp: samePromptTargetIdentity_def)

text \<open>
  C27. The identity join is exact: it answers with an identity precisely when there is at least one
  record, every record is an object for the requested pane, each field is supplied by some record
  and all values supplied under any of its aliases are that one usable string, all supplied native
  sessions are that one complete session, and its agent is the kind. The order and repetition of the
  records do not matter.
\<close>

theorem identity_join_exact:
  "(joinPromptTargetIdentity vs pane False = Inr i \<longleftrightarrow>
     vs \<noteq> [] \<and> usable pane \<and> pi_paneId i = pane
     \<and> list_all (\<lambda>v. is_record v \<and> jget ''pane_id'' v = JStr pane) vs
     \<and> proves [''terminal_id''] vs (pi_terminalId i) \<and> proves NAME_ALIASES vs (pi_agentName i)
     \<and> proves KIND_ALIASES vs (pi_agentKind i) \<and> proves_session vs (pi_agentSession i)
     \<and> as_agent (pi_agentSession i) = pi_agentKind i)
   \<and> (set us = set vs \<longrightarrow>
       (joinPromptTargetIdentity us pane False = Inr i \<longleftrightarrow> joinPromptTargetIdentity vs pane False = Inr i))"
proof (intro conjI impI)
  assume eq: "set us = set vs"
  then have "us = [] \<longleftrightarrow> vs = []" by auto
  then show "joinPromptTargetIdentity us pane False = Inr i \<longleftrightarrow> joinPromptTargetIdentity vs pane False = Inr i"
    unfolding join_strict using eq proves_set_cong [OF eq] proves_session_set_cong [OF eq]
    by (simp add: list_all_iff)
qed (rule join_strict)

definition example_record :: jsval where
  "example_record = JObj [(''pane_id'', JStr ''p1''), (''terminal_id'', JStr ''t1''), (''agent_name'', JStr ''worker''),
     (''agent'', JStr ''pi''), (''agent_session'', JObj [(''source'', JStr ''herdr''), (''agent'', JStr ''pi''),
       (''kind'', JStr ''id''), (''value'', JStr ''s1'')]), (''agent_status'', JStr ''working''), (''revision'', JNum 7),
     (''state_change_seq'', JNum 3)]"

definition example_identity :: prompt_identity where
  "example_identity = \<lparr>pi_paneId = ''p1'', pi_terminalId = ''t1'', pi_agentName = ''worker'', pi_agentKind = ''pi'',
     pi_agentSession = \<lparr>as_source = ''herdr'', as_agent = ''pi'', as_kind = ''id'', as_value = ''s1''\<rparr>\<rparr>"

lemma example_join: "joinPromptTargetIdentity [example_record] ''p1'' False = Inr example_identity"
  by code_simp

theorem identity_join_exact_witness:
  "set [example_record, example_record] = set [example_record]
   \<and> joinPromptTargetIdentity [example_record, example_record] ''p1'' False = Inr example_identity"
  using identity_join_exact [of "[example_record]" "''p1''" example_identity "[example_record, example_record]"] example_join
  by simp

lemma safe_nat_bound: "safe_nat v = Some n \<Longrightarrow> n \<le> 9007199254740991"
proof -
  assume "safe_nat v = Some n"
  then obtain q where q: "snd (quotient_of q) = 1" "0 \<le> q" "q \<le> 9007199254740991" "n = nat (fst (quotient_of q))"
    by (auto simp: safe_nat_def split: jsval.splits if_splits)
  obtain a where "quotient_of q = (a, 1)" using q(1) by (cases "quotient_of q") auto
  then have "q = of_int a" "n = nat a" using quotient_of_div [of q a 1] q(4) by simp_all
  then show ?thesis using q(2,3) by (simp add: nat_le_iff)
qed

lemma optionalSafeInteger_Some: "optionalSafeInteger f v = Inr (Some n) \<longleftrightarrow> safe_nat v = Some n"
  by (auto simp: optionalSafeInteger_def safe_nat_def split: option.splits jsval.splits)

lemma parsePromptSubmission_Inr:
  assumes "parsePromptSubmission ident reply expected rid = Inr sub"
  shows "is_str usable ident \<and> (rid = None \<or> ident = JStr (the rid))
    \<and> joinPromptTargetIdentity [jget ''agent'' reply] (pi_paneId expected) False = Inr expected
    \<and> (\<exists>p. interactive_proof_of (jget ''agent'' reply) = Some p \<and> su_proof sub = p)
    \<and> safe_nat (jget ''revision'' (jget ''agent'' reply)) = Some (su_revision sub)
    \<and> su_identity sub = expected \<and> su_operationId sub = str_of ident"
proof -
  define agent where "agent = jget ''agent'' reply"
  define seq where "seq = jget ''state_change_seq'' agent"
  define rev where "rev = jget ''revision'' agent"
  define skipped where "skipped = jget ''screen_detection_skipped'' agent"
  note folds = agent_def [symmetric] seq_def [symmetric] rev_def [symmetric] skipped_def [symmetric]
  have guards: "is_str usable ident" "rid = None \<or> ident = JStr (the rid)"
    using assms unfolding parsePromptSubmission_def by (auto split: if_splits)
  have body: "(case joinPromptTargetIdentity [agent] (pi_paneId expected) False of
        Inl e \<Rightarrow> Inl (AckIdentity e)
      | Inr identity \<Rightarrow>
          if identity \<noteq> expected then Inl AckMismatch
          else (case interactive_proof_of agent of
                  None \<Rightarrow> Inl AckNotInteractive
                | Some proof \<Rightarrow>
                    bind_result (optionalSafeInteger ''revision'' rev) (\<lambda>rev.
                    case rev of None \<Rightarrow> Inl (AckCounter ''revision'')
                    | Some revision \<Rightarrow>
                    bind_result (optionalSafeInteger ''state_change_seq'' seq) (\<lambda>seq.
                      Inr \<lparr>su_operationId = str_of ident, su_identity = identity, su_proof = proof,
                           su_revision = revision, su_stateChangeSeq = seq,
                           su_screenDetectionSkipped = bool_of skipped\<rparr>)))) = Inr sub"
    using assms unfolding parsePromptSubmission_def Let_def samePromptTargetIdentity_eq folds
    by (simp split: if_splits)
  then obtain p r q where "joinPromptTargetIdentity [agent] (pi_paneId expected) False = Inr expected"
      "interactive_proof_of agent = Some p" "optionalSafeInteger ''revision'' rev = Inr (Some r)"
      "sub = \<lparr>su_operationId = str_of ident, su_identity = expected, su_proof = p, su_revision = r, su_stateChangeSeq = q,
              su_screenDetectionSkipped = bool_of skipped\<rparr>"
    by (auto simp: bind_result_eq_Inr_conv split: sum.splits if_splits option.splits)
  then show ?thesis using guards unfolding folds by (simp add: optionalSafeInteger_Some)
qed

text \<open>
  An acknowledgement confirms only the captured target: when the reply to a prompt is accepted,
  it correlates with the request, names exactly the identity captured before the submission, proves
  an interactive agent either by the managed flag or by a detected live state of an agent that is not
  still launching, and carries a revision within the safe integers.
\<close>

theorem ack_confirms_captured_target:
  assumes "parsePromptSubmission ident reply expected rid = Inr sub"
  shows "su_identity sub = expected
       \<and> ident = JStr (su_operationId sub) \<and> (rid = None \<or> rid = Some (su_operationId sub))
       \<and> joinPromptTargetIdentity [jget ''agent'' reply] (pi_paneId expected) False = Inr expected
       \<and> (su_proof sub = ManagedProof \<longleftrightarrow> jget ''interactive_ready'' (jget ''agent'' reply) = JBool True)
       \<and> (su_proof sub = DetectionProof \<longrightarrow> jget ''interactive_ready'' (jget ''agent'' reply) = JUndef
            \<and> jget ''launch_pending'' (jget ''agent'' reply) \<in> {JUndef, JBool False}
            \<and> jget ''agent_status'' (jget ''agent'' reply) \<in> JStr ` set DETECTED_LIVE_STATES)
       \<and> safe_nat (jget ''revision'' (jget ''agent'' reply)) = Some (su_revision sub)
       \<and> su_revision sub \<le> 9007199254740991"
proof -
  have live: "is_str (\<lambda>s. s \<in> X) v \<longleftrightarrow> v \<in> JStr ` X" for v X by (cases v) auto
  obtain p q where sub: "is_str usable ident" "rid = None \<or> ident = JStr (the rid)"
      "joinPromptTargetIdentity [jget ''agent'' reply] (pi_paneId expected) False = Inr expected"
      "interactive_proof_of (jget ''agent'' reply) = Some p"
      "safe_nat (jget ''revision'' (jget ''agent'' reply)) = Some (su_revision sub)"
      "su_identity sub = expected" "su_proof sub = p" "su_operationId sub = str_of ident"
    using parsePromptSubmission_Inr [OF assms] by blast
  obtain s where s: "ident = JStr s" using sub(1) by (cases ident) auto
  have "(p = ManagedProof \<longleftrightarrow> jget ''interactive_ready'' (jget ''agent'' reply) = JBool True)
      \<and> (p = DetectionProof \<longrightarrow> jget ''interactive_ready'' (jget ''agent'' reply) = JUndef
            \<and> jget ''launch_pending'' (jget ''agent'' reply) \<in> {JUndef, JBool False}
            \<and> jget ''agent_status'' (jget ''agent'' reply) \<in> JStr ` set DETECTED_LIVE_STATES)"
    using sub(4) unfolding interactive_proof_of_def live by (simp split: if_splits)
  then show ?thesis using sub s safe_nat_bound [OF sub(5)] by (cases rid) auto
qed

definition example_reply :: jsval where
  "example_reply = JObj [(''type'', JStr ''agent_prompted''), (''agent'', example_record)]"

definition example_submission :: submission where
  "example_submission = \<lparr>su_operationId = ''r1'', su_identity = example_identity, su_proof = DetectionProof,
     su_revision = 7, su_stateChangeSeq = Some 3, su_screenDetectionSkipped = None\<rparr>"

lemma example_ack: "parsePromptSubmission (JStr ''r1'') example_reply example_identity (Some ''r1'') = Inr example_submission"
  by code_simp

theorem ack_confirms_captured_target_witness:
  "parsePromptSubmission (JStr ''r1'') example_reply example_identity (Some ''r1'') = Inr example_submission
   \<and> safe_nat (jget ''revision'' (jget ''agent'' example_reply)) = Some (su_revision example_submission)"
  using ack_confirms_captured_target [OF example_ack] example_ack by simp

text \<open>
  A prompt is reported as consumed exactly when the agent's own fresh record proves the complete
  identity that was submitted to, every continuity record agrees with it, its lifecycle fields are
  well formed, its state is known and not \<open>unknown\<close>, its state counter is past the baseline, and its
  revision is at least that of both the acknowledgement and the baseline.
\<close>

theorem prompt_consumption_confirmed_iff:
  "ob_consumption (classifyPromptObservation agentState sub (Some b) continuity) = Some ConsumptionConfirmed
   \<longleftrightarrow> requirePromptTargetIdentity [agentState] (pi_paneId (su_identity sub)) = Inr (su_identity sub)
     \<and> requirePromptTargetIdentity (agentState # continuity) (pi_paneId (su_identity sub)) = Inr (su_identity sub)
     \<and> \<not> lv_invalid (promptLifecycle agentState)
     \<and> (\<exists>st. lv_state (promptLifecycle agentState) = Some st \<and> st \<noteq> ''unknown'')
     \<and> (\<exists>n. lv_stateChangeSeq (promptLifecycle agentState) = Some n \<and> pb_stateChangeSeq b < n)
     \<and> (\<exists>r. lv_revision (promptLifecycle agentState) = Some r \<and> max (su_revision sub) (pb_revision b) \<le> r)"
proof -
  let ?p = "pi_paneId (su_identity sub)" and ?lv = "promptLifecycle agentState"
  let ?one = "requirePromptTargetIdentity [agentState] ?p" and ?all = "requirePromptTargetIdentity (agentState # continuity) ?p"
  have same: "i = j" if "?one = Inr i" "?all = Inr j" for i j
  proof -
    have "proves a (v # vs) s \<Longrightarrow> proves a [v] s' \<Longrightarrow> s' = s" for a v vs s s' by (auto simp: proves_def)
    moreover have "proves_session (v # vs) s \<Longrightarrow> proves_session [v] s' \<Longrightarrow> s' = s" for v vs s s'
      by (auto simp: proves_session_def split: if_splits)
    ultimately show ?thesis
      using that unfolding requirePromptTargetIdentity_def join_strict
      by (intro prompt_identity.equality) (blast | simp)+
  qed
  show ?thesis
  proof (cases "bind_result ?one (\<lambda>_. ?all)")
    case (Inl e)
    then have "\<not> (?one = Inr (su_identity sub) \<and> ?all = Inr (su_identity sub))" by auto
    moreover have "ob_consumption (classifyPromptObservation agentState sub (Some b) continuity) \<noteq> Some ConsumptionConfirmed"
      using Inl by (cases e) (simp_all add: classifyPromptObservation_def observation_unavailable_def)
    ultimately show ?thesis by blast
  next
    case (Inr i)
    then have i: "?one = Inr i" "?all = Inr i" using same by (auto simp: bind_result_eq_Inr_conv)
    show ?thesis
    proof (cases "i = su_identity sub")
      case False
      then show ?thesis using Inr i
        by (simp add: classifyPromptObservation_def observation_unavailable_def samePromptTargetIdentity_eq)
    next
      case True
      then show ?thesis using Inr i
        by (auto simp: classifyPromptObservation_def observation_common_def samePromptTargetIdentity_eq Let_def
            split: option.splits if_splits)
    qed
  qed
qed

end
