(* ===== verification/Topology.thy ===== *)
theory Topology
  imports Prompt_Identity
begin

text \<open>
  The authoritative topology snapshot and everything resolved against it: \<open>src/targets.ts\<close> (parsing a
  snapshot, exact target resolution), \<open>src/context.ts\<close> (the caller's effective context, the manager's
  native session) and the record helpers of \<open>src/messages/prompt-target.ts\<close>. A snapshot's records
  are open JavaScript objects and stay \<open>jsval\<close>; the parser guarantees their identifiers. The replies of
  the command line tool are arguments.
\<close>

section \<open>Snapshots\<close>

record snapshot =
  sn_version :: string
  sn_protocol :: rat
  sn_workspaces :: "jsval list"
  sn_tabs :: "jsval list"
  sn_panes :: "jsval list"
  sn_agents :: "jsval list"

datatype protocol_error = CliProtocolError string

definition requiredString :: "string \<Rightarrow> jsval \<Rightarrow> (protocol_error, string) result" where
  "requiredString field v =
     (case v of JStr s \<Rightarrow> if s = [] then Inl (CliProtocolError field) else Inr s | _ \<Rightarrow> Inl (CliProtocolError field))"

definition requiredNumber :: "string \<Rightarrow> jsval \<Rightarrow> (protocol_error, rat) result" where
  "requiredNumber field v = (case v of JNum q \<Rightarrow> Inr q | _ \<Rightarrow> Inl (CliProtocolError field))"

fun map_result :: "('a \<Rightarrow> ('e, 'b) result) \<Rightarrow> 'a list \<Rightarrow> ('e, 'b list) result" where
  "map_result f [] = Inr []"
| "map_result f (x # xs) = bind_result (f x) (\<lambda>y. bind_result (map_result f xs) (\<lambda>ys. Inr (y # ys)))"

fun require_strings :: "string list \<Rightarrow> jsval \<Rightarrow> (protocol_error, jsval) result" where
  "require_strings [] v = Inr v"
| "require_strings (k # ks) v = bind_result (requiredString k (jget k v)) (\<lambda>_. require_strings ks v)"

definition parse_item :: "string \<Rightarrow> string list \<Rightarrow> jsval \<Rightarrow> (protocol_error, jsval) result" where
  "parse_item what ks v = (if is_record v then require_strings ks v else Inl (CliProtocolError what))"

fun add_entry :: "string \<Rightarrow> jsval \<Rightarrow> jsval \<Rightarrow> jsval" where
  "add_entry k x (JObj kvs) = JObj (kvs @ [(k, x)])"
| "add_entry k x v = v"

text \<open>A pane's \<open>name\<close> stands in for a missing \<open>agent_name\<close>.\<close>

definition parse_pane :: "jsval \<Rightarrow> (protocol_error, jsval) result" where
  "parse_pane v =
     bind_result (parse_item ''pane'' [''pane_id'', ''tab_id'', ''workspace_id''] v) (\<lambda>p.
       Inr (if is_str (\<lambda>_. True) (jget ''name'' p) \<and> \<not> own p ''agent_name'' then add_entry ''agent_name'' (jget ''name'' p) p
            else p))"

definition parseSnapshotResult :: "jsval \<Rightarrow> (protocol_error, snapshot) result" where
  "parseSnapshotResult v =
     (if \<not> is_record v \<or> jget ''type'' v \<noteq> JStr ''session_snapshot'' \<or> \<not> is_record (jget ''snapshot'' v)
      then Inl (CliProtocolError ''snapshot'')
      else let raw = jget ''snapshot'' v in
        case (jget ''workspaces'' raw, jget ''tabs'' raw, jget ''panes'' raw, jget ''agents'' raw) of
          (JArr ws, JArr ts, JArr ps, JArr as) \<Rightarrow>
            bind_result (map_result (parse_item ''workspace'' [''workspace_id'', ''label'']) ws) (\<lambda>workspaces.
            bind_result (map_result (parse_item ''tab'' [''tab_id'', ''workspace_id'', ''label'']) ts) (\<lambda>tabs.
            bind_result (map_result parse_pane ps) (\<lambda>panes.
            bind_result (map_result (parse_item ''agent'' [''pane_id'']) as) (\<lambda>agents.
            bind_result (requiredString ''version'' (jget ''version'' raw)) (\<lambda>version.
            bind_result (requiredNumber ''protocol'' (jget ''protocol'' raw)) (\<lambda>protocol.
              Inr \<lparr>sn_version = version, sn_protocol = protocol, sn_workspaces = workspaces, sn_tabs = tabs,
                   sn_panes = panes, sn_agents = agents\<rparr>))))))
        | _ \<Rightarrow> Inl (CliProtocolError ''collections''))"

definition with_field :: "string \<Rightarrow> string \<Rightarrow> jsval list \<Rightarrow> jsval list" where
  "with_field k s vs = filter (\<lambda>v. jget k v = JStr s) vs"

definition find_field :: "string \<Rightarrow> string \<Rightarrow> jsval list \<Rightarrow> jsval option" where
  "find_field k s vs = find (\<lambda>v. jget k v = JStr s) vs"

section \<open>Target resolution\<close>

datatype resource_kind = PaneKind | AgentKind | TabKind | WorkspaceKind

record current_context =
  cc_workspaceId :: "string option"
  cc_tabId :: "string option"
  cc_paneId :: "string option"

record resolved_target =
  rt_kind :: resource_kind
  rt_id :: string
  rt_workspaceId :: string
  rt_tabId :: "string option"
  rt_paneId :: "string option"
  rt_label :: jsval
  rt_agentName :: jsval
  rt_record :: jsval

datatype target_error =
    InvalidTarget
  | TargetContextUnavailable
  | TargetNotFound
  | TargetAmbiguous "string list"
  | TargetTypeMismatch resource_kind

definition id_of :: "string \<Rightarrow> jsval \<Rightarrow> string" where
  "id_of k v = str_of (jget k v)"

definition workspace_target :: "jsval \<Rightarrow> resolved_target" where
  "workspace_target w = \<lparr>rt_kind = WorkspaceKind, rt_id = id_of ''workspace_id'' w, rt_workspaceId = id_of ''workspace_id'' w,
     rt_tabId = None, rt_paneId = None, rt_label = jget ''label'' w, rt_agentName = JUndef, rt_record = w\<rparr>"

definition tab_target :: "jsval \<Rightarrow> resolved_target" where
  "tab_target t = \<lparr>rt_kind = TabKind, rt_id = id_of ''tab_id'' t, rt_workspaceId = id_of ''workspace_id'' t,
     rt_tabId = Some (id_of ''tab_id'' t), rt_paneId = None, rt_label = jget ''label'' t, rt_agentName = JUndef, rt_record = t\<rparr>"

definition pane_target :: "resource_kind \<Rightarrow> jsval \<Rightarrow> resolved_target" where
  "pane_target kind p = \<lparr>rt_kind = kind, rt_id = id_of ''pane_id'' p, rt_workspaceId = id_of ''workspace_id'' p,
     rt_tabId = Some (id_of ''tab_id'' p), rt_paneId = Some (id_of ''pane_id'' p), rt_label = jget ''label'' p,
     rt_agentName = jget ''agent_name'' p, rt_record = p\<rparr>"

text \<open>\<open>fallback\<close> is whether a missing agent name is read from the pane.\<close>

definition agent_target :: "snapshot \<Rightarrow> bool \<Rightarrow> jsval \<Rightarrow> resolved_target" where
  "agent_target sn fallback a =
     (let pane = find_field ''pane_id'' (id_of ''pane_id'' a) (sn_panes sn);
          field = (\<lambda>k. case pane of None \<Rightarrow> JUndef | Some p \<Rightarrow> jget k p)
      in \<lparr>rt_kind = AgentKind, rt_id = id_of ''pane_id'' a,
          rt_workspaceId = (case pane of None \<Rightarrow> [] | Some p \<Rightarrow> id_of ''workspace_id'' p),
          rt_tabId = map_option (id_of ''tab_id'') pane, rt_paneId = Some (id_of ''pane_id'' a), rt_label = field ''label'',
          rt_agentName = (if fallback \<and> absent_value (jget ''name'' a) then field ''agent_name'' else jget ''name'' a),
          rt_record = a\<rparr>)"

definition exactId :: "snapshot \<Rightarrow> string \<Rightarrow> resolved_target option" where
  "exactId sn ref =
     (case find_field ''workspace_id'' ref (sn_workspaces sn) of
        Some w \<Rightarrow> Some (workspace_target w)
      | None \<Rightarrow>
        (case find_field ''tab_id'' ref (sn_tabs sn) of
           Some t \<Rightarrow> Some (tab_target t)
         | None \<Rightarrow> map_option (pane_target PaneKind) (find_field ''pane_id'' ref (sn_panes sn))))"

definition exactAgentIds :: "snapshot \<Rightarrow> string \<Rightarrow> resolved_target list" where
  "exactAgentIds sn ref =
     foldl (\<lambda>targets p. if rt_id (pane_target AgentKind p) \<in> rt_id ` set targets then targets
                        else targets @ [pane_target AgentKind p])
       (map (agent_target sn True) (with_field ''agent_id'' ref (sn_agents sn)))
       (with_field ''agent_id'' ref (sn_panes sn))"

definition has_agent :: "snapshot \<Rightarrow> string \<Rightarrow> bool" where
  "has_agent sn pane = list_ex (\<lambda>a. jget ''pane_id'' a = JStr pane) (sn_agents sn)"

definition candidates :: "snapshot \<Rightarrow> string \<Rightarrow> resource_kind \<Rightarrow> resolved_target list" where
  "candidates sn ref kind =
     (case kind of
        WorkspaceKind \<Rightarrow> map workspace_target (with_field ''label'' ref (sn_workspaces sn))
      | TabKind \<Rightarrow> map tab_target (with_field ''label'' ref (sn_tabs sn))
      | PaneKind \<Rightarrow> map (pane_target PaneKind) (with_field ''label'' ref (sn_panes sn))
      | AgentKind \<Rightarrow>
          (let named = map (agent_target sn False) (with_field ''name'' ref (sn_agents sn));
               labelled = map (pane_target AgentKind)
                 (filter (\<lambda>p. has_agent sn (id_of ''pane_id'' p)) (with_field ''label'' ref (sn_panes sn)))
           in named @ filter (\<lambda>t. rt_id t \<notin> rt_id ` set named) labelled))"

definition assertCurrentContext :: "snapshot \<Rightarrow> current_context \<Rightarrow> (target_error, unit) result" where
  "assertCurrentContext sn ctx =
     (case (cc_workspaceId ctx, cc_tabId ctx, cc_paneId ctx) of
        (Some w, Some t, Some p) \<Rightarrow>
          if w = [] \<or> t = [] \<or> p = [] then Inl TargetContextUnavailable
          else (case (find_field ''workspace_id'' w (sn_workspaces sn), find_field ''tab_id'' t (sn_tabs sn),
                      find_field ''pane_id'' p (sn_panes sn)) of
                  (Some wr, Some tr, Some pr) \<Rightarrow>
                    if jget ''workspace_id'' tr \<noteq> jget ''workspace_id'' wr \<or> jget ''tab_id'' pr \<noteq> jget ''tab_id'' tr
                       \<or> jget ''workspace_id'' pr \<noteq> jget ''workspace_id'' wr
                    then Inl TargetContextUnavailable else Inr ()
                | _ \<Rightarrow> Inl TargetContextUnavailable)
      | _ \<Rightarrow> Inl TargetContextUnavailable)"

definition pick_agent :: "resolved_target list \<Rightarrow> (target_error, resolved_target) result option" where
  "pick_agent ts = (case ts of [] \<Rightarrow> None | [t] \<Rightarrow> Some (Inr t) | _ \<Rightarrow> Some (Inl (TargetAmbiguous (map rt_id ts))))"

text \<open>The resolution of a reference other than \<open>current\<close>.\<close>

definition resolve_ref :: "snapshot \<Rightarrow> string \<Rightarrow> resource_kind \<Rightarrow> (target_error, resolved_target) result" where
  "resolve_ref sn ref kind =
     (case (if kind = AgentKind then pick_agent (exactAgentIds sn ref) else None) of
        Some r \<Rightarrow> r
      | None \<Rightarrow>
        (case exactId sn ref of
           Some t \<Rightarrow>
             if rt_kind t = kind then Inr t
             else if kind = AgentKind \<and> rt_kind t = PaneKind \<and> has_agent sn (rt_id t) then Inr (t\<lparr>rt_kind := AgentKind\<rparr>)
             else Inl (TargetTypeMismatch (rt_kind t))
         | None \<Rightarrow>
             (case candidates sn ref kind of
                [] \<Rightarrow> Inl TargetNotFound
              | [t] \<Rightarrow> Inr t
              | ts \<Rightarrow> Inl (TargetAmbiguous (map rt_id ts)))))"

definition context_ref :: "resource_kind \<Rightarrow> current_context \<Rightarrow> string" where
  "context_ref kind ctx =
     (case kind of WorkspaceKind \<Rightarrow> the (cc_workspaceId ctx) | TabKind \<Rightarrow> the (cc_tabId ctx) | _ \<Rightarrow> the (cc_paneId ctx))"

text \<open>\<open>None\<close> is a resolution that never returns: a context whose own identifier is \<open>current\<close> recurses.\<close>

partial_function (option) resolveTarget ::
  "snapshot \<Rightarrow> string \<Rightarrow> resource_kind \<Rightarrow> current_context \<Rightarrow> (target_error, resolved_target) result option" where
  "resolveTarget sn ref kind ctx =
     (if \<not> usable ref then Some (Inl InvalidTarget)
      else if ref = ''current'' then
        (case assertCurrentContext sn ctx of
           Inl e \<Rightarrow> Some (Inl e)
         | Inr _ \<Rightarrow> resolveTarget sn (context_ref kind ctx) kind ctx)
      else Some (resolve_ref sn ref kind))"

definition resolvePaneOrAgentTarget ::
  "snapshot \<Rightarrow> string \<Rightarrow> current_context \<Rightarrow> (target_error, resolved_target) result option" where
  "resolvePaneOrAgentTarget sn ref ctx =
     (if \<not> usable ref then Some (Inl InvalidTarget)
      else if ref = ''current'' then resolveTarget sn ref PaneKind ctx
      else case exactId sn ref of
        Some t \<Rightarrow> Some (if rt_kind t \<noteq> PaneKind then Inl (TargetTypeMismatch (rt_kind t)) else Inr t)
      | None \<Rightarrow>
        (case pick_agent (exactAgentIds sn ref) of
           Some r \<Rightarrow> Some r
         | None \<Rightarrow>
           (case resolveTarget sn ref PaneKind ctx of
              Some (Inl TargetNotFound) \<Rightarrow> resolveTarget sn ref AgentKind ctx
            | r \<Rightarrow> r)))"

section \<open>The caller's context\<close>

record resolved_context =
  rx_workspaceId :: string
  rx_tabId :: string
  rx_paneId :: string

text \<open>\<open>ContextError reason retryable\<close> is \<open>CONTEXT_UNAVAILABLE\<close>; a failed command keeps its code.\<close>

datatype context_error =
    ContextError string bool
  | ContextProtocol string
  | CommandFailed string

definition safeIdentifier :: "jsval \<Rightarrow> bool" where
  "safeIdentifier = is_str usable"

definition injectedContext :: "current_context \<Rightarrow> (context_error, resolved_context) result" where
  "injectedContext ctx =
     (case cc_workspaceId ctx of None \<Rightarrow> Inl (ContextError ''workspaceId'' False) | Some w \<Rightarrow>
      if \<not> usable w then Inl (ContextError ''workspaceId'' False) else
      case cc_tabId ctx of None \<Rightarrow> Inl (ContextError ''tabId'' False) | Some t \<Rightarrow>
      if \<not> usable t then Inl (ContextError ''tabId'' False) else
      case cc_paneId ctx of None \<Rightarrow> Inl (ContextError ''paneId'' False) | Some p \<Rightarrow>
      if \<not> usable p then Inl (ContextError ''paneId'' False)
      else Inr \<lparr>rx_workspaceId = w, rx_tabId = t, rx_paneId = p\<rparr>)"

definition requiredIdentity :: "jsval \<Rightarrow> (context_error, resolved_context) result" where
  "requiredIdentity v =
     (if \<not> safeIdentifier (jget ''pane_id'' v) then Inl (ContextProtocol ''pane_id'')
      else if \<not> safeIdentifier (jget ''tab_id'' v) then Inl (ContextProtocol ''tab_id'')
      else if \<not> safeIdentifier (jget ''workspace_id'' v) then Inl (ContextProtocol ''workspace_id'')
      else Inr \<lparr>rx_workspaceId = id_of ''workspace_id'' v, rx_tabId = id_of ''tab_id'' v, rx_paneId = id_of ''pane_id'' v\<rparr>)"

definition optionalTerminalId :: "jsval \<Rightarrow> (context_error, string option) result" where
  "optionalTerminalId v =
     (if absent_value (jget ''terminal_id'' v) then Inr None
      else if safeIdentifier (jget ''terminal_id'' v) then Inr (Some (id_of ''terminal_id'' v))
      else Inl (ContextProtocol ''terminal_id''))"

definition currentPane :: "jsval \<Rightarrow> (context_error, resolved_context \<times> string option) result" where
  "currentPane v =
     (if \<not> is_record v \<or> jget ''type'' v \<noteq> JStr ''pane_current'' \<or> \<not> is_record (jget ''pane'' v)
      then Inl (ContextProtocol ''pane_current'')
      else bind_result (requiredIdentity (jget ''pane'' v)) (\<lambda>identity.
           bind_result (optionalTerminalId (jget ''pane'' v)) (\<lambda>terminal. Inr (identity, terminal))))"

definition unique_record :: "string \<Rightarrow> string \<Rightarrow> jsval list \<Rightarrow> string \<Rightarrow> (context_error, jsval) result" where
  "unique_record field s vs what =
     (case with_field field s vs of
        [] \<Rightarrow> Inl (ContextError (what @ ''_unresolved'') True)
      | [v] \<Rightarrow> Inr v
      | _ \<Rightarrow> Inl (ContextError (what @ ''_ambiguous'') False))"

definition paneRecord :: "snapshot \<Rightarrow> string \<Rightarrow> (context_error, jsval) result" where
  "paneRecord sn pane = unique_record ''pane_id'' pane (sn_panes sn) ''caller''"

definition uniqueParent :: "jsval list \<Rightarrow> string \<Rightarrow> string \<Rightarrow> string \<Rightarrow> (context_error, jsval) result" where
  "uniqueParent vs field s what = unique_record field s vs what"

definition verifySnapshot ::
  "resolved_context \<Rightarrow> string option \<Rightarrow> snapshot \<Rightarrow> resolved_context \<Rightarrow> (context_error, resolved_context) result" where
  "verifySnapshot cur curTerminal sn injd =
     (if rx_paneId cur \<noteq> rx_paneId injd \<and> with_field ''pane_id'' (rx_paneId injd) (sn_panes sn) \<noteq> []
      then Inl (ContextError ''pane_replaced'' False)
      else bind_result (paneRecord sn (rx_paneId cur)) (\<lambda>pane.
           bind_result (uniqueParent (sn_tabs sn) ''tab_id'' (rx_tabId cur) ''tab'') (\<lambda>tab.
           bind_result (uniqueParent (sn_workspaces sn) ''workspace_id'' (rx_workspaceId cur) ''workspace'') (\<lambda>workspace.
           bind_result (requiredIdentity pane) (\<lambda>paneIdentity.
             if rx_tabId paneIdentity \<noteq> rx_tabId cur \<or> rx_workspaceId paneIdentity \<noteq> rx_workspaceId cur
             then Inl (ContextError ''topology_changed'' True)
             else if jget ''workspace_id'' tab \<noteq> jget ''workspace_id'' workspace
                     \<or> JStr (rx_tabId paneIdentity) \<noteq> jget ''tab_id'' tab
                     \<or> JStr (rx_workspaceId paneIdentity) \<noteq> jget ''workspace_id'' workspace
             then Inl (ContextError ''topology_incoherent'' True)
             else bind_result (optionalTerminalId pane) (\<lambda>snapTerminal.
               if curTerminal \<noteq> None \<and> snapTerminal \<noteq> None \<and> curTerminal \<noteq> snapTerminal
               then Inl (ContextError ''pane_replaced'' False)
               else if rx_paneId cur \<noteq> rx_paneId injd \<and> (curTerminal = None \<or> snapTerminal = None)
               then Inl (ContextError ''pane_replaced'' False)
               else Inr \<lparr>rx_workspaceId = id_of ''workspace_id'' workspace, rx_tabId = id_of ''tab_id'' tab,
                         rx_paneId = rx_paneId paneIdentity\<rparr>))))))"

text \<open>The replies to \<open>pane current\<close> and \<open>api snapshot\<close> in each attempt, or the code of the failure.\<close>

record context_replies =
  xr_current :: "string + jsval"
  xr_snapshot :: "string + jsval"

definition readAttempt :: "context_replies \<Rightarrow> resolved_context \<Rightarrow> (context_error, resolved_context \<times> snapshot) result" where
  "readAttempt rep injd =
     (case xr_current rep of Inl code \<Rightarrow> Inl (CommandFailed code) | Inr reply \<Rightarrow>
      bind_result (currentPane reply) (\<lambda>(cur, terminal).
        case xr_snapshot rep of Inl code \<Rightarrow> Inl (CommandFailed code) | Inr reply' \<Rightarrow>
        (case parseSnapshotResult reply' of Inl (CliProtocolError f) \<Rightarrow> Inl (ContextProtocol f) | Inr sn \<Rightarrow>
           bind_result (verifySnapshot cur terminal sn injd) (\<lambda>ctx. Inr (ctx, sn)))))"

definition CONTEXT_RESOLUTION_ATTEMPTS :: nat where
  "CONTEXT_RESOLUTION_ATTEMPTS = 2"

record effective_context =
  ec_context :: resolved_context
  ec_snapshot :: snapshot
  ec_rebound :: bool
  ec_attempts :: nat

text \<open>\<open>left\<close> attempts remain after the current one, whose replies are \<open>replies attempt\<close>.\<close>

fun context_attempts ::
  "(nat \<Rightarrow> context_replies) \<Rightarrow> resolved_context \<Rightarrow> nat \<Rightarrow> nat \<Rightarrow> (context_error, effective_context) result" where
  "context_attempts replies injd attempt left =
     (case readAttempt (replies attempt) injd of
        Inr (ctx, sn) \<Rightarrow> Inr \<lparr>ec_context = ctx, ec_snapshot = sn, ec_rebound = (ctx \<noteq> injd), ec_attempts = attempt\<rparr>
      | Inl e \<Rightarrow>
          (case (e, left) of
             (ContextError why True, Suc n) \<Rightarrow> context_attempts replies injd (Suc attempt) n
           | _ \<Rightarrow> Inl e))"

declare context_attempts.simps [simp del]

definition resolveEffectiveContext ::
  "(nat \<Rightarrow> context_replies) \<Rightarrow> current_context \<Rightarrow> (context_error, effective_context) result" where
  "resolveEffectiveContext replies ctx =
     bind_result (injectedContext ctx) (\<lambda>injd. context_attempts replies injd 1 (CONTEXT_RESOLUTION_ATTEMPTS - 1))"

section \<open>The manager's native session\<close>

definition pane_session :: "snapshot \<Rightarrow> jsval \<Rightarrow> (prompt_error, agent_session option) result" where
  "pane_session sn p = optionalSessionCandidate (p # filter (\<lambda>a. jget ''pane_id'' a = jget ''pane_id'' p) (sn_agents sn))"

text \<open>The panes carrying exactly this session, counted; an untrusted pane stops the count.\<close>

fun count_session :: "snapshot \<Rightarrow> agent_session \<Rightarrow> jsval list \<Rightarrow> (context_error, nat) result" where
  "count_session sn s [] = Inr 0"
| "count_session sn s (p # ps) =
     (case pane_session sn p of
        Inl e \<Rightarrow> Inl (ContextError ''session_untrusted'' False)
      | Inr c \<Rightarrow> bind_result (count_session sn s ps) (\<lambda>n. Inr (if c = Some s then Suc n else n)))"

definition resolveManagerSession :: "snapshot \<Rightarrow> string \<Rightarrow> (context_error, agent_session option) result" where
  "resolveManagerSession sn pane =
     (let panes = with_field ''pane_id'' pane (sn_panes sn); agents = with_field ''pane_id'' pane (sn_agents sn) in
      if panes = [] then Inl (ContextError ''manager_unresolved'' False)
      else if 1 < length panes then Inl (ContextError ''manager_ambiguous'' False)
      else if 1 < length agents then Inl (ContextError ''manager_ambiguous'' False)
      else let records = hd panes # agents in
        case bind_result (optionalSessionCandidate records) (\<lambda>session.
             bind_result (optionalCandidateStrings records KIND_ALIASES ''agent_kind'') (\<lambda>kind.
             bind_result (optionalCandidateStrings records [''terminal_id''] ''terminal_id'') (\<lambda>_.
               if session \<noteq> None \<and> kind \<noteq> None \<and> the kind \<noteq> as_agent (the session)
               then Inl (IdentityChanged ''agent_session.agent'') else Inr session))) of
          Inl e \<Rightarrow> Inl (ContextError ''session_untrusted'' False)
        | Inr None \<Rightarrow> Inr None
        | Inr (Some s) \<Rightarrow>
            bind_result (count_session sn s (sn_panes sn)) (\<lambda>n.
              if n \<noteq> 1 then Inl (ContextError ''manager_session_ambiguous'' False) else Inr (Some s)))"

section \<open>Prompt-target records\<close>

definition paneFrom :: "jsval \<Rightarrow> string \<Rightarrow> (protocol_error, jsval) result" where
  "paneFrom v expected =
     (let pane = jget ''pane'' v in
      if \<not> is_record pane \<or> \<not> list_all (\<lambda>k. is_str (\<lambda>s. s \<noteq> []) (jget k pane)) [''pane_id'', ''tab_id'', ''workspace_id'']
      then Inl (CliProtocolError ''pane'')
      else if jget ''pane_id'' pane \<noteq> JStr expected then Inl (CliProtocolError ''pane_id'')
      else Inr pane)"

definition agentFrom :: "jsval \<Rightarrow> (prompt_error, jsval) result" where
  "agentFrom v = (if is_record (jget ''agent'' v) then Inr (jget ''agent'' v) else Inl (IdentityUnavailable ''agent''))"

fun find_session :: "snapshot \<Rightarrow> agent_session \<Rightarrow> jsval list \<Rightarrow> jsval option" where
  "find_session sn s [] = None"
| "find_session sn s (p # ps) = (if pane_session sn p = Inr (Some s) then Some p else find_session sn s ps)"

definition findSessionPane :: "snapshot \<Rightarrow> agent_session \<Rightarrow> jsval option" where
  "findSessionPane sn s = find_session sn s (sn_panes sn)"

definition snapshotIdentityRecords :: "snapshot \<Rightarrow> string \<Rightarrow> (prompt_error, jsval list) result" where
  "snapshotIdentityRecords sn pane =
     (case (with_field ''pane_id'' pane (sn_panes sn), with_field ''pane_id'' pane (sn_agents sn)) of
        ([p], [a]) \<Rightarrow> Inr [p, a]
      | _ \<Rightarrow> Inl (IdentityUnavailable ''pane_id''))"

section \<open>What the resolutions promise\<close>

lemma usable_current: "usable ''current''"
  by code_simp

lemma resolveTarget_diverges:
  assumes "resolveTarget sn ref kind ctx = Some y"
  shows "\<not> (ref = ''current'' \<and> assertCurrentContext sn ctx = Inr () \<and> context_ref kind ctx = ''current'')"
  using assms
proof (rule resolveTarget.raw_induct [rotated])
  fix resolve sn ref kind ctx y
  assume ih: "\<And>sn ref kind ctx y. resolve sn ref kind ctx = Some y \<Longrightarrow>
      \<not> (ref = ''current'' \<and> assertCurrentContext sn ctx = Inr () \<and> context_ref kind ctx = ''current'')"
    and body: "(if \<not> usable ref then Some (Inl InvalidTarget)
      else if ref = ''current'' then
        (case assertCurrentContext sn ctx of
           Inl e \<Rightarrow> Some (Inl e)
         | Inr _ \<Rightarrow> resolve sn (context_ref kind ctx) kind ctx)
      else Some (resolve_ref sn ref kind)) = Some y"
  show "\<not> (ref = ''current'' \<and> assertCurrentContext sn ctx = Inr () \<and> context_ref kind ctx = ''current'')"
  proof
    assume cur: "ref = ''current'' \<and> assertCurrentContext sn ctx = Inr () \<and> context_ref kind ctx = ''current''"
    then have "resolve sn ref kind ctx = Some y" using body usable_current by simp
    then show False using ih cur by blast
  qed
qed

lemma resolveTarget_direct: "ref \<noteq> ''current'' \<Longrightarrow> resolveTarget sn ref kind ctx
   = Some (if usable ref then resolve_ref sn ref kind else Inl InvalidTarget)"
  by (subst resolveTarget.simps) simp

lemma resolveTarget_current:
  "resolveTarget sn ''current'' kind ctx =
     (case assertCurrentContext sn ctx of Inl e \<Rightarrow> Some (Inl e)
      | Inr _ \<Rightarrow> resolveTarget sn (context_ref kind ctx) kind ctx)"
  by (subst resolveTarget.simps) (simp add: usable_current)

lemma resolveTarget_None:
  "resolveTarget sn ref kind ctx = None \<longleftrightarrow>
     ref = ''current'' \<and> assertCurrentContext sn ctx = Inr () \<and> context_ref kind ctx = ''current''"
proof (cases "ref = ''current'' \<and> assertCurrentContext sn ctx = Inr () \<and> context_ref kind ctx = ''current''")
  case True
  then show ?thesis using resolveTarget_diverges [of sn ref kind ctx] by (cases "resolveTarget sn ref kind ctx") auto
next
  case False
  then show ?thesis
    by (cases "ref = ''current''")
      (auto simp: resolveTarget_direct resolveTarget_current split: sum.splits)
qed

lemma find_field_Some: "find_field k s vs = Some v \<Longrightarrow> v \<in> set vs \<and> jget k v = JStr s"
  by (auto simp: find_field_def find_Some_iff)

subsection \<open>What a reference may denote\<close>

text \<open>
  The reference relation of target resolution, on the raw records of the snapshot: what a name that
  is not \<open>current\<close> may denote as a resource of each kind. It is written without the resolver's
  search order: an identifier names its record; a label or agent name counts only where no record
  has the name as its identifier, and only when exactly one resource carries it.
\<close>

definition known_id :: "snapshot \<Rightarrow> string \<Rightarrow> bool" where
  "known_id sn name \<longleftrightarrow>
     (\<exists>v \<in> set (sn_workspaces sn). jget ''workspace_id'' v = JStr name)
     \<or> (\<exists>v \<in> set (sn_tabs sn). jget ''tab_id'' v = JStr name)
     \<or> (\<exists>v \<in> set (sn_panes sn). jget ''pane_id'' v = JStr name)"

definition exact_record :: "snapshot \<Rightarrow> string \<Rightarrow> string \<Rightarrow> jsval list \<Rightarrow> jsval \<Rightarrow> bool" where
  "exact_record sn name idField vs v \<longleftrightarrow> v \<in> set vs
     \<and> (jget idField v = JStr name \<or> (\<not> known_id sn name \<and> filter (\<lambda>u. jget ''label'' u = JStr name) vs = [v]))"

text \<open>The panes whose agent is known under a name: by its agent identifier, or by its name or label.\<close>

definition panes_of_agent_id :: "snapshot \<Rightarrow> string \<Rightarrow> string set" where
  "panes_of_agent_id sn name =
     id_of ''pane_id'' ` {v \<in> set (sn_agents sn) \<union> set (sn_panes sn). jget ''agent_id'' v = JStr name}"

definition panes_of_agent_name :: "snapshot \<Rightarrow> string \<Rightarrow> string set" where
  "panes_of_agent_name sn name =
     id_of ''pane_id'' ` {a \<in> set (sn_agents sn). jget ''name'' a = JStr name}
     \<union> id_of ''pane_id'' ` {p \<in> set (sn_panes sn). jget ''label'' p = JStr name
          \<and> (\<exists>a \<in> set (sn_agents sn). jget ''pane_id'' a = JStr (id_of ''pane_id'' p))}"

definition exact_agent :: "snapshot \<Rightarrow> string \<Rightarrow> resolved_target \<Rightarrow> bool" where
  "exact_agent sn name t \<longleftrightarrow> rt_kind t = AgentKind \<and> rt_paneId t = Some (rt_id t)
     \<and> rt_record t \<in> set (sn_agents sn) \<union> set (sn_panes sn) \<and> id_of ''pane_id'' (rt_record t) = rt_id t
     \<and> (panes_of_agent_id sn name = {rt_id t}
        \<or> (panes_of_agent_id sn name = {}
           \<and> ((rt_id t = name \<and> (\<exists>p \<in> set (sn_panes sn). jget ''pane_id'' p = JStr name)
                \<and> (\<exists>a \<in> set (sn_agents sn). jget ''pane_id'' a = JStr name))
              \<or> (\<not> known_id sn name \<and> panes_of_agent_name sn name = {rt_id t}))))"

definition exact_match :: "snapshot \<Rightarrow> string \<Rightarrow> resource_kind \<Rightarrow> resolved_target \<Rightarrow> bool" where
  "exact_match sn name kind t =
     (case kind of
        WorkspaceKind \<Rightarrow> \<exists>w. t = workspace_target w \<and> exact_record sn name ''workspace_id'' (sn_workspaces sn) w
      | TabKind \<Rightarrow> \<exists>b. t = tab_target b \<and> exact_record sn name ''tab_id'' (sn_tabs sn) b
      | PaneKind \<Rightarrow> \<exists>p. t = pane_target PaneKind p \<and> exact_record sn name ''pane_id'' (sn_panes sn) p
      | AgentKind \<Rightarrow> exact_agent sn name t)"

lemma find_field_None: "find_field k s vs = None \<longleftrightarrow> (\<forall>v \<in> set vs. jget k v \<noteq> JStr s)"
  by (auto simp: find_field_def find_None_iff)

lemma exactId_None: "exactId sn ref = None \<longleftrightarrow> \<not> known_id sn ref"
  by (auto simp: exactId_def known_id_def find_field_None split: option.split dest: find_field_Some)

lemma exactId_record:
  assumes "exactId sn ref = Some t"
  obtains w where "t = workspace_target w" "w \<in> set (sn_workspaces sn)" "jget ''workspace_id'' w = JStr ref"
  | b where "t = tab_target b" "b \<in> set (sn_tabs sn)" "jget ''tab_id'' b = JStr ref"
  | p where "t = pane_target PaneKind p" "p \<in> set (sn_panes sn)" "jget ''pane_id'' p = JStr ref"
  using assms by (auto simp: exactId_def split: option.splits dest: find_field_Some)

lemma target_kinds [simp]:
  "rt_kind (workspace_target v) = WorkspaceKind" "rt_kind (tab_target v) = TabKind" "rt_kind (pane_target k v) = k"
  "rt_kind (agent_target sn f v) = AgentKind"
  by (simp_all add: workspace_target_def tab_target_def pane_target_def agent_target_def Let_def)

lemma agent_targets [simp]:
  "rt_id (pane_target k v) = id_of ''pane_id'' v" "rt_paneId (pane_target k v) = Some (id_of ''pane_id'' v)"
  "rt_record (pane_target k v) = v"
  "rt_id (agent_target sn f v) = id_of ''pane_id'' v" "rt_paneId (agent_target sn f v) = Some (id_of ''pane_id'' v)"
  "rt_record (agent_target sn f v) = v"
  by (simp_all add: pane_target_def agent_target_def Let_def)

lemma one_candidate:
  "(case xs of [] \<Rightarrow> Inl e | [x] \<Rightarrow> Inr x | ys \<Rightarrow> Inl (f ys)) = Inr t \<Longrightarrow> xs = [t]"
  by (auto split: list.splits)

lemma map_single: "map f xs = [y] \<Longrightarrow> \<exists>x. xs = [x] \<and> y = f x"
  by (auto simp: map_eq_Cons_conv)

lemma filter_single_mem: "filter P xs = [x] \<Longrightarrow> x \<in> set xs"
proof -
  assume "filter P xs = [x]"
  then have "x \<in> set (filter P xs)" by simp
  then show ?thesis by simp
qed

lemma resolve_ref_record:
  assumes "resolve_ref sn ref kind = Inr t" and "kind \<noteq> AgentKind"
  shows "exact_match sn ref kind t"
proof (cases "exactId sn ref")
  case (Some u)
  then have "u = t" "rt_kind t = kind" using assms by (auto simp: resolve_ref_def split: if_splits)
  with Some show ?thesis by (cases rule: exactId_record) (auto simp: exact_match_def exact_record_def)
next
  case None
  then have "candidates sn ref kind = [t]" using assms by (auto simp: resolve_ref_def intro: one_candidate)
  with None show ?thesis using assms(2)
    by (cases kind) (auto simp: exactId_None candidates_def with_field_def exact_match_def exact_record_def
        dest!: map_single dest: filter_single_mem)
qed

text \<open>A target the agent lookups build: an agent or pane record of the snapshot, under its pane.\<close>

definition agent_form :: "snapshot \<Rightarrow> resolved_target \<Rightarrow> bool" where
  "agent_form sn t \<longleftrightarrow> rt_kind t = AgentKind \<and> rt_paneId t = Some (rt_id t)
     \<and> rt_record t \<in> set (sn_agents sn) \<union> set (sn_panes sn) \<and> id_of ''pane_id'' (rt_record t) = rt_id t"

lemma agent_forms:
  "a \<in> set (sn_agents sn) \<Longrightarrow> agent_form sn (agent_target sn f a)"
  "p \<in> set (sn_panes sn) \<Longrightarrow> agent_form sn (pane_target AgentKind p)"
  by (simp_all add: agent_form_def)

lemma added_panes:
  fixes ts :: "resolved_target list"
  defines "add \<equiv> \<lambda>targets p. if rt_id (pane_target AgentKind p) \<in> rt_id ` set targets then targets
                        else targets @ [pane_target AgentKind p]"
  assumes "\<forall>t \<in> set ts. agent_form sn t" and "set ps \<subseteq> set (sn_panes sn)"
  shows "rt_id ` set (foldl add ts ps) = rt_id ` set ts \<union> id_of ''pane_id'' ` set ps
       \<and> (\<forall>t \<in> set (foldl add ts ps). agent_form sn t)"
  using assms(2,3)
proof (induction ps arbitrary: ts)
  case (Cons p ps)
  have "rt_id ` set (add ts p) = insert (id_of ''pane_id'' p) (rt_id ` set ts)" by (auto simp: add_def)
  moreover have "\<forall>t \<in> set (add ts p). agent_form sn t" using Cons.prems by (auto simp: add_def agent_forms)
  ultimately show ?case using Cons.IH [of "add ts p"] Cons.prems by auto
qed simp

lemma exactAgentIds_facts:
  "rt_id ` set (exactAgentIds sn ref) = panes_of_agent_id sn ref"
  "t \<in> set (exactAgentIds sn ref) \<Longrightarrow> agent_form sn t"
proof -
  have start: "\<forall>t \<in> set (map (agent_target sn True) (with_field ''agent_id'' ref (sn_agents sn))). agent_form sn t"
    by (auto simp: with_field_def agent_forms)
  have "set (with_field ''agent_id'' ref (sn_panes sn)) \<subseteq> set (sn_panes sn)" by (auto simp: with_field_def)
  note added = added_panes [OF start this]
  show "rt_id ` set (exactAgentIds sn ref) = panes_of_agent_id sn ref"
    using conjunct1 [OF added] unfolding exactAgentIds_def panes_of_agent_id_def with_field_def
    by (simp add: image_image) blast
  show "t \<in> set (exactAgentIds sn ref) \<Longrightarrow> agent_form sn t"
    using conjunct2 [OF added] unfolding exactAgentIds_def by blast
qed

lemma agent_candidates_facts:
  "rt_id ` set (candidates sn ref AgentKind) = panes_of_agent_name sn ref"
  "t \<in> set (candidates sn ref AgentKind) \<Longrightarrow> agent_form sn t"
proof -
  have both: "rt_id ` set (xs @ filter (\<lambda>t. rt_id t \<notin> rt_id ` set xs) ys) = rt_id ` set xs \<union> rt_id ` set ys" for xs ys
    by auto
  show "rt_id ` set (candidates sn ref AgentKind) = panes_of_agent_name sn ref"
    unfolding candidates_def Let_def resource_kind.case both
    by (simp add: with_field_def has_agent_def list_ex_iff panes_of_agent_name_def image_image conj_assoc)
  show "t \<in> set (candidates sn ref AgentKind) \<Longrightarrow> agent_form sn t"
    by (auto simp: candidates_def Let_def with_field_def agent_forms)
qed

lemma resolve_ref_agent:
  assumes "resolve_ref sn ref AgentKind = Inr t"
  shows "exact_match sn ref AgentKind t"
proof -
  have ea: "exact_match sn ref AgentKind t = (agent_form sn t \<and> (panes_of_agent_id sn ref = {rt_id t}
        \<or> (panes_of_agent_id sn ref = {}
           \<and> ((rt_id t = ref \<and> (\<exists>p \<in> set (sn_panes sn). jget ''pane_id'' p = JStr ref)
                \<and> (\<exists>a \<in> set (sn_agents sn). jget ''pane_id'' a = JStr ref))
              \<or> (\<not> known_id sn ref \<and> panes_of_agent_name sn ref = {rt_id t})))))"
    by (simp add: exact_match_def exact_agent_def agent_form_def)
  show ?thesis
  proof (cases "exactAgentIds sn ref")
    case Nil
    then have none: "panes_of_agent_id sn ref = {}" using exactAgentIds_facts(1) [of sn ref] by simp
    show ?thesis
    proof (cases "exactId sn ref")
      case (Some u)
      have "rt_kind u \<noteq> AgentKind" using Some by (cases rule: exactId_record) simp_all
      with assms Nil Some have u: "rt_kind u = PaneKind" "has_agent sn (rt_id u)" "t = u\<lparr>rt_kind := AgentKind\<rparr>"
        by (simp_all add: resolve_ref_def pick_agent_def split: if_splits)
      from Some u(1) obtain p where "u = pane_target PaneKind p" "p \<in> set (sn_panes sn)" "jget ''pane_id'' p = JStr ref"
        by (cases rule: exactId_record) auto
      then have "agent_form sn t" "rt_id t = ref" using u by (simp_all add: agent_form_def id_of_def)
      with u none show ?thesis
        using \<open>p \<in> set (sn_panes sn)\<close> \<open>jget ''pane_id'' p = JStr ref\<close>
        unfolding ea by (auto simp: has_agent_def list_ex_iff)
    next
      case None
      then have "candidates sn ref AgentKind = [t]"
        using assms Nil by (auto simp: resolve_ref_def pick_agent_def intro: one_candidate)
      with None none agent_candidates_facts(1) [of sn ref] agent_candidates_facts(2) [of t sn ref] show ?thesis by (simp add: ea exactId_None)
    qed
  next
    case (Cons a as)
    then have "exactAgentIds sn ref = [t]" using assms by (auto simp: resolve_ref_def pick_agent_def split: list.splits)
    with exactAgentIds_facts(1) [of sn ref] exactAgentIds_facts(2) [of t sn ref] show ?thesis by (simp add: ea)
  qed
qed

text \<open>
  C28. Target resolution is exact and never guesses, for every kind of resource. It returns on every
  input, except for a coherent context whose own identifier is the word \<open>current\<close>, which it chases
  forever. A resolved workspace, tab or pane is a live record of the snapshot that either has the
  name as its identifier or, when no resource has it as identifier, is the only one labelled with it;
  a resolved agent is the one agent with the name as agent identifier, else the agent on the pane
  with that identifier, else the only agent so named or on a pane so labelled. The name is the
  reference itself, and for \<open>current\<close> the injected identifier of the requested kind, of a coherent
  context.
\<close>

theorem resolve_target_exact:
  "(resolveTarget sn ref kind ctx = None \<longleftrightarrow>
      ref = ''current'' \<and> assertCurrentContext sn ctx = Inr () \<and> context_ref kind ctx = ''current'')
   \<and> (resolveTarget sn ref kind ctx = Some (Inr t) \<longrightarrow>
        (if ref = ''current'' then assertCurrentContext sn ctx = Inr ()
            \<and> exact_match sn (case kind of WorkspaceKind \<Rightarrow> the (cc_workspaceId ctx) | TabKind \<Rightarrow> the (cc_tabId ctx)
                              | _ \<Rightarrow> the (cc_paneId ctx)) kind t
         else exact_match sn ref kind t))"
proof (intro conjI impI)
  assume r: "resolveTarget sn ref kind ctx = Some (Inr t)"
  have direct: "exact_match sn name kind t" if "resolveTarget sn name kind ctx = Some (Inr t)" "name \<noteq> ''current''" for name
    using resolve_ref_record [of sn name kind t] resolve_ref_agent [of sn name t] that
    by (cases "kind = AgentKind") (auto simp: resolveTarget_direct split: if_splits)
  show "if ref = ''current'' then assertCurrentContext sn ctx = Inr ()
            \<and> exact_match sn (case kind of WorkspaceKind \<Rightarrow> the (cc_workspaceId ctx) | TabKind \<Rightarrow> the (cc_tabId ctx)
                              | _ \<Rightarrow> the (cc_paneId ctx)) kind t
         else exact_match sn ref kind t"
  proof (cases "ref = ''current''")
    case True
    then have a: "assertCurrentContext sn ctx = Inr ()" and i: "resolveTarget sn (context_ref kind ctx) kind ctx = Some (Inr t)"
      using r by (auto simp: resolveTarget_current split: sum.splits)
    have "context_ref kind ctx \<noteq> ''current''" using resolveTarget_diverges [OF r] True a by auto
    from direct [OF i this] show ?thesis using True a by (simp add: context_ref_def)
  next
    case False
    then show ?thesis using direct [OF r] by simp
  qed
qed (rule resolveTarget_None)

definition example_snapshot :: snapshot where
  "example_snapshot = \<lparr>sn_version = ''1'', sn_protocol = 1,
     sn_workspaces = [JObj [(''workspace_id'', JStr ''w1''), (''label'', JStr ''main'')]],
     sn_tabs = [JObj [(''tab_id'', JStr ''b1''), (''workspace_id'', JStr ''w1''), (''label'', JStr ''tab'')]],
     sn_panes = [JObj [(''pane_id'', JStr ''p1''), (''tab_id'', JStr ''b1''), (''workspace_id'', JStr ''w1''),
        (''label'', JStr ''editor''), (''terminal_id'', JStr ''t1'')]], sn_agents = [example_record]\<rparr>"

lemma example_resolution: "resolve_ref example_snapshot ''editor'' PaneKind = Inr (pane_target PaneKind (hd (sn_panes example_snapshot)))"
  by code_simp

theorem resolve_target_exact_witness:
  "exact_match example_snapshot ''editor'' PaneKind (pane_target PaneKind (hd (sn_panes example_snapshot)))"
proof -
  have "usable ''editor''" by code_simp
  then have "resolveTarget example_snapshot ''editor'' PaneKind \<lparr>cc_workspaceId = None, cc_tabId = None, cc_paneId = None\<rparr>
      = Some (Inr (pane_target PaneKind (hd (sn_panes example_snapshot))))"
    by (simp add: resolveTarget_direct example_resolution)
  with resolve_target_exact [of example_snapshot "''editor''" PaneKind
      "\<lparr>cc_workspaceId = None, cc_tabId = None, cc_paneId = None\<rparr>" "pane_target PaneKind (hd (sn_panes example_snapshot))"]
  show ?thesis by simp
qed

section \<open>The effective context\<close>

lemma with_field_single: "with_field k s vs = [v] \<Longrightarrow> v \<in> set vs \<and> jget k v = JStr s"
proof -
  assume "with_field k s vs = [v]"
  then have "v \<in> set (with_field k s vs)" by simp
  then show ?thesis by (simp add: with_field_def)
qed

lemma unique_record_Inr: "unique_record k s vs what = Inr v \<longleftrightarrow> with_field k s vs = [v]"
  by (auto simp: unique_record_def split: list.splits)

lemma requiredIdentity_Inr:
  "requiredIdentity v = Inr c \<Longrightarrow> jget ''pane_id'' v = JStr (rx_paneId c) \<and> jget ''tab_id'' v = JStr (rx_tabId c)
     \<and> jget ''workspace_id'' v = JStr (rx_workspaceId c)"
proof -
  have safe: "safeIdentifier x \<longleftrightarrow> (\<exists>s. x = JStr s \<and> usable s)" for x by (cases x) (auto simp: safeIdentifier_def)
  assume "requiredIdentity v = Inr c"
  then show ?thesis by (auto simp: requiredIdentity_def safe id_of_def split: if_splits)
qed

lemma optionalTerminalId_Some:
  "optionalTerminalId v = Inr (Some t) \<Longrightarrow> jget ''terminal_id'' v = JStr t"
proof -
  have safe: "safeIdentifier x \<longleftrightarrow> (\<exists>s. x = JStr s \<and> usable s)" for x by (cases x) (auto simp: safeIdentifier_def)
  assume "optionalTerminalId v = Inr (Some t)"
  then show ?thesis by (auto simp: optionalTerminalId_def safe id_of_def split: if_splits)
qed

text \<open>A context backed by one pane, one tab and one workspace of the snapshot that contain one another.\<close>

definition context_backed :: "snapshot \<Rightarrow> resolved_context \<Rightarrow> jsval \<Rightarrow> bool" where
  "context_backed sn c pane \<longleftrightarrow>
     with_field ''pane_id'' (rx_paneId c) (sn_panes sn) = [pane]
     \<and> jget ''tab_id'' pane = JStr (rx_tabId c) \<and> jget ''workspace_id'' pane = JStr (rx_workspaceId c)
     \<and> (\<exists>tab. with_field ''tab_id'' (rx_tabId c) (sn_tabs sn) = [tab] \<and> jget ''workspace_id'' tab = JStr (rx_workspaceId c))
     \<and> (\<exists>w. with_field ''workspace_id'' (rx_workspaceId c) (sn_workspaces sn) = [w])"

lemma verifySnapshot_Inr:
  assumes "verifySnapshot cur terminal sn injd = Inr c"
  shows "c = cur \<and> (\<exists>pane. context_backed sn cur pane
     \<and> (rx_paneId cur \<noteq> rx_paneId injd \<longrightarrow> with_field ''pane_id'' (rx_paneId injd) (sn_panes sn) = []
          \<and> (\<exists>t. terminal = Some t \<and> jget ''terminal_id'' pane = JStr t)))"
proof -
  have fresh: "rx_paneId cur \<noteq> rx_paneId injd \<Longrightarrow> with_field ''pane_id'' (rx_paneId injd) (sn_panes sn) = []"
    using assms by (auto simp: verifySnapshot_def split: if_splits)
  obtain pane tab w p st where
    pane: "with_field ''pane_id'' (rx_paneId cur) (sn_panes sn) = [pane]"
    and tab: "with_field ''tab_id'' (rx_tabId cur) (sn_tabs sn) = [tab]"
    and w: "with_field ''workspace_id'' (rx_workspaceId cur) (sn_workspaces sn) = [w]"
    and p0: "requiredIdentity pane = Inr p"
    and moved: "\<not> (rx_tabId p \<noteq> rx_tabId cur \<or> rx_workspaceId p \<noteq> rx_workspaceId cur)"
    and coherent: "\<not> (jget ''workspace_id'' tab \<noteq> jget ''workspace_id'' w \<or> JStr (rx_tabId p) \<noteq> jget ''tab_id'' tab
                     \<or> JStr (rx_workspaceId p) \<noteq> jget ''workspace_id'' w)"
    and st: "optionalTerminalId pane = Inr st"
    and differ: "\<not> (terminal \<noteq> None \<and> st \<noteq> None \<and> terminal \<noteq> st)"
    and missing: "\<not> (rx_paneId cur \<noteq> rx_paneId injd \<and> (terminal = None \<or> st = None))"
    and c: "Inr \<lparr>rx_workspaceId = id_of ''workspace_id'' w, rx_tabId = id_of ''tab_id'' tab, rx_paneId = rx_paneId p\<rparr>
            = (Inr c :: (context_error, resolved_context) result)"
    using assms unfolding verifySnapshot_def paneRecord_def uniqueParent_def guard_Inr bind_result_eq_Inr_conv
      unique_record_Inr by (elim exE conjE) (rule that)
  have p: "requiredIdentity pane = Inr p" "rx_tabId p = rx_tabId cur" "rx_workspaceId p = rx_workspaceId cur"
    using p0 moved by simp_all
  have tw: "jget ''workspace_id'' tab = jget ''workspace_id'' w" using coherent by simp
  have both: "rx_paneId cur \<noteq> rx_paneId injd \<longrightarrow> terminal \<noteq> None \<and> st \<noteq> None" using missing by auto
  have same: "terminal \<noteq> None \<longrightarrow> st \<noteq> None \<longrightarrow> terminal = st" using differ by auto
  note f = with_field_single [OF pane] with_field_single [OF tab] with_field_single [OF w] requiredIdentity_Inr [OF p(1)]
  have "c = cur" using c f p by (cases cur) (simp add: id_of_def)
  moreover have "context_backed sn cur pane" unfolding context_backed_def using pane tab w f p tw by auto
  moreover have "rx_paneId cur \<noteq> rx_paneId injd \<Longrightarrow> \<exists>t. terminal = Some t \<and> jget ''terminal_id'' pane = JStr t"
    using both same optionalTerminalId_Some [of pane] st by (cases terminal; cases st) auto
  ultimately show ?thesis using fresh by blast
qed

lemma readAttempt_Inr:
  assumes "readAttempt rep injd = Inr (c, sn)"
  shows "\<exists>reply terminal reply'. xr_current rep = Inr reply \<and> currentPane reply = Inr (c, terminal)
     \<and> xr_snapshot rep = Inr reply' \<and> parseSnapshotResult reply' = Inr sn \<and> verifySnapshot c terminal sn injd = Inr c"
proof -
  obtain reply where reply: "xr_current rep = Inr reply"
    using assms by (cases "xr_current rep") (simp_all add: readAttempt_def)
  obtain cur terminal where cur: "currentPane reply = Inr (cur, terminal)"
    using assms reply by (cases "currentPane reply") (auto simp: readAttempt_def)
  obtain reply' where reply': "xr_snapshot rep = Inr reply'"
    using assms reply cur by (cases "xr_snapshot rep") (simp_all add: readAttempt_def)
  obtain sn' where sn': "parseSnapshotResult reply' = Inr sn'"
    using assms reply cur reply'
    by (cases "parseSnapshotResult reply'") (auto simp: readAttempt_def split: protocol_error.splits)
  have v: "verifySnapshot cur terminal sn' injd = Inr c" "sn' = sn"
    using assms reply cur reply' sn' by (auto simp: readAttempt_def bind_result_eq_Inr_conv)
  show ?thesis using verifySnapshot_Inr [OF v(1)] reply cur reply' sn' v by blast
qed

lemma context_attempts_ok:
  "readAttempt (replies n) injd = Inr (c, sn) \<Longrightarrow> context_attempts replies injd n left
     = Inr \<lparr>ec_context = c, ec_snapshot = sn, ec_rebound = (c \<noteq> injd), ec_attempts = n\<rparr>"
  by (subst context_attempts.simps) simp

lemma context_attempts_last:
  assumes "context_attempts replies injd n 0 = Inr ec"
  obtains r where "readAttempt (replies n) injd = Inr r"
proof (cases "readAttempt (replies n) injd")
  case (Inl e)
  then show ?thesis using assms
    by (subst (asm) context_attempts.simps) (cases e, auto split: bool.splits)
qed (rule that)

lemma context_attempts_retry:
  assumes "readAttempt (replies n) injd = Inl e" and "context_attempts replies injd n (Suc m) = Inr ec"
  obtains why where "e = ContextError why True" and "context_attempts replies injd (Suc n) m = Inr ec"
  using assms(2) that
  by (subst (asm) context_attempts.simps) (cases e, auto simp: assms(1) split: bool.splits)

lemma context_attempts_Inr:
  "context_attempts replies injd n left = Inr ec \<Longrightarrow>
     n \<le> ec_attempts ec \<and> ec_attempts ec \<le> n + left \<and> ec_rebound ec = (ec_context ec \<noteq> injd)
     \<and> readAttempt (replies (ec_attempts ec)) injd = Inr (ec_context ec, ec_snapshot ec)
     \<and> (\<forall>k. n \<le> k \<and> k < ec_attempts ec \<longrightarrow> (\<exists>why. readAttempt (replies k) injd = Inl (ContextError why True)))"
proof (induction left arbitrary: n)
  case 0
  obtain r where r: "readAttempt (replies n) injd = Inr r" using 0 by (rule context_attempts_last)
  then show ?case using 0 by (cases r) (auto simp: context_attempts_ok)
next
  case (Suc m)
  show ?case
  proof (cases "readAttempt (replies n) injd")
    case (Inr r)
    then show ?thesis using Suc.prems by (cases r) (auto simp: context_attempts_ok)
  next
    case (Inl e)
    then obtain why where e: "e = ContextError why True" and go: "context_attempts replies injd (Suc n) m = Inr ec"
      using Suc.prems by (rule context_attempts_retry)
    have "\<exists>why. readAttempt (replies k) injd = Inl (ContextError why True)" if "n \<le> k" "k < ec_attempts ec" for k
      using Suc.IH [OF go] that Inl e by (cases "k = n") auto
    then show ?thesis using Suc.IH [OF go] by auto
  qed
qed

lemma injectedContext_Inr:
  "injectedContext ctx = Inr c \<Longrightarrow> ctx = \<lparr>cc_workspaceId = Some (rx_workspaceId c), cc_tabId = Some (rx_tabId c), cc_paneId = Some (rx_paneId c)\<rparr>"
  by (cases ctx) (auto simp: injectedContext_def split: option.splits if_splits)

text \<open>
  C29. A caller's context survives a moved pane but never a replaced one: a resolved context is the one
  \<open>pane current\<close> reported, backed by exactly one pane, tab and workspace of the snapshot that contain one
  another; when its pane is not the injected one, the injected pane is gone and both records name the
  same terminal; a second attempt is made only after a retryable failure, and never a third.
\<close>

theorem context_rebinds_safely:
  assumes "resolveEffectiveContext replies ctx = Inr ec"
  shows "\<exists>injd reply terminal pane. injectedContext ctx = Inr injd
     \<and> xr_current (replies (ec_attempts ec)) = Inr reply \<and> currentPane reply = Inr (ec_context ec, terminal)
     \<and> context_backed (ec_snapshot ec) (ec_context ec) pane
     \<and> (ec_rebound ec \<longleftrightarrow> ec_context ec \<noteq> injd)
     \<and> (rx_paneId (ec_context ec) \<noteq> rx_paneId injd \<longrightarrow>
          with_field ''pane_id'' (rx_paneId injd) (sn_panes (ec_snapshot ec)) = []
          \<and> (\<exists>t. terminal = Some t \<and> jget ''terminal_id'' pane = JStr t))
     \<and> 1 \<le> ec_attempts ec \<and> ec_attempts ec \<le> CONTEXT_RESOLUTION_ATTEMPTS
     \<and> (\<forall>k. 1 \<le> k \<and> k < ec_attempts ec \<longrightarrow> (\<exists>why. readAttempt (replies k) injd = Inl (ContextError why True)))"
proof -
  obtain injd where injd: "injectedContext ctx = Inr injd"
    and run: "context_attempts replies injd 1 (CONTEXT_RESOLUTION_ATTEMPTS - 1) = Inr ec"
    using assms by (auto simp: resolveEffectiveContext_def bind_result_eq_Inr_conv)
  note a = context_attempts_Inr [OF run]
  then obtain reply terminal reply' where r: "xr_current (replies (ec_attempts ec)) = Inr reply"
      "currentPane reply = Inr (ec_context ec, terminal)"
      "verifySnapshot (ec_context ec) terminal (ec_snapshot ec) injd = Inr (ec_context ec)"
    using readAttempt_Inr by blast
  then show ?thesis using injd a verifySnapshot_Inr [OF r(3)]
    by (simp add: CONTEXT_RESOLUTION_ATTEMPTS_def)
qed

definition example_reply_snapshot :: jsval where
  "example_reply_snapshot = JObj [(''type'', JStr ''session_snapshot''), (''snapshot'', JObj [(''version'', JStr ''1''), (''protocol'', JNum 1),
     (''workspaces'', JArr (sn_workspaces example_snapshot)), (''tabs'', JArr (sn_tabs example_snapshot)),
     (''panes'', JArr (sn_panes example_snapshot)), (''agents'', JArr (sn_agents example_snapshot))])]"

definition example_current :: "string \<Rightarrow> jsval" where
  "example_current pane = JObj [(''type'', JStr ''pane_current''), (''pane'', JObj [(''pane_id'', JStr pane), (''tab_id'', JStr ''b1''),
     (''workspace_id'', JStr ''w1''), (''terminal_id'', JStr ''t1'')])]"

text \<open>The first attempt still reports the pane's old name; the second sees the moved pane.\<close>

definition example_replies :: "nat \<Rightarrow> context_replies" where
  "example_replies n = \<lparr>xr_current = Inr (example_current (if n = 1 then ''p9'' else ''p1'')), xr_snapshot = Inr example_reply_snapshot\<rparr>"

definition example_injected :: current_context where
  "example_injected = \<lparr>cc_workspaceId = Some ''w0'', cc_tabId = Some ''b0'', cc_paneId = Some ''p9''\<rparr>"

definition example_effective :: effective_context where
  "example_effective = \<lparr>ec_context = \<lparr>rx_workspaceId = ''w1'', rx_tabId = ''b1'', rx_paneId = ''p1''\<rparr>,
     ec_snapshot = example_snapshot, ec_rebound = True, ec_attempts = 2\<rparr>"

lemma example_context: "resolveEffectiveContext example_replies example_injected = Inr example_effective"
  by code_simp

theorem context_rebinds_safely_witness:
  "\<exists>pane. context_backed (ec_snapshot example_effective) (ec_context example_effective) pane
     \<and> (\<exists>t. jget ''terminal_id'' pane = JStr t)"
  using context_rebinds_safely [OF example_context]
  by (auto simp: example_injected_def example_effective_def injectedContext_def split: if_splits)

section \<open>One pane per native session\<close>

lemma count_session_length:
  "count_session sn s ps = Inr n \<Longrightarrow> n = length (filter (\<lambda>p. pane_session sn p = Inr (Some s)) ps)"
proof (induction ps arbitrary: n)
  case (Cons p ps)
  then show ?case by (cases "pane_session sn p") (auto simp: bind_result_eq_Inr_conv)
qed simp

lemma resolveManagerSession_Some:
  assumes "resolveManagerSession sn pane = Inr (Some s)"
  shows "\<exists>p. with_field ''pane_id'' pane (sn_panes sn) = [p] \<and> pane_session sn p = Inr (Some s)
     \<and> filter (\<lambda>q. pane_session sn q = Inr (Some s)) (sn_panes sn) = [p]"
proof -
  define agents where "agents = with_field ''pane_id'' pane (sn_agents sn)"
  obtain p where p: "with_field ''pane_id'' pane (sn_panes sn) = [p]"
    using assms by (cases "with_field ''pane_id'' pane (sn_panes sn)") (auto simp: resolveManagerSession_def Let_def split: if_splits)
  have pid: "p \<in> set (sn_panes sn)" "jget ''pane_id'' p = JStr pane" using with_field_single [OF p] by simp_all
  then have own: "pane_session sn p = optionalSessionCandidate (p # agents)"
    by (simp add: pane_session_def agents_def with_field_def)
  define joined where "joined = bind_result (optionalSessionCandidate (p # agents)) (\<lambda>session.
             bind_result (optionalCandidateStrings (p # agents) KIND_ALIASES ''agent_kind'') (\<lambda>kind.
             bind_result (optionalCandidateStrings (p # agents) [''terminal_id''] ''terminal_id'') (\<lambda>_.
               if session \<noteq> None \<and> kind \<noteq> None \<and> the kind \<noteq> as_agent (the session)
               then Inl (IdentityChanged ''agent_session.agent'') else Inr session)))"
  have run: "(case joined of Inl e \<Rightarrow> Inl (ContextError ''session_untrusted'' False)
        | Inr None \<Rightarrow> Inr None
        | Inr (Some s) \<Rightarrow>
            bind_result (count_session sn s (sn_panes sn)) (\<lambda>n.
              if n \<noteq> 1 then Inl (ContextError ''manager_session_ambiguous'' False) else Inr (Some s))) = Inr (Some s)"
    using assms unfolding resolveManagerSession_def Let_def p agents_def [symmetric] joined_def
    by (simp split: if_splits)
  then have j: "joined = Inr (Some s)" and c: "count_session sn s (sn_panes sn) = Inr 1"
    by (auto simp: bind_result_eq_Inr_conv split: sum.splits option.splits if_splits)
  have sess: "pane_session sn p = Inr (Some s)"
    using j unfolding joined_def own by (auto simp: bind_result_eq_Inr_conv split: if_splits)
  have "length (filter (\<lambda>q. pane_session sn q = Inr (Some s)) (sn_panes sn)) = 1"
    using count_session_length [OF c] by simp
  moreover have "p \<in> set (filter (\<lambda>q. pane_session sn q = Inr (Some s)) (sn_panes sn))" using sess pid by simp
  ultimately have "filter (\<lambda>q. pane_session sn q = Inr (Some s)) (sn_panes sn) = [p]"
    by (cases "filter (\<lambda>q. pane_session sn q = Inr (Some s)) (sn_panes sn)") auto
  then show ?thesis using p sess by blast
qed

lemma manager_session_pane_unique:
  assumes "resolveManagerSession sn p = Inr (Some s)" and "resolveManagerSession sn q = Inr (Some s)"
  shows "p = q"
proof -
  obtain v where v: "with_field ''pane_id'' p (sn_panes sn) = [v]"
      "filter (\<lambda>q. pane_session sn q = Inr (Some s)) (sn_panes sn) = [v]"
    using resolveManagerSession_Some [OF assms(1)] by blast
  obtain w where w: "with_field ''pane_id'' q (sn_panes sn) = [w]"
      "filter (\<lambda>q. pane_session sn q = Inr (Some s)) (sn_panes sn) = [w]"
    using resolveManagerSession_Some [OF assms(2)] by blast
  have "v = w" using v(2) w(2) by simp
  then show ?thesis using with_field_single [OF v(1)] with_field_single [OF w(1)] by simp
qed

lemma findSessionPane_manager:
  assumes "resolveManagerSession sn pane = Inr (Some s)"
  shows "\<exists>p. findSessionPane sn s = Some p \<and> jget ''pane_id'' p = JStr pane"
proof -
  obtain p where p: "with_field ''pane_id'' pane (sn_panes sn) = [p]"
      "filter (\<lambda>q. pane_session sn q = Inr (Some s)) (sn_panes sn) = [p]"
    using resolveManagerSession_Some [OF assms] by blast
  have "find_session sn s ps = (case filter (\<lambda>q. pane_session sn q = Inr (Some s)) ps of [] \<Rightarrow> None | q # qs \<Rightarrow> Some q)" for ps
    by (induction ps) auto
  then show ?thesis using p with_field_single [OF p(1)] by (simp add: findSessionPane_def)
qed

text \<open>
  A manager session is bound to exactly one pane: when the caller's session is resolved, it is the one
  its pane's and agents' records prove, the search for the session's pane finds that very pane, and no
  other pane of the snapshot resolves to the same session.
\<close>

theorem manager_session_is_one_pane:
  assumes "resolveManagerSession sn pane = Inr (Some s)"
  shows "(\<exists>p. with_field ''pane_id'' pane (sn_panes sn) = [p] \<and> findSessionPane sn s = Some p
            \<and> proves_session (p # with_field ''pane_id'' pane (sn_agents sn)) s)
       \<and> (\<forall>q. resolveManagerSession sn q = Inr (Some s) \<longrightarrow> q = pane)"
proof -
  obtain p where p: "with_field ''pane_id'' pane (sn_panes sn) = [p]" "pane_session sn p = Inr (Some s)"
    using resolveManagerSession_Some [OF assms] by blast
  have "optionalSessionCandidate (p # with_field ''pane_id'' pane (sn_agents sn)) = Inr (Some s)"
    using p(2) with_field_single [OF p(1)] by (simp add: pane_session_def with_field_def)
  then have proves: "proves_session (p # with_field ''pane_id'' pane (sn_agents sn)) s"
    by (simp add: optionalSessionCandidate_spec)
  obtain p' where p': "findSessionPane sn s = Some p'" "jget ''pane_id'' p' = JStr pane" "p' \<in> set (sn_panes sn)"
  proof -
    have found: "find_session sn s ps = Some v \<Longrightarrow> v \<in> set ps" for ps v
      by (induction ps) (auto split: if_splits)
    show ?thesis using findSessionPane_manager [OF assms] found that unfolding findSessionPane_def by blast
  qed
  then have "p' \<in> set (with_field ''pane_id'' pane (sn_panes sn))" by (simp add: with_field_def)
  then have "p' = p" using p(1) by simp
  then show ?thesis using p p' proves manager_session_pane_unique [OF assms] by blast
qed

definition example_manager_session :: agent_session where
  "example_manager_session = \<lparr>as_source = ''herdr'', as_agent = ''pi'', as_kind = ''id'', as_value = ''s1''\<rparr>"

lemma example_manager: "resolveManagerSession example_snapshot ''p1'' = Inr (Some example_manager_session)"
  by code_simp

theorem manager_session_is_one_pane_witness:
  "(\<exists>p. with_field ''pane_id'' ''p1'' (sn_panes example_snapshot) = [p]
       \<and> findSessionPane example_snapshot example_manager_session = Some p)"
  using manager_session_is_one_pane [OF example_manager] by blast

end
