(* ===== verification/Adoption.thy ===== *)
theory Adoption
  imports Topology
begin

text \<open>
  Naming an agent that has no name yet (\<open>src/agent-identity.ts\<close>): the explicit adoption of a pane and
  the lazy one on a name-only identity gap. The replies of the command line tool are the argument
  \<open>adopt_replies\<close>; the commands actually issued are part of the result, so that what was never asked
  of the tool can be stated.
\<close>

definition AGENT_NAME_MAX_LENGTH :: nat where
  "AGENT_NAME_MAX_LENGTH = 32"

definition SELF_NAME_SUFFIX_LIMIT :: nat where
  "SELF_NAME_SUFFIX_LIMIT = 9"

definition TOKEN_VALUE_MAX_LENGTH :: nat where
  "TOKEN_VALUE_MAX_LENGTH = 80"

definition NAME_PROBE :: string where
  "NAME_PROBE = ''__adopt_probe__''"

definition name_char :: "char \<Rightarrow> bool" where
  "name_char c \<longleftrightarrow> is_lower c \<or> is_digit c \<or> c = CHR ''_'' \<or> c = CHR ''-''"

definition isAgentName :: "string \<Rightarrow> bool" where
  "isAgentName = head_tail_shape is_lower name_char 31"

datatype adopt_error =
    AdoptUnqualified string
  | AgentAlreadyNamed string
  | AgentNameTaken
  | AdoptInvalidInput
  | AdoptIdentity prompt_error
  | AdoptProtocol protocol_error
  | AdoptCommand jsval

section \<open>Preconditions\<close>

fun stringField :: "jsval \<Rightarrow> string list \<Rightarrow> string option" where
  "stringField v [] = None"
| "stringField v (k # ks) = (case jget k v of JStr s \<Rightarrow> if s \<noteq> [] then Some s else stringField v ks | _ \<Rightarrow> stringField v ks)"

definition completeSession :: "jsval \<Rightarrow> agent_session option" where
  "completeSession v =
     (if \<not> is_record v then None
      else case (stringField v [''source''], stringField v [''agent''], stringField v [''kind''], stringField v [''value'']) of
        (Some src, Some agent, Some kind, Some val) \<Rightarrow> Some \<lparr>as_source = src, as_agent = agent, as_kind = kind, as_value = val\<rparr>
      | _ \<Rightarrow> None)"

definition suppliedNames :: "jsval list \<Rightarrow> string list" where
  "suppliedNames records = js_uniq (List.map_filter (\<lambda>v. stringField v NAME_ALIASES) records)"

definition disagree :: "'a option \<Rightarrow> 'a option \<Rightarrow> bool" where
  "disagree a b \<longleftrightarrow> a \<noteq> None \<and> b \<noteq> None \<and> a \<noteq> b"

record preconditions =
  pc_pane :: jsval
  pc_agent :: jsval
  pc_agentSession :: agent_session
  pc_terminalId :: string
  pc_suppliedName :: "string option"

definition adoptTargetPreconditions :: "snapshot \<Rightarrow> string \<Rightarrow> (adopt_error, preconditions) result" where
  "adoptTargetPreconditions sn pane =
     (let panes = with_field ''pane_id'' pane (sn_panes sn); agents = with_field ''pane_id'' pane (sn_agents sn) in
      if panes = [] then Inl (AdoptUnqualified ''pane_absent'')
      else if 1 < length panes then Inl (AdoptUnqualified ''pane_duplicate'')
      else if agents = [] then Inl (AdoptUnqualified ''agent_absent'')
      else if 1 < length agents then Inl (AdoptUnqualified ''agent_duplicate'')
      else let p = hd panes; a = hd agents;
               ps = completeSession (jget ''agent_session'' p); as = completeSession (jget ''agent_session'' a);
               pterm = stringField p [''terminal_id'']; aterm = stringField a [''terminal_id''];
               names = suppliedNames [p, a] in
        if disagree ps as then Inl (AdoptUnqualified ''identity_contradictory'')
        else case orElse as ps of None \<Rightarrow> Inl (AdoptUnqualified ''agent_session_incomplete'') | Some session \<Rightarrow>
        if disagree pterm aterm then Inl (AdoptUnqualified ''identity_contradictory'')
        else case orElse aterm pterm of None \<Rightarrow> Inl (AdoptUnqualified ''terminal_id_missing'') | Some terminal \<Rightarrow>
        if disagree (stringField p [''agent'']) (stringField a [''agent'']) then Inl (AdoptUnqualified ''identity_contradictory'')
        else case orElse (stringField a [''agent_status'']) (stringField p [''agent_status'']) of
          None \<Rightarrow> Inl (AdoptUnqualified ''agent_status_missing'')
        | Some status \<Rightarrow>
            if status = ''unknown'' then Inl (AdoptUnqualified ''agent_status_unknown'')
            else if 1 < length names then Inl (AdoptUnqualified ''identity_contradictory'')
            else Inr \<lparr>pc_pane = p, pc_agent = a, pc_agentSession = session, pc_terminalId = terminal,
                      pc_suppliedName = (case names of [] \<Rightarrow> None | n # _ \<Rightarrow> Some n)\<rparr>)"

datatype name_gap = GapNamed | GapReady | GapUnqualified

definition nameOnlyGap :: "jsval list \<Rightarrow> string \<Rightarrow> name_gap" where
  "nameOnlyGap records pane =
     (let names = suppliedNames records in
      if length names = 1 then GapNamed
      else if 1 < length names then GapUnqualified
      else case joinPromptTargetIdentity (records @ [JObj [(''pane_id'', JStr pane), (''name'', JStr NAME_PROBE)]]) pane False of
        Inr _ \<Rightarrow> GapReady | Inl _ \<Rightarrow> GapUnqualified)"

section \<open>Minting\<close>

text \<open>A failed command is the thrown value; its code is \<open>error.details.errorEnvelope.error.code\<close>.\<close>

definition cliErrorCode :: "jsval \<Rightarrow> string option" where
  "cliErrorCode err =
     (let details = jget ''details'' err; envelope = jget ''errorEnvelope'' details; e = jget ''error'' envelope
      in opt_str (jget ''code'' e))"

datatype adopt_call = CallRename string | CallSnapshot | CallAgentGet | CallPaneGet | CallMetadata

record adopt_replies =
  ad_rename :: "string \<Rightarrow> jsval + jsval"
  ad_snapshot :: "jsval + jsval"
  ad_agent :: "jsval + jsval"
  ad_pane :: "jsval + jsval"
  ad_metadata :: "string option"

definition mintAgentName :: "adopt_replies \<Rightarrow> string \<Rightarrow> (adopt_error, jsval) result" where
  "mintAgentName rep name =
     (case ad_rename rep name of
        Inl err \<Rightarrow>
          (case cliErrorCode err of
             Some c \<Rightarrow>
               if c = ''agent_name_taken'' then Inl AgentNameTaken
               else if c = ''agent_not_found'' \<or> c = ''agent_launch_pending'' then Inl (AdoptUnqualified ''agent_vanished'')
               else if c = ''invalid_agent_name'' then Inl AdoptInvalidInput
               else Inl (AdoptCommand err)
           | None \<Rightarrow> Inl (AdoptCommand err))
      | Inr reply \<Rightarrow> (case agentFrom reply of Inl e \<Rightarrow> Inl (AdoptIdentity e) | Inr a \<Rightarrow> Inr a))"

text \<open>Code units below 256: the controls and the soft hyphen go, then the white space at both ends.\<close>

definition token_drop :: "char \<Rightarrow> bool" where
  "token_drop c = (let n = (of_char c :: nat) in n < 32 \<or> (127 \<le> n \<and> n \<le> 159) \<or> n = 173)"

definition tokenValue :: "string \<Rightarrow> string option" where
  "tokenValue v =
     (let normalized = take TOKEN_VALUE_MAX_LENGTH (js_trim (filter (\<lambda>c. \<not> token_drop c) v))
      in if normalized = [] then None else Some normalized)"

text \<open>The records a fresh verification joins: the snapshot's pane and agent, then the two gets.\<close>

definition fresh_records :: "adopt_replies \<Rightarrow> string \<Rightarrow> adopt_call list \<times> (adopt_error, jsval list) result" where
  "fresh_records rep pane =
     (case ad_snapshot rep of Inl err \<Rightarrow> ([CallSnapshot], Inl (AdoptCommand err)) | Inr reply \<Rightarrow>
      case parseSnapshotResult reply of Inl e \<Rightarrow> ([CallSnapshot], Inl (AdoptProtocol e)) | Inr sn \<Rightarrow>
      case ad_agent rep of Inl err \<Rightarrow> ([CallSnapshot, CallAgentGet], Inl (AdoptCommand err)) | Inr agent \<Rightarrow>
      case ad_pane rep of Inl err \<Rightarrow> ([CallSnapshot, CallAgentGet, CallPaneGet], Inl (AdoptCommand err)) | Inr p \<Rightarrow>
      ([CallSnapshot, CallAgentGet, CallPaneGet],
       case snapshotIdentityRecords sn pane of Inl e \<Rightarrow> Inl (AdoptIdentity e) | Inr recs \<Rightarrow>
       case agentFrom agent of Inl e \<Rightarrow> Inl (AdoptIdentity e) | Inr a \<Rightarrow>
       case paneFrom p pane of Inl e \<Rightarrow> Inl (AdoptProtocol e) | Inr q \<Rightarrow> Inr (recs @ [a, q])))"

record adopted =
  ai_paneId :: string
  ai_agentName :: string
  ai_identity :: prompt_identity
  ai_namePreexisting :: bool
  ai_provenanceWarning :: "string option"

definition held_names :: "snapshot \<Rightarrow> string \<Rightarrow> string \<Rightarrow> jsval list" where
  "held_names sn pane name =
     filter (\<lambda>v. jget ''pane_id'' v \<noteq> JStr pane \<and> name \<in> set (suppliedNames [v])) (sn_agents sn @ sn_panes sn)"

definition adoptAgentIdentity ::
  "adopt_replies \<Rightarrow> snapshot \<Rightarrow> string \<Rightarrow> string \<Rightarrow> adopt_call list \<times> (adopt_error, adopted) result" where
  "adoptAgentIdentity rep sn pane name =
     (case adoptTargetPreconditions sn pane of Inl e \<Rightarrow> ([], Inl e) | Inr cond \<Rightarrow>
      if pc_suppliedName cond \<noteq> None \<and> pc_suppliedName cond \<noteq> Some name
      then ([], Inl (AgentAlreadyNamed (the (pc_suppliedName cond))))
      else if held_names sn pane name \<noteq> [] then ([], Inl AgentNameTaken)
      else let preexisting = (pc_suppliedName cond = Some name);
               calls = (if preexisting then [] else [CallRename name]) in
        case (if preexisting then Inr JUndef else mintAgentName rep name) of
          Inl e \<Rightarrow> (calls, Inl e)
        | Inr _ \<Rightarrow>
          (case fresh_records rep pane of
             (reads, Inl e) \<Rightarrow> (calls @ reads, Inl e)
           | (reads, Inr records) \<Rightarrow>
             (case requirePromptTargetIdentity records pane of
                Inl e \<Rightarrow> (calls @ reads, Inl (AdoptIdentity e))
              | Inr identity \<Rightarrow>
                  if pi_agentName identity \<noteq> name then (calls @ reads, Inl (AdoptIdentity (IdentityChanged ''agent_name'')))
                  else (calls @ reads @ (if preexisting then [] else [CallMetadata]),
                        Inr \<lparr>ai_paneId = pane, ai_agentName = name, ai_identity = identity, ai_namePreexisting = preexisting,
                             ai_provenanceWarning = (if preexisting then None else ad_metadata rep)\<rparr>))))"

section \<open>Lazy adoption\<close>

definition normalized_pane :: "string \<Rightarrow> string" where
  "normalized_pane pane = filter name_char (map lower_char pane)"

definition selfNameCandidates :: "string \<Rightarrow> string \<Rightarrow> string list option" where
  "selfNameCandidates kind pane =
     (let normalized = normalized_pane pane;
          suffixRoom = length (''-'' @ nat_digits SELF_NAME_SUFFIX_LIMIT);
          base = take (AGENT_NAME_MAX_LENGTH - suffixRoom) (kind @ ''-'' @ normalized)
      in if normalized = [] \<or> \<not> isAgentName base then None
         else Some (base # map (\<lambda>n. base @ ''-'' @ nat_digits n) [2..<Suc SELF_NAME_SUFFIX_LIMIT]))"

datatype adopt_outcome = AdoptNamed "jsval option" | AdoptRefused | AdoptNotQualified

fun try_names ::
  "adopt_replies \<Rightarrow> jsval list \<Rightarrow> string \<Rightarrow> string list \<Rightarrow> adopt_call list \<times> (adopt_error, adopt_outcome) result" where
  "try_names rep records pane [] = ([], Inr AdoptRefused)"
| "try_names rep records pane (c # cs) =
     (case mintAgentName rep c of
        Inl AgentNameTaken \<Rightarrow> (let (calls, r) = try_names rep records pane cs in (CallRename c # calls, r))
      | Inl e \<Rightarrow> ([CallRename c], Inl e)
      | Inr minted \<Rightarrow>
          (case requirePromptTargetIdentity (records @ [minted]) pane of
             Inl e \<Rightarrow> ([CallRename c], Inl (AdoptIdentity e))
           | Inr identity \<Rightarrow>
               if pi_agentName identity \<noteq> c then ([CallRename c], Inl (AdoptIdentity (IdentityChanged ''agent_name'')))
               else ([CallRename c, CallMetadata], Inr (AdoptNamed (Some minted)))))"

definition adoptUnnamedTarget ::
  "adopt_replies \<Rightarrow> string \<Rightarrow> string \<Rightarrow> adopt_call list \<times> (adopt_error, adopt_outcome) result" where
  "adoptUnnamedTarget rep pane kind =
     (case fresh_records rep pane of
        (reads, Inl e) \<Rightarrow> (reads, Inl e)
      | (reads, Inr records) \<Rightarrow>
          (case nameOnlyGap records pane of
             GapNamed \<Rightarrow> (reads, Inr (AdoptNamed None))
           | GapUnqualified \<Rightarrow> (reads, Inr AdoptNotQualified)
           | GapReady \<Rightarrow>
               (case selfNameCandidates kind pane of
                  None \<Rightarrow> (reads, Inr AdoptRefused)
                | Some names \<Rightarrow> (let (calls, r) = try_names rep records pane names in (reads @ calls, r)))))"

section \<open>Properties\<close>

lemma fresh_records_calls: "fst (fresh_records rep pane) \<in> {[CallSnapshot], [CallSnapshot, CallAgentGet], [CallSnapshot, CallAgentGet, CallPaneGet]}"
  by (auto simp: fresh_records_def split: sum.splits)

lemma adopt_after_mint:
  assumes "adoptAgentIdentity rep sn pane name = (calls, Inr a)"
  obtains cond reads records where "adoptTargetPreconditions sn pane = Inr cond"
    and "pc_suppliedName cond = None \<or> pc_suppliedName cond = Some name" and "held_names sn pane name = []"
    and "fresh_records rep pane = (reads, Inr records)"
    and "requirePromptTargetIdentity records pane = Inr (ai_identity a)" and "pi_agentName (ai_identity a) = name"
    and "ai_agentName a = name" and "ai_namePreexisting a \<longleftrightarrow> pc_suppliedName cond = Some name"
    and "calls = (if ai_namePreexisting a then reads else CallRename name # reads @ [CallMetadata])"
    and "\<not> ai_namePreexisting a \<longrightarrow> (\<exists>minted. mintAgentName rep name = Inr minted)"
proof -
  obtain cond where cond: "adoptTargetPreconditions sn pane = Inr cond"
    using assms by (cases "adoptTargetPreconditions sn pane") (simp_all add: adoptAgentIdentity_def)
  define pre where "pre = (pc_suppliedName cond = Some name)"
  have free: "pc_suppliedName cond = None \<or> pc_suppliedName cond = Some name" "held_names sn pane name = []"
    using assms cond by (auto simp: adoptAgentIdentity_def split: if_splits)
  obtain m where m: "(if pre then Inr JUndef else mintAgentName rep name) = Inr m"
    using assms cond free unfolding pre_def
    by (cases "if pc_suppliedName cond = Some name then Inr JUndef else mintAgentName rep name")
      (auto simp: adoptAgentIdentity_def split: if_splits)
  obtain reads r where fr: "fresh_records rep pane = (reads, r)" by (cases "fresh_records rep pane")
  obtain records where records: "r = Inr records"
    using assms cond free m fr unfolding pre_def
    by (cases r) (auto simp: adoptAgentIdentity_def Let_def split: if_splits)
  obtain i where i: "requirePromptTargetIdentity records pane = Inr i"
    using assms cond free m fr records unfolding pre_def
    by (cases "requirePromptTargetIdentity records pane") (auto simp: adoptAgentIdentity_def Let_def split: if_splits)
  have "pi_agentName i = name \<and> a = \<lparr>ai_paneId = pane, ai_agentName = name, ai_identity = i, ai_namePreexisting = pre,
      ai_provenanceWarning = (if pre then None else ad_metadata rep)\<rparr> \<and> calls = (if pre then reads else CallRename name # reads @ [CallMetadata])"
    using assms cond free m fr records i unfolding pre_def
    by (auto simp: adoptAgentIdentity_def Let_def split: if_splits)
  then show thesis
    by (intro that [OF cond free(1) free(2) fr [unfolded records]]; use i m in \<open>auto simp: pre_def split: if_splits\<close>)
qed

text \<open>
  C30. Adoption binds the requested name or fails: when it succeeds, the fresh records prove a complete
  identity of the pane under exactly that name, no other pane or agent of the snapshot held the name,
  the pane carried no other name, and the rename was issued at most once and only for a nameless pane;
  an adoption that found the name already there writes nothing.
\<close>

theorem adopt_binds_requested_name:
  assumes "adoptAgentIdentity rep sn pane name = (calls, Inr a)"
  shows "ai_agentName a = name \<and> pi_agentName (ai_identity a) = name \<and> pi_paneId (ai_identity a) = pane
       \<and> (\<exists>reads records. fresh_records rep pane = (reads, Inr records)
            \<and> requirePromptTargetIdentity records pane = Inr (ai_identity a))
       \<and> held_names sn pane name = []
       \<and> (\<exists>cond. adoptTargetPreconditions sn pane = Inr cond
            \<and> pc_suppliedName cond = (if ai_namePreexisting a then Some name else None))
       \<and> filter (\<lambda>c. c \<in> range CallRename) calls = (if ai_namePreexisting a then [] else [CallRename name])
       \<and> (ai_namePreexisting a \<longrightarrow> CallMetadata \<notin> set calls)"
proof -
  obtain cond reads records where c: "adoptTargetPreconditions sn pane = Inr cond"
      "pc_suppliedName cond = None \<or> pc_suppliedName cond = Some name" "held_names sn pane name = []"
      "fresh_records rep pane = (reads, Inr records)"
      "requirePromptTargetIdentity records pane = Inr (ai_identity a)" "pi_agentName (ai_identity a) = name"
      "ai_agentName a = name" "ai_namePreexisting a \<longleftrightarrow> pc_suppliedName cond = Some name"
      "calls = (if ai_namePreexisting a then reads else CallRename name # reads @ [CallMetadata])"
    using assms by (rule adopt_after_mint) blast
  have reads: "reads \<in> {[CallSnapshot], [CallSnapshot, CallAgentGet], [CallSnapshot, CallAgentGet, CallPaneGet]}"
    using fresh_records_calls [of rep pane] c(4) by simp
  have "pi_paneId (ai_identity a) = pane"
    using c(5) by (simp add: requirePromptTargetIdentity_def join_strict)
  then show ?thesis using c reads by auto
qed

definition nameless_record :: jsval where
  "nameless_record = JObj [(''pane_id'', JStr ''p1''), (''terminal_id'', JStr ''t1''), (''agent'', JStr ''pi''),
     (''agent_session'', JObj [(''source'', JStr ''herdr''), (''agent'', JStr ''pi''), (''kind'', JStr ''id''), (''value'', JStr ''s1'')]),
     (''agent_status'', JStr ''idle'')]"

definition adopt_example :: adopt_replies where
  "adopt_example = \<lparr>ad_rename = (\<lambda>n. Inr (JObj [(''agent'', example_record)])), ad_snapshot = Inr example_reply_snapshot,
     ad_agent = Inr (JObj [(''agent'', example_record)]),
     ad_pane = Inr (JObj [(''pane'', hd (sn_panes example_snapshot))]), ad_metadata = None\<rparr>"

definition nameless_snapshot :: snapshot where
  "nameless_snapshot = example_snapshot\<lparr>sn_agents := [nameless_record]\<rparr>"

definition adopt_result :: adopted where
  "adopt_result = \<lparr>ai_paneId = ''p1'', ai_agentName = ''worker'', ai_identity = example_identity, ai_namePreexisting = False,
     ai_provenanceWarning = None\<rparr>"

lemma example_adoption: "adoptAgentIdentity adopt_example nameless_snapshot ''p1'' ''worker'' =
    ([CallRename ''worker'', CallSnapshot, CallAgentGet, CallPaneGet, CallMetadata], Inr adopt_result)"
  by code_simp

theorem adopt_binds_requested_name_witness:
  "pi_agentName (ai_identity adopt_result) = ''worker'' \<and> held_names nameless_snapshot ''p1'' ''worker'' = []"
  using adopt_binds_requested_name [OF example_adoption] by blast

end
