(* ===== verification/Handoff.thy ===== *)
theory Handoff
  imports Mailbox Intents
begin

text \<open>
  The durable record of one delegated run (\<open>src/handoff.ts\<close>): the state sidecar and the provenance
  sidecar with its ownership history. A sidecar is the JSON value its file parses to, the file's size
  and whether owner, mode and kind of the file are trusted; the validators read that value as the
  code does. The outcomes of locks, reads and atomic writes are the argument \<open>handoff_io\<close>.
\<close>

section \<open>Shapes\<close>

definition HANDOFF_MAX_BYTES :: nat where
  "HANDOFF_MAX_BYTES = 64 * 1024"

definition HANDOFF_PROVENANCE_MAX_BYTES :: nat where
  "HANDOFF_PROVENANCE_MAX_BYTES = 8 * 1024 * 1024"

definition run_id_pattern :: "(char \<Rightarrow> bool) list" where
  "run_id_pattern = replicate 8 is_hex @ [(=) (CHR ''-'')] @ replicate 4 is_hex @ [(=) (CHR ''-'')] @ replicate 4 is_hex
     @ [(=) (CHR ''-'')] @ replicate 4 is_hex @ [(=) (CHR ''-'')] @ replicate 12 is_hex"

definition run_id_shape :: "string \<Rightarrow> bool" where
  "run_id_shape s = list_all2 (\<lambda>P c. P c) run_id_pattern s"

definition created_at_pattern :: "(char \<Rightarrow> bool) list" where
  "created_at_pattern = replicate 4 is_digit @ [(=) (CHR ''-'')] @ replicate 2 is_digit @ [(=) (CHR ''-'')] @ replicate 2 is_digit
     @ [(=) (CHR ''T'')] @ replicate 2 is_digit @ [(=) (CHR '':'')] @ replicate 2 is_digit @ [(=) (CHR '':'')]
     @ replicate 2 is_digit @ [(=) (CHR ''.'')] @ replicate 3 is_digit @ [(=) (CHR ''Z'')]"

definition created_at_shape :: "string \<Rightarrow> bool" where
  "created_at_shape s = list_all2 (\<lambda>P c. P c) created_at_pattern s"

definition nonempty :: "jsval \<Rightarrow> bool" where
  "nonempty = is_str (\<lambda>s. s \<noteq> [])"

definition nullableString :: "jsval \<Rightarrow> bool" where
  "nullableString v \<longleftrightarrow> v = JNull \<or> nonempty v"

definition safeLine :: "jsval \<Rightarrow> bool" where
  "safeLine = is_str usable"

definition taskText :: "jsval \<Rightarrow> bool" where
  "taskText = is_str (\<lambda>s. s \<noteq> [] \<and> CHR 0x00 \<notin> set s)"

definition keys_within :: "string list \<Rightarrow> jsval \<Rightarrow> bool" where
  "keys_within ks v \<longleftrightarrow> list_all (\<lambda>k. k \<in> set ks) (obj_keys v)"

definition nonNegativeInteger :: "jsval \<Rightarrow> bool" where
  "nonNegativeInteger v =
     (case v of JNum q \<Rightarrow> snd (quotient_of q) = 1 \<and> 0 \<le> q \<and> q \<le> 9007199254740991 | _ \<Rightarrow> False)"

section \<open>The state sidecar\<close>

definition WORKLOAD_MEMBERS :: "(string \<times> string list) list" where
  "WORKLOAD_MEMBERS =
     [(''intent'', [''explore'', ''reason'', ''implement'', ''debug'', ''verify'', ''review'', ''coordinate'', ''unknown'']),
      (''mutation'', [''none'', ''bounded'', ''broad'']), (''scope'', [''local'', ''multi_file'', ''repo_wide'']),
      (''horizon'', [''short'', ''medium'', ''long'']), (''verifiability'', [''strong'', ''partial'', ''weak'']),
      (''workspaceState'', [''clean'', ''partial'', ''failed'']), (''ambiguity'', [''low'', ''medium'', ''high''])]"

definition validWorkload :: "jsval \<Rightarrow> bool" where
  "validWorkload v \<longleftrightarrow> is_record v \<and> length (obj_keys v) = length WORKLOAD_MEMBERS
     \<and> list_all (\<lambda>(k, members). is_str (\<lambda>s. s \<in> set members) (jget k v)) WORKLOAD_MEMBERS"

definition tier_shape :: "jsval \<Rightarrow> bool" where
  "tier_shape = is_str (\<lambda>s. s \<in> tier_name ` set QUALITY_TIERS)"

definition validRoute :: "jsval \<Rightarrow> bool" where
  "validRoute v \<longleftrightarrow> is_record v \<and> keys_within [''tier'', ''operatingPointId'', ''policyRevision'', ''workload''] v
     \<and> tier_shape (jget ''tier'' v) \<and> nonempty (jget ''operatingPointId'' v) \<and> nonempty (jget ''policyRevision'' v)
     \<and> validWorkload (jget ''workload'' v)"

definition validWorkspace :: "jsval \<Rightarrow> bool" where
  "validWorkspace v \<longleftrightarrow> is_record v \<and> keys_within [''resolvedCwd'', ''worktree''] v \<and> nonempty (jget ''resolvedCwd'' v)
     \<and> opt_field nonempty (jget ''worktree'' v)"

definition validResolvedModel :: "jsval \<Rightarrow> bool" where
  "validResolvedModel v \<longleftrightarrow> is_record v \<and> keys_within [''available'', ''model'', ''reason'', ''catalogRevision''] v
     \<and> (if jget ''available'' v = JBool True then nonempty (jget ''model'' v)
        else jget ''available'' v = JBool False \<and> nonempty (jget ''reason'' v) \<and> opt_field nonempty (jget ''catalogRevision'' v))"

definition CHILD_KEYS :: "string list" where
  "CHILD_KEYS = [''agentName'', ''agentKind'', ''operatingPointId'', ''specLabel'', ''fallbackCandidates'', ''paneId'', ''terminalId'',
     ''agentId'', ''resolvedModel'', ''route'', ''workspace'']"

definition validChild :: "jsval \<Rightarrow> bool" where
  "validChild v \<longleftrightarrow> is_record v \<and> keys_within CHILD_KEYS v
     \<and> nonempty (jget ''agentName'' v) \<and> nonempty (jget ''agentKind'' v) \<and> nonempty (jget ''operatingPointId'' v)
     \<and> nonempty (jget ''specLabel'' v) \<and> is_arr (is_str (\<lambda>_. True)) (jget ''fallbackCandidates'' v)
     \<and> nullableString (jget ''paneId'' v) \<and> nullableString (jget ''terminalId'' v) \<and> nullableString (jget ''agentId'' v)
     \<and> opt_field validResolvedModel (jget ''resolvedModel'' v) \<and> opt_field validRoute (jget ''route'' v)
     \<and> opt_field validWorkspace (jget ''workspace'' v)"

definition validSessionRecord :: "jsval \<Rightarrow> bool" where
  "validSessionRecord v \<longleftrightarrow> is_record v \<and> keys_within [''source'', ''agent'', ''kind'', ''value''] v
     \<and> safeLine (jget ''source'' v) \<and> safeLine (jget ''agent'' v) \<and> safeLine (jget ''kind'' v) \<and> safeLine (jget ''value'' v)"

text \<open>The trace kind of an agent kind; an inherited property of the object is no string, so it equals no kind.\<close>

definition HANDOFF_TRACE_KINDS :: "(string \<times> string) list" where
  "HANDOFF_TRACE_KINDS = [(''claude'', ''claude-jsonl''), (''pi'', ''pi-jsonl''), (''devin'', ''devin-session'')]"

definition validTracePosition :: "jsval \<Rightarrow> string \<Rightarrow> bool" where
  "validTracePosition v kind \<longleftrightarrow> is_record v \<and> is_str sha256_hex (jget ''anchor'' v)
     \<and> (if kind = ''devin-session''
        then keys_within [''session'', ''steps'', ''anchor''] v \<and> safeLine (jget ''session'' v) \<and> nonNegativeInteger (jget ''steps'' v)
        else keys_within [''path'', ''offset'', ''anchor''] v \<and> safeLine (jget ''path'' v)
             \<and> is_str (\<lambda>s. take 1 s = ''/'') (jget ''path'' v) \<and> nonNegativeInteger (jget ''offset'' v))"

definition validTraceHistory :: "jsval \<Rightarrow> string \<Rightarrow> bool" where
  "validTraceHistory v agentKind \<longleftrightarrow> is_record v \<and> keys_within [''kind'', ''session'', ''position''] v
     \<and> (case map_of HANDOFF_TRACE_KINDS agentKind of
          None \<Rightarrow> False
        | Some kind \<Rightarrow> jget ''kind'' v = JStr kind \<and> validSessionRecord (jget ''session'' v)
            \<and> validTracePosition (jget ''position'' v) kind)"

definition ARTIFACT_KEYS :: "string list" where
  "ARTIFACT_KEYS = [''path'', ''sha256'', ''bytes'', ''version'', ''status'', ''mtimeMs'', ''traceHistory'']"

definition validArtifact :: "jsval \<Rightarrow> string \<Rightarrow> bool" where
  "validArtifact v agentKind \<longleftrightarrow> is_record v \<and> keys_within ARTIFACT_KEYS v
     \<and> opt_field nonNegativeInteger (jget ''mtimeMs'' v)
     \<and> opt_field (\<lambda>h. validTraceHistory h agentKind) (jget ''traceHistory'' v)"

definition valid_state :: "string \<Rightarrow> string \<Rightarrow> jsval \<Rightarrow> bool" where
  "valid_state endpoint runId v \<longleftrightarrow> is_record v \<and> jget ''v'' v = JNum 2 \<and> jget ''runId'' v = JStr runId
     \<and> jget ''endpoint'' v = JStr endpoint \<and> is_record (jget ''manager'' v) \<and> is_record (jget ''lifecycle'' v)
     \<and> is_record (jget ''repair'' v) \<and> validChild (jget ''child'' v)
     \<and> validArtifact (jget ''artifact'' v) (str_of (jget ''agentKind'' (jget ''child'' v)))"

section \<open>The provenance sidecar\<close>

definition MANAGER_SOURCES :: "string list" where
  "MANAGER_SOURCES = [''agent_name'', ''pane_agent_name'', ''label'', ''agent_kind'', ''pane_id'']"

definition validProvenanceManager :: "jsval \<Rightarrow> bool" where
  "validProvenanceManager v \<longleftrightarrow> is_record v \<and> keys_within [''paneId'', ''display'', ''source'', ''session''] v
     \<and> safeLine (jget ''paneId'' v) \<and> safeLine (jget ''display'' v) \<and> is_str (\<lambda>s. s \<in> set MANAGER_SOURCES) (jget ''source'' v)
     \<and> (jget ''session'' v = JNull \<or> validSessionRecord (jget ''session'' v))"

definition PROVENANCE_TASK_KEYS :: "string list" where
  "PROVENANCE_TASK_KEYS = [''objective'', ''scope'', ''doneWhen'', ''constraints'', ''tier'', ''replicas'', ''recoveryOf'', ''label'', ''cwd'',
     ''retention'', ''operatingPoint'']"

definition validTaskContract :: "jsval \<Rightarrow> bool" where
  "validTaskContract v \<longleftrightarrow> is_record v \<and> keys_within PROVENANCE_TASK_KEYS v
     \<and> taskText (jget ''objective'' v) \<and> taskText (jget ''scope'' v)
     \<and> is_arr taskText (jget ''doneWhen'' v) \<and> 1 \<le> length (arr_of (jget ''doneWhen'' v)) \<and> length (arr_of (jget ''doneWhen'' v)) \<le> 8
     \<and> is_arr taskText (jget ''constraints'' v) \<and> length (arr_of (jget ''constraints'' v)) \<le> 8
     \<and> opt_field tier_shape (jget ''tier'' v)
     \<and> opt_field (\<lambda>x. nonNegativeInteger x \<and> x \<in> JNum ` {1, 2, 3, 4, 5, 6, 7, 8}) (jget ''replicas'' v)
     \<and> opt_field (is_str run_id_shape) (jget ''recoveryOf'' v)
     \<and> opt_field (is_str (\<lambda>s. usable s \<and> byte_length s \<le> 256)) (jget ''label'' v)
     \<and> opt_field safeLine (jget ''cwd'' v)
     \<and> opt_field (is_str (\<lambda>s. s = ''retire'' \<or> s = ''keep'')) (jget ''retention'' v)
     \<and> opt_field (is_str (\<lambda>s. usable s \<and> length s \<le> 128)) (jget ''operatingPoint'' v)"

text \<open>The check of one entry of the ownership history; \<open>prev\<close> is the end of the entry before.\<close>

definition owner_entry_ok :: "bool \<Rightarrow> jsval option \<Rightarrow> jsval \<Rightarrow> bool" where
  "owner_entry_ok final prev e \<longleftrightarrow> is_record e \<and> keys_within [''session'', ''from'', ''to'', ''reason''] e
     \<and> (jget ''session'' e = JNull \<or> validSessionRecord (jget ''session'' e))
     \<and> is_str created_at_shape (jget ''from'' e)
     \<and> (if final then jget ''to'' e = JNull else is_str created_at_shape (jget ''to'' e))
     \<and> safeLine (jget ''reason'' e)
     \<and> (case prev of None \<Rightarrow> True | Some t \<Rightarrow> t = jget ''from'' e)"

fun owners_ok :: "jsval option \<Rightarrow> jsval list \<Rightarrow> bool" where
  "owners_ok prev [] = True"
| "owners_ok prev (e # es) = (owner_entry_ok (es = []) prev e \<and> owners_ok (Some (jget ''to'' e)) es)"

definition validHandoffOwners :: "jsval \<Rightarrow> bool" where
  "validHandoffOwners v = (case v of JArr es \<Rightarrow> es \<noteq> [] \<and> owners_ok None es | _ \<Rightarrow> False)"

record owner_entry =
  ow_session :: "agent_session option"
  ow_from :: string
  ow_to :: "string option"
  ow_reason :: string

definition session_opt_of :: "jsval \<Rightarrow> agent_session option" where
  "session_opt_of v = (if v = JNull then None else Some (session_of v))"

definition session_opt_value :: "agent_session option \<Rightarrow> jsval" where
  "session_opt_value s = (case s of None \<Rightarrow> JNull | Some x \<Rightarrow> session_value x)"

definition owner_of :: "jsval \<Rightarrow> owner_entry" where
  "owner_of e = \<lparr>ow_session = session_opt_of (jget ''session'' e), ow_from = str_of (jget ''from'' e),
     ow_to = opt_str (jget ''to'' e), ow_reason = str_of (jget ''reason'' e)\<rparr>"

definition owner_value :: "owner_entry \<Rightarrow> jsval" where
  "owner_value e = JObj [(''session'', session_opt_value (ow_session e)), (''from'', JStr (ow_from e)),
     (''to'', case ow_to e of None \<Rightarrow> JNull | Some t \<Rightarrow> JStr t), (''reason'', JStr (ow_reason e))]"

text \<open>A parsed provenance: \<open>pv_owners\<close> is \<open>None\<close> in a version 1 record; the task has no \<open>replicas\<close>.\<close>

record provenance =
  pv_runId :: string
  pv_endpoint :: string
  pv_createdAt :: string
  pv_manager :: jsval
  pv_task :: jsval
  pv_owners :: "owner_entry list option"

definition provenance_json :: "provenance \<Rightarrow> jsval" where
  "provenance_json p = JObj ([(''v'', JNum (case pv_owners p of None \<Rightarrow> 1 | Some _ \<Rightarrow> 2)), (''runId'', JStr (pv_runId p)),
     (''endpoint'', JStr (pv_endpoint p)), (''createdAt'', JStr (pv_createdAt p)), (''manager'', pv_manager p), (''task'', pv_task p)]
     @ opt_json ''owners'' (map_option (\<lambda>os. JArr (map owner_value os)) (pv_owners p)))"

datatype handoff_error = HandoffUnavailable | HandoffStoreFailed string

definition manager_session :: "jsval \<Rightarrow> agent_session option" where
  "manager_session m = session_opt_of (jget ''session'' m)"

definition parseHandoffProvenance :: "string \<Rightarrow> string \<Rightarrow> jsval option \<Rightarrow> (handoff_error, provenance) result" where
  "parseHandoffProvenance endpoint runId content =
     (case content of None \<Rightarrow> Inl (HandoffStoreFailed ''malformed'') | Some v \<Rightarrow>
      let two = (jget ''v'' v = JNum 2) in
      if \<not> is_record v
         \<or> \<not> keys_within ([''v'', ''runId'', ''endpoint'', ''createdAt'', ''manager'', ''task''] @ (if two then [''owners''] else [])) v
         \<or> (jget ''v'' v \<noteq> JNum 1 \<and> \<not> two) \<or> (two \<and> \<not> validHandoffOwners (jget ''owners'' v))
         \<or> jget ''runId'' v \<noteq> JStr runId \<or> jget ''endpoint'' v \<noteq> JStr endpoint
         \<or> \<not> is_str created_at_shape (jget ''createdAt'' v)
         \<or> \<not> validProvenanceManager (jget ''manager'' v) \<or> \<not> validTaskContract (jget ''task'' v)
      then Inl (HandoffStoreFailed ''malformed'')
      else let p = \<lparr>pv_runId = runId, pv_endpoint = endpoint, pv_createdAt = str_of (jget ''createdAt'' v), pv_manager = jget ''manager'' v,
                   pv_task = jdel ''replicas'' (jget ''task'' v),
                   pv_owners = (if two then Some (map owner_of (arr_of (jget ''owners'' v))) else None)\<rparr> in
        case pv_owners p of
          None \<Rightarrow> Inr p
        | Some os \<Rightarrow>
            if ow_from (hd os) \<noteq> pv_createdAt p \<or> ow_session (hd os) \<noteq> manager_session (pv_manager p)
            then Inl (HandoffStoreFailed ''malformed'') else Inr p)"

definition handoffOwners :: "provenance \<Rightarrow> owner_entry list" where
  "handoffOwners p =
     (case pv_owners p of Some os \<Rightarrow> os
      | None \<Rightarrow> [\<lparr>ow_session = manager_session (pv_manager p), ow_from = pv_createdAt p, ow_to = None, ow_reason = ''launch''\<rparr>])"

definition currentHandoffOwner :: "provenance \<Rightarrow> agent_session option" where
  "currentHandoffOwner p = (case find (\<lambda>e. ow_to e = None) (rev (handoffOwners p)) of None \<Rightarrow> None | Some e \<Rightarrow> ow_session e)"

section \<open>Runs on disk\<close>

record sidecar =
  sc_value :: "jsval option"
  sc_bytes :: nat
  sc_trusted :: bool

record run_dir =
  rd_state :: "sidecar option"
  rd_provenance :: "sidecar option"

record handoff_store =
  hs_endpoint :: string
  hs_runs :: "(string \<times> run_dir) list"

record handoff_io =
  hi_namespace :: bool
  hi_lock :: "string \<Rightarrow> bool"
  hi_mkdir :: "string \<Rightarrow> bool"
  hi_read :: "string \<Rightarrow> string \<Rightarrow> bool"
  hi_write :: "string \<Rightarrow> string \<Rightarrow> commit_outcome"

text \<open>\<open>allocator.open\<close>: the shape of the identifier; the sidecars are read next.\<close>

definition openIn :: "handoff_io \<Rightarrow> string \<Rightarrow> (handoff_error, unit) result" where
  "openIn io runId = (if hi_namespace io \<and> run_id_shape runId then Inr () else Inl HandoffUnavailable)"

definition read_sidecar :: "handoff_io \<Rightarrow> string \<Rightarrow> string \<Rightarrow> nat \<Rightarrow> sidecar option \<Rightarrow> (handoff_error, jsval option) result" where
  "read_sidecar io runId name limit f =
     (case f of None \<Rightarrow> Inl (HandoffStoreFailed ''missing'') | Some g \<Rightarrow>
      if \<not> sc_trusted g \<or> sc_bytes g > limit then Inl (HandoffStoreFailed ''untrusted'')
      else if \<not> hi_read io runId name then Inl (HandoffStoreFailed ''untrusted'')
      else Inr (sc_value g))"

definition run_of :: "handoff_store \<Rightarrow> string \<Rightarrow> run_dir" where
  "run_of s runId = (case map_of (hs_runs s) runId of None \<Rightarrow> \<lparr>rd_state = None, rd_provenance = None\<rparr> | Some r \<Rightarrow> r)"

definition readHandoffState :: "handoff_io \<Rightarrow> string \<Rightarrow> handoff_store \<Rightarrow> (handoff_error, jsval) result" where
  "readHandoffState io runId s =
     bind_result (read_sidecar io runId ''state'' HANDOFF_MAX_BYTES (rd_state (run_of s runId))) (\<lambda>content.
       case content of None \<Rightarrow> Inl (HandoffStoreFailed ''malformed'')
       | Some v \<Rightarrow> if valid_state (hs_endpoint s) runId v then Inr v else Inl (HandoffStoreFailed ''malformed''))"

definition readHandoffProvenance :: "handoff_io \<Rightarrow> string \<Rightarrow> handoff_store \<Rightarrow> (handoff_error, provenance) result" where
  "readHandoffProvenance io runId s =
     bind_result (read_sidecar io runId ''provenance'' HANDOFF_PROVENANCE_MAX_BYTES (rd_provenance (run_of s runId)))
       (parseHandoffProvenance (hs_endpoint s) runId)"

text \<open>One atomic write of a sidecar: staged and renamed, or not, or renamed without the directory sync.\<close>

definition written :: "ambient \<Rightarrow> jsval \<Rightarrow> sidecar" where
  "written am v = \<lparr>sc_value = Some v, sc_bytes = byte_length (json_text (am_numStr am) v), sc_trusted = True\<rparr>"

definition put_run :: "string \<Rightarrow> run_dir \<Rightarrow> handoff_store \<Rightarrow> handoff_store" where
  "put_run runId r s = s\<lparr>hs_runs := al_put runId r (hs_runs s)\<rparr>"

definition writeFileAtomic :: "commit_outcome \<Rightarrow> handoff_store \<Rightarrow> handoff_store \<Rightarrow> handoff_store \<times> (handoff_error, unit) result" where
  "writeFileAtomic outcome landed s =
     (case outcome of
        Committed \<Rightarrow> (landed, Inr ())
      | NotCommitted \<Rightarrow> (s, Inl (HandoffStoreFailed ''write''))
      | Unsynced \<Rightarrow> (landed, Inl (HandoffStoreFailed ''write'')))"

definition writeHandoffProvenance ::
  "ambient \<Rightarrow> handoff_io \<Rightarrow> string \<Rightarrow> provenance \<Rightarrow> handoff_store \<Rightarrow> handoff_store \<times> (handoff_error, unit) result" where
  "writeHandoffProvenance am io runId p s =
     (case parseHandoffProvenance (hs_endpoint s) runId (Some (provenance_json p)) of
        Inl e \<Rightarrow> (s, Inl e)
      | Inr q \<Rightarrow>
          (let f = written am (provenance_json q) in
           if sc_bytes f > HANDOFF_PROVENANCE_MAX_BYTES then (s, Inl (HandoffStoreFailed ''oversized''))
           else writeFileAtomic (hi_write io runId ''provenance'')
                  (put_run runId ((run_of s runId)\<lparr>rd_provenance := Some f\<rparr>) s) s))"

definition updateHandoffState ::
  "ambient \<Rightarrow> handoff_io \<Rightarrow> string \<Rightarrow> (jsval \<Rightarrow> jsval) \<Rightarrow> handoff_store \<Rightarrow> handoff_store \<times> (handoff_error, jsval) result" where
  "updateHandoffState am io runId mutate s =
     (if \<not> hi_lock io runId then (s, Inl (HandoffStoreFailed ''lock''))
      else case readHandoffState io runId s of
        Inl e \<Rightarrow> (s, Inl e)
      | Inr v \<Rightarrow>
          (case writeFileAtomic (hi_write io runId ''state'')
                  (put_run runId ((run_of s runId)\<lparr>rd_state := Some (written am (mutate v))\<rparr>) s) s of
             (s1, Inl e) \<Rightarrow> (s1, Inl e)
           | (s1, Inr _) \<Rightarrow> (s1, Inr (mutate v))))"

section \<open>Creating a run\<close>

record run_identity =
  rn_manager_paneId :: string
  rn_manager_display :: string
  rn_manager_source :: string
  rn_agentName :: string
  rn_agentKind :: string
  rn_operatingPointId :: string
  rn_specLabel :: string
  rn_fallbackCandidates :: "string list"
  rn_route :: "jsval option"
  rn_workspace :: "jsval option"

definition manager_record :: "run_identity \<Rightarrow> agent_session option \<Rightarrow> jsval" where
  "manager_record i s = JObj [(''paneId'', JStr (rn_manager_paneId i)), (''display'', JStr (rn_manager_display i)),
     (''source'', JStr (rn_manager_source i)), (''session'', session_opt_value s)]"

text \<open>The task of the record, in the order of its keys; absent constraints are recorded as an empty list.\<close>

definition provenance_task :: "launch_task \<Rightarrow> jsval" where
  "provenance_task t = JObj
     ([(''objective'', JStr (lt_objective t)), (''scope'', JStr (lt_scope t)), (''doneWhen'', JArr (map JStr (lt_doneWhen t))),
       (''constraints'', JArr (map JStr (constraints_of t)))]
      @ opt_entry ''tier'' (map_option tier_name (lt_tier t)) @ opt_entry ''recoveryOf'' (lt_recoveryOf t)
      @ opt_entry ''label'' (lt_label t) @ opt_entry ''cwd'' (lt_cwd t) @ opt_entry ''retention'' (lt_retention t)
      @ opt_entry ''operatingPoint'' (lt_operatingPoint t))"

definition launch_provenance :: "string \<Rightarrow> string \<Rightarrow> string \<Rightarrow> run_identity \<Rightarrow> agent_session option \<Rightarrow> launch_task \<Rightarrow> provenance" where
  "launch_provenance endpoint runId createdAt i s task = \<lparr>pv_runId = runId, pv_endpoint = endpoint, pv_createdAt = createdAt,
     pv_manager = manager_record i s, pv_task = provenance_task task, pv_owners = None\<rparr>"

definition initial_state :: "string \<Rightarrow> string \<Rightarrow> string \<Rightarrow> string \<Rightarrow> run_identity \<Rightarrow> jsval" where
  "initial_state endpoint runId artifactPath createdAt i = JObj
     [(''v'', JNum 2), (''runId'', JStr runId), (''endpoint'', JStr endpoint), (''createdAt'', JStr createdAt),
      (''manager'', JObj [(''paneId'', JStr (rn_manager_paneId i)), (''display'', JStr (rn_manager_display i)),
          (''source'', JStr (rn_manager_source i))]),
      (''child'', JObj ([(''agentName'', JStr (rn_agentName i)), (''agentKind'', JStr (rn_agentKind i)),
          (''operatingPointId'', JStr (rn_operatingPointId i)), (''specLabel'', JStr (rn_specLabel i)),
          (''fallbackCandidates'', JArr (map JStr (rn_fallbackCandidates i))), (''paneId'', JNull), (''terminalId'', JNull),
          (''agentId'', JNull)] @ opt_json ''route'' (rn_route i) @ opt_json ''workspace'' (rn_workspace i))),
      (''nativeSession'', JNull),
      (''lifecycle'', JObj [(''state'', JStr ''awaiting_handoff''), (''watermark'', JNull)]),
      (''artifact'', JObj [(''path'', JStr artifactPath), (''sha256'', JNull), (''bytes'', JNull), (''version'', JNum 0)]),
      (''repair'', JObj [(''attempts'', JNum 0), (''fence'', JNull)])]"

text \<open>\<open>prov\<close> is the manager session and the task to record, when the caller supplies them.\<close>

definition persist_run ::
  "ambient \<Rightarrow> handoff_io \<Rightarrow> string \<Rightarrow> string \<Rightarrow> string \<Rightarrow> run_identity \<Rightarrow> (agent_session option \<times> launch_task) option
   \<Rightarrow> handoff_store \<Rightarrow> handoff_store \<times> (handoff_error, unit) result" where
  "persist_run am io runId artifactPath createdAt i prov s =
     (let record = map_option (\<lambda>(session, task). launch_provenance (hs_endpoint s) runId createdAt i session task) prov;
          pfile = map_option (\<lambda>p. written am (provenance_json p)) record;
          run = \<lparr>rd_state = Some (written am (initial_state (hs_endpoint s) runId artifactPath createdAt i)), rd_provenance = None\<rparr>
      in if \<not> hi_namespace io then (s, Inl HandoffUnavailable)
         else if \<not> run_id_shape runId then (s, Inl (HandoffStoreFailed ''paths''))
         else if (case prov of None \<Rightarrow> False | Some (session, task) \<Rightarrow>
              \<not> ((session = None \<or> validSessionRecord (session_opt_value session)) \<and> validTaskContract (provenance_task task)
                 \<and> validProvenanceManager (manager_record i session)))
         then (s, Inl (HandoffStoreFailed ''input_invalid''))
         else if (case pfile of None \<Rightarrow> False | Some f \<Rightarrow> sc_bytes f > HANDOFF_PROVENANCE_MAX_BYTES)
         then (s, Inl (HandoffStoreFailed ''oversized''))
         else if map_of (hs_runs s) runId \<noteq> None then (s, Inl (HandoffStoreFailed ''exists''))
         else if \<not> hi_mkdir io runId then (s, Inl (HandoffStoreFailed ''mkdir''))
         else let s1 = put_run runId \<lparr>rd_state = None, rd_provenance = None\<rparr> s in
           if \<not> hi_lock io runId then (s1, Inl (HandoffStoreFailed ''lock''))
           else case writeFileAtomic (hi_write io runId ''state'') (put_run runId run s1) s1 of
             (s2, Inl e) \<Rightarrow> (s2, Inl e)
           | (s2, Inr _) \<Rightarrow>
               (case pfile of
                  None \<Rightarrow> (s2, Inr ())
                | Some f \<Rightarrow> writeFileAtomic (hi_write io runId ''provenance'') (put_run runId (run\<lparr>rd_provenance := Some f\<rparr>) s2) s2))"

text \<open>The in-place edits of the state document the callers make.\<close>

definition edit :: "string \<Rightarrow> (jsval \<Rightarrow> jsval) \<Rightarrow> jsval \<Rightarrow> jsval" where
  "edit k f v = jput k (f (jget k v)) v"

definition select_candidate_state :: "string \<Rightarrow> string \<Rightarrow> jsval option \<Rightarrow> jsval \<Rightarrow> jsval" where
  "select_candidate_state pointId agentKind resolvedModel =
     edit ''child'' (\<lambda>child.
       let c1 = jput ''agentKind'' (JStr agentKind) (jput ''operatingPointId'' (JStr pointId) child);
           c2 = (if jget ''route'' c1 \<noteq> JUndef then edit ''route'' (jput ''operatingPointId'' (JStr pointId)) c1 else c1)
       in case resolvedModel of None \<Rightarrow> c2 | Some m \<Rightarrow> jput ''resolvedModel'' m c2)"

definition selectCandidate ::
  "ambient \<Rightarrow> handoff_io \<Rightarrow> string \<Rightarrow> string \<Rightarrow> string \<Rightarrow> jsval option \<Rightarrow> handoff_store
   \<Rightarrow> handoff_store \<times> (handoff_error, jsval) result" where
  "selectCandidate am io runId pointId agentKind resolvedModel s =
     updateHandoffState am io runId (select_candidate_state pointId agentKind resolvedModel) s"

end
