(* ===== verification/Handoff_Properties.thy ===== *)
theory Handoff_Properties
  imports Handoff Intent_Lifecycle Mailbox_Properties
begin

text \<open>
  What the sidecars of a run promise. A provenance document that parses is normalised: writing it back
  gives the same document (\<open>parse_provenance_json\<close>), its ownership history is one unbroken chain with
  one open end (\<open>owner_chain\<close>), and a run whose creation was reported reads back as it was created.
\<close>

section \<open>Values read back\<close>

lemma session_opt_of_value [simp]: "session_opt_of (session_opt_value s) = s"
  by (cases s) (simp_all add: session_opt_of_def session_opt_value_def, simp add: session_value_def)

lemma owner_gets [simp]:
  "jget ''session'' (owner_value e) = session_opt_value (ow_session e)" "jget ''from'' (owner_value e) = JStr (ow_from e)"
  "jget ''to'' (owner_value e) = (case ow_to e of None \<Rightarrow> JNull | Some t \<Rightarrow> JStr t)"
  "jget ''reason'' (owner_value e) = JStr (ow_reason e)" "is_record (owner_value e)"
  by (simp_all add: owner_value_def)

lemma owner_of_value [simp]: "owner_of (owner_value e) = e"
  by (cases e; cases "ow_to e") (simp_all add: owner_of_def)

lemma map_owner_of_value [simp]: "map owner_of (map owner_value es) = es"
  by (simp add: comp_def)

lemma validSessionRecord_of: "validSessionRecord v \<Longrightarrow> session_value (session_of v) = s \<Longrightarrow> validSessionRecord s"
  unfolding validSessionRecord_def safeLine_def
  by (auto simp: session_of_def session_value_def keys_within_def dest: is_str_JStr)

lemma validSessionRecord_not_null: "validSessionRecord v \<Longrightarrow> v \<noteq> JNull"
  by (auto simp: validSessionRecord_def)

text \<open>The shape of an ownership history entry, over the parsed entry.\<close>

definition owner_shape :: "owner_entry \<Rightarrow> bool" where
  "owner_shape e \<longleftrightarrow> (case ow_session e of None \<Rightarrow> True | Some s \<Rightarrow> validSessionRecord (session_value s))
     \<and> created_at_shape (ow_from e) \<and> (case ow_to e of None \<Rightarrow> True | Some t \<Rightarrow> created_at_shape t) \<and> usable (ow_reason e)"

text \<open>An unbroken chain: each entry starts when the one before ended, and only the last is open.\<close>

fun owner_chain :: "string option \<Rightarrow> owner_entry list \<Rightarrow> bool" where
  "owner_chain prev [] = False"
| "owner_chain prev [e] = (owner_shape e \<and> ow_to e = None \<and> (prev = None \<or> prev = Some (ow_from e)))"
| "owner_chain prev (e # es) = (owner_shape e \<and> ow_to e \<noteq> None \<and> (prev = None \<or> prev = Some (ow_from e)) \<and> owner_chain (ow_to e) es)"

lemma session_opt_null: "session_opt_value s = JNull \<longleftrightarrow> s = None"
  by (cases s) (simp_all add: session_opt_value_def session_value_def)

lemma owner_entry_value:
  "owner_entry_ok final prev (owner_value e) \<longleftrightarrow> owner_shape e \<and> (final \<longleftrightarrow> ow_to e = None)
     \<and> (case prev of None \<Rightarrow> True | Some t \<Rightarrow> t = JStr (ow_from e))"
proof -
  have "keys_within [''session'', ''from'', ''to'', ''reason''] (owner_value e)"
    by (simp add: keys_within_def owner_value_def)
  then show ?thesis
    by (cases "ow_session e"; cases "ow_to e"; cases final; cases prev)
      (auto simp: owner_entry_ok_def owner_shape_def safeLine_def session_opt_value_def session_value_def)
qed

lemma owners_ok_values:
  "owners_ok (map_option JStr prev) (map owner_value es) \<and> es \<noteq> [] \<longleftrightarrow> owner_chain prev es"
proof (induction prev es rule: owner_chain.induct)
  case (2 prev e)
  then show ?case by (cases prev) (auto simp: owner_entry_value)
next
  case (3 prev e e' es)
  show ?case
  proof (cases "ow_to e")
    case (Some t)
    then have "owners_ok (Some (JStr t)) (map owner_value (e' # es)) \<longleftrightarrow> owner_chain (Some t) (e' # es)"
      using "3.IH" by simp
    with Some show ?thesis by (cases prev) (auto simp: owner_entry_value simp del: owner_chain.simps owners_ok.simps
      simp: owner_chain.simps(3) owners_ok.simps(2) [of _ "owner_value e"])
  qed (simp add: owner_entry_value)
qed simp

lemma validHandoffOwners_values: "validHandoffOwners (JArr (map owner_value es)) \<longleftrightarrow> owner_chain None es"
  using owners_ok_values [of None es] by (auto simp: validHandoffOwners_def)

text \<open>Reading and writing back an accepted history changes nothing the validator looks at.\<close>

lemma owner_entry_of:
  assumes "owner_entry_ok final prev e"
  shows "owner_entry_ok final prev (owner_value (owner_of e))" and "jget ''to'' (owner_value (owner_of e)) = jget ''to'' e"
proof -
  have str: "is_str P v \<Longrightarrow> \<exists>s. v = JStr s \<and> P s" for P v by (cases v) simp_all
  obtain f r where f: "jget ''from'' e = JStr f" "created_at_shape f" "jget ''reason'' e = JStr r" "usable r"
    using assms str unfolding owner_entry_ok_def safeLine_def by blast
  have t: "jget ''to'' e = JNull \<and> final \<or> (\<exists>t. jget ''to'' e = JStr t \<and> created_at_shape t \<and> \<not> final)"
    using assms str unfolding owner_entry_ok_def by (metis (full_types))
  have s: "jget ''session'' e = JNull \<or> validSessionRecord (jget ''session'' e)"
    using assms unfolding owner_entry_ok_def by blast
  have shape: "case ow_session (owner_of e) of None \<Rightarrow> True | Some s \<Rightarrow> validSessionRecord (session_value s)"
    using s validSessionRecord_of [OF _ refl, of "jget ''session'' e"]
    by (cases "jget ''session'' e = JNull") (simp_all add: owner_of_def session_opt_of_def)
  have parts: "ow_from (owner_of e) = f" "ow_reason (owner_of e) = r" using f by (simp_all add: owner_of_def)
  have prev: "case prev of None \<Rightarrow> True | Some t \<Rightarrow> t = JStr f"
    using assms f(1) unfolding owner_entry_ok_def by (cases prev) auto
  have dest: "ow_to (owner_of e) = opt_str (jget ''to'' e)" by (simp add: owner_of_def)
  show "owner_entry_ok final prev (owner_value (owner_of e))"
    unfolding owner_entry_value owner_shape_def parts dest using shape f(2,4) prev t by (cases "jget ''to'' e") simp_all
  show "jget ''to'' (owner_value (owner_of e)) = jget ''to'' e" unfolding owner_gets dest using t by (cases "jget ''to'' e") simp_all
qed

lemma owners_ok_of: "owners_ok prev es \<Longrightarrow> owners_ok prev (map owner_value (map owner_of es))"
proof (induction prev es rule: owners_ok.induct)
  case (2 prev e es)
  then show ?case using owner_entry_of [of "es = []" prev e] by simp
qed simp

lemma validHandoffOwners_of: "validHandoffOwners v \<Longrightarrow> owner_chain None (map owner_of (arr_of v))"
proof -
  assume v: "validHandoffOwners v"
  then obtain es where es: "v = JArr es" "es \<noteq> []" "owners_ok None es" by (cases v) (auto simp: validHandoffOwners_def)
  then have "validHandoffOwners (JArr (map owner_value (map owner_of es)))"
    using owners_ok_of [OF es(3)] by (simp add: validHandoffOwners_def)
  then show ?thesis using es(1) by (simp add: validHandoffOwners_values del: map_map)
qed

section \<open>The provenance document\<close>

definition valid_provenance :: "string \<Rightarrow> string \<Rightarrow> provenance \<Rightarrow> bool" where
  "valid_provenance endpoint runId p \<longleftrightarrow> pv_runId p = runId \<and> pv_endpoint p = endpoint \<and> created_at_shape (pv_createdAt p)
     \<and> validProvenanceManager (pv_manager p) \<and> validTaskContract (pv_task p)
     \<and> (case pv_owners p of None \<Rightarrow> True
        | Some os \<Rightarrow> owner_chain None os \<and> ow_from (hd os) = pv_createdAt p \<and> ow_session (hd os) = manager_session (pv_manager p))"

lemma provenance_gets [simp]:
  "jget ''v'' (provenance_json p) = JNum (case pv_owners p of None \<Rightarrow> 1 | Some _ \<Rightarrow> 2)"
  "jget ''runId'' (provenance_json p) = JStr (pv_runId p)" "jget ''endpoint'' (provenance_json p) = JStr (pv_endpoint p)"
  "jget ''createdAt'' (provenance_json p) = JStr (pv_createdAt p)" "jget ''manager'' (provenance_json p) = pv_manager p"
  "jget ''task'' (provenance_json p) = pv_task p"
  "jget ''owners'' (provenance_json p) = (case pv_owners p of None \<Rightarrow> JUndef | Some os \<Rightarrow> JArr (map owner_value os))"
  "is_record (provenance_json p)"
  "obj_keys (provenance_json p) = [''v'', ''runId'', ''endpoint'', ''createdAt'', ''manager'', ''task'']
     @ (case pv_owners p of None \<Rightarrow> [] | Some _ \<Rightarrow> [''owners''])"
  by (cases "pv_owners p"; simp add: provenance_json_def)+

definition normalized :: "provenance \<Rightarrow> provenance" where
  "normalized p = p\<lparr>pv_task := jdel ''replicas'' (pv_task p)\<rparr>"

lemma parse_provenance_json:
  "parseHandoffProvenance endpoint runId (Some (provenance_json p))
   = (if valid_provenance endpoint runId p then Inr (normalized p) else Inl (HandoffStoreFailed ''malformed''))"
proof (cases "pv_owners p")
  case None
  then show ?thesis
    by (cases p) (auto simp: parseHandoffProvenance_def valid_provenance_def normalized_def keys_within_def Let_def)
next
  case (Some os)
  then show ?thesis
    by (cases p) (auto simp: parseHandoffProvenance_def valid_provenance_def normalized_def keys_within_def Let_def
        validHandoffOwners_values comp_def)
qed

lemma jdel_gets: "is_record v \<Longrightarrow> jget k (jdel k' v) = (if k = k' then JUndef else jget k v)"
  by (auto simp: is_record_obj)

lemma jdel_jdel [simp]: "jdel k (jdel k v) = jdel k v"
  by (cases v) (simp_all add: al_del_def)

lemma keys_within_jdel: "keys_within ks v \<Longrightarrow> keys_within ks (jdel k v)"
  by (cases v) (auto simp: keys_within_def list_all_iff al_del_def)

lemma validTaskContract_jdel: "validTaskContract t \<Longrightarrow> validTaskContract (jdel ''replicas'' t)"
proof -
  assume v: "validTaskContract t"
  then have r: "is_record t" by (simp add: validTaskContract_def)
  then have "is_record (jdel ''replicas'' t)" by (cases t) simp_all
  then show ?thesis using v keys_within_jdel [of PROVENANCE_TASK_KEYS t "''replicas''"]
    unfolding validTaskContract_def by (simp add: jdel_gets [OF r])
qed

lemma parse_valid:
  assumes "parseHandoffProvenance endpoint runId c = Inr p"
  shows "valid_provenance endpoint runId p" and "normalized p = p"
proof -
  obtain v where c: "c = Some v" using assms by (cases c) (simp_all add: parseHandoffProvenance_def)
  have str: "is_str P v \<Longrightarrow> P (str_of v)" for P v by (cases v) simp_all
  note parse = assms [unfolded c parseHandoffProvenance_def option.simps Let_def guard_Inr]
  have parts: "pv_runId p = runId" "pv_endpoint p = endpoint" "pv_createdAt p = str_of (jget ''createdAt'' v)"
      "pv_manager p = jget ''manager'' v" "pv_task p = jdel ''replicas'' (jget ''task'' v)"
      "pv_owners p = (if jget ''v'' v = JNum 2 then Some (map owner_of (arr_of (jget ''owners'' v))) else None)"
    using parse by (auto split: option.splits if_splits)
  have checks: "created_at_shape (pv_createdAt p)" "validProvenanceManager (pv_manager p)" "validTaskContract (pv_task p)"
      "jget ''v'' v = JNum 2 \<longrightarrow> validHandoffOwners (jget ''owners'' v)"
    using parse str validTaskContract_jdel unfolding parts by blast+
  have head: "case pv_owners p of None \<Rightarrow> True | Some os \<Rightarrow> ow_from (hd os) = pv_createdAt p \<and> ow_session (hd os) = manager_session (pv_manager p)"
    using parse by (auto split: option.splits if_splits)
  show "valid_provenance endpoint runId p"
    unfolding valid_provenance_def using parts(1,2,6) checks head validHandoffOwners_of [of "jget ''owners'' v"]
    by (auto split: option.splits if_splits)
  show "normalized p = p" using parts(5) by (cases p) (simp add: normalized_def)
qed

lemma parse_written:
  "parseHandoffProvenance endpoint runId c = Inr p \<Longrightarrow> parseHandoffProvenance endpoint runId (Some (provenance_json p)) = Inr p"
  using parse_valid [of endpoint runId c p] by (simp add: parse_provenance_json)

section \<open>The ownership history\<close>

lemma owner_chain_spec:
  "owner_chain prev es \<Longrightarrow> es \<noteq> [] \<and> list_all owner_shape es \<and> ow_to (last es) = None
     \<and> (\<forall>e \<in> set (butlast es). ow_to e \<noteq> None)
     \<and> (\<forall>i. Suc i < length es \<longrightarrow> ow_to (es ! i) = Some (ow_from (es ! Suc i)))"
proof (induction prev es rule: owner_chain.induct)
  case (3 prev e e' es)
  then have tail: "owner_chain (ow_to e) (e' # es)" and e: "owner_shape e" "ow_to e \<noteq> None" by simp_all
  have "ow_to e = Some (ow_from e')" using tail e(2) by (cases es) auto
  then show ?case using 3 tail e by (auto simp: nth_Cons split: nat.splits)
qed simp_all

lemma handoffOwners_chain:
  assumes "valid_provenance endpoint runId p"
  shows "owner_chain None (handoffOwners p)" and "ow_from (hd (handoffOwners p)) = pv_createdAt p"
    and "ow_session (hd (handoffOwners p)) = manager_session (pv_manager p)"
proof -
  have m: "case manager_session (pv_manager p) of None \<Rightarrow> True | Some s \<Rightarrow> validSessionRecord (session_value s)"
    using assms validSessionRecord_of [OF _ refl, of "jget ''session'' (pv_manager p)"]
    by (auto simp: valid_provenance_def validProvenanceManager_def manager_session_def session_opt_of_def)
  have launch: "usable ''launch''" by code_simp
  show "owner_chain None (handoffOwners p)" "ow_from (hd (handoffOwners p)) = pv_createdAt p"
    "ow_session (hd (handoffOwners p)) = manager_session (pv_manager p)"
    using assms m launch by (auto simp: valid_provenance_def handoffOwners_def owner_shape_def split: option.splits)
qed

lemma currentHandoffOwner_last: "owner_chain None (handoffOwners p) \<Longrightarrow> currentHandoffOwner p = ow_session (last (handoffOwners p))"
proof -
  assume "owner_chain None (handoffOwners p)"
  then have "handoffOwners p \<noteq> []" "ow_to (last (handoffOwners p)) = None" using owner_chain_spec by blast+
  then have "find (\<lambda>e. ow_to e = None) (rev (handoffOwners p)) = Some (last (handoffOwners p))"
    by (cases "handoffOwners p" rule: rev_cases) simp_all
  then show ?thesis by (simp add: currentHandoffOwner_def)
qed

text \<open>
  C33. The ownership history of a run is one unbroken chain: in every provenance document the reader accepts,
  the history starts with the manager that launched the run at the time the run was created, each
  later entry starts at the moment the one before it ended, exactly the last entry is open, and that
  entry is the run's current owner.
\<close>

theorem ownership_history_chain:
  assumes "parseHandoffProvenance endpoint runId content = Inr p"
  defines "os \<equiv> handoffOwners p"
  shows "os \<noteq> [] \<and> ow_from (hd os) = pv_createdAt p \<and> ow_session (hd os) = manager_session (pv_manager p)
       \<and> (\<forall>i. Suc i < length os \<longrightarrow> ow_to (os ! i) = Some (ow_from (os ! Suc i)))
       \<and> (\<forall>i < length os. (ow_to (os ! i) = None) \<longleftrightarrow> Suc i = length os)
       \<and> currentHandoffOwner p = ow_session (last os)"
proof -
  note valid = parse_valid(1) [OF assms(1)]
  have chain: "owner_chain None os" using handoffOwners_chain(1) [OF valid] by (simp add: os_def)
  note spec = owner_chain_spec [OF chain]
  have open_end: "(ow_to (os ! i) = None) \<longleftrightarrow> Suc i = length os" if "i < length os" for i
  proof (cases "Suc i = length os")
    case True
    then have "os ! i = last os" using spec by (metis diff_Suc_1 last_conv_nth)
    then show ?thesis using True spec by simp
  next
    case False
    then show ?thesis using spec that by (metis Suc_lessI option.distinct(1))
  qed
  show ?thesis
    using spec open_end handoffOwners_chain(2,3) [OF valid] currentHandoffOwner_last chain by (simp add: os_def)
qed

section \<open>A run reads back as it was created\<close>

lemma run_of_put [simp]: "run_of (put_run r d s) r' = (if r' = r then d else run_of s r')"
  by (simp add: run_of_def put_run_def)

lemma put_run_endpoint [simp]: "hs_endpoint (put_run r d s) = hs_endpoint s"
  by (simp add: put_run_def)

lemma writeFileAtomic_cases:
  "writeFileAtomic outcome landed s = (s', Inr x) \<Longrightarrow> s' = landed"
  "writeFileAtomic outcome landed s = (s', res) \<Longrightarrow> s' = landed \<or> s' = s"
  by (auto simp: writeFileAtomic_def split: commit_outcome.splits)

lemma initial_state_gets [simp]:
  "jget ''v'' (initial_state ep r path c i) = JNum 2" "jget ''runId'' (initial_state ep r path c i) = JStr r"
  "jget ''endpoint'' (initial_state ep r path c i) = JStr ep" "is_record (jget ''manager'' (initial_state ep r path c i))"
  "is_record (jget ''lifecycle'' (initial_state ep r path c i))" "is_record (jget ''repair'' (initial_state ep r path c i))"
  "is_record (initial_state ep r path c i)"
  "jget ''artifact'' (initial_state ep r path c i)
    = JObj [(''path'', JStr path), (''sha256'', JNull), (''bytes'', JNull), (''version'', JNum 0)]"
  by (simp_all add: initial_state_def)

lemma valid_initial_state:
  "validChild (jget ''child'' (initial_state ep r path c i)) \<Longrightarrow> valid_state ep r (initial_state ep r path c i)"
  by (simp add: valid_state_def validArtifact_def keys_within_def ARTIFACT_KEYS_def)

lemma provenance_task_normal [simp]: "jdel ''replicas'' (provenance_task t) = provenance_task t"
  by (simp add: provenance_task_def al_del_def opt_entry_def split: option.split)

lemma launch_provenance_parses:
  assumes "created_at_shape c" and "validProvenanceManager (manager_record i s)" and "validTaskContract (provenance_task task)"
  shows "parseHandoffProvenance ep r (Some (provenance_json (launch_provenance ep r c i s task))) = Inr (launch_provenance ep r c i s task)"
  using assms by (simp add: parse_provenance_json valid_provenance_def normalized_def launch_provenance_def)

lemma currentHandoffOwner_launch: "currentHandoffOwner (launch_provenance ep r c i s task) = s"
  by (simp add: currentHandoffOwner_def handoffOwners_def launch_provenance_def manager_record_def manager_session_def)

text \<open>
  A delegated run reads back as it was created: when \<open>persist\<close> reports success, a reader that can open
  the sidecars gets the initial state and the provenance document of this launch, the launching
  manager's session is the run's current owner, and no other run's directory has changed. An
  existing run directory is never taken over.
\<close>

theorem persisted_run_reads_back:
  assumes "persist_run am io r path c i (Some (sess, task)) s = (s', Inr ())"
    and "created_at_shape c" and "validChild (jget ''child'' (initial_state (hs_endpoint s) r path c i))"
    and "sc_bytes (written am (initial_state (hs_endpoint s) r path c i)) \<le> HANDOFF_MAX_BYTES"
    and "hi_read io' r ''state''" and "hi_read io' r ''provenance''"
  shows "readHandoffState io' r s' = Inr (initial_state (hs_endpoint s) r path c i)
       \<and> readHandoffProvenance io' r s' = Inr (launch_provenance (hs_endpoint s) r c i sess task)
       \<and> currentHandoffOwner (launch_provenance (hs_endpoint s) r c i sess task) = sess
       \<and> (\<forall>r'. r' \<noteq> r \<longrightarrow> run_of s' r' = run_of s r') \<and> map_of (hs_runs s) r = None"
proof -
  let ?p = "launch_provenance (hs_endpoint s) r c i sess task"
  let ?run = "\<lparr>rd_state = Some (written am (initial_state (hs_endpoint s) r path c i)), rd_provenance = None\<rparr>"
  let ?s1 = "put_run r \<lparr>rd_state = None, rd_provenance = None\<rparr> s"
  note run = assms(1) [unfolded persist_run_def Let_def option.map prod.case option.case]
  have guards: "validTaskContract (provenance_task task)" "validProvenanceManager (manager_record i sess)"
      "sc_bytes (written am (provenance_json ?p)) \<le> HANDOFF_PROVENANCE_MAX_BYTES" "map_of (hs_runs s) r = None"
    using run by (auto split: if_splits)
  obtain s2 x where w: "writeFileAtomic (hi_write io r ''state'') (put_run r ?run ?s1) ?s1 = (s2, Inr x)"
      "writeFileAtomic (hi_write io r ''provenance'') (put_run r (?run\<lparr>rd_provenance := Some (written am (provenance_json ?p))\<rparr>) s2) s2 = (s', Inr ())"
    using run by (auto split: if_splits prod.splits sum.splits)
  have s': "s' = put_run r (?run\<lparr>rd_provenance := Some (written am (provenance_json ?p))\<rparr>) (put_run r ?run ?s1)"
    using writeFileAtomic_cases(1) w by blast
  have "readHandoffState io' r s' = Inr (initial_state (hs_endpoint s) r path c i)"
    using assms(4,5) valid_initial_state [OF assms(3)]
    by (simp add: s' readHandoffState_def read_sidecar_def) (simp add: written_def)
  moreover have "readHandoffProvenance io' r s' = Inr ?p"
    using assms(6) guards(3) launch_provenance_parses [OF assms(2) guards(2,1)]
    by (simp add: s' readHandoffProvenance_def read_sidecar_def) (simp add: written_def)
  ultimately show ?thesis using guards(4) by (simp add: s' currentHandoffOwner_launch)
qed

section \<open>A concrete run\<close>

definition example_run :: string where
  "example_run = ''00000000-0000-0000-0000-000000000001''"

definition example_at :: string where
  "example_at = ''2026-01-01T00:00:00.000Z''"

definition example_run_identity :: run_identity where
  "example_run_identity = \<lparr>rn_manager_paneId = ''p1'', rn_manager_display = ''manager'', rn_manager_source = ''agent_name'',
     rn_agentName = ''worker'', rn_agentKind = ''pi'', rn_operatingPointId = ''op'', rn_specLabel = ''spec'',
     rn_fallbackCandidates = [], rn_route = None, rn_workspace = None\<rparr>"

definition calm_handoff :: handoff_io where
  "calm_handoff = \<lparr>hi_namespace = True, hi_lock = (\<lambda>_. True), hi_mkdir = (\<lambda>_. True), hi_read = (\<lambda>_ _. True),
     hi_write = (\<lambda>_ _. Committed)\<rparr>"

definition no_runs :: handoff_store where
  "no_runs = \<lparr>hs_endpoint = ''e'', hs_runs = []\<rparr>"

definition example_provenance :: provenance where
  "example_provenance = launch_provenance ''e'' example_run example_at example_run_identity (Some example_session) example_task"

definition one_run :: handoff_store where
  "one_run = fst (persist_run example_ambient calm_handoff example_run ''/a'' example_at example_run_identity
     (Some (Some example_session, example_task)) no_runs)"

lemma example_shapes:
  "created_at_shape example_at"
  "validChild (jget ''child'' (initial_state (hs_endpoint no_runs) example_run ''/a'' example_at example_run_identity))"
  "run_id_shape example_run"
  "validSessionRecord (session_opt_value (Some example_session))"
  "validTaskContract (provenance_task example_task)"
  "validProvenanceManager (manager_record example_run_identity (Some example_session))"
  by code_simp+

lemma example_sizes:
  "sc_bytes (written example_ambient (initial_state (hs_endpoint no_runs) example_run ''/a'' example_at example_run_identity)) < 1000"
  "sc_bytes (written example_ambient (provenance_json example_provenance)) < 1000"
  by code_simp+

lemma example_parses: "parseHandoffProvenance ''e'' example_run (Some (provenance_json example_provenance)) = Inr example_provenance"
  unfolding example_provenance_def by (rule launch_provenance_parses [OF example_shapes(1,6,5)])

lemma example_persist:
  "persist_run example_ambient calm_handoff example_run ''/a'' example_at example_run_identity
     (Some (Some example_session, example_task)) no_runs = (one_run, Inr ())"
proof -
  have size: "sc_bytes (written example_ambient (provenance_json (launch_provenance (hs_endpoint no_runs) example_run example_at
      example_run_identity (Some example_session) example_task))) \<le> HANDOFF_PROVENANCE_MAX_BYTES"
    using example_sizes(2) by (simp add: example_provenance_def no_runs_def HANDOFF_PROVENANCE_MAX_BYTES_def)
  have "snd (persist_run example_ambient calm_handoff example_run ''/a'' example_at example_run_identity
     (Some (Some example_session, example_task)) no_runs) = Inr ()"
    using size by (simp add: persist_run_def Let_def calm_handoff_def example_shapes writeFileAtomic_def not_less)
      (simp add: no_runs_def)
  then show ?thesis unfolding one_run_def by (metis prod.collapse)
qed

theorem ownership_history_chain_witness:
  "handoffOwners example_provenance \<noteq> [] \<and> currentHandoffOwner example_provenance = ow_session (last (handoffOwners example_provenance))"
  using ownership_history_chain [OF example_parses] by blast

theorem persisted_run_reads_back_witness:
  "readHandoffProvenance calm_handoff example_run one_run = Inr (launch_provenance (hs_endpoint no_runs) example_run example_at
     example_run_identity (Some example_session) example_task)"
  using persisted_run_reads_back [OF example_persist example_shapes(1,2), of calm_handoff] example_sizes(1)
  by (simp add: calm_handoff_def HANDOFF_MAX_BYTES_def)

end
