(* ===== verification/Handoff_Artifact.thy ===== *)
theory Handoff_Artifact
  imports Handoff
begin

text \<open>
  The artifact an agent writes at the end of a delegated run (\<open>src/handoff.ts\<close>): the layout of a run's
  directory, the contract block appended to the assignment, the parser of \<open>handoff.md\<close>, and the
  checked read of the file. The regular expressions of the parser are written out as predicates on
  lists of code units below 256.
\<close>

section \<open>Layout of a run\<close>

record allocation =
  al_runId :: string
  al_namespaceDir :: string
  al_endpoint :: string
  al_directory :: string
  al_artifactPath :: string
  al_toolsDir :: string
  al_statePath :: string
  al_lockPath :: string
  al_marker :: string

text \<open>\<open>join(dir, name)\<close> of a normalised directory and a plain name.\<close>

definition path_join :: "string \<Rightarrow> string \<Rightarrow> string" where
  "path_join dir name = (if dir = ''/'' then dir @ name else dir @ ''/'' @ name)"

definition run_marker :: "string \<Rightarrow> string" where
  "run_marker runId = ''herdr-run:'' @ runId"

definition deriveRun :: "string \<Rightarrow> string \<Rightarrow> string \<Rightarrow> allocation" where
  "deriveRun dir endpoint runId =
     (let directory = path_join dir runId; tools = path_join directory ''.tools'' in
      \<lparr>al_runId = runId, al_namespaceDir = dir, al_endpoint = endpoint, al_directory = directory,
       al_artifactPath = path_join directory ''handoff.md'', al_toolsDir = tools,
       al_statePath = path_join tools ''state.json'', al_lockPath = path_join tools ''lock'', al_marker = run_marker runId\<rparr>)"

text \<open>
  \<open>assertRunPaths\<close>: every path of the allocation is the one its run identifier derives. Directories are
  normalised, so \<open>resolve\<close> is the identity and the last component of the directory is the run.
\<close>

definition run_paths_consistent :: "allocation \<Rightarrow> bool" where
  "run_paths_consistent a \<longleftrightarrow> run_id_shape (al_runId a)
     \<and> al_directory a = path_join (al_namespaceDir a) (al_runId a)
     \<and> al_artifactPath a = path_join (al_directory a) ''handoff.md''
     \<and> al_toolsDir a = path_join (al_directory a) ''.tools''
     \<and> al_statePath a = path_join (al_toolsDir a) ''state.json''
     \<and> al_lockPath a = path_join (al_toolsDir a) ''lock''
     \<and> al_marker a = run_marker (al_runId a)"

definition HANDOFF_HEADINGS :: "string list" where
  "HANDOFF_HEADINGS = [''Status'', ''Summary'', ''Changes'', ''Verification'', ''Blockers'', ''Continuation'']"

definition HANDOFF_STATUSES :: "string list" where
  "HANDOFF_STATUSES = [''done'', ''blocked'', ''cancelled'', ''failed'']"

definition line_feed :: char where
  "line_feed = CHR 0x0A"

definition renderHandoffContract :: "allocation \<Rightarrow> string" where
  "renderHandoffContract a = join_with [line_feed]
     [[], [], ''Handoff:'',
      ''When the assignment is done, blocked, cancelled, or failed, write exactly one Markdown file at this exact path: '' @ al_artifactPath a,
      ''The first line of the file must be this run marker verbatim: '' @ al_marker a,
      ''After writing it, run `chmod 600` on that exact path so Tools can trust the artifact.'',
      ''It must then contain exactly these six headings in this order, each followed by non-empty content, and no other headings:'',
      [], ''## Status'', ''done, blocked, cancelled, or failed'',
      [], ''## Summary'', ''What you did.'',
      [], ''## Changes'', ''One '' @ [CHR 0x27] @ ''- <path>'' @ [CHR 0x27] @ '' line per changed path, or None.'',
      [], ''## Verification'', ''The checks you ran and their outcomes.'',
      [], ''## Blockers'', ''What remains blocked, or None.'',
      [], ''## Continuation'', ''Remaining work, or None.'']"

section \<open>The line patterns\<close>

text \<open>\<open>/^herdr-run:(\S+)$/\<close> on a trimmed line; the value is the first group.\<close>

definition marker_match :: "string \<Rightarrow> string option" where
  "marker_match line =
     (let rest = drop (length ''herdr-run:'') line in
      if take (length ''herdr-run:'') line = ''herdr-run:'' \<and> rest \<noteq> [] \<and> \<not> list_ex js_space rest then Some rest else None)"

text \<open>
  \<open>/^#{1,6}\s+(.+?)\s*$/\<close>. The white space after the hashes is taken greedily; where nothing else
  follows it, the group is its last character other than a line terminator that still leaves one
  before it. A line contains no line feed, so the only terminator \<open>.\<close> can meet is a carriage return.
\<close>

definition carriage_return :: char where
  "carriage_return = CHR 0x0D"

definition heading_match :: "string \<Rightarrow> string option" where
  "heading_match line =
     (let hashes = takeWhile (\<lambda>c. c = CHR ''#'') line; rest = dropWhile (\<lambda>c. c = CHR ''#'') line;
          body = dropWhile js_space rest; name = js_trim_end body;
          blanks = filter (\<lambda>c. c \<noteq> carriage_return) (tl rest)
      in if length hashes = 0 \<or> 6 < length hashes \<or> takeWhile js_space rest = [] then None
         else if body \<noteq> [] then (if carriage_return \<in> set name then None else Some name)
         else if blanks = [] then None else Some [last blanks])"

text \<open>\<open>/^(<[^>]*>|\.{2,}|todo|tbd|fixme|placeholder|n\/a)$/i\<close>\<close>

definition placeholder_match :: "string \<Rightarrow> bool" where
  "placeholder_match s \<longleftrightarrow>
     (2 \<le> length s \<and> hd s = CHR ''<'' \<and> last s = CHR ''>'' \<and> CHR ''>'' \<notin> set (butlast (tl s)))
     \<or> (2 \<le> length s \<and> list_all (\<lambda>c. c = CHR ''.'') s)
     \<or> map lower_char s \<in> set [''todo'', ''tbd'', ''fixme'', ''placeholder'', ''n/a'']"

text \<open>\<open>/^none$/i\<close>\<close>

definition none_match :: "string \<Rightarrow> bool" where
  "none_match s \<longleftrightarrow> map lower_char s = ''none''"

text \<open>\<open>/^-\s+\S/\<close>\<close>

definition bullet_match :: "string \<Rightarrow> bool" where
  "bullet_match line \<longleftrightarrow> line \<noteq> [] \<and> hd line = CHR ''-'' \<and> takeWhile js_space (tl line) \<noteq> [] \<and> dropWhile js_space (tl line) \<noteq> []"

section \<open>The parser\<close>

record heading =
  hg_index :: nat
  hg_level :: int
  hg_name :: string

text \<open>A parsed artifact; its sections are in the order of \<open>HANDOFF_HEADINGS\<close>.\<close>

record handoff_document =
  hd_runId :: string
  hd_status :: string
  hd_sections :: "(string \<times> string) list"

definition marker_indexes :: "string list \<Rightarrow> nat list" where
  "marker_indexes ls = filter (\<lambda>i. marker_match (js_trim (ls ! i)) \<noteq> None) [0..<length ls]"

definition heading_at :: "string list \<Rightarrow> nat \<Rightarrow> heading option" where
  "heading_at ls i = map_option (\<lambda>n. \<lparr>hg_index = i, hg_level = index_of (ls ! i) (CHR '' ''), hg_name = n\<rparr>) (heading_match (ls ! i))"

definition headings_of :: "string list \<Rightarrow> heading list" where
  "headings_of ls = List.map_filter (heading_at ls) [0..<length ls]"

text \<open>The lines between a heading and the next one, or the end.\<close>

definition section_body :: "string list \<Rightarrow> nat \<Rightarrow> nat \<Rightarrow> string" where
  "section_body ls start stop = js_trim (join_with [line_feed] (take (stop - Suc start) (drop (Suc start) ls)))"

fun read_sections :: "string list \<Rightarrow> heading list \<Rightarrow> (string, (string \<times> string) list) result" where
  "read_sections ls [] = Inr []"
| "read_sections ls (h # hs) =
     (let body = section_body ls (hg_index h) (case hs of [] \<Rightarrow> length ls | g # _ \<Rightarrow> hg_index g) in
      if body = [] then Inl (''empty:'' @ hg_name h)
      else if placeholder_match body then Inl (''placeholder:'' @ hg_name h)
      else bind_result (read_sections ls hs) (\<lambda>rest. Inr ((hg_name h, body) # rest)))"

definition section_of :: "(string \<times> string) list \<Rightarrow> string \<Rightarrow> string" where
  "section_of ss k = (case map_of ss k of None \<Rightarrow> [] | Some b \<Rightarrow> b)"

definition changes_entries :: "string \<Rightarrow> string list" where
  "changes_entries body = filter (\<lambda>l. l \<noteq> []) (map js_trim (split_at line_feed body))"

definition check_sections :: "string \<Rightarrow> (string \<times> string) list \<Rightarrow> (string, handoff_document) result" where
  "check_sections runId ss =
     (let status = section_of ss ''Status''; changes = section_of ss ''Changes'' in
      if status \<notin> set HANDOFF_STATUSES then Inl ''status''
      else if none_match (section_of ss ''Summary'') \<or> none_match (section_of ss ''Verification'') then Inl ''placeholder''
      else if \<not> none_match changes
           \<and> (changes_entries changes = [] \<or> list_ex (\<lambda>l. \<not> bullet_match l) (changes_entries changes)) then Inl ''changes''
      else Inr \<lparr>hd_runId = runId, hd_status = status, hd_sections = ss\<rparr>)"

text \<open>The reason of a refusal is the \<open>reason\<close> of \<open>HANDOFF_ARTIFACT_INVALID\<close>.\<close>

definition parseHandoffArtifact :: "string \<Rightarrow> string \<Rightarrow> (string, handoff_document) result" where
  "parseHandoffArtifact content expected =
     (let ls = split_at line_feed content; ms = marker_indexes ls; hs = headings_of ls in
      if CHR 0x00 \<in> set content then Inl ''nul_byte''
      else case ms of
        [] \<Rightarrow> Inl ''marker_missing''
      | [m] \<Rightarrow>
          (case marker_match (js_trim (ls ! m)) of
             None \<Rightarrow> Inl ''marker_missing''
           | Some runId \<Rightarrow>
               if js_trim (ls ! m) \<noteq> expected then Inl ''foreign_run''
               else if m > (case hs of [] \<Rightarrow> length ls | h # _ \<Rightarrow> hg_index h) then Inl ''marker_after_heading''
               else if length hs \<noteq> length HANDOFF_HEADINGS
                    \<or> \<not> list_all2 (\<lambda>h name. hg_level h = 2 \<and> hg_name h = name) hs HANDOFF_HEADINGS then Inl ''headings_mismatch''
               else bind_result (read_sections ls hs) (check_sections runId))
      | _ \<Rightarrow> Inl ''marker_duplicate'')"

section \<open>The checked read\<close>

text \<open>What \<open>lstat\<close> and the descriptor's \<open>stat\<close> report of the leaf.\<close>

record leaf_stat =
  lf_file :: bool
  lf_symlink :: bool
  lf_owned :: bool
  lf_mode :: nat
  lf_nlink :: nat
  lf_size :: nat
  lf_mtimeMs :: rat

datatype 'a fs_outcome = FsOk 'a | FsAbsent | FsFailed

text \<open>
  One artifact read: the trust of the namespace and run directories, the two looks at the leaf, and the
  bytes the bounded read returned with the text they decode to. \<open>open\<close> answers \<open>FsAbsent\<close> for \<open>ENOENT\<close>
  and \<open>ELOOP\<close>; a failing \<open>stat\<close> or \<open>read\<close> of the descriptor rejects with an error of its own.
\<close>

record artifact_io =
  ai_namespace :: bool
  ai_directory :: bool
  ai_lstat :: "leaf_stat fs_outcome"
  ai_open :: "unit fs_outcome"
  ai_stat :: "leaf_stat option"
  ai_read :: "(nat \<times> string) option"

datatype artifact_error =
    ArtifactMissing
  | ArtifactInvalid string
  | ArtifactOversized
  | ArtifactUntrusted
  | ArtifactReadFailed

record handoff_artifact =
  ha_document :: handoff_document
  ha_bytes :: nat
  ha_sha256 :: string
  ha_mtimeMs :: int

text \<open>\<open>mode & 0o22\<close> is zero, one name, owned, a plain file.\<close>

definition leaf_trusted :: "leaf_stat \<Rightarrow> bool" where
  "leaf_trusted st \<longleftrightarrow> lf_file st \<and> lf_owned st \<and> \<not> odd (lf_mode st div 2) \<and> \<not> odd (lf_mode st div 16) \<and> lf_nlink st = 1"

definition read_leaf :: "ambient \<Rightarrow> string \<Rightarrow> artifact_io \<Rightarrow> (artifact_error, handoff_artifact) result" where
  "read_leaf am marker io =
     (case ai_stat io of
        None \<Rightarrow> Inl ArtifactReadFailed
      | Some st \<Rightarrow>
          if \<not> leaf_trusted st then Inl ArtifactUntrusted
          else if lf_size st > HANDOFF_MAX_BYTES then Inl ArtifactOversized
          else case ai_read io of
            None \<Rightarrow> Inl ArtifactReadFailed
          | Some (bytes, content) \<Rightarrow>
              if bytes > HANDOFF_MAX_BYTES then Inl ArtifactOversized
              else case parseHandoffArtifact content marker of
                Inl reason \<Rightarrow> Inl (ArtifactInvalid reason)
              | Inr d \<Rightarrow> Inr \<lparr>ha_document = d, ha_bytes = bytes, ha_sha256 = am_sha256 am content, ha_mtimeMs = \<lfloor>lf_mtimeMs st\<rfloor>\<rparr>)"

definition readHandoffArtifact :: "ambient \<Rightarrow> allocation \<Rightarrow> artifact_io \<Rightarrow> (artifact_error, handoff_artifact) result" where
  "readHandoffArtifact am a io =
     (if \<not> run_paths_consistent a \<or> \<not> ai_namespace io \<or> \<not> ai_directory io then Inl ArtifactUntrusted
      else case ai_lstat io of
        FsAbsent \<Rightarrow> Inl ArtifactMissing
      | FsFailed \<Rightarrow> Inl ArtifactUntrusted
      | FsOk leaf \<Rightarrow>
          if \<not> leaf_trusted leaf \<or> lf_symlink leaf then Inl ArtifactUntrusted
          else case ai_open io of
            FsAbsent \<Rightarrow> Inl ArtifactMissing
          | FsFailed \<Rightarrow> Inl ArtifactUntrusted
          | FsOk _ \<Rightarrow> read_leaf am (al_marker a) io)"

section \<open>Lines of a document\<close>

lemma join_with_Cons: "ls \<noteq> [] \<Longrightarrow> join_with sep (l # ls) = l @ sep @ join_with sep ls"
  by (cases ls) simp_all

lemma split_at_not_Nil [simp]: "split_at sep s \<noteq> []"
  by (cases s) (auto split: list.splits)

lemma split_at_plain: "sep \<notin> set l \<Longrightarrow> split_at sep l = [l]"
  by (induction l) auto

lemma split_at_append: "sep \<notin> set l \<Longrightarrow> split_at sep (l @ sep # r) = l # split_at sep r"
  by (induction l) (auto split: list.splits)

lemma split_at_join:
  "ls \<noteq> [] \<Longrightarrow> list_all (\<lambda>l. sep \<notin> set l) ls \<Longrightarrow> split_at sep (join_with [sep] ls) = ls"
proof (induction ls)
  case (Cons l ls)
  then show ?case by (cases ls) (simp_all add: split_at_plain join_with_Cons split_at_append)
qed simp

lemma join_split_at [simp]: "join_with [sep] (split_at sep s) = s"
proof (induction s)
  case (Cons c s)
  obtain l ls where s: "split_at sep s = l # ls" using split_at_not_Nil by (meson neq_Nil_conv)
  then show ?case using Cons by (cases ls) (auto simp: join_with_Cons)
qed simp

lemma set_join_with: "set (join_with [sep] ls) \<subseteq> insert sep (\<Union>l \<in> set ls. set l)"
proof (induction ls)
  case (Cons l ls)
  then show ?case by (cases ls) (auto simp: join_with_Cons)
qed simp

lemma split_at_lines: "l \<in> set (split_at sep s) \<Longrightarrow> sep \<notin> set l"
proof (induction s arbitrary: l)
  case (Cons c s)
  obtain m ls where s: "split_at sep s = m # ls" using split_at_not_Nil by (meson neq_Nil_conv)
  then show ?case using Cons by (auto split: if_splits)
qed simp

lemma set_join_split: "l \<in> set (split_at sep s) \<Longrightarrow> set l \<subseteq> set s"
proof (induction s arbitrary: l)
  case (Cons c s)
  obtain m ls where s: "split_at sep s = m # ls" using split_at_not_Nil by (meson neq_Nil_conv)
  then show ?case using Cons by (fastforce split: if_splits)
qed simp

text \<open>The headings of a list of lines, one line at a time.\<close>

fun headings_from :: "nat \<Rightarrow> string list \<Rightarrow> heading list" where
  "headings_from k [] = []"
| "headings_from k (l # ls) =
     (case heading_match l of
        None \<Rightarrow> headings_from (Suc k) ls
      | Some n \<Rightarrow> \<lparr>hg_index = k, hg_level = index_of l (CHR '' ''), hg_name = n\<rparr> # headings_from (Suc k) ls)"

lemma map_filter_append: "List.map_filter f (xs @ ys) = List.map_filter f xs @ List.map_filter f ys"
  by (induction xs) (auto simp: map_filter_simps split: option.splits)

lemma map_filter_cong: "(\<And>x. x \<in> set xs \<Longrightarrow> f x = g x) \<Longrightarrow> List.map_filter f xs = List.map_filter g xs"
  by (induction xs) (auto simp: map_filter_simps split: option.splits)

lemma headings_from_append: "headings_from k (xs @ ys) = headings_from k xs @ headings_from (k + length xs) ys"
  by (induction xs arbitrary: k) (auto split: option.splits)

lemma headings_of_from: "headings_of ls = headings_from 0 ls"
proof (induction ls rule: rev_induct)
  case (snoc l ls)
  have "List.map_filter (heading_at (ls @ [l])) [0..<length ls] = headings_of ls"
    unfolding headings_of_def by (rule map_filter_cong) (simp add: heading_at_def nth_append)
  then show ?case using snoc
    by (simp add: headings_of_def map_filter_append headings_from_append map_filter_simps heading_at_def split: option.splits)
qed (simp add: headings_of_def map_filter_simps)

lemma headings_from_none: "list_all (\<lambda>l. heading_match l = None) ls \<Longrightarrow> headings_from k ls = []"
  by (induction ls arbitrary: k) simp_all

section \<open>A document that follows the contract\<close>

definition section_lines :: "string \<times> string \<Rightarrow> string list" where
  "section_lines s = (''## '' @ fst s) # split_at line_feed (snd s)"

lemma length_section_lines: "length (section_lines s) = Suc (length (split_at line_feed (snd s)))"
  by (simp add: section_lines_def)

definition contract_document :: "string \<Rightarrow> (string \<times> string) list \<Rightarrow> string" where
  "contract_document runId ss = join_with [line_feed] (run_marker runId # concat (map section_lines ss))"

text \<open>A body the contract allows: trimmed text, no placeholder, no heading or marker line of its own.\<close>

definition body_ok :: "string \<Rightarrow> bool" where
  "body_ok b \<longleftrightarrow> b \<noteq> [] \<and> js_trim b = b \<and> CHR 0x00 \<notin> set b \<and> \<not> placeholder_match b
     \<and> list_all (\<lambda>l. heading_match l = None \<and> marker_match (js_trim l) = None) (split_at line_feed b)"

lemma heading_lines:
  "list_all (\<lambda>n. heading_match (''## '' @ n) = Some n \<and> index_of (''## '' @ n) (CHR '' '') = 2
     \<and> marker_match (js_trim (''## '' @ n)) = None \<and> line_feed \<notin> set n \<and> CHR 0x00 \<notin> set n) HANDOFF_HEADINGS"
  by code_simp

lemma heading_line:
  assumes "n \<in> set HANDOFF_HEADINGS"
  shows "heading_match (''## '' @ n) = Some n" "index_of (''## '' @ n) (CHR '' '') = 2"
    "marker_match (js_trim (''## '' @ n)) = None" "line_feed \<notin> set n" "CHR 0x00 \<notin> set n"
  using heading_lines assms unfolding list_all_iff by blast+

lemma headings_from_section:
  assumes "fst s \<in> set HANDOFF_HEADINGS" and "body_ok (snd s)"
  shows "headings_from k (section_lines s) = [\<lparr>hg_index = k, hg_level = 2, hg_name = fst s\<rparr>]"
proof -
  have "headings_from (Suc k) (split_at line_feed (snd s)) = []"
    using assms(2) by (intro headings_from_none) (simp add: body_ok_def list_all_iff)
  then show ?thesis using heading_line(1,2) [OF assms(1)] by (simp add: section_lines_def)
qed

definition sections_ok :: "(string \<times> string) list \<Rightarrow> bool" where
  "sections_ok ss \<longleftrightarrow> list_all (\<lambda>s. fst s \<in> set HANDOFF_HEADINGS \<and> body_ok (snd s)) ss"

lemma headings_from_sections:
  "sections_ok ss \<Longrightarrow> map hg_name (headings_from k (concat (map section_lines ss))) = map fst ss
     \<and> list_all (\<lambda>h. hg_level h = 2) (headings_from k (concat (map section_lines ss)))"
  by (induction ss arbitrary: k)
    (simp_all add: sections_ok_def headings_from_append headings_from_section)

lemma first_heading:
  "sections_ok (s # ss) \<Longrightarrow> \<exists>hs. headings_from k (concat (map section_lines (s # ss))) = \<lparr>hg_index = k, hg_level = 2, hg_name = fst s\<rparr> # hs"
  by (simp add: sections_ok_def headings_from_append headings_from_section)

lemma section_body_lines:
  assumes "body_ok b"
  shows "section_body (pre @ h # split_at line_feed b @ post) (length pre) (length pre + Suc (length (split_at line_feed b))) = b"
  using assms by (simp add: section_body_def body_ok_def)

lemma read_sections_document:
  "sections_ok ss \<Longrightarrow> read_sections (pre @ concat (map section_lines ss)) (headings_from (length pre) (concat (map section_lines ss))) = Inr ss"
proof (induction ss arbitrary: pre)
  case (Cons s ss)
  let ?ls = "pre @ concat (map section_lines (s # ss))"
  let ?n = "length pre + Suc (length (split_at line_feed (snd s)))"
  let ?hs = "headings_from ?n (concat (map section_lines ss))"
  have s: "fst s \<in> set HANDOFF_HEADINGS" "body_ok (snd s)" and ss: "sections_ok ss"
    using Cons.prems by (simp_all add: sections_ok_def)
  have ls: "?ls = pre @ (''## '' @ fst s) # split_at line_feed (snd s) @ concat (map section_lines ss)"
    by (simp add: section_lines_def)
  have heads: "headings_from (length pre) (concat (map section_lines (s # ss))) = \<lparr>hg_index = length pre, hg_level = 2, hg_name = fst s\<rparr> # ?hs"
    using headings_from_section [OF s] by (simp add: headings_from_append) (simp add: section_lines_def)
  have stop: "(case ?hs of [] \<Rightarrow> length ?ls | g # _ \<Rightarrow> hg_index g) = ?n"
  proof (cases ss)
    case (Cons t ts)
    then show ?thesis using first_heading [of t ts ?n] ss by auto
  qed (simp add: section_lines_def)
  have body: "section_body ?ls (length pre) ?n = snd s"
    unfolding ls by (rule section_body_lines [OF s(2)])
  have rest: "read_sections ?ls ?hs = Inr ss"
    using Cons.IH [OF ss, of "pre @ section_lines s"] by (simp add: length_section_lines)
  have "snd s \<noteq> []" "\<not> placeholder_match (snd s)" using s(2) by (simp_all add: body_ok_def)
  then show ?case unfolding heads read_sections.simps heading.simps stop body Let_def rest by (cases s) simp
qed simp

lemma marker_indexes_first:
  assumes "marker_match (js_trim l) \<noteq> None" and "list_all (\<lambda>l. marker_match (js_trim l) = None) ls"
  shows "marker_indexes (l # ls) = [0]"
proof -
  have "marker_indexes (l # ls) = filter (\<lambda>i. marker_match (js_trim ((l # ls) ! i)) \<noteq> None) (0 # map Suc [0..<length ls])"
    unfolding marker_indexes_def by (simp add: upt_conv_Cons map_Suc_upt del: upt_Suc)
  also have "\<dots> = [0]" using assms by (auto simp: filter_map comp_def list_all_length intro!: filter_False)
  finally show ?thesis .
qed

section \<open>The marker of a run\<close>

lemma hex_not_space: "is_hex c \<Longrightarrow> \<not> js_space c \<and> c \<noteq> line_feed \<and> c \<noteq> CHR 0x00"
  by (auto simp: is_hex_def is_digit_def char_in_def js_space_def less_eq_char_def line_feed_def Let_def)

lemma run_id_chars:
  assumes "run_id_shape r"
  shows "r \<noteq> []" "c \<in> set r \<Longrightarrow> is_hex c \<or> c = CHR ''-''"
proof -
  have r: "list_all2 (\<lambda>P c. P c) run_id_pattern r" using assms by (simp add: run_id_shape_def)
  have "list_all2 (\<lambda>P c. is_hex c \<or> c = CHR ''-'') run_id_pattern r"
    by (rule list.rel_mono_strong [OF r]) (auto simp: run_id_pattern_def)
  then show "c \<in> set r \<Longrightarrow> is_hex c \<or> c = CHR ''-''" by (auto simp: list_all2_conv_all_nth in_set_conv_nth)
  have "run_id_pattern \<noteq> []" by (simp add: run_id_pattern_def)
  then show "r \<noteq> []" using r by auto
qed

lemma js_trim_plain: "s \<noteq> [] \<Longrightarrow> list_all (\<lambda>c. \<not> js_space c) s \<Longrightarrow> js_trim s = s"
proof -
  assume s: "s \<noteq> []" "list_all (\<lambda>c. \<not> js_space c) s"
  then have "dropWhile js_space s = s" by (cases s) simp_all
  moreover have "dropWhile js_space (rev s) = rev s" using s by (cases s rule: rev_cases) simp_all
  ultimately show ?thesis by (simp add: js_trim_def js_trim_end_def)
qed

lemma run_marker_line:
  assumes "run_id_shape r"
  shows "js_trim (run_marker r) = run_marker r" "marker_match (run_marker r) = Some r"
    "line_feed \<notin> set (run_marker r)" "CHR 0x00 \<notin> set (run_marker r)" "heading_match (run_marker r) = None"
proof -
  note r = run_id_chars [OF assms]
  have dash: "\<not> js_space CHR ''-'' \<and> CHR ''-'' \<noteq> line_feed \<and> CHR ''-'' \<noteq> CHR 0x00" by code_simp
  have chars: "\<not> js_space c \<and> c \<noteq> line_feed \<and> c \<noteq> CHR 0x00" if "c \<in> set r" for c
    using r(2) [OF that]
  proof
    assume "is_hex c"
    then show ?thesis by (rule hex_not_space)
  next
    assume "c = CHR ''-''"
    then show ?thesis using dash by simp
  qed
  have head: "list_all (\<lambda>c. \<not> js_space c \<and> c \<noteq> line_feed \<and> c \<noteq> CHR 0x00) ''herdr-run:''" by code_simp
  have all: "\<not> js_space c \<and> c \<noteq> line_feed \<and> c \<noteq> CHR 0x00" if "c \<in> set (run_marker r)" for c
    using that chars head unfolding run_marker_def list_all_iff set_append by blast
  show "js_trim (run_marker r) = run_marker r"
    using all by (intro js_trim_plain) (auto simp: run_marker_def list_all_iff)
  show "line_feed \<notin> set (run_marker r)" "CHR 0x00 \<notin> set (run_marker r)" using all by blast+
  show "marker_match (run_marker r) = Some r"
    using r(1) chars by (auto simp: marker_match_def run_marker_def list_ex_iff)
  show "heading_match (run_marker r) = None" by (simp add: heading_match_def run_marker_def Let_def)
qed

text \<open>
  C21. An artifact that follows the contract is read back: for every run and every six section bodies the
  contract allows, the parser recovers exactly the run and the sections from the document, and whether
  it accepts them depends only on the rules about their content (a listed status, no \<open>None\<close> for
  Summary or Verification, \<open>None\<close> or bullets for Changes).
\<close>

theorem contract_document_round_trip:
  assumes "run_id_shape runId" and "map fst ss = HANDOFF_HEADINGS" and "list_all body_ok (map snd ss)"
  shows "parseHandoffArtifact (contract_document runId ss) (run_marker runId) = check_sections runId ss"
proof -
  let ?rest = "concat (map section_lines ss)"
  note mark = run_marker_line [OF assms(1)]
  have ok: "sections_ok ss"
    unfolding sections_ok_def using assms(3) by (auto simp: list_all_iff assms(2) [symmetric])
  have line: "line_feed \<notin> set l \<and> marker_match (js_trim l) = None \<and> CHR 0x00 \<notin> set l"
    if "l \<in> set (section_lines s)" "s \<in> set ss" for l s
  proof -
    have s: "fst s \<in> set HANDOFF_HEADINGS" "body_ok (snd s)" using ok that(2) by (auto simp: sections_ok_def list_all_iff)
    have "CHR 0x00 \<notin> set l" if "l \<in> set (split_at line_feed (snd s))"
      using s(2) that set_join_split by (auto simp: body_ok_def)
    then show ?thesis using that(1) s heading_line [OF s(1)] split_at_lines
      by (auto simp: section_lines_def body_ok_def list_all_iff line_feed_def)
  qed
  have split: "split_at line_feed (contract_document runId ss) = run_marker runId # ?rest"
    unfolding contract_document_def using mark(3) line by (intro split_at_join) (auto simp: list_all_iff)
  have nul: "CHR 0x00 \<notin> set (contract_document runId ss)"
    using set_join_with [of line_feed "run_marker runId # ?rest"] mark(4) line
    unfolding contract_document_def by (auto simp: line_feed_def)
  have ms: "marker_indexes (run_marker runId # ?rest) = [0]"
    using mark(1,2) line by (intro marker_indexes_first) (auto simp: list_all_iff)
  have heads: "headings_of (run_marker runId # ?rest) = headings_from 1 ?rest"
    by (simp add: headings_of_from mark(5))
  have names: "map hg_name (headings_from 1 ?rest) = HANDOFF_HEADINGS" "list_all (\<lambda>h. hg_level h = 2) (headings_from 1 ?rest)"
    using headings_from_sections [OF ok] assms(2) by auto
  then have shape: "length (headings_from 1 ?rest) = length HANDOFF_HEADINGS"
    "list_all2 (\<lambda>h name. hg_level h = 2 \<and> hg_name h = name) (headings_from 1 ?rest) HANDOFF_HEADINGS"
    by (metis length_map) (unfold names(1) [symmetric] list.rel_map, insert names(2), auto simp: list_all_iff intro: list.rel_refl_strong)
  have body: "read_sections (run_marker runId # ?rest) (headings_from 1 ?rest) = Inr ss"
    using read_sections_document [OF ok, of "[run_marker runId]"] by simp
  show ?thesis unfolding parseHandoffArtifact_def Let_def split ms heads using nul mark(1,2) shape body by simp
qed

section \<open>A concrete artifact\<close>

definition example_artifact_run :: string where
  "example_artifact_run = ''00000000-0000-0000-0000-00000000000a''"

definition example_sections :: "(string \<times> string) list" where
  "example_sections = [(''Status'', ''done''), (''Summary'', ''Added the guard.''), (''Changes'', ''- src/a.ts''),
     (''Verification'', ''Tests pass.''), (''Blockers'', ''None''), (''Continuation'', ''None'')]"

lemma example_sections_ok:
  "run_id_shape example_artifact_run" "map fst example_sections = HANDOFF_HEADINGS" "list_all body_ok (map snd example_sections)"
  "check_sections example_artifact_run example_sections
   = Inr \<lparr>hd_runId = example_artifact_run, hd_status = ''done'', hd_sections = example_sections\<rparr>"
  by code_simp+

theorem contract_document_round_trip_witness:
  "parseHandoffArtifact (contract_document example_artifact_run example_sections) (run_marker example_artifact_run)
   = Inr \<lparr>hd_runId = example_artifact_run, hd_status = ''done'', hd_sections = example_sections\<rparr>"
  using contract_document_round_trip [OF example_sections_ok(1-3)] example_sections_ok(4) by (simp only:)

end
