(* ===== verification/Ownership.thy ===== *)
theory Ownership
  imports Handoff Topology
begin

text \<open>
  Transfer and claim of runs between manager sessions (\<open>src/daemon/ownership.ts\<close>): one frozen plan is
  journaled, then finished under the run and mailbox locks (consume the claim, rewrite each run's
  ownership history, move the mailbox, write both transfer events, retarget, retire the journal), and a
  restart replays every journal still pending. A step that fails leaves what landed before it, so a
  crash and a failure are the same thing to the store.
\<close>

section \<open>Plans and claims\<close>

record transfer_plan =
  tp_transferId :: string
  tp_runIds :: "string list"
  tp_prior :: agent_session
  tp_paneId :: string
  tp_successor :: agent_session
  tp_fromKey :: string
  tp_toKey :: string
  tp_provenance :: "(string \<times> owner_entry list) list"
  tp_unread :: "string list"
  tp_events :: "run_event list"
  tp_incident :: "string option"
  tp_movesComplete :: bool

definition plan_json :: "transfer_plan \<Rightarrow> jsval" where
  "plan_json p = JObj ([(''v'', JNum 1), (''transferId'', JStr (tp_transferId p)), (''runIds'', JArr (map JStr (tp_runIds p))),
     (''priorOwnerSession'', session_value (tp_prior p)),
     (''successor'', JObj [(''paneId'', JStr (tp_paneId p)), (''session'', session_value (tp_successor p))]),
     (''fromKey'', JStr (tp_fromKey p)), (''toKey'', JStr (tp_toKey p)),
     (''provenance'', JArr (map (\<lambda>e. JObj [(''runId'', JStr (fst e)), (''owners'', JArr (map owner_value (snd e)))]) (tp_provenance p))),
     (''unread'', JArr (map JStr (tp_unread p))), (''events'', JArr (map run_event_json (tp_events p)))]
     @ opt_json ''incidentId'' (map_option JStr (tp_incident p))
     @ opt_json ''movesComplete'' (if tp_movesComplete p then Some (JBool True) else None) @ [])"

text \<open>The fields a transfer writes into its events; a journal's events are read in these.\<close>

definition transfer_event_of :: "jsval \<Rightarrow> run_event" where
  "transfer_event_of v = \<lparr>re_id = str_of (jget ''id'' v), re_at = str_of (jget ''at'' v), re_kind = str_of (jget ''kind'' v),
     re_runId = str_of (jget ''runId'' v), re_jobId = str_of (jget ''jobId'' v), re_child = None, re_decision = None,
     re_handoff = None, re_limit = None, re_actions = map str_of (arr_of (jget ''actions'' v))\<rparr>"

definition plan_of :: "jsval \<Rightarrow> transfer_plan" where
  "plan_of v = \<lparr>tp_transferId = str_of (jget ''transferId'' v), tp_runIds = map str_of (arr_of (jget ''runIds'' v)),
     tp_prior = session_of (jget ''priorOwnerSession'' v), tp_paneId = str_of (jget ''paneId'' (jget ''successor'' v)),
     tp_successor = session_of (jget ''session'' (jget ''successor'' v)),
     tp_fromKey = str_of (jget ''fromKey'' v), tp_toKey = str_of (jget ''toKey'' v),
     tp_provenance = map (\<lambda>e. (str_of (jget ''runId'' e), map owner_of (arr_of (jget ''owners'' e)))) (arr_of (jget ''provenance'' v)),
     tp_unread = map str_of (arr_of (jget ''unread'' v)), tp_events = map transfer_event_of (arr_of (jget ''events'' v)),
     tp_incident = opt_of str_of (jget ''incidentId'' v), tp_movesComplete = (jget ''movesComplete'' v = JBool True)\<rparr>"

definition identifier_char :: "char \<Rightarrow> bool" where
  "identifier_char c \<longleftrightarrow> is_lower c \<or> is_upper c \<or> is_digit c \<or> c = CHR ''_'' \<or> c = CHR ''-''"

definition identifier_shape :: "string \<Rightarrow> bool" where
  "identifier_shape s \<longleftrightarrow> s \<noteq> [] \<and> length s \<le> 128 \<and> list_all identifier_char s"

definition exact_session :: "jsval \<Rightarrow> bool" where
  "exact_session v \<longleftrightarrow> is_record v \<and> length (obj_keys v) = 4
     \<and> list_all (\<lambda>k. safeLine (jget k v)) [''source'', ''agent'', ''kind'', ''value'']"

definition run_list :: "jsval \<Rightarrow> bool" where
  "run_list v \<longleftrightarrow> is_arr (is_str run_id_shape) v \<and> arr_of v \<noteq> [] \<and> distinct (arr_of v)"

definition valid_runs :: "string list \<Rightarrow> bool" where
  "valid_runs ids \<longleftrightarrow> ids \<noteq> [] \<and> list_all run_id_shape ids \<and> distinct ids"

definition isClaimRecord :: "ambient \<Rightarrow> jsval \<Rightarrow> bool" where
  "isClaimRecord am v \<longleftrightarrow> is_record v \<and> length (obj_keys v) = 5 \<and> exact_session (jget ''priorOwnerSession'' v)
     \<and> exact_session (jget ''successorSession'' v) \<and> run_list (jget ''runIds'' v)
     \<and> is_str (\<lambda>s. am_dateParse am s \<noteq> None) (jget ''instructedAt'' v)
     \<and> is_str (\<lambda>s. js_trim s \<noteq> [] \<and> CHR 0x00 \<notin> set s) (jget ''instruction'' v)"

definition event_file_shape :: "string \<Rightarrow> bool" where
  "event_file_shape s \<longleftrightarrow> is_json_name s \<and> event_id_shape (take (length s - 5) s)"

definition session_key :: "ambient \<Rightarrow> jsval \<Rightarrow> string option" where
  "session_key am v = (case managerSessionKey am (session_of v) of Inl _ \<Rightarrow> None | Inr k \<Rightarrow> Some k)"

definition plan_entry_ok :: "ambient \<Rightarrow> jsval \<Rightarrow> jsval \<Rightarrow> jsval \<Rightarrow> bool" where
  "plan_entry_ok am successor runId e \<longleftrightarrow> jget ''runId'' e = runId \<and> validHandoffOwners (jget ''owners'' e)
     \<and> 2 \<le> length (arr_of (jget ''owners'' e))
     \<and> (let lst = jget ''session'' (last (arr_of (jget ''owners'' e)))
        in lst \<noteq> JNull \<and> session_key am lst = session_key am successor)"

definition plan_event_ok :: "ambient \<Rightarrow> jsval \<Rightarrow> jsval \<Rightarrow> bool" where
  "plan_event_ok am v e \<longleftrightarrow> is_record e \<and> is_str event_id_shape (jget ''id'' e)
     \<and> is_str (\<lambda>s. am_dateParse am s \<noteq> None) (jget ''at'' e) \<and> jget ''kind'' e = JStr ''transfer''
     \<and> jget ''runId'' e = hd (arr_of (jget ''runIds'' v)) \<and> jget ''jobId'' e = jget ''transferId'' v
     \<and> jget ''actions'' e = JArr [jget ''fromKey'' v, jget ''toKey'' v]"

definition isTransferRecord :: "ambient \<Rightarrow> jsval \<Rightarrow> bool" where
  "isTransferRecord am v \<longleftrightarrow> is_record v \<and> jget ''v'' v = JNum 1 \<and> is_str run_id_shape (jget ''transferId'' v)
     \<and> run_list (jget ''runIds'' v) \<and> exact_session (jget ''priorOwnerSession'' v)
     \<and> exact_session (jget ''session'' (jget ''successor'' v)) \<and> nonempty (jget ''paneId'' (jget ''successor'' v))
     \<and> (case session_key am (jget ''priorOwnerSession'' v) of None \<Rightarrow> False | Some k \<Rightarrow> jget ''fromKey'' v = JStr k)
     \<and> (case session_key am (jget ''session'' (jget ''successor'' v)) of None \<Rightarrow> False | Some k \<Rightarrow> jget ''toKey'' v = JStr k)
     \<and> jget ''fromKey'' v \<noteq> jget ''toKey'' v
     \<and> is_arr (\<lambda>_. True) (jget ''provenance'' v)
     \<and> list_all2 (plan_entry_ok am (jget ''session'' (jget ''successor'' v))) (arr_of (jget ''runIds'' v)) (arr_of (jget ''provenance'' v))
     \<and> is_arr (is_str event_file_shape) (jget ''unread'' v) \<and> distinct (arr_of (jget ''unread'' v))
     \<and> opt_field (is_str identifier_shape) (jget ''incidentId'' v)
     \<and> opt_field (\<lambda>x. x = JBool True) (jget ''movesComplete'' v)
     \<and> (case jget ''events'' v of
          JArr [a, b] \<Rightarrow> plan_event_ok am v a \<and> plan_event_ok am v b \<and> jget ''id'' a \<noteq> jget ''id'' b
        | _ \<Rightarrow> False)"

section \<open>The store and its faults\<close>

record own_store =
  os_handoff :: handoff_store
  os_mail :: mail_store
  os_intents :: intent_store
  os_root :: "bool option"
  os_journal :: "(string \<times> sidecar) list"
  os_done :: "(string \<times> sidecar) list"
  os_claims :: "(string \<times> sidecar) list"
  os_used :: "(string \<times> sidecar) list"

datatype own_error =
    OwnRefused string
  | OwnContext context_error
  | OwnHandoff handoff_error
  | OwnMail mail_error
  | OwnIntent intent_error
  | OwnIo

record own_io =
  oi_dirs :: bool
  oi_lock :: bool
  oi_handoff :: handoff_io
  oi_intent :: intent_io
  oi_mail :: "nat \<Rightarrow> mail_io"
  oi_claim :: commit_outcome
  oi_journal :: "nat \<Rightarrow> commit_outcome"
  oi_retire :: commit_outcome
  oi_retarget :: bool

type_synonym own_step = "own_store \<times> (own_error, unit) result"

definition own_then :: "own_step \<Rightarrow> (own_store \<Rightarrow> own_store \<times> (own_error, 'a) result) \<Rightarrow> own_store \<times> (own_error, 'a) result" where
  "own_then r k = (case r of (s, Inl e) \<Rightarrow> (s, Inl e) | (s, Inr _) \<Rightarrow> k s)"

definition RECORD_MAX_BYTES :: nat where
  "RECORD_MAX_BYTES = 16 * 1024 * 1024"

text \<open>\<open>None\<close> is an absent file, which the callers tell from an untrusted one.\<close>

definition readRecord :: "sidecar option \<Rightarrow> (own_error, jsval) result option" where
  "readRecord f =
     (case f of None \<Rightarrow> None
      | Some g \<Rightarrow> Some (if \<not> sc_trusted g \<or> sc_bytes g > RECORD_MAX_BYTES then Inl (OwnRefused ''OWNERSHIP_UNTRUSTED'')
                        else case sc_value g of None \<Rightarrow> Inl OwnIo | Some v \<Rightarrow> Inr v))"

text \<open>A rename between directories and the sync of both: the new source and destination.\<close>

definition moveRecord ::
  "bool \<Rightarrow> commit_outcome \<Rightarrow> bool \<Rightarrow> string \<Rightarrow> (string \<times> sidecar) list \<times> (string \<times> sidecar) list
   \<Rightarrow> ((string \<times> sidecar) list \<times> (string \<times> sidecar) list) \<times> bool" where
  "moveRecord dirs outcome optional name sd =
     (let (src, dst) = sd in
      if \<not> dirs then (sd, False)
      else case map_of src name of
        Some f \<Rightarrow>
          (case outcome of
             NotCommitted \<Rightarrow> (sd, False)
           | Committed \<Rightarrow> ((al_del name src, al_put name f dst), True)
           | Unsynced \<Rightarrow> ((al_del name src, al_put name f dst), False))
      | None \<Rightarrow> (sd, (optional \<or> map_of dst name \<noteq> None) \<and> outcome = Committed))"

definition journal_name :: "transfer_plan \<Rightarrow> string" where
  "journal_name p = json_name (tp_transferId p)"

definition write_journal :: "ambient \<Rightarrow> commit_outcome \<Rightarrow> transfer_plan \<Rightarrow> own_store \<Rightarrow> own_step" where
  "write_journal am outcome p s =
     (let landed = s\<lparr>os_journal := al_put (journal_name p) (written am (plan_json p)) (os_journal s)\<rparr> in
      case outcome of
        Committed \<Rightarrow> (landed, Inr ())
      | NotCommitted \<Rightarrow> (s, Inl (OwnHandoff (HandoffStoreFailed ''write'')))
      | Unsynced \<Rightarrow> (landed, Inl (OwnHandoff (HandoffStoreFailed ''write''))))"

section \<open>Finishing a plan\<close>

definition consume_claim :: "own_io \<Rightarrow> transfer_plan \<Rightarrow> own_store \<Rightarrow> own_step" where
  "consume_claim io p s =
     (case tp_incident p of
        None \<Rightarrow> (s, Inr ())
      | Some incident \<Rightarrow>
          (case moveRecord (oi_dirs io) (oi_claim io) True (json_name incident) (os_claims s, os_used s) of
             ((claims, used), ok) \<Rightarrow> (s\<lparr>os_claims := claims, os_used := used\<rparr>, if ok then Inr () else Inl OwnIo)))"

fun write_owners :: "ambient \<Rightarrow> handoff_io \<Rightarrow> (string \<times> owner_entry list) list \<Rightarrow> handoff_store \<Rightarrow> handoff_store \<times> (handoff_error, unit) result" where
  "write_owners am io [] s = (s, Inr ())"
| "write_owners am io ((runId, owners) # es) s =
     (case openIn io runId of Inl e \<Rightarrow> (s, Inl e) | Inr _ \<Rightarrow>
      case readHandoffProvenance io runId s of Inl e \<Rightarrow> (s, Inl e) | Inr original \<Rightarrow>
      case writeHandoffProvenance am io runId (original\<lparr>pv_owners := Some owners\<rparr>) s of
        (s1, Inl e) \<Rightarrow> (s1, Inl e)
      | (s1, Inr _) \<Rightarrow> write_owners am io es s1)"

definition rewrite_provenance :: "ambient \<Rightarrow> own_io \<Rightarrow> transfer_plan \<Rightarrow> own_store \<Rightarrow> own_step" where
  "rewrite_provenance am io p s =
     (case write_owners am (oi_handoff io) (tp_provenance p) (os_handoff s) of
        (h, Inl e) \<Rightarrow> (s\<lparr>os_handoff := h\<rparr>, Inl (OwnHandoff e))
      | (h, Inr _) \<Rightarrow> (s\<lparr>os_handoff := h\<rparr>, Inr ()))"

definition plan_ids :: "transfer_plan \<Rightarrow> string list" where
  "plan_ids p = map (\<lambda>name. take (length name - 5) name) (tp_unread p)"

definition move_mailbox :: "ambient \<Rightarrow> own_io \<Rightarrow> transfer_plan \<Rightarrow> own_store \<Rightarrow> own_step" where
  "move_mailbox am io p s =
     (if tp_movesComplete p then (s, Inr ())
      else case locked_moveUnread (oi_mail io 0) [tp_fromKey p, tp_toKey p] (tp_fromKey p) (tp_toKey p) (plan_ids p) (os_mail s) of
        (m, Inl e) \<Rightarrow> (s\<lparr>os_mail := m\<rparr>, Inl (OwnMail e))
      | (m, Inr _) \<Rightarrow> write_journal am (oi_journal io 1) (p\<lparr>tp_movesComplete := True\<rparr>) (s\<lparr>os_mail := m\<rparr>))"

definition write_transfer_event :: "ambient \<Rightarrow> own_io \<Rightarrow> transfer_plan \<Rightarrow> nat \<Rightarrow> string \<Rightarrow> own_store \<Rightarrow> own_step" where
  "write_transfer_event am io p index key s =
     (case locked_writeRecordedEvent am (oi_mail io (Suc index)) [tp_fromKey p, tp_toKey p] key (tp_events p ! index) (os_mail s) of
        (m, Inl e) \<Rightarrow> (s\<lparr>os_mail := m\<rparr>, Inl (OwnMail e))
      | (m, Inr (Persisted i)) \<Rightarrow> (s\<lparr>os_mail := m\<rparr>, Inr ())
      | (m, Inr (NotPersisted i why t held)) \<Rightarrow>
          (s\<lparr>os_mail := m\<rparr>, Inl (OwnRefused (if why = CapacityRefused then ''TRANSFER_PENDING'' else ''TRANSFER_EVENT_FAILED''))))"

definition retire_journal :: "own_io \<Rightarrow> transfer_plan \<Rightarrow> own_store \<Rightarrow> own_step" where
  "retire_journal io p s =
     (if \<not> oi_retarget io then (s, Inl OwnIo)
      else case moveRecord (oi_dirs io) (oi_retire io) False (journal_name p) (os_journal s, os_done s) of
        ((journal, finished), ok) \<Rightarrow> (s\<lparr>os_journal := journal, os_done := finished\<rparr>, if ok then Inr () else Inl OwnIo))"

definition finish :: "ambient \<Rightarrow> own_io \<Rightarrow> transfer_plan \<Rightarrow> own_store \<Rightarrow> own_step" where
  "finish am io p s =
     own_then (consume_claim io p s) (\<lambda>s1.
     own_then (rewrite_provenance am io p s1) (\<lambda>s2.
     own_then (move_mailbox am io p s2) (\<lambda>s3.
     own_then (write_transfer_event am io p 0 (tp_fromKey p) s3) (\<lambda>s4.
     own_then (write_transfer_event am io p 1 (tp_toKey p) s4) (retire_journal io p)))))"

section \<open>Replaying what is pending\<close>

fun read_plans :: "ambient \<Rightarrow> (string \<times> sidecar) list \<Rightarrow> string list \<Rightarrow> (own_error, transfer_plan list) result" where
  "read_plans am files [] = Inr []"
| "read_plans am files (name # names) =
     (case readRecord (map_of files name) of
        None \<Rightarrow> read_plans am files names
      | Some (Inl e) \<Rightarrow> Inl e
      | Some (Inr v) \<Rightarrow>
          if \<not> isTransferRecord am v \<or> name \<noteq> json_name (str_of (jget ''transferId'' v)) then Inl (OwnRefused ''TRANSFER_MALFORMED'')
          else bind_result (read_plans am files names) (\<lambda>ps. Inr (plan_of v # ps)))"

definition pendingRecords :: "ambient \<Rightarrow> own_store \<Rightarrow> (own_error, transfer_plan list) result" where
  "pendingRecords am s =
     (case os_root s of
        None \<Rightarrow> Inr []
      | Some trusted \<Rightarrow>
          if \<not> trusted then Inl (OwnRefused ''OWNERSHIP_UNTRUSTED'')
          else read_plans am (os_journal s) (sort (filter is_json_name (map fst (os_journal s)))))"

fun withRuns :: "handoff_io \<Rightarrow> string list \<Rightarrow> (own_error, unit) result" where
  "withRuns io [] = Inr ()"
| "withRuns io (r # rs) =
     (case openIn io r of Inl e \<Rightarrow> Inl (OwnHandoff e)
      | Inr _ \<Rightarrow> if hi_lock io r then withRuns io rs else Inl (OwnRefused ''OWNERSHIP_UNAVAILABLE''))"

definition with_mailboxes ::
  "own_io \<Rightarrow> string list \<Rightarrow> (own_store \<Rightarrow> own_store \<times> (own_error, 'a) result) \<Rightarrow> own_store \<Rightarrow> own_store \<times> (own_error, 'a) result" where
  "with_mailboxes io keys section s =
     (if \<not> list_all sha256_hex keys then (s, Inl (OwnMail MailInvalid))
      else case multiMailboxLocks (oi_mail io 0) keys (os_mail s) of
        (m, Inl e) \<Rightarrow> (s\<lparr>os_mail := m\<rparr>, Inl (OwnMail e))
      | (m, Inr _) \<Rightarrow> section (s\<lparr>os_mail := m\<rparr>))"

fun replay_plans :: "ambient \<Rightarrow> (nat \<Rightarrow> own_io) \<Rightarrow> nat \<Rightarrow> transfer_plan list \<Rightarrow> own_store \<Rightarrow> own_step" where
  "replay_plans am ios n [] s = (s, Inr ())"
| "replay_plans am ios n (p # ps) s =
     (case withRuns (oi_handoff (ios n)) (sort (tp_runIds p)) of
        Inl e \<Rightarrow> (s, Inl e)
      | Inr _ \<Rightarrow> own_then (with_mailboxes (ios n) [tp_fromKey p, tp_toKey p] (finish am (ios n) p) s) (replay_plans am ios (Suc n) ps))"

definition replayPending :: "ambient \<Rightarrow> (nat \<Rightarrow> own_io) \<Rightarrow> own_store \<Rightarrow> own_step" where
  "replayPending am ios s =
     (case pendingRecords am s of Inl e \<Rightarrow> (s, Inl e) | Inr ps \<Rightarrow> replay_plans am ios 1 ps s)"

text \<open>\<open>serialized\<close>: the trusted \<open>transfers\<close> directory and its one lock.\<close>

definition serialized ::
  "own_io \<Rightarrow> (own_store \<Rightarrow> own_store \<times> (own_error, 'a) result) \<Rightarrow> own_store \<Rightarrow> own_store \<times> (own_error, 'a) result" where
  "serialized io section s =
     (if \<not> oi_dirs io then (s, Inl OwnIo)
      else let s1 = s\<lparr>os_root := Some (case os_root s of None \<Rightarrow> True | Some b \<Rightarrow> b)\<rparr> in
        if os_root s1 \<noteq> Some True then (s1, Inl (OwnRefused ''OWNERSHIP_UNTRUSTED''))
        else if \<not> oi_lock io then (s1, Inl (OwnRefused ''OWNERSHIP_UNAVAILABLE''))
        else section s1)"

definition completePending :: "ambient \<Rightarrow> (nat \<Rightarrow> own_io) \<Rightarrow> own_store \<Rightarrow> own_step" where
  "completePending am ios = serialized (ios 0) (replayPending am ios)"

section \<open>Transfer and claim\<close>

record change_input =
  ch_paneId :: string
  ch_session :: agent_session
  ch_runIds :: "string list"
  ch_successorPaneId :: "string option"
  ch_incidentId :: "string option"

record change_env =
  cv_snapshot :: "snapshot option"
  cv_now :: string
  cv_transferId :: string
  cv_uuid :: "nat \<Rightarrow> string"

definition same_key :: "ambient \<Rightarrow> agent_session \<Rightarrow> agent_session \<Rightarrow> bool" where
  "same_key am a b \<longleftrightarrow> managerSessionKey am a = managerSessionKey am b"

definition usable_session :: "agent_session \<Rightarrow> bool" where
  "usable_session s \<longleftrightarrow> usable (as_source s) \<and> usable (as_agent s) \<and> usable (as_kind s) \<and> usable (as_value s)"

definition verify_caller :: "ambient \<Rightarrow> snapshot \<Rightarrow> string \<Rightarrow> agent_session \<Rightarrow> (own_error, agent_session) result" where
  "verify_caller am sn pane session =
     (case resolveManagerSession sn pane of
        Inl e \<Rightarrow> Inl (OwnContext e)
      | Inr None \<Rightarrow> Inl (OwnRefused ''OWNER_MISMATCH'')
      | Inr (Some found) \<Rightarrow>
          if \<not> usable_session session \<or> \<not> same_key am found session then Inl (OwnRefused ''OWNER_MISMATCH'') else Inr found)"

definition successor_session :: "snapshot \<Rightarrow> string \<Rightarrow> (own_error, agent_session) result" where
  "successor_session sn pane =
     (case resolveManagerSession sn pane of
        Inl e \<Rightarrow> Inl (OwnContext e)
      | Inr None \<Rightarrow> Inl (OwnRefused ''SUCCESSOR_UNPROVEN'')
      | Inr (Some found) \<Rightarrow>
          if as_agent found \<notin> set [''pi'', ''claude'', ''devin''] then Inl (OwnRefused ''SUCCESSOR_UNPROVEN'') else Inr found)"

fun read_all_provenance :: "handoff_io \<Rightarrow> handoff_store \<Rightarrow> string list \<Rightarrow> (own_error, provenance list) result" where
  "read_all_provenance io s [] = Inr []"
| "read_all_provenance io s (r # rs) =
     (case bind_result (openIn io r) (\<lambda>_. readHandoffProvenance io r s) of
        Inl e \<Rightarrow> Inl (OwnHandoff e)
      | Inr p \<Rightarrow> bind_result (read_all_provenance io s rs) (\<lambda>ps. Inr (p # ps)))"

text \<open>The owner all the runs share, if they share one.\<close>

definition common_owner :: "ambient \<Rightarrow> provenance list \<Rightarrow> agent_session option" where
  "common_owner am ps =
     (case currentHandoffOwner (hd ps) of None \<Rightarrow> None
      | Some prior \<Rightarrow>
          if list_all (\<lambda>p. case currentHandoffOwner p of None \<Rightarrow> False | Some o' \<Rightarrow> same_key am o' prior) ps then Some prior else None)"

text \<open>No live pane carries the prior owner's session.\<close>

fun owner_absent :: "ambient \<Rightarrow> snapshot \<Rightarrow> agent_session \<Rightarrow> jsval list \<Rightarrow> (own_error, unit) result" where
  "owner_absent am sn prior [] = Inr ()"
| "owner_absent am sn prior (p # ps) =
     (case resolveManagerSession sn (id_of ''pane_id'' p) of
        Inl e \<Rightarrow> Inl (OwnContext e)
      | Inr None \<Rightarrow> owner_absent am sn prior ps
      | Inr (Some s) \<Rightarrow> if same_key am s prior then Inl (OwnRefused ''OWNER_PRESENT'') else owner_absent am sn prior ps)"

definition claim_instructs :: "ambient \<Rightarrow> jsval \<Rightarrow> agent_session \<Rightarrow> agent_session \<Rightarrow> string list \<Rightarrow> bool" where
  "claim_instructs am v prior caller runIds \<longleftrightarrow> isClaimRecord am v
     \<and> same_key am (session_of (jget ''priorOwnerSession'' v)) prior
     \<and> same_key am (session_of (jget ''successorSession'' v)) caller
     \<and> length (arr_of (jget ''runIds'' v)) = length runIds
     \<and> list_all (\<lambda>r. r \<in> JStr ` set runIds) (arr_of (jget ''runIds'' v))"

definition authorize ::
  "ambient \<Rightarrow> own_io \<Rightarrow> snapshot \<Rightarrow> change_input \<Rightarrow> agent_session \<Rightarrow> agent_session \<Rightarrow> own_store \<Rightarrow> (own_error, unit) result" where
  "authorize am io sn input caller prior s =
     (case ch_incidentId input of
        None \<Rightarrow> if same_key am caller prior then Inr () else Inl (OwnRefused ''OWNER_MISMATCH'')
      | Some incident \<Rightarrow>
          if \<not> identifier_shape incident then Inl (OwnRefused ''CLAIM_NOT_INSTRUCTED'')
          else if \<not> oi_dirs io then Inl OwnIo
          else (case readRecord (map_of (os_claims s) (json_name incident)) of
             Some (Inr v) \<Rightarrow>
               if claim_instructs am v prior caller (ch_runIds input) then owner_absent am sn prior (sn_panes sn)
               else Inl (OwnRefused ''CLAIM_NOT_INSTRUCTED'')
           | _ \<Rightarrow> Inl (OwnRefused ''CLAIM_NOT_INSTRUCTED'')))"

definition intent_blocks :: "bool \<Rightarrow> string list \<Rightarrow> launch_intent \<Rightarrow> bool" where
  "intent_blocks claiming runIds r \<longleftrightarrow> (li_state r = Unresolved \<or> li_state r = Effecting)
     \<and> (\<not> claiming \<or> li_children r = []
        \<or> list_ex (\<lambda>c. case ic_runId c of None \<Rightarrow> True | Some i \<Rightarrow> i \<in> set runIds) (li_children r))"

definition successor_owners :: "string \<Rightarrow> agent_session \<Rightarrow> bool \<Rightarrow> owner_entry list \<Rightarrow> owner_entry list" where
  "successor_owners now target claiming owners =
     map (\<lambda>e. if ow_to e = None then e\<lparr>ow_to := Some now\<rparr> else e) owners
     @ [\<lparr>ow_session = Some target, ow_from = now, ow_to = None, ow_reason = (if claiming then ''claim'' else ''transfer'')\<rparr>]"

definition transfer_event :: "change_env \<Rightarrow> change_input \<Rightarrow> string \<Rightarrow> string \<Rightarrow> nat \<Rightarrow> run_event" where
  "transfer_event env input fromKey toKey n = \<lparr>re_id = mailboxEventId (cv_now env) (cv_uuid env n), re_at = cv_now env,
     re_kind = ''transfer'', re_runId = hd (ch_runIds input), re_jobId = cv_transferId env, re_child = None, re_decision = None,
     re_handoff = None, re_limit = None, re_actions = [fromKey, toKey]\<rparr>"

definition build_plan ::
  "change_env \<Rightarrow> change_input \<Rightarrow> agent_session \<Rightarrow> string \<Rightarrow> agent_session \<Rightarrow> string \<Rightarrow> string \<Rightarrow> provenance list \<Rightarrow> string list \<Rightarrow> transfer_plan" where
  "build_plan env input prior pane target fromKey toKey records unread = \<lparr>tp_transferId = cv_transferId env, tp_runIds = ch_runIds input,
     tp_prior = prior, tp_paneId = pane, tp_successor = target, tp_fromKey = fromKey, tp_toKey = toKey,
     tp_provenance = map (\<lambda>p. (pv_runId p, successor_owners (cv_now env) target (ch_incidentId input \<noteq> None) (handoffOwners p))) records,
     tp_unread = map json_name unread, tp_events = map (transfer_event env input fromKey toKey) [0, 1],
     tp_incident = ch_incidentId input, tp_movesComplete = False\<rparr>"

definition journal_plan ::
  "ambient \<Rightarrow> own_io \<Rightarrow> transfer_plan \<Rightarrow> own_store \<Rightarrow> own_store \<times> (own_error, transfer_plan) result" where
  "journal_plan am io plan s =
     (if \<not> isTransferRecord am (plan_json plan) \<or> byte_length (json_text (am_numStr am) (plan_json plan)) > RECORD_MAX_BYTES
      then (s, Inl (OwnRefused ''TRANSFER_MALFORMED''))
      else own_then (write_journal am (oi_journal io 0) plan s) (\<lambda>s1.
           own_then (finish am io plan s1) (\<lambda>s2. (s2, Inr plan))))"

text \<open>The section under the run locks.\<close>

definition change_locked ::
  "ambient \<Rightarrow> own_io \<Rightarrow> change_env \<Rightarrow> change_input \<Rightarrow> own_store \<Rightarrow> own_store \<times> (own_error, transfer_plan) result" where
  "change_locked am io env input s =
     (let claiming = (ch_incidentId input \<noteq> None);
          mismatch = OwnRefused (if claiming then ''CLAIM_NOT_INSTRUCTED'' else ''OWNER_MISMATCH'');
          pane = (if claiming then ch_paneId input else the (ch_successorPaneId input)) in
      case cv_snapshot env of None \<Rightarrow> (s, Inl OwnIo) | Some sn \<Rightarrow>
      case verify_caller am sn (ch_paneId input) (ch_session input) of Inl e \<Rightarrow> (s, Inl e) | Inr caller \<Rightarrow>
      case read_all_provenance (oi_handoff io) (os_handoff s) (ch_runIds input) of Inl e \<Rightarrow> (s, Inl e) | Inr records \<Rightarrow>
      case common_owner am records of None \<Rightarrow> (s, Inl mismatch) | Some prior \<Rightarrow>
      case successor_session sn pane of Inl e \<Rightarrow> (s, Inl e) | Inr target \<Rightarrow>
      case authorize am io sn input caller prior s of Inl e \<Rightarrow> (s, Inl e) | Inr _ \<Rightarrow>
      if same_key am target prior then (s, Inl mismatch)
      else case (managerSessionKey am prior, managerSessionKey am target) of
        (Inr fromKey, Inr toKey) \<Rightarrow>
          (case list_intents am (oi_intent io) fromKey (os_intents s) of
             (i, Inl e) \<Rightarrow> (s\<lparr>os_intents := i\<rparr>, Inl (OwnIntent e))
           | (i, Inr intents) \<Rightarrow>
               (let s1 = s\<lparr>os_intents := i\<rparr> in
                if list_ex (intent_blocks claiming (ch_runIds input)) intents then (s1, Inl (OwnRefused ''OWNER_INTENT_UNRESOLVED''))
                else with_mailboxes io [fromKey, toKey] (\<lambda>s2.
                  case locked_list (oi_mail io 0) [fromKey, toKey] fromKey (os_mail s2) of
                    Inl e \<Rightarrow> (s2, Inl (OwnMail e))
                  | Inr unread \<Rightarrow>
                      journal_plan am io (build_plan env input prior pane target fromKey toKey records unread) s2) s1))
      | _ \<Rightarrow> (s, Inl (OwnRefused ''INVALID_REQUEST'')))"

definition change_owner ::
  "ambient \<Rightarrow> (nat \<Rightarrow> own_io) \<Rightarrow> change_env \<Rightarrow> change_input \<Rightarrow> own_store \<Rightarrow> own_store \<times> (own_error, transfer_plan) result" where
  "change_owner am ios env input s =
     (if \<not> valid_runs (ch_runIds input) then (s, Inl (OwnRefused ''RUN_IDS_INVALID''))
      else serialized (ios 0) (\<lambda>s1.
        own_then (replayPending am ios s1) (\<lambda>s2.
          case withRuns (oi_handoff (ios 0)) (sort (ch_runIds input)) of
            Inl e \<Rightarrow> (s2, Inl e)
          | Inr _ \<Rightarrow> change_locked am (ios 0) env input s2)) s)"

end
