(* ===== verification/Ownership_Properties.thy ===== *)
theory Ownership_Properties
  imports Ownership Handoff_Properties Mailbox_Faults Retries "HOL-Library.Code_Target_Nat"
begin

text \<open>
  What a transfer of runs promises: a journal reads back as the plan that was frozen, an attempt to finish it
  under any faults leaves a store another attempt can finish, and only the owner, or an instructed
  successor of an absent owner, can start one.
\<close>

section \<open>The journal reads back\<close>

definition transfer_shape :: "run_event \<Rightarrow> bool" where
  "transfer_shape e \<longleftrightarrow> re_child e = None \<and> re_decision e = None \<and> re_handoff e = None \<and> re_limit e = None"

lemma transfer_event_of_json: "transfer_shape e \<Longrightarrow> transfer_event_of (run_event_json e) = e"
  by (cases e) (simp add: transfer_shape_def transfer_event_of_def run_event_json_def comp_def)

lemma plan_gets [simp]:
  "jget ''v'' (plan_json p) = JNum 1" "jget ''transferId'' (plan_json p) = JStr (tp_transferId p)"
  "jget ''runIds'' (plan_json p) = JArr (map JStr (tp_runIds p))" "jget ''priorOwnerSession'' (plan_json p) = session_value (tp_prior p)"
  "jget ''successor'' (plan_json p) = JObj [(''paneId'', JStr (tp_paneId p)), (''session'', session_value (tp_successor p))]"
  "jget ''fromKey'' (plan_json p) = JStr (tp_fromKey p)" "jget ''toKey'' (plan_json p) = JStr (tp_toKey p)"
  "jget ''provenance'' (plan_json p)
     = JArr (map (\<lambda>e. JObj [(''runId'', JStr (fst e)), (''owners'', JArr (map owner_value (snd e)))]) (tp_provenance p))"
  "jget ''unread'' (plan_json p) = JArr (map JStr (tp_unread p))" "jget ''events'' (plan_json p) = JArr (map run_event_json (tp_events p))"
  "jget ''incidentId'' (plan_json p) = (case tp_incident p of None \<Rightarrow> JUndef | Some i \<Rightarrow> JStr i)"
  "jget ''movesComplete'' (plan_json p) = (if tp_movesComplete p then JBool True else JUndef)"
  "is_record (plan_json p)"
  by (cases "tp_incident p"; cases "tp_movesComplete p"; simp add: plan_json_def)+

lemma plan_of_json:
  assumes "list_all transfer_shape (tp_events p)"
  shows "plan_of (plan_json p) = p"
proof -
  have "map (transfer_event_of \<circ> run_event_json) (tp_events p) = tp_events p"
    using assms by (intro map_idI) (simp add: list_all_iff transfer_event_of_json)
  then show ?thesis
    by (cases p; cases "tp_incident p") (simp_all add: plan_of_def opt_of_def comp_def)
qed

definition checkpointed :: "transfer_plan \<Rightarrow> transfer_plan" where
  "checkpointed p = p\<lparr>tp_movesComplete := True\<rparr>"

lemma checkpointed_fields [simp]:
  "tp_transferId (checkpointed p) = tp_transferId p" "tp_runIds (checkpointed p) = tp_runIds p" "tp_prior (checkpointed p) = tp_prior p"
  "tp_paneId (checkpointed p) = tp_paneId p" "tp_successor (checkpointed p) = tp_successor p" "tp_fromKey (checkpointed p) = tp_fromKey p"
  "tp_toKey (checkpointed p) = tp_toKey p" "tp_provenance (checkpointed p) = tp_provenance p" "tp_unread (checkpointed p) = tp_unread p"
  "tp_events (checkpointed p) = tp_events p" "tp_incident (checkpointed p) = tp_incident p" "tp_movesComplete (checkpointed p)"
  "journal_name (checkpointed p) = journal_name p" "plan_ids (checkpointed p) = plan_ids p"
  by (simp_all add: checkpointed_def journal_name_def plan_ids_def)

lemma checkpointed_gets: "jget k (plan_json (checkpointed p)) = (if k = ''movesComplete'' then JBool True else jget k (plan_json p))"
  by (cases "tp_incident p"; cases "tp_movesComplete p"; simp add: plan_json_def checkpointed_def)

lemma isTransferRecord_checkpointed: "isTransferRecord am (plan_json p) \<Longrightarrow> isTransferRecord am (plan_json (checkpointed p))"
proof -
  have event: "plan_event_ok am (plan_json (checkpointed p)) = plan_event_ok am (plan_json p)"
    by (simp only: fun_eq_iff plan_event_ok_def checkpointed_gets) simp
  have keys: "''v'' \<noteq> ''movesComplete''" "''transferId'' \<noteq> ''movesComplete''" "''runIds'' \<noteq> ''movesComplete''"
    "''priorOwnerSession'' \<noteq> ''movesComplete''" "''successor'' \<noteq> ''movesComplete''" "''fromKey'' \<noteq> ''movesComplete''"
    "''toKey'' \<noteq> ''movesComplete''" "''provenance'' \<noteq> ''movesComplete''" "''unread'' \<noteq> ''movesComplete''"
    "''incidentId'' \<noteq> ''movesComplete''" "''events'' \<noteq> ''movesComplete''" "is_record (plan_json (checkpointed p))"
    "opt_field (\<lambda>x. x = JBool True) (JBool True)"
    by (simp_all add: opt_field_def)
  show "isTransferRecord am (plan_json p) \<Longrightarrow> isTransferRecord am (plan_json (checkpointed p))"
    unfolding isTransferRecord_def checkpointed_gets event by (simp only: keys if_False if_True refl simp_thms)
qed

text \<open>What acceptance of a plan means for its fields.\<close>

lemma accepted_plan:
  assumes "isTransferRecord am (plan_json p)"
  shows "list_all run_id_shape (tp_runIds p)" and "distinct (tp_runIds p)" and "map fst (tp_provenance p) = tp_runIds p"
    and "tp_fromKey p \<noteq> tp_toKey p" and "list_all event_id_shape (plan_ids p)" and "tp_unread p = map json_name (plan_ids p)"
    and "run_id_shape (tp_transferId p)" and "length (tp_events p) = 2" and "list_all (\<lambda>e. event_id_shape (re_id e)) (tp_events p)"
    and "list_all (\<lambda>e. owner_chain None (snd e) \<and> (\<exists>x. ow_session (last (snd e)) = Some x \<and> managerSessionKey am x = Inr (tp_toKey p))) (tp_provenance p)"
proof -
  note rec = assms [unfolded isTransferRecord_def]
  show "list_all run_id_shape (tp_runIds p)" "distinct (tp_runIds p)" "tp_fromKey p \<noteq> tp_toKey p" "run_id_shape (tp_transferId p)"
    using rec by (simp_all add: run_list_def list_all_iff distinct_map inj_on_def)
  have to: "session_key am (session_value (tp_successor p)) = Some (tp_toKey p)"
    using rec by (simp split: option.splits)
  let ?entry = "\<lambda>e. JObj [(''runId'', JStr (fst e)), (''owners'', JArr (map owner_value (snd e)))]"
  have entries: "list_all2 (plan_entry_ok am (session_value (tp_successor p))) (map JStr (tp_runIds p)) (map ?entry (tp_provenance p))"
    using rec by simp
  then show "map fst (tp_provenance p) = tp_runIds p"
    by (auto simp: list_all2_conv_all_nth plan_entry_ok_def intro: nth_equalityI)
  show "list_all (\<lambda>e. owner_chain None (snd e) \<and> (\<exists>x. ow_session (last (snd e)) = Some x \<and> managerSessionKey am x = Inr (tp_toKey p))) (tp_provenance p)"
    unfolding list_all_length
  proof (intro allI impI)
    fix i assume i: "i < length (tp_provenance p)"
    have "plan_entry_ok am (session_value (tp_successor p)) (JStr (tp_runIds p ! i)) (?entry (tp_provenance p ! i))"
      using entries i by (auto simp: list_all2_conv_all_nth)
    then have "owner_chain None (snd (tp_provenance p ! i))" "2 \<le> length (snd (tp_provenance p ! i))"
        "jget ''session'' (last (map owner_value (snd (tp_provenance p ! i)))) \<noteq> JNull"
        "session_key am (jget ''session'' (last (map owner_value (snd (tp_provenance p ! i))))) = Some (tp_toKey p)"
      using to by (simp_all add: plan_entry_ok_def validHandoffOwners_values Let_def)
    then show "owner_chain None (snd (tp_provenance p ! i)) \<and> (\<exists>x. ow_session (last (snd (tp_provenance p ! i))) = Some x
        \<and> managerSessionKey am x = Inr (tp_toKey p))"
      by (cases "snd (tp_provenance p ! i)" rule: rev_cases; cases "ow_session (last (snd (tp_provenance p ! i)))")
        (auto simp: session_opt_value_def session_key_def split: sum.splits)
  qed
  have files: "list_all event_file_shape (tp_unread p)" using rec by (simp add: list_all_iff)
  have name: "json_name (take (length x - 5) x) = x" if "event_file_shape x" for x
    using that append_take_drop_id [of "length x - 5" x] by (simp add: event_file_shape_def is_json_name_def json_name_def)
  show "tp_unread p = map json_name (plan_ids p)"
    using files name by (simp add: plan_ids_def list_all_iff map_idI)
  show "list_all event_id_shape (plan_ids p)"
    using files by (auto simp: plan_ids_def list_all_iff event_file_shape_def)
  obtain a b where ab: "tp_events p = [a, b]" "plan_event_ok am (plan_json p) (run_event_json a)" "plan_event_ok am (plan_json p) (run_event_json b)"
    using rec by (auto split: list.splits)
  then show "length (tp_events p) = 2" "list_all (\<lambda>e. event_id_shape (re_id e)) (tp_events p)"
    by (simp_all add: plan_event_ok_def run_event_id)
qed

section \<open>Rewriting the ownership histories\<close>

definition stored :: "handoff_store \<Rightarrow> string \<Rightarrow> (handoff_error, provenance) result" where
  "stored h r = readHandoffProvenance calm_handoff r h"

lemma read_stored: "readHandoffProvenance io r h = Inr p \<Longrightarrow> stored h r = Inr p"
  by (auto simp: readHandoffProvenance_def stored_def read_sidecar_def calm_handoff_def bind_result_eq_Inr_conv
      split: option.splits if_splits)

lemma stored_read: "stored h r = Inr p \<Longrightarrow> hi_read io r ''provenance'' \<Longrightarrow> readHandoffProvenance io r h = Inr p"
  by (auto simp: readHandoffProvenance_def stored_def read_sidecar_def calm_handoff_def bind_result_eq_Inr_conv
      split: option.splits if_splits)

lemma stored_valid: "stored h r = Inr p \<Longrightarrow> valid_provenance (hs_endpoint h) r p \<and> normalized p = p"
  using parse_valid by (auto simp: stored_def readHandoffProvenance_def bind_result_eq_Inr_conv)

lemma stored_put:
  "stored (put_run r (d\<lparr>rd_provenance := Some (written am (provenance_json p))\<rparr>) h) r'
   = (if r' = r then (if sc_bytes (written am (provenance_json p)) > HANDOFF_PROVENANCE_MAX_BYTES then Inl (HandoffStoreFailed ''untrusted'')
        else parseHandoffProvenance (hs_endpoint h) r (Some (provenance_json p)))
      else stored h r')"
  by (simp add: stored_def readHandoffProvenance_def read_sidecar_def calm_handoff_def) (simp add: written_def)

definition with_owners :: "owner_entry list \<Rightarrow> provenance \<Rightarrow> provenance" where
  "with_owners os p = p\<lparr>pv_owners := Some os\<rparr>"

lemma with_owners_twice [simp]: "with_owners os (with_owners os' p) = with_owners os p"
  by (simp add: with_owners_def)

lemma write_one:
  assumes "stored h r = Inr pv" and "writeHandoffProvenance am io r (with_owners os pv) h = (h', res)"
  shows "hs_endpoint h' = hs_endpoint h \<and> (\<forall>r'. r' \<noteq> r \<longrightarrow> stored h' r' = stored h r')
     \<and> (stored h' r = Inr pv \<or> stored h' r = Inr (with_owners os pv)) \<and> (res = Inr () \<longrightarrow> stored h' r = Inr (with_owners os pv))"
proof -
  have norm: "normalized (with_owners os pv) = with_owners os pv"
    using stored_valid [OF assms(1)] by (cases pv) (simp add: normalized_def with_owners_def)
  let ?f = "written am (provenance_json (with_owners os pv))"
  let ?h = "put_run r ((run_of h r)\<lparr>rd_provenance := Some ?f\<rparr>) h"
  have wr: "writeHandoffProvenance am io r (with_owners os pv) h =
      (if \<not> valid_provenance (hs_endpoint h) r (with_owners os pv) then (h, Inl (HandoffStoreFailed ''malformed''))
       else if sc_bytes ?f > HANDOFF_PROVENANCE_MAX_BYTES then (h, Inl (HandoffStoreFailed ''oversized''))
       else writeFileAtomic (hi_write io r ''provenance'') ?h h)"
    by (simp add: writeHandoffProvenance_def parse_provenance_json norm Let_def)
  show ?thesis
  proof (cases "valid_provenance (hs_endpoint h) r (with_owners os pv) \<and> sc_bytes ?f \<le> HANDOFF_PROVENANCE_MAX_BYTES")
    case True
    then have landed: "stored ?h r = Inr (with_owners os pv)" "\<forall>r'. r' \<noteq> r \<longrightarrow> stored ?h r' = stored h r'" "hs_endpoint ?h = hs_endpoint h"
      by (simp_all add: stored_put parse_provenance_json norm)
    have "writeFileAtomic (hi_write io r ''provenance'') ?h h = (h', res)" using True assms(2) by (simp add: wr)
    then have "h' = h \<and> res \<noteq> Inr () \<or> h' = ?h" by (auto simp: writeFileAtomic_def split: commit_outcome.splits)
    then show ?thesis using landed assms(1) by auto
  next
    case False
    then have "h' = h" "res \<noteq> Inr ()" using assms(2) by (auto simp: wr split: if_splits)
    then show ?thesis using assms(1) by simp
  qed
qed

text \<open>However far it got, each run has its old history or the plan's.\<close>

definition moved_on :: "owner_entry list \<Rightarrow> (handoff_error, provenance) result \<Rightarrow> (handoff_error, provenance) result \<Rightarrow> bool" where
  "moved_on os old new \<longleftrightarrow> (\<exists>pv. old = Inr pv \<and> new = Inr (with_owners os pv))"

lemma write_owners_any:
  "write_owners am io es h = (h', res) \<Longrightarrow> distinct (map fst es) \<Longrightarrow>
   hs_endpoint h' = hs_endpoint h \<and> (\<forall>r. r \<notin> fst ` set es \<longrightarrow> stored h' r = stored h r)
   \<and> (\<forall>e \<in> set es. stored h' (fst e) = stored h (fst e) \<or> moved_on (snd e) (stored h (fst e)) (stored h' (fst e)))
   \<and> (res = Inr () \<longrightarrow> (\<forall>e \<in> set es. moved_on (snd e) (stored h (fst e)) (stored h' (fst e))))"
proof (induction es arbitrary: h)
  case (Cons e es)
  obtain r os where e: "e = (r, os)" by fastforce
  show ?case
  proof (cases "\<exists>pv. openIn io r = Inr () \<and> readHandoffProvenance io r h = Inr pv")
    case False
    then have "h' = h \<and> res \<noteq> Inr ()" using Cons.prems(1) e by (auto split: sum.splits)
    then show ?thesis by simp
  next
    case True
    then obtain pv where pv: "openIn io r = Inr ()" "readHandoffProvenance io r h = Inr pv" by blast
    obtain h1 w where w: "writeHandoffProvenance am io r (with_owners os pv) h = (h1, w)" by fastforce
    note one = write_one [OF read_stored [OF pv(2)] w]
    have old: "stored h r = Inr pv" using read_stored pv(2) by blast
    show ?thesis
    proof (cases w)
      case (Inl x)
      then have "h' = h1" "res \<noteq> Inr ()" using Cons.prems(1) pv w by (auto simp: e with_owners_def)
      then show ?thesis using one old Cons.prems(2) by (auto simp: e moved_on_def)
    next
      case (Inr x)
      then have run: "write_owners am io es h1 = (h', res)" using Cons.prems(1) pv w by (simp add: e with_owners_def)
      have r: "r \<notin> fst ` set es" using Cons.prems(2) by (simp add: e)
      have tail: "stored h1 (fst x) = stored h (fst x)" if "x \<in> set es" for x using one that r by (metis imageI)
      from Cons.IH [OF run] Cons.prems(2) have ih:
        "hs_endpoint h' = hs_endpoint h1" "\<forall>q. q \<notin> fst ` set es \<longrightarrow> stored h' q = stored h1 q"
        "\<forall>x \<in> set es. stored h' (fst x) = stored h1 (fst x) \<or> moved_on (snd x) (stored h1 (fst x)) (stored h' (fst x))"
        "res = Inr () \<longrightarrow> (\<forall>x \<in> set es. moved_on (snd x) (stored h1 (fst x)) (stored h' (fst x)))" by simp_all
      have "moved_on os (stored h r) (stored h' r)" using ih(2) r one Inr old by (simp add: moved_on_def)
      then show ?thesis using ih tail one r by (auto simp: e)
    qed
  qed
qed simp

lemma write_owners_calm:
  assumes "hi_namespace io" and "\<And>r n. hi_read io r n" and "\<And>r n. hi_write io r n = Committed"
  shows "distinct (map fst es) \<Longrightarrow>
    \<forall>e \<in> set es. run_id_shape (fst e) \<and> (\<exists>pv. stored h (fst e) = Inr pv \<and> valid_provenance (hs_endpoint h) (fst e) (with_owners (snd e) pv)
      \<and> sc_bytes (written am (provenance_json (with_owners (snd e) pv))) \<le> HANDOFF_PROVENANCE_MAX_BYTES) \<Longrightarrow>
    \<exists>h'. write_owners am io es h = (h', Inr ())"
proof (induction es arbitrary: h)
  case (Cons e es)
  obtain r os where e: "e = (r, os)" by fastforce
  from Cons.prems(2) obtain pv where pv: "run_id_shape r" "stored h r = Inr pv" "valid_provenance (hs_endpoint h) r (with_owners os pv)"
      "sc_bytes (written am (provenance_json (with_owners os pv))) \<le> HANDOFF_PROVENANCE_MAX_BYTES" by (auto simp: e)
  have norm: "normalized (with_owners os pv) = with_owners os pv"
    using stored_valid [OF pv(2)] by (cases pv) (simp add: normalized_def with_owners_def)
  obtain h1 where w: "writeHandoffProvenance am io r (with_owners os pv) h = (h1, Inr ())"
    using pv(3,4) assms(3) by (simp add: writeHandoffProvenance_def parse_provenance_json norm Let_def writeFileAtomic_def)
  note one = write_one [OF pv(2) w]
  have tail: "stored h1 (fst x) = stored h (fst x)" if "x \<in> set es" for x
    using one that Cons.prems(1) by (metis e imageI distinct.simps(2) fst_conv list.map(2) list.set_map)
  have "\<exists>h'. write_owners am io es h1 = (h', Inr ())"
    using Cons.prems tail one by (intro Cons.IH) auto
  then show ?case using w pv(1) stored_read [OF pv(2) assms(2)] assms(1) by (simp add: e openIn_def with_owners_def)
qed simp

section \<open>One attempt under any faults\<close>

lemma own_then_cases:
  assumes "own_then r k = (s', res)"
  obtains (stop) e where "r = (s', Inl e)" "res = Inl e" | (go) s1 where "r = (s1, Inr ())" "k s1 = (s', res)"
proof -
  obtain s1 x where r: "r = (s1, x)" by fastforce
  then show thesis using assms stop go by (cases x) (auto simp: own_then_def)
qed

lemma own_then_simps [simp]: "own_then (s, Inl e) k = (s, Inl e)" "own_then (s, Inr ()) k = k s"
  by (simp_all add: own_then_def)

lemma checkpointed_steps [simp]:
  "consume_claim io (checkpointed p) = consume_claim io p" "rewrite_provenance am io (checkpointed p) = rewrite_provenance am io p"
  "write_transfer_event am io (checkpointed p) = write_transfer_event am io p" "retire_journal io (checkpointed p) = retire_journal io p"
  by (simp_all add: fun_eq_iff consume_claim_def rewrite_provenance_def write_transfer_event_def retire_journal_def)

definition consumed :: "transfer_plan \<Rightarrow> own_store \<Rightarrow> bool" where
  "consumed p s \<longleftrightarrow> (case tp_incident p of None \<Rightarrow> True | Some i \<Rightarrow> map_of (os_claims s) (json_name i) = None)"

definition rewritten :: "transfer_plan \<Rightarrow> own_store \<Rightarrow> own_store \<Rightarrow> bool" where
  "rewritten p s0 s \<longleftrightarrow> (\<forall>e \<in> set (tp_provenance p). moved_on (snd e) (stored (os_handoff s0) (fst e)) (stored (os_handoff s) (fst e)))"

definition arrived :: "transfer_plan \<Rightarrow> own_store \<Rightarrow> own_store \<Rightarrow> bool" where
  "arrived p s0 s \<longleftrightarrow> (\<forall>i \<in> set (plan_ids p). \<forall>f. map_of (unread_files (os_mail s0) (tp_fromKey p)) (json_name i) = Some f
     \<longrightarrow> map_of (unread_files (os_mail s) (tp_toKey p)) (json_name i) = Some f)"

definition committed :: "transfer_plan \<Rightarrow> own_store \<Rightarrow> own_store \<Rightarrow> bool" where
  "committed p s0 s \<longleftrightarrow> rewritten p s0 s \<and> arrived p s0 s \<and> consumed p s"

lemma parts_frame [simp]:
  "consumed p (s\<lparr>os_mail := m\<rparr>) = consumed p s" "consumed p (s\<lparr>os_journal := j\<rparr>) = consumed p s"
  "consumed p (s\<lparr>os_done := d\<rparr>) = consumed p s" "consumed p (s\<lparr>os_handoff := h\<rparr>) = consumed p s"
  "rewritten p s0 (s\<lparr>os_mail := m\<rparr>) = rewritten p s0 s" "rewritten p s0 (s\<lparr>os_journal := j\<rparr>) = rewritten p s0 s"
  "rewritten p s0 (s\<lparr>os_done := d\<rparr>) = rewritten p s0 s"
  "rewritten p s0 (s\<lparr>os_claims := c, os_used := u\<rparr>) = rewritten p s0 s"
  "arrived p s0 (s\<lparr>os_handoff := h\<rparr>) = arrived p s0 s" "arrived p s0 (s\<lparr>os_journal := j\<rparr>) = arrived p s0 s"
  "arrived p s0 (s\<lparr>os_done := d\<rparr>) = arrived p s0 s" "arrived p s0 (s\<lparr>os_claims := c, os_used := u\<rparr>) = arrived p s0 s"
  by (simp_all add: consumed_def rewritten_def arrived_def split: option.split)

text \<open>What holds at every moment after the journal was written at \<open>s0\<close>.\<close>

definition sound_store :: "ambient \<Rightarrow> transfer_plan \<Rightarrow> own_store \<Rightarrow> own_store \<Rightarrow> bool" where
  "sound_store am p s0 s \<longleftrightarrow> os_root s = Some True \<and> hs_endpoint (os_handoff s) = hs_endpoint (os_handoff s0)
     \<and> (\<forall>e \<in> set (tp_provenance p). stored (os_handoff s) (fst e) = stored (os_handoff s0) (fst e)
          \<or> moved_on (snd e) (stored (os_handoff s0) (fst e)) (stored (os_handoff s) (fst e)))
     \<and> healthy (os_mail s) \<and> wf_mail (os_mail s) \<and> has_box (os_mail s) (tp_fromKey p) \<and> has_box (os_mail s) (tp_toKey p)
     \<and> event_slot am (tp_fromKey p) (tp_events p ! 0) (os_mail s) \<and> event_slot am (tp_toKey p) (tp_events p ! 1) (os_mail s)"

definition plan_names :: "transfer_plan \<Rightarrow> string set" where
  "plan_names p = json_name ` set (plan_ids p)"

definition waiting :: "ambient \<Rightarrow> transfer_plan \<Rightarrow> own_store \<Rightarrow> own_store \<Rightarrow> bool" where
  "waiting am p s0 s \<longleftrightarrow> os_journal s = [(journal_name p, written am (plan_json p))]
     \<and> shifted (tp_fromKey p) (tp_toKey p) (plan_names p) (os_mail s0) (os_mail s)"

definition checkpoint :: "ambient \<Rightarrow> transfer_plan \<Rightarrow> own_store \<Rightarrow> own_store \<Rightarrow> bool" where
  "checkpoint am p s0 s \<longleftrightarrow> committed p s0 s \<and> os_journal s = [(journal_name p, written am (plan_json (checkpointed p)))]"

definition retired :: "transfer_plan \<Rightarrow> own_store \<Rightarrow> own_store \<Rightarrow> bool" where
  "retired p s0 s \<longleftrightarrow> committed p s0 s \<and> os_journal s = [] \<and> map_of (os_done s) (journal_name p) \<noteq> None"

text \<open>The journal an attempt would read, and what it finds then.\<close>

definition pending :: "ambient \<Rightarrow> transfer_plan \<Rightarrow> own_store \<Rightarrow> transfer_plan \<Rightarrow> own_store \<Rightarrow> bool" where
  "pending am p s0 q s \<longleftrightarrow> q = p \<and> waiting am p s0 s \<or> q = checkpointed p \<and> checkpoint am p s0 s"

lemma consume_claim_any:
  assumes "consume_claim io p s = (s', res)"
  shows "\<exists>c u. s' = s\<lparr>os_claims := c, os_used := u\<rparr> \<and> (consumed p s \<longrightarrow> consumed p s') \<and> (res = Inr () \<longrightarrow> consumed p s')"
proof (cases "tp_incident p")
  case None
  then have "s' = s" using assms by (simp add: consume_claim_def)
  then have "s' = s\<lparr>os_claims := os_claims s, os_used := os_used s\<rparr>" by simp
  moreover have "consumed p s'" using None by (simp add: consumed_def)
  ultimately show ?thesis by blast
next
  case (Some i)
  obtain c u ok where m: "moveRecord (oi_dirs io) (oi_claim io) True (json_name i) (os_claims s, os_used s) = ((c, u), ok)"
    by (metis prod.exhaust)
  have c: "(c = os_claims s \<and> (ok \<longrightarrow> map_of c (json_name i) = None)) \<or> map_of c (json_name i) = None"
    using m by (auto simp: moveRecord_def split: if_splits option.splits commit_outcome.splits)
  have run: "s' = s\<lparr>os_claims := c, os_used := u\<rparr>" "res = Inr () \<longrightarrow> ok" using assms m Some by (auto simp: consume_claim_def split: if_splits)
  then show ?thesis using c Some by (auto simp: consumed_def)
qed

lemma moved_on_trans: "moved_on os a b \<Longrightarrow> moved_on os b c \<Longrightarrow> moved_on os a c"
  by (auto simp: moved_on_def)

lemma rewrite_any:
  assumes "rewrite_provenance am io p s = (s', res)" and "sound_store am p s0 s" and "distinct (map fst (tp_provenance p))"
  shows "\<exists>h. s' = s\<lparr>os_handoff := h\<rparr> \<and> sound_store am p s0 s' \<and> (rewritten p s0 s \<longrightarrow> rewritten p s0 s')
     \<and> (res = Inr () \<longrightarrow> rewritten p s0 s')"
proof -
  obtain h r where w: "write_owners am (oi_handoff io) (tp_provenance p) (os_handoff s) = (h, r)" by fastforce
  have s': "s' = s\<lparr>os_handoff := h\<rparr>" "res = Inr () \<longrightarrow> r = Inr ()"
    using assms(1) w by (auto simp: rewrite_provenance_def split: sum.splits)
  note any = write_owners_any [OF w assms(3)]
  have later: "stored h (fst e) = stored (os_handoff s) (fst e) \<or> moved_on (snd e) (stored (os_handoff s) (fst e)) (stored h (fst e))"
      "r = Inr () \<Longrightarrow> moved_on (snd e) (stored (os_handoff s) (fst e)) (stored h (fst e))"
    if "e \<in> set (tp_provenance p)" for e using any that by blast+
  have before: "stored (os_handoff s) (fst e) = stored (os_handoff s0) (fst e)
      \<or> moved_on (snd e) (stored (os_handoff s0) (fst e)) (stored (os_handoff s) (fst e))"
    if "e \<in> set (tp_provenance p)" for e using assms(2) that unfolding sound_store_def by blast
  have now: "stored h (fst e) = stored (os_handoff s0) (fst e) \<or> moved_on (snd e) (stored (os_handoff s0) (fst e)) (stored h (fst e))"
    if "e \<in> set (tp_provenance p)" for e
    using later(1) [OF that] before [OF that] moved_on_trans [of "snd e" "stored (os_handoff s0) (fst e)"] by metis
  have keep: "moved_on (snd e) (stored (os_handoff s0) (fst e)) (stored h (fst e))"
    if "e \<in> set (tp_provenance p)" and "rewritten p s0 s" for e
    using later(1) [OF that(1)] that moved_on_trans unfolding rewritten_def by metis
  have fresh: "moved_on (snd e) (stored (os_handoff s0) (fst e)) (stored h (fst e))"
    if "e \<in> set (tp_provenance p)" and "r = Inr ()" for e
    using later(2) [OF that] before [OF that(1)] moved_on_trans by metis
  have "rewritten p s0 s \<longrightarrow> rewritten p s0 s'" "r = Inr () \<longrightarrow> rewritten p s0 s'"
    using keep fresh by (simp_all add: rewritten_def s'(1))
  moreover have "sound_store am p s0 s'" using assms(2) any now unfolding sound_store_def s'(1) by simp
  ultimately show ?thesis using s' by blast
qed

lemma write_journal_any:
  assumes "write_journal am outcome p s = (s', res)"
  shows "s' = s \<and> res \<noteq> Inr () \<or> s' = s\<lparr>os_journal := al_put (journal_name p) (written am (plan_json p)) (os_journal s)\<rparr>"
  using assms by (auto simp: write_journal_def Let_def split: commit_outcome.splits)

lemma move_any:
  assumes "move_mailbox am io p s = (s', res)" and "\<not> tp_movesComplete p" and "sound_store am p s0 s" and "waiting am p s0 s"
    and "rewritten p s0 s" and "consumed p s" and "isTransferRecord am (plan_json p)"
    and "\<And>e. e \<in> set (tp_events p) \<Longrightarrow> re_id e \<notin> set (plan_ids p)"
  shows "sound_store am p s0 s' \<and> (waiting am p s0 s' \<or> checkpoint am p s0 s') \<and> (res = Inr () \<longrightarrow> checkpoint am p s0 s')"
proof -
  note plan = accepted_plan [OF assms(7)]
  let ?from = "tp_fromKey p" and ?to = "tp_toKey p"
  have sound: "healthy (os_mail s)" "wf_mail (os_mail s)" "has_box (os_mail s) ?from" "has_box (os_mail s) ?to"
      "event_slot am ?from (tp_events p ! 0) (os_mail s)" "event_slot am ?to (tp_events p ! 1) (os_mail s)"
    using assms(3) by (simp_all add: sound_store_def)
  obtain m r where m: "moveUnreadLocked (oi_mail io 0) ?from ?to (plan_ids p) (os_mail s) = (m, r)" by fastforce
  note moved = moveUnreadLocked_any [OF sound(1,3,4,2) plan(4) m]
  have events: "tp_events p ! 0 \<in> set (tp_events p)" "tp_events p ! 1 \<in> set (tp_events p)" using plan(8) by simp_all
  then have off: "json_name (re_id (tp_events p ! 0)) \<notin> json_name ` set (plan_ids p)" "json_name (re_id (tp_events p ! 1)) \<notin> json_name ` set (plan_ids p)"
    using assms(8) by auto
  have slots: "event_slot am ?from (tp_events p ! 0) m" "event_slot am ?to (tp_events p ! 1) m"
    using sound(5,6) moved off unfolding event_slot_def shifted_def by metis+
  let ?m = "s\<lparr>os_mail := m\<rparr>"
  have held: "locked_moveUnread (oi_mail io 0) [?from, ?to] ?from ?to (plan_ids p) (os_mail s) = (m, r)"
    using m plan(4,5) by (simp add: locked_moveUnread_def)
  have now: "sound_store am p s0 ?m" "waiting am p s0 ?m"
    using assms(3,4) moved slots shifted_trans unfolding sound_store_def waiting_def plan_names_def by (simp_all, blast)
  show ?thesis
  proof (cases r)
    case (Inl e)
    then have "s' = ?m" "res \<noteq> Inr ()" using assms(1,2) held by (auto simp: move_mailbox_def)
    then show ?thesis using now by simp
  next
    case (Inr out)
    have run: "write_journal am (oi_journal io 1) (checkpointed p) ?m = (s', res)"
      using assms(1,2) held Inr by (simp add: move_mailbox_def checkpointed_def)
    have landed: "arrived p s0 ?m"
      unfolding arrived_def
    proof (intro ballI allI impI)
      fix i f assume i: "i \<in> set (plan_ids p)" and f: "map_of (unread_files (os_mail s0) ?from) (json_name i) = Some f"
      have gone: "map_of (unread_files m ?from) (json_name i) = None" using moved Inr i by blast
      have "shifted ?from ?to (plan_names p) (os_mail s0) m" using now(2) by (simp add: waiting_def)
      then show "map_of (unread_files (os_mail ?m) ?to) (json_name i) = Some f"
        using f gone unfolding shifted_def by (metis option.distinct(1) option.inject own_store.select_convs(2) own_store.update_convs(2) own_store.surjective)
    qed
    have "committed p s0 ?m" using landed assms(5,6) by (simp add: committed_def)
    then have done': "committed p s0 (?m\<lparr>os_journal := j\<rparr>)" for j
      by (simp add: committed_def)
    have journal: "al_put (journal_name p) (written am (plan_json (checkpointed p))) (os_journal s) = [(journal_name p, written am (plan_json (checkpointed p)))]"
      using assms(4) by (simp add: waiting_def)
    from write_journal_any [OF run] show ?thesis
    proof
      assume "s' = ?m \<and> res \<noteq> Inr ()"
      then show ?thesis using now by simp
    next
      assume s': "s' = ?m\<lparr>os_journal := al_put (journal_name (checkpointed p)) (written am (plan_json (checkpointed p))) (os_journal ?m)\<rparr>"
      then have "checkpoint am p s0 s'" using done' journal by (simp add: checkpoint_def)
      moreover have "sound_store am p s0 s'" using now(1) s' by (simp add: sound_store_def)
      ultimately show ?thesis by simp
    qed
  qed
qed

lemma event_any:
  assumes "write_transfer_event am io p n key s = (s', res)" and "sound_store am p s0 s" and "checkpoint am p s0 s"
    and "n = 0 \<and> key = tp_fromKey p \<or> n = 1 \<and> key = tp_toKey p" and "tp_fromKey p \<noteq> tp_toKey p"
  shows "sound_store am p s0 s' \<and> checkpoint am p s0 s'"
proof -
  let ?e = "tp_events p ! n"
  obtain m r where m: "locked_writeRecordedEvent am (oi_mail io (Suc n)) [tp_fromKey p, tp_toKey p] key ?e (os_mail s) = (m, r)" by fastforce
  have s': "s' = s\<lparr>os_mail := m\<rparr>" using assms(1) m by (auto simp: write_transfer_event_def split: sum.splits write_result.splits)
  have box: "healthy (os_mail s)" "has_box (os_mail s) key" "wf_mail (os_mail s)"
    using assms(2,4) by (auto simp: sound_store_def)
  note any = locked_write_any [OF box m]
  have added: "event_added am key ?e (os_mail s) m" using any by blast
  have boxes: "healthy m" "wf_mail m" "has_box m (tp_fromKey p)" "has_box m (tp_toKey p)"
    using any assms(2) by (auto simp: sound_store_def)
  have slots: "event_slot am (tp_fromKey p) (tp_events p ! 0) m" "event_slot am (tp_toKey p) (tp_events p ! 1) m"
    using assms(2,4,5) event_added_slot [OF _ added] unfolding sound_store_def by metis+
  have kept: "map_of (unread_files m k) x = Some f" if "map_of (unread_files (os_mail s) k) x = Some f" for k x f
    using added that by (auto simp: event_added_def map_of_eq_None_iff [symmetric])
  have "arrived p s0 s'" using assms(3) kept by (simp add: checkpoint_def committed_def arrived_def s')
  then have "checkpoint am p s0 s'" using assms(3) by (simp add: checkpoint_def committed_def s')
  moreover have "sound_store am p s0 s'" using assms(2) boxes slots by (simp add: sound_store_def s')
  ultimately show ?thesis by simp
qed

lemma retire_any:
  assumes "retire_journal io p s = (s', res)" and "sound_store am p s0 s" and "checkpoint am p s0 s"
  shows "sound_store am p s0 s' \<and> (checkpoint am p s0 s' \<or> retired p s0 s') \<and> (res = Inr () \<longrightarrow> retired p s0 s')"
proof -
  obtain j d ok where m: "moveRecord (oi_dirs io) (oi_retire io) False (journal_name p) (os_journal s, os_done s) = ((j, d), ok)"
    by (metis prod.exhaust)
  have one: "os_journal s = [(journal_name p, written am (plan_json (checkpointed p)))]" using assms(3) by (simp add: checkpoint_def)
  have c: "j = os_journal s \<and> d = os_done s \<and> \<not> ok \<or> j = [] \<and> map_of d (journal_name p) \<noteq> None"
    using m by (auto simp: moveRecord_def one al_del_def split: if_splits commit_outcome.splits)
  have run: "s' = s \<and> res \<noteq> Inr () \<or> s' = s\<lparr>os_journal := j, os_done := d\<rparr> \<and> (res = Inr () \<longrightarrow> ok)"
    using assms(1) m by (auto simp: retire_journal_def split: if_splits)
  have keep: "committed p s0 (s\<lparr>os_journal := a, os_done := b\<rparr>) = committed p s0 s" for a b
    by (simp add: committed_def)
  have "sound_store am p s0 s'" using run assms(2) by (auto simp: sound_store_def)
  then show ?thesis using run c assms(3) keep by (auto simp: checkpoint_def retired_def)
qed

text \<open>The steps of an attempt on the pending plan \<open>q\<close>.\<close>

lemma consume_step:
  assumes "consume_claim io q s = (s1, res)" and "pending am p s0 q s" and "sound_store am p s0 s"
  shows "sound_store am p s0 s1 \<and> pending am p s0 q s1 \<and> (res = Inr () \<longrightarrow> consumed p s1)"
proof -
  have "consume_claim io p s = (s1, res)" using assms(1,2) by (auto simp: pending_def)
  from consume_claim_any [OF this] obtain c u
    where "s1 = s\<lparr>os_claims := c, os_used := u\<rparr>" "consumed p s \<longrightarrow> consumed p s1" "res = Inr () \<longrightarrow> consumed p s1" by blast
  then show ?thesis
    using assms(2,3) by (auto simp: sound_store_def pending_def waiting_def checkpoint_def committed_def)
qed

lemma rewrite_step:
  assumes "rewrite_provenance am io q s = (s1, res)" and "pending am p s0 q s" and "sound_store am p s0 s" and "consumed p s"
    and "isTransferRecord am (plan_json p)"
  shows "sound_store am p s0 s1 \<and> pending am p s0 q s1 \<and> consumed p s1 \<and> (res = Inr () \<longrightarrow> rewritten p s0 s1)"
proof -
  have "rewrite_provenance am io p s = (s1, res)" using assms(1,2) by (auto simp: pending_def)
  moreover have "distinct (map fst (tp_provenance p))" using accepted_plan(2,3) [OF assms(5)] by simp
  ultimately obtain h where "s1 = s\<lparr>os_handoff := h\<rparr>" "sound_store am p s0 s1" "rewritten p s0 s \<longrightarrow> rewritten p s0 s1"
      "res = Inr () \<longrightarrow> rewritten p s0 s1" using rewrite_any [OF _ assms(3)] by metis
  then show ?thesis using assms(2,4) by (auto simp: pending_def waiting_def checkpoint_def committed_def)
qed

lemma move_step:
  assumes "move_mailbox am io q s = (s1, res)" and "pending am p s0 q s" and "sound_store am p s0 s" and "consumed p s"
    and "rewritten p s0 s" and "isTransferRecord am (plan_json p)" and "\<not> tp_movesComplete p"
    and "\<And>e. e \<in> set (tp_events p) \<Longrightarrow> re_id e \<notin> set (plan_ids p)"
  shows "sound_store am p s0 s1 \<and> (waiting am p s0 s1 \<or> checkpoint am p s0 s1) \<and> (res = Inr () \<longrightarrow> checkpoint am p s0 s1)"
proof (cases "q = p")
  case True
  then have "waiting am p s0 s" using assms(2,7) by (metis pending_def checkpointed_fields(12))
  then show ?thesis using move_any [OF assms(1) [unfolded True] assms(7,3) _ assms(5,4,6,8)] by blast
next
  case False
  then have "q = checkpointed p" "checkpoint am p s0 s" using assms(2) by (auto simp: pending_def)
  then show ?thesis using assms(1,3) by (simp add: move_mailbox_def)
qed

lemma pending_again: "waiting am p s0 s \<or> checkpoint am p s0 s \<Longrightarrow> \<exists>q. pending am p s0 q s"
  by (auto simp: pending_def)

lemma pending_parts:
  assumes "pending am p s0 q s"
  shows "write_transfer_event am io q = write_transfer_event am io p" "retire_journal io q = retire_journal io p"
    "tp_fromKey q = tp_fromKey p" "tp_toKey q = tp_toKey p"
  using assms by (auto simp: pending_def)

lemma finish_any:
  assumes "finish am io q s = (s', res)" and "pending am p s0 q s" and "sound_store am p s0 s" and "isTransferRecord am (plan_json p)"
    and "\<not> tp_movesComplete p" and "\<And>e. e \<in> set (tp_events p) \<Longrightarrow> re_id e \<notin> set (plan_ids p)"
  shows "sound_store am p s0 s' \<and> ((\<exists>q'. pending am p s0 q' s') \<or> retired p s0 s') \<and> (res = Inr () \<longrightarrow> retired p s0 s')"
proof -
  note plan = accepted_plan [OF assms(4)]
  from assms(1) [unfolded finish_def pending_parts [OF assms(2)]] show ?thesis
  proof (cases rule: own_then_cases)
    case (stop e)
    then show ?thesis using consume_step [OF stop(1) assms(2,3)] by blast
  next
    case (go s1)
    from consume_step [OF go(1) assms(2,3)] have p1: "pending am p s0 q s1" "sound_store am p s0 s1" "consumed p s1" by blast+
    from go(2) show ?thesis
    proof (cases rule: own_then_cases)
      case (stop e)
      then show ?thesis using rewrite_step [OF stop(1) p1 assms(4)] by blast
    next
      case (go s2)
      from rewrite_step [OF go(1) p1 assms(4)]
      have p2: "pending am p s0 q s2" "sound_store am p s0 s2" "consumed p s2" "rewritten p s0 s2" by blast+
      from go(2) show ?thesis
      proof (cases rule: own_then_cases)
        case (stop e)
        then show ?thesis using move_step [OF stop(1) p2 assms(4,5,6)] pending_again by blast
      next
        case (go s3)
        from move_step [OF go(1) p2 assms(4,5,6)] have p3: "sound_store am p s0 s3" "checkpoint am p s0 s3" by blast+
        from go(2) show ?thesis
        proof (cases rule: own_then_cases)
          case (stop e)
          then show ?thesis using event_any [OF stop(1) p3] plan(4) pending_again by auto
        next
          case (go s4)
          from event_any [OF go(1) p3] plan(4) have p4: "sound_store am p s0 s4" "checkpoint am p s0 s4" by auto
          from go(2) show ?thesis
          proof (cases rule: own_then_cases)
            case (stop e)
            then show ?thesis using event_any [OF stop(1) p4] plan(4) pending_again by auto
          next
            case (go s5)
            from event_any [OF go(1) p4] plan(4) have p5: "sound_store am p s0 s5" "checkpoint am p s0 s5" by auto
            from retire_any [OF go(2) p5] show ?thesis using pending_again by blast
          qed
        qed
      qed
    qed
  qed
qed

section \<open>A calm attempt\<close>

definition calm_own :: "own_io \<Rightarrow> bool" where
  "calm_own io \<longleftrightarrow> oi_dirs io \<and> oi_lock io \<and> hi_namespace (oi_handoff io) \<and> (\<forall>r. hi_lock (oi_handoff io) r)
     \<and> (\<forall>r n. hi_read (oi_handoff io) r n) \<and> (\<forall>r n. hi_write (oi_handoff io) r n = Committed)
     \<and> (\<forall>n. calm (oi_mail io n)) \<and> oi_claim io = Committed \<and> (\<forall>n. oi_journal io n = Committed)
     \<and> oi_retire io = Committed \<and> oi_retarget io"

text \<open>The plan can be written: what the code checks again when it finishes the plan holds.\<close>

definition plan_writable :: "ambient \<Rightarrow> transfer_plan \<Rightarrow> own_store \<Rightarrow> bool" where
  "plan_writable am p s0 \<longleftrightarrow> list_all (event_ready am) (tp_events p)
     \<and> (\<forall>e \<in> set (tp_provenance p). \<exists>pv. stored (os_handoff s0) (fst e) = Inr pv
          \<and> valid_provenance (hs_endpoint (os_handoff s0)) (fst e) (with_owners (snd e) pv)
          \<and> sc_bytes (written am (provenance_json (with_owners (snd e) pv))) \<le> HANDOFF_PROVENANCE_MAX_BYTES)"

lemma consume_calm: "calm_own io \<Longrightarrow> \<exists>s1. consume_claim io p s = (s1, Inr ())"
  by (auto simp: calm_own_def consume_claim_def moveRecord_def split: option.split)

lemma rewrite_calm:
  assumes "calm_own io" and "sound_store am p s0 s" and "plan_writable am p s0" and "isTransferRecord am (plan_json p)"
  shows "\<exists>s1. rewrite_provenance am io p s = (s1, Inr ())"
proof -
  note plan = accepted_plan [OF assms(4)]
  have "\<exists>h'. write_owners am (oi_handoff io) (tp_provenance p) (os_handoff s) = (h', Inr ())"
  proof (rule write_owners_calm)
    show "hi_namespace (oi_handoff io)" "\<And>r n. hi_read (oi_handoff io) r n" "\<And>r n. hi_write (oi_handoff io) r n = Committed"
      using assms(1) by (simp_all add: calm_own_def)
    show "distinct (map fst (tp_provenance p))" using plan(2,3) by simp
    show "\<forall>e\<in>set (tp_provenance p). run_id_shape (fst e) \<and> (\<exists>pv. stored (os_handoff s) (fst e) = Inr pv
      \<and> valid_provenance (hs_endpoint (os_handoff s)) (fst e) (with_owners (snd e) pv)
      \<and> sc_bytes (written am (provenance_json (with_owners (snd e) pv))) \<le> HANDOFF_PROVENANCE_MAX_BYTES)"
    proof
      fix e assume e: "e \<in> set (tp_provenance p)"
      from assms(3) e obtain pv where pv: "stored (os_handoff s0) (fst e) = Inr pv"
        "valid_provenance (hs_endpoint (os_handoff s0)) (fst e) (with_owners (snd e) pv)"
        "sc_bytes (written am (provenance_json (with_owners (snd e) pv))) \<le> HANDOFF_PROVENANCE_MAX_BYTES"
        by (auto simp: plan_writable_def)
      have "stored (os_handoff s) (fst e) = Inr pv \<or> stored (os_handoff s) (fst e) = Inr (with_owners (snd e) pv)"
        using assms(2) e pv(1) by (auto simp: sound_store_def moved_on_def)
      moreover have "hs_endpoint (os_handoff s) = hs_endpoint (os_handoff s0)" using assms(2) by (simp add: sound_store_def)
      moreover have "run_id_shape (fst e)" using plan(1,3) e by (metis (mono_tags) list_all_iff image_eqI list.set_map)
      ultimately show "run_id_shape (fst e) \<and> (\<exists>pv. stored (os_handoff s) (fst e) = Inr pv
        \<and> valid_provenance (hs_endpoint (os_handoff s)) (fst e) (with_owners (snd e) pv)
        \<and> sc_bytes (written am (provenance_json (with_owners (snd e) pv))) \<le> HANDOFF_PROVENANCE_MAX_BYTES)"
        using pv(2,3) by (metis with_owners_twice)
    qed
  qed
  then show ?thesis by (auto simp: rewrite_provenance_def)
qed

lemma move_calm:
  assumes "calm_own io" and "sound_store am p s0 s" and "isTransferRecord am (plan_json p)" and "q = p \<or> q = checkpointed p"
  shows "\<exists>s1. move_mailbox am io q s = (s1, Inr ())"
proof -
  note plan = accepted_plan [OF assms(3)]
  have "healthy (os_mail s)" "has_box (os_mail s) (tp_fromKey p)" "has_box (os_mail s) (tp_toKey p)" "calm (oi_mail io 0)"
    using assms(1,2) by (simp_all add: sound_store_def calm_own_def)
  from moveUnreadLocked_completes [OF this plan(4)] obtain m out
    where m: "moveUnreadLocked (oi_mail io 0) (tp_fromKey p) (tp_toKey p) (plan_ids p) (os_mail s) = (m, Inr out)" by blast
  have "oi_journal io 1 = Committed" using assms(1) by (simp add: calm_own_def)
  then show ?thesis
    using m plan(4,5) assms(4) by (auto simp: move_mailbox_def locked_moveUnread_def write_journal_def Let_def)
qed

lemma event_calm:
  assumes "calm_own io" and "sound_store am p s0 s" and "event_ready am (tp_events p ! n)"
    and "n = 0 \<and> key = tp_fromKey p \<or> n = 1 \<and> key = tp_toKey p"
  shows "\<exists>s1 r. write_transfer_event am io p n key s = (s1, r) \<and> (r = Inr () \<or> r = Inl (OwnRefused ''TRANSFER_PENDING''))"
proof -
  have "healthy (os_mail s)" "has_box (os_mail s) key" "calm (oi_mail io (Suc n))" "key \<in> set [tp_fromKey p, tp_toKey p]"
      "event_slot am key (tp_events p ! n) (os_mail s)"
    using assms(1,2,4) by (auto simp: sound_store_def calm_own_def)
  from locked_write_calm [OF this(1-4) assms(3) this(5)] show ?thesis
    by (auto simp: write_transfer_event_def)
qed

lemma retire_calm: "calm_own io \<Longrightarrow> checkpoint am p s0 s \<Longrightarrow> \<exists>s1. retire_journal io p s = (s1, Inr ())"
  by (auto simp: calm_own_def checkpoint_def retire_journal_def moveRecord_def)

lemma finish_calm:
  assumes "calm_own io" and "pending am p s0 q s" and "sound_store am p s0 s" and "isTransferRecord am (plan_json p)"
    and "\<not> tp_movesComplete p" and "\<And>e. e \<in> set (tp_events p) \<Longrightarrow> re_id e \<notin> set (plan_ids p)" and "plan_writable am p s0"
  shows "\<exists>s' res. finish am io q s = (s', res)
     \<and> (res = Inr () \<or> res = Inl (OwnRefused ''TRANSFER_PENDING'') \<and> checkpoint am p s0 s')"
proof -
  note plan = accepted_plan [OF assms(4)]
  have q: "q = p \<or> q = checkpointed p" using assms(2) by (auto simp: pending_def)
  then have steps: "consume_claim io q = consume_claim io p" "rewrite_provenance am io q = rewrite_provenance am io p" by auto
  have ready: "event_ready am (tp_events p ! 0)" "event_ready am (tp_events p ! 1)"
    using assms(7) plan(8) by (simp_all add: plan_writable_def list_all_length)
  obtain s1 where c: "consume_claim io p s = (s1, Inr ())" using consume_calm [OF assms(1)] by blast
  from consume_step [OF _ assms(2,3)] c steps have p1: "pending am p s0 q s1" "sound_store am p s0 s1" "consumed p s1" by metis+
  obtain s2 where r: "rewrite_provenance am io p s1 = (s2, Inr ())" using rewrite_calm [OF assms(1) p1(2) assms(7,4)] by blast
  from rewrite_step [OF _ p1 assms(4)] r steps
  have p2: "pending am p s0 q s2" "sound_store am p s0 s2" "consumed p s2" "rewritten p s0 s2" by metis+
  obtain s3 where m: "move_mailbox am io q s2 = (s3, Inr ())" using move_calm [OF assms(1) p2(2) assms(4) q] by blast
  from move_step [OF m p2 assms(4,5,6)] have p3: "sound_store am p s0 s3" "checkpoint am p s0 s3" by blast+
  have run: "finish am io q s = own_then (write_transfer_event am io p 0 (tp_fromKey p) s3)
      (\<lambda>s4. own_then (write_transfer_event am io p 1 (tp_toKey p) s4) (retire_journal io p))"
    by (simp add: finish_def pending_parts [OF assms(2)] steps c r m)
  obtain s4 r4 where e4: "write_transfer_event am io p 0 (tp_fromKey p) s3 = (s4, r4)"
      "r4 = Inr () \<or> r4 = Inl (OwnRefused ''TRANSFER_PENDING'')"
    using event_calm [OF assms(1) p3(1) ready(1), of "tp_fromKey p"] by auto
  have p4: "sound_store am p s0 s4" "checkpoint am p s0 s4" using event_any [OF e4(1) p3] plan(4) by auto
  show ?thesis
  proof (cases "r4 = Inr ()")
    case True
    obtain s5 r5 where e5: "write_transfer_event am io p 1 (tp_toKey p) s4 = (s5, r5)"
        "r5 = Inr () \<or> r5 = Inl (OwnRefused ''TRANSFER_PENDING'')"
      using event_calm [OF assms(1) p4(1) ready(2), of "tp_toKey p"] by auto
    have p5: "checkpoint am p s0 s5" using event_any [OF e5(1) p4] plan(4) by auto
    show ?thesis using run e4(1) True e5 retire_calm [OF assms(1) p5] p5 by auto
  next
    case False
    then show ?thesis using run e4 p4 by auto
  qed
qed

section \<open>Recovery\<close>

text \<open>The store at the moment the journal of the plan has just been written.\<close>

definition transfer_ready :: "ambient \<Rightarrow> transfer_plan \<Rightarrow> own_store \<Rightarrow> bool" where
  "transfer_ready am p s0 \<longleftrightarrow> isTransferRecord am (plan_json p) \<and> \<not> tp_movesComplete p \<and> list_all transfer_shape (tp_events p)
     \<and> sc_bytes (written am (plan_json p)) \<le> RECORD_MAX_BYTES
     \<and> sc_bytes (written am (plan_json (checkpointed p))) \<le> RECORD_MAX_BYTES
     \<and> os_root s0 = Some True \<and> os_journal s0 = [(journal_name p, written am (plan_json p))]
     \<and> healthy (os_mail s0) \<and> wf_mail (os_mail s0) \<and> has_box (os_mail s0) (tp_fromKey p) \<and> has_box (os_mail s0) (tp_toKey p)
     \<and> list_all (\<lambda>e. re_id e \<notin> set (plan_ids p)
          \<and> list_all (\<lambda>k. map_of (unread_files (os_mail s0) k) (json_name (re_id e)) = None
               \<and> map_of (acked_files (os_mail s0) k) (json_name (re_id e)) = None) [tp_fromKey p, tp_toKey p]) (tp_events p)
     \<and> plan_writable am p s0"

definition transfer_inv :: "ambient \<Rightarrow> transfer_plan \<Rightarrow> own_store \<Rightarrow> own_store \<Rightarrow> bool" where
  "transfer_inv am p s0 s \<longleftrightarrow> transfer_ready am p s0 \<and> sound_store am p s0 s \<and> ((\<exists>q. pending am p s0 q s) \<or> retired p s0 s)"

lemma transfer_inv_start: "transfer_ready am p s0 \<Longrightarrow> transfer_inv am p s0 s0 \<and> pending am p s0 p s0"
proof -
  assume r: "transfer_ready am p s0"
  then have "length (tp_events p) = 2" using accepted_plan(8) unfolding transfer_ready_def by blast
  then obtain a b where "tp_events p = [a, b]" by (auto simp: numeral_2_eq_2 length_Suc_conv)
  then have "event_slot am (tp_fromKey p) (tp_events p ! 0) (os_mail s0)" "event_slot am (tp_toKey p) (tp_events p ! 1) (os_mail s0)"
    using r by (simp_all add: transfer_ready_def event_slot_def)
  then have "sound_store am p s0 s0" "pending am p s0 p s0"
    using r by (simp_all add: transfer_ready_def sound_store_def pending_def waiting_def shifted_same)
  then show ?thesis using r by (auto simp: transfer_inv_def)
qed

lemma transfer_ready_parts:
  assumes "transfer_ready am p s0"
  shows "isTransferRecord am (plan_json p)" and "\<not> tp_movesComplete p" and "\<And>e. e \<in> set (tp_events p) \<Longrightarrow> re_id e \<notin> set (plan_ids p)"
    and "plan_writable am p s0"
  using assms by (simp_all add: transfer_ready_def list_all_iff)

text \<open>What a restart reads: the pending plan, or nothing once the journal is retired.\<close>

lemma pendingRecords_pending:
  assumes "transfer_ready am p s0" and "pending am p s0 q s" and "os_root s = Some True"
  shows "pendingRecords am s = Inr [q]"
proof -
  have q: "os_journal s = [(journal_name p, written am (plan_json q))]" "isTransferRecord am (plan_json q)"
      "sc_bytes (written am (plan_json q)) \<le> RECORD_MAX_BYTES" "list_all transfer_shape (tp_events q)" "journal_name q = journal_name p"
    using assms(1,2) isTransferRecord_checkpointed
    by (auto simp: pending_def waiting_def checkpoint_def transfer_ready_def)
  have name: "journal_name p = json_name (tp_transferId q)" using q(5) by (simp add: journal_name_def)
  have "readRecord (Some (written am (plan_json q))) = Some (Inr (plan_json q))"
    using q(3) by (simp add: readRecord_def) (simp add: written_def)
  then show ?thesis
    using q(1,2) plan_of_json [OF q(4)] assms(3) by (simp add: pendingRecords_def name)
qed

lemma pendingRecords_retired: "retired p s0 s \<Longrightarrow> os_root s = Some True \<Longrightarrow> pendingRecords am s = Inr []"
  by (simp add: pendingRecords_def retired_def)

text \<open>An attempt is one \<open>finish\<close> of the pending plan, or it changes nothing.\<close>

lemma completePending_any:
  assumes "transfer_inv am p s0 s" and "completePending am ios s = (s', res)"
  shows "s' = s \<and> (res = Inr () \<longrightarrow> retired p s0 s) \<or> (\<exists>q. pending am p s0 q s \<and> finish am (ios 1) q s = (s', res))"
proof -
  have inv: "transfer_ready am p s0" "sound_store am p s0 s" "os_root s = Some True"
    using assms(1) by (simp_all add: transfer_inv_def sound_store_def)
  have mail: "healthy (os_mail s)" "has_box (os_mail s) (tp_fromKey p)" "has_box (os_mail s) (tp_toKey p)"
    using inv(2) by (simp_all add: sound_store_def)
  have same: "s\<lparr>os_root := Some True\<rparr> = s" using inv(3) by (cases s) simp
  have run: "completePending am ios s = (if \<not> oi_dirs (ios 0) then (s, Inl OwnIo)
      else if \<not> oi_lock (ios 0) then (s, Inl (OwnRefused ''OWNERSHIP_UNAVAILABLE'')) else replayPending am ios s)"
    using inv(3) by (simp add: completePending_def serialized_def Let_def same)
  show ?thesis
  proof (cases "\<exists>q. pending am p s0 q s")
    case True
    then obtain q where q: "pending am p s0 q s" by blast
    note keys = pending_parts [OF q]
    have locks: "with_mailboxes (ios 1) [tp_fromKey p, tp_toKey p] f s = (if mo_dirs (oi_mail (ios 1) 0) \<and> mo_lock (oi_mail (ios 1) 0)
        then f s else (s, Inl (OwnMail MailUnavailable)))" for f :: "own_store \<Rightarrow> own_step"
      using multiMailboxLocks_any [OF mail(1), of "[tp_fromKey p, tp_toKey p]" "oi_mail (ios 1) 0"] mail(2,3)
      by (simp add: with_mailboxes_def has_box_def)
    have replay: "replayPending am ios s = (case withRuns (oi_handoff (ios 1)) (sort (tp_runIds q)) of Inl e \<Rightarrow> (s, Inl e)
        | Inr _ \<Rightarrow> own_then (with_mailboxes (ios 1) [tp_fromKey p, tp_toKey p] (finish am (ios 1) q) s) (\<lambda>x. (x, Inr ())))"
    proof -
      have nil: "replay_plans am ios n [] = (\<lambda>x. (x, Inr ()))" for n by (simp add: fun_eq_iff)
      show ?thesis by (simp add: replayPending_def pendingRecords_pending [OF inv(1) q inv(3)] keys nil split: sum.split)
    qed
    have last: "own_then r (\<lambda>x. (x, Inr ())) = r" for r :: own_step
      by (cases r; cases "snd r") (auto simp: own_then_def)
    show ?thesis
      using assms(2) q unfolding run replay locks last by (auto split: if_splits sum.splits)
  next
    case False
    then have "retired p s0 s" using assms(1) by (auto simp: transfer_inv_def)
    moreover have "replayPending am ios s = (s, Inr ())"
      using pendingRecords_retired [OF calculation inv(3)] by (simp add: replayPending_def)
    ultimately show ?thesis using assms(2) unfolding run by (auto split: if_splits)
  qed
qed

lemma withRuns_calm: "calm_own io \<Longrightarrow> list_all run_id_shape rs \<Longrightarrow> withRuns (oi_handoff io) rs = Inr ()"
  by (induction rs) (simp_all add: openIn_def calm_own_def)

lemma completePending_calm:
  assumes "transfer_inv am p s0 s" and "calm_own (ios 0)" and "calm_own (ios 1)"
  shows "\<exists>s' res. completePending am ios s = (s', res)
     \<and> (res = Inr () \<and> retired p s0 s' \<or> res = Inl (OwnRefused ''TRANSFER_PENDING'') \<and> checkpoint am p s0 s')"
proof -
  have inv: "transfer_ready am p s0" "sound_store am p s0 s" "os_root s = Some True"
    using assms(1) by (simp_all add: transfer_inv_def sound_store_def)
  note parts = transfer_ready_parts [OF inv(1)]
  have mail: "healthy (os_mail s)" "has_box (os_mail s) (tp_fromKey p)" "has_box (os_mail s) (tp_toKey p)"
    using inv(2) by (simp_all add: sound_store_def)
  have same: "s\<lparr>os_root := Some True\<rparr> = s" using inv(3) by (cases s) simp
  have open_store: "completePending am ios s = replayPending am ios s"
    using inv(3) assms(2) by (simp add: completePending_def serialized_def Let_def same calm_own_def)
  show ?thesis
  proof (cases "\<exists>q. pending am p s0 q s")
    case True
    then obtain q where q: "pending am p s0 q s" by blast
    obtain s' res where f: "finish am (ios 1) q s = (s', res)"
        "res = Inr () \<or> res = Inl (OwnRefused ''TRANSFER_PENDING'') \<and> checkpoint am p s0 s'"
      using finish_calm [OF assms(3) q inv(2) parts] by blast
    have locks: "with_mailboxes (ios 1) [tp_fromKey p, tp_toKey p] (finish am (ios 1) q) s = (s', res)"
      using multiMailboxLocks_any [OF mail(1), of "[tp_fromKey p, tp_toKey p]" "oi_mail (ios 1) 0"] mail(2,3) assms(3) f(1)
      by (simp add: with_mailboxes_def has_box_def calm_own_def calm_def)
    have "tp_runIds q = tp_runIds p" using q by (auto simp: pending_def)
    then have runs: "withRuns (oi_handoff (ios 1)) (sort (tp_runIds q)) = Inr ()"
      using withRuns_calm [OF assms(3)] accepted_plan(1) [OF parts(1)] by (simp add: list_all_iff)
    have "replayPending am ios s = (s', res)"
      using runs locks f(2) by (auto simp: replayPending_def pendingRecords_pending [OF inv(1) q inv(3)] pending_parts [OF q])
    moreover have "res = Inr () \<longrightarrow> retired p s0 s'" using finish_any [OF f(1) q inv(2) parts(1-3)] by blast
    ultimately show ?thesis using open_store f(2) by auto
  next
    case False
    then have r: "retired p s0 s" using assms(1) by (auto simp: transfer_inv_def)
    then have "replayPending am ios s = (s, Inr ())" using pendingRecords_retired [OF r inv(3)] by (simp add: replayPending_def)
    then show ?thesis using open_store r by simp
  qed
qed

interpretation transfers: recoverable "completePending am" "transfer_inv am p s0" "\<lambda>ios. calm_own (ios 0) \<and> calm_own (ios 1)"
  "\<lambda>r s. r = Inr () \<and> retired p s0 s \<or> r = Inl (OwnRefused ''TRANSFER_PENDING'') \<and> checkpoint am p s0 s" for am p s0
proof
  fix s ios assume inv: "transfer_inv am p s0 s"
  obtain s' res where r: "completePending am ios s = (s', res)" by fastforce
  note parts = transfer_ready_parts [of am p s0]
  from completePending_any [OF inv r] show "transfer_inv am p s0 (fst (completePending am ios s))"
  proof
    assume "s' = s \<and> (res = Inr () \<longrightarrow> retired p s0 s)"
    then show ?thesis using inv r by simp
  next
    assume "\<exists>q. pending am p s0 q s \<and> finish am (ios 1) q s = (s', res)"
    then obtain q where q: "pending am p s0 q s" "finish am (ios 1) q s = (s', res)" by blast
    show ?thesis
      using finish_any [OF q(2,1)] inv parts r by (auto simp: transfer_inv_def)
  qed
next
  fix s and ios :: "nat \<Rightarrow> own_io" assume "transfer_inv am p s0 s" and "calm_own (ios 0) \<and> calm_own (ios 1)"
  then show "\<exists>s' r. completePending am ios s = (s', r)
      \<and> (r = Inr () \<and> retired p s0 s' \<or> r = Inl (OwnRefused ''TRANSFER_PENDING'') \<and> checkpoint am p s0 s')"
    using completePending_calm by blast
qed

text \<open>Where a listed event is: still with the prior owner, or with the successor, unchanged.\<close>

definition carried :: "transfer_plan \<Rightarrow> own_store \<Rightarrow> own_store \<Rightarrow> bool" where
  "carried p s0 s \<longleftrightarrow> (\<forall>i \<in> set (plan_ids p). \<forall>f. map_of (unread_files (os_mail s0) (tp_fromKey p)) (json_name i) = Some f
     \<longrightarrow> map_of (unread_files (os_mail s) (tp_fromKey p)) (json_name i) = Some f
       \<or> map_of (unread_files (os_mail s) (tp_toKey p)) (json_name i) = Some f)"

text \<open>No run lost its history: it is as it was, or as the plan froze it.\<close>

definition histories_kept :: "transfer_plan \<Rightarrow> own_store \<Rightarrow> own_store \<Rightarrow> bool" where
  "histories_kept p s0 s \<longleftrightarrow> (\<forall>e \<in> set (tp_provenance p). stored (os_handoff s) (fst e) = stored (os_handoff s0) (fst e)
     \<or> moved_on (snd e) (stored (os_handoff s0) (fst e)) (stored (os_handoff s) (fst e)))"

text \<open>Every run of the plan is owned by the successor.\<close>

definition successor_owns :: "ambient \<Rightarrow> transfer_plan \<Rightarrow> own_store \<Rightarrow> bool" where
  "successor_owns am p s \<longleftrightarrow> (\<forall>r \<in> set (tp_runIds p). \<exists>pv x. stored (os_handoff s) r = Inr pv \<and> currentHandoffOwner pv = Some x
     \<and> managerSessionKey am x = Inr (tp_toKey p))"

lemma transfer_inv_carried:
  assumes "transfer_inv am p s0 s"
  shows "carried p s0 s" and "histories_kept p s0 s"
proof -
  have "(\<exists>q. pending am p s0 q s) \<or> retired p s0 s" using assms by (simp add: transfer_inv_def)
  then have "shifted (tp_fromKey p) (tp_toKey p) (plan_names p) (os_mail s0) (os_mail s) \<or> arrived p s0 s"
    by (auto simp: pending_def waiting_def checkpoint_def retired_def committed_def)
  then show "carried p s0 s"
    unfolding carried_def arrived_def shifted_def by (metis option.inject)
  show "histories_kept p s0 s" using assms by (simp add: transfer_inv_def sound_store_def histories_kept_def)
qed

lemma rewritten_owner:
  assumes "rewritten p s0 s" and "isTransferRecord am (plan_json p)"
  shows "successor_owns am p s"
  unfolding successor_owns_def
proof
  fix r assume "r \<in> set (tp_runIds p)"
  then obtain e where e: "e \<in> set (tp_provenance p)" "fst e = r" using accepted_plan(3) [OF assms(2)] by (metis imageE set_map)
  then obtain pv where pv: "stored (os_handoff s) r = Inr (with_owners (snd e) pv)" using assms(1) by (auto simp: rewritten_def moved_on_def)
  obtain x where x: "owner_chain None (snd e)" "ow_session (last (snd e)) = Some x" "managerSessionKey am x = Inr (tp_toKey p)"
    using accepted_plan(10) [OF assms(2)] e(1) by (auto simp: list_all_iff)
  have "handoffOwners (with_owners (snd e) pv) = snd e" by (simp add: handoffOwners_def with_owners_def)
  then have "currentHandoffOwner (with_owners (snd e) pv) = Some x" using currentHandoffOwner_last x by simp
  then show "\<exists>pv x. stored (os_handoff s) r = Inr pv \<and> currentHandoffOwner pv = Some x \<and> managerSessionKey am x = Inr (tp_toKey p)"
    using pv x(3) by blast
qed

text \<open>
  C31. A transfer survives crashes: once its plan is journaled, any first attempt and any number of restarts
  under any faults leave every listed unread event, unchanged, with the prior owner or with the
  successor, and every run's ownership history as it was or as the plan froze it; the next restart
  without faults then either completes, with the journal retired, or reports that the mailboxes are
  full, and in both cases every run is owned by the successor, every event has arrived and the claim
  instruction is consumed.
\<close>

theorem transfer_survives_crashes:
  fixes history :: "(nat \<Rightarrow> own_io) list" and io :: own_io
  assumes "transfer_ready am p s0" and "calm_own (ios 0)" and "calm_own (ios 1)"
  defines "s \<equiv> foldl (\<lambda>s ios. fst (completePending am ios s)) (fst (finish am io p s0)) history"
  shows "carried p s0 s \<and> histories_kept p s0 s
       \<and> (\<exists>s' res. completePending am ios s = (s', res)
          \<and> (res = Inr () \<and> os_journal s' = [] \<or> res = Inl (OwnRefused ''TRANSFER_PENDING''))
          \<and> successor_owns am p s' \<and> arrived p s0 s' \<and> consumed p s')"
proof -
  note parts = transfer_ready_parts [OF assms(1)] and start = transfer_inv_start [OF assms(1)]
  obtain s1 r where f: "finish am io p s0 = (s1, r)" by fastforce
  have "transfer_inv am p s0 s1"
    using finish_any [OF f, of p s0] start parts assms(1) by (auto simp: transfer_inv_def)
  then have inv: "transfer_inv am p s0 s" and settled: "\<exists>s' res. completePending am ios s = (s', res)
      \<and> (res = Inr () \<and> retired p s0 s' \<or> res = Inl (OwnRefused ''TRANSFER_PENDING'') \<and> checkpoint am p s0 s')"
    using transfers.history_keeps transfers.history_settles [of am p s0 s1 ios history] assms(2,3) by (simp_all add: s_def f)
  have "successor_owns am p x \<and> arrived p s0 x \<and> consumed p x" if "retired p s0 x \<or> checkpoint am p s0 x" for x
    using that rewritten_owner [OF _ parts(1)] by (auto simp: retired_def checkpoint_def committed_def)
  moreover have "retired p s0 x \<Longrightarrow> os_journal x = []" for x by (simp add: retired_def)
  ultimately show ?thesis using settled transfer_inv_carried [OF inv] by blast
qed

section \<open>Who may change an owner\<close>

definition same_records :: "own_store \<Rightarrow> own_store \<Rightarrow> bool" where
  "same_records s s' \<longleftrightarrow> os_handoff s' = os_handoff s \<and> os_claims s' = os_claims s"

lemma same_records_trans: "same_records s s1 \<Longrightarrow> same_records s1 s2 \<Longrightarrow> same_records s s2"
  by (simp add: same_records_def)

lemma write_journal_records: "write_journal am c p s = (s', r) \<Longrightarrow> same_records s s'"
  by (auto simp: write_journal_def Let_def same_records_def split: commit_outcome.splits)

lemma move_mailbox_records: "move_mailbox am io p s = (s', r) \<Longrightarrow> same_records s s'"
  by (auto simp: move_mailbox_def same_records_def dest!: write_journal_records split: if_splits prod.splits sum.splits)

lemma write_event_records: "write_transfer_event am io p n key s = (s', r) \<Longrightarrow> same_records s s'"
  by (auto simp: write_transfer_event_def same_records_def split: prod.splits sum.splits write_result.splits)

lemma retire_records: "retire_journal io p s = (s', r) \<Longrightarrow> same_records s s'"
  by (auto simp: retire_journal_def same_records_def split: if_splits prod.splits)

lemma with_mailboxes_section:
  assumes "with_mailboxes io keys f s = (s', Inr x)"
  shows "\<exists>s1. same_records s s1 \<and> f s1 = (s', Inr x)"
proof -
  obtain m where "f (s\<lparr>os_mail := m\<rparr>) = (s', Inr x)"
    using assms by (auto simp: with_mailboxes_def split: if_splits prod.splits sum.splits)
  then show ?thesis by (intro exI [of _ "s\<lparr>os_mail := m\<rparr>"]) (simp add: same_records_def)
qed

lemma own_then_Inr: "own_then r k = (s', Inr x) \<Longrightarrow> \<exists>s1. r = (s1, Inr ()) \<and> k s1 = (s', Inr x)"
  by (cases r; cases "snd r") (auto simp: own_then_def)

text \<open>A completed \<open>finish\<close> has rewritten every history and consumed the claim, whatever the store was.\<close>

lemma finish_done:
  assumes "finish am io p s = (s', Inr ())" and "distinct (map fst (tp_provenance p))"
  shows "rewritten p s s' \<and> consumed p s'"
proof -
  note run = assms(1) [unfolded finish_def]
  obtain s1 where s1: "consume_claim io p s = (s1, Inr ())" using own_then_Inr [OF run] by blast
  note run1 = run [unfolded s1 own_then_simps]
  obtain s2 where s2: "rewrite_provenance am io p s1 = (s2, Inr ())" using own_then_Inr [OF run1] by blast
  note run2 = run1 [unfolded s2 own_then_simps]
  obtain s3 where s3: "move_mailbox am io p s2 = (s3, Inr ())" using own_then_Inr [OF run2] by blast
  note run3 = run2 [unfolded s3 own_then_simps]
  obtain s4 where s4: "write_transfer_event am io p 0 (tp_fromKey p) s3 = (s4, Inr ())" using own_then_Inr [OF run3] by blast
  note run4 = run3 [unfolded s4 own_then_simps]
  obtain s5 where s5: "write_transfer_event am io p 1 (tp_toKey p) s4 = (s5, Inr ())" "retire_journal io p s5 = (s', Inr ())"
    using own_then_Inr [OF run4] by blast
  note steps = s1 s2 s3 s4 s5
  have after: "same_records s2 s'"
    using same_records_trans move_mailbox_records [OF steps(3)] write_event_records [OF steps(4)] write_event_records [OF steps(5)]
      retire_records [OF steps(6)] by blast
  from consume_claim_any [OF steps(1)] have c: "os_handoff s1 = os_handoff s" "consumed p s1" by auto
  obtain h where w: "write_owners am (oi_handoff io) (tp_provenance p) (os_handoff s1) = (h, Inr ())" "s2 = s1\<lparr>os_handoff := h\<rparr>"
    using steps(2) by (auto simp: rewrite_provenance_def split: prod.splits sum.splits)
  have "rewritten p s s2" using write_owners_any [OF w(1) assms(2)] c(1) w(2) by (simp add: rewritten_def)
  then show ?thesis using after c(2) w(2) by (simp add: rewritten_def consumed_def same_records_def split: option.splits)
qed

lemma read_all_provenance_Inr:
  "read_all_provenance io h rs = Inr ps \<Longrightarrow> list_all2 (\<lambda>r p. stored h r = Inr p) rs ps"
proof (induction rs arbitrary: ps)
  case (Cons r rs)
  then obtain p ps' where "bind_result (openIn io r) (\<lambda>_. readHandoffProvenance io r h) = Inr p" "read_all_provenance io h rs = Inr ps'"
    "ps = p # ps'" by (auto simp: bind_result_eq_Inr_conv split: sum.splits)
  then show ?case using Cons.IH read_stored by (auto simp: bind_result_eq_Inr_conv)
qed simp

lemma owner_absent_Inr:
  "owner_absent am sn prior ps = Inr () \<Longrightarrow> p \<in> set ps \<Longrightarrow> resolveManagerSession sn (id_of ''pane_id'' p) = Inr (Some x) \<Longrightarrow>
   \<not> same_key am x prior"
  by (induction ps) (auto split: sum.splits option.splits if_splits)

lemma journal_plan_Inr:
  assumes "journal_plan am io p s = (s', Inr plan)"
  shows "plan = p \<and> isTransferRecord am (plan_json plan) \<and> (\<exists>s1. same_records s s1 \<and> finish am io plan s1 = (s', Inr ()))"
proof -
  have run: "own_then (write_journal am (oi_journal io 0) p s) (\<lambda>s1. own_then (finish am io p s1) (\<lambda>s2. (s2, Inr p))) = (s', Inr plan)"
    and accepted: "isTransferRecord am (plan_json p)"
    using assms by (auto simp: journal_plan_def split: if_splits)
  from own_then_Inr [OF run] obtain s1 where w: "write_journal am (oi_journal io 0) p s = (s1, Inr ())"
    and rest: "own_then (finish am io p s1) (\<lambda>s2. (s2, Inr p)) = (s', Inr plan)" by (elim exE conjE)
  from own_then_Inr [OF rest] show ?thesis using accepted write_journal_records [OF w] by auto
qed

text \<open>Everything \<open>change_locked\<close> has checked when it succeeds.\<close>

lemma change_locked_Inr:
  assumes "change_locked am io env input s = (s', Inr plan)" and "list_all run_id_shape (ch_runIds input)"
  obtains sn caller records prior s1 where "cv_snapshot env = Some sn"
    "verify_caller am sn (ch_paneId input) (ch_session input) = Inr caller"
    "read_all_provenance (oi_handoff io) (os_handoff s) (ch_runIds input) = Inr records"
    "common_owner am records = Some prior"
    "successor_session sn (if ch_incidentId input \<noteq> None then ch_paneId input else the (ch_successorPaneId input)) = Inr (tp_successor plan)"
    "authorize am io sn input caller prior s = Inr ()" "\<not> same_key am (tp_successor plan) prior"
    "tp_prior plan = prior" "tp_runIds plan = ch_runIds input" "tp_incident plan = ch_incidentId input"
    "isTransferRecord am (plan_json plan)" "same_records s s1" "finish am io plan s1 = (s', Inr ())"
proof -
  let ?claiming = "ch_incidentId input \<noteq> None"
  let ?pane = "if ?claiming then ch_paneId input else the (ch_successorPaneId input)"
  note run = assms(1) [unfolded change_locked_def Let_def]
  obtain sn where sn: "cv_snapshot env = Some sn" using run by (cases "cv_snapshot env") simp_all
  obtain caller where caller: "verify_caller am sn (ch_paneId input) (ch_session input) = Inr caller"
    using run sn by (cases "verify_caller am sn (ch_paneId input) (ch_session input)") simp_all
  obtain records where records: "read_all_provenance (oi_handoff io) (os_handoff s) (ch_runIds input) = Inr records"
    using run sn caller by (cases "read_all_provenance (oi_handoff io) (os_handoff s) (ch_runIds input)") simp_all
  obtain prior where prior: "common_owner am records = Some prior"
    using run sn caller records by (cases "common_owner am records") simp_all
  obtain target where target: "successor_session sn ?pane = Inr target"
    using run sn caller records prior by (cases "successor_session sn ?pane") simp_all
  obtain u where auth: "authorize am io sn input caller prior s = Inr u"
    using run sn caller records prior target by (cases "authorize am io sn input caller prior s") simp_all
  have other: "\<not> same_key am target prior" using run sn caller records prior target auth by (simp split: if_splits)
  note run2 = run [unfolded sn option.case caller sum.case records prior target auth if_not_P [OF other]]
  obtain fromKey toKey where keys: "managerSessionKey am prior = Inr fromKey" "managerSessionKey am target = Inr toKey"
    using run2 by (auto split: sum.splits)
  obtain i intents where i: "list_intents am (oi_intent io) fromKey (os_intents s) = (i, Inr intents)"
    using run2 keys by (auto split: prod.splits sum.splits)
  have none: "\<not> list_ex (intent_blocks ?claiming (ch_runIds input)) intents"
    using run2 keys i by (auto split: if_splits)
  let ?plan = "build_plan env input prior ?pane target fromKey toKey records"
  have "with_mailboxes io [fromKey, toKey] (\<lambda>s2. case locked_list (oi_mail io 0) [fromKey, toKey] fromKey (os_mail s2) of
            Inl e \<Rightarrow> (s2, Inl (OwnMail e)) | Inr unread \<Rightarrow> journal_plan am io (?plan unread) s2) (s\<lparr>os_intents := i\<rparr>) = (s', Inr plan)"
    using run2 keys i none by simp
  from with_mailboxes_section [OF this] obtain s2 where s2: "same_records (s\<lparr>os_intents := i\<rparr>) s2" and sec: "(case locked_list (oi_mail io 0) [fromKey, toKey] fromKey (os_mail s2) of
            Inl e \<Rightarrow> (s2, Inl (OwnMail e)) | Inr unread \<Rightarrow> journal_plan am io (?plan unread) s2) = (s', Inr plan)"
    by (elim exE conjE)
  from sec obtain unread where journal: "journal_plan am io (?plan unread) s2 = (s', Inr plan)"
    by (cases "locked_list (oi_mail io 0) [fromKey, toKey] fromKey (os_mail s2)") auto
  from journal_plan_Inr [OF journal] obtain s3 where done': "plan = ?plan unread" "isTransferRecord am (plan_json plan)"
      "same_records s2 s3" "finish am io plan s3 = (s', Inr ())" by blast
  have "same_records s s3" using s2 done'(3) by (simp add: same_records_def)
  moreover have "tp_successor plan = target" "tp_prior plan = prior" "tp_runIds plan = ch_runIds input" "tp_incident plan = ch_incidentId input"
    by (simp_all add: done'(1) build_plan_def)
  ultimately show thesis using that [OF sn caller records prior] target auth other done'(2,4) by simp
qed

text \<open>The runs a caller may move: all are owned by the session \<open>prior\<close> in the records the code reads.\<close>

definition owned_by :: "ambient \<Rightarrow> handoff_store \<Rightarrow> string list \<Rightarrow> agent_session \<Rightarrow> bool" where
  "owned_by am h rs prior \<longleftrightarrow> (\<forall>r \<in> set rs. \<exists>pv x. stored h r = Inr pv \<and> currentHandoffOwner pv = Some x \<and> same_key am x prior)"

lemma common_owner_owned:
  assumes "read_all_provenance io h rs = Inr ps" and "common_owner am ps = Some prior"
  shows "owned_by am h rs prior"
  unfolding owned_by_def
proof
  fix r assume r: "r \<in> set rs"
  note all = read_all_provenance_Inr [OF assms(1)]
  obtain i where i: "i < length rs" "rs ! i = r" using r by (auto simp: in_set_conv_nth)
  obtain pv where pv: "stored h r = Inr pv" "pv \<in> set ps"
    using list_all2_nthD [OF all i(1)] i list_all2_lengthD [OF all] by auto
  have "case currentHandoffOwner pv of None \<Rightarrow> False | Some x \<Rightarrow> same_key am x prior"
    using assms(2) pv(2) by (auto simp: common_owner_def list_all_iff split: option.splits if_splits)
  then show "\<exists>pv x. stored h r = Inr pv \<and> currentHandoffOwner pv = Some x \<and> same_key am x prior"
    using pv(1) by (auto split: option.splits)
qed

text \<open>An instruction to claim: readable, for exactly these runs, from this prior owner to this caller.\<close>

definition instructed :: "ambient \<Rightarrow> own_store \<Rightarrow> string \<Rightarrow> agent_session \<Rightarrow> agent_session \<Rightarrow> string list \<Rightarrow> bool" where
  "instructed am s incident prior caller rs \<longleftrightarrow> (\<exists>f v. map_of (os_claims s) (json_name incident) = Some f \<and> sc_trusted f
     \<and> sc_value f = Some v \<and> claim_instructs am v prior caller rs)"

definition present :: "ambient \<Rightarrow> snapshot \<Rightarrow> agent_session \<Rightarrow> bool" where
  "present am sn prior \<longleftrightarrow> (\<exists>p \<in> set (sn_panes sn). \<exists>x. resolveManagerSession sn (id_of ''pane_id'' p) = Inr (Some x) \<and> same_key am x prior)"

lemma authorize_claim:
  "authorize am io sn input caller prior s = Inr () \<Longrightarrow> ch_incidentId input = Some i \<Longrightarrow>
   instructed am s i prior caller (ch_runIds input) \<and> \<not> present am sn prior"
  using owner_absent_Inr [of am sn prior "sn_panes sn"]
  by (auto simp: authorize_def instructed_def present_def readRecord_def split: if_splits option.splits sum.splits)

text \<open>
  C32. Only the owner, or an instructed successor of an absent owner, changes who owns a run: when a transfer
  or a claim succeeds, the caller's pane carries the session the caller presented, every run was owned
  by one prior session, which is not the successor; in a transfer the caller is that prior owner and
  the successor is the session of the named pane; in a claim the caller is itself the successor, a
  recorded instruction names exactly these runs, this prior owner and this caller, no live pane
  carries the prior owner, and the instruction is gone afterwards. Every run is then owned by the
  successor.
\<close>

theorem change_owner_authorized:
  assumes "change_owner am ios env input s = (s', Inr plan)"
  shows "\<exists>sn s1 caller. cv_snapshot env = Some sn
     \<and> replayPending am ios (s\<lparr>os_root := Some True\<rparr>) = (s1, Inr ())
     \<and> resolveManagerSession sn (ch_paneId input) = Inr (Some caller) \<and> same_key am caller (ch_session input)
     \<and> owned_by am (os_handoff s1) (ch_runIds input) (tp_prior plan) \<and> \<not> same_key am (tp_successor plan) (tp_prior plan)
     \<and> (case ch_incidentId input of
          None \<Rightarrow> same_key am caller (tp_prior plan)
            \<and> resolveManagerSession sn (the (ch_successorPaneId input)) = Inr (Some (tp_successor plan))
        | Some i \<Rightarrow> tp_successor plan = caller \<and> instructed am s1 i (tp_prior plan) caller (ch_runIds input)
            \<and> \<not> present am sn (tp_prior plan) \<and> map_of (os_claims s') (json_name i) = None)
     \<and> owned_by am (os_handoff s') (ch_runIds input) (tp_successor plan)"
proof -
  have runs: "valid_runs (ch_runIds input)" and dirs: "oi_dirs (ios 0)" using assms by (auto simp: change_owner_def serialized_def split: if_splits)
  let ?s = "s\<lparr>os_root := Some True\<rparr>"
  have root: "Some (case os_root s of None \<Rightarrow> True | Some b \<Rightarrow> b) = Some True" using assms runs dirs
    by (auto simp: change_owner_def serialized_def Let_def split: if_splits)
  have run: "own_then (replayPending am ios ?s) (\<lambda>s2. case withRuns (oi_handoff (ios 0)) (sort (ch_runIds input)) of
      Inl e \<Rightarrow> (s2, Inl e) | Inr _ \<Rightarrow> change_locked am (ios 0) env input s2) = (s', Inr plan)"
    using assms runs dirs root by (auto simp: change_owner_def serialized_def Let_def split: if_splits)
  from own_then_Inr [OF run] obtain s1 where replay: "replayPending am ios ?s = (s1, Inr ())"
    and rest: "(case withRuns (oi_handoff (ios 0)) (sort (ch_runIds input)) of
      Inl e \<Rightarrow> (s1, Inl e) | Inr _ \<Rightarrow> change_locked am (ios 0) env input s1) = (s', Inr plan)" by (elim exE conjE)
  have locked: "change_locked am (ios 0) env input s1 = (s', Inr plan)" using rest by (auto split: sum.splits)
  have shapes: "list_all run_id_shape (ch_runIds input)" using runs by (simp add: valid_runs_def)
  from change_locked_Inr [OF locked shapes] obtain sn caller records prior s2 where sn: "cv_snapshot env = Some sn"
    "verify_caller am sn (ch_paneId input) (ch_session input) = Inr caller"
    "read_all_provenance (oi_handoff (ios 0)) (os_handoff s1) (ch_runIds input) = Inr records" "common_owner am records = Some prior"
    "successor_session sn (if ch_incidentId input \<noteq> None then ch_paneId input else the (ch_successorPaneId input)) = Inr (tp_successor plan)"
    "authorize am (ios 0) sn input caller prior s1 = Inr ()" "\<not> same_key am (tp_successor plan) prior"
    "tp_prior plan = prior" "tp_runIds plan = ch_runIds input" "tp_incident plan = ch_incidentId input"
    "isTransferRecord am (plan_json plan)" "same_records s1 s2" "finish am (ios 0) plan s2 = (s', Inr ())" by blast
  note accepted = accepted_plan [OF sn(11)]
  have "distinct (map fst (tp_provenance plan))" using accepted(2,3) by simp
  from finish_done [OF sn(13) this] have fin: "rewritten plan s2 s'" "consumed plan s'" by blast+
  have caller: "resolveManagerSession sn (ch_paneId input) = Inr (Some caller)" "same_key am caller (ch_session input)"
    using sn(2) by (auto simp: verify_caller_def split: sum.splits option.splits if_splits)
  have target: "resolveManagerSession sn (if ch_incidentId input \<noteq> None then ch_paneId input else the (ch_successorPaneId input))
      = Inr (Some (tp_successor plan))"
    using sn(5) by (auto simp: successor_session_def split: sum.splits option.splits if_splits)
  have key: "managerSessionKey am (tp_successor plan) = Inr (tp_toKey plan)"
    using sn(11) by (auto simp: isTransferRecord_def session_key_def split: option.splits sum.splits)
  have after: "owned_by am (os_handoff s') (ch_runIds input) (tp_successor plan)"
    using rewritten_owner [OF fin(1) sn(11)] key sn(9) by (simp add: successor_owns_def owned_by_def same_key_def)
  have before: "owned_by am (os_handoff s1) (ch_runIds input) (tp_prior plan)" using common_owner_owned [OF sn(3,4)] sn(8) by simp
  have "case ch_incidentId input of
          None \<Rightarrow> same_key am caller (tp_prior plan)
            \<and> resolveManagerSession sn (the (ch_successorPaneId input)) = Inr (Some (tp_successor plan))
        | Some i \<Rightarrow> tp_successor plan = caller \<and> instructed am s1 i (tp_prior plan) caller (ch_runIds input)
            \<and> \<not> present am sn (tp_prior plan) \<and> map_of (os_claims s') (json_name i) = None"
  proof (cases "ch_incidentId input")
    case None
    then show ?thesis using target sn(6,8) by (auto simp: authorize_def split: if_splits)
  next
    case (Some i)
    then show ?thesis using target caller(1) authorize_claim [OF sn(6) Some] fin(2) sn(8,10) by (simp add: consumed_def)
  qed
  then show ?thesis using sn(1,7,8) replay caller before after by blast
qed

text \<open>A transfer to the caller's own pane passes every earlier check and is refused by the last one.\<close>

lemma self_transfer_refused_by_last_guard:
  assumes "cv_snapshot env = Some sn" and "ch_incidentId input = None" and "ch_successorPaneId input = Some (ch_paneId input)"
    and "verify_caller am sn (ch_paneId input) (ch_session input) = Inr caller" and "successor_session sn (ch_paneId input) = Inr caller"
    and "read_all_provenance (oi_handoff io) (os_handoff s) (ch_runIds input) = Inr records"
    and "common_owner am records = Some prior" and "same_key am caller prior"
  shows "authorize am io sn input caller prior s = Inr ()"
    and "change_locked am io env input s = (s, Inl (OwnRefused ''OWNER_MISMATCH''))"
  using assms by (simp_all add: change_locked_def Let_def authorize_def)

section \<open>A concrete transfer\<close>

definition own_ambient :: ambient where
  "own_ambient = \<lparr>am_sha256 = (\<lambda>s. if s = session_json example_session then key0 else key1), am_dateParse = (\<lambda>_. Some 0),
     am_iso = (\<lambda>_. ''2026-01-01T00:00:00.000Z''), am_numStr = (\<lambda>_. ''0'')\<rparr>"

definition next_session :: agent_session where
  "next_session = example_session\<lparr>as_value := ''s2''\<rparr>"

definition own_pane :: "string \<Rightarrow> agent_session \<Rightarrow> jsval" where
  "own_pane i s = JObj [(''pane_id'', JStr i), (''tab_id'', JStr ''b1''), (''workspace_id'', JStr ''w1''), (''agent_session'', session_value s)]"

definition own_snapshot :: snapshot where
  "own_snapshot = example_snapshot\<lparr>sn_panes := [own_pane ''p1'' example_session, own_pane ''p2'' next_session], sn_agents := []\<rparr>"

definition own_env :: change_env where
  "own_env = \<lparr>cv_snapshot = Some own_snapshot, cv_now = ''2026-01-02T00:00:00.000Z'', cv_transferId = ''00000000-0000-0000-0000-000000000002'',
     cv_uuid = (\<lambda>n. if n = 0 then ''00000000-0000-0000-0000-000000000003'' else ''00000000-0000-0000-0000-000000000004'')\<rparr>"

definition own_input :: change_input where
  "own_input = \<lparr>ch_paneId = ''p1'', ch_session = example_session, ch_runIds = [example_run], ch_successorPaneId = Some ''p2'', ch_incidentId = None\<rparr>"

definition own_start :: own_store where
  "own_start = \<lparr>os_handoff = one_run, os_mail = one_event, os_intents = empty_store, os_root = Some True, os_journal = [], os_done = [],
     os_claims = [], os_used = []\<rparr>"

definition own_calm :: own_io where
  "own_calm = \<lparr>oi_dirs = True, oi_lock = True, oi_handoff = calm_handoff, oi_intent = calm_io, oi_mail = (\<lambda>_. steady_io),
     oi_claim = Committed, oi_journal = (\<lambda>_. Committed), oi_retire = Committed, oi_retarget = True\<rparr>"

definition own_plan :: transfer_plan where
  "own_plan = build_plan own_env own_input example_session ''p2'' next_session key0 key1 [example_provenance] [event1]"

definition own_journaled :: own_store where
  "own_journaled = own_start\<lparr>os_journal := [(journal_name own_plan, written own_ambient (plan_json own_plan))]\<rparr>"

lemma own_calm_ok: "calm_own own_calm"
  using two_boxes_healthy(4) by (simp add: calm_own_def own_calm_def calm_handoff_def)

lemma own_plan_accepted:
  "isTransferRecord own_ambient (plan_json own_plan)" "\<not> tp_movesComplete own_plan" "list_all transfer_shape (tp_events own_plan)"
  "list_all (\<lambda>e. re_id e \<notin> set (plan_ids own_plan)) (tp_events own_plan)"
  "tp_fromKey own_plan = key0" "tp_toKey own_plan = key1"
  "list_all (\<lambda>e. json_name (re_id e) \<noteq> json_name event1) (tp_events own_plan)"
  "list_all (\<lambda>e. assertRunEventInput own_ambient e = Inr () \<and> event_id_shape (re_id e)) (tp_events own_plan)"
  by code_simp+

lemma own_plan_runs: "list_all (\<lambda>e. fst e = example_run \<and> stored one_run example_run = Inr example_provenance
   \<and> valid_provenance (hs_endpoint one_run) (fst e) (with_owners (snd e) example_provenance)) (tp_provenance own_plan)"
  by code_simp

lemma own_plan_sizes:
  "sc_bytes (written own_ambient (plan_json own_plan)) \<le> RECORD_MAX_BYTES"
  "sc_bytes (written own_ambient (plan_json (checkpointed own_plan))) \<le> RECORD_MAX_BYTES"
  "list_all (\<lambda>e. sc_bytes (written own_ambient (provenance_json (with_owners (snd e) example_provenance))) \<le> HANDOFF_PROVENANCE_MAX_BYTES)
     (tp_provenance own_plan)"
  "list_all (\<lambda>e. case serialize own_ambient (run_event_json e) of Inl _ \<Rightarrow> False | Inr _ \<Rightarrow> True) (tp_events own_plan)"
  by code_simp+

lemma own_transfer_ready: "transfer_ready own_ambient own_plan own_journaled"
proof -
  have ready: "event_ready own_ambient e" if e: "e \<in> set (tp_events own_plan)" for e
  proof -
    have "\<exists>p. serialize own_ambient (run_event_json e) = Inr p"
      using own_plan_sizes(4) e by (cases "serialize own_ambient (run_event_json e)") (auto simp: list_all_iff)
    then show ?thesis using own_plan_accepted(8) e by (simp add: event_ready_def list_all_iff)
  qed
  have writable: "plan_writable own_ambient own_plan own_journaled"
    unfolding plan_writable_def
  proof (intro conjI ballI)
    show "list_all (event_ready own_ambient) (tp_events own_plan)" using ready by (simp add: list_all_iff)
    fix e assume e: "e \<in> set (tp_provenance own_plan)"
    then show "\<exists>pv. stored (os_handoff own_journaled) (fst e) = Inr pv
        \<and> valid_provenance (hs_endpoint (os_handoff own_journaled)) (fst e) (with_owners (snd e) pv)
        \<and> sc_bytes (written own_ambient (provenance_json (with_owners (snd e) pv))) \<le> HANDOFF_PROVENANCE_MAX_BYTES"
      using own_plan_runs own_plan_sizes(3)
      by (intro exI [of _ example_provenance]) (auto simp: list_all_iff own_journaled_def own_start_def)
  qed
  have free: "map_of (unread_files one_event k) (json_name (re_id e)) = None \<and> map_of (acked_files one_event k) (json_name (re_id e)) = None"
    if "e \<in> set (tp_events own_plan)" for e k
    using that own_plan_accepted(7) by (auto simp: one_event_files list_all_iff)
  show ?thesis
    using writable own_plan_accepted own_plan_sizes(1,2) one_event_healthy one_event_wf free
    by (simp add: transfer_ready_def own_journaled_def own_start_def list_all_iff)
qed

lemma own_change_runs:
  "\<exists>s' plan. change_owner own_ambient (\<lambda>_. own_calm) own_env own_input own_start = (s', Inr plan)"
proof -
  have "case change_owner own_ambient (\<lambda>_. own_calm) own_env own_input own_start of (s, Inl e) \<Rightarrow> False | (s, Inr p) \<Rightarrow> True"
    by code_simp
  then show ?thesis by (auto split: prod.splits sum.splits)
qed

theorem transfer_survives_crashes_witness:
  "carried own_plan own_journaled (foldl (\<lambda>s ios. fst (completePending own_ambient ios s))
       (fst (finish own_ambient (own_calm\<lparr>oi_retarget := False\<rparr>) own_plan own_journaled)) [\<lambda>_. own_calm\<lparr>oi_lock := False\<rparr>])"
  by (rule conjunct1 [OF transfer_survives_crashes [OF own_transfer_ready, of "\<lambda>_. own_calm"]]) (simp_all add: own_calm_ok)

theorem change_owner_authorized_witness:
  "\<exists>s' plan. change_owner own_ambient (\<lambda>_. own_calm) own_env own_input own_start = (s', Inr plan)
     \<and> owned_by own_ambient (os_handoff s') [example_run] (tp_successor plan)"
proof -
  obtain s' plan where r: "change_owner own_ambient (\<lambda>_. own_calm) own_env own_input own_start = (s', Inr plan)"
    using own_change_runs by blast
  have "ch_runIds own_input = [example_run]" by (simp add: own_input_def)
  with r change_owner_authorized [OF r] show ?thesis by auto
qed

end
