(* ===== verification/Bounded_Text.thy ===== *)
theory Bounded_Text
  imports Sessions "HOL-Library.Sublist"
begin

text \<open>
  The byte-bounded texts of \<open>src/job-registry.ts\<close>: \<open>fitJsonString\<close> searches the longest prefix whose
  JSON form fits a byte limit by bisection, and \<open>boundedText\<close> applies it after the line-bounding
  \<open>truncateTail\<close> of the terminal library, which is an argument. On code units below 256
  \<open>Array.from(value)\<close> is the list of the code units.
\<close>

definition MAX_TEXT_LINES :: nat where
  "MAX_TEXT_LINES = 2000"

definition json_bytes :: "string \<Rightarrow> nat" where
  "json_bytes s = byte_length (json_string s)"

function fit_loop :: "string \<Rightarrow> nat \<Rightarrow> nat \<Rightarrow> nat \<Rightarrow> nat" where
  "fit_loop cs limit low high =
     (if low < high
      then let middle = (low + high + 1) div 2 in
           if json_bytes (take middle cs) \<le> limit then fit_loop cs limit middle high
           else fit_loop cs limit low (middle - 1)
      else low)"
  by pat_completeness auto
termination by (relation "measure (\<lambda>(cs, limit, low, high). high - low)") auto

declare fit_loop.simps [simp del]

definition fitJsonString :: "string \<Rightarrow> nat \<Rightarrow> string" where
  "fitJsonString s limit =
     (if json_bytes s \<le> limit then s else take (fit_loop s limit 0 (length s)) s)"

definition boundedText :: "(string \<Rightarrow> nat \<Rightarrow> nat \<Rightarrow> string) \<Rightarrow> string \<Rightarrow> nat \<Rightarrow> string" where
  "boundedText truncateTail s limit = fitJsonString (truncateTail s limit MAX_TEXT_LINES) (max 2 limit)"

section \<open>The bisection finds the longest prefix that fits\<close>

lemma byte_length_append [simp]: "byte_length (s @ t) = byte_length s + byte_length t"
  by (induction s) auto

lemma json_bytes_append: "json_bytes (s @ t) = json_bytes s + byte_length (concat (map json_escape t))"
  by (simp add: json_bytes_def json_string_def)

lemma json_bytes_Nil: "json_bytes [] = 2"
  by (simp add: json_bytes_def json_string_def)

lemma json_bytes_take_mono: "i \<le> j \<Longrightarrow> json_bytes (take i s) \<le> json_bytes (take j s)"
proof -
  assume "i \<le> j"
  then have "take j s = take i s @ take (j - i) (drop i s)"
    by (metis le_add_diff_inverse take_add)
  then show ?thesis by (simp only: json_bytes_append)
qed

text \<open>Below the result everything fits, above it nothing does.\<close>

lemma fit_loop_spec:
  assumes "low \<le> high" and "json_bytes (take low cs) \<le> limit"
    and "\<And>k. high < k \<Longrightarrow> k \<le> length cs \<Longrightarrow> limit < json_bytes (take k cs)"
  shows "let r = fit_loop cs limit low high in r \<le> high \<and> json_bytes (take r cs) \<le> limit
    \<and> (\<forall>k. r < k \<longrightarrow> k \<le> length cs \<longrightarrow> limit < json_bytes (take k cs))"
  using assms
proof (induction cs limit low high rule: fit_loop.induct)
  case (1 cs limit low high)
  let ?mid = "(low + high + 1) div 2"
  show ?case
  proof (cases "low < high")
    case False
    then have "fit_loop cs limit low high = low" by (simp add: fit_loop.simps [of cs limit low high])
    with False "1.prems" show ?thesis by (auto simp: Let_def)
  next
    case less: True
    show ?thesis
    proof (cases "json_bytes (take ?mid cs) \<le> limit")
      case True
      have "?mid \<le> high" using less by simp
      from "1.IH"(1) [OF less refl True this True "1.prems"(3)] True less show ?thesis
        by (simp add: fit_loop.simps [of cs limit low high])
    next
      case False
      have le: "low \<le> ?mid - 1" and hi: "?mid - 1 \<le> high" using less by simp_all
      have above: "limit < json_bytes (take k cs)" if "?mid - 1 < k" "k \<le> length cs" for k
      proof -
        have "?mid \<le> k" using that less by linarith
        then have "json_bytes (take ?mid cs) \<le> json_bytes (take k cs)" by (rule json_bytes_take_mono)
        with False show ?thesis by linarith
      qed
      from "1.IH"(2) [OF less refl False le "1.prems"(2) above] False less hi show ?thesis
        by (auto simp: fit_loop.simps [of cs limit low high] Let_def)
    qed
  qed
qed

lemma prefixes_take: "prefixes s = map (\<lambda>k. take k s) [0..<Suc (length s)]"
proof (induction s)
  case (Cons c s)
  have "prefixes (c # s) = [] # map ((#) c) (prefixes s)" by simp
  also have "\<dots> = [] # map (\<lambda>k. take (Suc k) (c # s)) [0..<Suc (length s)]" by (simp only: Cons map_map) (simp add: comp_def)
  also have "\<dots> = map (\<lambda>k. take k (c # s)) (0 # map Suc [0..<Suc (length s)])" by (simp add: comp_def del: upt_Suc)
  also have "0 # map Suc [0..<Suc (length s)] = [0..<Suc (length (c # s))]" by (simp only: map_Suc_upt upt_conv_Cons [symmetric]) (simp add: upt_conv_Cons del: upt_Suc)
  finally show ?case .
qed simp

lemma last_filter_upt:
  assumes "r < n" and "P r" and "\<And>k. r < k \<Longrightarrow> k < n \<Longrightarrow> \<not> P k"
  shows "last (filter P [0..<n]) = r"
proof -
  have split: "[0..<n] = [0..<r] @ r # [Suc r..<n]"
    using assms(1) upt_add_eq_append [of 0 r "n - r"] by (simp add: upt_conv_Cons)
  have "filter P [Suc r..<n] = []" using assms(3) by (auto simp: filter_empty_conv)
  with assms(2) show ?thesis by (simp add: split)
qed

lemma longest_prefix:
  assumes "r \<le> length s" and "json_bytes (take r s) \<le> limit"
    and "\<And>k. r < k \<Longrightarrow> k \<le> length s \<Longrightarrow> limit < json_bytes (take k s)"
  shows "last (filter (\<lambda>p. json_bytes p \<le> limit) (prefixes s)) = take r s"
proof -
  let ?P = "\<lambda>k. json_bytes (take k s) \<le> limit"
  have "r \<in> set (filter ?P [0..<Suc (length s)])" using assms(1,2) by (simp del: upt_Suc)
  then have "filter ?P [0..<Suc (length s)] \<noteq> []" by (metis empty_iff empty_set)
  moreover have "last (filter ?P [0..<Suc (length s)]) = r"
  proof (rule last_filter_upt)
    fix k assume "r < k" "k < Suc (length s)"
    then show "\<not> ?P k" using assms(3) [of k] by simp
  qed (use assms(1,2) in simp_all)
  ultimately show ?thesis by (simp add: prefixes_take filter_map comp_def last_map del: upt_Suc)
qed

text \<open>
  C40. The bisection of \<open>fitJsonString\<close> returns the longest prefix of the text whose JSON form is within the
  bound, and so the JSON form of a bounded text never exceeds its limit, whatever the truncation by lines
  returned.
\<close>

lemma fit_json_string_longest:
  assumes "2 \<le> limit"
  shows "fitJsonString s limit = last (filter (\<lambda>p. json_bytes p \<le> limit) (prefixes s))
    \<and> json_bytes (fitJsonString s limit) \<le> limit
    \<and> json_bytes (boundedText truncateTail t limit) \<le> limit"
proof -
  have longest: "fitJsonString u limit = last (filter (\<lambda>p. json_bytes p \<le> limit) (prefixes u))
    \<and> json_bytes (fitJsonString u limit) \<le> limit" for u
  proof (cases "json_bytes u \<le> limit")
    case True
    then show ?thesis using longest_prefix [of "length u" u limit] by (simp add: fitJsonString_def)
  next
    case False
    have zero: "json_bytes (take 0 u) \<le> limit" using assms by (simp add: json_bytes_Nil)
    have spec: "fit_loop u limit 0 (length u) \<le> length u"
        "json_bytes (take (fit_loop u limit 0 (length u)) u) \<le> limit"
        "\<And>k. fit_loop u limit 0 (length u) < k \<Longrightarrow> k \<le> length u \<Longrightarrow> limit < json_bytes (take k u)"
      using fit_loop_spec [of 0 "length u" u limit, OF _ zero] by (simp_all add: Let_def)
    from longest_prefix [OF spec] spec(2) False show ?thesis by (simp add: fitJsonString_def)
  qed
  have "boundedText truncateTail t limit = fitJsonString (truncateTail t limit MAX_TEXT_LINES) limit"
    using assms by (simp add: boundedText_def)
  then show ?thesis using longest by metis
qed

lemma fit_json_string_longest_witness:
  "fitJsonString [CHR ''a'', CHR 0x22, CHR ''b''] 5
     = last (filter (\<lambda>p. json_bytes p \<le> 5) (prefixes [CHR ''a'', CHR 0x22, CHR ''b'']))
   \<and> fitJsonString [CHR ''a'', CHR 0x22, CHR ''b''] 5 = [CHR ''a'', CHR 0x22]
   \<and> fitJsonString [CHR ''a'', CHR 0x22, CHR ''b''] 4 = [CHR ''a'']"
proof -
  have "fitJsonString [CHR ''a'', CHR 0x22, CHR ''b''] 5 = [CHR ''a'', CHR 0x22]"
    and "fitJsonString [CHR ''a'', CHR 0x22, CHR ''b''] 4 = [CHR ''a'']" by code_simp+
  then show ?thesis using fit_json_string_longest [of 5 "[CHR ''a'', CHR 0x22, CHR ''b'']"] by simp
qed

end
