(* ===== verification/Supervision_Events.thy ===== *)
theory Supervision_Events
  imports Bounded_Text
begin

text \<open>
  The material-event log and the bounded histories of \<open>src/supervision/events.ts\<close>. The log keeps the
  newest 48 events with an observed mark and hands out the oldest unobserved ones, at most 16 at a
  time; \<open>boundedText\<close> is an argument, because the line bounding below it is not this program's code. An
  event identifier is the value the identifier factory returned.
\<close>

section \<open>Event types\<close>

datatype sup_status = StIdle | StWorking | StBlocked | StDone | StUnknown

datatype event_type =
    EvWorkCycleCompleted | EvProviderLimit | EvBlocked | EvReviewerAttention | EvReviewerDegraded
  | EvReviewerRecovered | EvIdentityReplaced | EvIdentityLost | EvReleased | EvPaneClosed
  | EvMonitorDegraded | EvMonitorRecovered | EvReconciliationDegraded | EvReconciliationRecovered
  | EvEvidenceGap

datatype event_priority = NormalPriority | HighPriority

datatype reconciliation_failure =
    RfConnectFailed | RfRequestFailed | RfSnapshotProtocolInvalid | RfDuplicateTargetPane
  | RfDuplicateTargetAgent | RfOrphanTargetAgent | RfTargetIdentityContradiction
  | RfTargetRecordMalformed | RfRevisionRegressed

definition status_name :: "sup_status \<Rightarrow> string" where
  "status_name st = (case st of StIdle \<Rightarrow> ''idle'' | StWorking \<Rightarrow> ''working'' | StBlocked \<Rightarrow> ''blocked''
     | StDone \<Rightarrow> ''done'' | StUnknown \<Rightarrow> ''unknown'')"

definition SUPERVISION_AGENT_STATUSES :: "sup_status list" where
  "SUPERVISION_AGENT_STATUSES = [StIdle, StWorking, StBlocked, StDone, StUnknown]"

definition status_of :: "string \<Rightarrow> sup_status option" where
  "status_of s = find (\<lambda>st. status_name st = s) SUPERVISION_AGENT_STATUSES"

definition event_name :: "event_type \<Rightarrow> string" where
  "event_name t = (case t of EvWorkCycleCompleted \<Rightarrow> ''work_cycle_completed'' | EvProviderLimit \<Rightarrow> ''provider_limit''
     | EvBlocked \<Rightarrow> ''blocked'' | EvReviewerAttention \<Rightarrow> ''reviewer_attention''
     | EvReviewerDegraded \<Rightarrow> ''reviewer_degraded'' | EvReviewerRecovered \<Rightarrow> ''reviewer_recovered''
     | EvIdentityReplaced \<Rightarrow> ''identity_replaced'' | EvIdentityLost \<Rightarrow> ''identity_lost''
     | EvReleased \<Rightarrow> ''released'' | EvPaneClosed \<Rightarrow> ''pane_closed'' | EvMonitorDegraded \<Rightarrow> ''monitor_degraded''
     | EvMonitorRecovered \<Rightarrow> ''monitor_recovered'' | EvReconciliationDegraded \<Rightarrow> ''reconciliation_degraded''
     | EvReconciliationRecovered \<Rightarrow> ''reconciliation_recovered'' | EvEvidenceGap \<Rightarrow> ''evidence_gap'')"

definition failure_name :: "reconciliation_failure \<Rightarrow> string" where
  "failure_name r = (case r of RfConnectFailed \<Rightarrow> ''connect_failed'' | RfRequestFailed \<Rightarrow> ''request_failed''
     | RfSnapshotProtocolInvalid \<Rightarrow> ''snapshot_protocol_invalid'' | RfDuplicateTargetPane \<Rightarrow> ''duplicate_target_pane''
     | RfDuplicateTargetAgent \<Rightarrow> ''duplicate_target_agent'' | RfOrphanTargetAgent \<Rightarrow> ''orphan_target_agent''
     | RfTargetIdentityContradiction \<Rightarrow> ''target_identity_contradiction''
     | RfTargetRecordMalformed \<Rightarrow> ''target_record_malformed'' | RfRevisionRegressed \<Rightarrow> ''revision_regressed'')"

definition isSettlingEvent :: "event_type \<Rightarrow> bool" where
  "isSettlingEvent t \<longleftrightarrow> t \<in> {EvIdentityReplaced, EvIdentityLost, EvReleased, EvPaneClosed}"

definition eventPriority :: "event_type \<Rightarrow> event_priority" where
  "eventPriority t =
     (if t \<in> {EvProviderLimit, EvBlocked, EvReviewerAttention, EvIdentityReplaced, EvIdentityLost, EvEvidenceGap}
      then HighPriority else NormalPriority)"

definition materialTransitionEvent :: "sup_status \<Rightarrow> sup_status \<Rightarrow> event_type option" where
  "materialTransitionEvent st st' =
     (if st' = StBlocked then Some EvBlocked
      else if st' = StDone \<or> (st = StWorking \<and> st' = StIdle) then Some EvWorkCycleCompleted
      else None)"

definition SUPERVISION_MAX_EVENTS :: nat where "SUPERVISION_MAX_EVENTS = 48"
definition SUPERVISION_MAX_TRANSITIONS :: nat where "SUPERVISION_MAX_TRANSITIONS = 64"
definition SUPERVISION_MAX_REVIEWS :: nat where "SUPERVISION_MAX_REVIEWS = 24"
definition SUPERVISION_MAX_RETURNED_EVENTS :: nat where "SUPERVISION_MAX_RETURNED_EVENTS = 16"

section \<open>Events\<close>

datatype detail = DetStr string | DetNum int | DetBool bool

record sup_event =
  se_eventId :: string
  se_atMs :: int
  se_type :: event_type
  se_priority :: event_priority
  se_summary :: string
  se_details :: "(string \<times> detail) list option"

datatype event_id_error = SUPERVISION_EVENT_ID_INVALID

definition createSupervisionEventId :: "string \<Rightarrow> (event_id_error, string) result" where
  "createSupervisionEventId v = (if usable v then Inr (''sev_'' @ v) else Inl SUPERVISION_EVENT_ID_INVALID)"

definition boundedDetails :: "(string \<Rightarrow> nat \<Rightarrow> string) \<Rightarrow> (string \<times> detail) list \<Rightarrow> (string \<times> detail) list" where
  "boundedDetails bounded ds =
     foldl (\<lambda>acc d. al_put (bounded (fst d) 64) (case snd d of DetStr s \<Rightarrow> DetStr (bounded s 256) | v \<Rightarrow> v) acc) [] ds"

definition make_event :: "(string \<Rightarrow> nat \<Rightarrow> string) \<Rightarrow> string \<Rightarrow> event_type \<Rightarrow> int \<Rightarrow> string \<Rightarrow>
    (string \<times> detail) list option \<Rightarrow> sup_event" where
  "make_event bounded eventId t atMs summary details =
     \<lparr>se_eventId = eventId, se_atMs = atMs, se_type = t, se_priority = eventPriority t,
      se_summary = bounded summary 500, se_details = map_option (boundedDetails bounded) details\<rparr>"

section \<open>The log\<close>

record logged_event =
  le_event :: sup_event
  le_observed :: bool

record event_log =
  el_events :: "logged_event list"
  el_truncated :: nat

definition empty_log :: event_log where
  "empty_log = \<lparr>el_events = [], el_truncated = 0\<rparr>"

text \<open>\<open>while (list.length > limit) { list.shift(); dropped += 1; }\<close>\<close>

fun evict :: "nat \<Rightarrow> 'a list \<Rightarrow> nat \<Rightarrow> 'a list \<times> nat" where
  "evict limit [] dropped = ([], dropped)"
| "evict limit (x # xs) dropped =
     (if limit < length (x # xs) then evict limit xs (dropped + 1) else (x # xs, dropped))"

definition log_push :: "sup_event \<Rightarrow> event_log \<Rightarrow> event_log" where
  "log_push e lg =
     (let (kept, dropped) = evict SUPERVISION_MAX_EVENTS (el_events lg @ [\<lparr>le_event = e, le_observed = False\<rparr>]) (el_truncated lg)
      in \<lparr>el_events = kept, el_truncated = dropped\<rparr>)"

definition record_event :: "(string \<Rightarrow> nat \<Rightarrow> string) \<Rightarrow> string \<Rightarrow> event_type \<Rightarrow> int \<Rightarrow> string \<Rightarrow>
    (string \<times> detail) list option \<Rightarrow> event_log \<Rightarrow> (event_id_error, sup_event \<times> event_log) result" where
  "record_event bounded factory_value t atMs summary details lg =
     bind_result (createSupervisionEventId factory_value) (\<lambda>eventId.
       let e = make_event bounded eventId t atMs summary details in Inr (e, log_push e lg))"

text \<open>The loop of \<open>pending\<close>: the limit is checked after a selection.\<close>

fun pending_loop :: "nat \<Rightarrow> logged_event list \<Rightarrow> sup_event list \<Rightarrow> sup_event list" where
  "pending_loop limit [] selected = selected"
| "pending_loop limit (e # es) selected =
     (if le_observed e then pending_loop limit es selected
      else let selected' = selected @ [le_event e] in
        if limit \<le> length selected' then selected' else pending_loop limit es selected')"

definition log_pending :: "event_log \<Rightarrow> nat \<Rightarrow> sup_event list" where
  "log_pending lg limit = pending_loop limit (el_events lg) []"

definition mark_observed :: "string list \<Rightarrow> logged_event list \<Rightarrow> logged_event list" where
  "mark_observed ids es =
     map (\<lambda>e. if se_eventId (le_event e) \<in> set ids then e\<lparr>le_observed := True\<rparr> else e) es"

definition markObserved :: "string list \<Rightarrow> event_log \<Rightarrow> event_log" where
  "markObserved ids lg = lg\<lparr>el_events := mark_observed ids (el_events lg)\<rparr>"

definition log_unobserved :: "event_log \<Rightarrow> nat" where
  "log_unobserved lg = length (filter (\<lambda>e. \<not> le_observed e) (el_events lg))"

definition log_history :: "event_log \<Rightarrow> sup_event list" where
  "log_history lg = map le_event (el_events lg)"

text \<open>\<open>takePendingEvents\<close> of the supervisor: the pending events, marked as observed.\<close>

definition take_pending :: "event_log \<Rightarrow> sup_event list \<times> event_log" where
  "take_pending lg =
     (let selected = log_pending lg SUPERVISION_MAX_RETURNED_EVENTS
      in (selected, markObserved (map se_eventId selected) lg))"

section \<open>Bounded histories\<close>

record 'a bounded_history =
  bh_limit :: nat
  bh_items :: "'a list"
  bh_dropped :: nat

definition empty_history :: "nat \<Rightarrow> 'a bounded_history" where
  "empty_history limit = \<lparr>bh_limit = limit, bh_items = [], bh_dropped = 0\<rparr>"

definition history_push :: "'a \<Rightarrow> 'a bounded_history \<Rightarrow> 'a bounded_history" where
  "history_push x h =
     (let (kept, dropped) = evict (bh_limit h) (bh_items h @ [x]) (bh_dropped h)
      in h\<lparr>bh_items := kept, bh_dropped := dropped\<rparr>)"

definition history_last :: "'a bounded_history \<Rightarrow> 'a option" where
  "history_last h = (if bh_items h = [] then None else Some (last (bh_items h)))"

section \<open>Names\<close>

lemma status_of_name [simp]: "status_of (status_name st) = Some st"
  by (cases st) (simp_all add: status_of_def status_name_def SUPERVISION_AGENT_STATUSES_def)

lemma status_of_Some: "status_of s = Some st \<longleftrightarrow> s = status_name st"
proof
  assume "status_of s = Some st"
  then show "s = status_name st" by (auto simp: status_of_def find_Some_iff)
qed simp

section \<open>Eviction keeps the newest entries\<close>

lemma evict_eq: "evict limit xs dropped = (last_n limit xs, dropped + (length xs - limit))"
proof (induction limit xs dropped rule: evict.induct)
  case (2 limit x xs dropped)
  then show ?case
    by (auto simp: last_n_def Suc_diff_le)
qed simp

lemma log_push_eq:
  "log_push e lg = \<lparr>el_events = last_n SUPERVISION_MAX_EVENTS (el_events lg @ [\<lparr>le_event = e, le_observed = False\<rparr>]),
     el_truncated = el_truncated lg + (Suc (length (el_events lg)) - SUPERVISION_MAX_EVENTS)\<rparr>"
  by (simp add: log_push_def evict_eq)

lemma history_push_eq:
  "history_push x h = h\<lparr>bh_items := last_n (bh_limit h) (bh_items h @ [x]),
     bh_dropped := bh_dropped h + (Suc (length (bh_items h)) - bh_limit h)\<rparr>"
  by (simp add: history_push_def evict_eq)

end
