(* ===== verification/Supervision_Ledger.thy ===== *)
theory Supervision_Ledger
  imports Supervision_Events
begin

text \<open>
  What the bounded log and histories promise: they behave like an unbounded ledger of which only the
  newest entries are shown. The locale states a functional data refinement once; it is interpreted
  on the event log and on the bounded histories.
\<close>

section \<open>Functional data refinement\<close>

fun run_ops :: "('op \<Rightarrow> 's \<Rightarrow> 'out \<times> 's) \<Rightarrow> 'op list \<Rightarrow> 's \<Rightarrow> 'out list \<times> 's" where
  "run_ops step [] s = ([], s)"
| "run_ops step (p # ps) s =
     (let (y, s') = step p s; (ys, s'') = run_ops step ps s' in (y # ys, s''))"

lemma snd_run_ops_Cons [simp]: "snd (run_ops step (p # ps) s) = snd (run_ops step ps (snd (step p s)))"
  by (simp add: Let_def split: prod.splits)

lemma run_ops_snoc:
  "run_ops step (ps @ [p]) s =
     (let (ys, s') = run_ops step ps s; (y, s'') = step p s' in (ys @ [y], s''))"
  by (induction ps arbitrary: s) (auto simp: Let_def split: prod.splits)

locale data_refinement =
  fixes cstep :: "'op \<Rightarrow> 'c \<Rightarrow> 'out \<times> 'c"
    and astep :: "'op \<Rightarrow> 'a \<Rightarrow> 'out \<times> 'a"
    and shown :: "'a \<Rightarrow> 'c"
  assumes simulates: "cstep p (shown a) = (fst (astep p a), shown (snd (astep p a)))"
begin

lemma runs: "run_ops cstep ps (shown a) = (fst (run_ops astep ps a), shown (snd (run_ops astep ps a)))"
  by (induction ps arbitrary: a) (auto simp: Let_def simulates split: prod.splits)

end

section \<open>The event log and the ledger of all events\<close>

datatype log_op = LogRecord sup_event | LogMark "string list" | LogTake

fun log_step :: "log_op \<Rightarrow> event_log \<Rightarrow> sup_event list \<times> event_log" where
  "log_step (LogRecord e) lg = ([], log_push e lg)"
| "log_step (LogMark ids) lg = ([], markObserved ids lg)"
| "log_step LogTake lg = take_pending lg"

type_synonym ledger = "logged_event list"

definition ledger_window :: "ledger \<Rightarrow> ledger" where
  "ledger_window L = last_n SUPERVISION_MAX_EVENTS L"

definition ledger_due :: "ledger \<Rightarrow> sup_event list" where
  "ledger_due L = take SUPERVISION_MAX_RETURNED_EVENTS (map le_event (filter (\<lambda>e. \<not> le_observed e) (ledger_window L)))"

fun ledger_step :: "log_op \<Rightarrow> ledger \<Rightarrow> sup_event list \<times> ledger" where
  "ledger_step (LogRecord e) L = ([], L @ [\<lparr>le_event = e, le_observed = False\<rparr>])"
| "ledger_step (LogMark ids) L = ([], mark_observed ids L)"
| "ledger_step LogTake L = (ledger_due L, mark_observed (map se_eventId (ledger_due L)) L)"

definition log_of :: "ledger \<Rightarrow> event_log" where
  "log_of L = \<lparr>el_events = ledger_window L, el_truncated = length L - SUPERVISION_MAX_EVENTS\<rparr>"

fun recorded_events :: "log_op list \<Rightarrow> sup_event list" where
  "recorded_events [] = []"
| "recorded_events (LogRecord e # ps) = e # recorded_events ps"
| "recorded_events (p # ps) = recorded_events ps"

lemma pending_loop_eq:
  "length acc < limit \<Longrightarrow>
   pending_loop limit es acc = acc @ take (limit - length acc) (map le_event (filter (\<lambda>e. \<not> le_observed e) es))"
proof (induction es arbitrary: acc)
  case (Cons e es)
  show ?case
  proof (cases "le_observed e")
    case True
    then show ?thesis using Cons by simp
  next
    case False
    obtain k where k: "limit - length acc = Suc k" using Cons.prems by (cases "limit - length acc") auto
    show ?thesis
    proof (cases "limit \<le> Suc (length acc)")
      case True
      then have "k = 0" using k by simp
      with False True k show ?thesis by simp
    next
      case more: False
      have k2: "limit - Suc (length acc) = k" using k by simp
      from more Cons.IH [of "acc @ [le_event e]"] False k k2 show ?thesis by simp
    qed
  qed
qed simp

lemma mark_observed_last_n: "mark_observed ids (last_n n L) = last_n n (mark_observed ids L)"
  by (simp add: mark_observed_def last_n_def drop_map)

lemma length_mark_observed [simp]: "length (mark_observed ids L) = length L"
  by (simp add: mark_observed_def)

lemma events_mark_observed [simp]: "map le_event (mark_observed ids L) = map le_event L"
  by (simp add: mark_observed_def)

lemma take_pending_log_of:
  "take_pending (log_of L) = (ledger_due L, log_of (mark_observed (map se_eventId (ledger_due L)) L))"
  by (simp add: take_pending_def log_pending_def pending_loop_eq log_of_def ledger_due_def markObserved_def
      ledger_window_def mark_observed_last_n SUPERVISION_MAX_RETURNED_EVENTS_def Let_def)

interpretation event_log: data_refinement log_step ledger_step log_of
proof
  fix p L
  show "log_step p (log_of L) = (fst (ledger_step p L), log_of (snd (ledger_step p L)))"
  proof (cases p)
    case (LogRecord e)
    then show ?thesis
      by (simp add: log_push_eq log_of_def ledger_window_def last_n_snoc)
  next
    case (LogMark ids)
    then show ?thesis by (simp add: log_of_def ledger_window_def markObserved_def mark_observed_last_n)
  qed (simp add: take_pending_log_of)
qed

section \<open>Bounded histories\<close>

definition newest :: "nat \<Rightarrow> 'a list \<Rightarrow> 'a bounded_history" where
  "newest limit xs = \<lparr>bh_limit = limit, bh_items = last_n limit xs, bh_dropped = length xs - limit\<rparr>"

interpretation history: data_refinement "\<lambda>x h. ((), history_push x h)" "\<lambda>x xs. ((), xs @ [x])" "newest limit"
  for limit :: nat
  by unfold_locales (simp add: newest_def history_push_eq last_n_snoc)

lemma run_append: "snd (run_ops (\<lambda>x xs. ((), xs @ [x])) xs ys) = ys @ xs"
  by (induction xs arbitrary: ys) (simp_all del: run_ops.simps(2))

lemma empty_history_newest: "empty_history limit = newest limit []"
  by (simp add: empty_history_def newest_def last_n_def)

lemma history_is_newest: "foldl (\<lambda>h x. history_push x h) (empty_history limit) xs = newest limit xs"
proof -
  have run: "foldl (\<lambda>h x. history_push x h) h xs = snd (run_ops (\<lambda>x h. ((), history_push x h)) xs h)" for h
    by (induction xs arbitrary: h) (simp_all del: run_ops.simps(2))
  show ?thesis using history.runs [of xs limit "[]"] by (simp add: run run_append empty_history_newest)
qed

section \<open>What is handed out\<close>

text \<open>The first \<open>n\<close> entries of the ledger are dealt with: those still in the window are observed.\<close>

definition dealt :: "nat \<Rightarrow> ledger \<Rightarrow> bool" where
  "dealt n L \<longleftrightarrow> n \<le> length L \<and> filter (\<lambda>e. \<not> le_observed e) (drop (length L - SUPERVISION_MAX_EVENTS) (take n L)) = []"

lemma take_filter: "\<exists>j \<le> length xs. take k (filter P xs) = filter P (take j xs)"
proof (induction xs arbitrary: k)
  case (Cons x xs)
  show ?case
  proof (cases "P x \<and> k = 0")
    case True
    then show ?thesis by (intro exI [of _ 0]) simp
  next
    case False
    obtain j where "j \<le> length xs" "take (if P x then k - 1 else k) (filter P xs) = filter P (take j xs)"
      using Cons by blast
    then show ?thesis using False by (intro exI [of _ "Suc j"]) (cases k; auto)
  qed
qed simp

lemma mark_observed_filter:
  "filter (\<lambda>e. \<not> le_observed e) xs = [] \<Longrightarrow> filter (\<lambda>e. \<not> le_observed e) (mark_observed ids xs) = []"
  by (auto simp: mark_observed_def filter_empty_conv)

lemma mark_observed_taken:
  "filter (\<lambda>e. \<not> le_observed e) (mark_observed (map se_eventId (map le_event (filter (\<lambda>e. \<not> le_observed e) xs))) xs) = []"
  by (auto simp: mark_observed_def filter_empty_conv image_iff)

lemma dealt_record: "dealt n L \<Longrightarrow> dealt n (L @ [e])"
proof -
  assume a: "dealt n L"
  let ?d = "length L - SUPERVISION_MAX_EVENTS"
  have "?d \<le> Suc (length L) - SUPERVISION_MAX_EVENTS" by simp
  then have "drop (Suc (length L) - SUPERVISION_MAX_EVENTS) (take n L)
      = drop (Suc (length L) - SUPERVISION_MAX_EVENTS - ?d) (drop ?d (take n L))"
    by (simp only: drop_drop le_add_diff_inverse2)
  then have "set (drop (Suc (length L) - SUPERVISION_MAX_EVENTS) (take n L)) \<subseteq> set (drop ?d (take n L))"
    by (metis set_drop_subset)
  with a show ?thesis by (auto simp: dealt_def filter_empty_conv)
qed

lemma mark_observed_drop_take: "drop d (take n (mark_observed ids L)) = mark_observed ids (drop d (take n L))"
  by (simp add: mark_observed_def drop_map take_map)

lemma dealt_mark: "dealt n L \<Longrightarrow> dealt n (mark_observed ids L)"
  by (simp add: dealt_def mark_observed_drop_take mark_observed_filter)

lemma dealt_take:
  assumes "dealt n L" and "subseq outs (map le_event (take n L))"
  shows "\<exists>n'. dealt n' (snd (ledger_step LogTake L))
    \<and> subseq (outs @ fst (ledger_step LogTake L)) (map le_event (take n' L))"
proof -
  let ?d = "length L - SUPERVISION_MAX_EVENTS" and ?P = "\<lambda>e. \<not> le_observed e"
  obtain j where j: "j \<le> length (drop ?d L)"
      "take SUPERVISION_MAX_RETURNED_EVENTS (filter ?P (drop ?d L)) = filter ?P (take j (drop ?d L))"
    using take_filter by blast
  have due: "ledger_due L = map le_event (filter ?P (take j (drop ?d L)))"
    by (simp add: ledger_due_def ledger_window_def last_n_def take_map j(2))
  let ?L' = "mark_observed (map se_eventId (ledger_due L)) L"
  have part: "take j (drop ?d L) = drop ?d (take (?d + j) L)" by (simp add: take_drop add.commute)
  have done_j: "dealt (?d + j) ?L'" if "?d + j \<le> length L"
    using that mark_observed_taken [of "take j (drop ?d L)"]
    by (simp add: dealt_def mark_observed_drop_take due part del: map_map)
  have le: "?d + j \<le> length L" using j(1) by simp
  show ?thesis
  proof (cases "?d + j \<le> n")
    case True
    have "take (?d + j) L = take (?d + j) (take n L)" using True by (simp add: min_def)
    then have "set (drop ?d (take (?d + j) L)) \<subseteq> set (drop ?d (take n L))"
      by (metis drop_take set_take_subset)
    then have "filter ?P (take j (drop ?d L)) = []"
      using assms(1) by (auto simp: dealt_def filter_empty_conv part)
    then have none: "ledger_due L = []" by (simp add: due)
    then show ?thesis using dealt_mark [OF assms(1)] assms(2) by auto
  next
    case False
    have split: "take (?d + j) L = take n L @ drop n (take (?d + j) L)"
      using False by (metis append_take_drop_id min.absorb1 nat_le_linear take_take)
    have "filter ?P (drop ?d (take (?d + j) L)) = filter ?P (drop (?d - length (take n L)) (drop n (take (?d + j) L)))"
      using assms(1) by (subst split) (simp add: dealt_def)
    then have "subseq (map le_event (filter ?P (take j (drop ?d L)))) (map le_event (drop n (take (?d + j) L)))"
      unfolding part
      by (simp only:) (intro subseq_map, metis list_emb_append2 append_take_drop_id subseq_filter_left subseq_order.order_trans subseq_order.order_refl)
    then have "subseq (outs @ ledger_due L) (map le_event (take (?d + j) L))"
      by (subst split) (simp only: due map_append, intro list_emb_append_mono assms(2))
    then show ?thesis using done_j [OF le] by auto
  qed
qed

lemma ledger_deals:
  "\<exists>n. dealt n (snd (run_ops ledger_step ps []))
    \<and> subseq (concat (fst (run_ops ledger_step ps []))) (map le_event (take n (snd (run_ops ledger_step ps []))))"
proof (induction ps rule: rev_induct)
  case Nil
  then show ?case by (intro exI [of _ 0]) (simp add: dealt_def)
next
  case (snoc p ps)
  obtain ys L where run: "run_ops ledger_step ps [] = (ys, L)" by fastforce
  obtain n where n: "dealt n L" "subseq (concat ys) (map le_event (take n L))" using snoc run by auto
  then have nl: "n \<le> length L" by (simp add: dealt_def)
  show ?case
  proof (cases p)
    case (LogRecord e)
    then show ?thesis using n nl dealt_record [OF n(1)] by (intro exI [of _ n]) (simp add: run_ops_snoc run)
  next
    case (LogMark ids)
    have "map le_event (take n (mark_observed ids L)) = map le_event (take n L)"
      by (simp add: take_map [symmetric])
    with LogMark show ?thesis using n dealt_mark [OF n(1)] by (intro exI [of _ n]) (simp add: run_ops_snoc run)
  next
    case LogTake
    obtain n' where "dealt n' (snd (ledger_step LogTake L))"
        "subseq (concat ys @ fst (ledger_step LogTake L)) (map le_event (take n' L))"
      using dealt_take [OF n] by blast
    moreover have "map le_event (take n' (mark_observed ids L)) = map le_event (take n' L)" for ids
      by (simp add: take_map [symmetric])
    ultimately show ?thesis using LogTake by (intro exI [of _ n']) (simp add: run_ops_snoc run)
  qed
qed

lemma ledger_events: "map le_event (snd (run_ops ledger_step ps L)) = map le_event L @ recorded_events ps"
proof (induction ps arbitrary: L)
  case (Cons p ps)
  show ?case by (cases p) (simp_all add: Cons del: run_ops.simps(2))
qed simp

text \<open>
  C39. Refinement: over any sequence of records, receipts and reads, the bounded log of a supervisor returns
  exactly what the unbounded ledger of everything recorded and acknowledged returns, and its state is the
  ledger seen through the newest 48 events. The ledger holds every recorded event once, in order, and what
  the reads deal out to the manager is a subsequence of it: no event twice, none out of order.
\<close>

lemma event_log_refines_ledger:
  "run_ops log_step ps empty_log = (fst (run_ops ledger_step ps []), log_of (snd (run_ops ledger_step ps [])))
   \<and> map le_event (snd (run_ops ledger_step ps [])) = recorded_events ps
   \<and> subseq (concat (fst (run_ops log_step ps empty_log))) (recorded_events ps)"
proof -
  have "empty_log = log_of []" by (simp add: empty_log_def log_of_def ledger_window_def)
  then have run: "run_ops log_step ps empty_log
      = (fst (run_ops ledger_step ps []), log_of (snd (run_ops ledger_step ps [])))"
    using event_log.runs [of ps "[]"] by simp
  have events: "map le_event (snd (run_ops ledger_step ps [])) = recorded_events ps"
    by (simp add: ledger_events)
  obtain n where "subseq (concat (fst (run_ops ledger_step ps []))) (map le_event (take n (snd (run_ops ledger_step ps []))))"
    using ledger_deals by blast
  also have "subseq \<dots> (recorded_events ps)"
    by (metis events take_map append_take_drop_id prefixI prefix_imp_subseq)
  finally show ?thesis using run events by simp
qed

end
