(* ===== verification/Supervision_Protocol.thy ===== *)
theory Supervision_Protocol
  imports Supervision_Events Topology
begin

text \<open>
  The strict validation of what the multiplexer's event socket sends (\<open>src/supervision/protocol.ts\<close>): a
  line is a reply, a failure, one of five pane events or an ignored event, and everything else is a
  protocol error. \<open>JSON.parse\<close> is an argument; the names in an error are the fields it reports.
\<close>

section \<open>Values\<close>

datatype sup_protocol_error = SupervisionProtocolError string

definition SUPERVISION_MAX_LINE_BYTES :: nat where
  "SUPERVISION_MAX_LINE_BYTES = 262144"

definition PANE_EXIT_SIGNAL_MAX_CHARS :: nat where
  "PANE_EXIT_SIGNAL_MAX_CHARS = 64"

definition sup_required :: "string \<Rightarrow> jsval \<Rightarrow> (sup_protocol_error, string) result" where
  "sup_required field v =
     (case v of JStr s \<Rightarrow> if usable s then Inr s else Inl (SupervisionProtocolError field)
      | _ \<Rightarrow> Inl (SupervisionProtocolError field))"

definition sup_optional :: "jsval \<Rightarrow> string \<Rightarrow> (sup_protocol_error, string option) result" where
  "sup_optional v field =
     (if \<not> own v field \<or> absent_value (jget field v) then Inr None
      else bind_result (sup_required field (jget field v)) (\<lambda>s. Inr (Some s)))"

definition sup_counter :: "string \<Rightarrow> jsval \<Rightarrow> (sup_protocol_error, nat) result" where
  "sup_counter field v =
     (case safe_nat v of Some n \<Rightarrow> Inr n | None \<Rightarrow> Inl (SupervisionProtocolError field))"

definition parseAgentSession :: "jsval \<Rightarrow> (sup_protocol_error, agent_session) result" where
  "parseAgentSession v =
     (if \<not> is_record v then Inl (SupervisionProtocolError ''agent_session'')
      else bind_result (sup_required ''agent_session.source'' (jget ''source'' v)) (\<lambda>src.
           bind_result (sup_required ''agent_session.agent'' (jget ''agent'' v)) (\<lambda>agent.
           bind_result (sup_required ''agent_session.kind'' (jget ''kind'' v)) (\<lambda>kind.
           bind_result (sup_required ''agent_session.value'' (jget ''value'' v)) (\<lambda>val.
             Inr \<lparr>as_source = src, as_agent = agent, as_kind = kind, as_value = val\<rparr>)))))"

definition optionalAgentSession :: "jsval \<Rightarrow> (sup_protocol_error, agent_session option) result" where
  "optionalAgentSession v =
     (if \<not> own v ''agent_session'' \<or> absent_value (jget ''agent_session'' v) then Inr None
      else bind_result (parseAgentSession (jget ''agent_session'' v)) (\<lambda>s. Inr (Some s)))"

definition sup_agentStatus :: "jsval \<Rightarrow> (sup_protocol_error, sup_status) result" where
  "sup_agentStatus v =
     (case v of JStr s \<Rightarrow> (case status_of s of Some st \<Rightarrow> Inr st | None \<Rightarrow> Inl (SupervisionProtocolError ''agent_status''))
      | _ \<Rightarrow> Inl (SupervisionProtocolError ''agent_status''))"

record pane_record =
  pn_paneId :: string
  pn_terminalId :: string
  pn_tabId :: string
  pn_workspaceId :: string
  pn_status :: sup_status
  pn_revision :: nat
  pn_seq :: "nat option"
  pn_agentKind :: "string option"
  pn_session :: "agent_session option"
  pn_label :: "string option"

definition parsePaneRecord :: "jsval \<Rightarrow> (sup_protocol_error, pane_record) result" where
  "parsePaneRecord v =
     (if \<not> is_record v then Inl (SupervisionProtocolError ''pane'')
      else bind_result (sup_required ''pane_id'' (jget ''pane_id'' v)) (\<lambda>pane.
           bind_result (sup_required ''terminal_id'' (jget ''terminal_id'' v)) (\<lambda>terminal.
           bind_result (sup_required ''tab_id'' (jget ''tab_id'' v)) (\<lambda>tab.
           bind_result (sup_required ''workspace_id'' (jget ''workspace_id'' v)) (\<lambda>workspace.
           bind_result (sup_agentStatus (jget ''agent_status'' v)) (\<lambda>status.
           bind_result (sup_counter ''revision'' (jget ''revision'' v)) (\<lambda>revision.
           bind_result (if absent_value (jget ''state_change_seq'' v) then Inr None
                        else bind_result (sup_counter ''state_change_seq'' (jget ''state_change_seq'' v)) (\<lambda>n. Inr (Some n))) (\<lambda>seq.
           bind_result (sup_optional v ''agent'') (\<lambda>agent.
           bind_result (optionalAgentSession v) (\<lambda>session.
           bind_result (sup_optional v ''label'') (\<lambda>label.
             Inr \<lparr>pn_paneId = pane, pn_terminalId = terminal, pn_tabId = tab, pn_workspaceId = workspace,
                  pn_status = status, pn_revision = revision, pn_seq = seq, pn_agentKind = agent,
                  pn_session = session, pn_label = label\<rparr>)))))))))))"

section \<open>Events\<close>

datatype event_kind = PaneUpdated | PaneClosed | PaneExited | PaneMoved | PaneAgentDetected

definition kind_name :: "event_kind \<Rightarrow> string" where
  "kind_name k = (case k of PaneUpdated \<Rightarrow> ''pane_updated'' | PaneClosed \<Rightarrow> ''pane_closed'' | PaneExited \<Rightarrow> ''pane_exited''
     | PaneMoved \<Rightarrow> ''pane_moved'' | PaneAgentDetected \<Rightarrow> ''pane_agent_detected'')"

definition SUPERVISION_EVENT_KINDS :: "event_kind list" where
  "SUPERVISION_EVENT_KINDS = [PaneUpdated, PaneClosed, PaneExited, PaneMoved, PaneAgentDetected]"

definition kind_of :: "string \<Rightarrow> event_kind option" where
  "kind_of s = find (\<lambda>k. kind_name k = s) SUPERVISION_EVENT_KINDS"

definition isPaneRecordEvent :: "event_kind \<Rightarrow> bool" where
  "isPaneRecordEvent k \<longleftrightarrow> k \<in> {PaneUpdated, PaneMoved}"

datatype exit_fact = ExitObserved "int option" "string option" | ExitNotReported

definition safe_int :: "jsval \<Rightarrow> int option" where
  "safe_int v =
     (case v of JNum q \<Rightarrow> if snd (quotient_of q) = 1 \<and> - 9007199254740991 \<le> q \<and> q \<le> 9007199254740991
                          then Some (fst (quotient_of q)) else None
      | _ \<Rightarrow> None)"

definition optionalExitCode :: "jsval \<Rightarrow> (sup_protocol_error, int option) result" where
  "optionalExitCode data =
     (let v = jget ''exit_code'' data in
      if absent_value v then Inr None
      else case safe_int v of Some n \<Rightarrow> Inr (Some n) | None \<Rightarrow> Inl (SupervisionProtocolError ''exit_code''))"

definition optionalExitSignal :: "jsval \<Rightarrow> (sup_protocol_error, string option) result" where
  "optionalExitSignal data =
     (let v = jget ''signal'' data in
      if absent_value v then Inr None
      else bind_result (sup_required ''signal'' v) (\<lambda>s.
        if PANE_EXIT_SIGNAL_MAX_CHARS < length s then Inl (SupervisionProtocolError ''signal'') else Inr (Some s)))"

definition paneExitFact :: "jsval \<Rightarrow> (sup_protocol_error, exit_fact) result" where
  "paneExitFact data =
     bind_result (optionalExitCode data) (\<lambda>code.
     bind_result (optionalExitSignal data) (\<lambda>signal.
       Inr (if code = None \<and> signal = None then ExitNotReported else ExitObserved code signal)))"

record socket_event =
  so_kind :: event_kind
  so_data :: jsval
  so_paneId :: string
  so_pane :: "pane_record option"
  so_previous :: "string option"
  so_exit :: "exit_fact option"

definition validateEvent :: "event_kind \<Rightarrow> jsval \<Rightarrow> (sup_protocol_error, socket_event) result" where
  "validateEvent k data =
     (if jget ''type'' data \<noteq> JStr (kind_name k) then Inl (SupervisionProtocolError ''event'')
      else if k = PaneExited
      then bind_result (sup_required ''pane_id'' (jget ''pane_id'' data)) (\<lambda>p.
           bind_result (paneExitFact data) (\<lambda>fact.
             Inr \<lparr>so_kind = k, so_data = data, so_paneId = p, so_pane = None, so_previous = None, so_exit = Some fact\<rparr>))
      else if \<not> isPaneRecordEvent k
      then bind_result (sup_required ''pane_id'' (jget ''pane_id'' data)) (\<lambda>p.
             Inr \<lparr>so_kind = k, so_data = data, so_paneId = p, so_pane = None, so_previous = None, so_exit = None\<rparr>)
      else bind_result (parsePaneRecord (jget ''pane'' data)) (\<lambda>pane.
        if k \<noteq> PaneMoved
        then Inr \<lparr>so_kind = k, so_data = data, so_paneId = pn_paneId pane, so_pane = Some pane, so_previous = None, so_exit = None\<rparr>
        else bind_result (sup_required ''previous_pane_id'' (jget ''previous_pane_id'' data)) (\<lambda>prev.
          Inr \<lparr>so_kind = k, so_data = data, so_paneId = pn_paneId pane, so_pane = Some pane, so_previous = Some prev,
               so_exit = None\<rparr>)))"

section \<open>Lines\<close>

datatype socket_line =
    LineReply string jsval
  | LineFailure string string string
  | LineEvent socket_event
  | LineIgnored

definition parse_reply :: "jsval \<Rightarrow> (sup_protocol_error, socket_line) result" where
  "parse_reply v =
     bind_result (sup_required ''id'' (jget ''id'' v)) (\<lambda>i.
       if own v ''result'' \<and> own v ''error'' then Inl (SupervisionProtocolError ''id'')
       else if own v ''error''
       then (let err = jget ''error'' v in
             if \<not> is_record err then Inl (SupervisionProtocolError ''error'')
             else bind_result (sup_required ''error.code'' (jget ''code'' err)) (\<lambda>code.
                  bind_result (sup_required ''error.message'' (jget ''message'' err)) (\<lambda>message.
                    Inr (LineFailure i code message))))
       else if \<not> own v ''result'' then Inl (SupervisionProtocolError ''id'')
       else Inr (LineReply i (jget ''result'' v)))"

definition parse_event :: "jsval \<Rightarrow> (sup_protocol_error, socket_line) result" where
  "parse_event v =
     bind_result (sup_required ''event'' (jget ''event'' v)) (\<lambda>name.
       if \<not> is_record (jget ''data'' v) then Inl (SupervisionProtocolError ''event'')
       else case kind_of name of
         None \<Rightarrow> Inr LineIgnored
       | Some k \<Rightarrow> bind_result (validateEvent k (jget ''data'' v)) (\<lambda>e. Inr (LineEvent e)))"

definition parseSocketLine :: "(string \<Rightarrow> jsval option) \<Rightarrow> string \<Rightarrow> (sup_protocol_error, socket_line) result" where
  "parseSocketLine parse line =
     (if SUPERVISION_MAX_LINE_BYTES < byte_length line then Inl (SupervisionProtocolError ''limitBytes'')
      else case parse line of
        None \<Rightarrow> Inl (SupervisionProtocolError ''line'')
      | Some v \<Rightarrow>
          if \<not> is_record v then Inl (SupervisionProtocolError ''line'')
          else if own v ''id'' then parse_reply v
          else if \<not> own v ''event'' then Inl (SupervisionProtocolError ''line'')
          else parse_event v)"

definition assertSubscriptionAck :: "jsval \<Rightarrow> (sup_protocol_error, unit) result" where
  "assertSubscriptionAck v =
     (if \<not> is_record v \<or> jget ''type'' v \<noteq> JStr ''subscription_started''
      then Inl (SupervisionProtocolError ''subscription'') else Inr ())"

section \<open>What an accepted event carries\<close>

definition session_usable :: "agent_session \<Rightarrow> bool" where
  "session_usable s \<longleftrightarrow> usable (as_source s) \<and> usable (as_agent s) \<and> usable (as_kind s) \<and> usable (as_value s)"

definition MAX_SAFE_INTEGER :: nat where
  "MAX_SAFE_INTEGER = 9007199254740991"

definition pane_ok :: "pane_record \<Rightarrow> bool" where
  "pane_ok p \<longleftrightarrow> usable (pn_paneId p) \<and> usable (pn_terminalId p) \<and> usable (pn_tabId p) \<and> usable (pn_workspaceId p)
     \<and> pn_revision p \<le> MAX_SAFE_INTEGER \<and> opt_all (\<lambda>n. n \<le> MAX_SAFE_INTEGER) (pn_seq p)
     \<and> opt_all usable (pn_agentKind p) \<and> opt_all session_usable (pn_session p) \<and> opt_all usable (pn_label p)"

definition event_ok :: "socket_event \<Rightarrow> bool" where
  "event_ok e \<longleftrightarrow> usable (so_paneId e)
     \<and> (if isPaneRecordEvent (so_kind e)
        then (case so_pane e of None \<Rightarrow> False | Some p \<Rightarrow> pane_ok p \<and> pn_paneId p = so_paneId e)
        else so_pane e = None)
     \<and> (if so_kind e = PaneMoved then (case so_previous e of None \<Rightarrow> False | Some q \<Rightarrow> usable q) else so_previous e = None)
     \<and> (so_exit e \<noteq> None \<longleftrightarrow> so_kind e = PaneExited)"

lemma sup_required_Inr [simp]: "sup_required f v = Inr s \<longleftrightarrow> v = JStr s \<and> usable s"
  by (cases v) (auto simp: sup_required_def)

lemma sup_counter_Inr: "sup_counter f v = Inr n \<Longrightarrow> n \<le> MAX_SAFE_INTEGER"
  by (auto simp: sup_counter_def MAX_SAFE_INTEGER_def split: option.splits dest: safe_nat_bound)

lemma sup_optional_Inr: "sup_optional v f = Inr s \<Longrightarrow> opt_all usable s"
  by (auto simp: sup_optional_def bind_result_eq_Inr_conv split: if_splits)

lemma parseAgentSession_Inr: "parseAgentSession v = Inr s \<Longrightarrow> session_usable s"
  by (auto simp: parseAgentSession_def session_usable_def bind_result_eq_Inr_conv split: if_splits)

lemma optionalAgentSession_Inr: "optionalAgentSession v = Inr s \<Longrightarrow> opt_all session_usable s"
  by (auto simp: optionalAgentSession_def bind_result_eq_Inr_conv dest: parseAgentSession_Inr split: if_splits)

lemma parsePaneRecord_Inr:
  assumes "parsePaneRecord v = Inr p"
  shows "pane_ok p \<and> jget ''pane_id'' v = JStr (pn_paneId p) \<and> jget ''terminal_id'' v = JStr (pn_terminalId p)
    \<and> jget ''agent_status'' v = JStr (status_name (pn_status p))"
  using assms unfolding parsePaneRecord_def guard_Inr bind_result_eq_Inr_conv
  by (auto simp: pane_ok_def sup_agentStatus_def status_of_Some bind_result_eq_Inr_conv
      dest!: sup_counter_Inr sup_optional_Inr optionalAgentSession_Inr split: if_splits jsval.splits option.splits)

lemma validateEvent_ok: "validateEvent k v = Inr e \<Longrightarrow> event_ok e \<and> so_kind e = k"
  by (auto simp: validateEvent_def event_ok_def isPaneRecordEvent_def bind_result_eq_Inr_conv pane_ok_def
      dest!: parsePaneRecord_Inr split: if_splits)

lemma parseSocketLine_event: "parseSocketLine parse line = Inr (LineEvent e) \<Longrightarrow> event_ok e"
  by (auto simp: parseSocketLine_def parse_event_def parse_reply_def bind_result_eq_Inr_conv Let_def
      dest!: validateEvent_ok split: if_splits option.splits)

end
