(* ===== verification/Supervised_Identity.thy ===== *)
theory Supervised_Identity
  imports Supervision_Protocol
begin

text \<open>
  The exact-child identity of \<open>src/supervision/identity.ts\<close>: the join of one pane record with the
  agent record of the same pane, the classification of a pane in an authoritative snapshot, and the
  verdicts whether an observation still describes the bound child. A thrown error of the record
  readers is \<open>TargetMalformed\<close>; every caller turns it into \<open>target_record_malformed\<close>.
\<close>

section \<open>Identities and occupants\<close>

record sup_identity =
  si_paneId :: string
  si_terminalId :: string
  si_agentName :: string
  si_agentKind :: string
  si_session :: agent_session

record prov_identity =
  vi_paneId :: string
  vi_terminalId :: string
  vi_agentName :: string
  vi_agentKind :: string

record lifecycle_baseline =
  bl_state :: sup_status
  bl_seq :: nat
  bl_revision :: nat

record prov_binding =
  pb_identity :: prov_identity
  pb_operatingPointId :: string
  pb_baseline :: lifecycle_baseline

record sup_anchor =
  an_revision :: nat
  an_status :: sup_status
  an_seq :: "nat option"

datatype verdict = Continuous | Unproven | Replaced

definition sameSupervisedIdentity :: "sup_identity \<Rightarrow> sup_identity \<Rightarrow> bool" where
  "sameSupervisedIdentity a b \<longleftrightarrow> si_paneId a = si_paneId b \<and> si_terminalId a = si_terminalId b
     \<and> si_agentName a = si_agentName b \<and> si_agentKind a = si_agentKind b \<and> si_session a = si_session b"

definition paneContinuity :: "sup_identity \<Rightarrow> pane_record \<Rightarrow> verdict" where
  "paneContinuity i p =
     (if pn_terminalId p \<noteq> si_terminalId i then Replaced
      else if pn_agentKind p \<noteq> None \<and> pn_agentKind p \<noteq> Some (si_agentKind i) then Replaced
      else case pn_session p of
        None \<Rightarrow> Unproven
      | Some s \<Rightarrow> if s = si_session i then Continuous else Replaced)"

record occupant =
  oc_pane :: pane_record
  oc_agentPresent :: bool
  oc_agentName :: "string option"
  oc_seq :: "nat option"

datatype target_evidence = TargetUnique occupant | TargetAbsent | TargetInvalid reconciliation_failure

section \<open>Reading the records\<close>

datatype target_malformed = TargetMalformed

definition optionalIdentityString :: "jsval \<Rightarrow> string \<Rightarrow> (target_malformed, string option) result" where
  "optionalIdentityString v k =
     (if \<not> own v k \<or> absent_value (jget k v) then Inr None
      else case jget k v of JStr s \<Rightarrow> if s = [] then Inl TargetMalformed else Inr (Some s) | _ \<Rightarrow> Inl TargetMalformed)"

definition optionalSession :: "jsval \<Rightarrow> (target_malformed, agent_session option) result" where
  "optionalSession v =
     (if \<not> own v ''agent_session'' \<or> absent_value (jget ''agent_session'' v) then Inr None
      else let session = jget ''agent_session'' v in
        if \<not> is_record session then Inl TargetMalformed
        else bind_result (optionalIdentityString session ''source'') (\<lambda>src.
             bind_result (optionalIdentityString session ''agent'') (\<lambda>agent.
             bind_result (optionalIdentityString session ''kind'') (\<lambda>kind.
             bind_result (optionalIdentityString session ''value'') (\<lambda>val.
               case (src, agent, kind, val) of
                 (Some s, Some a, Some k, Some x) \<Rightarrow>
                   Inr (Some \<lparr>as_source = s, as_agent = a, as_kind = k, as_value = x\<rparr>)
               | _ \<Rightarrow> Inl TargetMalformed)))))"

definition optionalLifecycleCounter :: "jsval \<Rightarrow> string \<Rightarrow> (target_malformed, nat option) result" where
  "optionalLifecycleCounter v k =
     (if \<not> own v k \<or> absent_value (jget k v) then Inr None
      else case safe_nat (jget k v) of Some n \<Rightarrow> Inr (Some n) | None \<Rightarrow> Inl TargetMalformed)"

definition optionalLifecycleStatus :: "jsval \<Rightarrow> (target_malformed, sup_status option) result" where
  "optionalLifecycleStatus v =
     (if \<not> own v ''agent_status'' \<or> absent_value (jget ''agent_status'' v) then Inr None
      else case jget ''agent_status'' v of
        JStr s \<Rightarrow> (case status_of s of Some st \<Rightarrow> Inr (Some st) | None \<Rightarrow> Inl TargetMalformed)
      | _ \<Rightarrow> Inl TargetMalformed)"

definition contradictory :: "'a option \<Rightarrow> 'a option \<Rightarrow> bool" where
  "contradictory a b \<longleftrightarrow> a \<noteq> None \<and> b \<noteq> None \<and> a \<noteq> b"

definition pane_of_record :: "jsval \<Rightarrow> (target_malformed, pane_record) result" where
  "pane_of_record v = (case parsePaneRecord v of Inl _ \<Rightarrow> Inl TargetMalformed | Inr p \<Rightarrow> Inr p)"

text \<open>\<open>a ?? b\<close>, where \<open>b\<close> is read only when \<open>a\<close> is absent.\<close>

definition first_name :: "jsval \<Rightarrow> string \<Rightarrow> string \<Rightarrow> (target_malformed, string option) result" where
  "first_name v k k' =
     bind_result (optionalIdentityString v k) (\<lambda>n. case n of Some s \<Rightarrow> Inr (Some s) | None \<Rightarrow> optionalIdentityString v k')"

record agent_fields =
  af_name :: "string option"
  af_terminal :: "string option"
  af_kind :: "string option"
  af_session :: "agent_session option"
  af_revision :: "nat option"
  af_status :: "sup_status option"
  af_seq :: "nat option"

definition read_agent :: "jsval \<Rightarrow> (target_malformed, agent_fields) result" where
  "read_agent v =
     bind_result (first_name v ''name'' ''agent_name'') (\<lambda>name.
     bind_result (optionalIdentityString v ''terminal_id'') (\<lambda>terminal.
     bind_result (optionalIdentityString v ''agent'') (\<lambda>kind.
     bind_result (optionalSession v) (\<lambda>session.
     bind_result (optionalLifecycleCounter v ''revision'') (\<lambda>revision.
     bind_result (optionalLifecycleStatus v) (\<lambda>status.
     bind_result (optionalLifecycleCounter v ''state_change_seq'') (\<lambda>seq.
       Inr \<lparr>af_name = name, af_terminal = terminal, af_kind = kind, af_session = session,
            af_revision = revision, af_status = status, af_seq = seq\<rparr>)))))))"

section \<open>The join\<close>

definition join_contradicts :: "pane_record \<Rightarrow> string option \<Rightarrow> agent_fields \<Rightarrow> bool" where
  "join_contradicts pane paneName a \<longleftrightarrow>
     contradictory paneName (af_name a) \<or> contradictory (Some (pn_terminalId pane)) (af_terminal a)
     \<or> contradictory (pn_agentKind pane) (af_kind a) \<or> contradictory (pn_session pane) (af_session a)
     \<or> (af_revision a \<noteq> None \<and> af_revision a \<noteq> Some (pn_revision pane))
     \<or> (af_status a \<noteq> None \<and> af_status a \<noteq> Some (pn_status pane))
     \<or> contradictory (af_seq a) (pn_seq pane)"

definition joined_occupant :: "pane_record \<Rightarrow> string option \<Rightarrow> agent_fields \<Rightarrow> occupant" where
  "joined_occupant pane paneName a =
     (let seq = orElse (af_seq a) (pn_seq pane) in
      \<lparr>oc_pane = pane\<lparr>pn_agentKind := orElse (pn_agentKind pane) (af_kind a),
                      pn_session := orElse (pn_session pane) (af_session a), pn_seq := seq\<rparr>,
       oc_agentPresent = True, oc_agentName = orElse (af_name a) paneName, oc_seq = seq\<rparr>)"

definition joinTargetRecords :: "jsval \<Rightarrow> jsval option \<Rightarrow> target_evidence" where
  "joinTargetRecords rawPane rawAgent =
     (case bind_result (pane_of_record rawPane) (\<lambda>pane.
           bind_result (first_name rawPane ''agent_name'' ''name'') (\<lambda>paneName.
             case rawAgent of
               None \<Rightarrow> Inr (TargetUnique \<lparr>oc_pane = pane, oc_agentPresent = False, oc_agentName = paneName, oc_seq = pn_seq pane\<rparr>)
             | Some agent \<Rightarrow> bind_result (read_agent agent) (\<lambda>a.
                 Inr (if join_contradicts pane paneName a then TargetInvalid RfTargetIdentityContradiction
                      else TargetUnique (joined_occupant pane paneName a))))) of
        Inl _ \<Rightarrow> TargetInvalid RfTargetRecordMalformed
      | Inr t \<Rightarrow> t)"

definition classifySnapshotTarget :: "snapshot \<Rightarrow> string \<Rightarrow> target_evidence" where
  "classifySnapshotTarget sn pane =
     (let panes = with_field ''pane_id'' pane (sn_panes sn); agents = with_field ''pane_id'' pane (sn_agents sn) in
      if panes = []
      then (if 1 < length agents then TargetInvalid RfDuplicateTargetAgent
            else if length agents = 1 then TargetInvalid RfOrphanTargetAgent
            else TargetAbsent)
      else if 1 < length panes then TargetInvalid RfDuplicateTargetPane
      else if 1 < length agents then TargetInvalid RfDuplicateTargetAgent
      else joinTargetRecords (hd panes) (case agents of [] \<Rightarrow> None | a # _ \<Rightarrow> Some a))"

definition read_provisional :: "jsval \<Rightarrow> (target_malformed, nat option \<times> nat option \<times> sup_status option) result" where
  "read_provisional v =
     bind_result (optionalLifecycleCounter v ''state_change_seq'') (\<lambda>seq.
     bind_result (optionalLifecycleCounter v ''revision'') (\<lambda>revision.
     bind_result (optionalLifecycleStatus v) (\<lambda>status. Inr (seq, revision, status))))"

definition classifyProvisionalSnapshotTarget :: "snapshot \<Rightarrow> string \<Rightarrow> target_evidence" where
  "classifyProvisionalSnapshotTarget sn pane =
     (case classifySnapshotTarget sn pane of
        TargetUnique occ \<Rightarrow>
          (case find_field ''pane_id'' pane (sn_panes sn) of
             None \<Rightarrow> TargetAbsent
           | Some rawPane \<Rightarrow>
             (case bind_result (read_provisional rawPane) (\<lambda>(pseq, prev, pstat).
                   bind_result (case find_field ''pane_id'' pane (sn_agents sn) of
                                  None \<Rightarrow> Inr (None, None, None) | Some rawAgent \<Rightarrow> read_provisional rawAgent)
                     (\<lambda>(aseq, arev, astat).
                       Inr (if contradictory pseq aseq \<or> contradictory prev arev \<or> contradictory pstat astat
                            then TargetInvalid RfTargetIdentityContradiction
                            else TargetUnique (case orElse aseq pseq of None \<Rightarrow> occ | Some n \<Rightarrow> occ\<lparr>oc_seq := Some n\<rparr>)))) of
                Inl _ \<Rightarrow> TargetInvalid RfTargetRecordMalformed
              | Inr t \<Rightarrow> t))
      | t \<Rightarrow> t)"

section \<open>Continuity\<close>

definition provisionalOccupantContinuity :: "prov_identity \<Rightarrow> occupant \<Rightarrow> verdict" where
  "provisionalOccupantContinuity i occ =
     (let p = oc_pane occ in
      if \<not> oc_agentPresent occ then Unproven
      else if pn_paneId p \<noteq> vi_paneId i \<or> pn_terminalId p \<noteq> vi_terminalId i then Replaced
      else if oc_agentName occ \<noteq> None \<and> oc_agentName occ \<noteq> Some (vi_agentName i) then Replaced
      else if oc_agentName occ = None \<or> pn_agentKind p = None then Unproven
      else if pn_agentKind p \<noteq> Some (vi_agentKind i) then Replaced
      else if (case pn_session p of None \<Rightarrow> False | Some s \<Rightarrow> as_agent s \<noteq> vi_agentKind i) then Replaced
      else Continuous)"

definition occupantContinuity :: "sup_identity \<Rightarrow> occupant \<Rightarrow> verdict" where
  "occupantContinuity i occ =
     (if oc_agentName occ \<noteq> None \<and> oc_agentName occ \<noteq> Some (si_agentName i) then Replaced
      else paneContinuity i (oc_pane occ))"

definition movedIdentity :: "sup_identity \<Rightarrow> pane_record \<Rightarrow> occupant \<Rightarrow> sup_identity option" where
  "movedIdentity i moved fresh =
     (if paneContinuity i moved \<noteq> Continuous then None
      else if \<not> oc_agentPresent fresh \<or> pn_paneId (oc_pane fresh) \<noteq> pn_paneId moved then None
      else if occupantContinuity i fresh \<noteq> Continuous then None
      else Some (i\<lparr>si_paneId := pn_paneId moved\<rparr>))"

text \<open>The lifecycle of a validated pane event; the sequence is read from the raw record.\<close>

definition provisionalEventLifecycle :: "socket_event \<Rightarrow> (target_malformed, sup_status \<times> nat \<times> nat option) result" where
  "provisionalEventLifecycle e =
     (case so_pane e of
        Some p \<Rightarrow>
          if \<not> isPaneRecordEvent (so_kind e) \<or> \<not> is_record (jget ''pane'' (so_data e)) then Inl TargetMalformed
          else bind_result (optionalLifecycleCounter (jget ''pane'' (so_data e)) ''state_change_seq'') (\<lambda>seq.
                 Inr (pn_status p, pn_revision p, seq))
      | None \<Rightarrow> Inl TargetMalformed)"

section \<open>What the classification establishes\<close>

lemma first_name_Inr:
  "first_name v k k' = Inr n \<Longrightarrow> n = None \<or> (\<exists>s. n = Some s \<and> s \<noteq> [] \<and> (jget k v = JStr s \<or> jget k' v = JStr s))"
  by (auto simp: first_name_def bind_result_eq_Inr_conv optionalIdentityString_def
      split: if_splits option.splits jsval.splits)

lemma joinTargetRecords_unique:
  "joinTargetRecords p a = TargetUnique occ \<longleftrightarrow>
     (\<exists>pane name. parsePaneRecord p = Inr pane \<and> first_name p ''agent_name'' ''name'' = Inr name
        \<and> (case a of
             None \<Rightarrow> occ = \<lparr>oc_pane = pane, oc_agentPresent = False, oc_agentName = name, oc_seq = pn_seq pane\<rparr>
           | Some v \<Rightarrow> \<exists>fs. read_agent v = Inr fs \<and> \<not> join_contradicts pane name fs \<and> occ = joined_occupant pane name fs))"
  by (auto simp: joinTargetRecords_def pane_of_record_def bind_result_def split: sum.splits option.splits if_splits)

lemma joinTargetRecords_absent: "joinTargetRecords p a \<noteq> TargetAbsent"
  by (auto simp: joinTargetRecords_def bind_result_def split: sum.splits option.splits)

lemma joined_pane:
  "joinTargetRecords p a = TargetUnique occ \<Longrightarrow>
   \<exists>pane. parsePaneRecord p = Inr pane \<and> pn_paneId (oc_pane occ) = pn_paneId pane
     \<and> pn_terminalId (oc_pane occ) = pn_terminalId pane \<and> pn_status (oc_pane occ) = pn_status pane
     \<and> pn_revision (oc_pane occ) = pn_revision pane"
  by (auto simp: joinTargetRecords_unique joined_occupant_def Let_def split: option.splits)

lemma classifySnapshotTarget_absent:
  "classifySnapshotTarget sn pane = TargetAbsent \<longleftrightarrow>
     with_field ''pane_id'' pane (sn_panes sn) = [] \<and> with_field ''pane_id'' pane (sn_agents sn) = []"
  by (cases "with_field ''pane_id'' pane (sn_agents sn)")
    (auto simp: classifySnapshotTarget_def Let_def joinTargetRecords_absent)

lemma classifySnapshotTarget_unique:
  assumes "classifySnapshotTarget sn pane = TargetUnique occ"
  shows "\<exists>p a. with_field ''pane_id'' pane (sn_panes sn) = [p]
    \<and> with_field ''pane_id'' pane (sn_agents sn) = (case a of None \<Rightarrow> [] | Some x \<Rightarrow> [x])
    \<and> joinTargetRecords p a = TargetUnique occ"
proof -
  let ?panes = "with_field ''pane_id'' pane (sn_panes sn)" and ?agents = "with_field ''pane_id'' pane (sn_agents sn)"
  have ne: "?panes \<noteq> []" and lp: "\<not> 1 < length ?panes" and la: "\<not> 1 < length ?agents"
    and join: "joinTargetRecords (hd ?panes) (case ?agents of [] \<Rightarrow> None | a # _ \<Rightarrow> Some a) = TargetUnique occ"
    using assms by (auto simp: classifySnapshotTarget_def Let_def split: if_splits)
  obtain p where p: "?panes = [p]" using ne lp by (cases ?panes) auto
  show ?thesis
  proof (cases ?agents)
    case Nil
    then show ?thesis using p join by (intro exI [of _ p] exI [of _ None]) simp
  next
    case (Cons a as)
    then have "?agents = [a]" using la by simp
    then show ?thesis using p join by (intro exI [of _ p] exI [of _ "Some a"]) simp
  qed
qed

lemma classifySnapshotTarget_pane:
  assumes "classifySnapshotTarget sn pane = TargetUnique occ"
  shows "pn_paneId (oc_pane occ) = pane \<and> usable pane \<and> usable (pn_terminalId (oc_pane occ))"
proof -
  obtain p a where "with_field ''pane_id'' pane (sn_panes sn) = [p]" and join: "joinTargetRecords p a = TargetUnique occ"
    using classifySnapshotTarget_unique [OF assms] by blast
  then have "jget ''pane_id'' p = JStr pane" by (metis with_field_single)
  with joined_pane [OF join] show ?thesis by (auto dest!: parsePaneRecord_Inr simp: pane_ok_def)
qed

lemma provisional_unique:
  "classifyProvisionalSnapshotTarget sn pane = TargetUnique occ \<Longrightarrow>
   \<exists>occ'. classifySnapshotTarget sn pane = TargetUnique occ' \<and> oc_pane occ = oc_pane occ'
     \<and> oc_agentPresent occ = oc_agentPresent occ' \<and> oc_agentName occ = oc_agentName occ'"
  by (auto simp: classifyProvisionalSnapshotTarget_def bind_result_def
      split: target_evidence.splits option.splits sum.splits if_splits)

lemma provisional_absent:
  "classifyProvisionalSnapshotTarget sn pane = TargetAbsent \<longleftrightarrow> classifySnapshotTarget sn pane = TargetAbsent"
proof
  assume a: "classifyProvisionalSnapshotTarget sn pane = TargetAbsent"
  show "classifySnapshotTarget sn pane = TargetAbsent"
  proof (cases "classifySnapshotTarget sn pane")
    case (TargetUnique occ)
    obtain p where "with_field ''pane_id'' pane (sn_panes sn) = [p]"
      using classifySnapshotTarget_unique [OF TargetUnique] by blast
    then have "p \<in> set (sn_panes sn)" "jget ''pane_id'' p = JStr pane" using with_field_single by metis+
    then have "find_field ''pane_id'' pane (sn_panes sn) \<noteq> None"
      by (auto simp: find_field_def find_None_iff)
    with a TargetUnique show ?thesis
      by (auto simp: classifyProvisionalSnapshotTarget_def bind_result_def
          split: option.splits sum.splits if_splits)
  qed (use a in \<open>simp_all add: classifyProvisionalSnapshotTarget_def\<close>)
qed (simp add: classifyProvisionalSnapshotTarget_def)

lemma paneContinuity_Continuous:
  "paneContinuity i p = Continuous \<longleftrightarrow> pn_terminalId p = si_terminalId i
     \<and> (pn_agentKind p = None \<or> pn_agentKind p = Some (si_agentKind i)) \<and> pn_session p = Some (si_session i)"
  by (auto simp: paneContinuity_def split: option.splits)

lemma occupantContinuity_Continuous:
  "occupantContinuity i occ = Continuous \<longleftrightarrow>
     (oc_agentName occ = None \<or> oc_agentName occ = Some (si_agentName i)) \<and> paneContinuity i (oc_pane occ) = Continuous"
  by (auto simp: occupantContinuity_def)

lemma movedIdentity_Some:
  "movedIdentity i moved fresh = Some i' \<longleftrightarrow>
     i' = i\<lparr>si_paneId := pn_paneId moved\<rparr> \<and> paneContinuity i moved = Continuous \<and> oc_agentPresent fresh
     \<and> pn_paneId (oc_pane fresh) = pn_paneId moved \<and> occupantContinuity i fresh = Continuous"
  by (auto simp: movedIdentity_def)

end
