(* ===== verification/Supervisor_State.thy ===== *)
theory Supervisor_State
  imports Supervised_Identity
begin

text \<open>
  The state of one supervisor (\<open>src/supervision/supervisor.ts\<close>) and of what it waits for. The mutation
  chain is a list of tasks; the running task is suspended at an \<open>await\<close>, and what happens after it is
  part of the suspension, so that everything outside the chain (a shutdown, a failed reconciliation, a
  lost connection) can interleave exactly where the code gives up control. Calls into other components
  are outputs; their answers are inputs.
\<close>

section \<open>Data\<close>

datatype sup_state = SsReserved | SsProvisional | SsActive | SsDegraded | SsSettled

datatype sup_outcome = OcReleased | OcIdentityReplaced | OcIdentityLost | OcCancelled | OcFailed

datatype transition_source = FromEvent | FromSnapshot

record sup_transition =
  st_atMs :: int
  st_from :: sup_status
  st_to :: sup_status
  st_revision :: nat
  st_source :: transition_source

record endpoint =
  ep_revision :: nat
  ep_status :: sup_status
  ep_seq :: "nat option"

record prov_lifecycle =
  pl_seq :: nat
  pl_revision :: nat
  pl_status :: sup_status
  pl_events :: "sup_transition list"

record sup_owner =
  sw_paneId :: string
  sw_session :: "agent_session option"

record sup_binding =
  sb_identity :: sup_identity
  sb_operatingPointId :: string
  sb_seq :: "nat option"
  sb_owner :: "sup_owner option"

text \<open>The candidate of a strengthening: a lifecycle plus the identity it is bound to.\<close>

record strengthening =
  sg_identity :: sup_identity
  sg_operatingPointId :: string
  sg_initialRevision :: nat
  sg_lifecycle :: prov_lifecycle

text \<open>A publication of a binding: whether \<open>commit()\<close> and \<open>publish()\<close> return or throw.\<close>

record publication =
  pu_commits :: bool
  pu_publishes :: bool

section \<open>Managed runs\<close>

text \<open>The part of a bound run of the handoff gate (\<open>src/handoff-gate.ts\<close>) the supervisor reads.\<close>

datatype run_lifecycle = LcAwaitingHandoff | LcHandedOff | LcCancelled | LcFailed | LcRecoveryPending

record managed_run =
  mr_runId :: string
  mr_paneId :: string
  mr_cycleOpen :: bool
  mr_lifecycle :: run_lifecycle

type_synonym gate_runs = "(string \<times> managed_run) list"

definition identityKey :: "sup_identity \<Rightarrow> string" where
  "identityKey i = join_with [CHR 0x00]
     [si_terminalId i, si_agentName i, si_agentKind i,
      as_source (si_session i), as_agent (si_session i), as_kind (si_session i), as_value (si_session i)]"

definition gate_lookup :: "gate_runs \<Rightarrow> sup_identity \<Rightarrow> managed_run option" where
  "gate_lookup runs i = map_of runs (identityKey i)"

definition gate_update :: "sup_identity \<Rightarrow> (managed_run \<Rightarrow> managed_run) \<Rightarrow> gate_runs \<Rightarrow> gate_runs" where
  "gate_update i f runs =
     (case gate_lookup runs i of None \<Rightarrow> runs | Some r \<Rightarrow> al_put (identityKey i) (f r) runs)"

definition notePane :: "string \<Rightarrow> managed_run \<Rightarrow> managed_run" where
  "notePane pane r = r\<lparr>mr_paneId := pane\<rparr>"

definition beginCycle :: "managed_run \<Rightarrow> managed_run" where
  "beginCycle r = r\<lparr>mr_cycleOpen := True\<rparr>"

datatype validation_state = VsAccepted | VsMissing | VsInvalid | VsUntrusted | VsOversized | VsStale | VsUnavailable

record validation =
  vd_state :: validation_state
  vd_reason :: "string option"
  vd_artifact :: "string option"

definition validation_name :: "validation_state \<Rightarrow> string" where
  "validation_name v = (case v of VsAccepted \<Rightarrow> ''accepted'' | VsMissing \<Rightarrow> ''missing'' | VsInvalid \<Rightarrow> ''invalid''
     | VsUntrusted \<Rightarrow> ''untrusted'' | VsOversized \<Rightarrow> ''oversized'' | VsStale \<Rightarrow> ''stale'' | VsUnavailable \<Rightarrow> ''unavailable'')"

datatype gate_until = UntilCompleted | UntilTerminal

definition handoffGateMatches :: "validation \<Rightarrow> gate_until \<Rightarrow> sup_status \<Rightarrow> bool" where
  "handoffGateMatches v until raw =
     (case until of
        UntilCompleted \<Rightarrow> (raw = StIdle \<or> raw = StDone) \<and> vd_state v = VsAccepted
      | UntilTerminal \<Rightarrow>
          (raw = StIdle \<or> raw = StDone \<or> raw = StBlocked)
          \<and> (case vd_artifact v of
               None \<Rightarrow> False
             | Some st \<Rightarrow> vd_state v = VsAccepted \<and> (if raw = StBlocked then st = ''blocked'' else st \<noteq> ''blocked'')))"

section \<open>Suspended tasks\<close>

text \<open>What follows the folding of the admitted events, and what follows a settlement.\<close>

datatype drain_end =
    DrainTask
  | DrainBind sup_binding publication
  | DrainProvisional prov_binding publication
  | DrainStrengthen sup_binding publication

datatype cont = ContTask | ContDrain drain_end

datatype signal_end =
    SignalTask
  | SignalSettle sup_outcome string cont
  | SignalSettleAgain sup_outcome string cont

datatype await =
    AwReconcile string cont
  | AwMove pane_record cont
  | AwStrengthen sup_binding publication
  | AwSelfClose sup_outcome string string cont
  | AwSignal signal_end
  | AwMark signal_end
  | AwFlush sup_outcome string cont
  | AwExitValidate sup_outcome string bool managed_run cont
  | AwExitRecord sup_outcome string cont
  | AwEvalValidate managed_run
  | AwEvalRecord managed_run
  | AwEvalFence managed_run string
  | AwEvalPrompt nat string

datatype task =
    TkFold
  | TkBootstrap snapshot
  | TkPeriodic snapshot
  | TkCompletion
  | TkHandoff
  | TkBind sup_binding publication
  | TkProvisional prov_binding publication
  | TkStrengthen sup_binding publication

datatype bind_read = ReadExact sup_binding publication | ReadProvisional prov_binding publication

datatype signal_answer = SignalThrew | SignalNone | SignalLimit bool "string option" "(string \<times> detail) list"

datatype answer =
    AnsSnapshot snapshot
  | AnsFailed string
  | AnsSelfClose bool
  | AnsSignal signal_answer
  | AnsDone bool
  | AnsValidation "validation option"
  | AnsFence "nat option"

section \<open>Outputs\<close>

record provider_limit =
  li_operatingPointId :: string
  li_retryNotBefore :: "string option"

datatype sup_effect =
    FxWake sup_event string string string
  | FxPersist sup_event string run_lifecycle "provider_limit option"
  | FxPublish string
  | FxMarkCycle string string
  | FxRecordOutcome string run_lifecycle "string option"
  | FxPrompt string nat string
  | FxCommit | FxPublished | FxRollback
  | FxBound
  | FxBindFailed string

section \<open>The supervisor\<close>

record sup_position =
  po_paneId :: "string option"
  po_identity :: "sup_identity option"
  po_anchor :: "sup_anchor option"
  po_status :: "sup_status option"
  po_revision :: nat
  po_seq :: "nat option"
  po_endpoint :: "endpoint option"
  po_moveDest :: "pane_record option"
  po_moveEndpoints :: "endpoint list"
  po_moveSeq :: "nat option"
  po_generation :: nat

record sup_provisional =
  pv_binding :: "prov_binding option"
  pv_failure :: "string option"
  pv_native :: "sup_identity option"
  pv_lifecycle :: "prov_lifecycle option"
  pv_candidate :: "strengthening option"
  pv_published :: bool
  pv_strengthening :: bool

record sup_health =
  he_stream :: bool
  he_degraded :: bool
  he_failures :: nat
  he_attemptAt :: "int option"
  he_successAt :: "int option"
  he_failureAt :: "int option"
  he_reason :: "reconciliation_failure option"
  he_announced :: bool
  he_gaps :: nat

record sup_cycle =
  cy_signal :: bool
  cy_recorded :: bool
  cy_logDegraded :: bool
  cy_attempts :: nat
  cy_retry :: bool
  cy_started :: "int option"
  cy_terminal :: "int option"
  cy_deliverable :: bool
  cy_pending :: "(string \<times> (string \<times> detail) list) option"

record sup_review =
  re_timer :: "int option"
  re_since :: "int option"
  re_run :: nat
  re_degraded :: bool
  re_paused :: bool

record supervisor =
  sv_state :: sup_state
  sv_pos :: sup_position
  sv_prov :: sup_provisional
  sv_health :: sup_health
  sv_cycle :: sup_cycle
  sv_review :: sup_review
  sv_log :: event_log
  sv_transitions :: "sup_transition bounded_history"
  sv_queued :: "socket_event list"
  sv_chain :: "task list"
  sv_await :: "await option"
  sv_bindRead :: "bind_read option"
  sv_bindStarted :: bool
  sv_bindPending :: bool
  sv_bound :: bool
  sv_stopped :: bool
  sv_retired :: bool
  sv_point :: "string option"
  sv_owner :: "sup_owner option"
  sv_settlement :: "(sup_outcome \<times> string) option"
  sv_resolved :: "(sup_outcome \<times> string) option"
  sv_observing :: bool
  sv_runs :: gate_runs
  sv_now :: int
  sv_monitorDegraded :: bool
  sv_ids :: nat
  sv_out :: "sup_effect list"

text \<open>
  The dependencies of a supervisor: which optional collaborators are installed, the bounded texts, the
  identifiers \<open>randomUUID\<close> returns and the decimal form of a number.
\<close>

record sup_deps =
  sd_jobId :: string
  sd_agentName :: string
  sd_agentKind :: string
  sd_operatingPointId :: string
  sd_cadenceMs :: int
  sd_selfClose :: bool
  sd_gate :: bool
  sd_repairPrompt :: bool
  sd_eventWriter :: bool
  sd_bounded :: "string \<Rightarrow> nat \<Rightarrow> string"
  sd_uuid :: "nat \<Rightarrow> string"
  sd_numStr :: "int \<Rightarrow> string"

definition initial_position :: sup_position where
  "initial_position = \<lparr>po_paneId = None, po_identity = None, po_anchor = None, po_status = None, po_revision = 0,
     po_seq = None, po_endpoint = None, po_moveDest = None, po_moveEndpoints = [], po_moveSeq = None, po_generation = 0\<rparr>"

definition initial_supervisor :: "gate_runs \<Rightarrow> int \<Rightarrow> supervisor" where
  "initial_supervisor runs now =
     \<lparr>sv_state = SsReserved, sv_pos = initial_position,
      sv_prov = \<lparr>pv_binding = None, pv_failure = None, pv_native = None, pv_lifecycle = None, pv_candidate = None,
                 pv_published = False, pv_strengthening = False\<rparr>,
      sv_health = \<lparr>he_stream = False, he_degraded = False, he_failures = 0, he_attemptAt = None, he_successAt = None,
                   he_failureAt = None, he_reason = None, he_announced = False, he_gaps = 0\<rparr>,
      sv_cycle = \<lparr>cy_signal = False, cy_recorded = False, cy_logDegraded = False, cy_attempts = 0, cy_retry = False,
                  cy_started = None, cy_terminal = None, cy_deliverable = True, cy_pending = None\<rparr>,
      sv_review = \<lparr>re_timer = None, re_since = None, re_run = 0, re_degraded = False, re_paused = False\<rparr>,
      sv_log = empty_log, sv_transitions = empty_history SUPERVISION_MAX_TRANSITIONS, sv_queued = [], sv_chain = [],
      sv_await = None, sv_bindRead = None, sv_bindStarted = False, sv_bindPending = False, sv_bound = False,
      sv_stopped = False, sv_retired = False, sv_point = None, sv_owner = None, sv_settlement = None, sv_resolved = None,
      sv_observing = False, sv_runs = runs, sv_now = now, sv_monitorDegraded = False, sv_ids = 0, sv_out = []\<rparr>"

end
