(* ===== verification/Supervisor.thy ===== *)
theory Supervisor
  imports Supervisor_State
begin

text \<open>
  The lifecycle core of \<open>Supervisor\<close> (\<open>src/supervision/supervisor.ts\<close>): emitting material events,
  reconciliation health, status folding, moves, settlement and the bindings. Every function is the
  synchronous part of a method up to its next \<open>await\<close>; \<open>resume\<close> continues a suspended task with an
  answer. The clock is read once per synchronous part (\<open>sv_now\<close>). A summary's arrow is written \<open>->\<close>, its
  code unit being outside the model's strings. \<open>randomUUID\<close> never fails, so no emission throws.
\<close>

section \<open>Emission\<close>

definition isSettled :: "supervisor \<Rightarrow> bool" where
  "isSettled s \<longleftrightarrow> sv_state s = SsSettled"

definition put_out :: "sup_effect \<Rightarrow> supervisor \<Rightarrow> supervisor" where
  "put_out x s = s\<lparr>sv_out := sv_out s @ [x]\<rparr>"

definition publish_text :: "string \<Rightarrow> supervisor \<Rightarrow> supervisor" where
  "publish_text t s = put_out (FxPublish t) s"

definition managedRun :: "sup_deps \<Rightarrow> supervisor \<Rightarrow> managed_run option" where
  "managedRun deps s =
     (case po_identity (sv_pos s) of None \<Rightarrow> None | Some i \<Rightarrow> if sd_gate deps then gate_lookup (sv_runs s) i else None)"

definition with_run :: "(managed_run \<Rightarrow> managed_run) \<Rightarrow> supervisor \<Rightarrow> supervisor" where
  "with_run f s =
     (case po_identity (sv_pos s) of None \<Rightarrow> s | Some i \<Rightarrow> s\<lparr>sv_runs := gate_update i f (sv_runs s)\<rparr>)"

definition childRef :: "supervisor \<Rightarrow> string \<times> string \<times> string" where
  "childRef s =
     (case po_identity (sv_pos s) of
        Some i \<Rightarrow> (si_agentName i, si_agentKind i, si_paneId i)
      | None \<Rightarrow> let i = pb_identity (the (pv_binding (sv_prov s))) in (vi_agentName i, vi_agentKind i, vi_paneId i))"

definition cycle_open :: "sup_deps \<Rightarrow> supervisor \<Rightarrow> bool" where
  "cycle_open deps s = (case managedRun deps s of None \<Rightarrow> False | Some r \<Rightarrow> mr_cycleOpen r)"

definition persistEmittedEvent :: "sup_deps \<Rightarrow> sup_event \<Rightarrow> provider_limit option \<Rightarrow> supervisor \<Rightarrow> supervisor" where
  "persistEmittedEvent deps e limit s =
     (if \<not> sd_eventWriter deps then s
      else case managedRun deps s of None \<Rightarrow> s | Some r \<Rightarrow> put_out (FxPersist e (mr_runId r) (mr_lifecycle r) limit) s)"

definition emit :: "sup_deps \<Rightarrow> event_type \<Rightarrow> string \<Rightarrow> (string \<times> detail) list option \<Rightarrow>
    (bool \<times> provider_limit option) option \<Rightarrow> supervisor \<Rightarrow> supervisor" where
  "emit deps t summary details verdict s =
     (let e = make_event (sd_bounded deps) (''sev_'' @ sd_uuid deps (sv_ids s)) t (sv_now s) summary details;
          s1 = publish_text (event_name t @ '': '' @ summary) (s\<lparr>sv_log := log_push e (sv_log s), sv_ids := Suc (sv_ids s)\<rparr>);
          deliverable = (case verdict of
              None \<Rightarrow> \<not> sv_retired s1 \<or> t = EvBlocked \<or> cycle_open deps s1
            | Some v \<Rightarrow> fst v)
      in if \<not> deliverable then s1
         else let s2 = persistEmittedEvent deps e (case verdict of None \<Rightarrow> None | Some v \<Rightarrow> snd v) s1;
                  (name, kind, pane) = childRef s2
              in put_out (FxWake e name kind pane) s2)"

datatype gap_reason = GapRevisionJump | GapStatusWithoutRevision

definition gap_reason_name :: "gap_reason \<Rightarrow> string" where
  "gap_reason_name r = (case r of GapRevisionJump \<Rightarrow> ''revision_jump'' | GapStatusWithoutRevision \<Rightarrow> ''status_changed_without_revision'')"

definition source_name :: "transition_source \<Rightarrow> string" where
  "source_name s = (case s of FromEvent \<Rightarrow> ''event'' | FromSnapshot \<Rightarrow> ''snapshot'')"

definition opt_num :: "string \<Rightarrow> nat option \<Rightarrow> (string \<times> detail) list" where
  "opt_num k v = (case v of None \<Rightarrow> [] | Some n \<Rightarrow> [(k, DetNum (int n))])"

definition recordEvidenceGap :: "sup_deps \<Rightarrow> transition_source \<Rightarrow> gap_reason \<Rightarrow> nat \<Rightarrow> nat \<Rightarrow> nat option \<Rightarrow>
    nat option \<Rightarrow> nat option \<Rightarrow> supervisor \<Rightarrow> supervisor" where
  "recordEvidenceGap deps source reason previous observed omitted previousSeq observedSeq s =
     emit deps EvEvidenceGap
       (''supervision observed incomplete '' @ source_name source @ '' revision evidence (''
          @ sd_numStr deps (int previous) @ '' to '' @ sd_numStr deps (int observed) @ '')'')
       (Some ([(''source'', DetStr (source_name source)), (''reason'', DetStr (gap_reason_name reason)),
               (''previousRevision'', DetNum (int previous)), (''observedRevision'', DetNum (int observed))]
              @ opt_num ''omittedRevisions'' omitted @ opt_num ''previousStateChangeSeq'' previousSeq
              @ opt_num ''observedStateChangeSeq'' observedSeq))
       None
       (s\<lparr>sv_health := (sv_health s)\<lparr>he_gaps := min MAX_SAFE_INTEGER (he_gaps (sv_health s) + 1)\<rparr>\<rparr>)"

section \<open>Health\<close>

definition RECONCILIATION_DEGRADED_THRESHOLD :: nat where
  "RECONCILIATION_DEGRADED_THRESHOLD = 3"

definition refreshActiveState :: "supervisor \<Rightarrow> supervisor" where
  "refreshActiveState s =
     (if \<not> sv_bound s \<or> po_identity (sv_pos s) = None \<or> isSettled s then s
      else s\<lparr>sv_state := if he_stream (sv_health s) \<or> he_degraded (sv_health s) then SsDegraded else SsActive\<rparr>)"

definition note_failure :: "reconciliation_failure \<Rightarrow> supervisor \<Rightarrow> supervisor" where
  "note_failure r s =
     (let h = sv_health s in
      s\<lparr>sv_health := h\<lparr>he_attemptAt := Some (sv_now s), he_failureAt := Some (sv_now s), he_reason := Some r,
                       he_failures := min MAX_SAFE_INTEGER (he_failures h + 1)\<rparr>\<rparr>)"

definition markReconciliationFailure :: "sup_deps \<Rightarrow> reconciliation_failure \<Rightarrow> supervisor \<Rightarrow> supervisor" where
  "markReconciliationFailure deps r s =
     (let s1 = note_failure r s;
          s2 = (if he_degraded (sv_health s1)
                then publish_text (''authoritative reconciliation remains degraded ('' @ failure_name r @ '')'') s1
                else refreshActiveState (s1\<lparr>sv_health := (sv_health s1)\<lparr>he_degraded := True\<rparr>\<rparr>))
      in if he_announced (sv_health s2) \<or> he_failures (sv_health s2) < RECONCILIATION_DEGRADED_THRESHOLD then s2
         else emit deps EvReconciliationDegraded ''authoritative supervision reconciliation is degraded and will retry''
                (Some [(''reason'', DetStr (failure_name r))]) None
                (s2\<lparr>sv_health := (sv_health s2)\<lparr>he_announced := True\<rparr>\<rparr>))"

definition note_success :: "supervisor \<Rightarrow> supervisor" where
  "note_success s =
     s\<lparr>sv_health := (sv_health s)\<lparr>he_attemptAt := Some (sv_now s), he_successAt := Some (sv_now s), he_failures := 0,
        he_reason := None\<rparr>\<rparr>"

definition markReconciliationSuccess :: "sup_deps \<Rightarrow> supervisor \<Rightarrow> supervisor" where
  "markReconciliationSuccess deps s =
     (let s1 = note_success s in
      if \<not> he_degraded (sv_health s1) then s1
      else let s2 = refreshActiveState (s1\<lparr>sv_health := (sv_health s1)\<lparr>he_degraded := False\<rparr>\<rparr>) in
        if \<not> he_announced (sv_health s2) then s2
        else emit deps EvReconciliationRecovered ''authoritative supervision reconciliation recovered'' None None
               (s2\<lparr>sv_health := (sv_health s2)\<lparr>he_announced := False\<rparr>\<rparr>))"

definition markProvisionalFailure :: "sup_deps \<Rightarrow> string \<Rightarrow> supervisor \<Rightarrow> supervisor" where
  "markProvisionalFailure deps cause s =
     (if pv_failure (sv_prov s) \<noteq> None then s
      else emit deps EvEvidenceGap (''AGY provisional supervision evidence was rejected ('' @ cause @ '')'')
             (Some [(''cause'', DetStr cause)]) None
             (s\<lparr>sv_prov := (sv_prov s)\<lparr>pv_failure := Some cause\<rparr>\<rparr>))"

text \<open>\<open>identity === undefined && provisional === undefined\<close>: a reservation supervises nothing yet.\<close>

definition supervising :: "supervisor \<Rightarrow> bool" where
  "supervising s \<longleftrightarrow> po_identity (sv_pos s) \<noteq> None \<or> pv_binding (sv_prov s) \<noteq> None"

definition onMonitorDegraded :: "sup_deps \<Rightarrow> string \<Rightarrow> supervisor \<Rightarrow> supervisor" where
  "onMonitorDegraded deps reason s =
     (if sv_stopped s \<or> sv_retired s \<or> \<not> supervising s \<or> isSettled s \<or> he_stream (sv_health s) then s
      else emit deps EvMonitorDegraded
             (''supervision lost its Herdr event connection ('' @ reason @ '') and is retrying'')
             (Some [(''reason'', DetStr reason)]) None
             (refreshActiveState (s\<lparr>sv_health := (sv_health s)\<lparr>he_stream := True\<rparr>\<rparr>)))"

definition onMonitorRecovered :: "sup_deps \<Rightarrow> supervisor \<Rightarrow> supervisor" where
  "onMonitorRecovered deps s =
     (if sv_stopped s \<or> sv_retired s \<or> \<not> supervising s \<or> isSettled s \<or> \<not> he_stream (sv_health s) then s
      else emit deps EvMonitorRecovered ''supervision restored its Herdr event connection'' None None
             (refreshActiveState (s\<lparr>sv_health := (sv_health s)\<lparr>he_stream := False\<rparr>\<rparr>)))"

definition onReconciliationFailure :: "sup_deps \<Rightarrow> reconciliation_failure \<Rightarrow> supervisor \<Rightarrow> supervisor" where
  "onReconciliationFailure deps r s =
     (if sv_stopped s \<or> isSettled s \<or> sv_retired s then s
      else if pv_binding (sv_prov s) \<noteq> None \<and> \<not> sv_bound s
      then markProvisionalFailure deps (''reconciliation_'' @ failure_name r) s
      else if po_identity (sv_pos s) = None then s
      else markReconciliationFailure deps r s)"

section \<open>Status folding\<close>

definition clearReviewTimer :: "supervisor \<Rightarrow> supervisor" where
  "clearReviewTimer s = s\<lparr>sv_review := (sv_review s)\<lparr>re_timer := None\<rparr>\<rparr>"

definition armReview :: "int \<Rightarrow> supervisor \<Rightarrow> supervisor" where
  "armReview delay s = s\<lparr>sv_review := (sv_review s)\<lparr>re_timer := Some delay\<rparr>\<rparr>"

definition enterStatus :: "sup_deps \<Rightarrow> sup_status \<Rightarrow> supervisor \<Rightarrow> supervisor" where
  "enterStatus deps status s =
     (let s1 = clearReviewTimer s in
      if \<not> sv_bound s1 \<or> status \<noteq> StWorking then s1\<lparr>sv_review := (sv_review s1)\<lparr>re_since := None\<rparr>\<rparr>
      else let s2 = s1\<lparr>sv_review := (sv_review s1)\<lparr>re_since := Some (sv_now s1), re_run := Suc (re_run (sv_review s1))\<rparr>\<rparr>
           in if sv_retired s2 then s2 else armReview (sd_cadenceMs deps) s2)"

definition at_rest :: "sup_status option \<Rightarrow> bool" where
  "at_rest st \<longleftrightarrow> st = Some StIdle \<or> st = Some StDone \<or> st = Some StBlocked"

text \<open>The guard of the completion reads, at scheduling and again when the task runs.\<close>

definition completion_due :: "supervisor \<Rightarrow> bool" where
  "completion_due s \<longleftrightarrow> \<not> sv_stopped s \<and> sv_bound s \<and> \<not> isSettled s \<and> at_rest (po_status (sv_pos s))"

definition enqueue :: "task \<Rightarrow> supervisor \<Rightarrow> supervisor" where
  "enqueue t s = s\<lparr>sv_chain := sv_chain s @ [t]\<rparr>"

definition scheduleCompletionSignal :: "supervisor \<Rightarrow> supervisor" where
  "scheduleCompletionSignal s =
     (if \<not> completion_due s \<or> cy_recorded (sv_cycle s) \<or> \<not> cy_signal (sv_cycle s) then s else enqueue TkCompletion s)"

definition scheduleHandoffEvaluation :: "sup_deps \<Rightarrow> supervisor \<Rightarrow> supervisor" where
  "scheduleHandoffEvaluation deps s =
     (if \<not> sd_gate deps \<or> sv_stopped s \<or> isSettled s then s else enqueue TkHandoff s)"

definition flushPendingCycleEvent :: "sup_deps \<Rightarrow> supervisor \<Rightarrow> supervisor" where
  "flushPendingCycleEvent deps s =
     (case cy_pending (sv_cycle s) of
        None \<Rightarrow> s
      | Some (summary, details) \<Rightarrow>
          emit deps EvWorkCycleCompleted summary (Some details) (Some (cy_deliverable (sv_cycle s), None))
            (s\<lparr>sv_cycle := (sv_cycle s)\<lparr>cy_pending := None\<rparr>\<rparr>))"

text \<open>An authoritative working transition opens a fresh artifact cycle.\<close>

definition open_cycle :: "sup_deps \<Rightarrow> supervisor \<Rightarrow> supervisor" where
  "open_cycle deps s =
     (let s1 = s\<lparr>sv_cycle := (sv_cycle s)\<lparr>cy_recorded := False, cy_started := cy_terminal (sv_cycle s)\<rparr>\<rparr> in
      case managedRun deps s1 of
        None \<Rightarrow> s1
      | Some r \<Rightarrow> let s2 = with_run beginCycle s1 in
          if mr_lifecycle r = LcHandedOff then put_out (FxMarkCycle (mr_runId r) ''cycle_reopened'') s2 else s2)"

definition close_cycle :: "sup_deps \<Rightarrow> supervisor \<Rightarrow> supervisor" where
  "close_cycle deps s =
     scheduleHandoffEvaluation deps (scheduleCompletionSignal
       (s\<lparr>sv_cycle := (sv_cycle s)\<lparr>cy_terminal := Some (sv_now s),
            cy_deliverable := (\<not> sv_retired s \<or> cycle_open deps s)\<rparr>\<rparr>))"

definition transition_text :: "sup_status \<Rightarrow> sup_status \<Rightarrow> string" where
  "transition_text st st' = ''child '' @ status_name st @ '' -> '' @ status_name st'"

definition transition_details :: "sup_status \<Rightarrow> sup_status \<Rightarrow> nat \<Rightarrow> (string \<times> detail) list" where
  "transition_details st st' revision =
     [(''from'', DetStr (status_name st)), (''to'', DetStr (status_name st')), (''revision'', DetNum (int revision))]"

definition announce_transition :: "sup_deps \<Rightarrow> sup_status \<Rightarrow> sup_status \<Rightarrow> nat \<Rightarrow> supervisor \<Rightarrow> supervisor" where
  "announce_transition deps st st' revision s =
     (case materialTransitionEvent st st' of
        None \<Rightarrow> publish_text (transition_text st st') s
      | Some m \<Rightarrow>
          if m = EvWorkCycleCompleted \<and> cy_signal (sv_cycle s)
          then (if cy_recorded (sv_cycle s) then s
                else s\<lparr>sv_cycle := (sv_cycle s)\<lparr>cy_pending := Some (transition_text st st', transition_details st st' revision)\<rparr>\<rparr>)
          else emit deps m (transition_text st st') (Some (transition_details st st' revision)) None s)"

definition push_transition :: "sup_status \<Rightarrow> sup_status \<Rightarrow> nat \<Rightarrow> transition_source \<Rightarrow> supervisor \<Rightarrow> supervisor" where
  "push_transition st st' revision source s =
     s\<lparr>sv_transitions := history_push
         \<lparr>st_atMs = sv_now s, st_from = st, st_to = st', st_revision = revision, st_source = source\<rparr> (sv_transitions s),
       sv_cycle := (sv_cycle s)\<lparr>cy_attempts := 0, cy_retry := False\<rparr>\<rparr>"

definition applyStatus :: "sup_deps \<Rightarrow> sup_status \<Rightarrow> nat \<Rightarrow> transition_source \<Rightarrow> supervisor \<Rightarrow> supervisor" where
  "applyStatus deps st' revision source s =
     (let st = the (po_status (sv_pos s)) in
      if st = st' then scheduleCompletionSignal s
      else let s1 = s\<lparr>sv_pos := (sv_pos s)\<lparr>po_status := Some st'\<rparr>\<rparr> in
        if st = StDone \<and> st' = StIdle then scheduleCompletionSignal (enterStatus deps st' s1)
        else let s2 = flushPendingCycleEvent deps (push_transition st st' revision source s1);
                 s3 = (if st' = StWorking then open_cycle deps s2 else s2);
                 s4 = enterStatus deps st' s3;
                 s5 = (if at_rest (Some st') then close_cycle deps s4 else s4)
             in announce_transition deps st st' revision s5)"

section \<open>Revisions and lifecycle sequences\<close>

datatype seq_observation = SeqAdvanced | SeqUnchanged | SeqMissing | SeqRegressed

definition compareStateChangeSeq :: "nat option \<Rightarrow> nat option \<Rightarrow> seq_observation" where
  "compareStateChangeSeq previous observed =
     (case (previous, observed) of
        (Some p, Some q) \<Rightarrow> if q < p then SeqRegressed else if q = p then SeqUnchanged else SeqAdvanced
      | _ \<Rightarrow> SeqMissing)"

definition observe_seq :: "nat option \<Rightarrow> nat option \<Rightarrow> nat option" where
  "observe_seq previous observed =
     (if observed \<noteq> None \<and> compareStateChangeSeq previous observed \<noteq> SeqRegressed then observed else previous)"

definition observeStateChangeSeq :: "nat option \<Rightarrow> supervisor \<Rightarrow> supervisor" where
  "observeStateChangeSeq observed s = s\<lparr>sv_pos := (sv_pos s)\<lparr>po_seq := observe_seq (po_seq (sv_pos s)) observed\<rparr>\<rparr>"

definition lifecycleSequenceRegressed :: "nat option \<Rightarrow> supervisor \<Rightarrow> bool" where
  "lifecycleSequenceRegressed observed s \<longleftrightarrow> compareStateChangeSeq (po_seq (sv_pos s)) observed = SeqRegressed"

definition set_endpoint :: "endpoint \<Rightarrow> supervisor \<Rightarrow> supervisor" where
  "set_endpoint ep s = s\<lparr>sv_pos := (sv_pos s)\<lparr>po_endpoint := Some ep\<rparr>\<rparr>"

definition set_revision :: "nat \<Rightarrow> supervisor \<Rightarrow> supervisor" where
  "set_revision r s = s\<lparr>sv_pos := (sv_pos s)\<lparr>po_revision := r\<rparr>\<rparr>"

definition pane_endpoint :: "pane_record \<Rightarrow> endpoint" where
  "pane_endpoint p = \<lparr>ep_revision = pn_revision p, ep_status = pn_status p, ep_seq = pn_seq p\<rparr>"

definition applyEventRevision :: "sup_deps \<Rightarrow> pane_record \<Rightarrow> supervisor \<Rightarrow> supervisor" where
  "applyEventRevision deps p s =
     (if po_endpoint (sv_pos s) = Some (pane_endpoint p) then s
      else let previous = po_revision (sv_pos s); previousSeq = po_seq (sv_pos s);
               s1 = set_endpoint (pane_endpoint p) s;
               s2 = (if previous + 1 < pn_revision p
                     then recordEvidenceGap deps FromEvent GapRevisionJump previous (pn_revision p)
                            (Some (pn_revision p - previous - 1)) None None s1
                     else s1);
               sequence = compareStateChangeSeq previousSeq (pn_seq p);
               s3 = observeStateChangeSeq (pn_seq p) s2;
               gap = recordEvidenceGap deps FromEvent GapStatusWithoutRevision previous (pn_revision p) None previousSeq (pn_seq p)
           in if sequence = SeqRegressed then gap s3
              else if pn_revision p = previous
              then (if Some (pn_status p) = po_status (sv_pos s3) then scheduleCompletionSignal s3
                    else applyStatus deps (pn_status p) (pn_revision p) FromEvent
                           (if sequence \<noteq> SeqAdvanced then gap s3 else s3))
              else applyStatus deps (pn_status p) (pn_revision p) FromEvent (set_revision (pn_revision p) s3))"

definition applySnapshotRevision :: "sup_deps \<Rightarrow> occupant \<Rightarrow> supervisor \<Rightarrow> supervisor" where
  "applySnapshotRevision deps occ s =
     (let p = oc_pane occ; previous = po_revision (sv_pos s); previousSeq = po_seq (sv_pos s);
          sequence = compareStateChangeSeq previousSeq (oc_seq occ);
          s1 = set_endpoint \<lparr>ep_revision = pn_revision p, ep_status = pn_status p, ep_seq = oc_seq occ\<rparr>
                 (observeStateChangeSeq (oc_seq occ) s)
      in if pn_revision p = previous
         then (if Some (pn_status p) = po_status (sv_pos s1) then scheduleCompletionSignal s1
               else applyStatus deps (pn_status p) (pn_revision p) FromSnapshot
                      (if sequence \<noteq> SeqAdvanced
                       then recordEvidenceGap deps FromSnapshot GapStatusWithoutRevision previous (pn_revision p) None
                              previousSeq (oc_seq occ) s1
                       else s1))
         else applyStatus deps (pn_status p) (pn_revision p) FromSnapshot
                (set_revision (pn_revision p)
                  (recordEvidenceGap deps FromSnapshot GapRevisionJump previous (pn_revision p) None None None s1)))"

section \<open>Settlement\<close>

definition begin_await :: "await \<Rightarrow> supervisor \<Rightarrow> supervisor" where
  "begin_await a s = s\<lparr>sv_await := Some a\<rparr>"

text \<open>\<open>resolveSettled\<close>: only the first call of a promise's resolver counts.\<close>

definition resolve_settled :: "supervisor \<Rightarrow> supervisor" where
  "resolve_settled s = (if sv_resolved s = None then s\<lparr>sv_resolved := sv_settlement s\<rparr> else s)"

definition outcome_name :: "sup_outcome \<Rightarrow> string" where
  "outcome_name oc = (case oc of OcReleased \<Rightarrow> ''released'' | OcIdentityReplaced \<Rightarrow> ''identity_replaced''
     | OcIdentityLost \<Rightarrow> ''identity_lost'' | OcCancelled \<Rightarrow> ''cancelled'' | OcFailed \<Rightarrow> ''failed'')"

definition stop_timers :: "supervisor \<Rightarrow> supervisor" where
  "stop_timers s = (clearReviewTimer s)\<lparr>sv_cycle := (sv_cycle s)\<lparr>cy_retry := False\<rparr>, sv_observing := False\<rparr>"

definition settle_finish :: "sup_outcome \<Rightarrow> string \<Rightarrow> supervisor \<Rightarrow> supervisor" where
  "settle_finish oc reason s =
     resolve_settled (publish_text (''supervision settled '' @ outcome_name oc)
       (stop_timers (s\<lparr>sv_state := SsSettled, sv_settlement := Some (oc, reason)\<rparr>)))"

definition recordOutcome :: "managed_run \<Rightarrow> run_lifecycle \<Rightarrow> string option \<Rightarrow> supervisor \<Rightarrow> supervisor" where
  "recordOutcome r lc detail s = put_out (FxRecordOutcome (mr_runId r) lc detail) s"

definition limited_run :: "supervisor \<Rightarrow> managed_run \<Rightarrow> bool" where
  "limited_run s r \<longleftrightarrow> cy_recorded (sv_cycle s) \<and> (mr_lifecycle r = LcAwaitingHandoff \<or> mr_lifecycle r = LcHandedOff)"

definition record_exit :: "managed_run \<Rightarrow> bool \<Rightarrow> bool \<Rightarrow> sup_outcome \<Rightarrow> string \<Rightarrow> cont \<Rightarrow> supervisor \<Rightarrow> supervisor" where
  "record_exit r handedOff limited oc reason c s =
     begin_await (AwExitRecord oc reason c)
       (if handedOff then recordOutcome r LcHandedOff (Some (if limited then ''provider_limit'' else reason)) s
        else if limited then recordOutcome r LcFailed (Some ''provider_limit'') s
        else recordOutcome r LcCancelled (Some reason) s)"

definition persistHandoffOutcome :: "sup_deps \<Rightarrow> sup_outcome \<Rightarrow> string \<Rightarrow> cont \<Rightarrow> supervisor \<Rightarrow> supervisor" where
  "persistHandoffOutcome deps oc reason c s =
     (if oc \<noteq> OcReleased \<and> oc \<noteq> OcIdentityReplaced then settle_finish oc reason s
      else case managedRun deps s of
        None \<Rightarrow> settle_finish oc reason s
      | Some r \<Rightarrow>
          if mr_lifecycle r \<noteq> LcAwaitingHandoff \<and> \<not> limited_run s r then settle_finish oc reason s
          else if mr_lifecycle r = LcAwaitingHandoff
          then begin_await (AwExitValidate oc reason (limited_run s r) r c) s
          else record_exit r False (limited_run s r) oc reason c s)"

definition settle_rest :: "sup_deps \<Rightarrow> sup_outcome \<Rightarrow> string \<Rightarrow> cont \<Rightarrow> supervisor \<Rightarrow> supervisor" where
  "settle_rest deps oc reason c s = persistHandoffOutcome deps oc reason c (flushPendingCycleEvent deps s)"

text \<open>The end of one read of the completion signal, in the task that scheduled it or in a settlement.\<close>

definition completion_task_end :: "sup_deps \<Rightarrow> supervisor \<Rightarrow> supervisor" where
  "completion_task_end deps s =
     (let cy = sv_cycle s in
      if cy_recorded cy then s
      else let n = cy_attempts cy + 1; s1 = s\<lparr>sv_cycle := cy\<lparr>cy_attempts := n\<rparr>\<rparr> in
        if n < 3 \<and> \<not> cy_retry cy then s1\<lparr>sv_cycle := (sv_cycle s1)\<lparr>cy_retry := True\<rparr>\<rparr>
        else if 3 \<le> n
        then let s2 = flushPendingCycleEvent deps s1;
                 newest_to = map_option st_to (history_last (sv_transitions s2)); status = po_status (sv_pos s2)
             in if newest_to = status \<or> (newest_to = Some StDone \<and> status = Some StIdle)
                then scheduleHandoffEvaluation deps s2 else s2
        else s1)"

definition finish_signal :: "sup_deps \<Rightarrow> signal_end \<Rightarrow> supervisor \<Rightarrow> supervisor" where
  "finish_signal deps e s =
     (case e of
        SignalTask \<Rightarrow> completion_task_end deps s
      | SignalSettle oc reason c \<Rightarrow>
          if \<not> cy_recorded (sv_cycle s) then begin_await (AwFlush oc reason c) s else settle_rest deps oc reason c s
      | SignalSettleAgain oc reason c \<Rightarrow> settle_rest deps oc reason c s)"

definition recordCompletionSignal :: "sup_deps \<Rightarrow> signal_end \<Rightarrow> supervisor \<Rightarrow> supervisor" where
  "recordCompletionSignal deps e s =
     (if cy_recorded (sv_cycle s) \<or> \<not> cy_signal (sv_cycle s) \<or> po_identity (sv_pos s) = None then finish_signal deps e s
      else begin_await (AwSignal e) s)"

definition quota_gap :: "sup_deps \<Rightarrow> supervisor \<Rightarrow> supervisor" where
  "quota_gap deps s =
     (if cy_logDegraded (sv_cycle s) then s
      else emit deps EvEvidenceGap ''Claude quota cooldown could not be recorded''
             (Some [(''reason'', DetStr ''availability_record_unavailable'')]) None
             (s\<lparr>sv_cycle := (sv_cycle s)\<lparr>cy_logDegraded := True\<rparr>\<rparr>))"

definition opt_detail :: "string \<Rightarrow> string option \<Rightarrow> (string \<times> detail) list" where
  "opt_detail k v = (case v of None \<Rightarrow> [] | Some x \<Rightarrow> [(k, DetStr x)])"

definition provider_limited :: "sup_deps \<Rightarrow> bool \<Rightarrow> string option \<Rightarrow> (string \<times> detail) list \<Rightarrow> supervisor \<Rightarrow> supervisor" where
  "provider_limited deps cooldown retry recovery s =
     (let s1 = s\<lparr>sv_cycle := (sv_cycle s)\<lparr>cy_recorded := True, cy_pending := None\<rparr>\<rparr>;
          point = (case sv_point s of None \<Rightarrow> sd_operatingPointId deps | Some p \<Rightarrow> p);
          s2 = emit deps EvProviderLimit ''child hit a typed provider limit after start; close it before recovery''
                 (Some ([(''code'', DetStr ''PROVIDER_LIMIT''), (''operatingPointId'', DetStr point)]
                    @ opt_detail ''runId'' (map_option mr_runId (managedRun deps s))
                    @ opt_detail ''retryNotBefore'' retry @ recovery))
                 (Some (cy_deliverable (sv_cycle s1), Some \<lparr>li_operatingPointId = point, li_retryNotBefore = retry\<rparr>)) s1
      in if cooldown then s2 else quota_gap deps s2)"

definition on_signal :: "sup_deps \<Rightarrow> signal_end \<Rightarrow> signal_answer \<Rightarrow> supervisor \<Rightarrow> supervisor" where
  "on_signal deps e a s =
     (case a of
        SignalNone \<Rightarrow> finish_signal deps e s
      | SignalThrew \<Rightarrow> finish_signal deps e (quota_gap deps s)
      | SignalLimit cooldown retry recovery \<Rightarrow>
          (let s1 = provider_limited deps cooldown retry recovery s in
           case managedRun deps s of
             None \<Rightarrow> finish_signal deps e s1
           | Some r \<Rightarrow> begin_await (AwMark e) (put_out (FxMarkCycle (mr_runId r) ''provider_limit'') s1)))"

definition settle :: "sup_deps \<Rightarrow> sup_outcome \<Rightarrow> string \<Rightarrow> cont \<Rightarrow> supervisor \<Rightarrow> supervisor" where
  "settle deps oc reason c s =
     (if isSettled s then s
      else let s1 = (if oc = OcIdentityLost
                     then emit deps EvIdentityLost (''supervision lost the exact child's identity ('' @ reason @ '')'')
                            (Some [(''reason'', DetStr reason)]) None s
                     else s)
           in if (oc = OcReleased \<or> oc = OcIdentityReplaced \<or> oc = OcIdentityLost)
                 \<and> cy_signal (sv_cycle s1) \<and> \<not> cy_recorded (sv_cycle s1) \<and> po_identity (sv_pos s1) \<noteq> None
              then recordCompletionSignal deps (SignalSettle oc reason c) s1
              else settle_rest deps oc reason c s1)"

definition settle_emitting :: "sup_deps \<Rightarrow> event_type \<Rightarrow> sup_outcome \<Rightarrow> string \<Rightarrow> string \<Rightarrow> cont \<Rightarrow> supervisor \<Rightarrow> supervisor" where
  "settle_emitting deps t oc trigger summary c s =
     settle deps oc trigger c (emit deps t summary (Some [(''trigger'', DetStr trigger)]) None s)"

definition settleWithEvent :: "sup_deps \<Rightarrow> event_type \<Rightarrow> sup_outcome \<Rightarrow> string \<Rightarrow> string \<Rightarrow> cont \<Rightarrow> supervisor \<Rightarrow> supervisor" where
  "settleWithEvent deps t oc trigger summary c s =
     (if t = EvPaneClosed \<and> sd_selfClose deps then begin_await (AwSelfClose oc trigger summary c) s
      else settle_emitting deps t oc trigger summary c s)"

section \<open>Moves\<close>

definition currentPaneId :: "supervisor \<Rightarrow> string" where
  "currentPaneId s =
     (case po_moveDest (sv_pos s) of Some p \<Rightarrow> pn_paneId p | None \<Rightarrow> si_paneId (the (po_identity (sv_pos s))))"

definition matches_pane :: "string \<Rightarrow> supervisor \<Rightarrow> bool" where
  "matches_pane pane s \<longleftrightarrow> \<not> sv_stopped s
     \<and> (po_paneId (sv_pos s) = Some pane \<or> (case po_moveDest (sv_pos s) of None \<Rightarrow> False | Some p \<Rightarrow> pn_paneId p = pane))"

text \<open>The loop over the retained endpoints: each sequence keeps one status, and none is past the occupant's.\<close>

fun endpoints_conflict :: "endpoint list \<Rightarrow> (nat \<times> sup_status) list \<Rightarrow> occupant \<Rightarrow> reconciliation_failure option" where
  "endpoints_conflict [] retained occ = None"
| "endpoints_conflict (e # es) retained occ =
     (case ep_seq e of
        None \<Rightarrow> endpoints_conflict es retained occ
      | Some n \<Rightarrow>
          (case map_of retained n of
             Some st \<Rightarrow> if st \<noteq> ep_status e then Some RfTargetIdentityContradiction
                        else (case oc_seq occ of
                                None \<Rightarrow> endpoints_conflict es (al_put n (ep_status e) retained) occ
                              | Some m \<Rightarrow> if m < n then Some RfRevisionRegressed
                                  else if n = m \<and> ep_status e \<noteq> pn_status (oc_pane occ) then Some RfTargetIdentityContradiction
                                  else endpoints_conflict es (al_put n (ep_status e) retained) occ)
           | None \<Rightarrow> (case oc_seq occ of
                        None \<Rightarrow> endpoints_conflict es (al_put n (ep_status e) retained) occ
                      | Some m \<Rightarrow> if m < n then Some RfRevisionRegressed
                          else if n = m \<and> ep_status e \<noteq> pn_status (oc_pane occ) then Some RfTargetIdentityContradiction
                          else endpoints_conflict es (al_put n (ep_status e) retained) occ)))"

definition mergeMoveOccupant :: "endpoint list \<Rightarrow> pane_record \<Rightarrow> occupant \<Rightarrow> (reconciliation_failure, occupant) result" where
  "mergeMoveOccupant endpoints eventPane occ =
     (if pn_revision (oc_pane occ) < pn_revision eventPane then Inl RfRevisionRegressed
      else case endpoints_conflict endpoints [] occ of
        Some r \<Rightarrow> Inl r
      | None \<Rightarrow>
          if pn_seq eventPane = None \<or> oc_seq occ \<noteq> None then Inr occ
          else if pn_revision (oc_pane occ) \<noteq> pn_revision eventPane \<or> pn_status (oc_pane occ) \<noteq> pn_status eventPane
          then Inl RfTargetIdentityContradiction
          else Inr (occ\<lparr>oc_pane := (oc_pane occ)\<lparr>pn_seq := pn_seq eventPane\<rparr>, oc_seq := pn_seq eventPane\<rparr>))"

fun applyMoveEndpoints :: "sup_deps \<Rightarrow> endpoint list \<Rightarrow> nat option \<Rightarrow> supervisor \<Rightarrow> supervisor" where
  "applyMoveEndpoints deps [] previousSeq s = s"
| "applyMoveEndpoints deps (e # es) previousSeq s =
     (let sequence = compareStateChangeSeq previousSeq (ep_seq e);
          s1 = set_endpoint e s;
          nextSeq = (if ep_seq e \<noteq> None \<and> sequence \<noteq> SeqRegressed then ep_seq e else previousSeq);
          gap = recordEvidenceGap deps FromEvent GapStatusWithoutRevision (ep_revision e) (ep_revision e) None
                  previousSeq (ep_seq e)
      in if sequence = SeqRegressed then applyMoveEndpoints deps es nextSeq (gap s1)
         else let s2 = (if Some (ep_status e) \<noteq> po_status (sv_pos s1) \<and> (previousSeq \<noteq> None \<or> ep_seq e \<noteq> None)
                           \<and> sequence \<noteq> SeqAdvanced
                        then gap s1 else s1)
              in applyMoveEndpoints deps es nextSeq (applyStatus deps (ep_status e) (ep_revision e) FromEvent s2))"

definition set_anchor :: "nat \<Rightarrow> supervisor \<Rightarrow> supervisor" where
  "set_anchor r s = s\<lparr>sv_pos := (sv_pos s)\<lparr>po_anchor := Some \<lparr>an_revision = r, an_status = the (po_status (sv_pos s)),
     an_seq = po_seq (sv_pos s)\<rparr>\<rparr>\<rparr>"

definition rebase :: "sup_identity \<Rightarrow> supervisor \<Rightarrow> supervisor" where
  "rebase i s =
     s\<lparr>sv_pos := (sv_pos s)\<lparr>po_moveEndpoints := [], po_moveDest := None, po_moveSeq := None,
         po_generation := Suc (po_generation (sv_pos s)), po_identity := Some i, po_paneId := Some (si_paneId i)\<rparr>\<rparr>"

definition adoptMove :: "sup_deps \<Rightarrow> sup_identity \<Rightarrow> occupant \<Rightarrow> pane_record \<Rightarrow> supervisor \<Rightarrow> supervisor" where
  "adoptMove deps i occ moveEvent s =
     (let endpoints = po_moveEndpoints (sv_pos s); initialSeq = po_moveSeq (sv_pos s);
          s1 = rebase i s;
          s2 = (if managedRun deps s1 = None then s1 else with_run (notePane (si_paneId i)) s1);
          s3 = set_anchor (pn_revision moveEvent) (set_revision (pn_revision moveEvent) s2);
          s4 = publish_text (''child moved to pane '' @ si_paneId i) s3;
          s5 = applySnapshotRevision deps occ (applyMoveEndpoints deps endpoints initialSeq s4)
      in set_anchor (po_revision (sv_pos s5)) s5)"

section \<open>Authoritative snapshots\<close>

definition ownerPresent :: "snapshot \<Rightarrow> sup_owner option \<Rightarrow> bool" where
  "ownerPresent sn owner =
     (case owner of
        None \<Rightarrow> True
      | Some w \<Rightarrow> (case sw_session w of
            None \<Rightarrow> list_ex (\<lambda>p. jget ''pane_id'' p = JStr (sw_paneId w)) (sn_panes sn)
          | Some session \<Rightarrow> findSessionPane sn session \<noteq> None))"

definition observeOwner :: "snapshot \<Rightarrow> supervisor \<Rightarrow> supervisor" where
  "observeOwner sn s =
     s\<lparr>sv_review := (sv_review s)\<lparr>re_paused := (sv_owner s \<noteq> None \<and> \<not> ownerPresent sn (sv_owner s))\<rparr>\<rparr>"

definition classifyTarget :: "sup_identity \<Rightarrow> snapshot \<Rightarrow> string \<Rightarrow> target_evidence" where
  "classifyTarget i sn pane =
     (if si_agentKind i = ''agy'' then classifyProvisionalSnapshotTarget sn pane else classifySnapshotTarget sn pane)"

text \<open>The continuous occupant: the pending move completes, or the revision is folded.\<close>

definition fold_occupant :: "sup_deps \<Rightarrow> occupant \<Rightarrow> supervisor \<Rightarrow> supervisor" where
  "fold_occupant deps occ s =
     (case po_moveDest (sv_pos s) of
        Some moved \<Rightarrow>
          (case mergeMoveOccupant (po_moveEndpoints (sv_pos s)) moved occ of
             Inl r \<Rightarrow> markReconciliationFailure deps r s
           | Inr occ' \<Rightarrow>
               if lifecycleSequenceRegressed (oc_seq occ') s then markReconciliationFailure deps RfRevisionRegressed s
               else adoptMove deps ((the (po_identity (sv_pos s)))\<lparr>si_paneId := pn_paneId moved\<rparr>) occ' moved
                      (markReconciliationSuccess deps s))
      | None \<Rightarrow>
          if pn_revision (oc_pane occ) < po_revision (sv_pos s) \<or> lifecycleSequenceRegressed (oc_seq occ) s
          then markReconciliationFailure deps RfRevisionRegressed s
          else applySnapshotRevision deps occ (markReconciliationSuccess deps s))"

datatype missing_outcome = MissingIdentityLost | MissingReleased

definition gone_text :: "string \<Rightarrow> string" where
  "gone_text trigger = ''the child agent is no longer present in its pane ('' @ trigger @ '')''"

definition applyAuthoritativeSnapshot :: "sup_deps \<Rightarrow> snapshot \<Rightarrow> string \<Rightarrow> missing_outcome \<Rightarrow> cont \<Rightarrow> supervisor \<Rightarrow> supervisor" where
  "applyAuthoritativeSnapshot deps sn trigger missing c s0 =
     (let s = observeOwner sn s0; i = the (po_identity (sv_pos s)) in
      case classifyTarget i sn (currentPaneId s) of
        TargetInvalid r \<Rightarrow> markReconciliationFailure deps r s
      | TargetAbsent \<Rightarrow>
          (let s1 = markReconciliationSuccess deps s in
           if missing = MissingIdentityLost then settle deps OcIdentityLost ''reconnect_identity_unproven'' c s1
           else settleWithEvent deps EvPaneClosed OcReleased trigger
                  (''the child's pane is no longer present ('' @ trigger @ '')'') c s1)
      | TargetUnique occ \<Rightarrow>
          if \<not> oc_agentPresent occ
          then settleWithEvent deps EvReleased OcReleased trigger (gone_text trigger) c (markReconciliationSuccess deps s)
          else case occupantContinuity i occ of
            Replaced \<Rightarrow> settleWithEvent deps EvIdentityReplaced OcIdentityReplaced trigger
                (''the child's pane is now occupied by a different agent ('' @ trigger @ '')'') c (markReconciliationSuccess deps s)
          | Unproven \<Rightarrow> settleWithEvent deps EvReleased OcReleased trigger (gone_text trigger) c (markReconciliationSuccess deps s)
          | Continuous \<Rightarrow> fold_occupant deps occ s)"

definition reconciliationFailureReason :: "string \<Rightarrow> reconciliation_failure" where
  "reconciliationFailureReason code =
     (if code = ''SUPERVISION_SOCKET_UNAVAILABLE'' then RfConnectFailed
      else if code = ''CLI_PROTOCOL_ERROR'' \<or> code = ''SUPERVISION_PROTOCOL_ERROR'' then RfSnapshotProtocolInvalid
      else RfRequestFailed)"

definition reconcile :: "string \<Rightarrow> cont \<Rightarrow> supervisor \<Rightarrow> supervisor" where
  "reconcile trigger c s = begin_await (AwReconcile trigger c) s"

text \<open>The two halves of \<open>followMove\<close>, before and after its snapshot.\<close>

definition note_move :: "pane_record \<Rightarrow> supervisor \<Rightarrow> supervisor" where
  "note_move p s =
     (let first = (po_moveDest (sv_pos s) = None);
          s1 = (if first then s\<lparr>sv_pos := (sv_pos s)\<lparr>po_moveEndpoints := [], po_moveSeq := po_seq (sv_pos s)\<rparr>\<rparr> else s);
          s2 = s1\<lparr>sv_pos := (sv_pos s1)\<lparr>po_moveDest := Some p, po_generation := Suc (po_generation (sv_pos s1))\<rparr>\<rparr>;
          s3 = observeStateChangeSeq (pn_seq p) s2;
          s4 = s3\<lparr>sv_pos := (sv_pos s3)\<lparr>po_moveEndpoints := po_moveEndpoints (sv_pos s3) @ [pane_endpoint p]\<rparr>\<rparr>
      in set_endpoint (pane_endpoint p) s4)"

definition followMove :: "socket_event \<Rightarrow> pane_record \<Rightarrow> cont \<Rightarrow> supervisor \<Rightarrow> supervisor" where
  "followMove e p c s =
     (if so_previous e \<noteq> Some (currentPaneId s) then reconcile ''event:move_foreign_previous_pane'' c s
      else if paneContinuity (the (po_identity (sv_pos s))) p \<noteq> Continuous then reconcile ''event:move_identity_unproven'' c s
      else begin_await (AwMove p c) (note_move p s))"

definition move_answered :: "sup_deps \<Rightarrow> pane_record \<Rightarrow> cont \<Rightarrow> snapshot \<Rightarrow> supervisor \<Rightarrow> supervisor" where
  "move_answered deps p c sn s =
     (let i = the (po_identity (sv_pos s)) in
      case classifyTarget i sn (pn_paneId p) of
        TargetInvalid r \<Rightarrow> markReconciliationFailure deps r s
      | TargetAbsent \<Rightarrow> settle deps OcIdentityLost ''move_continuity_unproven'' c s
      | TargetUnique occ \<Rightarrow>
          if \<not> oc_agentPresent occ then settle deps OcIdentityLost ''move_continuity_unproven'' c s
          else case mergeMoveOccupant (po_moveEndpoints (sv_pos s)) p occ of
            Inl r \<Rightarrow> markReconciliationFailure deps r s
          | Inr occ' \<Rightarrow>
              (case movedIdentity i p occ' of
                 None \<Rightarrow> settle deps OcIdentityLost ''move_continuity_unproven'' c s
               | Some i' \<Rightarrow>
                   if lifecycleSequenceRegressed (oc_seq occ') s then markReconciliationFailure deps RfRevisionRegressed s
                   else adoptMove deps i' occ' p (markReconciliationSuccess deps s)))"

section \<open>Provisional evidence\<close>

definition sup_identity_of :: "prov_identity \<Rightarrow> agent_session \<Rightarrow> sup_identity" where
  "sup_identity_of i session = \<lparr>si_paneId = vi_paneId i, si_terminalId = vi_terminalId i, si_agentName = vi_agentName i,
     si_agentKind = vi_agentKind i, si_session = session\<rparr>"

text \<open>
  The native session an observation of the provisional child carries: the first one is retained, a
  missing or different one afterwards is a mismatch.
\<close>

definition native_mismatch :: "sup_identity option \<Rightarrow> prov_identity \<Rightarrow> agent_session option \<Rightarrow> bool" where
  "native_mismatch native i session =
     (case session of
        Some x \<Rightarrow> as_agent x \<noteq> vi_agentKind i
          \<or> (case native of None \<Rightarrow> False | Some j \<Rightarrow> \<not> sameSupervisedIdentity j (sup_identity_of i x))
      | None \<Rightarrow> native \<noteq> None)"

definition retain_native :: "prov_identity \<Rightarrow> agent_session option \<Rightarrow> supervisor \<Rightarrow> supervisor" where
  "retain_native i session s =
     s\<lparr>sv_prov := (sv_prov s)\<lparr>pv_native := orElse (pv_native (sv_prov s)) (map_option (sup_identity_of i) session)\<rparr>\<rparr>"

definition advance_lifecycle :: "int \<Rightarrow> sup_status \<Rightarrow> nat \<Rightarrow> nat \<Rightarrow> prov_lifecycle \<Rightarrow> prov_lifecycle" where
  "advance_lifecycle now status revision seq l =
     l\<lparr>pl_events := (if status \<noteq> pl_status l
          then pl_events l @ [\<lparr>st_atMs = now, st_from = pl_status l, st_to = status, st_revision = revision, st_source = FromEvent\<rparr>]
          else pl_events l),
       pl_revision := revision, pl_seq := seq, pl_status := status\<rparr>"

definition fold_retained :: "sup_deps \<Rightarrow> prov_binding \<Rightarrow> sup_status \<times> nat \<times> nat option \<Rightarrow> supervisor \<Rightarrow> supervisor" where
  "fold_retained deps b lifecycle s =
     (let (status, revision, seq) = lifecycle; l = the (pv_lifecycle (sv_prov s)) in
      if revision < pl_revision l then markProvisionalFailure deps ''revision_regressed'' s
      else case seq of
        None \<Rightarrow> if revision \<noteq> bl_revision (pb_baseline b) then markProvisionalFailure deps ''lifecycle_not_advanced'' s else s
      | Some n \<Rightarrow>
          if n < pl_seq l then markProvisionalFailure deps ''lifecycle_regressed'' s
          else if revision = pl_revision l \<and> n = pl_seq l
          then (if status \<noteq> pl_status l then markProvisionalFailure deps ''lifecycle_contradiction'' s else s)
          else s\<lparr>sv_prov := (sv_prov s)\<lparr>pv_lifecycle := Some (advance_lifecycle (sv_now s) status revision n l)\<rparr>\<rparr>)"

definition fold_candidate :: "sup_deps \<Rightarrow> prov_binding \<Rightarrow> strengthening \<Rightarrow> sup_status \<times> nat \<times> nat option \<Rightarrow>
    supervisor \<Rightarrow> supervisor" where
  "fold_candidate deps b g lifecycle s =
     (let (status, revision, seq) = lifecycle; l = sg_lifecycle g; base = pb_baseline b in
      case seq of
        None \<Rightarrow> markProvisionalFailure deps ''lifecycle_not_advanced'' s
      | Some n \<Rightarrow>
          if n < bl_seq base then markProvisionalFailure deps ''lifecycle_not_advanced'' s
          else if revision < bl_revision base \<or> revision < pl_revision l then markProvisionalFailure deps ''revision_regressed'' s
          else if n < pl_seq l then markProvisionalFailure deps ''lifecycle_regressed'' s
          else if revision = pl_revision l \<and> n = pl_seq l \<and> status \<noteq> pl_status l
          then markProvisionalFailure deps ''lifecycle_contradiction'' s
          else s\<lparr>sv_prov := (sv_prov s)\<lparr>pv_candidate := Some (g\<lparr>sg_lifecycle := advance_lifecycle (sv_now s) status revision n l\<rparr>)\<rparr>\<rparr>)"

definition foldProvisional :: "sup_deps \<Rightarrow> socket_event \<Rightarrow> supervisor \<Rightarrow> supervisor" where
  "foldProvisional deps e s =
     (case pv_binding (sv_prov s) of
        None \<Rightarrow> s
      | Some b \<Rightarrow>
        if pv_failure (sv_prov s) \<noteq> None then s
        else if so_kind e = PaneMoved then markProvisionalFailure deps ''move_before_strengthening'' s
        else case (if isPaneRecordEvent (so_kind e) then so_pane e else None) of
          None \<Rightarrow> markProvisionalFailure deps ''event_lifecycle_unvalidated'' s
        | Some p \<Rightarrow>
          (case pv_candidate (sv_prov s) of
             None \<Rightarrow>
               if pn_paneId p \<noteq> vi_paneId (pb_identity b) \<or> pn_terminalId p \<noteq> vi_terminalId (pb_identity b)
                  \<or> (pn_agentKind p \<noteq> None \<and> pn_agentKind p \<noteq> Some (vi_agentKind (pb_identity b)))
               then markProvisionalFailure deps ''identity_mismatch'' s
               else if native_mismatch (pv_native (sv_prov s)) (pb_identity b) (pn_session p)
               then markProvisionalFailure deps ''native_identity_mismatch'' s
               else let s1 = retain_native (pb_identity b) (pn_session p) s in
                 (case provisionalEventLifecycle e of
                    Inl _ \<Rightarrow> markProvisionalFailure deps ''lifecycle_malformed'' s1
                  | Inr lc \<Rightarrow> fold_retained deps b lc s1)
           | Some g \<Rightarrow>
               if pn_paneId p \<noteq> si_paneId (sg_identity g) \<or> paneContinuity (sg_identity g) p \<noteq> Continuous
               then markProvisionalFailure deps ''native_identity_mismatch'' s
               else (case provisionalEventLifecycle e of
                       Inl _ \<Rightarrow> markProvisionalFailure deps ''lifecycle_malformed'' s
                     | Inr lc \<Rightarrow> fold_candidate deps b g lc s)))"

definition occupant_cause :: "target_evidence \<Rightarrow> string option" where
  "occupant_cause t =
     (case t of
        TargetInvalid r \<Rightarrow> Some (failure_name r)
      | TargetAbsent \<Rightarrow> Some ''occupant_absent''
      | TargetUnique occ \<Rightarrow> if oc_agentPresent occ then None else Some ''agent_absent'')"

definition evidence_occupant :: "target_evidence \<Rightarrow> occupant" where
  "evidence_occupant t = (case t of TargetUnique occ \<Rightarrow> occ | _ \<Rightarrow> undefined)"

definition applyProvisionalSnapshot :: "sup_deps \<Rightarrow> snapshot \<Rightarrow> string \<Rightarrow> supervisor \<Rightarrow> supervisor" where
  "applyProvisionalSnapshot deps sn trigger s0 =
     (let s = observeOwner sn s0 in
      case pv_binding (sv_prov s) of
        None \<Rightarrow> s
      | Some b \<Rightarrow>
        if pv_failure (sv_prov s) \<noteq> None then s
        else let t = classifyProvisionalSnapshotTarget sn (vi_paneId (pb_identity b)); occ = evidence_occupant t;
                 reject = (\<lambda>cause. markProvisionalFailure deps (trigger @ '':'' @ cause)) in
          (case occupant_cause t of
             Some cause \<Rightarrow> reject cause s
           | None \<Rightarrow>
               if provisionalOccupantContinuity (pb_identity b) occ \<noteq> Continuous then reject ''identity_mismatch'' s
               else if native_mismatch (pv_native (sv_prov s)) (pb_identity b) (pn_session (oc_pane occ))
               then reject ''native_identity_mismatch'' s
               else let s1 = retain_native (pb_identity b) (pn_session (oc_pane occ)) s in
                 if oc_seq occ = None then reject ''lifecycle_unavailable'' s1
                 else if pn_revision (oc_pane occ) < bl_revision (pb_baseline b) then reject ''revision_regressed'' s1
                 else s1))"

section \<open>Folding\<close>

definition fold_event :: "sup_deps \<Rightarrow> drain_end \<Rightarrow> socket_event \<Rightarrow> supervisor \<Rightarrow> supervisor" where
  "fold_event deps d e s =
     (if isSettled s then s
      else if pv_binding (sv_prov s) \<noteq> None \<and> \<not> sv_bound s then foldProvisional deps e s
      else if \<not> isPaneRecordEvent (so_kind e)
      then (if sv_retired s \<and> so_kind e \<noteq> PaneClosed \<and> so_kind e \<noteq> PaneExited then s
            else reconcile (''event:'' @ kind_name (so_kind e)) (ContDrain d) s)
      else let p = the (so_pane e) in
        if so_kind e = PaneMoved then followMove e p (ContDrain d) s
        else if po_moveDest (sv_pos s) \<noteq> None then reconcile (''event:'' @ kind_name (so_kind e)) (ContDrain d) s
        else if pn_revision p < po_revision (sv_pos s) then s
        else case paneContinuity (the (po_identity (sv_pos s))) p of
          Replaced \<Rightarrow> reconcile ''event:continuity_broken'' (ContDrain d) s
        | Unproven \<Rightarrow> reconcile ''event:continuity_unproven'' (ContDrain d) s
        | Continuous \<Rightarrow> applyEventRevision deps p s)"

text \<open>The loop of \<open>drainAdmitted\<close>, suspended where a fold awaits.\<close>

fun drain_queue :: "sup_deps \<Rightarrow> drain_end \<Rightarrow> socket_event list \<Rightarrow> supervisor \<Rightarrow> supervisor" where
  "drain_queue deps d [] s = s\<lparr>sv_queued := []\<rparr>"
| "drain_queue deps d (e # es) s =
     (if sv_stopped s \<or> \<not> supervising s then s\<lparr>sv_queued := e # es\<rparr>
      else let s' = fold_event deps d e (s\<lparr>sv_queued := es\<rparr>) in
        if sv_await s' \<noteq> None then s' else drain_queue deps d es s')"

section \<open>Bindings\<close>

definition resetPreparedBinding :: "supervisor \<Rightarrow> supervisor" where
  "resetPreparedBinding s =
     (let s1 = clearReviewTimer s in
      s1\<lparr>sv_observing := False, sv_queued := [],
         sv_pos := (sv_pos s1)\<lparr>po_paneId := None, po_identity := None, po_anchor := None, po_status := None, po_revision := 0,
                      po_seq := None, po_endpoint := None, po_moveDest := None, po_moveEndpoints := [], po_moveSeq := None\<rparr>,
         sv_prov := (sv_prov s1)\<lparr>pv_binding := None, pv_failure := None, pv_native := None, pv_lifecycle := None,
                      pv_candidate := None, pv_published := False\<rparr>,
         sv_point := None, sv_owner := None, sv_review := (sv_review s1)\<lparr>re_paused := False\<rparr>,
         sv_health := (sv_health s1)\<lparr>he_stream := False\<rparr>, sv_bound := False,
         sv_state := (if isSettled s1 then sv_state s1 else SsReserved)\<rparr>)"

definition bind_failed :: "string \<Rightarrow> supervisor \<Rightarrow> supervisor" where
  "bind_failed cause s = put_out (FxBindFailed cause) s"

definition bind_refused :: "string \<Rightarrow> supervisor \<Rightarrow> supervisor" where
  "bind_refused cause s = bind_failed cause (resetPreparedBinding s)"

definition bind_start :: "bind_read \<Rightarrow> string \<Rightarrow> supervisor \<Rightarrow> supervisor" where
  "bind_start r pane s =
     s\<lparr>sv_bindStarted := True, sv_pos := (sv_pos s)\<lparr>po_paneId := Some pane\<rparr>, sv_observing := True, sv_bindRead := Some r\<rparr>"

definition bind_used :: "supervisor \<Rightarrow> bool" where
  "bind_used s \<longleftrightarrow> sv_bindStarted s \<or> sv_stopped s \<or> sv_state s \<noteq> SsReserved"

definition bind_exact :: "sup_binding \<Rightarrow> publication \<Rightarrow> supervisor \<Rightarrow> supervisor" where
  "bind_exact b pub s =
     (if bind_used s then bind_failed ''bind_already_attempted'' s
      else bind_start (ReadExact b pub) (si_paneId (sb_identity b)) s)"

definition prepare_exact :: "snapshot \<Rightarrow> occupant \<Rightarrow> sup_binding \<Rightarrow> supervisor \<Rightarrow> supervisor" where
  "prepare_exact sn occ b s =
     (let p = oc_pane occ; seq = orElse (oc_seq occ) (sb_seq b) in
      s\<lparr>sv_pos := (sv_pos s)\<lparr>po_identity := Some (sb_identity b),
           po_anchor := Some \<lparr>an_revision = pn_revision p, an_status = pn_status p, an_seq = seq\<rparr>,
           po_status := Some (pn_status p), po_revision := pn_revision p, po_seq := seq,
           po_endpoint := Some \<lparr>ep_revision = pn_revision p, ep_status = pn_status p, ep_seq = oc_seq occ\<rparr>\<rparr>,
        sv_point := Some (sb_operatingPointId b), sv_owner := sb_owner b,
        sv_review := (sv_review s)\<lparr>re_paused := (sb_owner b \<noteq> None \<and> \<not> ownerPresent sn (sb_owner b))\<rparr>\<rparr>)"

definition bind_exact_read :: "sup_binding \<Rightarrow> publication \<Rightarrow> answer \<Rightarrow> supervisor \<Rightarrow> supervisor" where
  "bind_exact_read b pub a s =
     (case a of
        AnsSnapshot sn \<Rightarrow>
          (let t = classifySnapshotTarget sn (si_paneId (sb_identity b)); occ = evidence_occupant t in
           case occupant_cause t of
             Some cause \<Rightarrow> bind_refused cause s
           | None \<Rightarrow>
               if occupantContinuity (sb_identity b) occ \<noteq> Continuous then bind_refused ''identity_mismatch'' s
               else if compareStateChangeSeq (sb_seq b) (oc_seq occ) = SeqRegressed then bind_refused ''lifecycle_regressed'' s
               else enqueue (TkBind b pub) ((prepare_exact sn occ b s)\<lparr>sv_bindPending := True\<rparr>))
      | AnsFailed code \<Rightarrow> bind_refused code s
      | _ \<Rightarrow> s)"

definition validProvisionalBinding :: "prov_binding \<Rightarrow> bool" where
  "validProvisionalBinding b \<longleftrightarrow>
     usable (vi_paneId (pb_identity b)) \<and> usable (vi_terminalId (pb_identity b)) \<and> usable (vi_agentName (pb_identity b))
     \<and> vi_agentKind (pb_identity b) = ''agy'' \<and> usable (pb_operatingPointId b) \<and> bl_state (pb_baseline b) = StIdle
     \<and> bl_seq (pb_baseline b) \<le> MAX_SAFE_INTEGER \<and> bl_revision (pb_baseline b) \<le> MAX_SAFE_INTEGER"

definition bind_provisional :: "prov_binding \<Rightarrow> publication \<Rightarrow> supervisor \<Rightarrow> supervisor" where
  "bind_provisional b pub s =
     (if bind_used s then bind_failed ''bind_already_attempted'' s
      else if vi_agentKind (pb_identity b) \<noteq> ''agy'' then bind_failed ''provisional_kind_invalid'' s
      else if \<not> validProvisionalBinding b then bind_failed ''provisional_baseline_invalid'' s
      else bind_start (ReadProvisional b pub) (vi_paneId (pb_identity b)) s)"

definition prepare_provisional :: "occupant \<Rightarrow> prov_binding \<Rightarrow> supervisor \<Rightarrow> supervisor" where
  "prepare_provisional occ b s =
     (let base = pb_baseline b in
      s\<lparr>sv_prov := (sv_prov s)\<lparr>pv_binding := Some b,
           pv_native := (case pn_session (oc_pane occ) of None \<Rightarrow> pv_native (sv_prov s)
                           | Some x \<Rightarrow> Some (sup_identity_of (pb_identity b) x)),
           pv_lifecycle := Some \<lparr>pl_seq = bl_seq base, pl_revision = bl_revision base, pl_status = StIdle, pl_events = []\<rparr>\<rparr>,
        sv_point := Some (pb_operatingPointId b),
        sv_pos := (sv_pos s)\<lparr>po_status := Some StIdle,
           po_anchor := Some \<lparr>an_revision = bl_revision base, an_status = StIdle, an_seq = Some (bl_seq base)\<rparr>,
           po_revision := bl_revision base, po_seq := Some (bl_seq base)\<rparr>\<rparr>)"

definition bind_provisional_read :: "prov_binding \<Rightarrow> publication \<Rightarrow> answer \<Rightarrow> supervisor \<Rightarrow> supervisor" where
  "bind_provisional_read b pub a s =
     (case a of
        AnsSnapshot sn \<Rightarrow>
          (let t = classifyProvisionalSnapshotTarget sn (vi_paneId (pb_identity b)); occ = evidence_occupant t in
           case occupant_cause t of
             Some cause \<Rightarrow> bind_refused cause s
           | None \<Rightarrow>
               if provisionalOccupantContinuity (pb_identity b) occ \<noteq> Continuous then bind_refused ''identity_mismatch'' s
               else if pn_status (oc_pane occ) \<noteq> StIdle \<or> oc_seq occ \<noteq> Some (bl_seq (pb_baseline b))
                       \<or> pn_revision (oc_pane occ) \<noteq> bl_revision (pb_baseline b)
               then bind_refused ''baseline_changed'' s
               else enqueue (TkProvisional b pub) ((prepare_provisional occ b s)\<lparr>sv_bindPending := True\<rparr>))
      | AnsFailed code \<Rightarrow> bind_refused code s
      | _ \<Rightarrow> s)"

text \<open>The commits, after the admitted evidence is drained.\<close>

definition commitBinding :: "sup_deps \<Rightarrow> publication \<Rightarrow> supervisor \<Rightarrow> supervisor" where
  "commitBinding deps pub s =
     (if isSettled s then bind_failed ''settled_during_bind'' (put_out FxRollback s)
      else if \<not> pu_commits pub then bind_refused ''commit_failed'' (put_out FxRollback s)
      else let s1 = put_out FxCommit s;
               s2 = refreshActiveState (s1\<lparr>sv_bound := True, sv_state := SsActive,
                      sv_health := (sv_health s1)\<lparr>he_stream := sv_monitorDegraded s1\<rparr>\<rparr>) in
        if \<not> pu_publishes pub then bind_refused ''publish_failed'' (put_out FxRollback s2)
        else put_out FxBound (publish_text (''supervising '' @ sd_agentName deps)
               (enterStatus deps (the (po_status (sv_pos s2))) (put_out FxPublished s2))))"

definition commitProvisional :: "sup_deps \<Rightarrow> publication \<Rightarrow> supervisor \<Rightarrow> supervisor" where
  "commitProvisional deps pub s =
     (case pv_failure (sv_prov s) of
        Some cause \<Rightarrow> bind_refused cause (put_out FxRollback s)
      | None \<Rightarrow>
          if isSettled s then bind_failed ''settled_during_bind'' (put_out FxRollback s)
          else if \<not> pu_commits pub then bind_refused ''commit_failed'' (put_out FxRollback s)
          else let s1 = (put_out FxCommit s)\<lparr>sv_prov := (sv_prov s)\<lparr>pv_published := True\<rparr>, sv_state := SsProvisional\<rparr> in
            if \<not> pu_publishes pub then bind_refused ''publish_failed'' (put_out FxRollback s1)
            else put_out FxBound (publish_text (''supervising '' @ sd_agentName deps @ '' provisionally'') (put_out FxPublished s1)))"

definition strengthening_failed :: "sup_deps \<Rightarrow> string \<Rightarrow> supervisor \<Rightarrow> supervisor" where
  "strengthening_failed deps cause s = bind_failed cause (markProvisionalFailure deps cause (put_out FxRollback s))"

definition strengthen :: "sup_binding \<Rightarrow> publication \<Rightarrow> supervisor \<Rightarrow> supervisor" where
  "strengthen b pub s =
     (if \<not> pv_published (sv_prov s) \<or> sv_stopped s \<or> sv_state s \<noteq> SsProvisional \<or> sv_bound s \<or> pv_strengthening (sv_prov s)
      then bind_failed ''strengthen_already_attempted'' s
      else if si_agentKind (sb_identity b) \<noteq> ''agy''
              \<or> si_paneId (sb_identity b) \<noteq> vi_paneId (pb_identity (the (pv_binding (sv_prov s))))
      then bind_failed ''strengthening_identity_invalid'' s
      else enqueue (TkStrengthen b pub)
             (s\<lparr>sv_prov := (sv_prov s)\<lparr>pv_strengthening := True\<rparr>, sv_bindPending := True\<rparr>))"

text \<open>The checks of the fresh read, in their order; \<open>None\<close> when all pass.\<close>

definition strengthening_cause :: "prov_binding \<Rightarrow> prov_lifecycle \<Rightarrow> sup_identity option \<Rightarrow> sup_binding \<Rightarrow> target_evidence \<Rightarrow> string option" where
  "strengthening_cause prov retained native b t =
     (let occ = evidence_occupant t; p = oc_pane occ; i = pb_identity prov in
      case occupant_cause t of
        Some cause \<Rightarrow> Some cause
      | None \<Rightarrow>
          if provisionalOccupantContinuity i occ \<noteq> Continuous then Some ''identity_mismatch''
          else (case oc_seq occ of
            None \<Rightarrow> Some ''lifecycle_not_advanced''
          | Some n \<Rightarrow>
              if n \<le> bl_seq (pb_baseline prov) then Some ''lifecycle_not_advanced''
              else if pn_revision p < pl_revision retained then Some ''revision_regressed''
              else if n < pl_seq retained then Some ''lifecycle_regressed''
              else if pn_revision p = pl_revision retained \<and> n = pl_seq retained \<and> pn_status p \<noteq> pl_status retained
              then Some ''lifecycle_contradiction''
              else (case pn_session p of
                None \<Rightarrow> Some ''native_identity_mismatch''
              | Some x \<Rightarrow>
                  if as_agent x \<noteq> vi_agentKind i
                     \<or> (case native of None \<Rightarrow> False | Some j \<Rightarrow> \<not> sameSupervisedIdentity j (sup_identity_of i x))
                     \<or> \<not> sameSupervisedIdentity (sb_identity b) (sup_identity_of i x)
                  then Some ''native_identity_mismatch'' else None)))"

definition make_candidate :: "int \<Rightarrow> prov_binding \<Rightarrow> prov_lifecycle \<Rightarrow> sup_binding \<Rightarrow> occupant \<Rightarrow> strengthening" where
  "make_candidate now prov retained b occ =
     (let p = oc_pane occ in
      \<lparr>sg_identity = sup_identity_of (pb_identity prov) (the (pn_session p)), sg_operatingPointId = sb_operatingPointId b,
       sg_initialRevision = (if pl_events retained = [] then pn_revision p else bl_revision (pb_baseline prov)),
       sg_lifecycle = \<lparr>pl_seq = the (oc_seq occ), pl_revision = pn_revision p, pl_status = pn_status p,
         pl_events = pl_events retained @
           (if pl_events retained = [] \<or> pn_status p = pl_status retained then []
            else [\<lparr>st_atMs = now, st_from = pl_status retained, st_to = pn_status p, st_revision = pn_revision p,
                   st_source = FromSnapshot\<rparr>])\<rparr>\<rparr>)"

definition strengthen_prepare :: "snapshot \<Rightarrow> sup_binding \<Rightarrow> occupant \<Rightarrow> supervisor \<Rightarrow> supervisor" where
  "strengthen_prepare sn b occ s =
     (let prov = the (pv_binding (sv_prov s)); retained = the (pv_lifecycle (sv_prov s));
          owner = (case sb_owner b of None \<Rightarrow> sv_owner s | Some w \<Rightarrow> Some w);
          observed = sup_identity_of (pb_identity prov) (the (pn_session (oc_pane occ))) in
      s\<lparr>sv_prov := (sv_prov s)\<lparr>pv_native := orElse (pv_native (sv_prov s)) (Some observed),
                     pv_candidate := Some (make_candidate (sv_now s) prov retained b occ)\<rparr>,
        sv_owner := owner,
        sv_review := (sv_review s)\<lparr>re_paused := (owner \<noteq> None \<and> \<not> ownerPresent sn owner)\<rparr>\<rparr>)"

text \<open>The transitions gathered while provisional, published once the exact child is bound.\<close>

fun replay_candidate :: "sup_deps \<Rightarrow> sup_transition list \<Rightarrow> nat \<Rightarrow> supervisor \<Rightarrow> supervisor" where
  "replay_candidate deps [] previous s = s"
| "replay_candidate deps (x # xs) previous s =
     (let s1 = s\<lparr>sv_transitions := history_push x (sv_transitions s)\<rparr>;
          s2 = (if previous + 1 < st_revision x
                then recordEvidenceGap deps FromEvent GapRevisionJump previous (st_revision x)
                       (Some (st_revision x - previous - 1)) None None s1
                else s1);
          s3 = (case materialTransitionEvent (st_from x) (st_to x) of
                  None \<Rightarrow> s2
                | Some m \<Rightarrow> emit deps m (transition_text (st_from x) (st_to x))
                              (Some (transition_details (st_from x) (st_to x) (st_revision x))) None s2)
      in replay_candidate deps xs (st_revision x) s3)"

definition install_candidate :: "strengthening \<Rightarrow> supervisor \<Rightarrow> supervisor" where
  "install_candidate g s =
     (let l = sg_lifecycle g in
      refreshActiveState (s\<lparr>
        sv_pos := (sv_pos s)\<lparr>po_identity := Some (sg_identity g),
           po_anchor := Some \<lparr>an_revision = pl_revision l, an_status = pl_status l, an_seq = Some (pl_seq l)\<rparr>,
           po_status := Some (pl_status l), po_revision := pl_revision l, po_seq := Some (pl_seq l),
           po_endpoint := Some \<lparr>ep_revision = pl_revision l, ep_status = pl_status l, ep_seq = Some (pl_seq l)\<rparr>\<rparr>,
        sv_point := Some (sg_operatingPointId g),
        sv_prov := (sv_prov s)\<lparr>pv_binding := None, pv_published := False\<rparr>,
        sv_bound := True, sv_state := SsActive,
        sv_health := (sv_health s)\<lparr>he_stream := sv_monitorDegraded s\<rparr>\<rparr>))"

definition clear_candidate :: "supervisor \<Rightarrow> supervisor" where
  "clear_candidate s = s\<lparr>sv_prov := (sv_prov s)\<lparr>pv_candidate := None\<rparr>\<rparr>"

text \<open>A failed publication restores everything but the connection flag.\<close>

definition strengthen_finish :: "sup_deps \<Rightarrow> publication \<Rightarrow> supervisor \<Rightarrow> supervisor" where
  "strengthen_finish deps pub s =
     (case pv_failure (sv_prov s) of
        Some cause \<Rightarrow> strengthening_failed deps cause (clear_candidate s)
      | None \<Rightarrow>
        (case pv_candidate (sv_prov s) of
           None \<Rightarrow> strengthening_failed deps ''strengthening_candidate_missing'' s
         | Some g \<Rightarrow>
             if isSettled s then strengthening_failed deps ''settled_during_strengthen'' s
             else if sv_queued s \<noteq> [] \<or> \<not> pu_commits pub
             then strengthening_failed deps ''publication_failed'' (clear_candidate (put_out FxRollback s))
             else let s1 = install_candidate g (put_out FxCommit s) in
               if \<not> pu_publishes pub
               then strengthening_failed deps ''publication_failed''
                      (clear_candidate (put_out FxRollback (s\<lparr>sv_out := sv_out s1,
                         sv_health := (sv_health s)\<lparr>he_stream := he_stream (sv_health s1)\<rparr>\<rparr>)))
               else let s2 = enterStatus deps (pl_status (sg_lifecycle g)) (clear_candidate (put_out FxPublished s1))
                    in put_out FxBound (publish_text (''supervising '' @ sd_agentName deps)
                         (replay_candidate deps (pl_events (sg_lifecycle g)) (sg_initialRevision g) s2))))"

definition drain_done :: "sup_deps \<Rightarrow> drain_end \<Rightarrow> supervisor \<Rightarrow> supervisor" where
  "drain_done deps d s =
     (case d of
        DrainTask \<Rightarrow> s
      | DrainBind b pub \<Rightarrow> (commitBinding deps pub s)\<lparr>sv_bindPending := False\<rparr>
      | DrainProvisional b pub \<Rightarrow> (commitProvisional deps pub s)\<lparr>sv_bindPending := False\<rparr>
      | DrainStrengthen b pub \<Rightarrow> (strengthen_finish deps pub s)\<lparr>sv_bindPending := False\<rparr>)"

definition drainAdmitted :: "sup_deps \<Rightarrow> drain_end \<Rightarrow> supervisor \<Rightarrow> supervisor" where
  "drainAdmitted deps d s =
     (let s' = drain_queue deps d (sv_queued s) s in if sv_await s' \<noteq> None then s' else drain_done deps d s')"

text \<open>
  \<open>do { await drainAdmitted() } while (queued.length !== 0)\<close> of a strengthening. Folding provisional
  evidence never awaits, so the loop gives no other task a turn; \<open>None\<close> is a loop without end.
\<close>

partial_function (option) drain_until_empty :: "sup_deps \<Rightarrow> drain_end \<Rightarrow> supervisor \<Rightarrow> supervisor option" where
  "drain_until_empty deps d s =
     (let s' = drain_queue deps d (sv_queued s) s in
      if sv_queued s' \<noteq> [] then drain_until_empty deps d s' else Some s')"

declare drain_until_empty.simps [code]

definition strengthen_start :: "sup_deps \<Rightarrow> sup_binding \<Rightarrow> publication \<Rightarrow> supervisor \<Rightarrow> supervisor" where
  "strengthen_start deps b pub s =
     (case pv_failure (sv_prov s) of
        Some cause \<Rightarrow> (strengthening_failed deps cause s)\<lparr>sv_bindPending := False\<rparr>
      | None \<Rightarrow> begin_await (AwStrengthen b pub) s)"

definition strengthen_answered :: "sup_deps \<Rightarrow> sup_binding \<Rightarrow> publication \<Rightarrow> answer \<Rightarrow> supervisor \<Rightarrow> supervisor option" where
  "strengthen_answered deps b pub a s =
     (let stop = (\<lambda>cause. Some ((strengthening_failed deps cause s)\<lparr>sv_bindPending := False\<rparr>)) in
      case a of
        AnsSnapshot sn \<Rightarrow>
          (case (pv_binding (sv_prov s), pv_lifecycle (sv_prov s)) of
             (Some prov, Some retained) \<Rightarrow>
               (let t = classifyProvisionalSnapshotTarget sn (vi_paneId (pb_identity prov)) in
                case strengthening_cause prov retained (pv_native (sv_prov s)) b t of
                  Some cause \<Rightarrow> stop cause
                | None \<Rightarrow> map_option (drain_done deps (DrainStrengthen b pub))
                    (drain_until_empty deps (DrainStrengthen b pub) (strengthen_prepare sn b (evidence_occupant t) s)))
           | _ \<Rightarrow> Some s)
      | AnsFailed code \<Rightarrow> stop code
      | _ \<Rightarrow> Some s)"

section \<open>Handoff evaluation\<close>

definition evaluateHandoff :: "sup_deps \<Rightarrow> supervisor \<Rightarrow> supervisor" where
  "evaluateHandoff deps s =
     (if sv_stopped s \<or> isSettled s \<or> \<not> at_rest (po_status (sv_pos s)) then s
      else case managedRun deps s of
        None \<Rightarrow> s
      | Some r \<Rightarrow>
          if mr_lifecycle r \<noteq> LcAwaitingHandoff \<and> \<not> (sv_retired s \<and> mr_lifecycle r = LcHandedOff \<and> mr_cycleOpen r) then s
          else begin_await (AwEvalValidate r) s)"

definition gate_reason :: "validation \<Rightarrow> string" where
  "gate_reason v = (case vd_reason v of None \<Rightarrow> validation_name (vd_state v)
     | Some r \<Rightarrow> validation_name (vd_state v) @ '':'' @ r)"

definition handoff_validated :: "sup_deps \<Rightarrow> managed_run \<Rightarrow> validation option \<Rightarrow> supervisor \<Rightarrow> supervisor" where
  "handoff_validated deps r v s =
     (case v of
        None \<Rightarrow> s
      | Some x \<Rightarrow>
          if handoffGateMatches x UntilTerminal (the (po_status (sv_pos s)))
          then begin_await (AwEvalRecord r)
                 (recordOutcome r LcHandedOff (if cy_recorded (sv_cycle s) then Some ''provider_limit'' else None) s)
          else if sv_retired s \<or> cy_recorded (sv_cycle s) \<or> (cy_signal (sv_cycle s) \<and> cy_attempts (sv_cycle s) < 3)
                  \<or> \<not> sd_repairPrompt deps \<or> sv_stopped s \<or> isSettled s
          then s
          else begin_await (AwEvalFence r (gate_reason x)) s)"

definition handoff_recorded :: "bool \<Rightarrow> supervisor \<Rightarrow> supervisor" where
  "handoff_recorded recorded s =
     (if \<not> recorded \<or> sv_retired s then s else clearReviewTimer (s\<lparr>sv_retired := True\<rparr>))"

definition repair_fenced :: "managed_run \<Rightarrow> string \<Rightarrow> nat option \<Rightarrow> supervisor \<Rightarrow> supervisor" where
  "repair_fenced r reason fence s =
     (case fence of
        None \<Rightarrow> s
      | Some version \<Rightarrow> begin_await (AwEvalPrompt version reason) (put_out (FxPrompt (mr_paneId r) version reason) s))"

definition repair_prompted :: "sup_deps \<Rightarrow> nat \<Rightarrow> string \<Rightarrow> bool \<Rightarrow> supervisor \<Rightarrow> supervisor" where
  "repair_prompted deps version reason sent s =
     publish_text (''handoff repair prompt '' @ (if sent then ''sent '' else []) @ ''for artifact version ''
       @ sd_numStr deps (int version) @ (if sent then [] else '' failed'') @ '' ('' @ reason @ '')'') s"

section \<open>The mutation chain\<close>

definition provisional_only :: "supervisor \<Rightarrow> bool" where
  "provisional_only s \<longleftrightarrow> pv_binding (sv_prov s) \<noteq> None \<and> \<not> sv_bound s"

definition snapshot_task :: "sup_deps \<Rightarrow> string \<Rightarrow> missing_outcome \<Rightarrow> snapshot \<Rightarrow> supervisor \<Rightarrow> supervisor" where
  "snapshot_task deps trigger missing sn s =
     (if sv_stopped s \<or> isSettled s then s
      else if provisional_only s then applyProvisionalSnapshot deps sn trigger s
      else if po_identity (sv_pos s) = None \<or> po_anchor (sv_pos s) = None then s
      else applyAuthoritativeSnapshot deps sn trigger missing ContTask s)"

definition run_task :: "sup_deps \<Rightarrow> task \<Rightarrow> supervisor \<Rightarrow> supervisor" where
  "run_task deps t s =
     (case t of
        TkFold \<Rightarrow> if sv_bindPending s then s else drainAdmitted deps DrainTask s
      | TkBootstrap sn \<Rightarrow> snapshot_task deps ''reconnect'' MissingIdentityLost sn s
      | TkPeriodic sn \<Rightarrow> snapshot_task deps ''periodic_snapshot'' MissingReleased sn s
      | TkCompletion \<Rightarrow> if completion_due s then recordCompletionSignal deps SignalTask s else s
      | TkHandoff \<Rightarrow> evaluateHandoff deps s
      | TkBind b pub \<Rightarrow> drainAdmitted deps (DrainBind b pub) s
      | TkProvisional b pub \<Rightarrow> drainAdmitted deps (DrainProvisional b pub) s
      | TkStrengthen b pub \<Rightarrow> strengthen_start deps b pub s)"

definition proceed :: "sup_deps \<Rightarrow> cont \<Rightarrow> supervisor \<Rightarrow> supervisor" where
  "proceed deps c s =
     (if sv_await s \<noteq> None then s
      else case c of ContTask \<Rightarrow> s | ContDrain d \<Rightarrow> drainAdmitted deps d s)"

definition signal_cont :: "signal_end \<Rightarrow> cont" where
  "signal_cont e = (case e of SignalTask \<Rightarrow> ContTask | SignalSettle oc reason c \<Rightarrow> c | SignalSettleAgain oc reason c \<Rightarrow> c)"

definition resume_with :: "sup_deps \<Rightarrow> await \<Rightarrow> answer \<Rightarrow> supervisor \<Rightarrow> supervisor option" where
  "resume_with deps w a s =
     (case (w, a) of
        (AwReconcile trigger c, AnsSnapshot sn) \<Rightarrow>
          Some (proceed deps c (applyAuthoritativeSnapshot deps sn trigger MissingReleased c s))
      | (AwReconcile trigger c, AnsFailed code) \<Rightarrow>
          Some (proceed deps c (markReconciliationFailure deps (reconciliationFailureReason code) s))
      | (AwMove p c, AnsSnapshot sn) \<Rightarrow> Some (proceed deps c (move_answered deps p c sn s))
      | (AwMove p c, AnsFailed code) \<Rightarrow>
          Some (proceed deps c (settle deps OcIdentityLost ''move_reconciliation_unavailable'' c s))
      | (AwStrengthen b pub, _) \<Rightarrow> strengthen_answered deps b pub a s
      | (AwSelfClose oc trigger summary c, AnsSelfClose own_close) \<Rightarrow>
          Some (proceed deps c (if own_close then settle deps oc trigger c s
                                else settle_emitting deps EvPaneClosed oc trigger summary c s))
      | (AwSignal e, AnsSignal x) \<Rightarrow> Some (proceed deps (signal_cont e) (on_signal deps e x s))
      | (AwMark e, AnsDone _) \<Rightarrow> Some (proceed deps (signal_cont e) (finish_signal deps e s))
      | (AwFlush oc reason c, AnsDone _) \<Rightarrow>
          Some (proceed deps c (recordCompletionSignal deps (SignalSettleAgain oc reason c) s))
      | (AwExitValidate oc reason limited r c, AnsValidation v) \<Rightarrow>
          Some (proceed deps c (record_exit r (case v of None \<Rightarrow> False | Some x \<Rightarrow> vd_state x = VsAccepted)
            limited oc reason c s))
      | (AwExitRecord oc reason c, AnsDone _) \<Rightarrow> Some (proceed deps c (settle_finish oc reason s))
      | (AwEvalValidate r, AnsValidation v) \<Rightarrow> Some (handoff_validated deps r v s)
      | (AwEvalRecord r, AnsDone recorded) \<Rightarrow> Some (handoff_recorded recorded s)
      | (AwEvalFence r reason, AnsFence fence) \<Rightarrow> Some (repair_fenced r reason fence s)
      | (AwEvalPrompt version reason, AnsDone sent) \<Rightarrow> Some (repair_prompted deps version reason sent s)
      | _ \<Rightarrow> Some (begin_await w s))"

section \<open>Inputs\<close>

datatype sup_input =
    InClock int
  | InGate gate_runs
  | InMonitorFlag bool
  | InEvent socket_event
  | InBootstrap snapshot bool
  | InPeriodic snapshot
  | InReconciliationFailure reconciliation_failure
  | InMonitorDegraded string
  | InMonitorRecovered
  | InBind sup_binding publication
  | InBindProvisional prov_binding publication
  | InStrengthen sup_binding publication
  | InBindRead answer
  | InTask
  | InAnswer answer
  | InRetryTimer
  | InCompletionSignal
  | InShutdown
  | InRelease string
  | InRetarget sup_owner
  | InTake

definition onEvent :: "socket_event \<Rightarrow> supervisor \<Rightarrow> supervisor" where
  "onEvent e s = (if sv_stopped s then s else enqueue TkFold (s\<lparr>sv_queued := sv_queued s @ [e]\<rparr>))"

definition onBootstrap :: "snapshot \<Rightarrow> bool \<Rightarrow> supervisor \<Rightarrow> supervisor" where
  "onBootstrap sn reconnected s = (if sv_stopped s \<or> \<not> reconnected then s else enqueue (TkBootstrap sn) s)"

definition onReconciliationSnapshot :: "snapshot \<Rightarrow> supervisor \<Rightarrow> supervisor" where
  "onReconciliationSnapshot sn s = (if sv_stopped s then s else enqueue (TkPeriodic sn) s)"

definition onCompletionSignal :: "supervisor \<Rightarrow> supervisor" where
  "onCompletionSignal s =
     (if cy_signal (sv_cycle s) \<or> \<not> sv_bound s \<or> isSettled s then s
      else scheduleCompletionSignal (s\<lparr>sv_cycle := (sv_cycle s)\<lparr>cy_signal := True\<rparr>\<rparr>))"

definition retry_timer :: "supervisor \<Rightarrow> supervisor" where
  "retry_timer s =
     (if cy_retry (sv_cycle s) then scheduleCompletionSignal (s\<lparr>sv_cycle := (sv_cycle s)\<lparr>cy_retry := False\<rparr>\<rparr>) else s)"

definition stop_with :: "sup_outcome \<Rightarrow> string \<Rightarrow> supervisor \<Rightarrow> supervisor" where
  "stop_with oc reason s =
     (if sv_stopped s then s
      else let s1 = stop_timers (s\<lparr>sv_stopped := True\<rparr>) in
        if isSettled s1 then s1
        else resolve_settled (s1\<lparr>sv_state := SsSettled, sv_settlement := Some (oc, reason)\<rparr>))"

definition shutdown :: "supervisor \<Rightarrow> supervisor" where
  "shutdown s = stop_with OcCancelled ''manager_session_shutdown'' s"

definition release :: "string \<Rightarrow> supervisor \<Rightarrow> supervisor" where
  "release reason s =
     (if pv_published (sv_prov s) \<and> \<not> sv_bound s
      then publish_text (''AGY provisional supervision retained; release refused ('' @ reason @ '')'') s
      else stop_with OcFailed reason s)"

definition takePendingEvents :: "supervisor \<Rightarrow> sup_event list \<times> supervisor" where
  "takePendingEvents s = (let (es, lg) = take_pending (sv_log s) in (es, s\<lparr>sv_log := lg\<rparr>))"

definition childLive :: "supervisor \<Rightarrow> bool" where
  "childLive s \<longleftrightarrow>
     (pv_published (sv_prov s) \<and> sv_state s = SsProvisional \<and> pv_binding (sv_prov s) \<noteq> None)
     \<or> (sv_bound s \<and> (sv_state s = SsActive \<or> sv_state s = SsDegraded) \<and> po_identity (sv_pos s) \<noteq> None)"

definition coversIdentity :: "sup_identity \<Rightarrow> supervisor \<Rightarrow> bool" where
  "coversIdentity i s \<longleftrightarrow> childLive s
     \<and> (case po_identity (sv_pos s) of None \<Rightarrow> False | Some j \<Rightarrow> sameSupervisedIdentity j i)"

text \<open>
  One input. Tasks run one at a time: the next one starts only when none is suspended. \<open>None\<close> is a
  task that never gives up control.
\<close>

definition sup_do :: "sup_deps \<Rightarrow> sup_input \<Rightarrow> supervisor \<Rightarrow> supervisor option" where
  "sup_do deps x s =
     (case x of
        InClock n \<Rightarrow> Some (s\<lparr>sv_now := n\<rparr>)
      | InGate runs \<Rightarrow> Some (s\<lparr>sv_runs := runs\<rparr>)
      | InMonitorFlag b \<Rightarrow> Some (s\<lparr>sv_monitorDegraded := b\<rparr>)
      | InEvent e \<Rightarrow> Some (onEvent e s)
      | InBootstrap sn r \<Rightarrow> Some (onBootstrap sn r s)
      | InPeriodic sn \<Rightarrow> Some (onReconciliationSnapshot sn s)
      | InReconciliationFailure r \<Rightarrow> Some (onReconciliationFailure deps r s)
      | InMonitorDegraded reason \<Rightarrow> Some (onMonitorDegraded deps reason s)
      | InMonitorRecovered \<Rightarrow> Some (onMonitorRecovered deps s)
      | InBind b pub \<Rightarrow> Some (bind_exact b pub s)
      | InBindProvisional b pub \<Rightarrow> Some (bind_provisional b pub s)
      | InStrengthen b pub \<Rightarrow> Some (strengthen b pub s)
      | InBindRead a \<Rightarrow>
          Some (case sv_bindRead s of
              None \<Rightarrow> s
            | Some (ReadExact b pub) \<Rightarrow> bind_exact_read b pub a (s\<lparr>sv_bindRead := None\<rparr>)
            | Some (ReadProvisional b pub) \<Rightarrow> bind_provisional_read b pub a (s\<lparr>sv_bindRead := None\<rparr>))
      | InTask \<Rightarrow>
          Some (case (sv_await s, sv_chain s) of
              (None, t # ts) \<Rightarrow> run_task deps t (s\<lparr>sv_chain := ts\<rparr>)
            | _ \<Rightarrow> s)
      | InAnswer a \<Rightarrow> (case sv_await s of None \<Rightarrow> Some s | Some w \<Rightarrow> resume_with deps w a (s\<lparr>sv_await := None\<rparr>))
      | InRetryTimer \<Rightarrow> Some (retry_timer s)
      | InCompletionSignal \<Rightarrow> Some (onCompletionSignal s)
      | InShutdown \<Rightarrow> Some (shutdown s)
      | InRelease reason \<Rightarrow> Some (release reason s)
      | InRetarget w \<Rightarrow> Some (s\<lparr>sv_owner := Some w\<rparr>)
      | InTake \<Rightarrow> Some (snd (takePendingEvents s)))"

end
