(* ===== verification/Supervision_View.thy ===== *)
theory Supervision_View
  imports Supervisor
begin

text \<open>
  What a supervisor publishes (\<open>view\<close> of \<open>src/supervision/supervisor.ts\<close>) and the guard every consumer
  applies to it (\<open>isSupervisionJobView\<close> of \<open>src/supervision/state.ts\<close>). The reviews and the monitor's
  generation belong to the review cadence and to the monitor; they are an argument of the view.
\<close>

section \<open>The guard\<close>

definition sv_text :: "jsval \<Rightarrow> bool" where
  "sv_text v = is_str (\<lambda>s. s \<noteq> []) v"

definition safeCounter :: "jsval \<Rightarrow> bool" where
  "safeCounter v \<longleftrightarrow> safe_nat v \<noteq> None"

definition sv_status :: "jsval \<Rightarrow> bool" where
  "sv_status v = is_str (\<lambda>s. status_of s \<noteq> None) v"

definition sv_child :: "jsval \<Rightarrow> bool" where
  "sv_child v \<longleftrightarrow> is_record v \<and> sv_text (jget ''agentName'' v) \<and> sv_text (jget ''agentKind'' v) \<and> sv_text (jget ''paneId'' v)
     \<and> sv_text (jget ''terminalId'' v) \<and> sv_text (jget ''operatingPointId'' v)
     \<and> opt_field sv_text (jget ''requestedOperatingPointId'' v) \<and> opt_field sv_text (jget ''requestedAgentKind'' v)"

definition sv_provisional :: "jsval \<Rightarrow> bool" where
  "sv_provisional v \<longleftrightarrow> is_record v \<and> jget ''agentKind'' v = JStr ''agy'' \<and> sv_text (jget ''agentName'' v)
     \<and> sv_text (jget ''paneId'' v) \<and> sv_text (jget ''terminalId'' v) \<and> sv_text (jget ''operatingPointId'' v)
     \<and> opt_field sv_text (jget ''requestedOperatingPointId'' v)
     \<and> is_record (jget ''baseline'' v) \<and> jget ''state'' (jget ''baseline'' v) = JStr ''idle''
     \<and> safeCounter (jget ''stateChangeSeq'' (jget ''baseline'' v)) \<and> safeCounter (jget ''revision'' (jget ''baseline'' v))"

text \<open>
  \<open>String(value)\<close> as far as it can be one of the state names: a string is itself, and an array of one
  element is the text of that element.
\<close>

fun js_word :: "jsval \<Rightarrow> string option" where
  "js_word (JStr s) = Some s"
| "js_word (JArr [x]) = js_word x"
| "js_word v = None"

definition STATE_NAMES :: "string list" where
  "STATE_NAMES = [''reserved'', ''provisional'', ''active'', ''degraded'', ''settled'']"

fun all_items :: "(jsval \<Rightarrow> bool) \<Rightarrow> jsval \<Rightarrow> bool" where
  "all_items P (JArr xs) = list_all P xs"
| "all_items P v = False"

fun is_array :: "jsval \<Rightarrow> bool" where
  "is_array (JArr xs) = True"
| "is_array v = False"

fun is_bool :: "jsval \<Rightarrow> bool" where
  "is_bool (JBool b) = True"
| "is_bool v = False"

definition isSupervisionJobView :: "jsval \<Rightarrow> bool" where
  "isSupervisionJobView v \<longleftrightarrow>
     is_record v \<and> (case js_word (jget ''state'' v) of None \<Rightarrow> False | Some w \<Rightarrow> w \<in> set STATE_NAMES)
     \<and> is_record (jget ''monitor'' v) \<and> is_record (jget ''reviewer'' v) \<and> sv_text (jget ''model'' (jget ''reviewer'' v))
     \<and> is_array (jget ''reviews'' (jget ''reviewer'' v)) \<and> is_array (jget ''transitions'' v) \<and> is_array (jget ''events'' v)
     \<and> opt_field is_bool (jget ''paused'' (jget ''reviewer'' v))
     \<and> all_items (\<lambda>r. is_record r \<and> is_str (\<lambda>_. True) (jget ''summary'' r)) (jget ''reviews'' (jget ''reviewer'' v))
     \<and> all_items (\<lambda>e. is_record e \<and> is_str (\<lambda>_. True) (jget ''eventId'' e) \<and> is_str (\<lambda>_. True) (jget ''summary'' e))
         (jget ''events'' v)
     \<and> opt_field (is_str (\<lambda>_. True)) (jget ''settledReason'' v)
     \<and> (let state = jget ''state'' v; child = jget ''child'' v; status = jget ''status'' v in
        if state = JStr ''provisional''
        then sv_provisional (jget ''provisional'' v) \<and> child = JUndef \<and> (status = JUndef \<or> status = JStr ''idle'')
        else jget ''provisional'' v = JUndef
          \<and> (if state = JStr ''reserved'' then child = JUndef \<and> status = JUndef
             else if state = JStr ''active'' \<or> state = JStr ''degraded'' then sv_child child \<and> sv_status status
             else opt_field sv_child child \<and> opt_field sv_status status))"

section \<open>The published view\<close>

definition SUPERVISION_REVIEWER_MODEL :: string where
  "SUPERVISION_REVIEWER_MODEL = ''typesafe/jev-latest''"

record review_view =
  rw_atMs :: int
  rw_classification :: string
  rw_summary :: string

record view_env =
  ve_generation :: nat
  ve_reviews :: "review_view bounded_history"
  ve_lastReviewAt :: "int option"

definition jint :: "int \<Rightarrow> jsval" where
  "jint n = JNum (of_int n)"

definition jnat :: "nat \<Rightarrow> jsval" where
  "jnat n = JNum (of_nat n)"

definition view_state_name :: "sup_state \<Rightarrow> string" where
  "view_state_name st = (case st of SsReserved \<Rightarrow> ''reserved'' | SsProvisional \<Rightarrow> ''provisional'' | SsActive \<Rightarrow> ''active''
     | SsDegraded \<Rightarrow> ''degraded'' | SsSettled \<Rightarrow> ''settled'')"

definition detail_json :: "detail \<Rightarrow> jsval" where
  "detail_json d = (case d of DetStr s \<Rightarrow> JStr s | DetNum n \<Rightarrow> jint n | DetBool b \<Rightarrow> JBool b)"

definition event_json :: "sup_event \<Rightarrow> jsval" where
  "event_json e = JObj ([(''eventId'', JStr (se_eventId e)), (''atMs'', jint (se_atMs e)),
     (''type'', JStr (event_name (se_type e))),
     (''priority'', JStr (if se_priority e = HighPriority then ''high'' else ''normal'')),
     (''summary'', JStr (se_summary e))]
     @ opt_json ''details'' (map_option (\<lambda>ds. JObj (map (\<lambda>d. (fst d, detail_json (snd d))) ds)) (se_details e)))"

definition transition_json :: "sup_transition \<Rightarrow> jsval" where
  "transition_json t = JObj [(''atMs'', jint (st_atMs t)), (''from'', JStr (status_name (st_from t))),
     (''to'', JStr (status_name (st_to t))), (''revision'', jnat (st_revision t)),
     (''source'', JStr (source_name (st_source t)))]"

definition review_json :: "review_view \<Rightarrow> jsval" where
  "review_json r = JObj [(''atMs'', jint (rw_atMs r)), (''classification'', JStr (rw_classification r)),
     (''summary'', JStr (rw_summary r))]"

definition reconciliation_json :: "supervisor \<Rightarrow> jsval" where
  "reconciliation_json s = (let h = sv_health s in
     JObj ([(''intervalMs'', jint 30000), (''degraded'', JBool (he_degraded h)), (''consecutiveFailures'', jnat (he_failures h))]
       @ opt_json ''lastAttemptAtMs'' (map_option jint (he_attemptAt h))
       @ opt_json ''lastSuccessAtMs'' (map_option jint (he_successAt h))
       @ opt_json ''lastFailureAtMs'' (map_option jint (he_failureAt h))
       @ opt_json ''lastFailureReason'' (map_option (\<lambda>r. JStr (failure_name r)) (he_reason h))))"

definition stream_degraded :: "supervisor \<Rightarrow> bool" where
  "stream_degraded s \<longleftrightarrow> he_stream (sv_health s) \<or> sv_monitorDegraded s"

definition monitor_json :: "view_env \<Rightarrow> supervisor \<Rightarrow> jsval" where
  "monitor_json env s =
     JObj [(''connected'', JBool (\<not> stream_degraded s)),
           (''degraded'', JBool (stream_degraded s \<or> he_degraded (sv_health s))),
           (''generation'', jnat (ve_generation env)), (''evidenceGaps'', jnat (he_gaps (sv_health s))),
           (''reconciliation'', reconciliation_json s)]"

definition reviewer_json :: "sup_deps \<Rightarrow> view_env \<Rightarrow> supervisor \<Rightarrow> jsval" where
  "reviewer_json deps env s =
     JObj ([(''model'', JStr SUPERVISION_REVIEWER_MODEL),
            (''cadenceMinutes'', jint \<lfloor>(of_int (sd_cadenceMs deps) / 60000 + 1 / 2 :: rat)\<rfloor>),
            (''degraded'', JBool (re_degraded (sv_review s)))]
       @ opt_json ''paused'' (if re_paused (sv_review s) then Some (JBool True) else None)
       @ [(''reviews'', JArr (map review_json (bh_items (ve_reviews env)))),
          (''truncatedReviews'', jnat (bh_dropped (ve_reviews env)))]
       @ opt_json ''lastReviewAtMs'' (map_option jint (ve_lastReviewAt env)))"

definition view_common :: "sup_deps \<Rightarrow> view_env \<Rightarrow> supervisor \<Rightarrow> (string \<times> jsval) list" where
  "view_common deps env s =
     [(''monitor'', monitor_json env s), (''reviewer'', reviewer_json deps env s),
      (''transitions'', JArr (map transition_json (bh_items (sv_transitions s)
         @ (if sv_bound s then (case pv_candidate (sv_prov s) of None \<Rightarrow> [] | Some g \<Rightarrow> pl_events (sg_lifecycle g)) else [])))),
      (''truncatedTransitions'', jnat (bh_dropped (sv_transitions s))),
      (''events'', JArr (map event_json (log_history (sv_log s)))),
      (''truncatedEvents'', jnat (el_truncated (sv_log s))),
      (''unobservedEvents'', jnat (log_unobserved (sv_log s)))]
     @ opt_json ''settledReason'' (map_option (\<lambda>x. JStr (snd x)) (sv_settlement s))"

definition provisionalView :: "sup_deps \<Rightarrow> prov_binding \<Rightarrow> jsval" where
  "provisionalView deps b =
     JObj ([(''agentName'', JStr (vi_agentName (pb_identity b))), (''agentKind'', JStr ''agy''),
            (''paneId'', JStr (vi_paneId (pb_identity b))), (''terminalId'', JStr (vi_terminalId (pb_identity b))),
            (''operatingPointId'', JStr (pb_operatingPointId b))]
       @ opt_json ''requestedOperatingPointId''
           (if pb_operatingPointId b = sd_operatingPointId deps then None else Some (JStr (sd_operatingPointId deps)))
       @ [(''baseline'', JObj [(''state'', JStr (status_name (bl_state (pb_baseline b)))),
            (''stateChangeSeq'', jnat (bl_seq (pb_baseline b))), (''revision'', jnat (bl_revision (pb_baseline b)))])])"

definition childView :: "sup_deps \<Rightarrow> string \<Rightarrow> sup_identity \<Rightarrow> jsval" where
  "childView deps point i =
     JObj ([(''agentName'', JStr (si_agentName i)), (''agentKind'', JStr (si_agentKind i)), (''paneId'', JStr (si_paneId i)),
            (''terminalId'', JStr (si_terminalId i)), (''operatingPointId'', JStr point)]
       @ opt_json ''requestedOperatingPointId''
           (if point = sd_operatingPointId deps then None else Some (JStr (sd_operatingPointId deps)))
       @ opt_json ''requestedAgentKind'' (if si_agentKind i = sd_agentKind deps then None else Some (JStr (sd_agentKind deps))))"

definition projected_state :: "supervisor \<Rightarrow> sup_state" where
  "projected_state s =
     (if sv_bound s \<and> \<not> isSettled s
      then (if stream_degraded s \<or> he_degraded (sv_health s) then SsDegraded else SsActive)
      else sv_state s)"

definition published_status :: "supervisor \<Rightarrow> jsval option" where
  "published_status s = map_option (\<lambda>st. JStr (status_name st)) (po_status (sv_pos s))"

definition published_child :: "sup_deps \<Rightarrow> supervisor \<Rightarrow> jsval option" where
  "published_child deps s = map_option (childView deps (the (sv_point s))) (po_identity (sv_pos s))"

definition view :: "sup_deps \<Rightarrow> view_env \<Rightarrow> supervisor \<Rightarrow> jsval" where
  "view deps env s =
     (let common = view_common deps env s; state = projected_state s in
      JObj (case state of
          SsReserved \<Rightarrow> common @ [(''state'', JStr ''reserved'')]
        | SsProvisional \<Rightarrow>
            (case pv_binding (sv_prov s) of
               None \<Rightarrow> common @ [(''state'', JStr ''reserved'')]
             | Some b \<Rightarrow> common @ [(''state'', JStr ''provisional''), (''provisional'', provisionalView deps b),
                                  (''status'', JStr ''idle'')])
        | SsSettled \<Rightarrow>
            common @ [(''state'', JStr ''settled'')]
              @ (if sv_bound s then opt_json ''child'' (published_child deps s) @ opt_json ''status'' (published_status s) else [])
        | _ \<Rightarrow> common @ [(''state'', JStr (view_state_name state))]
              @ opt_json ''child'' (published_child deps s) @ opt_json ''status'' (published_status s)))"

section \<open>The view passes the guard\<close>

definition identity_ok :: "sup_identity \<Rightarrow> bool" where
  "identity_ok i \<longleftrightarrow> si_agentName i \<noteq> [] \<and> si_agentKind i \<noteq> [] \<and> si_paneId i \<noteq> [] \<and> si_terminalId i \<noteq> []"

definition deps_ok :: "sup_deps \<Rightarrow> bool" where
  "deps_ok deps \<longleftrightarrow> sd_agentKind deps \<noteq> [] \<and> sd_operatingPointId deps \<noteq> []"

text \<open>What the published state relies on.\<close>

definition view_fields :: "sup_identity option \<Rightarrow> string option \<Rightarrow> sup_status option \<Rightarrow> bool \<Rightarrow> sup_state \<Rightarrow>
    prov_binding option \<Rightarrow> bool" where
  "view_fields identity point status bound state prov \<longleftrightarrow>
     (case identity of
        None \<Rightarrow> \<not> bound
      | Some i \<Rightarrow> identity_ok i \<and> point \<noteq> None \<and> point \<noteq> Some [] \<and> status \<noteq> None)
     \<and> (\<not> bound \<longrightarrow> state \<noteq> SsActive \<and> state \<noteq> SsDegraded)
     \<and> opt_all validProvisionalBinding prov"

definition view_inv :: "supervisor \<Rightarrow> bool" where
  "view_inv s \<longleftrightarrow> view_fields (po_identity (sv_pos s)) (sv_point s) (po_status (sv_pos s)) (sv_bound s) (sv_state s)
     (pv_binding (sv_prov s))"

lemma safe_nat_jnat: "n \<le> MAX_SAFE_INTEGER \<Longrightarrow> safe_nat (jnat n) = Some n"
proof -
  assume n: "n \<le> MAX_SAFE_INTEGER"
  have "of_nat n = (of_int (int n) :: rat)" by simp
  then have "of_nat n = Fract (int n) 1" by (simp add: Fract_of_int_eq)
  then have "quotient_of (of_nat n) = (int n, 1)" by (simp add: quotient_of_Fract normalize_def)
  moreover have "(of_nat n :: rat) \<le> 9007199254740991"
    using n unfolding MAX_SAFE_INTEGER_def by (metis of_nat_le_iff of_nat_numeral)
  ultimately show ?thesis by (simp add: safe_nat_def jnat_def)
qed

lemma status_name_ok [simp]: "sv_status (JStr (status_name st))"
  by (simp add: sv_status_def)

lemma childView_ok:
  "identity_ok i \<Longrightarrow> deps_ok deps \<Longrightarrow> point \<noteq> [] \<Longrightarrow> sv_child (childView deps point i)"
  by (simp add: sv_child_def childView_def identity_ok_def deps_ok_def sv_text_def json_gets map_of_append)

lemma provisionalView_ok:
  "validProvisionalBinding b \<Longrightarrow> deps_ok deps \<Longrightarrow> sv_provisional (provisionalView deps b)"
  by (simp add: sv_provisional_def provisionalView_def validProvisionalBinding_def deps_ok_def sv_text_def json_gets
      map_of_append usable_def safeCounter_def safe_nat_jnat status_name_def)

text \<open>The fields all views share, by key.\<close>

lemma common_gets:
  "map_of (view_common deps env s) ''monitor'' = Some (monitor_json env s)"
  "map_of (view_common deps env s) ''reviewer'' = Some (reviewer_json deps env s)"
  "\<exists>xs. map_of (view_common deps env s) ''transitions'' = Some (JArr xs)"
  "map_of (view_common deps env s) ''events'' = Some (JArr (map event_json (log_history (sv_log s))))"
  "map_of (view_common deps env s) ''settledReason'' = map_option (\<lambda>x. JStr (snd x)) (sv_settlement s)"
  "map_of (view_common deps env s) ''state'' = None"
  "map_of (view_common deps env s) ''child'' = None"
  "map_of (view_common deps env s) ''status'' = None"
  "map_of (view_common deps env s) ''provisional'' = None"
  by (simp_all add: view_common_def json_gets map_of_append)

lemma view_gets:
  assumes "\<And>k. k \<in> fst ` set rest \<Longrightarrow> k \<in> {''state'', ''child'', ''status'', ''provisional''}"
    and "v = JObj (view_common deps env s @ rest)"
  shows "k \<in> {''state'', ''child'', ''status'', ''provisional''} \<Longrightarrow> jget k v = ojs (map_of rest k)"
    and "k \<notin> {''state'', ''child'', ''status'', ''provisional''} \<Longrightarrow> jget k v = ojs (map_of (view_common deps env s) k)"
proof -
  show "jget k v = ojs (map_of rest k)" if "k \<in> {''state'', ''child'', ''status'', ''provisional''}"
    using that common_gets(6-9) [of deps env s] assms(2)
    by (auto simp: map_add_def split: option.splits)
  show "jget k v = ojs (map_of (view_common deps env s) k)" if "k \<notin> {''state'', ''child'', ''status'', ''provisional''}"
  proof -
    have "map_of rest k = None" using that assms(1) by (auto simp: map_of_eq_None_iff)
    then show ?thesis using assms(2) by (simp add: map_add_def split: option.splits)
  qed
qed

definition common_ok :: "jsval \<Rightarrow> bool" where
  "common_ok v \<longleftrightarrow>
     is_record v \<and> is_record (jget ''monitor'' v) \<and> is_record (jget ''reviewer'' v)
     \<and> sv_text (jget ''model'' (jget ''reviewer'' v)) \<and> is_array (jget ''reviews'' (jget ''reviewer'' v))
     \<and> is_array (jget ''transitions'' v) \<and> is_array (jget ''events'' v)
     \<and> opt_field is_bool (jget ''paused'' (jget ''reviewer'' v))
     \<and> all_items (\<lambda>r. is_record r \<and> is_str (\<lambda>_. True) (jget ''summary'' r)) (jget ''reviews'' (jget ''reviewer'' v))
     \<and> all_items (\<lambda>e. is_record e \<and> is_str (\<lambda>_. True) (jget ''eventId'' e) \<and> is_str (\<lambda>_. True) (jget ''summary'' e))
         (jget ''events'' v)
     \<and> opt_field (is_str (\<lambda>_. True)) (jget ''settledReason'' v)"

lemma reviewer_ok:
  "is_record (reviewer_json deps env s)"
  "sv_text (jget ''model'' (reviewer_json deps env s))"
  "jget ''reviews'' (reviewer_json deps env s) = JArr (map review_json (bh_items (ve_reviews env)))"
  "opt_field is_bool (jget ''paused'' (reviewer_json deps env s))"
  by (simp_all add: reviewer_json_def json_gets map_of_append sv_text_def SUPERVISION_REVIEWER_MODEL_def)

lemma item_ok:
  "is_record (review_json r) \<and> is_str (\<lambda>_. True) (jget ''summary'' (review_json r))"
  "is_record (event_json e) \<and> is_str (\<lambda>_. True) (jget ''eventId'' (event_json e)) \<and> is_str (\<lambda>_. True) (jget ''summary'' (event_json e))"
  by (simp_all add: review_json_def event_json_def json_gets map_of_append)

lemma common_view_ok:
  assumes "\<And>k. k \<in> fst ` set rest \<Longrightarrow> k \<in> {''state'', ''child'', ''status'', ''provisional''}"
  shows "common_ok (JObj (view_common deps env s @ rest))"
proof -
  note gets = view_gets(2) [where deps = deps and env = env and s = s, OF assms refl]
  obtain xs where "map_of (view_common deps env s) ''transitions'' = Some (JArr xs)" using common_gets(3) by blast
  then show ?thesis
    using item_ok unfolding common_ok_def
    by (cases "sv_settlement s")
      (auto simp: gets common_gets(1,2,4,5) reviewer_ok list_all_iff monitor_json_def simp del: jget_obj)
qed

definition state_shape :: "jsval \<Rightarrow> bool" where
  "state_shape v \<longleftrightarrow>
     (case js_word (jget ''state'' v) of None \<Rightarrow> False | Some w \<Rightarrow> w \<in> set STATE_NAMES)
     \<and> (let state = jget ''state'' v; child = jget ''child'' v; status = jget ''status'' v in
        if state = JStr ''provisional''
        then sv_provisional (jget ''provisional'' v) \<and> child = JUndef \<and> (status = JUndef \<or> status = JStr ''idle'')
        else jget ''provisional'' v = JUndef
          \<and> (if state = JStr ''reserved'' then child = JUndef \<and> status = JUndef
             else if state = JStr ''active'' \<or> state = JStr ''degraded'' then sv_child child \<and> sv_status status
             else opt_field sv_child child \<and> opt_field sv_status status))"

lemma state_shape_common:
  assumes "\<And>k. k \<in> fst ` set rest \<Longrightarrow> k \<in> {''state'', ''child'', ''status'', ''provisional''}"
    and "state_shape (JObj rest)"
  shows "state_shape (JObj (view_common deps env s @ rest))"
proof -
  have same: "jget k (JObj (view_common deps env s @ rest)) = jget k (JObj rest)"
    if k: "k \<in> {''state'', ''child'', ''status'', ''provisional''}" for k
    using view_gets(1) [OF assms(1) refl k] by simp
  show ?thesis using assms(2) unfolding state_shape_def by (simp only: same insertI1 insertI2)
qed

lemma isSupervisionJobView_parts: "isSupervisionJobView v \<longleftrightarrow> common_ok v \<and> state_shape v"
  by (auto simp: isSupervisionJobView_def common_ok_def state_shape_def)

lemma view_guard:
  assumes inv: "view_inv s" and deps: "deps_ok deps"
  shows "isSupervisionJobView (view deps env s)"
proof -
  have child: "\<exists>c. published_child deps s = Some c \<and> sv_child c" and status: "\<exists>st. published_status s = Some (JStr (status_name st))"
    if "sv_bound s"
    using that inv deps by (auto simp: view_inv_def view_fields_def published_child_def published_status_def split: option.splits intro!: childView_ok)
  have prov: "sv_provisional (provisionalView deps b)" if "pv_binding (sv_prov s) = Some b" for b
    using that inv deps by (auto simp: view_inv_def view_fields_def intro!: provisionalView_ok)
  have bound: "sv_bound s" if "projected_state s = SsActive \<or> projected_state s = SsDegraded"
    using that inv by (auto simp: projected_state_def view_inv_def view_fields_def split: if_splits)
  obtain rest where rest: "view deps env s = JObj (view_common deps env s @ rest)" "state_shape (JObj rest)"
      "\<forall>k \<in> fst ` set rest. k \<in> {''state'', ''child'', ''status'', ''provisional''}"
  proof -
    have "\<exists>rest. view deps env s = JObj (view_common deps env s @ rest) \<and> state_shape (JObj rest)
      \<and> (\<forall>k \<in> fst ` set rest. k \<in> {''state'', ''child'', ''status'', ''provisional''})"
    using child status prov bound
    by (cases "projected_state s"; cases "pv_binding (sv_prov s)"; cases "sv_bound s")
      (auto simp: view_def state_shape_def STATE_NAMES_def view_state_name_def json_gets map_of_append Let_def opt_field_def)
    then show ?thesis using that by blast
  qed
  have keys: "k \<in> {''state'', ''child'', ''status'', ''provisional''}" if "k \<in> fst ` set rest" for k
    using rest(3) that by blast
  show ?thesis
    unfolding isSupervisionJobView_parts rest(1)
    by (intro conjI common_view_ok state_shape_common keys rest(2))
qed

text \<open>The array form of a state name passes the guard and is judged like a settled view.\<close>

lemma array_state_accepted:
  "isSupervisionJobView (JObj [(''state'', JArr [JStr ''active'']), (''monitor'', JObj []),
     (''reviewer'', JObj [(''model'', JStr ''m''), (''reviews'', JArr [])]), (''transitions'', JArr []), (''events'', JArr [])])"
  by code_simp

end
