(* ===== verification/Supervisor_Invariant.thy ===== *)
theory Supervisor_Invariant
  imports Supervision_View
begin

text \<open>
  What every history of a supervisor keeps: the published identity is complete, a settled supervisor
  has its settlement, and what is admitted or suspended is well formed. Most operations only fold
  evidence into counters, logs and timers; \<open>quiet\<close> says so, and its introduction rules compose along
  the definitions.
\<close>

named_theorems quiet_intros \<open>operations that leave the identity, the admitted evidence and the settlement alone\<close>

section \<open>Quiet operations\<close>

definition state_refreshed :: "supervisor \<Rightarrow> supervisor \<Rightarrow> bool" where
  "state_refreshed s s' \<longleftrightarrow> sv_state s' = sv_state s
     \<or> (sv_bound s \<and> sv_state s \<noteq> SsSettled \<and> (sv_state s' = SsActive \<or> sv_state s' = SsDegraded))"

definition quiet_pos :: "sup_position \<Rightarrow> sup_position \<Rightarrow> bool" where
  "quiet_pos p q \<longleftrightarrow> po_identity q = po_identity p \<and> po_moveDest q = po_moveDest p
     \<and> (po_status p \<noteq> None \<longrightarrow> po_status q \<noteq> None)"

definition quiet_prov :: "sup_provisional \<Rightarrow> sup_provisional \<Rightarrow> bool" where
  "quiet_prov p q \<longleftrightarrow> pv_binding q = pv_binding p \<and> pv_candidate q = pv_candidate p \<and> pv_published q = pv_published p"

definition quiet :: "supervisor \<Rightarrow> supervisor \<Rightarrow> bool" where
  "quiet s s' \<longleftrightarrow> quiet_pos (sv_pos s) (sv_pos s') \<and> quiet_prov (sv_prov s) (sv_prov s') \<and> state_refreshed s s'
     \<and> sv_point s' = sv_point s \<and> sv_bound s' = sv_bound s \<and> sv_queued s' = sv_queued s
     \<and> sv_bindRead s' = sv_bindRead s \<and> sv_await s' = sv_await s \<and> sv_settlement s' = sv_settlement s
     \<and> sv_resolved s' = sv_resolved s \<and> sv_stopped s' = sv_stopped s \<and> sv_bindPending s' = sv_bindPending s
     \<and> sv_bindStarted s' = sv_bindStarted s
     \<and> (\<exists>ts. sv_chain s' = sv_chain s @ ts \<and> set ts \<subseteq> {TkCompletion, TkHandoff})"

lemma quiet_refl [simp, quiet_intros]: "quiet s s"
  by (auto simp: quiet_def quiet_pos_def quiet_prov_def state_refreshed_def)

lemma quiet_pos_trans: "quiet_pos p q \<Longrightarrow> quiet_pos q r \<Longrightarrow> quiet_pos p r"
  by (auto simp: quiet_pos_def)

lemma quiet_prov_trans: "quiet_prov p q \<Longrightarrow> quiet_prov q r \<Longrightarrow> quiet_prov p r"
  by (auto simp: quiet_prov_def)

lemma quiet_trans:
  assumes "quiet s t" and "quiet t u"
  shows "quiet s u"
proof -
  obtain ts us where "sv_chain t = sv_chain s @ ts" "set ts \<subseteq> {TkCompletion, TkHandoff}"
      "sv_chain u = sv_chain t @ us" "set us \<subseteq> {TkCompletion, TkHandoff}"
    using assms unfolding quiet_def by blast
  then have chain: "\<exists>ts. sv_chain u = sv_chain s @ ts \<and> set ts \<subseteq> {TkCompletion, TkHandoff}"
    by (intro exI [of _ "ts @ us"]) auto
  have pos: "quiet_pos (sv_pos s) (sv_pos u)" and prov: "quiet_prov (sv_prov s) (sv_prov u)"
    using assms quiet_pos_trans quiet_prov_trans unfolding quiet_def by blast+
  have state: "state_refreshed s u" using assms unfolding quiet_def state_refreshed_def by auto
  show ?thesis using assms chain pos prov state unfolding quiet_def by simp
qed

text \<open>Plain updates of the fields no later guarantee depends on.\<close>

lemma quiet_updates [quiet_intros]:
  "quiet s t \<Longrightarrow> quiet s (t\<lparr>sv_health := h\<rparr>)"
  "quiet s t \<Longrightarrow> quiet s (t\<lparr>sv_cycle := c\<rparr>)"
  "quiet s t \<Longrightarrow> quiet s (t\<lparr>sv_review := r\<rparr>)"
  "quiet s t \<Longrightarrow> quiet s (t\<lparr>sv_log := l\<rparr>)"
  "quiet s t \<Longrightarrow> quiet s (t\<lparr>sv_transitions := x\<rparr>)"
  "quiet s t \<Longrightarrow> quiet s (t\<lparr>sv_runs := g\<rparr>)"
  "quiet s t \<Longrightarrow> quiet s (t\<lparr>sv_ids := n\<rparr>)"
  "quiet s t \<Longrightarrow> quiet s (t\<lparr>sv_out := out\<rparr>)"
  "quiet s t \<Longrightarrow> quiet s (t\<lparr>sv_now := i\<rparr>)"
  "quiet s t \<Longrightarrow> quiet s (t\<lparr>sv_owner := w\<rparr>)"
  "quiet s t \<Longrightarrow> quiet s (t\<lparr>sv_retired := b\<rparr>)"
  "quiet s t \<Longrightarrow> quiet s (t\<lparr>sv_monitorDegraded := b\<rparr>)"
  "quiet s t \<Longrightarrow> quiet s (t\<lparr>sv_observing := b\<rparr>)"
  "quiet s t \<Longrightarrow> quiet_pos (sv_pos t) p \<Longrightarrow> quiet s (t\<lparr>sv_pos := p\<rparr>)"
  "quiet s t \<Longrightarrow> quiet_prov (sv_prov t) v \<Longrightarrow> quiet s (t\<lparr>sv_prov := v\<rparr>)"
  by (auto simp: quiet_def state_refreshed_def intro: quiet_pos_trans quiet_prov_trans)

lemma quiet_pos_updates [simp, quiet_intros]:
  "quiet_pos p (p\<lparr>po_status := Some st\<rparr>)"
  "quiet_pos p (p\<lparr>po_seq := q\<rparr>)"
  "quiet_pos p (p\<lparr>po_endpoint := e\<rparr>)"
  "quiet_pos p (p\<lparr>po_revision := r\<rparr>)"
  "quiet_pos p (p\<lparr>po_anchor := a\<rparr>)"
  by (simp_all add: quiet_pos_def)

lemma quiet_prov_updates [simp, quiet_intros]:
  "quiet_prov p (p\<lparr>pv_failure := x\<rparr>)"
  "quiet_prov p (p\<lparr>pv_native := n\<rparr>)"
  "quiet_prov p (p\<lparr>pv_lifecycle := l\<rparr>)"
  by (simp_all add: quiet_prov_def)

lemma quiet_put_out [quiet_intros]: "quiet s t \<Longrightarrow> quiet s (put_out x t)"
  unfolding put_out_def by (intro quiet_intros)

lemma quiet_publish [quiet_intros]: "quiet s t \<Longrightarrow> quiet s (publish_text x t)"
  unfolding publish_text_def by (intro quiet_intros)

lemma quiet_persist [quiet_intros]: "quiet s t \<Longrightarrow> quiet s (persistEmittedEvent deps e limit t)"
  unfolding persistEmittedEvent_def by (auto split: option.splits intro: quiet_intros)

lemma quiet_emit [quiet_intros]: "quiet s t \<Longrightarrow> quiet s (emit deps ty summary details verdict t)"
  unfolding emit_def Let_def by (auto split: prod.splits intro!: quiet_intros)

lemma quiet_gap [quiet_intros]: "quiet s t \<Longrightarrow> quiet s (recordEvidenceGap deps source reason p q om ps qs t)"
  unfolding recordEvidenceGap_def by (intro quiet_intros)

lemma quiet_refresh [quiet_intros]: "quiet s t \<Longrightarrow> quiet s (refreshActiveState t)"
proof (erule quiet_trans)
  show "quiet t (refreshActiveState t)"
    by (auto simp: refreshActiveState_def isSettled_def quiet_def quiet_pos_def quiet_prov_def state_refreshed_def)
qed

lemma quiet_failure [quiet_intros]: "quiet s t \<Longrightarrow> quiet s (markReconciliationFailure deps r t)"
  unfolding markReconciliationFailure_def note_failure_def Let_def by (auto intro!: quiet_intros)

lemma quiet_success [quiet_intros]: "quiet s t \<Longrightarrow> quiet s (markReconciliationSuccess deps t)"
  unfolding markReconciliationSuccess_def note_success_def Let_def by (auto intro!: quiet_intros)

lemma quiet_prov_failure [quiet_intros]: "quiet s t \<Longrightarrow> quiet s (markProvisionalFailure deps cause t)"
  unfolding markProvisionalFailure_def by (auto intro!: quiet_intros)

lemma quiet_monitor [quiet_intros]:
  "quiet s t \<Longrightarrow> quiet s (onMonitorDegraded deps reason t)"
  "quiet s t \<Longrightarrow> quiet s (onMonitorRecovered deps t)"
  "quiet s t \<Longrightarrow> quiet s (onReconciliationFailure deps r t)"
  unfolding onMonitorDegraded_def onMonitorRecovered_def onReconciliationFailure_def by (auto intro!: quiet_intros)

lemma quiet_timers [quiet_intros]:
  "quiet s t \<Longrightarrow> quiet s (clearReviewTimer t)"
  "quiet s t \<Longrightarrow> quiet s (armReview d t)"
  unfolding clearReviewTimer_def armReview_def by (auto intro!: quiet_intros)

lemma quiet_enterStatus [quiet_intros]: "quiet s t \<Longrightarrow> quiet s (enterStatus deps st t)"
  unfolding enterStatus_def Let_def by (auto intro!: quiet_intros)

lemma quiet_enqueue: "k \<in> {TkCompletion, TkHandoff} \<Longrightarrow> quiet s t \<Longrightarrow> quiet s (enqueue k t)"
proof (rule quiet_trans)
  assume "k \<in> {TkCompletion, TkHandoff}"
  then show "quiet t (enqueue k t)"
    by (auto simp: enqueue_def quiet_def quiet_pos_def quiet_prov_def state_refreshed_def)
qed

lemma quiet_schedule [quiet_intros]:
  "quiet s t \<Longrightarrow> quiet s (scheduleCompletionSignal t)"
  "quiet s t \<Longrightarrow> quiet s (scheduleHandoffEvaluation deps t)"
  unfolding scheduleCompletionSignal_def scheduleHandoffEvaluation_def by (auto intro!: quiet_enqueue)

lemma quiet_flush [quiet_intros]: "quiet s t \<Longrightarrow> quiet s (flushPendingCycleEvent deps t)"
  unfolding flushPendingCycleEvent_def by (auto split: option.splits intro!: quiet_intros)

lemma quiet_with_run [quiet_intros]: "quiet s t \<Longrightarrow> quiet s (with_run f t)"
  unfolding with_run_def by (auto split: option.splits intro!: quiet_intros)

lemma quiet_cycle [quiet_intros]:
  "quiet s t \<Longrightarrow> quiet s (open_cycle deps t)"
  "quiet s t \<Longrightarrow> quiet s (close_cycle deps t)"
  "quiet s t \<Longrightarrow> quiet s (announce_transition deps st st' r t)"
  "quiet s t \<Longrightarrow> quiet s (push_transition st st' r src t)"
  unfolding open_cycle_def close_cycle_def announce_transition_def push_transition_def Let_def
  by (auto split: option.splits intro!: quiet_intros)

lemma quiet_applyStatus [quiet_intros]: "quiet s t \<Longrightarrow> quiet s (applyStatus deps st r src t)"
  unfolding applyStatus_def Let_def by (auto intro!: quiet_intros)

lemma quiet_revisions [quiet_intros]:
  "quiet s t \<Longrightarrow> quiet s (observeStateChangeSeq q t)"
  "quiet s t \<Longrightarrow> quiet s (set_endpoint e t)"
  "quiet s t \<Longrightarrow> quiet s (set_revision r t)"
  "quiet s t \<Longrightarrow> quiet s (set_anchor r t)"
  unfolding observeStateChangeSeq_def set_endpoint_def set_revision_def set_anchor_def by (auto intro!: quiet_intros)

lemma quiet_applyEventRevision [quiet_intros]: "quiet s t \<Longrightarrow> quiet s (applyEventRevision deps p t)"
  unfolding applyEventRevision_def Let_def by (auto intro!: quiet_intros)

lemma quiet_applySnapshotRevision [quiet_intros]: "quiet s t \<Longrightarrow> quiet s (applySnapshotRevision deps occ t)"
  unfolding applySnapshotRevision_def Let_def by (auto intro!: quiet_intros)

lemma quiet_applyMoveEndpoints [quiet_intros]: "quiet s t \<Longrightarrow> quiet s (applyMoveEndpoints deps es q t)"
proof (induction es arbitrary: q t)
  case (Cons e es)
  then show ?case by (auto simp: Let_def intro!: Cons.IH quiet_intros)
qed simp

lemma quiet_observeOwner [quiet_intros]: "quiet s t \<Longrightarrow> quiet s (observeOwner sn t)"
  unfolding observeOwner_def by (intro quiet_intros)

lemma quiet_signal [quiet_intros]:
  "quiet s t \<Longrightarrow> quiet s (completion_task_end deps t)"
  "quiet s t \<Longrightarrow> quiet s (quota_gap deps t)"
  unfolding completion_task_end_def quota_gap_def Let_def by (auto intro!: quiet_intros)

lemma quiet_limited [quiet_intros]: "quiet s t \<Longrightarrow> quiet s (provider_limited deps ck retry rec t)"
  unfolding provider_limited_def Let_def by (auto intro!: quiet_intros)

lemma quiet_handoff [quiet_intros]:
  "quiet s t \<Longrightarrow> quiet s (recordOutcome r lc detail t)"
  "quiet s t \<Longrightarrow> quiet s (handoff_recorded b t)"
  "quiet s t \<Longrightarrow> quiet s (repair_prompted deps n reason b t)"
  unfolding recordOutcome_def handoff_recorded_def repair_prompted_def by (auto intro!: quiet_intros)

lemma quiet_provisional [quiet_intros]:
  "quiet s t \<Longrightarrow> quiet s (retain_native i x t)"
  "quiet s t \<Longrightarrow> quiet s (fold_retained deps b lc t)"
  unfolding retain_native_def fold_retained_def Let_def by (auto split: option.splits prod.splits intro!: quiet_intros)

lemma quiet_provisional_snapshot [quiet_intros]: "quiet s t \<Longrightarrow> quiet s (applyProvisionalSnapshot deps sn trigger t)"
  unfolding applyProvisionalSnapshot_def Let_def by (auto split: option.splits intro!: quiet_intros)

section \<open>The invariant\<close>

definition binding_ok :: "sup_binding \<Rightarrow> bool" where
  "binding_ok b \<longleftrightarrow> identity_ok (sb_identity b) \<and> sb_operatingPointId b \<noteq> []"

definition candidate_ok :: "strengthening \<Rightarrow> bool" where
  "candidate_ok g \<longleftrightarrow> identity_ok (sg_identity g) \<and> sg_operatingPointId g \<noteq> []"

fun await_ok :: "await \<Rightarrow> bool" where
  "await_ok (AwMove p c) = usable (pn_paneId p)"
| "await_ok (AwStrengthen b pub) = binding_ok b"
| "await_ok w = True"

fun task_ok :: "task \<Rightarrow> bool" where
  "task_ok (TkStrengthen b pub) = binding_ok b"
| "task_ok t = True"

fun read_ok :: "bind_read \<Rightarrow> bool" where
  "read_ok (ReadExact b pub) = binding_ok b"
| "read_ok (ReadProvisional b pub) = validProvisionalBinding b"

fun needs_identity :: "await \<Rightarrow> bool" where
  "needs_identity (AwStrengthen b pub) = False"
| "needs_identity w = True"

definition admitted_ok :: "supervisor \<Rightarrow> bool" where
  "admitted_ok s \<longleftrightarrow> list_all event_ok (sv_queued s) \<and> list_all task_ok (sv_chain s)
     \<and> opt_all await_ok (sv_await s) \<and> opt_all read_ok (sv_bindRead s)
     \<and> opt_all (\<lambda>p. usable (pn_paneId p)) (po_moveDest (sv_pos s)) \<and> opt_all candidate_ok (pv_candidate (sv_prov s))"

text \<open>
  A supervisor is bound once: at most one binding is being read, queued or committed, and a queued exact
  binding has its identity prepared.
\<close>

fun is_bind_task :: "task \<Rightarrow> bool" where
  "is_bind_task (TkBind b pub) = True"
| "is_bind_task (TkProvisional b pub) = True"
| "is_bind_task t = False"

fun cont_binds :: "cont \<Rightarrow> nat" where
  "cont_binds (ContDrain (DrainBind b pub)) = 1"
| "cont_binds (ContDrain (DrainProvisional b pub)) = 1"
| "cont_binds c = 0"

fun await_cont :: "await \<Rightarrow> cont" where
  "await_cont (AwReconcile trigger c) = c"
| "await_cont (AwMove p c) = c"
| "await_cont (AwSelfClose oc trigger summary c) = c"
| "await_cont (AwSignal e) = signal_cont e"
| "await_cont (AwMark e) = signal_cont e"
| "await_cont (AwFlush oc reason c) = c"
| "await_cont (AwExitValidate oc reason limited r c) = c"
| "await_cont (AwExitRecord oc reason c) = c"
| "await_cont w = ContTask"

definition bind_count :: "task list \<Rightarrow> bind_read option \<Rightarrow> nat" where
  "bind_count ts r = length (filter is_bind_task ts) + (if r = None then 0 else 1)"

definition exact_pending :: "task list \<Rightarrow> bool" where
  "exact_pending ts \<longleftrightarrow> list_ex (\<lambda>t. case t of TkBind b pub \<Rightarrow> True | _ \<Rightarrow> False) ts"

definition phase_fields :: "bool \<Rightarrow> bind_read option \<Rightarrow> sup_identity option \<Rightarrow> prov_binding option \<Rightarrow> task list \<Rightarrow> bool" where
  "phase_fields started r identity prov ts \<longleftrightarrow>
     (\<not> started \<or> r \<noteq> None \<longrightarrow> identity = None \<and> prov = None) \<and> (exact_pending ts \<longrightarrow> identity \<noteq> None)
     \<and> (identity = None \<or> prov = None)"

definition count_fields :: "bool \<Rightarrow> bind_read option \<Rightarrow> task list \<Rightarrow> nat \<Rightarrow> bool" where
  "count_fields started r ts n \<longleftrightarrow> bind_count ts r + n \<le> (if started then 1 else 0)"

definition fits :: "cont \<Rightarrow> supervisor \<Rightarrow> bool" where
  "fits c s \<longleftrightarrow> count_fields (sv_bindStarted s) (sv_bindRead s) (sv_chain s) (cont_binds c)"

definition phase_ok :: "supervisor \<Rightarrow> bool" where
  "phase_ok s \<longleftrightarrow>
     phase_fields (sv_bindStarted s) (sv_bindRead s) (po_identity (sv_pos s)) (pv_binding (sv_prov s)) (sv_chain s)
     \<and> opt_all (\<lambda>w. needs_identity w \<longrightarrow> po_identity (sv_pos s) \<noteq> None) (sv_await s)
     \<and> (pv_candidate (sv_prov s) \<noteq> None \<longrightarrow> pv_binding (sv_prov s) \<noteq> None)
     \<and> fits (case sv_await s of None \<Rightarrow> ContTask | Some w \<Rightarrow> await_cont w) s"

definition settlement_fields :: "sup_state \<Rightarrow> (sup_outcome \<times> string) option \<Rightarrow> (sup_outcome \<times> string) option \<Rightarrow> bool" where
  "settlement_fields state settlement resolved \<longleftrightarrow>
     (settlement \<noteq> None \<longleftrightarrow> state = SsSettled) \<and> (resolved \<noteq> None \<longleftrightarrow> state = SsSettled)"

definition settlement_ok :: "supervisor \<Rightarrow> bool" where
  "settlement_ok s \<longleftrightarrow> settlement_fields (sv_state s) (sv_settlement s) (sv_resolved s)"

definition sup_inv :: "supervisor \<Rightarrow> bool" where
  "sup_inv s \<longleftrightarrow> view_inv s \<and> admitted_ok s \<and> phase_ok s \<and> settlement_ok s"

text \<open>A settlement is final: what the supervisor's job resolved with never changes.\<close>

definition settles_once :: "supervisor \<Rightarrow> supervisor \<Rightarrow> bool" where
  "settles_once s s' \<longleftrightarrow> (sv_resolved s \<noteq> None \<longrightarrow> sv_resolved s' = sv_resolved s)
     \<and> (sv_state s = SsSettled \<longrightarrow> sv_state s' = SsSettled) \<and> (sv_stopped s \<longrightarrow> sv_stopped s')"

definition good :: "supervisor \<Rightarrow> supervisor \<Rightarrow> bool" where
  "good s0 s \<longleftrightarrow> sup_inv s \<and> settles_once s0 s"

text \<open>The state between two awaits of a task that continues with \<open>c\<close>, and after them.\<close>

definition kept :: "supervisor \<Rightarrow> cont \<Rightarrow> supervisor \<Rightarrow> bool" where
  "kept s0 c s \<longleftrightarrow> good s0 s \<and> po_identity (sv_pos s) \<noteq> None \<and> (sv_await s = None \<longrightarrow> fits c s)"

definition held :: "supervisor \<Rightarrow> cont \<Rightarrow> supervisor \<Rightarrow> bool" where
  "held s0 c s \<longleftrightarrow> kept s0 c s \<and> sv_await s = None"

lemma state_refreshed_settled: "state_refreshed s s' \<Longrightarrow> sv_state s' = SsSettled \<longleftrightarrow> sv_state s = SsSettled"
  by (auto simp: state_refreshed_def)

lemma view_fields_status: "view_fields i p st b state prov \<Longrightarrow> (st \<noteq> None \<Longrightarrow> st' \<noteq> None) \<Longrightarrow> view_fields i p st' b state prov"
  by (auto simp: view_fields_def split: option.splits)

lemma view_fields_state:
  "view_fields i p st b state prov \<Longrightarrow> state' = state \<or> b \<or> (state' \<noteq> SsActive \<and> state' \<noteq> SsDegraded) \<Longrightarrow>
   view_fields i p st b state' prov"
  by (auto simp: view_fields_def)

lemma quiet_view_inv: "quiet s s' \<Longrightarrow> view_inv s \<Longrightarrow> view_inv s'"
proof -
  assume q: "quiet s s'" and v: "view_inv s"
  have "view_fields (po_identity (sv_pos s)) (sv_point s) (po_status (sv_pos s')) (sv_bound s) (sv_state s) (pv_binding (sv_prov s))"
    using v q unfolding view_inv_def by (elim view_fields_status) (simp add: quiet_def quiet_pos_def)
  then have "view_fields (po_identity (sv_pos s)) (sv_point s) (po_status (sv_pos s')) (sv_bound s) (sv_state s') (pv_binding (sv_prov s))"
    using q by (elim view_fields_state) (auto simp: quiet_def state_refreshed_def)
  then show ?thesis using q by (simp add: view_inv_def quiet_def quiet_pos_def quiet_prov_def)
qed

lemma quiet_admitted_ok: "quiet s s' \<Longrightarrow> admitted_ok s \<Longrightarrow> admitted_ok s'"
proof -
  assume q: "quiet s s'" and a: "admitted_ok s"
  then obtain ts where ts: "sv_chain s' = sv_chain s @ ts" "set ts \<subseteq> {TkCompletion, TkHandoff}" unfolding quiet_def by blast
  then have "list_all task_ok ts" by (auto simp: list_all_iff)
  with ts q a show ?thesis by (simp add: admitted_ok_def quiet_def quiet_pos_def quiet_prov_def)
qed

lemma quiet_chain:
  assumes "quiet s s'"
  shows "bind_count (sv_chain s') r = bind_count (sv_chain s) r" and "exact_pending (sv_chain s') = exact_pending (sv_chain s)"
proof -
  obtain ts where ts: "sv_chain s' = sv_chain s @ ts" "set ts \<subseteq> {TkCompletion, TkHandoff}"
    using assms unfolding quiet_def by blast
  have "filter is_bind_task ts = []" using ts(2) by (auto simp: filter_empty_conv)
  then show "bind_count (sv_chain s') r = bind_count (sv_chain s) r" by (simp add: bind_count_def ts(1))
  have "\<not> exact_pending ts" using ts(2) by (auto simp: exact_pending_def list_ex_iff)
  then show "exact_pending (sv_chain s') = exact_pending (sv_chain s)" by (simp add: exact_pending_def ts(1))
qed

lemma quiet_fits: "quiet s s' \<Longrightarrow> fits c s' = fits c s"
  by (simp add: fits_def count_fields_def quiet_chain) (simp add: quiet_def)

lemma quiet_phase_ok: "quiet s s' \<Longrightarrow> phase_ok s \<Longrightarrow> phase_ok s'"
  by (simp add: phase_ok_def phase_fields_def quiet_chain quiet_fits) (simp add: quiet_def quiet_pos_def quiet_prov_def)

lemma quiet_settlement_ok: "quiet s s' \<Longrightarrow> settlement_ok s \<Longrightarrow> settlement_ok s'"
proof -
  assume q: "quiet s s'" and a: "settlement_ok s"
  have "sv_state s' = SsSettled \<longleftrightarrow> sv_state s = SsSettled"
    using q by (intro state_refreshed_settled) (simp add: quiet_def)
  with q a show ?thesis by (simp add: quiet_def settlement_ok_def settlement_fields_def)
qed

lemma quiet_once: "quiet s s' \<Longrightarrow> settles_once s0 s \<Longrightarrow> settles_once s0 s'"
proof -
  assume q: "quiet s s'" and a: "settles_once s0 s"
  have "sv_state s' = SsSettled \<longleftrightarrow> sv_state s = SsSettled"
    using q by (intro state_refreshed_settled) (simp add: quiet_def)
  with q a show ?thesis by (simp add: quiet_def settles_once_def)
qed

lemma quiet_good:
  assumes "good s0 s" and q: "quiet s s'"
  shows "good s0 s'"
proof -
  have "view_inv s" "admitted_ok s" "phase_ok s" "settlement_ok s" "settles_once s0 s"
    using assms(1) by (simp_all add: good_def sup_inv_def)
  then show ?thesis
    unfolding good_def sup_inv_def
    using quiet_view_inv [OF q] quiet_admitted_ok [OF q] quiet_phase_ok [OF q] quiet_settlement_ok [OF q] quiet_once [OF q]
    by blast
qed

lemmas inv_defs = good_def sup_inv_def view_inv_def admitted_ok_def phase_ok_def settlement_ok_def settles_once_def

lemma quiet_held: "held s0 c s \<Longrightarrow> quiet s s' \<Longrightarrow> held s0 c s'"
proof -
  assume h: "held s0 c s" and q: "quiet s s'"
  have "po_identity (sv_pos s') = po_identity (sv_pos s)" "sv_await s' = sv_await s"
    using q by (simp_all add: quiet_def quiet_pos_def)
  with quiet_good [OF _ q] quiet_fits [OF q] h show ?thesis by (simp add: held_def kept_def)
qed

lemma held_kept: "held s0 c s \<Longrightarrow> kept s0 c s"
  by (simp add: held_def)

lemma held_quiet: "held s0 c s \<Longrightarrow> quiet s s' \<Longrightarrow> kept s0 c s'"
  by (rule held_kept [OF quiet_held])

section \<open>Settlement keeps it\<close>

lemma begin_await_held: "held s0 c s \<Longrightarrow> await_ok w \<Longrightarrow> await_cont w = c \<Longrightarrow> kept s0 c (begin_await w s)"
  by (simp add: held_def kept_def inv_defs begin_await_def fits_def)

lemma settled_fields: "view_fields i p st b state prov \<Longrightarrow> view_fields i p st b SsSettled prov"
  by (auto simp: view_fields_def)

lemma settle_finish_good: "good s0 s \<Longrightarrow> good s0 (settle_finish oc reason s)"
proof -
  assume g: "good s0 s"
  then have v: "view_fields (po_identity (sv_pos s)) (sv_point s) (po_status (sv_pos s)) (sv_bound s) SsSettled (pv_binding (sv_prov s))"
    by (auto simp: inv_defs intro: settled_fields)
  have r: "sv_resolved s0 \<noteq> None \<Longrightarrow> sv_resolved s = sv_resolved s0" using g by (simp add: inv_defs)
  show ?thesis using g v r
    by (cases "sv_resolved s"; cases "sv_resolved s0")
      (simp_all add: inv_defs settle_finish_def stop_timers_def publish_text_def put_out_def clearReviewTimer_def
        resolve_settled_def settlement_fields_def fits_def)
qed

lemma settle_finish_kept: "held s0 c s \<Longrightarrow> kept s0 c (settle_finish oc reason s)"
  by (simp add: held_def kept_def settle_finish_good)
    (simp add: settle_finish_def stop_timers_def publish_text_def put_out_def clearReviewTimer_def resolve_settled_def fits_def)

lemma record_exit_good: "held s0 c s \<Longrightarrow> kept s0 c (record_exit r h l oc reason c s)"
proof -
  assume h: "held s0 c s"
  have "held s0 c (recordOutcome r lc d s)" for lc d using h by (rule quiet_held) (intro quiet_intros)
  then show ?thesis unfolding record_exit_def by (intro begin_await_held) simp_all
qed

lemma persist_outcome_good: "held s0 c s \<Longrightarrow> kept s0 c (persistHandoffOutcome deps oc reason c s)"
  unfolding persistHandoffOutcome_def
  by (simp add: settle_finish_kept begin_await_held record_exit_good split: option.splits)

lemma flush_held: "held s0 c s \<Longrightarrow> held s0 c (flushPendingCycleEvent deps s)"
  by (erule quiet_held) (intro quiet_intros)

lemma settle_rest_good: "held s0 c s \<Longrightarrow> kept s0 c (settle_rest deps oc reason c s)"
  unfolding settle_rest_def by (intro persist_outcome_good flush_held)

lemma finish_signal_good:
  "held s0 (signal_cont e) s \<Longrightarrow> kept s0 (signal_cont e) (finish_signal deps e s)"
proof -
  assume h: "held s0 (signal_cont e) s"
  have "kept s0 (signal_cont e) (completion_task_end deps s)" using h by (rule held_quiet) (intro quiet_intros)
  then show ?thesis using h unfolding finish_signal_def
    by (cases e) (simp_all add: signal_cont_def begin_await_held settle_rest_good)
qed

lemma record_signal_good:
  "held s0 (signal_cont e) s \<Longrightarrow> kept s0 (signal_cont e) (recordCompletionSignal deps e s)"
  unfolding recordCompletionSignal_def by (simp add: finish_signal_good begin_await_held)

lemma on_signal_good:
  "held s0 (signal_cont e) s \<Longrightarrow> kept s0 (signal_cont e) (on_signal deps e a s)"
proof -
  assume h: "held s0 (signal_cont e) s"
  have "held s0 (signal_cont e) (quota_gap deps s)" "held s0 (signal_cont e) (provider_limited deps ck retry rec s)"
      "held s0 (signal_cont e) (put_out x (provider_limited deps ck retry rec s))" for ck retry rec x
    by (rule quiet_held [OF h], intro quiet_intros)+
  then show ?thesis using h unfolding on_signal_def Let_def
    by (simp add: finish_signal_good begin_await_held split: signal_answer.splits option.splits)
qed

lemma record_settling_good:
  "held s0 c s \<Longrightarrow> kept s0 c (recordCompletionSignal deps (SignalSettle oc reason c) s)"
  "held s0 c s \<Longrightarrow> kept s0 c (recordCompletionSignal deps (SignalSettleAgain oc reason c) s)"
  using record_signal_good [of s0 "SignalSettle oc reason c" s deps] record_signal_good [of s0 "SignalSettleAgain oc reason c" s deps]
  by (simp_all add: signal_cont_def)

lemma settle_good: "held s0 c s \<Longrightarrow> kept s0 c (settle deps oc reason c s)"
proof -
  assume h: "held s0 c s"
  have "held s0 c (emit deps EvIdentityLost x y None s)" for x y by (rule quiet_held [OF h]) (intro quiet_intros)
  then show ?thesis using h unfolding settle_def Let_def
    by (simp add: record_settling_good settle_rest_good held_kept)
qed

lemma settle_emitting_good: "held s0 c s \<Longrightarrow> kept s0 c (settle_emitting deps ty oc trigger summary c s)"
proof -
  assume h: "held s0 c s"
  have "held s0 c (emit deps ty summary d None s)" for d by (rule quiet_held [OF h]) (intro quiet_intros)
  then show ?thesis unfolding settle_emitting_def by (intro settle_good)
qed

lemma settle_event_good: "held s0 c s \<Longrightarrow> kept s0 c (settleWithEvent deps ty oc trigger summary c s)"
  unfolding settleWithEvent_def by (simp add: begin_await_held settle_emitting_good)

section \<open>Moves and snapshots keep it\<close>

lemma held_identity: "held s0 c s \<Longrightarrow> \<exists>i. po_identity (sv_pos s) = Some i \<and> identity_ok i"
  by (auto simp: held_def kept_def inv_defs view_fields_def)

lemma view_fields_identity:
  "view_fields (Some i) p st b state prov \<Longrightarrow> identity_ok j \<Longrightarrow> view_fields (Some j) p st b state prov"
  by (simp add: view_fields_def)

lemma rebase_held: "held s0 c s \<Longrightarrow> identity_ok j \<Longrightarrow> held s0 c (rebase j s)"
proof -
  assume h: "held s0 c s" and j: "identity_ok j"
  obtain i where "po_identity (sv_pos s) = Some i" using held_identity [OF h] by blast
  with h j show ?thesis
    by (simp add: held_def kept_def inv_defs rebase_def fits_def) (auto simp: phase_fields_def intro: view_fields_identity)
qed

lemma adoptMove_held: "held s0 c s \<Longrightarrow> identity_ok i \<Longrightarrow> held s0 c (adoptMove deps i occ p s)"
  unfolding adoptMove_def Let_def
  by (rule quiet_held [OF rebase_held], assumption+) (auto intro!: quiet_intros)

lemma moved_identity_ok: "identity_ok i \<Longrightarrow> usable pane \<Longrightarrow> identity_ok (i\<lparr>si_paneId := pane\<rparr>)"
  by (simp add: identity_ok_def usable_def)

lemma held_moveDest: "held s0 c s \<Longrightarrow> po_moveDest (sv_pos s) = Some p \<Longrightarrow> usable (pn_paneId p)"
  by (simp add: held_def kept_def inv_defs)

lemma marked_held:
  assumes "held s0 c s"
  shows "held s0 c (markReconciliationSuccess deps s)" and "kept s0 c (markReconciliationFailure deps r s)"
    and "held s0 c (observeOwner sn s)" and "kept s0 c (applySnapshotRevision deps occ (markReconciliationSuccess deps s))"
  by (rule quiet_held [OF assms] held_quiet [OF assms], intro quiet_intros)+

lemma fold_occupant_good: "held s0 c s \<Longrightarrow> kept s0 c (fold_occupant deps occ s)"
proof -
  assume h: "held s0 c s"
  obtain i where i: "po_identity (sv_pos s) = Some i" "identity_ok i" using held_identity [OF h] by blast
  show ?thesis
  proof (cases "po_moveDest (sv_pos s)")
    case None
    then show ?thesis unfolding fold_occupant_def by (simp add: marked_held [OF h])
  next
    case (Some p)
    have "held s0 c (adoptMove deps (i\<lparr>si_paneId := pn_paneId p\<rparr>) x p (markReconciliationSuccess deps s))" for x
      using marked_held(1) [OF h] moved_identity_ok [OF i(2) held_moveDest [OF h Some]] by (rule adoptMove_held)
    then show ?thesis using Some i marked_held [OF h] unfolding fold_occupant_def
      by (simp add: held_kept split: sum.splits)
  qed
qed

lemma apply_snapshot_good: "held s0 c s \<Longrightarrow> kept s0 c (applyAuthoritativeSnapshot deps sn trigger missing c s)"
proof -
  assume h: "held s0 c s"
  note o = marked_held(3) [OF h]
  show ?thesis
    unfolding applyAuthoritativeSnapshot_def Let_def
    by (simp add: marked_held [OF o] o settle_good settle_event_good fold_occupant_good
        split: target_evidence.splits verdict.splits)
qed

lemma note_move_held: "held s0 c s \<Longrightarrow> usable (pn_paneId p) \<Longrightarrow> held s0 c (note_move p s)"
proof -
  assume h: "held s0 c s" and p: "usable (pn_paneId p)"
  have n: "sv_await s = None" using h by (simp add: held_def)
  show ?thesis using h p n
    by (cases "po_moveDest (sv_pos s)")
      (simp_all add: held_def kept_def inv_defs fits_def note_move_def Let_def observeStateChangeSeq_def set_endpoint_def)
qed

lemma followMove_good: "held s0 c s \<Longrightarrow> usable (pn_paneId p) \<Longrightarrow> kept s0 c (followMove e p c s)"
  unfolding followMove_def reconcile_def by (simp add: begin_await_held note_move_held)

lemma move_answered_good: "held s0 c s \<Longrightarrow> usable (pn_paneId p) \<Longrightarrow> kept s0 c (move_answered deps p c sn s)"
proof -
  assume h: "held s0 c s" and p: "usable (pn_paneId p)"
  obtain i where i: "po_identity (sv_pos s) = Some i" "identity_ok i" using held_identity [OF h] by blast
  have adopted: "kept s0 c (adoptMove deps i' x p (markReconciliationSuccess deps s))" if "movedIdentity i p x = Some i'" for i' x
  proof -
    have "i' = i\<lparr>si_paneId := pn_paneId p\<rparr>" using that by (simp add: movedIdentity_Some)
    then have "identity_ok i'" using moved_identity_ok [OF i(2) p] by simp
    then show ?thesis by (intro held_kept adoptMove_held marked_held(1) h)
  qed
  show ?thesis
    unfolding move_answered_def Let_def
    by (simp add: marked_held [OF h] h i adopted settle_good split: target_evidence.splits sum.splits option.splits)
qed

end
