(* ===== verification/Supervisor_Reachable.thy ===== *)
theory Supervisor_Reachable
  imports Supervisor_Invariant
begin

text \<open>
  Every history of a supervisor: the folding of admitted evidence, the bindings and each input keep the
  invariant of \<open>Supervisor_Invariant\<close>, so it holds in every reachable state.
\<close>

section \<open>Folding keeps it\<close>

text \<open>Like \<open>kept\<close> and \<open>held\<close>, for a supervisor that may have no exact identity yet.\<close>

definition ready :: "supervisor \<Rightarrow> cont \<Rightarrow> supervisor \<Rightarrow> bool" where
  "ready s0 c s \<longleftrightarrow> good s0 s \<and> fits c s \<and> sv_await s = None"

definition ends :: "supervisor \<Rightarrow> cont \<Rightarrow> supervisor \<Rightarrow> bool" where
  "ends s0 c s \<longleftrightarrow> good s0 s \<and> (sv_await s = None \<longrightarrow> fits c s)"

lemma held_ready: "held s0 c s \<longleftrightarrow> ready s0 c s \<and> po_identity (sv_pos s) \<noteq> None"
  by (auto simp: held_def kept_def ready_def)

lemma kept_ends: "kept s0 c s \<Longrightarrow> ends s0 c s"
  by (simp add: kept_def ends_def)

lemma ready_ends: "ready s0 c s \<Longrightarrow> ends s0 c s"
  by (simp add: ready_def ends_def)

lemma quiet_ready: "ready s0 c s \<Longrightarrow> quiet s s' \<Longrightarrow> ready s0 c s'"
proof -
  assume h: "ready s0 c s" and q: "quiet s s'"
  have "sv_await s' = sv_await s" using q by (simp add: quiet_def)
  with quiet_good [OF _ q] quiet_fits [OF q] h show ?thesis by (simp add: ready_def)
qed

lemma candidate_advanced:
  "ready s0 c s \<Longrightarrow> candidate_ok g \<Longrightarrow> pv_binding (sv_prov s) \<noteq> None \<Longrightarrow>
   ready s0 c (s\<lparr>sv_prov := (sv_prov s)\<lparr>pv_candidate := Some g\<rparr>\<rparr>)"
proof -
  assume r: "ready s0 c s" and g: "candidate_ok g" and b: "pv_binding (sv_prov s) \<noteq> None"
  have n: "sv_await s = None" using r by (simp add: ready_def)
  show ?thesis using r g b n by (simp add: ready_def inv_defs fits_def)
qed

lemma fold_candidate_ready:
  assumes r: "ready s0 c s" and g: "candidate_ok g" and b: "pv_binding (sv_prov s) \<noteq> None"
  shows "ready s0 c (fold_candidate deps b' g lc s)"
proof -
  have f: "ready s0 c (markProvisionalFailure deps cause s)" for cause
    using r by (rule quiet_ready) (intro quiet_intros)
  have "candidate_ok (g\<lparr>sg_lifecycle := l\<rparr>)" for l using g by (simp add: candidate_ok_def)
  then have "ready s0 c (s\<lparr>sv_prov := (sv_prov s)\<lparr>pv_candidate := Some (g\<lparr>sg_lifecycle := l\<rparr>)\<rparr>\<rparr>)" for l
    by (intro candidate_advanced r b)
  with f show ?thesis unfolding fold_candidate_def Let_def by (simp split: prod.splits option.splits)
qed

lemma foldProvisional_ready:
  assumes r: "ready s0 c s"
  shows "ready s0 c (foldProvisional deps e s)"
proof (cases "pv_binding (sv_prov s)")
  case (Some b)
  have f: "ready s0 c (markProvisionalFailure deps cause s)"
      "ready s0 c (markProvisionalFailure deps cause (retain_native i x s))"
      "ready s0 c (fold_retained deps b lc (retain_native i x s))" for cause i x lc
    by (rule quiet_ready [OF r], intro quiet_intros)+
  have "candidate_ok g" if "pv_candidate (sv_prov s) = Some g" for g
    using r that by (simp add: ready_def inv_defs)
  then have "ready s0 c (fold_candidate deps b g lc s)" if "pv_candidate (sv_prov s) = Some g" for g lc
    using that Some by (intro fold_candidate_ready r) simp_all
  then show ?thesis using f r Some unfolding foldProvisional_def Let_def by (simp split: option.splits sum.splits)
qed (simp add: foldProvisional_def r)

text \<open>Folding provisional evidence neither suspends the task nor changes what is bound.\<close>

definition folds :: "supervisor \<Rightarrow> supervisor \<Rightarrow> bool" where
  "folds s s' \<longleftrightarrow> sv_await s' = sv_await s \<and> pv_binding (sv_prov s') = pv_binding (sv_prov s)
     \<and> sv_bound s' = sv_bound s \<and> sv_stopped s' = sv_stopped s \<and> sv_queued s' = sv_queued s \<and> sv_state s' = sv_state s"

lemma quiet_folds: "quiet s s' \<Longrightarrow> \<not> sv_bound s \<Longrightarrow> folds s s'"
  by (simp add: quiet_def quiet_prov_def folds_def state_refreshed_def)

lemma foldProvisional_folds:
  assumes "\<not> sv_bound s"
  shows "folds s (foldProvisional deps e s)"
proof -
  have f: "folds s s" "folds s (markProvisionalFailure deps cause s)"
      "folds s (markProvisionalFailure deps cause (retain_native i x s))"
      "folds s (fold_retained deps b lc (retain_native i x s))" for cause i x b lc
    by (rule quiet_folds [OF _ assms], intro quiet_intros)+
  moreover have "folds s (fold_candidate deps b g lc s)" for b g lc
    using f unfolding fold_candidate_def Let_def by (simp add: folds_def split: prod.splits option.splits)
  ultimately show ?thesis unfolding foldProvisional_def Let_def by (simp split: option.splits sum.splits)
qed

lemma reconcile_held: "held s0 c s \<Longrightarrow> kept s0 c (reconcile trigger c s)"
  unfolding reconcile_def by (intro begin_await_held) simp_all

lemma bound_identity: "good s0 s \<Longrightarrow> sv_bound s \<Longrightarrow> po_identity (sv_pos s) \<noteq> None"
  by (cases "po_identity (sv_pos s)") (simp_all add: inv_defs view_fields_def)

lemma identity_not_provisional: "good s0 s \<Longrightarrow> po_identity (sv_pos s) \<noteq> None \<Longrightarrow> pv_binding (sv_prov s) = None"
  by (simp add: inv_defs phase_fields_def)

lemma supervising_identity: "good s0 s \<Longrightarrow> supervising s \<Longrightarrow> pv_binding (sv_prov s) = None \<or> sv_bound s \<Longrightarrow> po_identity (sv_pos s) \<noteq> None"
  using bound_identity by (auto simp: supervising_def)

lemma event_ok_pane: "event_ok e \<Longrightarrow> isPaneRecordEvent (so_kind e) \<Longrightarrow> usable (pn_paneId (the (so_pane e)))"
  by (auto simp: event_ok_def pane_ok_def split: option.splits)

text \<open>An identity, once there, stays while evidence is folded.\<close>

definition identified :: "supervisor \<Rightarrow> supervisor \<Rightarrow> bool" where
  "identified s s' \<longleftrightarrow> (po_identity (sv_pos s) \<noteq> None \<longrightarrow> po_identity (sv_pos s') \<noteq> None)"

lemma fold_event_ends:
  assumes r: "ready s0 (ContDrain d) s" and sup: "supervising s" and e: "event_ok e"
  shows "ends s0 (ContDrain d) (fold_event deps d e s) \<and> identified s (fold_event deps d e s)"
proof (cases "pv_binding (sv_prov s) \<noteq> None \<and> \<not> sv_bound s")
  case True
  then have "po_identity (sv_pos s) = None"
    using r identity_not_provisional [of s0 s] by (cases "po_identity (sv_pos s)") (simp_all add: ready_def)
  with True r foldProvisional_ready [OF r] show ?thesis by (simp add: fold_event_def ready_ends identified_def)
next
  case False
  then have i: "po_identity (sv_pos s) \<noteq> None"
    using r sup by (intro supervising_identity [of s0]) (auto simp: ready_def)
  then have h: "held s0 (ContDrain d) s" using r by (simp add: held_ready)
  have "held s0 (ContDrain d) (applyEventRevision deps p s)" for p using h by (rule quiet_held) (intro quiet_intros)
  moreover have "kept s0 (ContDrain d) (followMove e (the (so_pane e)) (ContDrain d) s)" if "isPaneRecordEvent (so_kind e)"
    using event_ok_pane [OF e that] by (intro followMove_good h)
  ultimately have "kept s0 (ContDrain d) (fold_event deps d e s)"
    using h False unfolding fold_event_def Let_def by (auto simp: held_kept reconcile_held split: verdict.splits)
  then show ?thesis by (simp add: kept_ends) (simp add: kept_def identified_def)
qed

lemma queue_ready: "ready s0 c s \<Longrightarrow> list_all event_ok es \<Longrightarrow> ready s0 c (s\<lparr>sv_queued := es\<rparr>)"
proof -
  assume r: "ready s0 c s" and es: "list_all event_ok es"
  have n: "sv_await s = None" using r by (simp add: ready_def)
  show ?thesis using r es n by (simp add: ready_def inv_defs fits_def)
qed

lemma drain_queue_ends:
  "ready s0 (ContDrain d) s \<Longrightarrow> list_all event_ok es \<Longrightarrow>
   ends s0 (ContDrain d) (drain_queue deps d es s) \<and> identified s (drain_queue deps d es s)"
proof (induction es arbitrary: s)
  case Nil
  then show ?case using ready_ends [OF queue_ready [OF Nil.prems]] by (simp add: identified_def)
next
  case (Cons e es)
  let ?t = "s\<lparr>sv_queued := es\<rparr>"
  let ?s = "fold_event deps d e ?t"
  show ?case
  proof (cases "sv_stopped s \<or> \<not> supervising s")
    case True
    then show ?thesis using ready_ends [OF queue_ready [OF Cons.prems]] by (auto simp: identified_def)
  next
    case False
    have q: "ready s0 (ContDrain d) ?t" using Cons.prems by (intro queue_ready) simp_all
    have "supervising ?t" using False by (simp add: supervising_def)
    then have e: "ends s0 (ContDrain d) ?s \<and> identified ?t ?s" using q Cons.prems by (intro fold_event_ends) simp_all
    then have "ready s0 (ContDrain d) ?s" if "sv_await ?s = None" using that by (simp add: ends_def ready_def)
    then have "ends s0 (ContDrain d) (drain_queue deps d es ?s) \<and> identified ?s (drain_queue deps d es ?s)" if "sv_await ?s = None"
      using that Cons.prems by (intro Cons.IH) simp_all
    with e False show ?thesis by (auto simp: Let_def identified_def)
  qed
qed

section \<open>Bindings keep it\<close>

text \<open>A refused binding clears what was prepared; no other binding is pending.\<close>

definition unbound :: "supervisor \<Rightarrow> supervisor \<Rightarrow> bool" where
  "unbound s0 s \<longleftrightarrow> good s0 s \<and> bind_count (sv_chain s) (sv_bindRead s) = 0
     \<and> opt_all (\<lambda>w. \<not> needs_identity w) (sv_await s)"

lemma no_exact_pending: "bind_count ts r = 0 \<Longrightarrow> \<not> exact_pending ts"
proof -
  assume c: "bind_count ts r = 0"
  have "\<not> (case t of TkBind b pub \<Rightarrow> True | _ \<Rightarrow> False)" if "t \<in> set ts" for t
  proof -
    have "\<not> is_bind_task t" using c that by (auto simp: bind_count_def filter_empty_conv split: if_splits)
    then show ?thesis by (cases t) simp_all
  qed
  then show ?thesis by (auto simp: exact_pending_def list_ex_iff)
qed

lemma reset_fields:
  "view_fields None p st False SsSettled None" "view_fields None p st False SsReserved None"
  by (simp_all add: view_fields_def)

lemma reset_good: "unbound s0 s \<Longrightarrow> good s0 (resetPreparedBinding s)"
proof -
  assume u: "unbound s0 s"
  have x: "\<not> exact_pending (sv_chain s)" using u no_exact_pending unfolding unbound_def by blast
  have w: "opt_all (\<lambda>w. \<not> needs_identity w) (sv_await s)" using u by (simp add: unbound_def)
  have g: "good s0 s" using u by (simp add: unbound_def)
  show ?thesis
    using g x w reset_fields
    by (simp add: inv_defs resetPreparedBinding_def Let_def clearReviewTimer_def isSettled_def phase_fields_def fits_def)
      (simp add: settlement_fields_def)
qed

lemma quiet_bind_failed [quiet_intros]: "quiet s t \<Longrightarrow> quiet s (bind_failed cause t)"
  unfolding bind_failed_def by (intro quiet_intros)

lemma bind_refused_good: "unbound s0 s \<Longrightarrow> good s0 (bind_refused cause s)"
  unfolding bind_refused_def by (rule quiet_good [OF reset_good]) (auto intro: quiet_intros)

lemma quiet_unbound: "unbound s0 s \<Longrightarrow> quiet s s' \<Longrightarrow> unbound s0 s'"
proof -
  assume u: "unbound s0 s" and q: "quiet s s'"
  have "good s0 s'" using u q quiet_good unfolding unbound_def by blast
  moreover have "sv_bindRead s' = sv_bindRead s" "sv_await s' = sv_await s" using q by (simp_all add: quiet_def)
  ultimately show ?thesis using u quiet_chain(1) [OF q] by (simp add: unbound_def)
qed

lemma ready_unbound:
  "ready s0 (ContDrain (DrainBind b pub)) s \<Longrightarrow> unbound s0 s"
  "ready s0 (ContDrain (DrainProvisional p pub)) s \<Longrightarrow> unbound s0 s"
  by (simp_all add: ready_def unbound_def fits_def count_fields_def split: if_splits)

lemma pending_good: "good s0 s \<Longrightarrow> good s0 (s\<lparr>sv_bindPending := v\<rparr>)"
  by (simp add: inv_defs fits_def)

lemma bound_fields: "view_fields (Some i) p st b state prov \<Longrightarrow> view_fields (Some i) p st True SsActive prov"
  by (auto simp: view_fields_def)

lemma bound_unbound:
  "unbound s0 s \<Longrightarrow> po_identity (sv_pos s) \<noteq> None \<Longrightarrow> \<not> isSettled s \<Longrightarrow>
   unbound s0 (s\<lparr>sv_bound := True, sv_state := SsActive, sv_health := h\<rparr>)"
proof -
  assume u: "unbound s0 s" and i: "po_identity (sv_pos s) \<noteq> None" and n: "\<not> isSettled s"
  obtain j where j: "po_identity (sv_pos s) = Some j" using i by blast
  have g: "good s0 s" using u by (simp add: unbound_def)
  then have v: "view_fields (po_identity (sv_pos s)) (sv_point s) (po_status (sv_pos s)) True SsActive (pv_binding (sv_prov s))"
    using j by (auto simp: inv_defs intro: bound_fields)
  have "settlement_fields SsActive (sv_settlement s) (sv_resolved s)" "sv_state s0 \<noteq> SsSettled"
    using g n by (auto simp: inv_defs isSettled_def settlement_fields_def)
  with u g v show ?thesis by (simp add: unbound_def inv_defs fits_def)
qed

lemma commitBinding_good:
  assumes r: "unbound s0 s" and i: "po_identity (sv_pos s) \<noteq> None"
  shows "good s0 (commitBinding deps pub s)"
proof -
  have "quiet s (bind_failed x (put_out FxRollback s))" for x by (intro quiet_intros)
  then have f: "good s0 (bind_failed x (put_out FxRollback s))" for x using r quiet_good unfolding unbound_def by blast
  have "quiet s (put_out y s)" for y by (intro quiet_intros)
  then have u: "unbound s0 (put_out y s)" for y using r quiet_unbound by blast
  let ?a = "put_out FxCommit s"
  let ?b = "refreshActiveState (?a\<lparr>sv_bound := True, sv_state := SsActive, sv_health := (sv_health ?a)\<lparr>he_stream := sv_monitorDegraded ?a\<rparr>\<rparr>)"
  have b: "unbound s0 ?b" if "\<not> isSettled s"
  proof (rule quiet_unbound [OF bound_unbound [where h = "(sv_health ?a)\<lparr>he_stream := sv_monitorDegraded ?a\<rparr>"]])
    show "unbound s0 ?a" by (rule u)
    show "po_identity (sv_pos ?a) \<noteq> None" using i by (simp add: put_out_def)
    show "\<not> isSettled ?a" using that by (simp add: put_out_def isSettled_def)
  qed (intro quiet_refresh quiet_refl)
  have c: "unbound s0 (put_out FxRollback ?b)" if "\<not> isSettled s" using b [OF that] by (rule quiet_unbound) (intro quiet_intros)
  have q: "quiet t (put_out FxBound (publish_text x (enterStatus deps y (put_out FxPublished t))))" for x y t
    by (intro quiet_intros)
  have d: "good s0 (put_out FxBound (publish_text x (enterStatus deps y (put_out FxPublished ?b))))" if "\<not> isSettled s" for x y
    using b [OF that] by (intro quiet_good [OF _ q]) (simp add: unbound_def)
  show ?thesis unfolding commitBinding_def Let_def
    by (simp add: f u c d bind_refused_good)
qed

lemma published_unbound:
  "unbound s0 s \<Longrightarrow> \<not> isSettled s \<Longrightarrow>
   unbound s0 (s\<lparr>sv_prov := (sv_prov s)\<lparr>pv_published := True\<rparr>, sv_state := SsProvisional\<rparr>)"
proof -
  assume u: "unbound s0 s" and n: "\<not> isSettled s"
  have g: "good s0 s" using u by (simp add: unbound_def)
  have "view_fields (po_identity (sv_pos s)) (sv_point s) (po_status (sv_pos s)) (sv_bound s) SsProvisional (pv_binding (sv_prov s))"
    using g by (rule_tac view_fields_state [where state = "sv_state s"]) (simp_all add: inv_defs)
  moreover have "settlement_fields SsProvisional (sv_settlement s) (sv_resolved s)" "sv_state s0 \<noteq> SsSettled"
    using g n by (auto simp: inv_defs isSettled_def settlement_fields_def)
  ultimately show ?thesis using u g by (simp add: unbound_def inv_defs fits_def)
qed

lemma commitProvisional_good:
  assumes r: "unbound s0 s"
  shows "good s0 (commitProvisional deps pub s)"
proof -
  have "quiet s (bind_failed x (put_out FxRollback s))" for x by (intro quiet_intros)
  then have f: "good s0 (bind_failed x (put_out FxRollback s))" for x using r quiet_good unfolding unbound_def by blast
  have "quiet s (put_out y s)" for y by (intro quiet_intros)
  then have u: "unbound s0 (put_out y s)" for y using r quiet_unbound by blast
  let ?b = "(put_out FxCommit s)\<lparr>sv_prov := (sv_prov s)\<lparr>pv_published := True\<rparr>, sv_state := SsProvisional\<rparr>"
  have b: "unbound s0 ?b" if "\<not> isSettled s"
    using published_unbound [OF u [of FxCommit]] that by (simp add: put_out_def isSettled_def)
  have c: "unbound s0 (put_out FxRollback ?b)" if "\<not> isSettled s" using b [OF that] by (rule quiet_unbound) (intro quiet_put_out quiet_refl)
  have q: "quiet t (put_out FxBound (publish_text x (put_out FxPublished t)))" for x t
    by (intro quiet_intros)
  have d: "good s0 (put_out FxBound (publish_text x (put_out FxPublished ?b)))" if "\<not> isSettled s" for x
    using b [OF that] by (intro quiet_good [OF _ q]) (simp add: unbound_def)
  show ?thesis unfolding commitProvisional_def Let_def
    by (simp add: f u c d bind_refused_good split: option.splits)
qed

lemma quiet_replay [quiet_intros]: "quiet s t \<Longrightarrow> quiet s (replay_candidate deps xs n t)"
proof (induction xs arbitrary: n t)
  case (Cons x xs)
  then show ?case by (auto simp: Let_def split: option.splits intro!: Cons.IH quiet_intros)
qed simp

lemma quiet_strengthening_failed [quiet_intros]: "quiet s t \<Longrightarrow> quiet s (strengthening_failed deps cause t)"
  unfolding strengthening_failed_def by (intro quiet_intros)

lemma clear_candidate_good: "good s0 s \<Longrightarrow> good s0 (clear_candidate s)"
  by (simp add: clear_candidate_def inv_defs fits_def)

lemma install_fields: "candidate_ok g \<Longrightarrow> view_fields (Some (sg_identity g)) (Some (sg_operatingPointId g)) (Some st) True SsActive None"
  by (simp add: candidate_ok_def view_fields_def)

lemma installed_good:
  assumes g: "good s0 s" and c: "pv_candidate (sv_prov s) = Some x" and n: "\<not> isSettled s" and m: "sv_await s = None"
  shows "good s0 (clear_candidate (install_candidate x s))"
proof -
  have x: "candidate_ok x" using g c by (simp add: inv_defs)
  then have v: "view_fields (Some (sg_identity x)) (Some (sg_operatingPointId x)) (Some st) True SsActive None"
    "view_fields (Some (sg_identity x)) (Some (sg_operatingPointId x)) (Some st) True SsDegraded None" for st
    using install_fields view_fields_state by blast+
  have p: "phase_fields (sv_bindStarted s) (sv_bindRead s) (Some (sg_identity x)) None (sv_chain s)"
    using g c by (auto simp: inv_defs phase_fields_def)
  have "settlement_fields SsActive (sv_settlement s) (sv_resolved s)" "settlement_fields SsDegraded (sv_settlement s) (sv_resolved s)"
      "sv_state s0 \<noteq> SsSettled"
    using g n by (auto simp: inv_defs isSettled_def settlement_fields_def)
  with g v p m show ?thesis
    by (simp add: inv_defs clear_candidate_def install_candidate_def Let_def refreshActiveState_def isSettled_def fits_def)
qed

lemma published_candidate:
  "clear_candidate (put_out x s) = put_out x (clear_candidate s)"
  by (simp add: clear_candidate_def put_out_def)

lemma installed_text: "install_candidate g (put_out x s) = put_out x (install_candidate g s)"
  by (simp add: install_candidate_def put_out_def Let_def refreshActiveState_def isSettled_def)

lemma strengthen_finish_good:
  assumes g: "good s0 s" and m: "sv_await s = None"
  shows "good s0 (strengthen_finish deps pub s)"
proof -
  have f: "good s0 (strengthening_failed deps cause t)" if "good s0 t" for cause t
    using that by (rule quiet_good) (intro quiet_intros)
  have c: "good s0 (clear_candidate (put_out FxRollback (s\<lparr>sv_out := out, sv_health := h\<rparr>)))" for out h
    by (rule clear_candidate_good, rule quiet_good [OF g]) (intro quiet_intros)
  have r: "good s0 (clear_candidate (put_out FxRollback s))"
    by (rule clear_candidate_good, rule quiet_good [OF g]) (intro quiet_intros)
  have i: "good s0 (put_out FxBound (publish_text y (replay_candidate deps xs k (enterStatus deps st
      (clear_candidate (put_out FxPublished (install_candidate x (put_out FxCommit s))))))))"
    if "pv_candidate (sv_prov s) = Some x" "\<not> isSettled s" for x y xs k st
    using installed_good [OF g that m] unfolding published_candidate installed_text
    by (rule quiet_good) (intro quiet_intros)
  show ?thesis
    unfolding strengthen_finish_def Let_def
    by (simp add: f g c r i clear_candidate_good split: option.splits)
qed

text \<open>What a suspended or finishing drain needs: a binding being committed has its identity.\<close>

fun drain_identity :: "drain_end \<Rightarrow> supervisor \<Rightarrow> bool" where
  "drain_identity (DrainBind b pub) s = (po_identity (sv_pos s) \<noteq> None)"
| "drain_identity d s = True"

lemma drain_done_good:
  "ready s0 (ContDrain d) s \<Longrightarrow> drain_identity d s \<Longrightarrow> good s0 (drain_done deps d s)"
  by (cases d) (simp_all add: drain_done_def ready_unbound commitBinding_good commitProvisional_good pending_good,
    simp_all add: ready_def strengthen_finish_good pending_good)

lemma drainAdmitted_good:
  assumes r: "ready s0 (ContDrain d) s" and d: "drain_identity d s"
  shows "good s0 (drainAdmitted deps d s)"
proof -
  let ?s = "drain_queue deps d (sv_queued s) s"
  have "list_all event_ok (sv_queued s)" using r by (simp add: ready_def inv_defs)
  then have e: "ends s0 (ContDrain d) ?s \<and> identified s ?s" using r by (rule drain_queue_ends [rotated])
  have "drain_identity d ?s" using d e by (cases d) (simp_all add: identified_def)
  then have "good s0 (drain_done deps d ?s)" if "sv_await ?s = None"
    using that e by (intro drain_done_good) (simp_all add: ends_def ready_def)
  with e show ?thesis unfolding drainAdmitted_def Let_def by (simp add: ends_def)
qed

text \<open>A strengthening folds its events in one go: provisional evidence never suspends the task.\<close>

lemma folds_provisional: "folds s s' \<Longrightarrow> provisional_only s \<Longrightarrow> sv_await s' = sv_await s \<and> provisional_only s'"
  by (simp add: folds_def provisional_only_def)

lemma drain_queue_provisional:
  "provisional_only s \<Longrightarrow> sv_await (drain_queue deps d es s) = sv_await s \<and> provisional_only (drain_queue deps d es s)"
proof (induction es arbitrary: s)
  case Nil
  then show ?case by (simp add: provisional_only_def)
next
  case (Cons e es)
  let ?t = "s\<lparr>sv_queued := es\<rparr>"
  let ?s = "fold_event deps d e ?t"
  have p: "provisional_only ?t" using Cons.prems by (simp add: provisional_only_def)
  then have "folds ?t (foldProvisional deps e ?t)" by (intro foldProvisional_folds) (simp add: provisional_only_def)
  then have "sv_await ?s = sv_await ?t \<and> provisional_only ?s"
    using p folds_provisional [of ?t "foldProvisional deps e ?t"] by (simp add: fold_event_def provisional_only_def)
  then show ?case using Cons.IH [of ?s] Cons.prems by (simp add: Let_def) (simp add: provisional_only_def)
qed

lemma drain_until_empty_keeps:
  assumes "drain_until_empty deps d s = Some s'" and "P s"
    and keeps: "\<And>t. P t \<Longrightarrow> P (drain_queue deps d (sv_queued t) t)"
  shows "P s'"
proof -
  have "e = deps \<and> f = d \<longrightarrow> P t \<longrightarrow> P t'" if "drain_until_empty e f t = Some t'" for e f t t'
  proof (rule drain_until_empty.raw_induct [OF _ that, where P = "\<lambda>e f t t'. e = deps \<and> f = d \<longrightarrow> P t \<longrightarrow> P t'"])
    fix rec e f t t'
    assume IH: "\<And>e f t t'. rec e f t = Some t' \<Longrightarrow> e = deps \<and> f = d \<longrightarrow> P t \<longrightarrow> P t'"
      and eq: "(let s' = drain_queue e f (sv_queued t) t in if sv_queued s' \<noteq> [] then rec e f s' else Some s') = Some t'"
    show "e = deps \<and> f = d \<longrightarrow> P t \<longrightarrow> P t'"
      using IH [of e f "drain_queue e f (sv_queued t) t" t'] eq keeps [of t] by (auto simp: Let_def split: if_splits)
  qed
  then show ?thesis using assms(1,2) by blast
qed

lemma drain_until_empty_ready:
  assumes "drain_until_empty deps d s = Some s'" and "ready s0 (ContDrain d) s" and "provisional_only s"
  shows "ready s0 (ContDrain d) s'"
proof -
  have "ready s0 (ContDrain d) s' \<and> provisional_only s'"
  proof (rule drain_until_empty_keeps [OF assms(1)])
    fix t
    let ?t = "drain_queue deps d (sv_queued t) t"
    assume r: "ready s0 (ContDrain d) t \<and> provisional_only t"
    then have "list_all event_ok (sv_queued t)" by (simp add: ready_def inv_defs)
    then have e: "ends s0 (ContDrain d) ?t" using r drain_queue_ends by blast
    have "sv_await ?t = sv_await t \<and> provisional_only ?t" using r by (intro drain_queue_provisional) simp
    then show "ready s0 (ContDrain d) ?t \<and> provisional_only ?t" using e r by (simp add: ends_def ready_def)
  qed (use assms in simp)
  then show ?thesis by simp
qed

section \<open>Tasks keep it\<close>

lemma good_ready: "good s0 s \<Longrightarrow> sv_await s = None \<Longrightarrow> ready s0 ContTask s"
  by (simp add: ready_def inv_defs)

lemma ready_drain: "ready s0 ContTask s \<Longrightarrow> ready s0 (ContDrain DrainTask) s"
  by (simp add: ready_def fits_def)

lemma ready_strengthen: "ready s0 ContTask s \<Longrightarrow> ready s0 (ContDrain (DrainStrengthen b pub)) s"
  by (simp add: ready_def fits_def)

lemma fits_task: "fits c s \<Longrightarrow> fits ContTask s"
  by (auto simp: fits_def count_fields_def split: if_splits)

lemma proceed_good: "kept s0 c s \<Longrightarrow> good s0 (proceed deps c s)"
proof (cases "sv_await s = None")
  case True
  assume k: "kept s0 c s"
  with True have h: "ready s0 c s" "po_identity (sv_pos s) \<noteq> None" by (simp_all add: kept_def ready_def)
  show ?thesis
  proof (cases c)
    case (ContDrain d)
    then have "drain_identity d s" using h by (cases d) simp_all
    then show ?thesis using ContDrain h True by (simp add: proceed_def drainAdmitted_good)
  qed (use k True in \<open>simp add: proceed_def kept_def\<close>)
qed (simp add: proceed_def kept_def)

text \<open>The state in which a task starts, and in which a suspended one continues.\<close>

fun task_cont :: "task \<Rightarrow> cont" where
  "task_cont (TkBind b pub) = ContDrain (DrainBind b pub)"
| "task_cont (TkProvisional b pub) = ContDrain (DrainProvisional b pub)"
| "task_cont t = ContTask"

lemma task_ready:
  assumes g: "good s0 s" and n: "sv_await s = None" and c: "sv_chain s = t # ts"
  shows "ready s0 (task_cont t) (s\<lparr>sv_chain := ts\<rparr>) \<and> task_ok t"
    and "\<exists>b pub. t = TkBind b pub \<Longrightarrow> po_identity (sv_pos s) \<noteq> None"
proof -
  have f: "count_fields (sv_bindStarted s) (sv_bindRead s) ts (cont_binds (task_cont t))"
    using g n c by (cases t) (auto simp: inv_defs fits_def count_fields_def bind_count_def split: if_splits)
  then have f0: "count_fields (sv_bindStarted s) (sv_bindRead s) ts 0"
    by (auto simp: count_fields_def split: if_splits)
  have p: "phase_fields (sv_bindStarted s) (sv_bindRead s) (po_identity (sv_pos s)) (pv_binding (sv_prov s)) ts"
    using g c by (simp add: inv_defs phase_fields_def exact_pending_def)
  show "ready s0 (task_cont t) (s\<lparr>sv_chain := ts\<rparr>) \<and> task_ok t"
    using g n c f f0 p by (simp add: ready_def inv_defs fits_def)
  show "po_identity (sv_pos s) \<noteq> None" if "\<exists>b pub. t = TkBind b pub"
    using g c that by (auto simp: inv_defs phase_fields_def exact_pending_def)
qed

lemma resume_ready:
  assumes g: "good s0 s" and w: "sv_await s = Some w"
  shows "ready s0 (await_cont w) (s\<lparr>sv_await := None\<rparr>) \<and> await_ok w"
    and "needs_identity w \<Longrightarrow> po_identity (sv_pos s) \<noteq> None"
proof -
  have "fits (await_cont w) s" using g w by (simp add: inv_defs)
  then have "fits ContTask s" by (rule fits_task)
  then show "ready s0 (await_cont w) (s\<lparr>sv_await := None\<rparr>) \<and> await_ok w"
    using g w by (simp add: ready_def inv_defs fits_def)
  show "po_identity (sv_pos s) \<noteq> None" if "needs_identity w" using g w that by (simp add: inv_defs)
qed

lemma managed_identity: "managedRun deps s \<noteq> None \<Longrightarrow> po_identity (sv_pos s) \<noteq> None"
  by (auto simp: managedRun_def split: option.splits)

lemma begin_await_good:
  "ready s0 c s \<Longrightarrow> po_identity (sv_pos s) \<noteq> None \<Longrightarrow> await_ok w \<Longrightarrow> await_cont w = c \<Longrightarrow> good s0 (begin_await w s)"
  using begin_await_held [of s0 c s w] by (simp add: held_ready) (simp add: kept_def)

lemma evaluate_good: "ready s0 ContTask s \<Longrightarrow> good s0 (evaluateHandoff deps s)"
proof -
  assume r: "ready s0 ContTask s"
  have "good s0 (begin_await (AwEvalValidate x) s)" if "managedRun deps s = Some x" for x
    using r that managed_identity [of deps s] by (intro begin_await_good) auto
  with r show ?thesis unfolding evaluateHandoff_def by (simp add: ready_def split: option.splits)
qed

lemma completion_good: "ready s0 ContTask s \<Longrightarrow> good s0 (recordCompletionSignal deps SignalTask s)"
proof -
  assume r: "ready s0 ContTask s"
  then have q: "good s0 (completion_task_end deps s)" by (auto simp: ready_def intro: quiet_good quiet_intros)
  have "good s0 (begin_await (AwSignal SignalTask) s)" if "po_identity (sv_pos s) \<noteq> None"
    using r that by (intro begin_await_good) (simp_all add: signal_cont_def)
  with q show ?thesis unfolding recordCompletionSignal_def finish_signal_def by simp
qed

lemma snapshot_task_good: "ready s0 ContTask s \<Longrightarrow> good s0 (snapshot_task deps trigger missing sn s)"
proof -
  assume r: "ready s0 ContTask s"
  then have g: "good s0 s" by (simp add: ready_def)
  have q: "good s0 (applyProvisionalSnapshot deps sn trigger s)" using g by (rule quiet_good) (intro quiet_intros)
  have "good s0 (applyAuthoritativeSnapshot deps sn trigger missing ContTask s)" if "po_identity (sv_pos s) \<noteq> None"
    using apply_snapshot_good [of s0 ContTask s deps sn trigger missing] r that by (simp add: held_ready) (simp add: kept_def)
  with g q show ?thesis unfolding snapshot_task_def by simp
qed

lemma strengthen_start_good: "ready s0 ContTask s \<Longrightarrow> binding_ok b \<Longrightarrow> good s0 (strengthen_start deps b pub s)"
proof -
  assume r: "ready s0 ContTask s" and b: "binding_ok b"
  then have "good s0 (begin_await (AwStrengthen b pub) s)" by (simp add: ready_def inv_defs begin_await_def fits_def)
  moreover have "good s0 ((strengthening_failed deps cause s)\<lparr>sv_bindPending := False\<rparr>)" for cause
    using r by (intro pending_good) (auto simp: ready_def intro: quiet_good quiet_intros)
  ultimately show ?thesis unfolding strengthen_start_def by (simp split: option.splits)
qed

lemma run_task_good:
  assumes g: "good s0 s" and n: "sv_await s = None" and c: "sv_chain s = t # ts"
  shows "good s0 (run_task deps t (s\<lparr>sv_chain := ts\<rparr>))"
proof -
  let ?s = "s\<lparr>sv_chain := ts\<rparr>"
  have r: "ready s0 (task_cont t) ?s" and k: "task_ok t" using task_ready(1) [OF g n c] by simp_all
  have i: "\<exists>b pub. t = TkBind b pub \<Longrightarrow> po_identity (sv_pos ?s) \<noteq> None" using task_ready(2) [OF g n c] by simp
  have g': "good s0 ?s" using r by (simp add: ready_def)
  show ?thesis
    using r k i g' unfolding run_task_def
    by (cases t) (simp_all add: drainAdmitted_good ready_drain snapshot_task_good completion_good evaluate_good strengthen_start_good)
qed

lemma candidate_made:
  assumes "strengthening_cause prov retained native b (TargetUnique occ) = None" and "binding_ok b"
  shows "candidate_ok (make_candidate now prov retained b occ)"
proof -
  have "sameSupervisedIdentity (sb_identity b) (sup_identity_of (pb_identity prov) (the (pn_session (oc_pane occ))))"
    using assms(1) by (simp add: strengthening_cause_def Let_def evidence_occupant_def split: if_splits option.splits)
  then have "identity_ok (sup_identity_of (pb_identity prov) (the (pn_session (oc_pane occ))))"
    using assms(2) by (simp add: sameSupervisedIdentity_def identity_ok_def binding_ok_def)
  then show ?thesis using assms(2) by (simp add: make_candidate_def Let_def candidate_ok_def binding_ok_def)
qed

lemma prepared_ready:
  assumes r: "ready s0 c s" and p: "pv_binding (sv_prov s) = Some prov" and l: "pv_lifecycle (sv_prov s) = Some retained"
    and t: "strengthening_cause prov retained (pv_native (sv_prov s)) b (TargetUnique occ) = None" and b: "binding_ok b"
  shows "ready s0 c (strengthen_prepare sn b occ s)"
proof -
  have k: "candidate_ok (make_candidate (sv_now s) prov retained b occ)" using candidate_made [OF t b] .
  have n: "sv_await s = None" using r by (simp add: ready_def)
  show ?thesis using r p l k n by (simp add: strengthen_prepare_def Let_def ready_def inv_defs fits_def)
qed

lemma strengthen_answered_good:
  assumes r: "ready s0 ContTask s" and b: "binding_ok b" and s': "strengthen_answered deps b pub a s = Some s'"
  shows "good s0 s'"
proof -
  have stop: "good s0 ((strengthening_failed deps cause s)\<lparr>sv_bindPending := False\<rparr>)" for cause
    using r by (intro pending_good) (auto simp: ready_def intro: quiet_good quiet_intros)
  have g: "good s0 s" using r by (simp add: ready_def)
  show ?thesis
  proof (cases "\<exists>sn prov retained. a = AnsSnapshot sn \<and> pv_binding (sv_prov s) = Some prov \<and> pv_lifecycle (sv_prov s) = Some retained")
    case True
    then obtain sn prov retained where a: "a = AnsSnapshot sn" "pv_binding (sv_prov s) = Some prov" "pv_lifecycle (sv_prov s) = Some retained"
      by blast
    define t where "t = classifyProvisionalSnapshotTarget sn (vi_paneId (pb_identity prov))"
    let ?p = "strengthen_prepare sn b (evidence_occupant t) s"
    show ?thesis
    proof (cases "strengthening_cause prov retained (pv_native (sv_prov s)) b t")
      case None
      then obtain occ where occ: "t = TargetUnique occ"
        by (cases t) (simp_all add: strengthening_cause_def occupant_cause_def Let_def)
      have "ready s0 (ContDrain (DrainStrengthen b pub)) ?p"
        using prepared_ready [OF ready_strengthen [OF r] a(2,3) _ b] None occ by (simp add: evidence_occupant_def)
      moreover have "provisional_only ?p"
        using a identity_not_provisional [OF g] bound_identity [OF g] by (auto simp: provisional_only_def strengthen_prepare_def Let_def)
      moreover obtain u where u: "drain_until_empty deps (DrainStrengthen b pub) ?p = Some u"
          "s' = drain_done deps (DrainStrengthen b pub) u"
        using s' a None by (auto simp: strengthen_answered_def Let_def t_def)
      ultimately have "ready s0 (ContDrain (DrainStrengthen b pub)) u" using drain_until_empty_ready by blast
      then show ?thesis unfolding u by (rule drain_done_good) simp
    next
      case (Some cause)
      then show ?thesis using s' a stop by (auto simp: strengthen_answered_def Let_def t_def)
    qed
  next
    case False
    then show ?thesis using s' stop g
      by (cases a) (auto simp: strengthen_answered_def Let_def split: option.splits)
  qed
qed

lemma quiet_handoff_end [quiet_intros]:
  "quiet s t \<Longrightarrow> quiet s (put_out x (recordOutcome r lc d t))"
  by (intro quiet_intros)

lemma handoff_good:
  assumes r: "ready s0 ContTask s" and i: "po_identity (sv_pos s) \<noteq> None"
  shows "good s0 (handoff_validated deps x v s)" and "good s0 (handoff_recorded y s)"
    and "good s0 (repair_fenced x reason fence s)" and "good s0 (repair_prompted deps n reason y s)"
proof -
  have g: "good s0 s" using r by (simp add: ready_def)
  have o: "good s0 (begin_await w (put_out z s))" if "await_ok w" "await_cont w = ContTask" for w z
  proof (rule begin_await_good [OF _ _ that])
    show "ready s0 ContTask (put_out z s)" using r by (rule quiet_ready) (intro quiet_intros)
    show "po_identity (sv_pos (put_out z s)) \<noteq> None" using i by (simp add: put_out_def)
  qed
  have o': "good s0 (begin_await w s)" if "await_ok w" "await_cont w = ContTask" for w
    by (rule begin_await_good [OF r i that])
  show "good s0 (handoff_validated deps x v s)"
    unfolding handoff_validated_def recordOutcome_def by (simp add: g o o' split: option.splits)
  show "good s0 (repair_fenced x reason fence s)" unfolding repair_fenced_def by (simp add: g o split: option.splits)
  show "good s0 (handoff_recorded y s)" "good s0 (repair_prompted deps n reason y s)"
    by (rule quiet_good [OF g], intro quiet_intros)+
qed

lemma resume_good:
  assumes g: "good s0 s" and w: "sv_await s = Some w" and s': "resume_with deps w a (s\<lparr>sv_await := None\<rparr>) = Some s'"
  shows "good s0 s'"
proof -
  let ?s = "s\<lparr>sv_await := None\<rparr>"
  have r: "ready s0 (await_cont w) ?s" and k: "await_ok w" using resume_ready(1) [OF g w] by simp_all
  have i: "needs_identity w \<Longrightarrow> po_identity (sv_pos ?s) \<noteq> None" using resume_ready(2) [OF g w] by simp
  have again: "begin_await w ?s = s" using w by (simp add: begin_await_def)
  show ?thesis
  proof (cases "\<exists>b pub. w = AwStrengthen b pub")
    case True
    then show ?thesis using r k s' by (auto simp: resume_with_def intro: strengthen_answered_good)
  next
    case False
    then have h: "held s0 (await_cont w) ?s" using r i by (cases w) (simp_all add: held_ready)
    have f: "kept s0 (await_cont w) (markReconciliationFailure deps x ?s)" for x using h by (rule held_quiet) (intro quiet_intros)
    show ?thesis
      using s' h k f g handoff_good [of s0 ?s] i again r False
      by (cases w; cases a)
        (auto simp: resume_with_def proceed_good apply_snapshot_good move_answered_good settle_good settle_emitting_good
          on_signal_good finish_signal_good record_settling_good record_exit_good settle_finish_kept)
  qed
qed

section \<open>Inputs keep it\<close>

text \<open>What the callers hand in: validated events, and bindings of a launched child.\<close>

fun input_ok :: "sup_input \<Rightarrow> bool" where
  "input_ok (InEvent e) = event_ok e"
| "input_ok (InBind b pub) = binding_ok b"
| "input_ok (InStrengthen b pub) = binding_ok b"
| "input_ok x = True"

lemma queue_task_good:
  "good s0 s \<Longrightarrow> task_ok t \<Longrightarrow> \<not> is_bind_task t \<Longrightarrow> good s0 (enqueue t s)"
proof -
  assume g: "good s0 s" and t: "task_ok t" "\<not> is_bind_task t"
  have "exact_pending (sv_chain s @ [t]) = exact_pending (sv_chain s)"
    using t(2) by (cases t) (simp_all add: exact_pending_def)
  moreover have "bind_count (sv_chain s @ [t]) r = bind_count (sv_chain s) r" for r
    using t(2) by (simp add: bind_count_def)
  ultimately show ?thesis using g t(1) by (simp add: inv_defs enqueue_def fits_def phase_fields_def count_fields_def)
qed

lemma onEvent_good: "good s0 s \<Longrightarrow> event_ok e \<Longrightarrow> good s0 (onEvent e s)"
proof -
  assume g: "good s0 s" and e: "event_ok e"
  have "good s0 (s\<lparr>sv_queued := sv_queued s @ [e]\<rparr>)" using g e by (simp add: inv_defs fits_def)
  with g show ?thesis unfolding onEvent_def by (simp add: queue_task_good)
qed

lemma bind_start_good:
  assumes g: "good s0 s" and u: "\<not> bind_used s" and r: "read_ok r"
  shows "good s0 (bind_start r pane s)"
proof -
  have c: "count_fields True (Some r) (sv_chain s) n" if "count_fields False (sv_bindRead s) (sv_chain s) n" for n
    using that by (auto simp: count_fields_def bind_count_def split: if_splits)
  have b: "\<not> sv_bindStarted s" using u by (simp add: bind_used_def)
  then have "po_identity (sv_pos s) = None" "pv_binding (sv_prov s) = None" using g by (simp_all add: inv_defs phase_fields_def)
  with g b c r show ?thesis by (simp add: bind_start_def inv_defs fits_def phase_fields_def)
qed

lemma refused_input: "good s0 s \<Longrightarrow> good s0 (bind_failed cause s)"
  by (rule quiet_good) (auto intro: quiet_intros)

lemma bind_good:
  assumes g: "good s0 s"
  shows "binding_ok b \<Longrightarrow> good s0 (bind_exact b pub s)" and "good s0 (bind_provisional p pub s)"
    and "binding_ok b \<Longrightarrow> good s0 (strengthen b pub s)"
proof -
  show "binding_ok b \<Longrightarrow> good s0 (bind_exact b pub s)" "good s0 (bind_provisional p pub s)"
    using g unfolding bind_exact_def bind_provisional_def by (auto simp: refused_input intro!: bind_start_good)
  have "good s0 (s\<lparr>sv_prov := (sv_prov s)\<lparr>pv_strengthening := True\<rparr>, sv_bindPending := True\<rparr>)"
    using g by (simp add: inv_defs fits_def)
  then show "binding_ok b \<Longrightarrow> good s0 (strengthen b pub s)"
    using g unfolding strengthen_def by (auto simp: refused_input intro!: queue_task_good)
qed

text \<open>While the bind reads its snapshot nothing else is bound or queued to be.\<close>

definition reading :: "supervisor \<Rightarrow> supervisor \<Rightarrow> bool" where
  "reading s0 s \<longleftrightarrow> unbound s0 s \<and> sv_bindStarted s \<and> sv_bindRead s = None \<and> po_identity (sv_pos s) = None
     \<and> pv_binding (sv_prov s) = None \<and> cont_binds (case sv_await s of None \<Rightarrow> ContTask | Some w \<Rightarrow> await_cont w) = 0"

lemma reading_start:
  assumes g: "good s0 s" and r: "sv_bindRead s = Some r"
  shows "reading s0 (s\<lparr>sv_bindRead := None\<rparr>) \<and> read_ok r"
proof -
  let ?n = "cont_binds (case sv_await s of None \<Rightarrow> ContTask | Some w \<Rightarrow> await_cont w)"
  have c: "count_fields (sv_bindStarted s) (Some r) (sv_chain s) ?n" using g r by (simp add: inv_defs fits_def)
  then have b: "sv_bindStarted s" "bind_count (sv_chain s) None = 0" "?n = 0"
    by (auto simp: count_fields_def bind_count_def split: if_splits)
  then have "count_fields True None (sv_chain s) ?n" by (simp add: count_fields_def)
  moreover have i: "po_identity (sv_pos s) = None" "pv_binding (sv_prov s) = None"
    using g r by (simp_all add: inv_defs phase_fields_def)
  moreover have "opt_all (\<lambda>w. \<not> needs_identity w) (sv_await s)" using g i(1) by (simp add: inv_defs)
  moreover have "\<not> exact_pending (sv_chain s)" using b(2) by (rule no_exact_pending)
  ultimately show ?thesis
    using g r b by (simp add: reading_def unbound_def inv_defs fits_def phase_fields_def)
qed

lemma prepare_exact_good:
  assumes r: "reading s0 s" and b: "binding_ok b"
  shows "good s0 (enqueue (TkBind b pub) ((prepare_exact sn occ b s)\<lparr>sv_bindPending := True\<rparr>))"
proof -
  let ?n = "cont_binds (case sv_await s of None \<Rightarrow> ContTask | Some w \<Rightarrow> await_cont w)"
  have u: "good s0 s" "bind_count (sv_chain s) None = 0" "sv_bindStarted s" "sv_bindRead s = None"
      "pv_binding (sv_prov s) = None" "po_identity (sv_pos s) = None" "?n = 0"
    using r unfolding reading_def unbound_def by auto
  have c: "count_fields True None (sv_chain s @ [TkBind b pub]) 0"
    using u by (simp add: count_fields_def bind_count_def)
  have w: "opt_all (\<lambda>w. \<not> needs_identity w) (sv_await s)" using r by (simp add: reading_def unbound_def)
  have v: "view_fields (Some (sb_identity b)) (Some (sb_operatingPointId b)) (Some st) (sv_bound s) (sv_state s) None" for st
    using u(1,5) b by (simp add: inv_defs view_fields_def binding_ok_def)
  have k: "pv_candidate (sv_prov s) = None" using u(1,5) by (simp add: inv_defs)
  show ?thesis using u v c k w b
    by (simp add: enqueue_def prepare_exact_def Let_def inv_defs fits_def phase_fields_def)
qed

lemma prepare_provisional_good:
  assumes r: "reading s0 s" and b: "validProvisionalBinding b"
  shows "good s0 (enqueue (TkProvisional b pub) ((prepare_provisional occ b s)\<lparr>sv_bindPending := True\<rparr>))"
proof -
  let ?n = "cont_binds (case sv_await s of None \<Rightarrow> ContTask | Some w \<Rightarrow> await_cont w)"
  have u: "good s0 s" "bind_count (sv_chain s) None = 0" "sv_bindStarted s" "sv_bindRead s = None"
      "pv_binding (sv_prov s) = None" "po_identity (sv_pos s) = None" "?n = 0"
    using r unfolding reading_def unbound_def by auto
  have c: "count_fields True None (sv_chain s @ [TkProvisional b pub]) 0"
    using u by (simp add: count_fields_def bind_count_def)
  have w: "opt_all (\<lambda>w. \<not> needs_identity w) (sv_await s)" using r by (simp add: reading_def unbound_def)
  have e: "\<not> exact_pending (sv_chain s @ [TkProvisional b pub])"
    using no_exact_pending [OF u(2)] by (simp add: exact_pending_def)
  have v: "view_fields None q st (sv_bound s) (sv_state s) (Some b)" for q st
    using u(1,6) b by (simp add: inv_defs view_fields_def)
  have k: "pv_candidate (sv_prov s) = None" using u(1,5) by (simp add: inv_defs)
  show ?thesis using u v c k w b e
    by (simp add: enqueue_def prepare_provisional_def Let_def inv_defs fits_def phase_fields_def)
qed

lemma bind_read_good:
  assumes g: "good s0 s" and r: "sv_bindRead s = Some r"
  shows "good s0 (case r of ReadExact b pub \<Rightarrow> bind_exact_read b pub a (s\<lparr>sv_bindRead := None\<rparr>)
    | ReadProvisional b pub \<Rightarrow> bind_provisional_read b pub a (s\<lparr>sv_bindRead := None\<rparr>))"
proof -
  let ?s = "s\<lparr>sv_bindRead := None\<rparr>"
  have d: "reading s0 ?s" "read_ok r" using reading_start [OF g r] by simp_all
  then have u: "unbound s0 ?s" by (simp add: reading_def)
  then have g': "good s0 ?s" by (simp add: unbound_def)
  show ?thesis using d u g'
    by (cases r) (simp_all add: bind_exact_read_def bind_provisional_read_def Let_def bind_refused_good prepare_exact_good
        prepare_provisional_good split: answer.splits option.splits)
qed

lemma stop_with_good: "good s0 s \<Longrightarrow> good s0 (stop_with oc reason s)"
proof -
  assume g: "good s0 s"
  then have v: "view_fields (po_identity (sv_pos s)) (sv_point s) (po_status (sv_pos s)) (sv_bound s) SsSettled (pv_binding (sv_prov s))"
    by (auto simp: inv_defs intro: settled_fields)
  show ?thesis
  proof (cases "isSettled s")
    case True
    then show ?thesis using g by (simp add: stop_with_def Let_def stop_timers_def clearReviewTimer_def isSettled_def inv_defs fits_def)
  next
    case False
    then have n: "sv_state s \<noteq> SsSettled" by (simp add: isSettled_def)
    have "settlement_fields (sv_state s) (sv_settlement s) (sv_resolved s)" and o: "sv_resolved s0 \<noteq> None \<longrightarrow> sv_resolved s = sv_resolved s0"
      using g by (simp_all add: inv_defs)
    then have m: "sv_resolved s = None" using n unfolding settlement_fields_def by blast
    then have "sv_resolved s0 = None" using o by (cases "sv_resolved s0") simp_all
    with n m show ?thesis using g v
      by (simp add: stop_with_def Let_def stop_timers_def clearReviewTimer_def isSettled_def inv_defs fits_def resolve_settled_def
        settlement_fields_def)
  qed
qed

lemma quiet_inputs:
  "quiet s (onMonitorDegraded deps x s)" "quiet s (onMonitorRecovered deps s)" "quiet s (onReconciliationFailure deps r s)"
  "quiet s (s\<lparr>sv_now := n\<rparr>)" "quiet s (s\<lparr>sv_runs := runs\<rparr>)" "quiet s (s\<lparr>sv_monitorDegraded := b\<rparr>)"
  "quiet s (retry_timer s)" "quiet s (onCompletionSignal s)" "quiet s (s\<lparr>sv_owner := w\<rparr>)"
  "quiet s (snd (takePendingEvents s))"
  unfolding retry_timer_def onCompletionSignal_def takePendingEvents_def
  by (auto intro!: quiet_intros split: prod.splits)

lemma snapshots_good:
  "good s0 s \<Longrightarrow> good s0 (onBootstrap sn b s)" "good s0 s \<Longrightarrow> good s0 (onReconciliationSnapshot sn s)"
  unfolding onBootstrap_def onReconciliationSnapshot_def by (simp_all add: queue_task_good)

lemma release_good: "good s0 s \<Longrightarrow> good s0 (release reason s)"
  unfolding release_def by (auto intro: stop_with_good quiet_good quiet_intros)

lemma sup_do_good:
  assumes g: "good s0 s" and x: "input_ok x" and d: "sup_do deps x s = Some s'"
  shows "good s0 s'"
proof (cases x)
  case InTask
  then show ?thesis using g d run_task_good [OF g] by (auto simp: sup_do_def split: option.splits list.splits)
next
  case (InAnswer a)
  then show ?thesis using g d resume_good [OF g] by (auto simp: sup_do_def split: option.splits)
next
  case (InBindRead a)
  show ?thesis
  proof (cases "sv_bindRead s")
    case None
    then show ?thesis using g d InBindRead by (simp add: sup_do_def)
  next
    case (Some r)
    then show ?thesis using d InBindRead bind_read_good [OF g Some, of a] by (simp add: sup_do_def split: bind_read.splits)
  qed
qed (use g x d bind_good [OF g] quiet_good [OF g quiet_inputs(1)] quiet_good [OF g quiet_inputs(2)] quiet_good [OF g quiet_inputs(3)]
    quiet_good [OF g quiet_inputs(4)] quiet_good [OF g quiet_inputs(5)] quiet_good [OF g quiet_inputs(6)] quiet_good [OF g quiet_inputs(7)]
    quiet_good [OF g quiet_inputs(8)] quiet_good [OF g quiet_inputs(9)] quiet_good [OF g quiet_inputs(10)]
    onEvent_good [OF g] snapshots_good [OF g] stop_with_good [OF g] release_good [OF g]
  in \<open>auto simp: sup_do_def shutdown_def\<close>)

section \<open>Reachable supervisors\<close>

lemma initial_inv: "sup_inv (initial_supervisor runs now)"
  by (simp add: sup_inv_def view_inv_def admitted_ok_def phase_ok_def settlement_ok_def initial_supervisor_def initial_position_def
      view_fields_def phase_fields_def fits_def count_fields_def bind_count_def exact_pending_def settlement_fields_def)

lemma good_start: "sup_inv s \<Longrightarrow> good s s"
  by (simp add: good_def settles_once_def)

text \<open>The states inputs lead to, from a new supervisor.\<close>

inductive supervised :: "sup_deps \<Rightarrow> supervisor \<Rightarrow> bool" for deps where
  supervised_new: "supervised deps (initial_supervisor runs now)"
| supervised_step: "supervised deps s \<Longrightarrow> input_ok x \<Longrightarrow> sup_do deps x s = Some s' \<Longrightarrow> supervised deps s'"

lemma supervised_inv: "supervised deps s \<Longrightarrow> sup_inv s"
proof (induction rule: supervised.induct)
  case (supervised_new runs now)
  show ?case by (rule initial_inv)
next
  case (supervised_step s x s')
  then have "good s s'" by (intro sup_do_good [OF good_start]) simp_all
  then show ?case by (simp add: good_def)
qed

end
