(* ===== verification/Supervisor_Properties.thy ===== *)
theory Supervisor_Properties
  imports Supervisor_Reachable
begin

text \<open>
  The properties of the supervisor: every view it publishes passes the consumers' guard, a settlement is
  final, a child that is still there is never settled by evidence, and reconciliation trouble is announced
  at the third consecutive failure only.
\<close>

section \<open>A supervised AGY child\<close>

text \<open>The launch the examples follow: bound provisionally at idle, then strengthened from its session.\<close>

definition agy_deps :: sup_deps where
  "agy_deps = \<lparr>sd_jobId = ''job'', sd_agentName = ''scout'', sd_agentKind = ''agy'', sd_operatingPointId = ''agy-1'',
     sd_cadenceMs = 60000, sd_selfClose = False, sd_gate = False, sd_repairPrompt = False, sd_eventWriter = False,
     sd_bounded = (\<lambda>s n. s), sd_uuid = (\<lambda>n. replicate n (CHR ''u'')), sd_numStr = (\<lambda>n. ''#'')\<rparr>"

definition agy_session :: agent_session where
  "agy_session = \<lparr>as_source = ''hook'', as_agent = ''agy'', as_kind = ''id'', as_value = ''s1''\<rparr>"

definition agy_provisional :: prov_binding where
  "agy_provisional = \<lparr>pb_identity = \<lparr>vi_paneId = ''p1'', vi_terminalId = ''t1'', vi_agentName = ''scout'', vi_agentKind = ''agy''\<rparr>,
     pb_operatingPointId = ''agy-1'', pb_baseline = \<lparr>bl_state = StIdle, bl_seq = 3, bl_revision = 3\<rparr>\<rparr>"

definition agy_exact :: sup_binding where
  "agy_exact = \<lparr>sb_identity = \<lparr>si_paneId = ''p1'', si_terminalId = ''t1'', si_agentName = ''scout'', si_agentKind = ''agy'',
     si_session = agy_session\<rparr>, sb_operatingPointId = ''agy-1'', sb_seq = Some 4, sb_owner = None\<rparr>"

definition agy_pane :: "string \<Rightarrow> nat \<Rightarrow> jsval" where
  "agy_pane status n = JObj [(''pane_id'', JStr ''p1''), (''terminal_id'', JStr ''t1''), (''tab_id'', JStr ''b1''),
     (''workspace_id'', JStr ''w1''), (''agent_status'', JStr status), (''revision'', jnat n)]"

definition agy_session_json :: jsval where
  "agy_session_json = JObj [(''source'', JStr ''hook''), (''agent'', JStr ''agy''), (''kind'', JStr ''id''), (''value'', JStr ''s1'')]"

definition agy_agent :: "nat \<Rightarrow> jsval list \<Rightarrow> jsval" where
  "agy_agent n session = JObj ([(''pane_id'', JStr ''p1''), (''name'', JStr ''scout''), (''agent'', JStr ''agy''),
     (''terminal_id'', JStr ''t1''), (''state_change_seq'', jnat n)] @ map (\<lambda>s. (''agent_session'', s)) session)"

definition agy_snapshot :: "string \<Rightarrow> nat \<Rightarrow> jsval list \<Rightarrow> snapshot" where
  "agy_snapshot status n session = \<lparr>sn_version = ''1'', sn_protocol = 1, sn_workspaces = [], sn_tabs = [],
     sn_panes = [agy_pane status n], sn_agents = [agy_agent n session]\<rparr>"

definition pane_gone :: snapshot where
  "pane_gone = \<lparr>sn_version = ''1'', sn_protocol = 1, sn_workspaces = [], sn_tabs = [], sn_panes = [], sn_agents = []\<rparr>"

definition published_ok :: publication where
  "published_ok = \<lparr>pu_commits = True, pu_publishes = True\<rparr>"

fun sup_trace :: "sup_deps \<Rightarrow> sup_input list \<Rightarrow> supervisor \<Rightarrow> supervisor option" where
  "sup_trace deps [] s = Some s"
| "sup_trace deps (x # xs) s = (case sup_do deps x s of None \<Rightarrow> None | Some s' \<Rightarrow> sup_trace deps xs s')"

lemma sup_trace_append:
  "sup_trace deps (xs @ ys) s = (case sup_trace deps xs s of None \<Rightarrow> None | Some t \<Rightarrow> sup_trace deps ys t)"
  by (induction xs arbitrary: s) (simp_all split: option.splits)

lemma supervised_trace:
  "supervised deps s \<Longrightarrow> list_all input_ok xs \<Longrightarrow> sup_trace deps xs s = Some s' \<Longrightarrow> supervised deps s'"
  by (induction xs arbitrary: s) (auto split: option.splits intro: supervised_step)

text \<open>The state after the provisional bind: its three inputs lead there.\<close>

definition agy_bind :: "sup_input list" where
  "agy_bind = [InBindProvisional agy_provisional published_ok, InBindRead (AnsSnapshot (agy_snapshot ''idle'' 3 [])), InTask]"

definition agy_supervisor :: supervisor where
  "agy_supervisor = (initial_supervisor [] 0)\<lparr>sv_state := SsProvisional,
     sv_pos := initial_position\<lparr>po_paneId := Some ''p1'', po_status := Some StIdle, po_revision := 3, po_seq := Some 3,
       po_anchor := Some \<lparr>an_revision = 3, an_status = StIdle, an_seq = Some 3\<rparr>\<rparr>,
     sv_prov := \<lparr>pv_binding = Some agy_provisional, pv_failure = None, pv_native = None,
       pv_lifecycle = Some \<lparr>pl_seq = 3, pl_revision = 3, pl_status = StIdle, pl_events = []\<rparr>, pv_candidate = None,
       pv_published = True, pv_strengthening = False\<rparr>,
     sv_bindStarted := True, sv_observing := True, sv_point := Some ''agy-1'',
     sv_out := [FxCommit, FxPublished, FxPublish ''supervising scout provisionally'', FxBound]\<rparr>"

lemma status_words: "status_of ''idle'' = Some StIdle" "status_of ''working'' = Some StWorking"
  by code_simp+

lemma small_number [simp]: "safe_nat (jnat n) = Some n" if "n \<le> 1000"
  by (rule safe_nat_jnat) (use that in \<open>simp add: MAX_SAFE_INTEGER_def\<close>)

lemma jnat_present [simp]: "jnat n \<noteq> JUndef" "jnat n \<noteq> JNull"
  by (simp_all add: jnat_def)

lemma usable_words: "usable ''p1''" "usable ''t1''" "usable ''b1''" "usable ''w1''" "usable ''scout''" "usable ''agy''" "usable ''agy-1''"
  by code_simp+

lemmas classify_defs = classifyProvisionalSnapshotTarget_def classifySnapshotTarget_def agy_snapshot_def agy_pane_def agy_agent_def
  with_field_def find_field_def joinTargetRecords_def pane_of_record_def parsePaneRecord_def sup_required_def usable_words
  sup_agentStatus_def status_words sup_counter_def sup_optional_def own_def optionalAgentSession_def first_name_def
  optionalIdentityString_def read_agent_def optionalSession_def optionalLifecycleCounter_def optionalLifecycleStatus_def
  join_contradicts_def contradictory_def joined_occupant_def Let_def read_provisional_def absent_value_def agy_session_json_def

definition agy_occupant :: "sup_status \<Rightarrow> nat \<Rightarrow> agent_session option \<Rightarrow> occupant" where
  "agy_occupant st n session = \<lparr>oc_pane = \<lparr>pn_paneId = ''p1'', pn_terminalId = ''t1'', pn_tabId = ''b1'', pn_workspaceId = ''w1'',
     pn_status = st, pn_revision = n, pn_seq = Some n, pn_agentKind = Some ''agy'', pn_session = session, pn_label = None\<rparr>,
     oc_agentPresent = True, oc_agentName = Some ''scout'', oc_seq = Some n\<rparr>"

lemma agy_classified:
  "classifyProvisionalSnapshotTarget (agy_snapshot ''idle'' 3 []) ''p1'' = TargetUnique (agy_occupant StIdle 3 None)"
  "classifyProvisionalSnapshotTarget (agy_snapshot ''working'' 4 [agy_session_json]) ''p1''
     = TargetUnique (agy_occupant StWorking 4 (Some agy_session))"
  by (simp_all add: classify_defs agy_occupant_def agy_session_def)

lemma agy_bind_trace: "sup_trace agy_deps agy_bind (initial_supervisor [] 0) = Some agy_supervisor"
  by (simp add: agy_bind_def sup_do_def bind_provisional_def bind_used_def validProvisionalBinding_def agy_provisional_def
      MAX_SAFE_INTEGER_def bind_start_def usable_words bind_provisional_read_def agy_classified occupant_cause_def
      evidence_occupant_def provisionalOccupantContinuity_def enqueue_def prepare_provisional_def agy_occupant_def Let_def
      run_task_def drainAdmitted_def drain_done_def commitProvisional_def isSettled_def published_ok_def put_out_def
      publish_text_def agy_deps_def agy_supervisor_def initial_supervisor_def initial_position_def)

lemma agy_supervised: "supervised agy_deps agy_supervisor"
  by (rule supervised_trace [OF supervised_new _ agy_bind_trace]) (simp add: agy_bind_def)

section \<open>Views and settlements\<close>

lemma good_trace:
  "good s0 s \<Longrightarrow> list_all input_ok xs \<Longrightarrow> sup_trace deps xs s = Some s' \<Longrightarrow> good s0 s'"
  by (induction xs arbitrary: s) (auto split: option.splits intro: sup_do_good)

text \<open>
  C34. Every view a supervisor publishes, in any state its inputs lead to, passes the guard its consumers
  apply: an active or degraded view carries a complete child and a status, a provisional one its baseline,
  and no state shows fields of another.
\<close>

theorem published_view_valid:
  assumes "supervised deps s" and "deps_ok deps"
  shows "isSupervisionJobView (view deps env s)"
proof -
  have "view_inv s" using supervised_inv [OF assms(1)] by (simp add: sup_inv_def)
  then show ?thesis using assms(2) by (rule view_guard)
qed

theorem published_view_valid_witness:
  "isSupervisionJobView (view agy_deps \<lparr>ve_generation = 1, ve_reviews = empty_history 10, ve_lastReviewAt = None\<rparr> agy_supervisor)
   \<and> sv_state agy_supervisor = SsProvisional"
  using published_view_valid [OF agy_supervised]
  by (simp add: deps_ok_def agy_deps_def agy_supervisor_def)

text \<open>
  C36. A settlement is final: once the job of a supervisor has resolved, no later input changes what it
  resolved with, and the supervisor stays settled.
\<close>

theorem settlement_is_final:
  assumes "supervised deps s" and "sv_resolved s = Some outcome"
    and "list_all input_ok xs" and "sup_trace deps xs s = Some s'"
  shows "sv_resolved s' = Some outcome \<and> sv_state s' = SsSettled \<and> sv_settlement s' \<noteq> None"
proof -
  have "good s s'" using good_trace [OF good_start [OF supervised_inv [OF assms(1)]] assms(3,4)] .
  then have once: "settles_once s s'" and ok: "settlement_ok s'" by (simp_all add: good_def sup_inv_def)
  have "sv_resolved s' = Some outcome" using once assms(2) by (simp add: settles_once_def)
  with ok show ?thesis by (simp add: settlement_ok_def settlement_fields_def)
qed

lemma agy_shutdown_supervised: "supervised agy_deps (shutdown agy_supervisor)"
  by (rule supervised_step [OF agy_supervised, of InShutdown]) (simp_all add: sup_do_def)

lemma agy_shutdown_resolved: "sv_resolved (shutdown agy_supervisor) = Some (OcCancelled, ''manager_session_shutdown'')"
  by (simp add: shutdown_def stop_with_def Let_def stop_timers_def clearReviewTimer_def isSettled_def resolve_settled_def
      agy_supervisor_def initial_supervisor_def)

theorem settlement_is_final_witness:
  "sv_resolved (release ''late'' (shutdown agy_supervisor)) = Some (OcCancelled, ''manager_session_shutdown'')"
  using settlement_is_final [OF agy_shutdown_supervised agy_shutdown_resolved, of "[InRelease ''late'']"]
  by (simp add: sup_do_def)

section \<open>Endings need evidence\<close>

text \<open>A supervisor that neither settled nor is on its way to.\<close>

fun settling :: "await \<Rightarrow> bool" where
  "settling (AwSelfClose oc trigger summary c) = True"
| "settling (AwSignal e) = (e \<noteq> SignalTask)"
| "settling (AwMark e) = (e \<noteq> SignalTask)"
| "settling (AwFlush oc reason c) = True"
| "settling (AwExitValidate oc reason limited r c) = True"
| "settling (AwExitRecord oc reason c) = True"
| "settling w = False"

definition unsettled :: "supervisor \<Rightarrow> bool" where
  "unsettled s \<longleftrightarrow> \<not> isSettled s \<and> opt_all (\<lambda>w. \<not> settling w) (sv_await s)"

text \<open>What the snapshot shows of the child, or of its move.\<close>

definition child_there :: "supervisor \<Rightarrow> snapshot \<Rightarrow> bool" where
  "child_there s sn =
     (case po_identity (sv_pos s) of
        None \<Rightarrow> True
      | Some i \<Rightarrow> (case classifyTarget i sn (currentPaneId s) of
            TargetInvalid r \<Rightarrow> True
          | TargetAbsent \<Rightarrow> False
          | TargetUnique occ \<Rightarrow> oc_agentPresent occ \<and> occupantContinuity i occ = Continuous))"

definition moved_there :: "supervisor \<Rightarrow> pane_record \<Rightarrow> snapshot \<Rightarrow> bool" where
  "moved_there s p sn =
     (case po_identity (sv_pos s) of
        None \<Rightarrow> True
      | Some i \<Rightarrow> (case classifyTarget i sn (pn_paneId p) of
            TargetInvalid r \<Rightarrow> True
          | TargetAbsent \<Rightarrow> False
          | TargetUnique occ \<Rightarrow> oc_agentPresent occ \<and> movedIdentity i p occ \<noteq> None))"

text \<open>An input that ends the supervision, or carries evidence that the child ended.\<close>

definition shows_end :: "sup_input \<Rightarrow> supervisor \<Rightarrow> bool" where
  "shows_end x s =
     (case x of
        InShutdown \<Rightarrow> True
      | InRelease reason \<Rightarrow> True
      | InTask \<Rightarrow> (case sv_chain s of
            TkBootstrap sn # ts \<Rightarrow> \<not> child_there s sn
          | TkPeriodic sn # ts \<Rightarrow> \<not> child_there s sn
          | _ \<Rightarrow> False)
      | InAnswer a \<Rightarrow> (case (sv_await s, a) of
            (Some (AwReconcile trigger c), AnsSnapshot sn) \<Rightarrow> \<not> child_there s sn
          | (Some (AwMove p c), AnsSnapshot sn) \<Rightarrow> \<not> moved_there s p sn
          | (Some (AwMove p c), AnsFailed code) \<Rightarrow> True
          | _ \<Rightarrow> False)
      | _ \<Rightarrow> False)"

definition same_life :: "supervisor \<Rightarrow> supervisor \<Rightarrow> bool" where
  "same_life s s' \<longleftrightarrow> (isSettled s' \<longleftrightarrow> isSettled s) \<and> sv_await s' = sv_await s"

lemma same_life_calm: "same_life s s' \<Longrightarrow> unsettled s \<Longrightarrow> unsettled s'"
  by (simp add: same_life_def unsettled_def)

lemma same_life_trans: "same_life s t \<Longrightarrow> same_life t u \<Longrightarrow> same_life s u"
  by (simp add: same_life_def)

lemma quiet_same_life: "quiet s s' \<Longrightarrow> same_life s s'"
proof -
  assume q: "quiet s s'"
  then have "sv_state s' = SsSettled \<longleftrightarrow> sv_state s = SsSettled"
    by (intro state_refreshed_settled) (simp add: quiet_def)
  with q show ?thesis by (simp add: same_life_def isSettled_def quiet_def)
qed

lemma quiet_calm: "unsettled s \<Longrightarrow> quiet s s' \<Longrightarrow> unsettled s'"
  using quiet_same_life same_life_calm by blast

lemma rebase_same_life: "same_life s (rebase i s)"
  by (simp add: same_life_def rebase_def isSettled_def)

lemma adoptMove_calm: "unsettled s \<Longrightarrow> unsettled (adoptMove deps i occ p s)"
  unfolding adoptMove_def Let_def
  by (rule quiet_calm [OF same_life_calm [OF rebase_same_life]], assumption) (auto intro!: quiet_intros)

lemma begin_await_calm: "unsettled s \<Longrightarrow> \<not> settling w \<Longrightarrow> unsettled (begin_await w s)"
  by (simp add: unsettled_def begin_await_def isSettled_def)

lemma calm_marks:
  assumes "unsettled s"
  shows "unsettled (markReconciliationSuccess deps s)" and "unsettled (markReconciliationFailure deps r s)" and "unsettled (observeOwner sn s)"
    and "unsettled (applySnapshotRevision deps occ (markReconciliationSuccess deps s))" and "unsettled (applyEventRevision deps p s)"
  by (rule quiet_calm [OF assms], intro quiet_intros)+

lemma fold_occupant_calm: "unsettled s \<Longrightarrow> unsettled (fold_occupant deps occ s)"
  unfolding fold_occupant_def by (simp add: calm_marks adoptMove_calm split: option.splits sum.splits)

lemma snapshot_calm:
  assumes c: "unsettled s" and i: "po_identity (sv_pos s) \<noteq> None" and there: "child_there s sn"
  shows "unsettled (applyAuthoritativeSnapshot deps sn trigger missing k s)"
proof -
  obtain j where j: "po_identity (sv_pos s) = Some j" using i by blast
  have o: "unsettled (observeOwner sn s)" using c by (rule calm_marks)
  have same: "po_identity (sv_pos (observeOwner sn s)) = Some j" "currentPaneId (observeOwner sn s) = currentPaneId s"
    using j by (simp_all add: observeOwner_def currentPaneId_def split: option.splits)
  show ?thesis
    using there j unfolding applyAuthoritativeSnapshot_def Let_def child_there_def
    by (cases "classifyTarget j sn (currentPaneId s)") (simp_all add: same calm_marks [OF o] fold_occupant_calm [OF o])
qed

lemma moved_seq [simp]:
  "movedIdentity i p (occ\<lparr>oc_pane := (oc_pane occ)\<lparr>pn_seq := q\<rparr>, oc_seq := r\<rparr>) = movedIdentity i p occ"
  by (simp add: movedIdentity_def occupantContinuity_def paneContinuity_def)

lemma merge_Inr:
  "mergeMoveOccupant es p occ = Inr occ' \<Longrightarrow>
   occ' = occ \<or> occ' = occ\<lparr>oc_pane := (oc_pane occ)\<lparr>pn_seq := pn_seq p\<rparr>, oc_seq := pn_seq p\<rparr>"
  by (simp add: mergeMoveOccupant_def split: if_splits option.splits)

lemma moved_unsettled:
  assumes c: "unsettled s" and i: "po_identity (sv_pos s) \<noteq> None" and there: "moved_there s p sn"
  shows "unsettled (move_answered deps p k sn s)"
proof -
  obtain j where j: "po_identity (sv_pos s) = Some j" using i by blast
  have m: "movedIdentity j p occ' = movedIdentity j p occ" if "mergeMoveOccupant es p occ = Inr occ'" for es occ occ'
    using merge_Inr [OF that] by (elim disjE) simp_all
  show ?thesis
  proof (cases "classifyTarget j sn (pn_paneId p)")
    case (TargetUnique occ)
    have moved: "oc_agentPresent occ" "movedIdentity j p occ \<noteq> None" using there j TargetUnique by (simp_all add: moved_there_def)
    show ?thesis
    proof (cases "mergeMoveOccupant (po_moveEndpoints (sv_pos s)) p occ")
      case (Inr occ')
      then obtain i' where "movedIdentity j p occ' = Some i'" using m [OF Inr] moved by auto
      then show ?thesis using TargetUnique Inr j moved c
        by (simp add: move_answered_def calm_marks adoptMove_calm)
    qed (use TargetUnique j moved c in \<open>simp add: move_answered_def calm_marks\<close>)
  qed (use there j c in \<open>simp_all add: move_answered_def moved_there_def calm_marks\<close>)
qed

lemma foldProvisional_calm: "unsettled s \<Longrightarrow> unsettled (foldProvisional deps e s)"
proof -
  assume c: "unsettled s"
  have f: "unsettled (markProvisionalFailure deps cause s)" "unsettled (markProvisionalFailure deps cause (retain_native i x s))"
      "unsettled (fold_retained deps b lc (retain_native i x s))" for cause i x b lc
    by (rule quiet_calm [OF c], intro quiet_intros)+
  have g: "unsettled (s\<lparr>sv_prov := v\<rparr>)" for v using c by (simp add: unsettled_def isSettled_def)
  show ?thesis using c f g unfolding foldProvisional_def fold_candidate_def Let_def
    by (simp split: option.splits sum.splits prod.splits)
qed

lemma note_move_calm: "unsettled s \<Longrightarrow> unsettled (note_move p s)"
  by (simp add: unsettled_def isSettled_def note_move_def Let_def observeStateChangeSeq_def set_endpoint_def)

lemma fold_event_calm: "unsettled s \<Longrightarrow> unsettled (fold_event deps d e s)"
  unfolding fold_event_def Let_def reconcile_def followMove_def
  by (simp add: foldProvisional_calm begin_await_calm note_move_calm calm_marks split: verdict.splits)

lemma queued_calm: "unsettled s \<Longrightarrow> unsettled (s\<lparr>sv_queued := es\<rparr>)"
  by (simp add: unsettled_def isSettled_def)

lemma drain_queue_calm: "unsettled s \<Longrightarrow> unsettled (drain_queue deps d es s)"
proof (induction es arbitrary: s)
  case (Cons e es)
  then show ?case by (auto simp: Let_def queued_calm fold_event_calm)
qed (simp add: queued_calm)

lemma updates_calm:
  assumes "unsettled s"
  shows "unsettled (s\<lparr>sv_prov := v, sv_state := SsProvisional\<rparr>)" and "unsettled (s\<lparr>sv_bound := b, sv_state := SsActive, sv_health := h\<rparr>)"
    and "unsettled (s\<lparr>sv_bindPending := b\<rparr>)" and "unsettled (s\<lparr>sv_out := out, sv_health := h\<rparr>)" and "unsettled (clear_candidate s)"
    and "unsettled (s\<lparr>sv_prov := v, sv_owner := w, sv_review := r\<rparr>)" and "unsettled (install_candidate g s)"
  using assms
  by (simp_all add: unsettled_def isSettled_def clear_candidate_def install_candidate_def Let_def refreshActiveState_def)

lemma reset_calm: "unsettled s \<Longrightarrow> unsettled (bind_refused cause s)"
proof -
  assume c: "unsettled s"
  then have "unsettled (resetPreparedBinding s)"
    by (simp add: unsettled_def isSettled_def resetPreparedBinding_def Let_def clearReviewTimer_def)
  then show ?thesis unfolding bind_refused_def by (rule quiet_calm) (intro quiet_intros)
qed

lemma outputs_calm:
  assumes "unsettled s"
  shows "unsettled (put_out x s)" and "unsettled (publish_text y s)" and "unsettled (bind_failed cause s)" and "unsettled (refreshActiveState s)"
    and "unsettled (enterStatus deps st s)" and "unsettled (strengthening_failed deps cause s)" and "unsettled (replay_candidate deps xs n s)"
  by (rule quiet_calm [OF assms], intro quiet_intros)+

lemmas calm_intros = updates_calm outputs_calm reset_calm

lemma drain_done_calm: "unsettled s \<Longrightarrow> unsettled (drain_done deps d s)"
proof -
  assume c: "unsettled s"
  have "unsettled (commitBinding deps pub s)" for pub
    unfolding commitBinding_def Let_def using c by (auto intro!: calm_intros)
  moreover have "unsettled (commitProvisional deps pub s)" for pub
    unfolding commitProvisional_def Let_def using c by (auto intro!: calm_intros split: option.splits)
  moreover have "unsettled (strengthen_finish deps pub s)" for pub
    unfolding strengthen_finish_def Let_def using c by (auto intro!: calm_intros split: option.splits)
  ultimately show ?thesis using c unfolding drain_done_def by (auto intro!: calm_intros split: drain_end.splits)
qed

lemma drainAdmitted_calm: "unsettled s \<Longrightarrow> unsettled (drainAdmitted deps d s)"
  unfolding drainAdmitted_def Let_def by (simp add: drain_queue_calm drain_done_calm)

lemma proceed_calm: "unsettled s \<Longrightarrow> unsettled (proceed deps c s)"
  unfolding proceed_def by (simp add: drainAdmitted_calm split: cont.splits)

lemma handoff_calm:
  assumes "unsettled s"
  shows "unsettled (evaluateHandoff deps s)" and "unsettled (handoff_validated deps r v s)" and "unsettled (handoff_recorded b s)"
    and "unsettled (repair_fenced r reason fence s)" and "unsettled (repair_prompted deps n reason b s)"
proof -
  show "unsettled (evaluateHandoff deps s)" "unsettled (handoff_validated deps r v s)" "unsettled (repair_fenced r reason fence s)"
    using assms unfolding evaluateHandoff_def handoff_validated_def repair_fenced_def recordOutcome_def
    by (simp_all add: begin_await_calm outputs_calm split: option.splits)
  show "unsettled (handoff_recorded b s)" "unsettled (repair_prompted deps n reason b s)"
    by (rule quiet_calm [OF assms], intro quiet_intros)+
qed

lemma signal_calm:
  assumes "unsettled s"
  shows "unsettled (recordCompletionSignal deps SignalTask s)" and "unsettled (on_signal deps SignalTask a s)" and "unsettled (finish_signal deps SignalTask s)"
proof -
  have q: "unsettled (completion_task_end deps s)" "unsettled (completion_task_end deps (quota_gap deps s))"
      "unsettled (completion_task_end deps (provider_limited deps ck retry rec s))"
      "unsettled (put_out x (provider_limited deps ck retry rec s))" for ck retry rec x
    by (rule quiet_calm [OF assms], intro quiet_intros)+
  show "unsettled (recordCompletionSignal deps SignalTask s)" "unsettled (finish_signal deps SignalTask s)" "unsettled (on_signal deps SignalTask a s)"
    using assms q unfolding recordCompletionSignal_def on_signal_def finish_signal_def Let_def
    by (simp_all add: begin_await_calm split: signal_answer.splits option.splits)
qed

lemma run_task_calm:
  assumes c: "unsettled s" and t: "\<And>sn. t = TkBootstrap sn \<or> t = TkPeriodic sn \<Longrightarrow> child_there s sn"
  shows "unsettled (run_task deps t s)"
proof -
  have "unsettled (snapshot_task deps trigger missing sn s)" if "child_there s sn" for trigger missing sn
  proof -
    have "unsettled (applyProvisionalSnapshot deps sn trigger s)" using c by (rule quiet_calm) (intro quiet_intros)
    with c that show ?thesis unfolding snapshot_task_def by (simp add: snapshot_calm)
  qed
  moreover have "unsettled (strengthen_start deps b pub s)" for b pub
    unfolding strengthen_start_def using c by (auto intro!: calm_intros begin_await_calm split: option.splits)
  ultimately show ?thesis
    using c t unfolding run_task_def
    by (cases t) (simp_all add: drainAdmitted_calm signal_calm handoff_calm)
qed

lemma strengthen_answered_calm:
  assumes c: "unsettled s" and s': "strengthen_answered deps b pub a s = Some s'"
  shows "unsettled s'"
proof -
  have p: "unsettled (strengthen_prepare sn b occ s)" for sn occ
    using c unfolding strengthen_prepare_def Let_def by (intro updates_calm)
  have d: "unsettled u" if "drain_until_empty deps e t = Some u" "unsettled t" for e t u
    using that drain_queue_calm by (rule drain_until_empty_keeps)
  have stop: "unsettled ((strengthening_failed deps cause s)\<lparr>sv_bindPending := False\<rparr>)" for cause
    using c by (intro calm_intros)
  show ?thesis
    using s' c p stop d unfolding strengthen_answered_def Let_def
    by (auto split: answer.splits option.splits prod.splits intro: drain_done_calm)
qed

lemma resume_calm:
  assumes c: "unsettled s" and w: "sv_await s = Some w" and i: "needs_identity w \<Longrightarrow> po_identity (sv_pos s) \<noteq> None"
    and e: "\<not> shows_end (InAnswer a) s" and s': "resume_with deps w a (s\<lparr>sv_await := None\<rparr>) = Some s'"
  shows "unsettled s'"
proof -
  let ?s = "s\<lparr>sv_await := None\<rparr>"
  have n: "unsettled ?s" using c by (simp add: unsettled_def isSettled_def)
  have again: "begin_await w ?s = s" using w by (simp add: begin_await_def)
  have there: "child_there ?s sn = child_there s sn" "moved_there ?s p sn = moved_there s p sn" for p sn
    by (simp_all add: child_there_def moved_there_def currentPaneId_def cong: option.case_cong)
  have k: "\<not> settling w" using c w by (simp add: unsettled_def)
  have id: "po_identity (sv_pos ?s) \<noteq> None" if "needs_identity w" using i that by simp
  show ?thesis
  proof (cases w)
    case (AwReconcile trigger d)
    then show ?thesis using s' n e w id again c
      by (cases a) (auto simp: resume_with_def shows_end_def there calm_marks intro!: proceed_calm snapshot_calm)
  next
    case (AwMove p d)
    then show ?thesis using s' n e w id again c
      by (cases a) (auto simp: resume_with_def shows_end_def there intro!: proceed_calm moved_unsettled)
  next
    case (AwStrengthen b pub)
    then show ?thesis using s' n by (auto simp: resume_with_def intro: strengthen_answered_calm)
  next
    case (AwSignal x)
    then show ?thesis using s' n k again c
      by (cases a) (auto simp: resume_with_def signal_calm intro!: proceed_calm)
  next
    case (AwMark x)
    then show ?thesis using s' n k again c
      by (cases a) (auto simp: resume_with_def signal_calm intro!: proceed_calm)
  qed (use k s' n again c in \<open>auto simp: resume_with_def handoff_calm split: answer.splits\<close>)
qed

lemma inputs_calm:
  assumes c: "unsettled s"
  shows "unsettled (onEvent e s)" and "unsettled (onBootstrap sn b s)" and "unsettled (onReconciliationSnapshot sn s)"
    and "unsettled (bind_exact x pub s)" and "unsettled (bind_provisional y pub s)" and "unsettled (strengthen x pub s)"
proof -
  have q: "unsettled (enqueue t (s\<lparr>sv_queued := es, sv_prov := v, sv_bindPending := p\<rparr>))" "unsettled (enqueue t s)"
      "unsettled (enqueue t (s\<lparr>sv_queued := es\<rparr>))" "unsettled (enqueue t (s\<lparr>sv_prov := v, sv_bindPending := p\<rparr>))" "unsettled (bind_start r pane s)"
    for t es v p r pane
    using c by (simp_all add: unsettled_def isSettled_def enqueue_def bind_start_def)
  show "unsettled (onEvent e s)" "unsettled (onBootstrap sn b s)" "unsettled (onReconciliationSnapshot sn s)"
      "unsettled (bind_exact x pub s)" "unsettled (bind_provisional y pub s)" "unsettled (strengthen x pub s)"
    using c q unfolding onEvent_def onBootstrap_def onReconciliationSnapshot_def bind_exact_def bind_provisional_def strengthen_def
    by (simp_all add: outputs_calm)
qed

lemma bind_read_calm:
  assumes "unsettled s"
  shows "unsettled (bind_exact_read b pub a (s\<lparr>sv_bindRead := None\<rparr>))" and "unsettled (bind_provisional_read y pub a (s\<lparr>sv_bindRead := None\<rparr>))"
proof -
  have c: "unsettled (s\<lparr>sv_bindRead := None\<rparr>)" using assms by (simp add: unsettled_def isSettled_def)
  have e: "unsettled (enqueue t ((prepare_exact sn occ b u)\<lparr>sv_bindPending := p\<rparr>))"
      "unsettled (enqueue t ((prepare_provisional occ y u)\<lparr>sv_bindPending := p\<rparr>))" if "unsettled u" for t sn occ p u
    using that by (simp_all add: unsettled_def isSettled_def enqueue_def prepare_exact_def prepare_provisional_def Let_def)
  show "unsettled (bind_exact_read b pub a (s\<lparr>sv_bindRead := None\<rparr>))"
    unfolding bind_exact_read_def Let_def using c by (simp add: e reset_calm split: answer.splits option.splits)
  show "unsettled (bind_provisional_read y pub a (s\<lparr>sv_bindRead := None\<rparr>))"
    unfolding bind_provisional_read_def Let_def using c by (simp add: e reset_calm split: answer.splits option.splits)
qed

text \<open>
  C35. A child that is still there is never ended: a supervisor settles, or begins to, only on a shutdown, a
  release, or a snapshot that shows the child's pane gone, its agent gone or another one in it, or a move
  it could not verify. Events, failed reads, lost connections and every other input leave it running.
\<close>

theorem ends_only_on_evidence:
  assumes "supervised deps s" and "unsettled s" and "\<not> shows_end x s" and "sup_do deps x s = Some s'"
  shows "unsettled s'"
proof -
  have inv: "sup_inv s" using assms(1) by (rule supervised_inv)
  note c = assms(2)
  show ?thesis
  proof (cases x)
    case InTask
    have "unsettled (s\<lparr>sv_chain := ts\<rparr>)" for ts using c by (simp add: unsettled_def isSettled_def)
    moreover have "child_there (s\<lparr>sv_chain := ts\<rparr>) sn = child_there s sn" for ts sn
      by (simp add: child_there_def currentPaneId_def cong: option.case_cong)
    ultimately show ?thesis using assms c InTask
      by (auto simp: sup_do_def shows_end_def split: option.splits list.splits intro!: run_task_calm)
  next
    case (InAnswer a)
    show ?thesis
    proof (cases "sv_await s")
      case None
      then show ?thesis using assms InAnswer by (simp add: sup_do_def)
    next
      case (Some w)
      then have "needs_identity w \<Longrightarrow> po_identity (sv_pos s) \<noteq> None" using inv by (simp add: sup_inv_def phase_ok_def)
      then show ?thesis using assms InAnswer Some by (intro resume_calm [OF c Some]) (auto simp: sup_do_def)
    qed
  next
    case (InBindRead a)
    then show ?thesis using assms c bind_read_calm [OF c]
      by (auto simp: sup_do_def split: option.splits bind_read.splits)
  qed (use assms c inputs_calm [OF c] quiet_calm [OF c quiet_inputs(1)] quiet_calm [OF c quiet_inputs(2)]
      quiet_calm [OF c quiet_inputs(3)] quiet_calm [OF c quiet_inputs(4)] quiet_calm [OF c quiet_inputs(5)]
      quiet_calm [OF c quiet_inputs(6)] quiet_calm [OF c quiet_inputs(7)] quiet_calm [OF c quiet_inputs(8)]
      quiet_calm [OF c quiet_inputs(9)] quiet_calm [OF c quiet_inputs(10)]
    in \<open>auto simp: sup_do_def shows_end_def\<close>)
qed

lemma agy_calm: "unsettled agy_supervisor"
  by (simp add: unsettled_def isSettled_def agy_supervisor_def initial_supervisor_def)

theorem ends_only_on_evidence_witness:
  "unsettled (onMonitorDegraded agy_deps ''closed'' agy_supervisor) \<and> he_stream (sv_health (onMonitorDegraded agy_deps ''closed'' agy_supervisor))"
  using ends_only_on_evidence [OF agy_supervised agy_calm, of "InMonitorDegraded ''closed''"]
  by (simp add: shows_end_def sup_do_def)
    (simp add: agy_supervisor_def initial_supervisor_def initial_position_def onMonitorDegraded_def supervising_def isSettled_def
      emit_def Let_def refreshActiveState_def publish_text_def put_out_def agy_deps_def persistEmittedEvent_def childRef_def
      agy_provisional_def)

section \<open>A task that never returns\<close>

lemma drain_stopped: "sv_stopped s \<Longrightarrow> sv_queued s \<noteq> [] \<Longrightarrow> drain_queue deps d (sv_queued s) s = s"
  by (cases "sv_queued s") simp_all

lemma drain_provisional_queue:
  "provisional_only s \<Longrightarrow> \<not> sv_stopped s \<Longrightarrow> sv_await s = None \<Longrightarrow>
   sv_queued (drain_queue deps d es s) = []"
proof (induction es arbitrary: s)
  case (Cons e es)
  let ?t = "s\<lparr>sv_queued := es\<rparr>"
  let ?s = "fold_event deps d e ?t"
  have p: "provisional_only ?t" using Cons.prems by (simp add: provisional_only_def)
  then have "folds ?t (foldProvisional deps e ?t)" by (intro foldProvisional_folds) (simp add: provisional_only_def)
  then have "folds ?t ?s" using p by (simp add: fold_event_def provisional_only_def folds_def)
  moreover have "supervising s" using Cons.prems by (simp add: provisional_only_def supervising_def)
  ultimately show ?case using Cons.IH [of ?s] Cons.prems by (simp add: folds_def provisional_only_def)
qed simp

lemma drain_until_empty_stopped:
  assumes "sv_stopped s" and "sv_queued s \<noteq> []"
  shows "drain_until_empty deps d s = None"
proof (rule ccontr)
  assume "drain_until_empty deps d s \<noteq> None"
  then obtain s' where s': "drain_until_empty deps d s = Some s'" by blast
  have "e = deps \<and> f = d \<longrightarrow> \<not> (sv_stopped t \<and> sv_queued t \<noteq> [])" if "drain_until_empty e f t = Some t'" for e f t t'
  proof (rule drain_until_empty.raw_induct [OF _ that, where P = "\<lambda>e f t t'. e = deps \<and> f = d \<longrightarrow> \<not> (sv_stopped t \<and> sv_queued t \<noteq> [])"])
    fix rec e f t t'
    assume "\<And>e f t t'. rec e f t = Some t' \<Longrightarrow> e = deps \<and> f = d \<longrightarrow> \<not> (sv_stopped t \<and> sv_queued t \<noteq> [])"
      and "(let s' = drain_queue e f (sv_queued t) t in if sv_queued s' \<noteq> [] then rec e f s' else Some s') = Some t'"
    then show "e = deps \<and> f = d \<longrightarrow> \<not> (sv_stopped t \<and> sv_queued t \<noteq> [])"
      by (metis drain_stopped option.distinct(1))
  qed
  with s' assms show False by blast
qed

lemma drain_until_empty_returns:
  assumes "provisional_only s" and "sv_await s = None" and "\<not> sv_stopped s \<or> sv_queued s = []"
  shows "drain_until_empty deps d s \<noteq> None"
proof -
  have "sv_queued (drain_queue deps d (sv_queued s) s) = []"
    using assms drain_provisional_queue by (cases "sv_queued s = []") auto
  then show ?thesis by (subst drain_until_empty.simps) (simp add: Let_def)
qed

text \<open>The fresh snapshot of a strengthening passes its checks.\<close>

definition strengthens :: "supervisor \<Rightarrow> sup_binding \<Rightarrow> snapshot \<Rightarrow> bool" where
  "strengthens s b sn \<longleftrightarrow>
     (case (pv_binding (sv_prov s), pv_lifecycle (sv_prov s)) of
        (Some prov, Some retained) \<Rightarrow>
          strengthening_cause prov retained (pv_native (sv_prov s)) b
            (classifyProvisionalSnapshotTarget sn (vi_paneId (pb_identity prov))) = None
      | _ \<Rightarrow> False)"

lemma strengthen_answered_returns:
  assumes g: "sup_inv s" and n: "sv_await s = None"
  shows "strengthen_answered deps b pub (AnsSnapshot sn) s = None \<longleftrightarrow> sv_stopped s \<and> sv_queued s \<noteq> [] \<and> strengthens s b sn"
proof (cases "strengthens s b sn")
  case True
  then obtain prov retained where p: "pv_binding (sv_prov s) = Some prov" "pv_lifecycle (sv_prov s) = Some retained"
    and t: "strengthening_cause prov retained (pv_native (sv_prov s)) b
        (classifyProvisionalSnapshotTarget sn (vi_paneId (pb_identity prov))) = None"
    by (auto simp: strengthens_def split: option.splits)
  let ?p = "strengthen_prepare sn b (evidence_occupant (classifyProvisionalSnapshotTarget sn (vi_paneId (pb_identity prov)))) s"
  have f: "sv_stopped ?p = sv_stopped s" "sv_queued ?p = sv_queued s" "sv_await ?p = sv_await s"
    by (simp_all add: strengthen_prepare_def Let_def)
  have "good s s" using g by (rule good_start)
  then have "\<not> sv_bound s" using p identity_not_provisional bound_identity by fastforce
  then have o: "provisional_only ?p" using p by (simp add: provisional_only_def strengthen_prepare_def Let_def)
  have "drain_until_empty deps e ?p = None \<longleftrightarrow> sv_stopped s \<and> sv_queued s \<noteq> []" for e
    using drain_until_empty_stopped [of ?p deps e] drain_until_empty_returns [OF o, of deps e] f n by auto
  then show ?thesis using p t True by (simp add: strengthen_answered_def Let_def)
qed (auto simp: strengthens_def strengthen_answered_def Let_def split: option.splits)

text \<open>
  C37. Every input of a supervisor returns, with one exception: the snapshot of a strengthening arrives
  after the supervisor was stopped while admitted events still wait. The loop that drains them then has
  nothing it may fold and no await that lets another task run.
\<close>

theorem inputs_return_unless_stopped_strengthening:
  assumes "supervised deps s"
  shows "sup_do deps x s = None \<longleftrightarrow>
    (\<exists>b pub sn. sv_await s = Some (AwStrengthen b pub) \<and> x = InAnswer (AnsSnapshot sn)
       \<and> sv_stopped s \<and> sv_queued s \<noteq> [] \<and> strengthens s b sn)"
proof (cases "\<exists>a w. x = InAnswer a \<and> sv_await s = Some w")
  case True
  then obtain a w where x: "x = InAnswer a" and w: "sv_await s = Some w" by blast
  let ?s = "s\<lparr>sv_await := None\<rparr>"
  have "good s s" using supervised_inv [OF assms] by (rule good_start)
  then have "sup_inv ?s" using resume_ready(1) w by (auto simp: ready_def good_def)
  then have r: "strengthen_answered deps b pub (AnsSnapshot sn) ?s = None \<longleftrightarrow> sv_stopped s \<and> sv_queued s \<noteq> [] \<and> strengthens s b sn" for b pub sn
    using strengthen_answered_returns [of ?s] by (simp add: strengthens_def cong: option.case_cong)
  have "resume_with deps w a ?s = None \<longleftrightarrow>
      (\<exists>b pub sn. w = AwStrengthen b pub \<and> a = AnsSnapshot sn \<and> sv_stopped s \<and> sv_queued s \<noteq> [] \<and> strengthens s b sn)"
    by (cases w; cases a) (simp_all add: resume_with_def r, simp_all add: strengthen_answered_def Let_def)
  then show ?thesis using x w by (simp add: sup_do_def)
next
  case False
  then show ?thesis by (cases x) (auto simp: sup_do_def split: option.splits)
qed

text \<open>A strengthening whose snapshot is pending, one event admitted, then a shutdown.\<close>

definition agy_event :: socket_event where
  "agy_event = \<lparr>so_kind = PaneUpdated, so_data = JObj [(''pane'', agy_pane ''working'' 4)], so_paneId = ''p1'',
     so_pane = Some (oc_pane (agy_occupant StWorking 4 (Some agy_session))), so_previous = None, so_exit = None\<rparr>"

definition agy_stopped :: supervisor where
  "agy_stopped = shutdown (agy_supervisor\<lparr>sv_prov := (sv_prov agy_supervisor)\<lparr>pv_strengthening := True\<rparr>, sv_bindPending := True,
     sv_await := Some (AwStrengthen agy_exact published_ok), sv_queued := [agy_event], sv_chain := [TkFold]\<rparr>)"

lemma agy_stopped_trace:
  "sup_trace agy_deps [InStrengthen agy_exact published_ok, InTask, InEvent agy_event, InShutdown] agy_supervisor = Some agy_stopped"
  by (simp add: sup_do_def agy_stopped_def agy_supervisor_def initial_supervisor_def strengthen_def agy_exact_def agy_provisional_def
      enqueue_def run_task_def strengthen_start_def begin_await_def onEvent_def)

lemma agy_stopped_supervised: "supervised agy_deps agy_stopped"
proof (rule supervised_trace [OF agy_supervised _ agy_stopped_trace])
  have "session_usable agy_session" by code_simp
  then show "list_all input_ok [InStrengthen agy_exact published_ok, InTask, InEvent agy_event, InShutdown]"
    by (simp add: binding_ok_def agy_exact_def identity_ok_def event_ok_def agy_event_def pane_ok_def agy_occupant_def usable_words
        isPaneRecordEvent_def MAX_SAFE_INTEGER_def)
qed

theorem inputs_return_unless_stopped_strengthening_witness:
  "sup_do agy_deps (InAnswer (AnsSnapshot (agy_snapshot ''working'' 4 [agy_session_json]))) agy_stopped = None"
  using inputs_return_unless_stopped_strengthening [OF agy_stopped_supervised]
  by (simp add: agy_stopped_def shutdown_def stop_with_def Let_def stop_timers_def clearReviewTimer_def isSettled_def
      resolve_settled_def strengthens_def agy_supervisor_def initial_supervisor_def agy_provisional_def agy_classified
      strengthening_cause_def occupant_cause_def evidence_occupant_def provisionalOccupantContinuity_def agy_occupant_def
      sup_identity_of_def sameSupervisedIdentity_def agy_exact_def agy_session_def)

section \<open>Reconciliation hysteresis\<close>

datatype read_outcome = ReadFailed reconciliation_failure | ReadOk

fun mark_read :: "sup_deps \<Rightarrow> read_outcome \<Rightarrow> supervisor \<Rightarrow> supervisor" where
  "mark_read deps (ReadFailed r) s = markReconciliationFailure deps r s"
| "mark_read deps ReadOk s = markReconciliationSuccess deps s"

text \<open>The reference: the failures since the last success, and what is announced along the way.\<close>

fun failing :: "nat \<Rightarrow> read_outcome list \<Rightarrow> nat" where
  "failing n [] = n"
| "failing n (ReadOk # xs) = failing 0 xs"
| "failing n (ReadFailed r # xs) = failing (Suc n) xs"

fun announced :: "nat \<Rightarrow> read_outcome list \<Rightarrow> event_type list" where
  "announced n [] = []"
| "announced n (ReadOk # xs) = (if 3 \<le> n then EvReconciliationRecovered # announced 0 xs else announced 0 xs)"
| "announced n (ReadFailed r # xs) =
     (if Suc n = 3 then EvReconciliationDegraded # announced (Suc n) xs else announced (Suc n) xs)"

definition health_at :: "nat \<Rightarrow> supervisor \<Rightarrow> bool" where
  "health_at n s \<longleftrightarrow> he_failures (sv_health s) = min MAX_SAFE_INTEGER n \<and> (he_degraded (sv_health s) \<longleftrightarrow> 0 < n)
     \<and> (he_announced (sv_health s) \<longleftrightarrow> 3 \<le> n)"

definition logged :: "event_type list \<Rightarrow> supervisor \<Rightarrow> supervisor \<Rightarrow> bool" where
  "logged ts s s' \<longleftrightarrow> (\<exists>es. map se_type es = ts \<and> sv_log s' = fold log_push es (sv_log s))"

lemma logged_trans: "logged ts s t \<Longrightarrow> logged us t u \<Longrightarrow> logged (ts @ us) s u"
proof -
  assume "logged ts s t" and "logged us t u"
  then obtain es fs where "map se_type es = ts" "sv_log t = fold log_push es (sv_log s)"
      "map se_type fs = us" "sv_log u = fold log_push fs (sv_log t)"
    by (auto simp: logged_def)
  then show ?thesis unfolding logged_def by (intro exI [of _ "es @ fs"]) simp
qed

lemma emit_effect:
  "sv_health (emit deps t summary details verdict s) = sv_health s \<and> logged [t] s (emit deps t summary details verdict s)"
proof -
  let ?e = "make_event (sd_bounded deps) (''sev_'' @ sd_uuid deps (sv_ids s)) t (sv_now s) summary details"
  have "sv_log (emit deps t summary details verdict s) = fold log_push [?e] (sv_log s)"
    by (simp add: emit_def Let_def publish_text_def put_out_def persistEmittedEvent_def split: prod.splits option.splits)
  moreover have "se_type ?e = t" by (simp add: make_event_def)
  moreover have "sv_health (emit deps t summary details verdict s) = sv_health s"
    by (simp add: emit_def Let_def publish_text_def put_out_def persistEmittedEvent_def split: prod.splits option.splits)
  ultimately show ?thesis unfolding logged_def by (intro conjI exI [of _ "[?e]"]) simp_all
qed

lemma refresh_effect [simp]: "sv_health (refreshActiveState s) = sv_health s" "sv_log (refreshActiveState s) = sv_log s"
  by (simp_all add: refreshActiveState_def)

lemma mark_failed:
  assumes "health_at n s"
  shows "health_at (Suc n) (markReconciliationFailure deps r s)
    \<and> logged (if Suc n = 3 then [EvReconciliationDegraded] else []) s (markReconciliationFailure deps r s)"
proof -
  define u where "u = (let s1 = note_failure r s in
    if he_degraded (sv_health s1) then publish_text (''authoritative reconciliation remains degraded ('' @ failure_name r @ '')'') s1
    else refreshActiveState (s1\<lparr>sv_health := (sv_health s1)\<lparr>he_degraded := True\<rparr>\<rparr>))"
  have u: "he_failures (sv_health u) = min MAX_SAFE_INTEGER (Suc n)" "he_degraded (sv_health u)"
      "he_announced (sv_health u) \<longleftrightarrow> 3 \<le> n" "sv_log u = sv_log s"
    using assms by (auto simp: u_def Let_def note_failure_def health_at_def publish_text_def put_out_def MAX_SAFE_INTEGER_def)
  let ?v = "u\<lparr>sv_health := (sv_health u)\<lparr>he_announced := True\<rparr>\<rparr>"
  have m: "markReconciliationFailure deps r s =
      (if he_announced (sv_health u) \<or> he_failures (sv_health u) < 3 then u
       else emit deps EvReconciliationDegraded ''authoritative supervision reconciliation is degraded and will retry''
         (Some [(''reason'', DetStr (failure_name r))]) None ?v)"
    unfolding markReconciliationFailure_def u_def RECONCILIATION_DEGRADED_THRESHOLD_def Let_def by simp
  have c: "(he_announced (sv_health u) \<or> he_failures (sv_health u) < 3) \<longleftrightarrow> Suc n \<noteq> 3"
    using u by (auto simp: MAX_SAFE_INTEGER_def)
  show ?thesis
  proof (cases "Suc n = 3")
    case True
    have "logged [EvReconciliationDegraded] s (emit deps EvReconciliationDegraded x y z ?v)" for x y z
      using emit_effect [of deps EvReconciliationDegraded x y z ?v] u by (simp add: logged_def)
    then show ?thesis using m c True u emit_effect [of deps EvReconciliationDegraded _ _ _ ?v] by (simp add: health_at_def)
  next
    case False
    have "logged [] s u" using u by (simp add: logged_def)
    then show ?thesis using m c False u by (auto simp: health_at_def)
  qed
qed

lemma mark_succeeded:
  assumes "health_at n s"
  shows "health_at 0 (markReconciliationSuccess deps s)
    \<and> logged (if 3 \<le> n then [EvReconciliationRecovered] else []) s (markReconciliationSuccess deps s)"
proof -
  define u where "u = refreshActiveState ((note_success s)\<lparr>sv_health := (sv_health (note_success s))\<lparr>he_degraded := False\<rparr>\<rparr>)"
  let ?v = "u\<lparr>sv_health := (sv_health u)\<lparr>he_announced := False\<rparr>\<rparr>"
  have m: "markReconciliationSuccess deps s =
      (if \<not> he_degraded (sv_health (note_success s)) then note_success s
       else if \<not> he_announced (sv_health u) then u
       else emit deps EvReconciliationRecovered ''authoritative supervision reconciliation recovered'' None None ?v)"
    unfolding markReconciliationSuccess_def u_def Let_def by simp
  have u: "he_failures (sv_health u) = 0" "\<not> he_degraded (sv_health u)" "he_announced (sv_health u) \<longleftrightarrow> 3 \<le> n" "sv_log u = sv_log s"
      "he_degraded (sv_health (note_success s)) \<longleftrightarrow> 0 < n"
    using assms by (simp_all add: u_def note_success_def health_at_def)
  have z: "health_at 0 (note_success s) \<and> logged [] s (note_success s)" if "n = 0"
    using assms that by (simp add: health_at_def note_success_def logged_def)
  have e: "logged [EvReconciliationRecovered] s (emit deps EvReconciliationRecovered x y w ?v)" for x y w
    using emit_effect [of deps EvReconciliationRecovered x y w ?v] u by (simp add: logged_def)
  show ?thesis
    using m u z e emit_effect [of deps EvReconciliationRecovered _ _ _ ?v]
    by (cases "n = 0"; cases "3 \<le> n") (simp_all add: health_at_def logged_def)
qed

lemma mark_reads:
  "health_at n s \<Longrightarrow> logged (announced n xs) s (fold (mark_read deps) xs s) \<and> health_at (failing n xs) (fold (mark_read deps) xs s)"
proof (induction n xs arbitrary: s rule: announced.induct)
  case (1 n)
  then show ?case by (simp add: logged_def)
next
  case (2 n xs)
  let ?s = "markReconciliationSuccess deps s"
  have h: "health_at 0 ?s" and l: "logged (if 3 \<le> n then [EvReconciliationRecovered] else []) s ?s"
    using mark_succeeded [OF 2(3)] by blast+
  have "logged (announced 0 xs) ?s (fold (mark_read deps) xs ?s) \<and> health_at (failing 0 xs) (fold (mark_read deps) xs ?s)"
    using 2(1,2) h by (cases "3 \<le> n") simp_all
  then show ?case using logged_trans [OF l] by (cases "3 \<le> n") auto
next
  case (3 n r xs)
  let ?s = "markReconciliationFailure deps r s"
  have h: "health_at (Suc n) ?s" and l: "logged (if Suc n = 3 then [EvReconciliationDegraded] else []) s ?s"
    using mark_failed [OF 3(3)] by blast+
  have "logged (announced (Suc n) xs) ?s (fold (mark_read deps) xs ?s) \<and> health_at (failing (Suc n) xs) (fold (mark_read deps) xs ?s)"
    using 3(1,2) h by (cases "Suc n = 3") simp_all
  then show ?case using logged_trans [OF l] by (cases "Suc n = 3") auto
qed

text \<open>
  C38. Reconciliation trouble is announced with hysteresis: over any sequence of reads, the recorded events
  are exactly those of the reference, one at the third consecutive failure of a run and one at the success
  that ends a run announced, and the health fields are those of the failures since the last success.
\<close>

theorem reconciliation_hysteresis:
  assumes "health_at 0 s"
  shows "logged (announced 0 xs) s (fold (mark_read deps) xs s) \<and> health_at (failing 0 xs) (fold (mark_read deps) xs s)"
  using assms by (rule mark_reads)

theorem reconciliation_hysteresis_witness:
  "logged [EvReconciliationDegraded, EvReconciliationRecovered] agy_supervisor
     (fold (mark_read agy_deps) [ReadFailed RfRequestFailed, ReadFailed RfRequestFailed, ReadFailed RfConnectFailed,
        ReadFailed RfRequestFailed, ReadOk, ReadFailed RfRequestFailed] agy_supervisor)"
proof -
  have "health_at 0 agy_supervisor" by (simp add: health_at_def agy_supervisor_def initial_supervisor_def)
  from reconciliation_hysteresis [OF this, of "[ReadFailed RfRequestFailed, ReadFailed RfRequestFailed, ReadFailed RfConnectFailed,
        ReadFailed RfRequestFailed, ReadOk, ReadFailed RfRequestFailed]" agy_deps]
  show ?thesis by simp
qed

end
