(* ===== verification/Handoff_Gate.thy ===== *)
theory Handoff_Gate
  imports Handoff_Artifact Supervisor_State
begin

text \<open>
  The completion gate of delegated runs (\<open>createHandoffGate\<close> in \<open>src/handoff-gate.ts\<close>) over the sidecar
  store of theory \<open>Handoff\<close> and the artifact reader of theory \<open>Handoff_Artifact\<close>. A bound run is a
  shared mutable object that outlives its entry in the gate's map, so the gate keeps its objects in a
  list and the map points into it. Every durable step is an edit of the state document under the run's
  lock; the outcomes of the lock, the read and the write are the argument \<open>handoff_io\<close>.
\<close>

section \<open>The members of the state document the gate reads\<close>

text \<open>
  \<open>version\<close> and \<open>attempts\<close> are the non-negative integers the document starts with at zero and only the
  edits below advance.
\<close>

fun nat_of :: "jsval \<Rightarrow> nat" where
  "nat_of (JNum q) = nat \<lfloor>q\<rfloor>"
| "nat_of v = 0"

definition st_sha256 :: "jsval \<Rightarrow> string option" where
  "st_sha256 v = opt_str (jget ''sha256'' (jget ''artifact'' v))"

definition st_version :: "jsval \<Rightarrow> nat" where
  "st_version v = nat_of (jget ''version'' (jget ''artifact'' v))"

definition st_attempts :: "jsval \<Rightarrow> nat" where
  "st_attempts v = nat_of (jget ''attempts'' (jget ''repair'' v))"

text \<open>The version of \<open>repair.fence\<close>, when it is not null.\<close>

definition st_fence :: "jsval \<Rightarrow> nat option" where
  "st_fence v = (let f = jget ''fence'' (jget ''repair'' v) in if f = JNull then None else Some (nat_of (jget ''version'' f)))"

definition st_lifecycle :: "jsval \<Rightarrow> string" where
  "st_lifecycle v = str_of (jget ''state'' (jget ''lifecycle'' v))"

section \<open>Bound runs\<close>

record accepted_artifact =
  aa_sha256 :: string
  aa_bytes :: nat
  aa_version :: nat
  aa_status :: "string option"

record gate_run =
  gr_allocation :: allocation
  gr_identity :: sup_identity
  gr_cycleOpen :: bool
  gr_accepted :: "accepted_artifact option"
  gr_lifecycle :: string
  gr_lastValidation :: "(validation_state \<times> string option) option"
  gr_attempts :: nat
  gr_fenceVersion :: "nat option"

text \<open>The gate: the map from identity keys to run objects, the objects, the runs whose history capture
  has failed once, and the journal.\<close>

record handoff_gate =
  hg_runs :: "(string \<times> nat) list"
  hg_objects :: "gate_run list"
  hg_captureFailed :: "string list"
  hg_log :: "(string \<times> string) list"

definition empty_gate :: handoff_gate where
  "empty_gate = \<lparr>hg_runs = [], hg_objects = [], hg_captureFailed = [], hg_log = []\<rparr>"

definition mirror :: "jsval \<Rightarrow> gate_run \<Rightarrow> gate_run" where
  "mirror v r = r\<lparr>gr_accepted := map_option (\<lambda>h. \<lparr>aa_sha256 = h, aa_bytes = nat_of (jget ''bytes'' (jget ''artifact'' v)),
       aa_version = st_version v, aa_status = opt_str (jget ''status'' (jget ''artifact'' v))\<rparr>) (st_sha256 v),
     gr_lifecycle := st_lifecycle v, gr_attempts := st_attempts v, gr_fenceVersion := st_fence v\<rparr>"

definition set_object :: "nat \<Rightarrow> (gate_run \<Rightarrow> gate_run) \<Rightarrow> handoff_gate \<Rightarrow> handoff_gate" where
  "set_object i f g = g\<lparr>hg_objects := (hg_objects g)[i := f (hg_objects g ! i)]\<rparr>"

definition remembered :: "nat \<Rightarrow> validation \<Rightarrow> handoff_gate \<Rightarrow> handoff_gate" where
  "remembered i x = set_object i (\<lambda>r. r\<lparr>gr_lastValidation := Some (vd_state x, vd_reason x)\<rparr>)"

section \<open>Edits of the state document\<close>

definition bind_edit :: "sup_identity \<Rightarrow> string option \<Rightarrow> (nat \<times> nat) option \<Rightarrow> jsval \<Rightarrow> jsval" where
  "bind_edit i agentId watermark v =
     (let v1 = edit ''child'' (\<lambda>c. jput ''agentId'' (case agentId of None \<Rightarrow> JNull | Some a \<Rightarrow> JStr a)
            (jput ''terminalId'' (JStr (si_terminalId i)) (jput ''paneId'' (JStr (si_paneId i)) c))) v;
          v2 = jput ''nativeSession'' (session_value (si_session i)) v1
      in case watermark of None \<Rightarrow> v2
         | Some (q, r) \<Rightarrow> edit ''lifecycle'' (jput ''watermark''
             (JObj [(''stateChangeSeq'', JNum (of_nat q)), (''revision'', JNum (of_nat r))])) v2)"

text \<open>The artifact record of an accepted content; the anchor and the history are those of its first observation.\<close>

definition accepted_record :: "handoff_artifact \<Rightarrow> jsval option \<Rightarrow> jsval \<Rightarrow> jsval" where
  "accepted_record a history r =
     (let r1 = jput ''sha256'' (JStr (ha_sha256 a)) r;
          r2 = jput ''bytes'' (JNum (of_nat (ha_bytes a))) r1;
          r3 = jput ''version'' (JNum (of_nat (Suc (nat_of (jget ''version'' r2))))) r2;
          r4 = jput ''status'' (JStr (hd_status (ha_document a))) r3;
          r5 = jput ''mtimeMs'' (JNum (of_int (ha_mtimeMs a))) r4
      in case history of None \<Rightarrow> jdel ''traceHistory'' r5 | Some h \<Rightarrow> jput ''traceHistory'' h r5)"

definition accept_edit :: "handoff_artifact \<Rightarrow> jsval option \<Rightarrow> jsval \<Rightarrow> jsval" where
  "accept_edit a history v =
     (if st_sha256 v = Some (ha_sha256 a) then v else edit ''artifact'' (accepted_record a history) v)"

definition HANDOFF_MAX_REPAIR_ATTEMPTS :: nat where
  "HANDOFF_MAX_REPAIR_ATTEMPTS = 8"

text \<open>Whether a repair prompt for the current version may be sent, and the edit that fences it.\<close>

definition repair_allowed :: "jsval \<Rightarrow> bool" where
  "repair_allowed v \<longleftrightarrow> st_attempts v < HANDOFF_MAX_REPAIR_ATTEMPTS \<and> st_fence v \<noteq> Some (st_version v)"

definition repair_edit :: "string \<Rightarrow> jsval \<Rightarrow> jsval" where
  "repair_edit token v =
     (if repair_allowed v
      then edit ''repair'' (\<lambda>r. jput ''fence'' (JObj [(''version'', JNum (of_nat (st_version v))), (''token'', JStr token)])
             (jput ''attempts'' (JNum (of_nat (Suc (st_attempts v)))) r)) v
      else v)"

definition outcome_edit :: "string \<Rightarrow> string option \<Rightarrow> jsval \<Rightarrow> jsval" where
  "outcome_edit outcome detail =
     edit ''lifecycle'' (\<lambda>l. let l1 = jput ''state'' (JStr outcome) l in
       case detail of None \<Rightarrow> jdel ''detail'' l1 | Some d \<Rightarrow> jput ''detail'' (JStr (take 256 d)) l1)"

definition mark_edit :: "string \<Rightarrow> jsval \<Rightarrow> jsval" where
  "mark_edit mark = edit ''lifecycle'' (jput ''detail'' (JStr mark))"

section \<open>Operations\<close>

text \<open>An edit through the gate: the committed document is mirrored into the run object.\<close>

definition run_update ::
  "ambient \<Rightarrow> handoff_io \<Rightarrow> nat \<Rightarrow> (jsval \<Rightarrow> jsval) \<Rightarrow> handoff_gate \<Rightarrow> handoff_store
   \<Rightarrow> handoff_gate \<times> handoff_store \<times> (handoff_error, unit) result" where
  "run_update am io i f g s =
     (case updateHandoffState am io (al_runId (gr_allocation (hg_objects g ! i))) f s of
        (s1, Inl e) \<Rightarrow> (g, s1, Inl e)
      | (s1, Inr v) \<Rightarrow> (set_object i (mirror v) g, s1, Inr ()))"

text \<open>\<open>bind\<close>: the identity is durable before the run is visible to \<open>lookup\<close>.\<close>

definition gate_bind ::
  "ambient \<Rightarrow> handoff_io \<Rightarrow> allocation \<Rightarrow> sup_identity \<Rightarrow> string option \<Rightarrow> (nat \<times> nat) option \<Rightarrow> handoff_gate \<Rightarrow> handoff_store
   \<Rightarrow> handoff_gate \<times> handoff_store \<times> (handoff_error, nat) result" where
  "gate_bind am io a i agentId watermark g s =
     (case updateHandoffState am io (al_runId a) (bind_edit i agentId watermark) s of
        (s1, Inl e) \<Rightarrow> (g, s1, Inl e)
      | (s1, Inr v) \<Rightarrow>
          (let r = mirror v \<lparr>gr_allocation = a, gr_identity = i, gr_cycleOpen = (st_sha256 v = None), gr_accepted = None,
                 gr_lifecycle = ''awaiting_handoff'', gr_lastValidation = None, gr_attempts = 0, gr_fenceVersion = None\<rparr>
           in (g\<lparr>hg_runs := al_put (identityKey i) (length (hg_objects g)) (hg_runs g), hg_objects := hg_objects g @ [r]\<rparr>,
               s1, Inr (length (hg_objects g)))))"

definition gate_find :: "sup_identity \<Rightarrow> handoff_gate \<Rightarrow> nat option" where
  "gate_find i g = map_of (hg_runs g) (identityKey i)"

definition gate_drop :: "nat \<Rightarrow> handoff_gate \<Rightarrow> handoff_gate" where
  "gate_drop i g =
     (let key = identityKey (gr_identity (hg_objects g ! i)) in
      if map_of (hg_runs g) key = Some i then g\<lparr>hg_runs := al_del key (hg_runs g)\<rparr> else g)"

definition gate_notePane :: "nat \<Rightarrow> string \<Rightarrow> handoff_gate \<Rightarrow> handoff_gate" where
  "gate_notePane i pane = set_object i (\<lambda>r. r\<lparr>gr_identity := (gr_identity r)\<lparr>si_paneId := pane\<rparr>\<rparr>)"

definition gate_beginCycle :: "nat \<Rightarrow> handoff_gate \<Rightarrow> handoff_gate" where
  "gate_beginCycle i = set_object i (\<lambda>r. r\<lparr>gr_cycleOpen := True\<rparr>)"

definition validationFailure :: "artifact_error \<Rightarrow> validation_state option" where
  "validationFailure e = (case e of ArtifactMissing \<Rightarrow> Some VsMissing | ArtifactInvalid _ \<Rightarrow> Some VsInvalid
     | ArtifactOversized \<Rightarrow> Some VsOversized | ArtifactUntrusted \<Rightarrow> Some VsUntrusted | ArtifactReadFailed \<Rightarrow> None)"

definition failure_reason :: "artifact_error \<Rightarrow> string option" where
  "failure_reason e = (case e of ArtifactInvalid r \<Rightarrow> Some (take 64 r) | _ \<Rightarrow> None)"

text \<open>What a capture of the child's native history did: it threw, with a code or not, or it answered.\<close>

datatype capture = CaptureThrew "string option" | CaptureAnswered "jsval option"

text \<open>\<open>/^[\w.:-]{1,64}$/u\<close>\<close>

definition bounded_reason :: "string \<Rightarrow> bool" where
  "bounded_reason s \<longleftrightarrow> 1 \<le> length s \<and> length s \<le> 64
     \<and> list_all (\<lambda>c. is_lower c \<or> is_upper c \<or> is_digit c \<or> c \<in> set ''_.:-'') s"

definition capture_reason :: "capture \<Rightarrow> string" where
  "capture_reason c = (case c of CaptureAnswered _ \<Rightarrow> ''capture_undefined''
     | CaptureThrew (Some code) \<Rightarrow> if bounded_reason code then ''capture_threw:'' @ code else ''capture_threw''
     | CaptureThrew None \<Rightarrow> ''capture_threw'')"

text \<open>
  \<open>captureHistory\<close>: the state is read without the lock, and the capture is asked for the child's recorded
  workspace. \<open>cap\<close> is absent when the host installs no capture.
\<close>

definition captureHistory ::
  "handoff_io \<Rightarrow> (jsval \<Rightarrow> capture) option \<Rightarrow> nat \<Rightarrow> handoff_gate \<Rightarrow> handoff_store \<Rightarrow> handoff_gate \<times> jsval option" where
  "captureHistory io cap i g s =
     (case cap of None \<Rightarrow> (g, None)
      | Some f \<Rightarrow>
          (let runId = al_runId (gr_allocation (hg_objects g ! i));
               c = (case readHandoffState io runId s of
                      Inl e \<Rightarrow> CaptureThrew (Some (case e of HandoffUnavailable \<Rightarrow> ''HANDOFF_UNAVAILABLE'' | HandoffStoreFailed _ \<Rightarrow> ''HANDOFF_STORE_FAILED''))
                    | Inr v \<Rightarrow> f (jget ''workspace'' (jget ''child'' v)));
               history = (case c of CaptureAnswered h \<Rightarrow> h | CaptureThrew _ \<Rightarrow> None)
           in if history = None \<and> runId \<notin> set (hg_captureFailed g)
              then (g\<lparr>hg_captureFailed := hg_captureFailed g @ [runId], hg_log := hg_log g @ [(runId, capture_reason c)]\<rparr>, history)
              else (g, history)))"

text \<open>
  \<open>validate\<close> in the three stretches between which the code awaits: the artifact and the history are read;
  the state document is edited under the lock; the verdict is recorded. A cycle may be opened by another
  task between any two of them.
\<close>

datatype validate_start =
    VrVerdict validation
  | VrThrew
  | VrArtifact handoff_artifact "jsval option"

definition failed_read :: "artifact_error \<Rightarrow> nat \<Rightarrow> handoff_gate \<Rightarrow> handoff_gate \<times> validate_start" where
  "failed_read e i g =
     (case validationFailure e of
        None \<Rightarrow> (g, VrThrew)
      | Some st \<Rightarrow> (let x = \<lparr>vd_state = st, vd_reason = failure_reason e, vd_artifact = None\<rparr> in (remembered i x g, VrVerdict x)))"

definition validate_read ::
  "ambient \<Rightarrow> handoff_io \<Rightarrow> artifact_io \<Rightarrow> (jsval \<Rightarrow> capture) option \<Rightarrow> nat \<Rightarrow> handoff_gate \<Rightarrow> handoff_store
   \<Rightarrow> handoff_gate \<times> validate_start" where
  "validate_read am io aio cap i g s =
     (let r = hg_objects g ! i in
      case readHandoffArtifact am (gr_allocation r) aio of
        Inl e \<Rightarrow> failed_read e i g
      | Inr a \<Rightarrow>
          if map_option aa_sha256 (gr_accepted r) = Some (ha_sha256 a) then (g, VrArtifact a None)
          else (case captureHistory io cap i g s of (g1, h) \<Rightarrow> (g1, VrArtifact a h)))"

text \<open>\<open>stale\<close> as the edit computes it: the recorded content, seen while a cycle is open.\<close>

definition edit_stale :: "handoff_artifact \<Rightarrow> gate_run \<Rightarrow> jsval \<Rightarrow> bool" where
  "edit_stale a r v \<longleftrightarrow> st_sha256 v = Some (ha_sha256 a) \<and> gr_cycleOpen r"

definition recorded_state :: "string \<Rightarrow> handoff_store \<Rightarrow> jsval" where
  "recorded_state runId s = (case rd_state (run_of s runId) of None \<Rightarrow> JUndef
     | Some f \<Rightarrow> (case sc_value f of None \<Rightarrow> JUndef | Some v \<Rightarrow> v))"

definition validate_store ::
  "ambient \<Rightarrow> handoff_io \<Rightarrow> handoff_artifact \<Rightarrow> jsval option \<Rightarrow> nat \<Rightarrow> handoff_gate \<Rightarrow> handoff_store
   \<Rightarrow> handoff_store \<times> (jsval \<times> bool) option" where
  "validate_store am io a h i g s =
     (let r = hg_objects g ! i; runId = al_runId (gr_allocation r) in
      case updateHandoffState am io runId (accept_edit a h) s of
        (s1, Inl e) \<Rightarrow> (s1, None)
      | (s1, Inr v) \<Rightarrow> (s1, Some (v, edit_stale a r (recorded_state runId s))))"

definition plain_verdict :: "validation_state \<Rightarrow> validation" where
  "plain_verdict st = \<lparr>vd_state = st, vd_reason = None, vd_artifact = None\<rparr>"

definition validate_finish ::
  "handoff_artifact \<Rightarrow> (jsval \<times> bool) option \<Rightarrow> nat \<Rightarrow> handoff_gate \<Rightarrow> handoff_gate \<times> validation" where
  "validate_finish a res i g =
     (case res of
        None \<Rightarrow> (let x = plain_verdict VsUnavailable in (remembered i x g, x))
      | Some (v, stale) \<Rightarrow>
          (let g1 = set_object i (mirror v) g in
           if stale then (let x = plain_verdict VsStale in (remembered i x g1, x))
           else let x = \<lparr>vd_state = VsAccepted, vd_reason = None, vd_artifact = Some (hd_status (ha_document a))\<rparr>
                in (remembered i x (set_object i (\<lambda>r. r\<lparr>gr_cycleOpen := False\<rparr>) g1), x)))"

text \<open>A validation no other task interleaves with; \<open>None\<close> is a thrown error that is no handoff error.\<close>

definition gate_validate ::
  "ambient \<Rightarrow> handoff_io \<Rightarrow> artifact_io \<Rightarrow> (jsval \<Rightarrow> capture) option \<Rightarrow> nat \<Rightarrow> handoff_gate \<Rightarrow> handoff_store
   \<Rightarrow> handoff_gate \<times> handoff_store \<times> validation option" where
  "gate_validate am io aio cap i g s =
     (case validate_read am io aio cap i g s of
        (g1, VrThrew) \<Rightarrow> (g1, s, None)
      | (g1, VrVerdict x) \<Rightarrow> (g1, s, Some x)
      | (g1, VrArtifact a h) \<Rightarrow>
          (case validate_store am io a h i g1 s of
             (s1, res) \<Rightarrow> (case validate_finish a res i g1 of (g2, x) \<Rightarrow> (g2, s1, Some x))))"

text \<open>\<open>beginRepair\<close>: the attempt and the fence are durable before the token is returned.\<close>

definition gate_beginRepair ::
  "ambient \<Rightarrow> handoff_io \<Rightarrow> string \<Rightarrow> nat \<Rightarrow> handoff_gate \<Rightarrow> handoff_store
   \<Rightarrow> handoff_gate \<times> handoff_store \<times> (handoff_error, (nat \<times> string) option) result" where
  "gate_beginRepair am io token i g s =
     (let v = recorded_state (al_runId (gr_allocation (hg_objects g ! i))) s in
      case run_update am io i (repair_edit token) g s of
        (g1, s1, Inl e) \<Rightarrow> (g1, s1, Inl e)
      | (g1, s1, Inr _) \<Rightarrow> (g1, s1, Inr (if repair_allowed v then Some (st_version v, token) else None)))"

definition gate_recordOutcome ::
  "ambient \<Rightarrow> handoff_io \<Rightarrow> nat \<Rightarrow> string \<Rightarrow> string option \<Rightarrow> handoff_gate \<Rightarrow> handoff_store
   \<Rightarrow> handoff_gate \<times> handoff_store \<times> (handoff_error, unit) result" where
  "gate_recordOutcome am io i outcome detail = run_update am io i (outcome_edit outcome detail)"

definition gate_markCycle ::
  "ambient \<Rightarrow> handoff_io \<Rightarrow> nat \<Rightarrow> string \<Rightarrow> handoff_gate \<Rightarrow> handoff_store
   \<Rightarrow> handoff_gate \<times> handoff_store \<times> (handoff_error, unit) result" where
  "gate_markCycle am io i mark = run_update am io i (mark_edit mark)"

text \<open>\<open>shutdown\<close>: the unresolved bound runs, in the order of the map; a failed write is swallowed.\<close>

definition shutdown_run :: "ambient \<Rightarrow> handoff_io \<Rightarrow> nat \<Rightarrow> handoff_gate \<times> handoff_store \<Rightarrow> handoff_gate \<times> handoff_store" where
  "shutdown_run am io i gs = (case gs of (g, s) \<Rightarrow>
     (case gate_recordOutcome am io i ''recovery_pending'' (Some ''manager_session_shutdown'') g s of (g1, s1, _) \<Rightarrow> (g1, s1)))"

definition gate_shutdown :: "ambient \<Rightarrow> handoff_io \<Rightarrow> handoff_gate \<Rightarrow> handoff_store \<Rightarrow> handoff_gate \<times> handoff_store" where
  "gate_shutdown am io g s =
     fold (shutdown_run am io) (filter (\<lambda>i. gr_lifecycle (hg_objects g ! i) = ''awaiting_handoff'') (map snd (hg_runs g))) (g, s)"

section \<open>What the other components see\<close>

record run_evidence =
  re_runId :: string
  re_path :: string
  re_state :: string
  re_validation :: "(validation_state \<times> string option) option"
  re_artifact :: "accepted_artifact option"
  re_repair :: "(nat \<times> nat option) option"

definition gate_evidence :: "gate_run \<Rightarrow> run_evidence" where
  "gate_evidence r = \<lparr>re_runId = al_runId (gr_allocation r), re_path = al_artifactPath (gr_allocation r), re_state = gr_lifecycle r,
     re_validation = gr_lastValidation r, re_artifact = gr_accepted r,
     re_repair = (if gr_attempts r = 0 then None else Some (gr_attempts r, gr_fenceVersion r))\<rparr>"

datatype ungated_reason = UrIdentityUnavailable | UrIdentityChanged | UrNoManagedRun | UrGateUnavailable

datatype handoff_inspection = Gated run_evidence | Ungated ungated_reason

definition projectHandoffEvidence ::
  "handoff_gate option \<Rightarrow> sup_identity option \<Rightarrow> ungated_reason \<Rightarrow> handoff_inspection" where
  "projectHandoffEvidence gate i absent =
     (case gate of None \<Rightarrow> Ungated UrGateUnavailable
      | Some g \<Rightarrow> (case i of None \<Rightarrow> Ungated absent
         | Some j \<Rightarrow> (case gate_find j g of None \<Rightarrow> Ungated UrNoManagedRun
            | Some n \<Rightarrow> Gated (gate_evidence (hg_objects g ! n)))))"

end
