(* ===== verification/Handoff_Gate_Properties.thy ===== *)
theory Handoff_Gate_Properties
  imports Handoff_Gate Handoff_Properties
begin

text \<open>
  What the completion gate guarantees over any sequence of its operations by any number of hosts, with
  any outcome of the locks, reads and writes: a repair prompt is fenced at most once per artifact
  version and a bounded number of times per run, and an artifact is consumed once.
\<close>

section \<open>Edits and what they leave\<close>

lemma is_record_jdel [simp]: "is_record (jdel k v)"
  by (cases v) simp_all

lemma jget_edit: "is_record v \<Longrightarrow> jget k (edit k' f v) = (if k = k' then f (jget k v) else jget k v)"
  by (simp add: edit_def jget_jput)

lemma is_record_edit [simp]: "is_record (edit k f v)"
  by (simp add: edit_def)

lemma valid_state_records:
  assumes "valid_state ep r v"
  shows "is_record v" "is_record (jget ''artifact'' v)" "is_record (jget ''repair'' v)" "is_record (jget ''lifecycle'' v)"
  using assms by (simp_all add: valid_state_def validArtifact_def)

lemma nat_of_of_nat: "nat_of (JNum (of_nat n)) = n"
  by simp

text \<open>The members the fence depends on.\<close>

definition fence_view :: "jsval \<Rightarrow> nat \<times> nat option \<times> nat" where
  "fence_view v = (st_attempts v, st_fence v, st_version v)"

lemma fence_view_other:
  "is_record v \<Longrightarrow> k \<noteq> ''artifact'' \<Longrightarrow> k \<noteq> ''repair'' \<Longrightarrow> fence_view (edit k f v) = fence_view v"
  "is_record v \<Longrightarrow> k \<noteq> ''artifact'' \<Longrightarrow> k \<noteq> ''repair'' \<Longrightarrow> fence_view (jput k x v) = fence_view v"
  by (simp_all add: fence_view_def st_attempts_def st_fence_def st_version_def jget_edit jget_jput)

lemma fence_view_bind: "is_record v \<Longrightarrow> fence_view (bind_edit i agentId w v) = fence_view v"
  by (simp add: bind_edit_def Let_def fence_view_other split: option.splits)

lemma fence_view_outcome: "is_record v \<Longrightarrow> fence_view (outcome_edit oc d v) = fence_view v"
  by (simp add: outcome_edit_def fence_view_other)

lemma fence_view_mark: "is_record v \<Longrightarrow> fence_view (mark_edit m v) = fence_view v"
  by (simp add: mark_edit_def fence_view_other)

lemma fence_view_select: "is_record v \<Longrightarrow> fence_view (select_candidate_state p k m v) = fence_view v"
  by (simp add: select_candidate_state_def fence_view_other)

lemma accepted_record_gets:
  assumes "is_record r"
  shows "jget ''sha256'' (accepted_record a h r) = JStr (ha_sha256 a)"
    "jget ''version'' (accepted_record a h r) = JNum (of_nat (Suc (nat_of (jget ''version'' r))))"
  by (cases h; simp only: accepted_record_def Let_def option.case; simp add: jget_jput jdel_gets assms del: of_nat_Suc)+

lemma accept_edit_effect:
  assumes "valid_state ep r v"
  shows "st_attempts (accept_edit a h v) = st_attempts v" "st_fence (accept_edit a h v) = st_fence v"
    "st_sha256 (accept_edit a h v) = Some (ha_sha256 a)"
    "st_version (accept_edit a h v) = (if st_sha256 v = Some (ha_sha256 a) then st_version v else Suc (st_version v))"
proof -
  note rec = valid_state_records [OF assms]
  note gets = jget_edit [OF rec(1)] accepted_record_gets [OF rec(2), of a h]
  show "st_attempts (accept_edit a h v) = st_attempts v" "st_fence (accept_edit a h v) = st_fence v"
    by (simp_all add: accept_edit_def st_attempts_def st_fence_def gets)
  show "st_sha256 (accept_edit a h v) = Some (ha_sha256 a)"
    by (simp add: accept_edit_def st_sha256_def gets)
  show "st_version (accept_edit a h v) = (if st_sha256 v = Some (ha_sha256 a) then st_version v else Suc (st_version v))"
    by (simp add: accept_edit_def st_version_def gets nat_of_of_nat del: nat_of.simps of_nat_Suc)
qed

lemma repair_edit_effect:
  assumes "valid_state ep r v"
  shows "st_version (repair_edit t v) = st_version v"
    "repair_allowed v \<Longrightarrow> st_attempts (repair_edit t v) = Suc (st_attempts v)"
    "repair_allowed v \<Longrightarrow> st_fence (repair_edit t v) = Some (st_version v)"
    "\<not> repair_allowed v \<Longrightarrow> repair_edit t v = v"
proof -
  note rec = valid_state_records [OF assms]
  note gets = jget_edit [OF rec(1)] jget_jput [OF rec(3)] jget_jput [OF is_record_jput]
  show "st_version (repair_edit t v) = st_version v"
    by (simp add: repair_edit_def st_version_def gets)
  show "repair_allowed v \<Longrightarrow> st_attempts (repair_edit t v) = Suc (st_attempts v)"
    by (simp add: repair_edit_def st_attempts_def gets nat_of_of_nat del: nat_of.simps of_nat_Suc)
  show "repair_allowed v \<Longrightarrow> st_fence (repair_edit t v) = Some (st_version v)"
    by (simp add: repair_edit_def st_fence_def Let_def gets nat_of_of_nat del: nat_of.simps)
  show "\<not> repair_allowed v \<Longrightarrow> repair_edit t v = v" by (simp add: repair_edit_def)
qed

section \<open>One durable update\<close>

lemma readHandoffState_Inr:
  assumes "readHandoffState io r s = Inr v"
  shows "valid_state (hs_endpoint s) r v" "recorded_state r s = v"
proof -
  obtain f where f: "rd_state (run_of s r) = Some f" "sc_value f = Some v" "valid_state (hs_endpoint s) r v"
    using assms unfolding readHandoffState_def read_sidecar_def bind_result_def
    by (cases "rd_state (run_of s r)") (simp_all split: if_splits option.splits)
  show "valid_state (hs_endpoint s) r v" "recorded_state r s = v" using f by (simp_all add: recorded_state_def)
qed

lemma updateHandoffState_cases:
  assumes "updateHandoffState am io r f s = (s', res)"
  obtains
    (unchanged) e where "res = Inl e" "\<And>q. recorded_state q s' = recorded_state q s"
  | (landed) "valid_state (hs_endpoint s) r (recorded_state r s)" "recorded_state r s' = f (recorded_state r s)"
      "\<And>q. q \<noteq> r \<Longrightarrow> recorded_state q s' = recorded_state q s"
      "\<And>w. res = Inr w \<Longrightarrow> w = f (recorded_state r s)"
proof (cases "hi_lock io r \<and> (\<exists>v. readHandoffState io r s = Inr v)")
  case True
  then obtain v where v: "readHandoffState io r s = Inr v" by blast
  note valid = readHandoffState_Inr [OF v]
  let ?t = "put_run r ((run_of s r)\<lparr>rd_state := Some (written am (f v))\<rparr>) s"
  have rec': "recorded_state q ?t = (if q = r then f v else recorded_state q s)" for q
    by (simp add: recorded_state_def written_def)
  show thesis
  proof (cases "hi_write io r ''state''")
    case Committed
    then show thesis using landed assms True v valid rec' by (auto simp: updateHandoffState_def writeFileAtomic_def)
  next
    case NotCommitted
    then show thesis using unchanged assms True v by (auto simp: updateHandoffState_def writeFileAtomic_def)
  next
    case Unsynced
    then show thesis using landed assms True v valid rec' by (auto simp: updateHandoffState_def writeFileAtomic_def)
  qed
next
  case False
  then have "\<exists>e. updateHandoffState am io r f s = (s, Inl e)"
    by (cases "readHandoffState io r s"; cases "hi_lock io r") (simp_all add: updateHandoffState_def)
  then obtain e where "updateHandoffState am io r f s = (s, Inl e)" by blast
  then show thesis using unchanged [of e] assms by simp
qed

section \<open>Any sequence of operations by any number of hosts\<close>

datatype gate_op =
    GoBind handoff_io allocation sup_identity "string option" "(nat \<times> nat) option"
  | GoDrop nat
  | GoNotePane nat string
  | GoBeginCycle nat
  | GoValidate handoff_io artifact_io "(jsval \<Rightarrow> capture) option" nat
  | GoRepair handoff_io string nat
  | GoOutcome handoff_io nat string "string option"
  | GoMark handoff_io nat string
  | GoShutdown handoff_io
  | GoSelect handoff_io string string string "jsval option"

text \<open>A step of one host: its gate, the store, and the repair tokens handed out (run, version, token).\<close>

definition gate_step :: "ambient \<Rightarrow> gate_op \<Rightarrow> handoff_gate \<Rightarrow> handoff_store \<Rightarrow> handoff_gate \<times> handoff_store \<times> (string \<times> nat \<times> string) list" where
  "gate_step am op g s =
     (case op of
        GoBind io a i ag w \<Rightarrow> (case gate_bind am io a i ag w g s of (g1, s1, _) \<Rightarrow> (g1, s1, []))
      | GoDrop i \<Rightarrow> (gate_drop i g, s, [])
      | GoNotePane i p \<Rightarrow> (gate_notePane i p g, s, [])
      | GoBeginCycle i \<Rightarrow> (gate_beginCycle i g, s, [])
      | GoValidate io aio cap i \<Rightarrow> (case gate_validate am io aio cap i g s of (g1, s1, _) \<Rightarrow> (g1, s1, []))
      | GoRepair io t i \<Rightarrow>
          (case gate_beginRepair am io t i g s of
             (g1, s1, Inr (Some (v, tok))) \<Rightarrow> (g1, s1, [(al_runId (gr_allocation (hg_objects g ! i)), v, tok)])
           | (g1, s1, _) \<Rightarrow> (g1, s1, []))
      | GoOutcome io i oc d \<Rightarrow> (case gate_recordOutcome am io i oc d g s of (g1, s1, _) \<Rightarrow> (g1, s1, []))
      | GoMark io i m \<Rightarrow> (case gate_markCycle am io i m g s of (g1, s1, _) \<Rightarrow> (g1, s1, []))
      | GoShutdown io \<Rightarrow> (case gate_shutdown am io g s of (g1, s1) \<Rightarrow> (g1, s1, []))
      | GoSelect io r p k m \<Rightarrow> (g, fst (selectCandidate am io r p k m s), []))"

type_synonym gate_world = "handoff_gate list \<times> handoff_store \<times> (string \<times> nat \<times> string) list"

text \<open>\<open>(h, op)\<close>: host \<open>h\<close> performs \<open>op\<close>.\<close>

definition gate_do :: "ambient \<Rightarrow> nat \<times> gate_op \<Rightarrow> gate_world \<Rightarrow> gate_world" where
  "gate_do am hop w = (case (hop, w) of ((h, op), (gs, s, tokens)) \<Rightarrow>
     (case gate_step am op (gs ! h) s of (g1, s1, new) \<Rightarrow> (gs[h := g1], s1, tokens @ new)))"

definition gate_trace :: "ambient \<Rightarrow> (nat \<times> gate_op) list \<Rightarrow> gate_world \<Rightarrow> gate_world" where
  "gate_trace am = fold (gate_do am)"

text \<open>The versions for which a repair of the run was granted, oldest first.\<close>

definition granted_versions :: "string \<Rightarrow> (string \<times> nat \<times> string) list \<Rightarrow> nat list" where
  "granted_versions r tokens = map (\<lambda>x. fst (snd x)) (filter (\<lambda>x. fst x = r) tokens)"

definition fence_ok :: "nat list \<Rightarrow> nat \<times> nat option \<times> nat \<Rightarrow> bool" where
  "fence_ok vs view = (case view of (attempts, fence, version) \<Rightarrow>
     sorted_wrt (<) vs \<and> length vs \<le> attempts \<and> attempts \<le> HANDOFF_MAX_REPAIR_ATTEMPTS
     \<and> (vs = [] \<or> (\<exists>f. fence = Some f \<and> (\<forall>x \<in> set vs. x \<le> f)))
     \<and> (case fence of None \<Rightarrow> True | Some f \<Rightarrow> f \<le> version))"

definition fence_inv :: "string \<Rightarrow> (string \<times> nat \<times> string) list \<Rightarrow> handoff_store \<Rightarrow> bool" where
  "fence_inv r tokens s \<longleftrightarrow> fence_ok (granted_versions r tokens) (fence_view (recorded_state r s))"

text \<open>An edit that tokens nothing keeps the invariant when it keeps the fence and does not lower the version.\<close>

definition fence_safe :: "(jsval \<Rightarrow> jsval) \<Rightarrow> bool" where
  "fence_safe f \<longleftrightarrow> (\<forall>ep r v vs. valid_state ep r v \<longrightarrow> fence_ok vs (fence_view v) \<longrightarrow> fence_ok vs (fence_view (f v)))"

lemma fence_safe_update:
  assumes "fence_safe f" and "updateHandoffState am io q f s = (s', res)" and "fence_inv r tokens s"
  shows "fence_inv r tokens s'"
  using assms(2)
proof (cases rule: updateHandoffState_cases)
  case landed
  show ?thesis
  proof (cases "r = q")
    case True
    then show ?thesis using assms(1,3) landed(1,2) unfolding fence_inv_def fence_safe_def by metis
  qed (use landed(3) assms(3) in \<open>simp add: fence_inv_def\<close>)
qed (use assms(3) in \<open>simp add: fence_inv_def\<close>)

lemma fence_safe_same: "(\<And>v. is_record v \<Longrightarrow> fence_view (f v) = fence_view v) \<Longrightarrow> fence_safe f"
  unfolding fence_safe_def using valid_state_records(1) by auto

lemmas fence_safe_same_edits =
  fence_safe_same [OF fence_view_bind] fence_safe_same [OF fence_view_outcome] fence_safe_same [OF fence_view_mark]
  fence_safe_same [OF fence_view_select]

lemma fence_safe_accept: "fence_safe (accept_edit a h)"
  unfolding fence_safe_def fence_view_def by (auto simp: accept_edit_effect fence_ok_def split: option.splits)

lemma fence_safe_repair: "fence_safe (repair_edit t)"
  unfolding fence_safe_def
proof (intro allI impI)
  fix ep r v vs
  assume v: "valid_state ep r v" and ok: "fence_ok vs (fence_view v)"
  show "fence_ok vs (fence_view (repair_edit t v))"
  proof (cases "repair_allowed v")
    case True
    then show ?thesis using ok repair_edit_effect [OF v]
      by (auto simp: fence_view_def fence_ok_def repair_allowed_def split: option.splits)
  qed (use ok repair_edit_effect(4) [OF v] in simp)
qed

lemma run_update_safe:
  "fence_safe f \<Longrightarrow> run_update am io i f g s = (g', s', res) \<Longrightarrow> fence_inv r tokens s \<Longrightarrow> fence_inv r tokens s'"
  unfolding run_update_def using fence_safe_update by (auto split: prod.splits sum.splits)

lemma outcome_safe:
  "gate_recordOutcome am io i oc d g s = (g', s', res) \<Longrightarrow> fence_inv r tokens s \<Longrightarrow> fence_inv r tokens s'"
  unfolding gate_recordOutcome_def by (rule run_update_safe [OF fence_safe_same_edits(2)])

lemma shutdown_fold_safe:
  "fence_inv r tokens (snd gs) \<Longrightarrow> fence_inv r tokens (snd (fold (shutdown_run am io) is gs))"
proof (induction "is" arbitrary: gs)
  case (Cons i "is")
  obtain g s where gs: "gs = (g, s)" by (cases gs)
  obtain g1 s1 res where o: "gate_recordOutcome am io i ''recovery_pending'' (Some ''manager_session_shutdown'') g s = (g1, s1, res)"
    using prod_cases3 by blast
  then have "fence_inv r tokens s1" using outcome_safe Cons.prems gs by simp
  then show ?case using Cons.IH [of "(g1, s1)"] o by (simp add: gs shutdown_run_def)
qed simp

lemma validate_safe:
  assumes "gate_validate am io aio cap i g s = (g', s', res)" and "fence_inv r tokens s"
  shows "fence_inv r tokens s'"
proof -
  have store: "fence_inv r tokens s1" if "validate_store am io a h i g1 s = (s1, out)" for a h g1 s1 out
    using that fence_safe_update [OF fence_safe_accept] assms(2)
    by (auto simp: validate_store_def Let_def split: prod.splits sum.splits)
  show ?thesis using assms store by (auto simp: gate_validate_def split: prod.splits validate_start.splits)
qed

lemma granted_versions_append [simp]: "granted_versions r (xs @ ys) = granted_versions r xs @ granted_versions r ys"
  by (simp add: granted_versions_def)

lemma repair_safe:
  assumes "gate_step am (GoRepair io t i) g s = (g', s', new)" and "fence_inv r tokens s"
  shows "fence_inv r (tokens @ new) s'"
proof -
  let ?q = "al_runId (gr_allocation (hg_objects g ! i))"
  let ?v = "recorded_state ?q s"
  obtain s1 res where u: "updateHandoffState am io ?q (repair_edit t) s = (s1, res)" by (cases "updateHandoffState am io ?q (repair_edit t) s")
  have s': "s' = s1" and new: "new = (case res of Inr _ \<Rightarrow> if repair_allowed ?v then [(?q, st_version ?v, t)] else [] | Inl _ \<Rightarrow> [])"
    using assms(1) u by (auto simp: gate_step_def gate_beginRepair_def run_update_def Let_def split: sum.splits if_splits)
  have safe: "fence_inv r tokens s1" by (rule fence_safe_update [OF fence_safe_repair u assms(2)])
  show ?thesis
  proof (cases "new = [] \<or> r \<noteq> ?q")
    case True
    then have "granted_versions r new = []" using new by (auto simp: granted_versions_def split: sum.splits if_splits)
    then show ?thesis using safe s' by (simp add: fence_inv_def)
  next
    case False
    then have r: "r = ?q" and allowed: "repair_allowed ?v" and ok: "\<exists>w. res = Inr w" and vs: "granted_versions r new = [st_version ?v]"
      using new by (auto simp: granted_versions_def split: sum.splits if_splits)
    from u show ?thesis
    proof (cases rule: updateHandoffState_cases)
      case landed
      note effect = repair_edit_effect [OF landed(1)]
      have old: "fence_ok (granted_versions r tokens) (fence_view ?v)" using assms(2) r by (simp add: fence_inv_def)
      have "\<forall>x \<in> set (granted_versions r tokens). x < st_version ?v"
        using old allowed by (fastforce simp: fence_ok_def fence_view_def repair_allowed_def)
      then have "fence_ok (granted_versions r tokens @ [st_version ?v]) (fence_view (repair_edit t ?v))"
        using old allowed effect(1-3) [of t]
        by (auto simp: fence_ok_def fence_view_def repair_allowed_def sorted_wrt_append)
      then show ?thesis using vs landed(2) s' r by (simp add: fence_inv_def)
    qed (use ok in auto)
  qed
qed

lemma gate_step_safe:
  assumes "gate_step am op g s = (g', s', new)" and "fence_inv r tokens s"
  shows "fence_inv r (tokens @ new) s'"
proof (cases op)
  case (GoRepair io t i)
  then show ?thesis using repair_safe assms by blast
next
  case (GoBind io a i ag w)
  then show ?thesis using assms fence_safe_update [OF fence_safe_same_edits(1)]
    by (auto simp: gate_step_def gate_bind_def Let_def split: prod.splits sum.splits)
next
  case (GoValidate io aio cap i)
  then show ?thesis using assms validate_safe by (auto simp: gate_step_def split: prod.splits)
next
  case (GoOutcome io i oc d)
  then show ?thesis using assms outcome_safe by (auto simp: gate_step_def split: prod.splits)
next
  case (GoMark io i m)
  then show ?thesis using assms run_update_safe [OF fence_safe_same_edits(3)]
    by (auto simp: gate_step_def gate_markCycle_def split: prod.splits)
next
  case (GoShutdown io)
  then have "snd (gate_shutdown am io g s) = s'" and "new = []"
    using assms(1) by (auto simp: gate_step_def split: prod.splits)
  then show ?thesis using shutdown_fold_safe [of r tokens "(g, s)"] assms(2) unfolding gate_shutdown_def by fastforce
next
  case (GoSelect io q p k m)
  obtain res where "updateHandoffState am io q (select_candidate_state p k m) s = (s', res)" and "new = []"
    using assms(1) unfolding GoSelect gate_step_def selectCandidate_def gate_op.case by (metis prod.collapse prod.inject)
  then show ?thesis using fence_safe_update [OF fence_safe_same_edits(4)] assms(2) by simp
qed (use assms in \<open>auto simp: gate_step_def\<close>)

lemma gate_trace_safe:
  "fence_inv r tokens s \<Longrightarrow> gate_trace am ops (gs, s, tokens) = (gs', s', tokens') \<Longrightarrow> fence_inv r tokens' s'"
proof (induction ops arbitrary: gs s tokens)
  case (Cons hop ops)
  obtain h op where hop: "hop = (h, op)" by (cases hop)
  obtain g1 s1 new where step: "gate_step am op (gs ! h) s = (g1, s1, new)" using prod_cases3 by blast
  show ?case
    using Cons.IH [OF gate_step_safe [OF step Cons.prems(1)]] Cons.prems(2)
    by (simp add: gate_trace_def gate_do_def hop step)
qed (simp add: gate_trace_def)

text \<open>
  C16. A repair prompt is fenced once per artifact version: starting from a freshly created run, whatever
  operations any number of hosts perform on any runs and whatever their locks, reads and writes do,
  the repair tokens handed out for the run are for strictly increasing artifact versions, and there
  are at most \<open>HANDOFF_MAX_REPAIR_ATTEMPTS\<close> of them.
\<close>

theorem repair_fenced_once_per_version:
  assumes "recorded_state r s = initial_state ep r path c i"
    and "gate_trace am ops (gs, s, []) = (gs', s', tokens)"
  shows "sorted_wrt (<) (granted_versions r tokens) \<and> length (granted_versions r tokens) \<le> HANDOFF_MAX_REPAIR_ATTEMPTS"
proof -
  have "fence_view (initial_state ep r path c i) = (0, None, 0)"
    by (simp add: fence_view_def st_attempts_def st_fence_def st_version_def) (simp add: initial_state_def)
  then have "fence_inv r [] s" by (simp add: fence_inv_def assms(1) fence_ok_def granted_versions_def)
  from gate_trace_safe [OF this assms(2)] show ?thesis
    by (auto simp: fence_inv_def fence_ok_def fence_view_def)
qed

section \<open>One acceptance\<close>

lemma set_object_nth: "i < length (hg_objects g) \<Longrightarrow> hg_objects (set_object i f g) ! i = f (hg_objects g ! i)"
  by (simp add: set_object_def)

lemma length_set_object [simp]: "length (hg_objects (set_object i f g)) = length (hg_objects g)"
  by (simp add: set_object_def)

lemma captureHistory_objects: "captureHistory io cap i g s = (g1, h) \<Longrightarrow> hg_objects g1 = hg_objects g"
  by (auto simp: captureHistory_def Let_def split: option.splits if_splits)

lemma validate_read_artifact:
  assumes "validate_read am io aio cap i g s = (g1, VrArtifact a h)"
  shows "readHandoffArtifact am (gr_allocation (hg_objects g ! i)) aio = Inr a" "hg_objects g1 = hg_objects g"
  using assms captureHistory_objects
  by (auto simp: validate_read_def failed_read_def Let_def split: sum.splits if_splits prod.splits option.splits)

text \<open>No operation gives a run object that exists another run: what differs is every other field.\<close>

definition same_runs :: "handoff_gate \<Rightarrow> handoff_gate \<Rightarrow> bool" where
  "same_runs g g' \<longleftrightarrow> length (hg_objects g) \<le> length (hg_objects g')
     \<and> (\<forall>i < length (hg_objects g). gr_allocation (hg_objects g' ! i) = gr_allocation (hg_objects g ! i))"

lemma same_runs_refl [simp]: "same_runs g g"
  by (simp add: same_runs_def)

lemma same_runs_trans: "same_runs g g1 \<Longrightarrow> same_runs g1 g2 \<Longrightarrow> same_runs g g2"
  unfolding same_runs_def by (metis order.trans order.strict_trans2)

lemma same_runs_objects: "hg_objects g' = hg_objects g \<Longrightarrow> same_runs g g'"
  by (simp add: same_runs_def)

lemma same_runs_set:
  "(\<And>r. gr_allocation (f r) = gr_allocation r) \<Longrightarrow> same_runs g (set_object i f g)"
  by (simp add: same_runs_def set_object_def) (metis nth_list_update_eq nth_list_update_neq)

lemma same_runs_edits [simp]:
  "same_runs g (set_object i (mirror v) g)" "same_runs g (remembered i x g)"
  "same_runs g (gate_beginCycle i g)" "same_runs g (gate_notePane i p g)" "same_runs g (gate_drop i g)"
proof -
  show "same_runs g (set_object i (mirror v) g)" by (rule same_runs_set) (simp add: mirror_def)
  show "same_runs g (remembered i x g)" unfolding remembered_def by (rule same_runs_set) simp
  show "same_runs g (gate_beginCycle i g)" unfolding gate_beginCycle_def by (rule same_runs_set) simp
  show "same_runs g (gate_notePane i p g)" unfolding gate_notePane_def by (rule same_runs_set) simp
  show "same_runs g (gate_drop i g)" by (rule same_runs_objects) (simp add: gate_drop_def Let_def)
qed

lemma same_runs_update: "run_update am io i f g s = (g', s', res) \<Longrightarrow> same_runs g g'"
  by (auto simp: run_update_def split: prod.splits sum.splits)

lemma same_runs_shutdown: "same_runs (fst gs) (fst (fold (shutdown_run am io) is gs))"
proof (induction "is" arbitrary: gs)
  case (Cons i "is")
  obtain g s where gs: "gs = (g, s)" by (cases gs)
  obtain g1 s1 res where o: "gate_recordOutcome am io i ''recovery_pending'' (Some ''manager_session_shutdown'') g s = (g1, s1, res)"
    using prod_cases3 by blast
  then have "same_runs g g1" unfolding gate_recordOutcome_def by (rule same_runs_update)
  moreover have "same_runs g1 (fst (fold (shutdown_run am io) is (g1, s1)))" using Cons.IH [of "(g1, s1)"] by simp
  ultimately have "same_runs g (fst (fold (shutdown_run am io) is (g1, s1)))" by (rule same_runs_trans)
  moreover have "shutdown_run am io i gs = (g1, s1)" by (simp add: gs shutdown_run_def o)
  ultimately show ?case by (simp add: gs)
qed simp

lemma same_runs_validate:
  assumes "gate_validate am io aio cap i g s = (g', s', res)"
  shows "same_runs g g'"
proof -
  have read: "same_runs g g1" if "validate_read am io aio cap i g s = (g1, st)" for g1 st
    using that same_runs_objects [OF captureHistory_objects]
    by (auto simp: validate_read_def failed_read_def Let_def split: sum.splits if_splits prod.splits option.splits)
  have closing: "same_runs g1 (set_object i (\<lambda>r. r\<lparr>gr_cycleOpen := False\<rparr>) g1)" for g1 by (rule same_runs_set) simp
  have finish: "same_runs g1 g2" if "validate_finish a out i g1 = (g2, x)" for a out g1 g2 x
  proof (cases out)
    case None
    then show ?thesis using that by (auto simp: validate_finish_def Let_def)
  next
    case (Some p)
    have "same_runs g1 (remembered i x (set_object i (mirror (fst p)) g1))"
      "same_runs g1 (remembered i x (set_object i (\<lambda>r. r\<lparr>gr_cycleOpen := False\<rparr>) (set_object i (mirror (fst p)) g1)))" for x
      by (rule same_runs_trans [OF same_runs_edits(1) same_runs_edits(2)])
        (rule same_runs_trans [OF same_runs_trans [OF same_runs_edits(1) closing] same_runs_edits(2)])
    then show ?thesis using that Some by (cases p) (auto simp: validate_finish_def Let_def split: if_splits)
  qed
  show ?thesis
  proof (cases "validate_read am io aio cap i g s")
    case (Pair g1 st)
    note r = read [OF Pair]
    show ?thesis
    proof (cases st)
      case (VrArtifact a h)
      obtain s1 out where store: "validate_store am io a h i g1 s = (s1, out)" by fastforce
      obtain g2 x where fin: "validate_finish a out i g1 = (g2, x)" by fastforce
      show ?thesis using assms same_runs_trans [OF r finish [OF fin]] by (simp add: gate_validate_def Pair VrArtifact store fin)
    qed (use assms r in \<open>simp_all add: gate_validate_def Pair\<close>)
  qed
qed

lemma gate_step_same_runs: "gate_step am op g s = (g', s', new) \<Longrightarrow> same_runs g g'"
proof (cases op)
  case (GoShutdown io)
  assume "gate_step am op g s = (g', s', new)"
  then have "gate_shutdown am io g s = (g', s')" by (simp add: GoShutdown gate_step_def split: prod.splits)
  then show ?thesis using same_runs_shutdown [of "(g, s)"] unfolding gate_shutdown_def by (metis fst_conv)
next
  case (GoBind io a i ag w)
  assume "gate_step am op g s = (g', s', new)"
  then obtain res where "gate_bind am io a i ag w g s = (g', s', res)" by (auto simp: GoBind gate_step_def split: prod.splits)
  then show ?thesis by (auto simp: gate_bind_def same_runs_def nth_append Let_def split: prod.splits sum.splits)
qed (auto simp: gate_step_def gate_beginRepair_def gate_recordOutcome_def gate_markCycle_def Let_def
      split: prod.splits sum.splits option.splits if_splits intro: same_runs_update same_runs_validate)

text \<open>
  C17. An artifact is consumed once, however other tasks and hosts interleave with its validation. The
  run object's gate and the store may be in any states when the locked edit runs and again when the
  verdict is recorded, as long as the object still stands for the same run. If the verdict is
  \<open>accepted\<close>, the artifact read is the run's own, trusted and well formed; the edit left its digest
  in the state document and touched no other run; either the content was new to the document and the
  version advanced by exactly one, or it was the content already recorded, no cycle was open at the
  edit, and the document is unchanged; and the cycle is closed with the verdict. (A cycle opened after
  the edit, while the write is awaited, is closed with it: \<open>cycle_opened_during_write_is_lost\<close>.)
\<close>

theorem artifact_consumed_once:
  assumes "validate_read am io aio cap i g0 s0 = (g1, VrArtifact a h)"
    and "gr_allocation (hg_objects g2 ! i) = gr_allocation (hg_objects g0 ! i)"
    and "validate_store am io a h i g2 s2 = (s3, res)"
    and "i < length (hg_objects g4)" and "validate_finish a res i g4 = (g5, x)" and "vd_state x = VsAccepted"
  defines "q \<equiv> al_runId (gr_allocation (hg_objects g0 ! i))"
  shows "readHandoffArtifact am (gr_allocation (hg_objects g0 ! i)) aio = Inr a
       \<and> vd_artifact x = Some (hd_status (ha_document a))
       \<and> st_sha256 (recorded_state q s3) = Some (ha_sha256 a)
       \<and> (\<forall>r. r \<noteq> q \<longrightarrow> recorded_state r s3 = recorded_state r s2)
       \<and> (if st_sha256 (recorded_state q s2) = Some (ha_sha256 a)
          then \<not> gr_cycleOpen (hg_objects g2 ! i) \<and> recorded_state q s3 = recorded_state q s2
          else st_version (recorded_state q s3) = Suc (st_version (recorded_state q s2)))
       \<and> \<not> gr_cycleOpen (hg_objects g5 ! i)"
proof -
  note a = validate_read_artifact(1) [OF assms(1)]
  obtain v where res: "res = Some (v, False)"
    using assms(5,6) by (auto simp: validate_finish_def plain_verdict_def Let_def split: option.splits if_splits prod.splits)
  have g5: "g5 = remembered i x (set_object i (\<lambda>r. r\<lparr>gr_cycleOpen := False\<rparr>) (set_object i (mirror v) g4))"
    and x: "vd_artifact x = Some (hd_status (ha_document a))"
    using assms(5) by (auto simp: res validate_finish_def Let_def)
  have upd: "updateHandoffState am io q (accept_edit a h) s2 = (s3, Inr v)"
    and stale: "\<not> edit_stale a (hg_objects g2 ! i) (recorded_state q s2)"
    using assms(3) unfolding validate_store_def Let_def assms(2) q_def res by (auto split: prod.splits sum.splits)
  have closed: "\<not> gr_cycleOpen (hg_objects g5 ! i)" using assms(4) by (simp add: g5 remembered_def set_object_nth)
  from upd show ?thesis
  proof (cases rule: updateHandoffState_cases)
    case landed
    note effect = accept_edit_effect [OF landed(1), of a h]
    have "recorded_state q s3 = recorded_state q s2" if "st_sha256 (recorded_state q s2) = Some (ha_sha256 a)"
      using that landed(2) by (simp add: accept_edit_def)
    then show ?thesis using a x closed stale landed(2,3) effect(3,4) unfolding edit_stale_def by simp
  qed simp
qed

text \<open>
  A cycle opened by another task between the locked edit and the recording of its verdict is lost: it
  is closed with the cycle the verdict answers.
\<close>

lemma cycle_opened_during_write_is_lost:
  assumes "i < length (hg_objects g)"
  shows "gr_cycleOpen (hg_objects (gate_beginCycle i g) ! i)
       \<and> vd_state (snd (validate_finish a (Some (v, False)) i (gate_beginCycle i g))) = VsAccepted
       \<and> \<not> gr_cycleOpen (hg_objects (fst (validate_finish a (Some (v, False)) i (gate_beginCycle i g))) ! i)"
  using assms by (simp add: gate_beginCycle_def validate_finish_def Let_def remembered_def set_object_nth)

section \<open>Two hosts and one run\<close>

definition gate_state_example :: jsval where
  "gate_state_example = initial_state ''e'' example_run ''/h/a'' example_at example_run_identity"

definition store_with :: "jsval \<Rightarrow> handoff_store" where
  "store_with v = \<lparr>hs_endpoint = ''e'', hs_runs = [(example_run, \<lparr>rd_state = Some (written example_ambient v), rd_provenance = None\<rparr>)]\<rparr>"

definition gate_example :: handoff_gate where
  "gate_example = empty_gate\<lparr>hg_objects := [mirror gate_state_example
     \<lparr>gr_allocation = deriveRun ''/h'' ''e'' example_run,
      gr_identity = \<lparr>si_paneId = ''p2'', si_terminalId = ''t2'', si_agentName = ''worker'', si_agentKind = ''pi'', si_session = example_session\<rparr>,
      gr_cycleOpen = True, gr_accepted = None, gr_lifecycle = ''awaiting_handoff'', gr_lastValidation = None,
      gr_attempts = 0, gr_fenceVersion = None\<rparr>]\<rparr>"

lemma recorded_store [simp]: "recorded_state example_run (store_with v) = v"
  by (simp add: recorded_state_def run_of_def store_with_def written_def)

lemma update_store:
  assumes "valid_state ''e'' example_run v" and "sc_bytes (written example_ambient v) < 1000"
  shows "updateHandoffState example_ambient calm_handoff example_run f (store_with v) = (store_with (f v), Inr (f v))"
proof -
  have r: "run_of (store_with v) example_run = \<lparr>rd_state = Some (written example_ambient v), rd_provenance = None\<rparr>"
    by (simp add: run_of_def store_with_def)
  have "readHandoffState calm_handoff example_run (store_with v) = Inr v"
    using assms by (simp add: readHandoffState_def read_sidecar_def r calm_handoff_def HANDOFF_MAX_BYTES_def)
      (simp add: written_def store_with_def)
  then show ?thesis
    by (simp add: updateHandoffState_def calm_handoff_def writeFileAtomic_def r) (simp add: store_with_def put_run_def)
qed

lemma gate_state_valid:
  "valid_state ''e'' example_run gate_state_example" "valid_state ''e'' example_run (repair_edit ''tok'' gate_state_example)"
  "sc_bytes (written example_ambient gate_state_example) < 1000"
  "sc_bytes (written example_ambient (repair_edit ''tok'' gate_state_example)) < 1000"
  "repair_allowed gate_state_example" "\<not> repair_allowed (repair_edit ''tok'' gate_state_example)" "st_version gate_state_example = 0"
  by code_simp+

lemma gate_example_object [simp]: "al_runId (gr_allocation (hg_objects gate_example ! 0)) = example_run"
  by (simp add: gate_example_def mirror_def deriveRun_def Let_def)

lemma gate_example_repairs:
  "\<exists>gs s. gate_trace example_ambient [(0, GoRepair calm_handoff ''tok'' 0), (1, GoRepair calm_handoff ''other'' 0)]
     ([gate_example, gate_example], store_with gate_state_example, []) = (gs, s, [(example_run, 0, ''tok'')])"
  by (simp add: gate_trace_def gate_do_def gate_step_def gate_beginRepair_def run_update_def gate_state_valid Let_def
      update_store [OF gate_state_valid(1,3)] update_store [OF gate_state_valid(2,4)])

theorem repair_fenced_once_per_version_witness:
  "sorted_wrt (<) (granted_versions example_run [(example_run, 0, ''tok'')])
   \<and> length (granted_versions example_run [(example_run, 0, ''tok'')]) \<le> HANDOFF_MAX_REPAIR_ATTEMPTS"
  using repair_fenced_once_per_version [of example_run "store_with gate_state_example"] gate_example_repairs gate_state_example_def
  by (metis recorded_store)

definition artifact_text :: string where
  "artifact_text = contract_document example_run example_sections"

definition artifact_reads :: artifact_io where
  "artifact_reads = (let leaf = \<lparr>lf_file = True, lf_symlink = False, lf_owned = True, lf_mode = 0, lf_nlink = 1, lf_size = 200, lf_mtimeMs = 5\<rparr> in
     \<lparr>ai_namespace = True, ai_directory = True, ai_lstat = FsOk leaf, ai_open = FsOk (), ai_stat = Some leaf, ai_read = Some (200, artifact_text)\<rparr>)"

definition artifact_example :: handoff_artifact where
  "artifact_example = \<lparr>ha_document = \<lparr>hd_runId = example_run, hd_status = ''done'', hd_sections = example_sections\<rparr>,
     ha_bytes = 200, ha_sha256 = am_sha256 example_ambient artifact_text, ha_mtimeMs = 5\<rparr>"

lemma artifact_parses:
  "parseHandoffArtifact artifact_text (run_marker example_run) = Inr (ha_document artifact_example)"
  "run_paths_consistent (deriveRun ''/h'' ''e'' example_run)" "al_marker (deriveRun ''/h'' ''e'' example_run) = run_marker example_run"
  by code_simp+

lemma artifact_example_read:
  "readHandoffArtifact example_ambient (deriveRun ''/h'' ''e'' example_run) artifact_reads = Inr artifact_example"
  using artifact_parses
  by (simp add: readHandoffArtifact_def read_leaf_def artifact_reads_def leaf_trusted_def HANDOFF_MAX_BYTES_def Let_def artifact_example_def)

lemma gate_example_validates:
  "\<exists>g1 a h s3 res g5 x. validate_read example_ambient calm_handoff artifact_reads None 0 gate_example (store_with gate_state_example) = (g1, VrArtifact a h)
     \<and> validate_store example_ambient calm_handoff a h 0 gate_example (store_with gate_state_example) = (s3, res)
     \<and> validate_finish a res 0 gate_example = (g5, x) \<and> vd_state x = VsAccepted"
proof -
  have alloc: "gr_allocation (hg_objects gate_example ! 0) = deriveRun ''/h'' ''e'' example_run"
    by (simp add: gate_example_def mirror_def)
  have none: "st_sha256 gate_state_example = None" by code_simp
  then have "map_option aa_sha256 (gr_accepted (hg_objects gate_example ! 0)) = None"
    by (simp add: gate_example_def mirror_def)
  then show ?thesis
    by (simp add: validate_read_def alloc artifact_example_read captureHistory_def validate_store_def
        update_store [OF gate_state_valid(1,3)] validate_finish_def edit_stale_def none Let_def)
      (simp add: deriveRun_def Let_def update_store [OF gate_state_valid(1,3)] none artifact_example_def)
qed

theorem artifact_consumed_once_witness:
  "\<exists>g1 a h s3 res g5 x. validate_read example_ambient calm_handoff artifact_reads None 0 gate_example (store_with gate_state_example) = (g1, VrArtifact a h)
     \<and> validate_store example_ambient calm_handoff a h 0 gate_example (store_with gate_state_example) = (s3, res)
     \<and> validate_finish a res 0 gate_example = (g5, x)
     \<and> st_sha256 (recorded_state example_run s3) = Some (am_sha256 example_ambient artifact_text) \<and> \<not> gr_cycleOpen (hg_objects g5 ! 0)"
proof -
  obtain g1 a h s3 res g5 x where
    v: "validate_read example_ambient calm_handoff artifact_reads None 0 gate_example (store_with gate_state_example) = (g1, VrArtifact a h)"
      "validate_store example_ambient calm_handoff a h 0 gate_example (store_with gate_state_example) = (s3, res)"
      "validate_finish a res 0 gate_example = (g5, x)" "vd_state x = VsAccepted"
    using gate_example_validates by blast
  have bound: "0 < length (hg_objects gate_example)" by (simp add: gate_example_def)
  have alloc: "gr_allocation (hg_objects gate_example ! 0) = deriveRun ''/h'' ''e'' example_run"
    by (simp add: gate_example_def mirror_def)
  have sha: "ha_sha256 artifact_example = am_sha256 example_ambient artifact_text" by (simp add: artifact_example_def)
  have "al_runId (deriveRun ''/h'' ''e'' example_run) = example_run" by (simp add: deriveRun_def Let_def)
  with artifact_consumed_once [OF v(1) refl v(2) bound v(3,4)] sha v(1-3) show ?thesis
    unfolding alloc artifact_example_read by auto
qed

end
