(* ===== verification/Job_Registry.thy ===== *)
theory Job_Registry
  imports Supervision_View Handoff_Gate Bounded_Text Canonical_Json
begin

text \<open>
  The registry of background operations (\<open>src/job-registry.ts\<close>): the state machine of a job with its
  operation gate, the runner's two locked sections, cancellation with its quiescence wait, the two-phase
  publication of a supervisor's child binding, listing, and session teardown. A job record outlives its
  entry in the map, so the registry keeps its records in a list. Each locked section and each synchronous
  call is one step; between them anything may happen. Observers of changes (\<open>onChange\<close>) hold no state
  and are left out.
\<close>

section \<open>Data\<close>

datatype phase = PhAccepted | PhRunning | PhCancelRequested | PhSettled

datatype job_kind = JkWait | JkSupervisor

datatype wait_result = WrConditionMet | WrTimedOut | WrManagerJudgment | WrFailed | WrCancelled | WrUnknown

datatype supervision_result = SrReleased | SrIdentityLost | SrIdentityReplaced | SrFailed | SrCancelled | SrUnknown

datatype generic_terminal = GtFailed | GtCancelled | GtUnknown

datatype cancel_reason = CrCancelled | CrShutdown

datatype binding_stage = BsReserved | BsProvisional | BsExact

datatype exec_stage = ExQueued | ExRunning | ExReturned | ExDone

datatype late_kind = LateFulfilled | LateRejected

record supervised_child =
  jc_agentName :: string
  jc_agentKind :: string
  jc_operatingPointId :: string
  jc_requestedAgentKind :: "string option"
  jc_requestedOperatingPointId :: "string option"

text \<open>A request; \<open>jq_child\<close> is meaningful for a supervisor, \<open>jq_settings\<close> stands for the members no operation reads.\<close>

record job_request =
  jq_kind :: job_kind
  jq_label :: string
  jq_targets :: "string list"
  jq_targetIds :: "string list"
  jq_refs :: "string list option"
  jq_child :: supervised_child
  jq_settings :: jsval

text \<open>The result of a wait; \<open>wr_evidence\<close> stands for the matched targets, target records and summaries.\<close>

record wait_run =
  wr_wait_result :: wait_result
  wr_matched :: bool
  wr_reason :: "string option"
  wr_evidence :: jsval

record job_error =
  er_code :: "string option"
  er_message :: string
  er_details :: "jsval option"

text \<open>What a runner did: it returned a result of either kind, or threw (an error may carry a partial result).\<close>

datatype run_outcome =
    RunWait wait_run
  | RunSupervision supervision_result "string option"
  | RunThrew job_error "wait_run option"

record job_progress =
  jg_text :: string
  jg_atMs :: int
  jg_details :: "jsval option"

record job =
  jb_id :: string
  jb_kind :: job_kind
  jb_phase :: phase
  jb_sequence :: nat
  jb_createdAtMs :: int
  jb_startedAtMs :: "int option"
  jb_finishedAtMs :: "int option"
  jb_request :: job_request
  jb_progress :: "job_progress option"
  jb_wait_result :: "wait_result option"
  jb_supervision_result :: "supervision_result option"
  jb_supervision_reason :: "string option"
  jb_result :: "wait_run option"
  jb_error :: "job_error option"
  jb_cancelReason :: "cancel_reason option"
  jb_late :: "(late_kind \<times> int) option"
  jb_aborted :: bool
  jb_gateOpen :: bool
  jb_fence :: nat
  jb_runnerDone :: bool
  jb_activities :: "nat list"
  jb_tickets :: nat
  jb_port :: bool
  jb_stage :: binding_stage
  jb_exec :: exec_stage
  jb_outcome :: "run_outcome option"

text \<open>A prepared publication of a binding; without a pane it is the provisional one.\<close>

record binding_pub =
  bp_job :: nat
  bp_pane :: "string option"
  bp_stage :: binding_stage
  bp_reservedChild :: supervised_child
  bp_reservedIds :: "string list"
  bp_selected :: supervised_child
  bp_committed :: bool
  bp_published :: bool

text \<open>A \<open>cancel\<close> call past its first section: its job, and what the quiescence wait observed.\<close>

record cancel_call =
  cc_job :: nat
  cc_drained :: "bool option"
  cc_done :: bool

text \<open>Calls into other components: mailbox events, the terminal callback, aborts, stopped supervisors.\<close>

datatype job_fx =
    JfTerminalEvent nat string string string string
  | JfOnTerminal nat
  | JfAbort nat
  | JfPortShutdown nat

record registry =
  jr_jobs :: "(string \<times> nat) list"
  jr_objects :: "job list"
  jr_pubs :: "binding_pub list"
  jr_cancels :: "cancel_call list"
  jr_sequence :: nat
  jr_generation :: nat
  jr_accepting :: bool
  jr_out :: "job_fx list"

definition initial_registry :: registry where
  "initial_registry = \<lparr>jr_jobs = [], jr_objects = [], jr_pubs = [], jr_cancels = [], jr_sequence = 0, jr_generation = 0,
     jr_accepting = True, jr_out = []\<rparr>"

text \<open>The options of the registry, and the answers of the clock and of the job's supervision port at one step.\<close>

record job_deps =
  jd_truncateTail :: "string \<Rightarrow> nat \<Rightarrow> nat \<Rightarrow> string"
  jd_numStr :: "rat \<Rightarrow> string"
  jd_writer :: bool
  jd_onTerminal :: bool
  jd_laneRetired :: "string \<Rightarrow> bool"

record job_env =
  jv_now :: int
  jv_view :: "jsval option"
  jv_childLive :: bool
  jv_handoff :: "handoff_inspection option"

datatype reg_error =
    SessionReplaced | JobIdInvalid | JobNotFound | JobKindMismatch | OperationAborted | SupervisionActive
  | SupervisionProvisionalInvalid | SupervisionBindingInvalid | SupervisionAlreadyBound | SupervisionRequestInvalid
  | SupervisionBindingClosed | SupervisionBindingStale | SupervisionBindingUncommitted
  | SupervisionStrengtheningInvalid | SupervisionStrengtheningRequired
  | SupervisionPublicationUnconfirmed | SupervisionPublicationMismatch

section \<open>Names\<close>

definition wait_result_name :: "wait_result \<Rightarrow> string" where
  "wait_result_name w = (case w of WrConditionMet \<Rightarrow> ''condition_met'' | WrTimedOut \<Rightarrow> ''timed_out''
     | WrManagerJudgment \<Rightarrow> ''manager_judgment_required'' | WrFailed \<Rightarrow> ''failed'' | WrCancelled \<Rightarrow> ''cancelled'' | WrUnknown \<Rightarrow> ''unknown'')"

definition supervision_result_name :: "supervision_result \<Rightarrow> string" where
  "supervision_result_name r = (case r of SrReleased \<Rightarrow> ''released'' | SrIdentityLost \<Rightarrow> ''identity_lost''
     | SrIdentityReplaced \<Rightarrow> ''identity_replaced'' | SrFailed \<Rightarrow> ''failed'' | SrCancelled \<Rightarrow> ''cancelled'' | SrUnknown \<Rightarrow> ''unknown'')"

definition generic_wait :: "generic_terminal \<Rightarrow> wait_result" where
  "generic_wait g = (case g of GtFailed \<Rightarrow> WrFailed | GtCancelled \<Rightarrow> WrCancelled | GtUnknown \<Rightarrow> WrUnknown)"

definition generic_supervision :: "generic_terminal \<Rightarrow> supervision_result" where
  "generic_supervision g = (case g of GtFailed \<Rightarrow> SrFailed | GtCancelled \<Rightarrow> SrCancelled | GtUnknown \<Rightarrow> SrUnknown)"

section \<open>Settlement\<close>

definition isDrained :: "job \<Rightarrow> bool" where
  "isDrained j \<longleftrightarrow> jb_runnerDone j \<and> jb_activities j = []"

definition closeGate :: "job \<Rightarrow> job" where
  "closeGate j = j\<lparr>jb_gateOpen := False, jb_fence := Suc (jb_fence j)\<rparr>"

definition late :: "job_env \<Rightarrow> late_kind \<Rightarrow> job \<Rightarrow> job" where
  "late e k j = (case jb_late j of Some _ \<Rightarrow> j | None \<Rightarrow> j\<lparr>jb_late := Some (k, jv_now e)\<rparr>)"

text \<open>\<open>persistTerminalEvent\<close>: one mailbox event for a job bound to a managed run.\<close>

definition terminal_event :: "job_deps \<Rightarrow> job_env \<Rightarrow> nat \<Rightarrow> job \<Rightarrow> string \<Rightarrow> job_fx list" where
  "terminal_event d e i j outcome =
     (if \<not> jd_writer d \<or> \<not> jb_port j then []
      else case jv_handoff e of
        Some (Gated r) \<Rightarrow>
          if re_state r = ''handed_off'' \<and> jd_laneRetired d (re_runId r) then []
          else [JfTerminalEvent i (re_runId r) (jb_id j) (re_state r) outcome]
      | _ \<Rightarrow> [])"

definition settleOnce :: "job_env \<Rightarrow> (job \<Rightarrow> job) \<Rightarrow> job_error option \<Rightarrow> job \<Rightarrow> job option" where
  "settleOnce e apply_to err j =
     (if jb_phase j = PhSettled then None
      else let j1 = apply_to ((closeGate j)\<lparr>jb_phase := PhSettled\<rparr>);
               j2 = (case err of None \<Rightarrow> j1 | Some x \<Rightarrow> j1\<lparr>jb_error := Some x\<rparr>)
           in Some (j2\<lparr>jb_finishedAtMs := Some (jv_now e)\<rparr>))"

definition settleSupervisionLocked ::
  "job_deps \<Rightarrow> job_env \<Rightarrow> nat \<Rightarrow> supervision_result \<Rightarrow> string option \<Rightarrow> job_error option \<Rightarrow> job \<Rightarrow> job \<times> job_fx list" where
  "settleSupervisionLocked d e i outcome reason err j =
     (case settleOnce e (\<lambda>j. let j1 = j\<lparr>jb_supervision_result := Some outcome\<rparr> in
             case reason of None \<Rightarrow> j1 | Some r \<Rightarrow> j1\<lparr>jb_supervision_reason := Some r\<rparr>) err j of
        None \<Rightarrow> (j, [])
      | Some j' \<Rightarrow> (j', terminal_event d e i j' (supervision_result_name outcome)))"

text \<open>An empty reason is dropped; a settlement without a result records the error's code.\<close>

definition kept_result :: "wait_result \<Rightarrow> wait_run option \<Rightarrow> job_error option \<Rightarrow> wait_run" where
  "kept_result w result err =
     (case result of
        Some r \<Rightarrow> r\<lparr>wr_reason := (if wr_reason r = Some [] then None else wr_reason r)\<rparr>
      | None \<Rightarrow> \<lparr>wr_wait_result = w, wr_matched = False,
           wr_reason = Some (case err of Some x \<Rightarrow> (case er_code x of Some c \<Rightarrow> c | None \<Rightarrow> ''unknown'') | None \<Rightarrow> ''unknown''),
           wr_evidence = JUndef\<rparr>)"

definition settleLocked ::
  "job_deps \<Rightarrow> job_env \<Rightarrow> nat \<Rightarrow> wait_result \<Rightarrow> wait_run option \<Rightarrow> job_error option \<Rightarrow> job \<Rightarrow> job \<times> job_fx list" where
  "settleLocked d e i w result err j =
     (case settleOnce e (\<lambda>j. j\<lparr>jb_wait_result := Some w, jb_result := Some (kept_result w result err)\<rparr>) err j of
        None \<Rightarrow> (j, [])
      | Some j' \<Rightarrow>
          (j', if jb_cancelReason j' = None \<and> w \<noteq> WrCancelled
               then terminal_event d e i j' (wait_result_name w) @ (if jd_onTerminal d then [JfOnTerminal i] else [])
               else []))"

definition settleGenericLocked ::
  "job_deps \<Rightarrow> job_env \<Rightarrow> nat \<Rightarrow> generic_terminal \<Rightarrow> job_error option \<Rightarrow> job \<Rightarrow> job \<times> job_fx list" where
  "settleGenericLocked d e i g err j =
     (if jb_kind j = JkSupervisor
      then settleSupervisionLocked d e i (generic_supervision g) (case err of None \<Rightarrow> None | Some x \<Rightarrow> er_code x) err j
      else settleLocked d e i (generic_wait g) None err j)"

section \<open>Records of the registry\<close>

definition set_job :: "nat \<Rightarrow> job \<Rightarrow> registry \<Rightarrow> registry" where
  "set_job i j r = r\<lparr>jr_objects := (jr_objects r)[i := j]\<rparr>"

definition put_fx :: "job_fx list \<Rightarrow> registry \<Rightarrow> registry" where
  "put_fx fx r = r\<lparr>jr_out := jr_out r @ fx\<rparr>"

definition with_job :: "nat \<Rightarrow> (job \<Rightarrow> job \<times> job_fx list) \<Rightarrow> registry \<Rightarrow> registry" where
  "with_job i f r = (case f (jr_objects r ! i) of (j, fx) \<Rightarrow> put_fx fx (set_job i j r))"

definition find_job :: "string \<Rightarrow> registry \<Rightarrow> (reg_error, nat) result" where
  "find_job jobId r = (case map_of (jr_jobs r) jobId of None \<Rightarrow> Inl JobNotFound | Some i \<Rightarrow> Inr i)"

definition isCurrent :: "nat \<Rightarrow> registry \<Rightarrow> bool" where
  "isCurrent g r \<longleftrightarrow> jr_accepting r \<and> g = jr_generation r"

section \<open>Running a job\<close>

definition job_id_ok :: "string \<Rightarrow> registry \<Rightarrow> bool" where
  "job_id_ok jobId r \<longleftrightarrow> take 4 jobId = ''job_'' \<and> 4 < length jobId \<and> \<not> has_ctl jobId \<and> map_of (jr_jobs r) jobId = None"

definition new_job :: "job_env \<Rightarrow> job_request \<Rightarrow> string \<Rightarrow> nat \<Rightarrow> job" where
  "new_job e q jobId n = \<lparr>jb_id = jobId, jb_kind = jq_kind q, jb_phase = PhAccepted, jb_sequence = n, jb_createdAtMs = jv_now e,
     jb_startedAtMs = None, jb_finishedAtMs = None, jb_request = q, jb_progress = None, jb_wait_result = None,
     jb_supervision_result = None, jb_supervision_reason = None, jb_result = None, jb_error = None, jb_cancelReason = None,
     jb_late = None, jb_aborted = False, jb_gateOpen = True, jb_fence = 0, jb_runnerDone = False, jb_activities = [],
     jb_tickets = 0, jb_port = False, jb_stage = BsReserved, jb_exec = ExQueued, jb_outcome = None\<rparr>"

text \<open>\<open>register\<close>; \<open>jobId\<close> is what the identifier factory returned.\<close>

definition register :: "job_env \<Rightarrow> job_request \<Rightarrow> string \<Rightarrow> nat \<Rightarrow> registry \<Rightarrow> registry \<times> (reg_error, nat) result" where
  "register e q jobId generation r =
     (if \<not> isCurrent generation r then (r, Inl SessionReplaced)
      else if \<not> job_id_ok jobId r then (r, Inl JobIdInvalid)
      else (r\<lparr>jr_sequence := Suc (jr_sequence r), jr_jobs := jr_jobs r @ [(jobId, length (jr_objects r))],
              jr_objects := jr_objects r @ [new_job e q jobId (Suc (jr_sequence r))]\<rparr>,
            Inr (length (jr_objects r))))"

text \<open>\<open>execute\<close>: the first locked section; the runner ends; the second locked section.\<close>

definition start_job :: "job_env \<Rightarrow> job \<Rightarrow> job \<times> job_fx list" where
  "start_job e j =
     (if jb_exec j \<noteq> ExQueued then (j, [])
      else if jb_phase j \<noteq> PhAccepted \<or> \<not> jb_gateOpen j then (j\<lparr>jb_runnerDone := True, jb_exec := ExDone\<rparr>, [])
      else (j\<lparr>jb_phase := PhRunning, jb_startedAtMs := Some (jv_now e), jb_exec := ExRunning\<rparr>, []))"

definition return_job :: "run_outcome \<Rightarrow> job \<Rightarrow> job \<times> job_fx list" where
  "return_job oc j =
     (if jb_exec j \<noteq> ExRunning then (j, [])
      else (j\<lparr>jb_runnerDone := True, jb_exec := ExReturned, jb_outcome := Some oc\<rparr>, []))"

definition partial_result :: "wait_run option \<Rightarrow> wait_run option" where
  "partial_result p = (case p of Some w \<Rightarrow> if wr_wait_result w = WrFailed then Some w else None | None \<Rightarrow> None)"

definition settle_returned :: "job_deps \<Rightarrow> job_env \<Rightarrow> nat \<Rightarrow> run_outcome \<Rightarrow> job \<Rightarrow> job \<times> job_fx list" where
  "settle_returned d e i oc j =
     (if jb_phase j \<noteq> PhRunning
      then (late e (case oc of RunThrew _ _ \<Rightarrow> LateRejected | _ \<Rightarrow> LateFulfilled) j, [])
      else case oc of
        RunSupervision res reason \<Rightarrow> settleSupervisionLocked d e i res reason None j
      | RunWait w \<Rightarrow> settleLocked d e i (wr_wait_result w) (Some w) None j
      | RunThrew err p \<Rightarrow>
          if jb_kind j = JkSupervisor then settleSupervisionLocked d e i SrFailed (er_code err) (Some err) j
          else settleLocked d e i WrFailed (partial_result p) (Some err) j)"

definition settle_job :: "job_deps \<Rightarrow> job_env \<Rightarrow> nat \<Rightarrow> job \<Rightarrow> job \<times> job_fx list" where
  "settle_job d e i j =
     (case (jb_exec j, jb_outcome j) of
        (ExReturned, Some oc) \<Rightarrow> (case settle_returned d e i oc j of (j', fx) \<Rightarrow> (j'\<lparr>jb_exec := ExDone\<rparr>, fx))
      | _ \<Rightarrow> (j, []))"

section \<open>The operation's control\<close>

definition control_check :: "job \<Rightarrow> (reg_error, unit) result" where
  "control_check j = (if jb_gateOpen j then Inr () else Inl OperationAborted)"

definition beginActivity :: "job \<Rightarrow> job \<times> (reg_error, nat) result" where
  "beginActivity j =
     (if \<not> jb_gateOpen j then (j, Inl OperationAborted)
      else (j\<lparr>jb_activities := jb_activities j @ [jb_tickets j], jb_tickets := Suc (jb_tickets j)\<rparr>, Inr (jb_tickets j)))"

text \<open>The release of an activity; releasing it again does nothing.\<close>

definition endActivity :: "nat \<Rightarrow> job \<Rightarrow> job" where
  "endActivity ticket j = j\<lparr>jb_activities := filter (\<lambda>t. t \<noteq> ticket) (jb_activities j)\<rparr>"

fun drop_undefined :: "jsval \<Rightarrow> jsval" where
  "drop_undefined (JArr xs) = JArr (map (\<lambda>x. if x = JUndef then JNull else drop_undefined x) xs)"
| "drop_undefined (JObj kvs) = JObj (map (\<lambda>kv. (fst kv, drop_undefined (snd kv))) (filter (\<lambda>kv. snd kv \<noteq> JUndef) kvs))"
| "drop_undefined v = v"

text \<open>The lines of \<open>JSON.stringify(value, null, 2)\<close>, for a value without undefined members.\<close>

fun json_lines :: "jsval \<Rightarrow> nat" where
  "json_lines (JArr xs) = (if xs = [] then 1 else 2 + sum_list (map json_lines xs))"
| "json_lines (JObj kvs) = (if kvs = [] then 1 else 2 + sum_list (map (\<lambda>kv. json_lines (snd kv)) kvs))"
| "json_lines v = 1"

definition PUBLIC_FIELD_BYTES :: nat where
  "PUBLIC_FIELD_BYTES = 256"

definition MAX_SUMMARY_CHARS :: nat where
  "MAX_SUMMARY_CHARS = 1000"

definition truncation_marker :: "string \<Rightarrow> string \<Rightarrow> jsval" where
  "truncation_marker source content = JObj [(''truncated'', JBool True), (''content'', JStr content),
     (''omittedBytes'', JNum (of_nat (byte_length source))),
     (''omittedLines'', JNum (of_nat (length (split_at line_feed source)))), (''clipped'', JBool True)]"

definition truncatedDetails :: "job_deps \<Rightarrow> string \<Rightarrow> nat \<Rightarrow> jsval" where
  "truncatedDetails d content maxBytes =
     (let budget = maxBytes - byte_length (json_text (jd_numStr d) (truncation_marker content []))
      in truncation_marker content (fitJsonString content budget))"

definition boundedDetails :: "job_deps \<Rightarrow> jsval \<Rightarrow> nat \<Rightarrow> jsval" where
  "boundedDetails d v maxBytes =
     (if v = JUndef then truncatedDetails d ''[details unavailable]'' maxBytes
      else let w = drop_undefined v; txt = json_text (jd_numStr d) w in
        if byte_length txt \<le> maxBytes \<and> json_lines w \<le> MAX_TEXT_LINES then v else truncatedDetails d txt maxBytes)"

definition update_progress :: "job_deps \<Rightarrow> job_env \<Rightarrow> string \<Rightarrow> jsval option \<Rightarrow> job \<Rightarrow> job" where
  "update_progress d e txt details j =
     (if jb_phase j \<noteq> PhRunning \<or> \<not> jb_gateOpen j then j
      else j\<lparr>jb_progress := Some \<lparr>jg_text = Bounded_Text.boundedText (jd_truncateTail d) txt MAX_SUMMARY_CHARS, jg_atMs = jv_now e,
               jg_details = map_option (\<lambda>v. boundedDetails d v PUBLIC_FIELD_BYTES) details\<rparr>\<rparr>)"

definition update_job :: "job_deps \<Rightarrow> job_env \<Rightarrow> string \<Rightarrow> string \<Rightarrow> jsval option \<Rightarrow> registry \<Rightarrow> registry \<times> (reg_error, nat) result" where
  "update_job d e jobId txt details r =
     (case find_job jobId r of
        Inl x \<Rightarrow> (r, Inl x)
      | Inr i \<Rightarrow> (set_job i (update_progress d e txt details (jr_objects r ! i)) r, Inr i))"

section \<open>Publishing a child binding\<close>

text \<open>\<open>verifyInstalledSupervisor\<close>: the port must publish a valid view of exactly this child.\<close>

definition opt_js :: "string option \<Rightarrow> jsval" where
  "opt_js x = (case x of None \<Rightarrow> JUndef | Some t \<Rightarrow> JStr t)"

definition provisional_matches :: "jsval \<Rightarrow> supervised_child \<Rightarrow> bool" where
  "provisional_matches v c \<longleftrightarrow> jget ''state'' v = JStr ''provisional''
     \<and> (let p = jget ''provisional'' v in
         jget ''agentName'' p = JStr (jc_agentName c) \<and> jget ''agentKind'' p = JStr (jc_agentKind c)
         \<and> jget ''operatingPointId'' p = JStr (jc_operatingPointId c)
         \<and> jget ''requestedOperatingPointId'' p = opt_js (jc_requestedOperatingPointId c))"

definition exact_matches :: "jsval \<Rightarrow> supervised_child \<Rightarrow> string \<Rightarrow> bool" where
  "exact_matches v c pane \<longleftrightarrow> (jget ''state'' v = JStr ''active'' \<or> jget ''state'' v = JStr ''degraded'')
     \<and> (let p = jget ''child'' v in
         jget ''agentName'' p = JStr (jc_agentName c) \<and> jget ''agentKind'' p = JStr (jc_agentKind c)
         \<and> jget ''operatingPointId'' p = JStr (jc_operatingPointId c) \<and> jget ''paneId'' p = JStr pane
         \<and> jget ''requestedAgentKind'' p = opt_js (jc_requestedAgentKind c)
         \<and> jget ''requestedOperatingPointId'' p = opt_js (jc_requestedOperatingPointId c))"

definition verifyInstalledSupervisor :: "job_env \<Rightarrow> job \<Rightarrow> supervised_child \<Rightarrow> string option \<Rightarrow> (reg_error, unit) result" where
  "verifyInstalledSupervisor e j c pane =
     (if \<not> jb_gateOpen j \<or> jb_phase j \<noteq> PhRunning then Inl SupervisionBindingClosed
      else if \<not> jb_port j then Inl SupervisionPublicationUnconfirmed
      else case jv_view e of
        None \<Rightarrow> Inl SupervisionPublicationUnconfirmed
      | Some v \<Rightarrow>
          if \<not> isSupervisionJobView v \<or> \<not> jv_childLive e then Inl SupervisionPublicationUnconfirmed
          else if (case pane of None \<Rightarrow> provisional_matches v c | Some q \<Rightarrow> exact_matches v c q) then Inr ()
          else Inl SupervisionPublicationMismatch)"

definition put_pub :: "binding_pub \<Rightarrow> registry \<Rightarrow> registry" where
  "put_pub b r = r\<lparr>jr_pubs := jr_pubs r @ [b]\<rparr>"

definition aligned_request :: "job_request \<Rightarrow> bool" where
  "aligned_request q \<longleftrightarrow> length (jq_targets q) = 1 \<and> (case jq_refs q of None \<Rightarrow> False | Some rs \<Rightarrow> length rs = 1)"

definition provisional_child :: "supervised_child \<Rightarrow> string \<Rightarrow> supervised_child" where
  "provisional_child c point = \<lparr>jc_agentName = jc_agentName c, jc_agentKind = ''agy'', jc_operatingPointId = point,
     jc_requestedAgentKind = (case jc_requestedAgentKind c of Some k \<Rightarrow> Some k
        | None \<Rightarrow> if jc_agentKind c = ''agy'' then None else Some (jc_agentKind c)),
     jc_requestedOperatingPointId = (if point = jc_operatingPointId c then None else Some (jc_operatingPointId c))\<rparr>"

definition exact_child :: "supervised_child \<Rightarrow> string \<Rightarrow> string \<Rightarrow> supervised_child" where
  "exact_child c kind point = \<lparr>jc_agentName = jc_agentName c, jc_agentKind = kind, jc_operatingPointId = point,
     jc_requestedAgentKind = (case jc_requestedAgentKind c of Some k \<Rightarrow> Some k
        | None \<Rightarrow> if kind = jc_agentKind c then None else Some (jc_agentKind c)),
     jc_requestedOperatingPointId = (case jc_requestedOperatingPointId c of Some k \<Rightarrow> Some k
        | None \<Rightarrow> if point = jc_operatingPointId c then None else Some (jc_operatingPointId c))\<rparr>"

text \<open>The guards of \<open>prepareProvisionalSupervisionChildBinding\<close> on the job it found.\<close>

definition provisional_guard :: "string \<Rightarrow> string \<Rightarrow> job \<Rightarrow> (reg_error, unit) result" where
  "provisional_guard kind point j =
     (let q = jb_request j in
      if jq_kind q \<noteq> JkSupervisor then Inl JobKindMismatch
      else if kind \<noteq> ''agy'' then Inl SupervisionProvisionalInvalid
      else if \<not> usable point then Inl SupervisionBindingInvalid
      else if jb_stage j \<noteq> BsReserved \<or> jq_targetIds q \<noteq> [] then Inl SupervisionAlreadyBound
      else if \<not> aligned_request q then Inl SupervisionRequestInvalid
      else Inr ())"

definition prepareProvisional ::
  "string \<Rightarrow> string \<Rightarrow> string \<Rightarrow> registry \<Rightarrow> registry \<times> (reg_error, nat) result" where
  "prepareProvisional jobId kind point r =
     (case find_job jobId r of
        Inl x \<Rightarrow> (r, Inl x)
      | Inr i \<Rightarrow>
          (let j = jr_objects r ! i; q = jb_request j in
           case provisional_guard kind point j of
             Inl x \<Rightarrow> (r, Inl x)
           | Inr _ \<Rightarrow>
               (put_pub \<lparr>bp_job = i, bp_pane = None, bp_stage = BsReserved, bp_reservedChild = jq_child q, bp_reservedIds = jq_targetIds q,
                  bp_selected = provisional_child (jq_child q) point, bp_committed = False, bp_published = False\<rparr> r,
                Inr (length (jr_pubs r)))))"

text \<open>The guards of \<open>prepareExactSupervisionChildBinding\<close>.\<close>

definition strengthening_guard :: "job_env \<Rightarrow> string \<Rightarrow> job \<Rightarrow> (reg_error, unit) result" where
  "strengthening_guard e kind j =
     (if jb_stage j \<noteq> BsProvisional \<or> jc_agentKind (jq_child (jb_request j)) \<noteq> ''agy'' \<or> kind \<noteq> ''agy''
      then Inl SupervisionStrengtheningInvalid
      else if \<not> jb_port j \<or> \<not> jv_childLive e
           \<or> (case jv_view e of None \<Rightarrow> True | Some v \<Rightarrow> jget ''state'' v \<noteq> JStr ''provisional'')
      then Inl SupervisionPublicationUnconfirmed
      else Inr ())"

definition exact_guard :: "job_env \<Rightarrow> string \<Rightarrow> string \<Rightarrow> bool \<Rightarrow> job \<Rightarrow> (reg_error, unit) result" where
  "exact_guard e kind pane strong j =
     (let q = jb_request j in
      if jq_kind q \<noteq> JkSupervisor then Inl JobKindMismatch
      else bind_result
        (if strong then strengthening_guard e kind j
         else if kind = ''agy'' \<or> jb_stage j = BsProvisional then Inl SupervisionStrengtheningRequired
         else Inr ())
        (\<lambda>_. if \<not> usable pane then Inl SupervisionBindingInvalid
              else if jb_stage j = BsExact \<or> jq_targetIds q \<noteq> [] then Inl SupervisionAlreadyBound
              else if \<not> aligned_request q then Inl SupervisionRequestInvalid
              else Inr ()))"

definition prepareExact ::
  "job_env \<Rightarrow> string \<Rightarrow> string \<Rightarrow> string \<Rightarrow> string \<Rightarrow> bool \<Rightarrow> registry \<Rightarrow> registry \<times> (reg_error, nat) result" where
  "prepareExact e jobId kind point pane strong r =
     (case find_job jobId r of
        Inl x \<Rightarrow> (r, Inl x)
      | Inr i \<Rightarrow>
          (let j = jr_objects r ! i; q = jb_request j in
           case exact_guard e kind pane strong j of
             Inl x \<Rightarrow> (r, Inl x)
           | Inr _ \<Rightarrow>
               (put_pub \<lparr>bp_job = i, bp_pane = Some pane, bp_stage = jb_stage j, bp_reservedChild = jq_child q, bp_reservedIds = jq_targetIds q,
                  bp_selected = exact_child (jq_child q) kind point, bp_committed = False, bp_published = False\<rparr> r,
                Inr (length (jr_pubs r)))))"

definition rebind :: "supervised_child \<Rightarrow> string list \<Rightarrow> binding_stage \<Rightarrow> job \<Rightarrow> job" where
  "rebind c ids st j = j\<lparr>jb_request := (jb_request j)\<lparr>jq_child := c, jq_targetIds := ids\<rparr>, jb_stage := st\<rparr>"

definition set_pub :: "nat \<Rightarrow> binding_pub \<Rightarrow> registry \<Rightarrow> registry" where
  "set_pub k b r = r\<lparr>jr_pubs := (jr_pubs r)[k := b]\<rparr>"

definition commit_guard :: "binding_pub \<Rightarrow> job \<Rightarrow> (reg_error, unit) result" where
  "commit_guard b j =
     (if bp_committed b then Inl SupervisionAlreadyBound
      else if \<not> jb_gateOpen j \<or> jb_phase j \<noteq> PhRunning then Inl SupervisionBindingClosed
      else if jb_stage j \<noteq> bp_stage b then Inl (case bp_pane b of None \<Rightarrow> SupervisionAlreadyBound | Some _ \<Rightarrow> SupervisionBindingStale)
      else Inr ())"

definition pub_commit :: "nat \<Rightarrow> registry \<Rightarrow> registry \<times> (reg_error, unit) result" where
  "pub_commit k r =
     (let b = jr_pubs r ! k; j = jr_objects r ! bp_job b in
      case commit_guard b j of
        Inl x \<Rightarrow> (r, Inl x)
      | Inr _ \<Rightarrow>
          (set_pub k (b\<lparr>bp_committed := True\<rparr>)
             (set_job (bp_job b)
                (case bp_pane b of None \<Rightarrow> rebind (bp_selected b) [] BsProvisional j | Some p \<Rightarrow> rebind (bp_selected b) [p] BsExact j) r),
           Inr ()))"

definition pub_rollback :: "nat \<Rightarrow> registry \<Rightarrow> registry" where
  "pub_rollback k r =
     (let b = jr_pubs r ! k in
      if \<not> bp_committed b then r
      else set_pub k (b\<lparr>bp_committed := False, bp_published := False\<rparr>)
             (set_job (bp_job b) (rebind (bp_reservedChild b) (bp_reservedIds b) (bp_stage b) (jr_objects r ! bp_job b)) r))"

definition publish_guard :: "job_env \<Rightarrow> binding_pub \<Rightarrow> job \<Rightarrow> (reg_error, unit) result" where
  "publish_guard e b j =
     (if \<not> bp_committed b then Inl SupervisionBindingUncommitted
      else if bp_published b then Inr ()
      else if bp_pane b \<noteq> None \<and> jb_stage j \<noteq> BsExact then Inl SupervisionBindingStale
      else verifyInstalledSupervisor e j (bp_selected b) (bp_pane b))"

definition pub_publish :: "job_env \<Rightarrow> nat \<Rightarrow> registry \<Rightarrow> registry \<times> (reg_error, unit) result" where
  "pub_publish e k r =
     (let b = jr_pubs r ! k in
      case publish_guard e b (jr_objects r ! bp_job b) of
        Inl x \<Rightarrow> (r, Inl x)
      | Inr _ \<Rightarrow> (set_pub k (b\<lparr>bp_published := True\<rparr>) r, Inr ()))"

definition attachSupervision :: "string \<Rightarrow> registry \<Rightarrow> registry \<times> (reg_error, nat) result" where
  "attachSupervision jobId r =
     (case find_job jobId r of
        Inl x \<Rightarrow> (r, Inl x)
      | Inr i \<Rightarrow>
          (let j = jr_objects r ! i in
           if jb_kind j \<noteq> JkSupervisor then (r, Inl JobKindMismatch) else (set_job i (j\<lparr>jb_port := True\<rparr>) r, Inr i)))"

text \<open>\<open>activeSupervisorFor\<close>; each port answers with the state of its view, its liveness and its coverage.\<close>

definition covers_now :: "(string \<times> bool \<times> bool) \<Rightarrow> job \<Rightarrow> bool" where
  "covers_now answer j \<longleftrightarrow> jb_kind j = JkSupervisor \<and> jb_phase j \<noteq> PhSettled \<and> jq_targetIds (jb_request j) \<noteq> [] \<and> jb_port j
     \<and> (case answer of (state, alive, covers) \<Rightarrow> (state = ''active'' \<or> state = ''degraded'') \<and> alive \<and> covers)"

definition activeSupervisorFor :: "(nat \<Rightarrow> string \<times> bool \<times> bool) \<Rightarrow> registry \<Rightarrow> string option" where
  "activeSupervisorFor answers r =
     map_option fst (find (\<lambda>(_, i). covers_now (answers i) (jr_objects r ! i)) (jr_jobs r))"

section \<open>Cancellation and teardown\<close>

text \<open>
  The first locked section of \<open>cancel\<close>. Its answer is \<open>None\<close> for an unknown job, \<open>Some None\<close> when the job was
  settled, and the number of the pending call otherwise.
\<close>

definition request_cancel :: "job \<Rightarrow> job" where
  "request_cancel j = (closeGate j)\<lparr>jb_phase := PhCancelRequested, jb_cancelReason := Some CrCancelled, jb_aborted := True\<rparr>"

definition put_cancel :: "nat \<Rightarrow> registry \<Rightarrow> registry" where
  "put_cancel i r = r\<lparr>jr_cancels := jr_cancels r @ [\<lparr>cc_job = i, cc_drained = None, cc_done = False\<rparr>]\<rparr>"

definition cancel_job :: "job_env \<Rightarrow> string \<Rightarrow> registry \<Rightarrow> registry \<times> (reg_error, nat option option) result" where
  "cancel_job e jobId r =
     (case map_of (jr_jobs r) jobId of
        None \<Rightarrow> (r, Inr None)
      | Some i \<Rightarrow>
          (let j = jr_objects r ! i in
           if jb_phase j = PhSettled then (r, Inr (Some None))
           else if jb_phase j = PhCancelRequested then (put_cancel i r, Inr (Some (Some (length (jr_cancels r)))))
           else if jb_port j \<and> jv_childLive e then (r, Inl SupervisionActive)
           else (put_cancel i (put_fx [JfAbort i] (set_job i (request_cancel j) r)), Inr (Some (Some (length (jr_cancels r)))))))"

text \<open>The bounded wait is over, by quiescence or by its timeout: the call reads whether the job is drained.\<close>

definition cancel_waited :: "nat \<Rightarrow> registry \<Rightarrow> registry" where
  "cancel_waited k r =
     (let c = jr_cancels r ! k in
      if cc_drained c \<noteq> None then r
      else r\<lparr>jr_cancels := (jr_cancels r)[k := c\<lparr>cc_drained := Some (isDrained (jr_objects r ! cc_job c))\<rparr>]\<rparr>)"

definition uncertain_cancellation :: job_error where
  "uncertain_cancellation = \<lparr>er_code = Some ''CANCELLATION_UNCERTAIN'',
     er_message = ''Cancellation quiescence was not observed'', er_details = None\<rparr>"

definition settle_cancelled :: "job_deps \<Rightarrow> job_env \<Rightarrow> nat \<Rightarrow> bool \<Rightarrow> job \<Rightarrow> job \<times> job_fx list" where
  "settle_cancelled d e i drained =
     settleGenericLocked d e i (if drained then GtCancelled else GtUnknown) (if drained then None else Some uncertain_cancellation)"

text \<open>The second locked section of \<open>cancel\<close>.\<close>

definition cancel_finish :: "job_deps \<Rightarrow> job_env \<Rightarrow> nat \<Rightarrow> registry \<Rightarrow> registry" where
  "cancel_finish d e k r =
     (let c = jr_cancels r ! k; r1 = r\<lparr>jr_cancels := (jr_cancels r)[k := c\<lparr>cc_done := True\<rparr>]\<rparr> in
      case (cc_done c, cc_drained c) of
        (False, Some drained) \<Rightarrow> with_job (cc_job c) (settle_cancelled d e (cc_job c) drained) r1
      | _ \<Rightarrow> r)"

definition abandon :: "nat \<Rightarrow> job \<Rightarrow> job \<times> job_fx list" where
  "abandon i j =
     (let stop = (if jb_port j then [JfPortShutdown i] else []) in
      if jb_phase j = PhSettled then (j, stop)
      else ((closeGate j)\<lparr>jb_phase := PhCancelRequested, jb_cancelReason := Some CrShutdown, jb_aborted := True, jb_runnerDone := True\<rparr>,
            stop @ [JfAbort i]))"

definition abandonAll :: "registry \<Rightarrow> registry" where
  "abandonAll r = (fold (\<lambda>i. with_job i (abandon i)) (map snd (jr_jobs r)) r)\<lparr>jr_jobs := []\<rparr>"

definition beginSession :: "registry \<Rightarrow> registry" where
  "beginSession r = (let r1 = abandonAll (r\<lparr>jr_accepting := False\<rparr>) in
     r1\<lparr>jr_generation := Suc (jr_generation r1), jr_accepting := True\<rparr>)"

definition shutdown_registry :: "registry \<Rightarrow> registry" where
  "shutdown_registry r = abandonAll (r\<lparr>jr_accepting := False, jr_generation := Suc (jr_generation r)\<rparr>)"

section \<open>Listing\<close>

definition PUBLIC_LIST_JOBS :: nat where
  "PUBLIC_LIST_JOBS = 100"

record job_page =
  pg_jobs :: "job list"
  pg_total :: nat
  pg_offset :: nat
  pg_limit :: nat
  pg_nextOffset :: "nat option"

text \<open>The registered jobs of a filter, newest first.\<close>

definition live_jobs :: "registry \<Rightarrow> job list" where
  "live_jobs r = map (\<lambda>(_, i). jr_objects r ! i) (jr_jobs r)"

definition newest_jobs :: "(job \<Rightarrow> bool) \<Rightarrow> registry \<Rightarrow> job list" where
  "newest_jobs P r = sort_key (\<lambda>j. - int (jb_sequence j)) (filter P (live_jobs r))"

definition job_filter :: "phase option \<Rightarrow> job_kind option \<Rightarrow> job \<Rightarrow> bool" where
  "job_filter ph k j \<longleftrightarrow> (ph = None \<or> ph = Some (jb_phase j)) \<and> (k = None \<or> k = Some (jb_kind j))"

text \<open>The requested page size, at least one and at most the public bound.\<close>

definition page_limit :: "int \<Rightarrow> nat" where
  "page_limit limit = min (nat (max 1 limit)) PUBLIC_LIST_JOBS"

definition list_jobs :: "phase option \<Rightarrow> job_kind option \<Rightarrow> nat \<Rightarrow> int \<Rightarrow> registry \<Rightarrow> job_page" where
  "list_jobs ph k offset limit r =
     (let jobs = newest_jobs (job_filter ph k) r;
          pageLimit = page_limit limit;
          page = take pageLimit (drop offset jobs)
      in \<lparr>pg_jobs = page, pg_total = length jobs, pg_offset = offset, pg_limit = pageLimit,
          pg_nextOffset = (if offset + length page < length jobs then Some (offset + length page) else None)\<rparr>)"

definition running_overview :: "int \<Rightarrow> registry \<Rightarrow> job list \<times> nat \<times> int option" where
  "running_overview limit r =
     (let running = newest_jobs (\<lambda>j. jb_phase j \<noteq> PhSettled) r;
          starts = map (\<lambda>j. case jb_startedAtMs j of Some t \<Rightarrow> t | None \<Rightarrow> jb_createdAtMs j) running
      in (take (nat limit) running, length running, if starts = [] then None else Some (Min (set starts))))"

section \<open>Any sequence of steps\<close>

datatype job_op =
    JoRegister job_request string nat
  | JoStart nat
  | JoReturn nat run_outcome
  | JoSettle nat
  | JoUpdate string string "jsval option"
  | JoBeginActivity nat
  | JoEndActivity nat nat
  | JoAttach string
  | JoPrepareProvisional string string string
  | JoPrepareExact string string string string bool
  | JoCommit nat
  | JoRollback nat
  | JoPublish nat
  | JoCancel string
  | JoCancelWaited nat
  | JoCancelFinish nat
  | JoBeginSession
  | JoShutdown

text \<open>The record, publication or call a step names exists.\<close>

definition job_op_ok :: "job_op \<Rightarrow> registry \<Rightarrow> bool" where
  "job_op_ok op r =
     (case op of
        JoStart i \<Rightarrow> i < length (jr_objects r)
      | JoReturn i _ \<Rightarrow> i < length (jr_objects r)
      | JoSettle i \<Rightarrow> i < length (jr_objects r)
      | JoBeginActivity i \<Rightarrow> i < length (jr_objects r)
      | JoEndActivity i _ \<Rightarrow> i < length (jr_objects r)
      | JoCommit k \<Rightarrow> k < length (jr_pubs r)
      | JoRollback k \<Rightarrow> k < length (jr_pubs r)
      | JoPublish k \<Rightarrow> k < length (jr_pubs r)
      | JoCancelWaited k \<Rightarrow> k < length (jr_cancels r)
      | JoCancelFinish k \<Rightarrow> k < length (jr_cancels r)
      | _ \<Rightarrow> True)"

definition job_step :: "job_deps \<Rightarrow> job_env \<Rightarrow> job_op \<Rightarrow> registry \<Rightarrow> registry" where
  "job_step d e op r =
     (case op of
        JoRegister q jobId g \<Rightarrow> fst (register e q jobId g r)
      | JoStart i \<Rightarrow> with_job i (start_job e) r
      | JoReturn i oc \<Rightarrow> with_job i (return_job oc) r
      | JoSettle i \<Rightarrow> with_job i (settle_job d e i) r
      | JoUpdate jobId txt details \<Rightarrow> fst (update_job d e jobId txt details r)
      | JoBeginActivity i \<Rightarrow> with_job i (\<lambda>j. (fst (beginActivity j), [])) r
      | JoEndActivity i t \<Rightarrow> with_job i (\<lambda>j. (endActivity t j, [])) r
      | JoAttach jobId \<Rightarrow> fst (attachSupervision jobId r)
      | JoPrepareProvisional jobId kind point \<Rightarrow> fst (prepareProvisional jobId kind point r)
      | JoPrepareExact jobId kind point pane strong \<Rightarrow> fst (prepareExact e jobId kind point pane strong r)
      | JoCommit k \<Rightarrow> fst (pub_commit k r)
      | JoRollback k \<Rightarrow> pub_rollback k r
      | JoPublish k \<Rightarrow> fst (pub_publish e k r)
      | JoCancel jobId \<Rightarrow> fst (cancel_job e jobId r)
      | JoCancelWaited k \<Rightarrow> cancel_waited k r
      | JoCancelFinish k \<Rightarrow> cancel_finish d e k r
      | JoBeginSession \<Rightarrow> beginSession r
      | JoShutdown \<Rightarrow> shutdown_registry r)"

definition job_do :: "job_deps \<Rightarrow> job_env \<times> job_op \<Rightarrow> registry \<Rightarrow> registry" where
  "job_do d eo r = (case eo of (e, op) \<Rightarrow> if job_op_ok op r then job_step d e op r else r)"

definition job_trace :: "job_deps \<Rightarrow> (job_env \<times> job_op) list \<Rightarrow> registry \<Rightarrow> registry" where
  "job_trace d = fold (job_do d)"

end
