(* ===== verification/Job_Properties.thy ===== *)
theory Job_Properties
  imports Job_Registry
begin

text \<open>
  What the job registry promises over any sequence of its steps: a job settles once and stays as it
  settled, a cancellation is reported as such only when the operation was quiescent, a supervisor with a
  live child is never cancelled, and the pages of a listing cover the jobs exactly once.
\<close>

section \<open>One job\<close>

definition phase_rank :: "phase \<Rightarrow> nat" where
  "phase_rank p = (case p of PhAccepted \<Rightarrow> 0 | PhRunning \<Rightarrow> 1 | PhCancelRequested \<Rightarrow> 2 | PhSettled \<Rightarrow> 3)"

definition settled :: "job \<Rightarrow> bool" where
  "settled j \<longleftrightarrow> jb_phase j = PhSettled"

text \<open>The published outcome, under the name of its kind.\<close>

definition outcome_of :: "wait_result option \<Rightarrow> supervision_result option \<Rightarrow> string option" where
  "outcome_of w s = (case w of Some x \<Rightarrow> Some (wait_result_name x) | None \<Rightarrow> map_option supervision_result_name s)"

definition job_outcome :: "job \<Rightarrow> string option" where
  "job_outcome j = outcome_of (jb_wait_result j) (jb_supervision_result j)"

text \<open>A cancellation reported with quiescence, or as uncertain.\<close>

definition honest :: "string option \<Rightarrow> job_error option \<Rightarrow> bool \<Rightarrow> bool" where
  "honest oc err drained \<longleftrightarrow>
     (oc = Some ''cancelled'' \<and> err = None \<and> drained) \<or> (oc = Some ''unknown'' \<and> err = Some uncertain_cancellation)"

lemma honest_drained: "honest oc err drained \<Longrightarrow> (drained \<Longrightarrow> drained') \<Longrightarrow> honest oc err drained'"
  by (auto simp: honest_def)

text \<open>The invariant, over the members it depends on.\<close>

definition job_phase_ok :: "phase \<Rightarrow> bool \<Rightarrow> nat \<Rightarrow> cancel_reason option \<Rightarrow> int option \<Rightarrow> string option \<Rightarrow> job_error option \<Rightarrow> bool \<Rightarrow> bool" where
  "job_phase_ok p gate fence reason fin oc err drained \<longleftrightarrow>
     (case p of
        PhCancelRequested \<Rightarrow> \<not> gate \<and> fence \<noteq> 0 \<and> reason \<noteq> None \<and> fin = None \<and> oc = None \<and> err = None
      | PhSettled \<Rightarrow> \<not> gate \<and> fence \<noteq> 0 \<and> fin \<noteq> None \<and> oc \<noteq> None \<and> (reason = Some CrCancelled \<longrightarrow> honest oc err drained)
      | _ \<Rightarrow> gate \<and> fence = 0 \<and> reason = None \<and> fin = None \<and> oc = None \<and> err = None)"

text \<open>A runner that is done has returned, unless a session teardown declared it done.\<close>

definition runner_ok :: "bool \<Rightarrow> cancel_reason option \<Rightarrow> exec_stage \<Rightarrow> bool" where
  "runner_ok done reason ex \<longleftrightarrow> (done \<and> reason \<noteq> Some CrShutdown \<longrightarrow> ex = ExReturned \<or> ex = ExDone)"

definition job_ok :: "job \<Rightarrow> bool" where
  "job_ok j \<longleftrightarrow> job_phase_ok (jb_phase j) (jb_gateOpen j) (jb_fence j) (jb_cancelReason j) (jb_finishedAtMs j) (job_outcome j) (jb_error j) (isDrained j)
     \<and> runner_ok (jb_runnerDone j) (jb_cancelReason j) (jb_exec j)"

text \<open>What a settlement fixes.\<close>

definition settlement :: "job \<Rightarrow> wait_result option \<times> supervision_result option \<times> string option \<times> wait_run option \<times> job_error option
    \<times> cancel_reason option \<times> int option" where
  "settlement j = (jb_wait_result j, jb_supervision_result j, jb_supervision_reason j, jb_result j, jb_error j,
     jb_cancelReason j, jb_finishedAtMs j)"

definition evolves :: "job \<Rightarrow> job \<Rightarrow> bool" where
  "evolves j j' \<longleftrightarrow> jb_id j' = jb_id j \<and> jb_kind j' = jb_kind j \<and> jb_sequence j' = jb_sequence j
     \<and> phase_rank (jb_phase j) \<le> phase_rank (jb_phase j') \<and> jb_fence j \<le> jb_fence j'
     \<and> (settled j \<longrightarrow> settled j' \<and> settlement j' = settlement j)
     \<and> (\<not> jb_gateOpen j \<and> isDrained j \<longrightarrow> isDrained j')"

lemma evolves_refl [simp]: "evolves j j"
  by (simp add: evolves_def)

lemma phase_rank_settled: "phase_rank p = 3 \<longleftrightarrow> p = PhSettled" "phase_rank p \<le> 3"
  by (cases p; simp add: phase_rank_def)+

section \<open>Notifications of a job\<close>

fun notifies :: "nat \<Rightarrow> job_fx \<Rightarrow> bool" where
  "notifies i (JfTerminalEvent k _ _ _ _) = (k = i)"
| "notifies i fx = False"

fun calls_back :: "nat \<Rightarrow> job_fx \<Rightarrow> bool" where
  "calls_back i (JfOnTerminal k) = (k = i)"
| "calls_back i fx = False"

text \<open>The notifications of a step of job \<open>i\<close>: only its own, and only when it settles.\<close>

definition fx_ok :: "nat \<Rightarrow> job \<Rightarrow> job \<Rightarrow> job_fx list \<Rightarrow> bool" where
  "fx_ok i j j' fx \<longleftrightarrow> (\<forall>k. k \<noteq> i \<longrightarrow> filter (notifies k) fx = [] \<and> filter (calls_back k) fx = [])
     \<and> length (filter (notifies i) fx) \<le> (if settled j' \<and> \<not> settled j then 1 else 0)
     \<and> length (filter (calls_back i) fx) \<le> (if settled j' \<and> \<not> settled j then 1 else 0)"

lemma terminal_event_fx:
  "filter (notifies k) (terminal_event d e i j oc) = (if k = i then terminal_event d e i j oc else [])"
  "filter (calls_back k) (terminal_event d e i j oc) = []" "length (terminal_event d e i j oc) \<le> Suc 0"
  by (auto simp: terminal_event_def split: option.splits handoff_inspection.splits)

definition step_ok :: "nat \<Rightarrow> job \<Rightarrow> job \<times> job_fx list \<Rightarrow> bool" where
  "step_ok i j out \<longleftrightarrow> job_ok (fst out) \<and> evolves j (fst out) \<and> fx_ok i j (fst out) (snd out)"

lemma fx_ok_silent: "fx_ok i j j' []" "fx_ok i j j' [JfAbort k]" "fx_ok i j j' [JfPortShutdown k]" "fx_ok i j j' [JfPortShutdown k, JfAbort l]"
  by (simp_all add: fx_ok_def)

lemma step_same: "job_ok j \<Longrightarrow> step_ok i j (j, [])"
  by (simp add: step_ok_def fx_ok_silent)

text \<open>Steps that change neither the phase nor what a settlement fixes.\<close>

definition calm_step :: "job \<Rightarrow> job \<Rightarrow> bool" where
  "calm_step j j' \<longleftrightarrow> jb_id j' = jb_id j \<and> jb_kind j' = jb_kind j \<and> jb_sequence j' = jb_sequence j \<and> jb_phase j' = jb_phase j
     \<and> jb_gateOpen j' = jb_gateOpen j \<and> jb_fence j' = jb_fence j \<and> settlement j' = settlement j
     \<and> (\<not> jb_gateOpen j \<and> isDrained j \<longrightarrow> isDrained j') \<and> (runner_ok (jb_runnerDone j) (jb_cancelReason j) (jb_exec j)
        \<longrightarrow> runner_ok (jb_runnerDone j') (jb_cancelReason j') (jb_exec j'))"

lemma calm_step_ok:
  assumes "job_ok j" and "calm_step j j'"
  shows "step_ok i j (j', [])"
proof -
  have fields: "job_outcome j' = job_outcome j" "jb_error j' = jb_error j" "jb_cancelReason j' = jb_cancelReason j" "jb_finishedAtMs j' = jb_finishedAtMs j"
    using assms(2) by (simp_all add: calm_step_def settlement_def job_outcome_def)
  have "job_phase_ok (jb_phase j') (jb_gateOpen j') (jb_fence j') (jb_cancelReason j') (jb_finishedAtMs j') (job_outcome j') (jb_error j') (isDrained j')"
    using assms by (cases "jb_phase j") (auto simp: fields calm_step_def job_ok_def job_phase_ok_def dest: honest_drained)
  then show ?thesis using assms by (auto simp: step_ok_def job_ok_def calm_step_def evolves_def settled_def fx_ok_silent)
qed

lemma progress_calm: "calm_step j (update_progress d e t x j)"
  by (simp add: calm_step_def update_progress_def settlement_def isDrained_def)

lemma begin_activity_calm: "calm_step j (fst (beginActivity j))"
  by (simp add: calm_step_def beginActivity_def settlement_def isDrained_def)

lemma end_activity_calm: "calm_step j (endActivity t j)"
  by (simp add: calm_step_def endActivity_def settlement_def isDrained_def)

lemma rebind_calm: "calm_step j (rebind c ids st j)"
  by (simp add: calm_step_def rebind_def settlement_def isDrained_def)

lemma attach_calm: "calm_step j (j\<lparr>jb_port := True\<rparr>)"
  by (simp add: calm_step_def settlement_def isDrained_def)

lemma late_calm: "calm_step j (late e k j)"
  by (simp add: calm_step_def late_def settlement_def isDrained_def split: option.splits)

lemma exec_done_calm: "calm_step j (j\<lparr>jb_exec := ExDone\<rparr>)"
  by (simp add: calm_step_def settlement_def isDrained_def runner_ok_def)

lemma return_calm: "calm_step j (fst (return_job oc j))"
  by (simp add: calm_step_def return_job_def settlement_def isDrained_def runner_ok_def)

lemmas calm_steps = progress_calm begin_activity_calm end_activity_calm rebind_calm attach_calm late_calm return_calm

lemma start_ok:
  assumes "job_ok j"
  shows "step_ok i j (start_job e j)"
proof (cases "jb_exec j = ExQueued \<and> jb_phase j = PhAccepted \<and> jb_gateOpen j")
  case True
  then show ?thesis using assms
    by (auto simp: step_ok_def start_job_def job_ok_def job_phase_ok_def runner_ok_def evolves_def settled_def phase_rank_def job_outcome_def
        isDrained_def fx_ok_silent)
next
  case False
  have "calm_step j (j\<lparr>jb_runnerDone := True, jb_exec := ExDone\<rparr>)"
    by (simp add: calm_step_def settlement_def isDrained_def runner_ok_def)
  with False show ?thesis using calm_step_ok [OF assms] step_same [OF assms] by (auto simp: start_job_def)
qed

lemma return_ok: "job_ok j \<Longrightarrow> step_ok i j (return_job oc j)"
  using calm_step_ok [OF _ return_calm [of j oc]] by (cases "jb_exec j = ExRunning") (simp_all add: return_job_def)

text \<open>The steps that close the gate.\<close>

lemma request_cancel_ok:
  assumes "job_ok j" and "jb_gateOpen j"
  shows "step_ok i j (request_cancel j, [JfAbort i])"
  using assms by (cases "jb_phase j")
    (simp_all add: step_ok_def request_cancel_def closeGate_def job_ok_def job_phase_ok_def runner_ok_def evolves_def settled_def phase_rank_def
      job_outcome_def isDrained_def fx_ok_silent)

lemma abandon_ok:
  assumes "job_ok j"
  shows "step_ok i j (abandon i j)"
proof (cases "jb_phase j = PhSettled")
  case True
  then show ?thesis using step_same [OF assms] by (simp add: abandon_def step_ok_def fx_ok_silent)
next
  case False
  then show ?thesis using assms by (cases "jb_phase j")
    (simp_all add: step_ok_def abandon_def closeGate_def job_ok_def job_phase_ok_def runner_ok_def evolves_def settled_def phase_rank_def
      job_outcome_def isDrained_def fx_ok_silent Let_def)
qed

text \<open>A settlement: what it records, and that no cancellation is misreported.\<close>

definition settles :: "job \<Rightarrow> job \<Rightarrow> bool" where
  "settles j j' \<longleftrightarrow> jb_id j' = jb_id j \<and> jb_kind j' = jb_kind j \<and> jb_sequence j' = jb_sequence j \<and> jb_phase j' = PhSettled
     \<and> \<not> jb_gateOpen j' \<and> jb_fence j' = Suc (jb_fence j) \<and> jb_finishedAtMs j' \<noteq> None \<and> job_outcome j' \<noteq> None
     \<and> jb_cancelReason j' = jb_cancelReason j \<and> jb_runnerDone j' = jb_runnerDone j \<and> jb_activities j' = jb_activities j \<and> jb_exec j' = jb_exec j
     \<and> (jb_cancelReason j = Some CrCancelled \<longrightarrow> honest (job_outcome j') (jb_error j') (isDrained j))"

lemma settles_ok:
  assumes "job_ok j" and "jb_phase j \<noteq> PhSettled" and "settles j j'" and "fx_ok i j j' fx"
  shows "step_ok i j (j', fx)"
  using assms by (cases "jb_phase j") (auto simp: step_ok_def settles_def job_ok_def job_phase_ok_def evolves_def settled_def phase_rank_def isDrained_def)

lemma fx_ok_settling:
  assumes "jb_phase j \<noteq> PhSettled" and "jb_phase j' = PhSettled"
  shows "fx_ok i j j' (terminal_event d e i j'' oc)" "fx_ok i j j' (terminal_event d e i j'' oc @ [JfOnTerminal i])"
  using assms terminal_event_fx(3) [of d e i j'' oc] by (simp_all add: fx_ok_def settled_def terminal_event_fx(1,2))

text \<open>By the runner the gate was open, so no cancellation was requested.\<close>

lemma settle_supervision_ok:
  assumes "job_ok j" and "jb_phase j = PhRunning"
  shows "step_ok i j (settleSupervisionLocked d e i oc reason err j)"
proof -
  have j: "jb_cancelReason j = None" using assms by (simp add: job_ok_def job_phase_ok_def)
  show ?thesis
    unfolding settleSupervisionLocked_def settleOnce_def Let_def using assms j
    by (cases reason; cases err) (auto intro!: settles_ok fx_ok_settling simp: settles_def closeGate_def job_outcome_def outcome_of_def split: option.split)
qed

lemma settle_wait_ok:
  assumes "job_ok j" and "jb_phase j = PhRunning"
  shows "step_ok i j (settleLocked d e i w result err j)"
proof -
  have j: "jb_cancelReason j = None" using assms by (simp add: job_ok_def job_phase_ok_def)
  show ?thesis
    unfolding settleLocked_def settleOnce_def Let_def using assms j
    by (cases err) (auto intro!: settles_ok fx_ok_settling fx_ok_silent simp: settles_def closeGate_def job_outcome_def outcome_of_def)
qed

lemma settle_job_ok:
  assumes "job_ok j"
  shows "step_ok i j (settle_job d e i j)"
proof -
  have returned: "step_ok i j (settle_returned d e i oc j)" for oc
    using assms settle_supervision_ok settle_wait_ok calm_step_ok [OF assms late_calm]
    by (auto simp: settle_returned_def split: run_outcome.splits)
  have "step_ok i j (j'\<lparr>jb_exec := ExDone\<rparr>, fx)" if "step_ok i j (j', fx)" for j' fx
  proof -
    have "job_ok j'" using that by (simp add: step_ok_def)
    from calm_step_ok [OF this exec_done_calm, of i] that show ?thesis
      by (auto simp: step_ok_def evolves_def fx_ok_def settled_def settlement_def isDrained_def)
  qed
  then have "step_ok i j (case settle_returned d e i oc j of (j', fx) \<Rightarrow> (j'\<lparr>jb_exec := ExDone\<rparr>, fx))" for oc
    using returned [of oc] by (simp add: case_prod_beta)
  then show ?thesis using step_same [OF assms] by (auto simp: settle_job_def split: exec_stage.splits option.splits)
qed

text \<open>By \<open>cancel\<close>: what the wait observed still holds.\<close>

lemma settle_cancelled_ok:
  assumes "job_ok j" and "\<not> jb_gateOpen j" and "drained \<Longrightarrow> isDrained j"
  shows "step_ok i j (settle_cancelled d e i drained j)"
proof (cases "jb_phase j = PhSettled")
  case True
  then show ?thesis using step_same [OF assms(1)]
    by (simp add: settle_cancelled_def settleGenericLocked_def settleSupervisionLocked_def settleLocked_def settleOnce_def)
next
  case False
  have reason: "jb_cancelReason j \<noteq> None" "jb_error j = None" "jb_wait_result j = None" "jb_supervision_result j = None"
    using assms(1,2) False
    by (cases "jb_phase j"; cases "jb_wait_result j"; simp add: job_ok_def job_phase_ok_def job_outcome_def outcome_of_def)+
  note names = wait_result_name_def supervision_result_name_def generic_wait_def generic_supervision_def job_outcome_def outcome_of_def
  show ?thesis
    unfolding settle_cancelled_def settleGenericLocked_def settleSupervisionLocked_def settleLocked_def settleOnce_def Let_def
    using assms False reason
    by (cases drained) (auto intro!: settles_ok fx_ok_settling fx_ok_silent simp: settles_def closeGate_def names honest_def uncertain_cancellation_def)
qed

section \<open>The registry\<close>

definition call_ok :: "job list \<Rightarrow> cancel_call \<Rightarrow> bool" where
  "call_ok js c \<longleftrightarrow> cc_job c < length js \<and> \<not> jb_gateOpen (js ! cc_job c) \<and> (cc_drained c = Some True \<longrightarrow> isDrained (js ! cc_job c))"

definition notified_ok :: "job list \<Rightarrow> job_fx list \<Rightarrow> bool" where
  "notified_ok js out \<longleftrightarrow> (\<forall>i. (let bound = (if i < length js \<and> settled (js ! i) then 1 else 0) in
     length (filter (notifies i) out) \<le> bound \<and> length (filter (calls_back i) out) \<le> bound))"

definition reg_ok :: "registry \<Rightarrow> bool" where
  "reg_ok r \<longleftrightarrow> list_all (\<lambda>ki. snd ki < length (jr_objects r)) (jr_jobs r)
     \<and> list_all (\<lambda>b. bp_job b < length (jr_objects r)) (jr_pubs r)
     \<and> list_all (call_ok (jr_objects r)) (jr_cancels r) \<and> list_all job_ok (jr_objects r)
     \<and> notified_ok (jr_objects r) (jr_out r)"

text \<open>How a registry moves: records evolve, and a settled job is not notified again.\<close>

definition grows :: "registry \<Rightarrow> registry \<Rightarrow> bool" where
  "grows r r' \<longleftrightarrow> length (jr_objects r) \<le> length (jr_objects r')
     \<and> (\<forall>i < length (jr_objects r). evolves (jr_objects r ! i) (jr_objects r' ! i))
     \<and> (\<exists>fx. jr_out r' = jr_out r @ fx
          \<and> (\<forall>i < length (jr_objects r). settled (jr_objects r ! i) \<longrightarrow> filter (notifies i) fx = [] \<and> filter (calls_back i) fx = []))"

lemma grows_refl [simp]: "grows r r"
  by (simp add: grows_def)

lemma evolves_trans: "evolves a b \<Longrightarrow> evolves b c \<Longrightarrow> jb_gateOpen a \<or> \<not> jb_gateOpen b \<Longrightarrow> evolves a c"
  by (auto simp: evolves_def)

lemma closed_stays: "job_ok j \<Longrightarrow> job_ok j' \<Longrightarrow> evolves j j' \<Longrightarrow> \<not> jb_gateOpen j \<Longrightarrow> \<not> jb_gateOpen j'"
  by (cases "jb_phase j"; cases "jb_phase j'") (simp_all add: job_ok_def job_phase_ok_def evolves_def phase_rank_def)

lemma nth_job_ok: "reg_ok r \<Longrightarrow> i < length (jr_objects r) \<Longrightarrow> job_ok (jr_objects r ! i)"
  by (simp add: reg_ok_def list_all_length)

lemma grows_trans:
  assumes "reg_ok a" and "reg_ok b" and "grows a b" and "grows b c"
  shows "grows a c"
proof -
  obtain fx fy where fx: "jr_out b = jr_out a @ fx" "\<forall>i < length (jr_objects a). settled (jr_objects a ! i) \<longrightarrow> filter (notifies i) fx = [] \<and> filter (calls_back i) fx = []"
    and fy: "jr_out c = jr_out b @ fy" "\<forall>i < length (jr_objects b). settled (jr_objects b ! i) \<longrightarrow> filter (notifies i) fy = [] \<and> filter (calls_back i) fy = []"
    using assms(3,4) unfolding grows_def by blast
  have len: "length (jr_objects a) \<le> length (jr_objects b)" "length (jr_objects b) \<le> length (jr_objects c)"
    using assms(3,4) by (simp_all add: grows_def)
  have ab: "evolves (jr_objects a ! i) (jr_objects b ! i)" if "i < length (jr_objects a)" for i
    using assms(3) that by (simp add: grows_def)
  have ac: "evolves (jr_objects a ! i) (jr_objects c ! i)" if i: "i < length (jr_objects a)" for i
  proof (rule evolves_trans [OF ab [OF i]])
    show "evolves (jr_objects b ! i) (jr_objects c ! i)" using assms(4) i len(1) by (simp add: grows_def)
    show "jb_gateOpen (jr_objects a ! i) \<or> \<not> jb_gateOpen (jr_objects b ! i)"
      using closed_stays nth_job_ok assms(1,2) ab i len(1) by (meson order_less_le_trans)
  qed
  have "settled (jr_objects b ! i)" if "i < length (jr_objects a)" "settled (jr_objects a ! i)" for i
    using ab [OF that(1)] that(2) by (simp add: evolves_def)
  then show ?thesis using len ac fx fy unfolding grows_def by (intro conjI exI [of _ "fx @ fy"]) auto
qed

lemma call_ok_kept:
  assumes "call_ok js c" and "length js \<le> length js'" and "\<forall>j \<in> set js. job_ok j" and "\<forall>j \<in> set js'. job_ok j"
    and "\<forall>i < length js. evolves (js ! i) (js' ! i)"
  shows "call_ok js' c"
proof -
  have i: "cc_job c < length js" "\<not> jb_gateOpen (js ! cc_job c)" "cc_drained c = Some True \<Longrightarrow> isDrained (js ! cc_job c)"
    using assms(1) by (simp_all add: call_ok_def)
  moreover have "evolves (js ! cc_job c) (js' ! cc_job c)" using assms(5) i(1) by blast
  moreover have "job_ok (js ! cc_job c)" "job_ok (js' ! cc_job c)" using assms(2-4) i(1) by simp_all
  ultimately show ?thesis using assms(2) closed_stays [of "js ! cc_job c" "js' ! cc_job c"] by (simp add: call_ok_def evolves_def)
qed

lemma with_job_step:
  assumes r: "reg_ok r" and i: "i < length (jr_objects r)" and step: "step_ok i (jr_objects r ! i) (f (jr_objects r ! i))"
  shows "reg_ok (with_job i f r)" "grows r (with_job i f r)"
proof -
  let ?js = "jr_objects r"
  obtain j fx where f: "f (?js ! i) = (j, fx)" by (cases "f (?js ! i)")
  have j: "job_ok j" "evolves (?js ! i) j" "fx_ok i (?js ! i) j fx" using step by (simp_all add: step_ok_def f)
  have w: "with_job i f r = put_fx fx (set_job i j r)" by (simp add: with_job_def f)
  have evolves: "\<forall>k < length ?js. evolves (?js ! k) (?js[i := j] ! k)" using j(2) i by (simp add: nth_list_update)
  have oks: "\<forall>x \<in> set ?js. job_ok x" using r by (simp add: reg_ok_def list_all_iff)
  then have oks': "\<forall>x \<in> set (?js[i := j]). job_ok x" using j(1) set_update_subset_insert by fastforce
  have calls: "list_all (call_ok (?js[i := j])) (jr_cancels r)"
    using r call_ok_kept [OF _ _ oks oks' evolves] by (simp add: reg_ok_def list_all_iff)
  have counts: "notified_ok (?js[i := j]) (jr_out r @ fx)"
    unfolding notified_ok_def Let_def
  proof (intro allI)
    fix k
    have old: "length (filter (notifies k) (jr_out r)) \<le> (if k < length ?js \<and> settled (?js ! k) then 1 else 0)"
      "length (filter (calls_back k) (jr_out r)) \<le> (if k < length ?js \<and> settled (?js ! k) then 1 else 0)"
      using r unfolding reg_ok_def notified_ok_def Let_def by blast+
    show "length (filter (notifies k) (jr_out r @ fx)) \<le> (if k < length (?js[i := j]) \<and> settled (?js[i := j] ! k) then 1 else 0)
       \<and> length (filter (calls_back k) (jr_out r @ fx)) \<le> (if k < length (?js[i := j]) \<and> settled (?js[i := j] ! k) then 1 else 0)"
    proof (cases "k = i")
      case True
      then show ?thesis using old j(2,3) i by (auto simp: fx_ok_def evolves_def split: if_splits)
    next
      case False
      then show ?thesis using old j(3) by (simp add: fx_ok_def)
    qed
  qed
  show "reg_ok (with_job i f r)"
    using r calls counts oks' by (simp add: reg_ok_def w put_fx_def set_job_def list_all_iff)
  have "filter (notifies k) fx = [] \<and> filter (calls_back k) fx = []" if "settled (?js ! k)" for k
    using j(3) that by (cases "k = i") (simp_all add: fx_ok_def)
  then show "grows r (with_job i f r)"
    using evolves by (simp add: grows_def w put_fx_def set_job_def)
qed

lemma set_job_step:
  assumes "reg_ok r" and "i < length (jr_objects r)" and "calm_step (jr_objects r ! i) j"
  shows "reg_ok (set_job i j r)" "grows r (set_job i j r)"
proof -
  have "step_ok i (jr_objects r ! i) (j, [])" using calm_step_ok [OF nth_job_ok [OF assms(1,2)] assms(3)] .
  then show "reg_ok (set_job i j r)" "grows r (set_job i j r)"
    using with_job_step [OF assms(1,2), of "\<lambda>_. (j, [])"] by (simp_all add: with_job_def put_fx_def)
qed

lemma find_job_bound: "reg_ok r \<Longrightarrow> map_of (jr_jobs r) jobId = Some i \<Longrightarrow> i < length (jr_objects r)"
  by (fastforce simp: reg_ok_def list_all_iff dest: map_of_SomeD)

lemma find_job_Inr: "find_job jobId r = Inr i \<longleftrightarrow> map_of (jr_jobs r) jobId = Some i"
  by (simp add: find_job_def split: option.splits)

section \<open>Every step\<close>

lemma register_step:
  assumes "reg_ok r"
  shows "reg_ok (fst (register e q jobId g r))" "grows r (fst (register e q jobId g r))"
proof -
  have new: "job_ok (new_job e q jobId n)" "\<not> settled (new_job e q jobId n)" for n
    by (simp_all add: new_job_def job_ok_def job_phase_ok_def runner_ok_def job_outcome_def outcome_of_def settled_def)
  have calls: "call_ok (js @ [x]) c" if "call_ok js c" for js x c
    using that by (simp add: call_ok_def nth_append)
  have counts: "notified_ok (js @ [x]) out" if "notified_ok js out" "\<not> settled x" for js x out
    unfolding notified_ok_def Let_def
  proof (intro allI)
    fix i
    show "length (filter (notifies i) out) \<le> (if i < length (js @ [x]) \<and> settled ((js @ [x]) ! i) then 1 else 0)
       \<and> length (filter (calls_back i) out) \<le> (if i < length (js @ [x]) \<and> settled ((js @ [x]) ! i) then 1 else 0)"
      using that unfolding notified_ok_def Let_def by (auto simp: nth_append dest: spec [of _ i] split: if_splits)
  qed
  show "reg_ok (fst (register e q jobId g r))"
    using assms new calls counts by (auto simp: register_def reg_ok_def list_all_iff)
  show "grows r (fst (register e q jobId g r))"
    by (simp add: register_def grows_def nth_append)
qed

lemma registry_same:
  assumes "reg_ok r" and "jr_objects r' = jr_objects r" and "jr_out r' = jr_out r"
    and "set (jr_jobs r') \<subseteq> set (jr_jobs r)" and "list_all (\<lambda>b. bp_job b < length (jr_objects r)) (jr_pubs r')"
    and "list_all (call_ok (jr_objects r)) (jr_cancels r')"
  shows "reg_ok r' \<and> grows r r'"
  using assms by (auto simp: reg_ok_def grows_def list_all_iff)

lemma prepare_step:
  assumes "reg_ok r" and "bp_job b < length (jr_objects r)"
  shows "reg_ok (put_pub b r)" "grows r (put_pub b r)"
  using registry_same [OF assms(1), of "put_pub b r"] assms by (auto simp: put_pub_def reg_ok_def)

lemma set_pub_step:
  assumes "reg_ok r" and "bp_job b < length (jr_objects r)"
  shows "reg_ok (set_pub k b r) \<and> grows r (set_pub k b r)"
  using assms set_update_subset_insert [of "jr_pubs r" k b]
  by (intro registry_same) (auto simp: set_pub_def reg_ok_def list_all_iff)

lemma abandon_all_step:
  assumes "reg_ok r" and "\<forall>i \<in> set is. i < length (jr_objects r)"
  shows "reg_ok (fold (\<lambda>i. with_job i (abandon i)) is r) \<and> grows r (fold (\<lambda>i. with_job i (abandon i)) is r)"
  using assms
proof (induction "is" arbitrary: r)
  case (Cons i "is")
  have i: "i < length (jr_objects r)" using Cons.prems(2) by simp
  note step = with_job_step [OF Cons.prems(1) i, of "abandon i", OF abandon_ok [OF nth_job_ok [OF Cons.prems(1) i]]]
  have "length (jr_objects (with_job i (abandon i) r)) = length (jr_objects r)"
    by (simp add: with_job_def put_fx_def set_job_def split: prod.split)
  then have "reg_ok (fold (\<lambda>i. with_job i (abandon i)) is (with_job i (abandon i) r))
    \<and> grows (with_job i (abandon i) r) (fold (\<lambda>i. with_job i (abandon i)) is (with_job i (abandon i) r))"
    using Cons.IH [OF step(1)] Cons.prems(2) by simp
  then show ?case using grows_trans [OF Cons.prems(1) step(1) step(2)] by simp
qed simp

lemma abandonAll_step:
  assumes "reg_ok r"
  shows "reg_ok (abandonAll r) \<and> grows r (abandonAll r)"
proof -
  have "\<forall>i \<in> set (map snd (jr_jobs r)). i < length (jr_objects r)" using assms by (auto simp: reg_ok_def list_all_iff)
  note all = abandon_all_step [OF assms this]
  let ?r = "fold (\<lambda>i. with_job i (abandon i)) (map snd (jr_jobs r)) r"
  have "reg_ok (?r\<lparr>jr_jobs := []\<rparr>) \<and> grows ?r (?r\<lparr>jr_jobs := []\<rparr>)"
    using all by (intro registry_same) (auto simp: reg_ok_def)
  then show ?thesis using grows_trans [OF assms] all unfolding abandonAll_def by blast
qed

lemma teardown_step:
  assumes "reg_ok r"
  shows "reg_ok (beginSession r) \<and> grows r (beginSession r)" "reg_ok (shutdown_registry r) \<and> grows r (shutdown_registry r)"
proof -
  have flags: "reg_ok (x\<lparr>jr_accepting := b, jr_generation := n\<rparr>)" "reg_ok (x\<lparr>jr_generation := n, jr_accepting := b\<rparr>)" "reg_ok (x\<lparr>jr_accepting := b\<rparr>)"
    if "reg_ok x" for x b n using that by (simp_all add: reg_ok_def)
  have same: "grows (x\<lparr>jr_accepting := b, jr_generation := n\<rparr>) y \<longleftrightarrow> grows x y" "grows (x\<lparr>jr_accepting := b\<rparr>) y \<longleftrightarrow> grows x y"
    "grows y (x\<lparr>jr_generation := n, jr_accepting := b\<rparr>) \<longleftrightarrow> grows y x" for x y b n
    by (simp_all add: grows_def)
  show "reg_ok (beginSession r) \<and> grows r (beginSession r)" "reg_ok (shutdown_registry r) \<and> grows r (shutdown_registry r)"
    using abandonAll_step [OF flags(3) [OF assms]] abandonAll_step [OF flags(1) [OF assms]]
    by (simp_all add: beginSession_def shutdown_registry_def Let_def same flags)
qed

lemma commit_step:
  assumes "reg_ok r" and "k < length (jr_pubs r)"
  shows "reg_ok (fst (pub_commit k r)) \<and> grows r (fst (pub_commit k r))" "reg_ok (pub_rollback k r) \<and> grows r (pub_rollback k r)"
    "reg_ok (fst (pub_publish e k r)) \<and> grows r (fst (pub_publish e k r))"
proof -
  let ?b = "jr_pubs r ! k"
  have b: "bp_job ?b < length (jr_objects r)" using assms by (simp add: reg_ok_def list_all_length)
  have both: "reg_ok (set_pub k b' (set_job (bp_job ?b) (rebind c ids st (jr_objects r ! bp_job ?b)) r))
      \<and> grows r (set_pub k b' (set_job (bp_job ?b) (rebind c ids st (jr_objects r ! bp_job ?b)) r))"
    if "bp_job b' = bp_job ?b" for b' c ids st
  proof -
    note job = set_job_step [OF assms(1) b rebind_calm, of c ids st]
    have "bp_job b' < length (jr_objects (set_job (bp_job ?b) (rebind c ids st (jr_objects r ! bp_job ?b)) r))"
      using b that by (simp add: set_job_def)
    note pub = set_pub_step [OF job(1) this, of k]
    then show ?thesis using grows_trans [OF assms(1) job] by blast
  qed
  show "reg_ok (fst (pub_commit k r)) \<and> grows r (fst (pub_commit k r))"
    using assms(1) both by (auto simp: pub_commit_def Let_def split: sum.splits option.splits)
  show "reg_ok (pub_rollback k r) \<and> grows r (pub_rollback k r)"
    using assms(1) both by (simp add: pub_rollback_def Let_def)
  show "reg_ok (fst (pub_publish e k r)) \<and> grows r (fst (pub_publish e k r))"
    using assms(1) set_pub_step [OF assms(1), of "?b\<lparr>bp_published := True\<rparr>"] b
    by (auto simp: pub_publish_def Let_def split: sum.splits)
qed

lemma put_cancel_step:
  assumes "reg_ok r" and "i < length (jr_objects r)" and "\<not> jb_gateOpen (jr_objects r ! i)"
  shows "reg_ok (put_cancel i r) \<and> grows r (put_cancel i r)"
  using assms by (intro registry_same) (auto simp: put_cancel_def reg_ok_def call_ok_def)

lemma cancel_step:
  assumes "reg_ok r"
  shows "reg_ok (fst (cancel_job e jobId r)) \<and> grows r (fst (cancel_job e jobId r))"
proof (cases "map_of (jr_jobs r) jobId")
  case None
  then show ?thesis using assms by (simp add: cancel_job_def)
next
  case (Some i)
  note i = find_job_bound [OF assms Some]
  note ok = nth_job_ok [OF assms i]
  let ?j = "jr_objects r ! i"
  show ?thesis
  proof (cases "jb_gateOpen ?j")
    case True
    let ?r = "put_fx [JfAbort i] (set_job i (request_cancel ?j) r)"
    have "?r = with_job i (\<lambda>j. (request_cancel j, [JfAbort i])) r" by (simp add: with_job_def)
    then have r: "reg_ok ?r" "grows r ?r"
      using with_job_step [OF assms i, of "\<lambda>j. (request_cancel j, [JfAbort i])"] request_cancel_ok [OF ok True] by simp_all
    have "i < length (jr_objects ?r)" "\<not> jb_gateOpen (jr_objects ?r ! i)"
      using i by (simp_all add: put_fx_def set_job_def request_cancel_def closeGate_def)
    note c = put_cancel_step [OF r(1) this]
    have "jb_phase ?j \<noteq> PhSettled" "jb_phase ?j \<noteq> PhCancelRequested" using ok True by (auto simp: job_ok_def job_phase_ok_def)
    then show ?thesis using c grows_trans [OF assms r] assms by (simp add: cancel_job_def Some Let_def)
  next
    case False
    then have "jb_phase ?j = PhSettled \<or> jb_phase ?j = PhCancelRequested"
      using ok by (cases "jb_phase ?j") (auto simp: job_ok_def job_phase_ok_def)
    then show ?thesis using put_cancel_step [OF assms i False] assms by (auto simp: cancel_job_def Some Let_def)
  qed
qed

lemma cancel_end_step:
  assumes "reg_ok r" and "k < length (jr_cancels r)"
  shows "reg_ok (cancel_waited k r) \<and> grows r (cancel_waited k r)" "reg_ok (cancel_finish d e k r) \<and> grows r (cancel_finish d e k r)"
proof -
  let ?c = "jr_cancels r ! k"
  have c: "call_ok (jr_objects r) ?c" using assms by (simp add: reg_ok_def list_all_length)
  have upd: "reg_ok (r\<lparr>jr_cancels := (jr_cancels r)[k := c']\<rparr>) \<and> grows r (r\<lparr>jr_cancels := (jr_cancels r)[k := c']\<rparr>)"
    if "call_ok (jr_objects r) c'" for c'
    using assms that set_update_subset_insert [of "jr_cancels r" k c'] by (intro registry_same) (auto simp: reg_ok_def list_all_iff)
  show "reg_ok (cancel_waited k r) \<and> grows r (cancel_waited k r)"
    using assms(1) c upd by (auto simp: cancel_waited_def Let_def call_ok_def)
  show "reg_ok (cancel_finish d e k r) \<and> grows r (cancel_finish d e k r)"
  proof (cases "\<not> cc_done ?c \<and> cc_drained ?c \<noteq> None")
    case True
    then obtain drained where drained: "\<not> cc_done ?c" "cc_drained ?c = Some drained" by blast
    let ?r = "r\<lparr>jr_cancels := (jr_cancels r)[k := ?c\<lparr>cc_done := True\<rparr>]\<rparr>"
    have r: "reg_ok ?r" "grows r ?r" using upd [of "?c\<lparr>cc_done := True\<rparr>"] c by (simp_all add: call_ok_def)
    have i: "cc_job ?c < length (jr_objects ?r)" using c by (simp add: call_ok_def)
    have "step_ok (cc_job ?c) (jr_objects ?r ! cc_job ?c) (settle_cancelled d e (cc_job ?c) drained (jr_objects ?r ! cc_job ?c))"
      using settle_cancelled_ok [OF nth_job_ok [OF r(1) i], of drained] c drained by (simp add: call_ok_def)
    note step = with_job_step [OF r(1) i, of "settle_cancelled d e (cc_job ?c) drained", OF this]
    have "cancel_finish d e k r = with_job (cc_job ?c) (settle_cancelled d e (cc_job ?c) drained) ?r"
      using drained by (simp add: cancel_finish_def Let_def)
    then show ?thesis using step grows_trans [OF assms(1) r(1) r(2)] by simp
  qed (use assms(1) in \<open>auto simp: cancel_finish_def Let_def split: bool.splits option.splits\<close>)
qed

lemma job_step_ok:
  assumes "reg_ok r" and "job_op_ok op r"
  shows "reg_ok (job_step d e op r) \<and> grows r (job_step d e op r)"
proof (cases op)
  case (JoStart i)
  then show ?thesis using assms with_job_step [of r i "start_job e"] start_ok nth_job_ok by (simp add: job_step_def job_op_ok_def)
next
  case (JoReturn i oc)
  then show ?thesis using assms with_job_step [of r i "return_job oc"] return_ok nth_job_ok by (simp add: job_step_def job_op_ok_def)
next
  case (JoSettle i)
  then show ?thesis using assms with_job_step [of r i "settle_job d e i"] settle_job_ok nth_job_ok by (simp add: job_step_def job_op_ok_def)
next
  case (JoBeginActivity i)
  then show ?thesis using assms with_job_step [of r i "\<lambda>j. (fst (beginActivity j), [])"] calm_step_ok [OF _ begin_activity_calm] nth_job_ok
    by (simp add: job_step_def job_op_ok_def)
next
  case (JoEndActivity i t)
  then show ?thesis using assms with_job_step [of r i "\<lambda>j. (endActivity t j, [])"] calm_step_ok [OF _ end_activity_calm] nth_job_ok
    by (simp add: job_step_def job_op_ok_def)
next
  case (JoUpdate jobId t x)
  then show ?thesis using assms set_job_step [OF assms(1) _ progress_calm] find_job_bound [OF assms(1)]
    by (auto simp: job_step_def update_job_def find_job_Inr split: sum.splits)
next
  case (JoAttach jobId)
  then show ?thesis using assms set_job_step [OF assms(1) _ attach_calm] find_job_bound [OF assms(1)]
    by (auto simp: job_step_def attachSupervision_def find_job_Inr Let_def split: sum.splits)
next
  case (JoPrepareProvisional jobId kind point)
  then show ?thesis using assms prepare_step [OF assms(1)] find_job_bound [OF assms(1)]
    by (auto simp: job_step_def prepareProvisional_def find_job_Inr Let_def split: sum.splits)
next
  case (JoPrepareExact jobId kind point pane strong)
  then show ?thesis using assms prepare_step [OF assms(1)] find_job_bound [OF assms(1)]
    by (auto simp: job_step_def prepareExact_def find_job_Inr Let_def split: sum.splits)
qed (use assms register_step commit_step cancel_step cancel_end_step teardown_step in \<open>simp_all add: job_step_def job_op_ok_def\<close>)

lemma job_trace_ok: "reg_ok r \<Longrightarrow> reg_ok (job_trace d ops r) \<and> grows r (job_trace d ops r)"
proof (induction ops arbitrary: r)
  case (Cons op ops)
  have step: "reg_ok (job_do d op r) \<and> grows r (job_do d op r)"
    using job_step_ok Cons.prems by (auto simp: job_do_def split: prod.splits)
  then have "reg_ok (job_trace d ops (job_do d op r)) \<and> grows (job_do d op r) (job_trace d ops (job_do d op r))"
    using Cons.IH by blast
  then show ?case using step grows_trans [OF Cons.prems] by (simp add: job_trace_def) blast
qed (simp add: job_trace_def)

lemma initial_ok: "reg_ok initial_registry"
  by (simp add: reg_ok_def initial_registry_def notified_ok_def)

lemma notified_bound: "notified_ok js out \<Longrightarrow> length (filter (notifies i) out) \<le> 1 \<and> length (filter (calls_back i) out) \<le> 1"
  unfolding notified_ok_def Let_def by (drule spec [of _ i]) (simp split: if_splits)

section \<open>A job settles once\<close>

text \<open>
  C15. A job settles once: whatever steps follow, in any order, a settled job keeps its outcome, error,
  cancellation reason and finish time, and neither its mailbox event nor its terminal callback is
  issued again, so each is issued at most once in the life of the job.
\<close>

theorem job_settles_once:
  assumes "r = job_trace d ops initial_registry" and "r' = job_trace d later r"
    and "i < length (jr_objects r)" and "settled (jr_objects r ! i)"
  shows "settled (jr_objects r' ! i) \<and> settlement (jr_objects r' ! i) = settlement (jr_objects r ! i)
       \<and> filter (notifies i) (jr_out r') = filter (notifies i) (jr_out r) \<and> length (filter (notifies i) (jr_out r')) \<le> 1
       \<and> filter (calls_back i) (jr_out r') = filter (calls_back i) (jr_out r) \<and> length (filter (calls_back i) (jr_out r')) \<le> 1"
proof -
  have r: "reg_ok r" unfolding assms(1) by (simp add: job_trace_ok initial_ok)
  have r': "reg_ok r'" "grows r r'" using job_trace_ok [OF r, of d later] by (simp_all add: assms(2))
  obtain fx where fx: "jr_out r' = jr_out r @ fx" "filter (notifies i) fx = []" "filter (calls_back i) fx = []"
    using r'(2) assms(3,4) unfolding grows_def by blast
  have "evolves (jr_objects r ! i) (jr_objects r' ! i)" using r'(2) assms(3) by (simp add: grows_def)
  moreover have "length (filter (notifies i) (jr_out r')) \<le> 1" "length (filter (calls_back i) (jr_out r')) \<le> 1"
    using r'(1) notified_bound by (auto simp: reg_ok_def)
  ultimately show ?thesis using assms(4) fx by (simp add: evolves_def)
qed

section \<open>A cancellation is reported honestly\<close>


section \<open>What cancels a job\<close>

lemma with_job_nth: "i < length (jr_objects r) \<Longrightarrow> jr_objects (with_job i f r) ! k = (if k = i then fst (f (jr_objects r ! i)) else jr_objects r ! k)"
  by (simp add: with_job_def put_fx_def set_job_def case_prod_beta nth_list_update)

lemma set_job_nth: "i < length (jr_objects r) \<Longrightarrow> jr_objects (set_job i j r) ! k = (if k = i then j else jr_objects r ! k)"
  by (simp add: set_job_def nth_list_update)

lemma settle_not_requested: "jb_phase j \<noteq> PhCancelRequested \<Longrightarrow> jb_phase (fst (settle_job d e i j)) \<noteq> PhCancelRequested"
  by (auto simp: settle_job_def settle_returned_def settleSupervisionLocked_def settleLocked_def settleOnce_def late_def Let_def closeGate_def
      split: exec_stage.splits option.splits run_outcome.splits if_splits)

lemma settle_cancelled_phase: "jb_phase j \<noteq> PhCancelRequested \<Longrightarrow> jb_phase (fst (settle_cancelled d e i drained j)) \<noteq> PhCancelRequested"
  by (simp add: settle_cancelled_def settleGenericLocked_def settleSupervisionLocked_def settleLocked_def settleOnce_def Let_def closeGate_def
      split: option.splits)

lemma index_bounds:
  assumes "reg_ok r"
  shows "map_of (jr_jobs r) jobId = Some k \<Longrightarrow> k < length (jr_objects r)"
    and "m < length (jr_pubs r) \<Longrightarrow> bp_job (jr_pubs r ! m) < length (jr_objects r)"
    and "n < length (jr_cancels r) \<Longrightarrow> cc_job (jr_cancels r ! n) < length (jr_objects r)"
  using find_job_bound [OF assms] assms by (simp_all add: reg_ok_def list_all_length call_ok_def)

text \<open>The steps of binding a child and of reporting about it: none moves a job to another phase.\<close>

definition binding_op :: "job_op \<Rightarrow> bool" where
  "binding_op op \<longleftrightarrow> (case op of JoUpdate _ _ _ \<Rightarrow> True | JoAttach _ \<Rightarrow> True | JoPrepareProvisional _ _ _ \<Rightarrow> True
     | JoPrepareExact _ _ _ _ _ \<Rightarrow> True | JoCommit _ \<Rightarrow> True | JoRollback _ \<Rightarrow> True | JoPublish _ \<Rightarrow> True | _ \<Rightarrow> False)"

lemma binding_keeps_phase:
  assumes "reg_ok r" and "job_op_ok op r" and "binding_op op"
  shows "jb_phase (jr_objects (job_step d e op r) ! i) = jb_phase (jr_objects r ! i)"
proof (cases op)
  case (JoUpdate jobId t x)
  then show ?thesis using index_bounds(1) [OF assms(1)]
    by (auto simp: job_step_def update_job_def find_job_Inr set_job_nth update_progress_def split: sum.splits if_splits)
next
  case (JoAttach jobId)
  then show ?thesis using index_bounds(1) [OF assms(1)]
    by (auto simp: job_step_def attachSupervision_def find_job_Inr set_job_nth Let_def split: sum.splits if_splits)
next
  case (JoPrepareProvisional jobId kind point)
  then show ?thesis by (auto simp: job_step_def prepareProvisional_def put_pub_def Let_def split: sum.splits)
next
  case (JoPrepareExact jobId kind point pane strong)
  then show ?thesis by (auto simp: job_step_def prepareExact_def put_pub_def Let_def split: sum.splits)
next
  case (JoCommit k)
  then show ?thesis using index_bounds(2) [OF assms(1)] assms(2)
    by (auto simp: job_step_def pub_commit_def job_op_ok_def set_pub_def set_job_nth rebind_def Let_def split: sum.splits option.splits if_splits)
next
  case (JoRollback k)
  then show ?thesis using index_bounds(2) [OF assms(1)] assms(2)
    by (auto simp: job_step_def pub_rollback_def job_op_ok_def set_pub_def set_job_nth rebind_def Let_def split: if_splits)
next
  case (JoPublish k)
  then show ?thesis by (auto simp: job_step_def pub_publish_def set_pub_def Let_def split: sum.splits)
qed (use assms(3) in \<open>simp_all add: binding_op_def\<close>)

text \<open>
  C19. Only an admitted cancellation or a session teardown stops an open job: if a step takes a job
  whose gate is open to \<open>cancel_requested\<close> outside a teardown, that step is a \<open>cancel\<close> of this job, and at
  that moment it had no supervision port or its child was not live. A supervisor with a live child is
  refused.
\<close>

theorem live_child_is_not_cancelled:
  assumes "i < length (jr_objects (job_trace d ops initial_registry))"
  defines "r \<equiv> job_trace d ops initial_registry"
  assumes "jb_gateOpen (jr_objects r ! i)" and "jb_phase (jr_objects (job_do d (e, op) r) ! i) = PhCancelRequested"
    and "op \<noteq> JoBeginSession" and "op \<noteq> JoShutdown"
  shows "\<exists>jobId. op = JoCancel jobId \<and> map_of (jr_jobs r) jobId = Some i \<and> (\<not> jb_port (jr_objects r ! i) \<or> \<not> jv_childLive e)"
proof -
  have ok: "reg_ok r" unfolding r_def by (simp add: job_trace_ok initial_ok)
  have i: "i < length (jr_objects r)" using assms(1) by (simp add: r_def)
  let ?j = "jr_objects r ! i"
  have p: "jb_phase ?j \<noteq> PhCancelRequested" "jb_phase ?j \<noteq> PhSettled"
    using nth_job_ok [OF ok i] assms(3) by (auto simp: job_ok_def job_phase_ok_def)
  have op: "job_op_ok op r" using assms(4) p by (auto simp: job_do_def split: if_splits)
  have after: "jb_phase (jr_objects (job_step d e op r) ! i) = PhCancelRequested" using assms(4) op by (simp add: job_do_def)
  note bound = index_bounds [OF ok]
  have "\<not> binding_op op" using binding_keeps_phase [OF ok op] after p by auto
  then show ?thesis
  proof (cases op)
    case (JoCancel jobId)
    then show ?thesis using after p bound(1)
      by (auto simp: job_step_def cancel_job_def put_cancel_def put_fx_def set_job_nth Let_def split: option.splits if_splits)
  next
    case (JoCancelFinish k)
    have "jb_phase (jr_objects (with_job c (settle_cancelled d e c b) x) ! i) \<noteq> PhCancelRequested"
      if "jr_objects x = jr_objects r" "c < length (jr_objects r)" for c b x
      using that p settle_cancelled_phase by (auto simp: with_job_nth)
    then show ?thesis using after JoCancelFinish p bound(3) op
      by (auto simp: job_step_def cancel_finish_def job_op_ok_def Let_def split: bool.splits option.splits)
  next
    case (JoSettle k)
    then show ?thesis using after p settle_not_requested op by (auto simp: job_step_def job_op_ok_def with_job_nth split: if_splits)
  next
    case (JoStart k)
    then show ?thesis using after p op by (auto simp: job_step_def job_op_ok_def with_job_nth start_job_def split: if_splits)
  next
    case (JoReturn k oc)
    then show ?thesis using after p op by (auto simp: job_step_def job_op_ok_def with_job_nth return_job_def split: if_splits)
  next
    case (JoRegister q jobId g)
    then show ?thesis using after p i by (auto simp: job_step_def register_def nth_append split: if_splits)
  next
    case (JoBeginActivity k)
    then show ?thesis using after p op by (auto simp: job_step_def job_op_ok_def with_job_nth beginActivity_def split: if_splits)
  next
    case (JoEndActivity k t)
    then show ?thesis using after p op by (auto simp: job_step_def job_op_ok_def with_job_nth endActivity_def split: if_splits)
  next
    case (JoCancelWaited k)
    then show ?thesis using after p by (auto simp: job_step_def cancel_waited_def Let_def split: if_splits)
  qed (use assms(5,6) in \<open>simp_all add: binding_op_def\<close>)
qed

section \<open>Listing page by page\<close>

lemma page_limit_bounds: "0 < page_limit limit" "page_limit limit \<le> PUBLIC_LIST_JOBS"
  by (simp_all add: page_limit_def PUBLIC_LIST_JOBS_def)

lemma list_jobs_page:
  "pg_jobs (list_jobs ph k off limit r) = take (page_limit limit) (drop off (newest_jobs (job_filter ph k) r))"
  "pg_nextOffset (list_jobs ph k off limit r)
   = (if off + page_limit limit < length (newest_jobs (job_filter ph k) r) then Some (off + page_limit limit) else None)"
  using page_limit_bounds(1) [of limit] by (auto simp: list_jobs_def Let_def min_def)

text \<open>Following \<open>nextOffset\<close> from a first request.\<close>

function all_pages :: "phase option \<Rightarrow> job_kind option \<Rightarrow> int \<Rightarrow> registry \<Rightarrow> nat \<Rightarrow> job list" where
  "all_pages ph k limit r off =
     (case pg_nextOffset (list_jobs ph k off limit r) of
        None \<Rightarrow> pg_jobs (list_jobs ph k off limit r)
      | Some n \<Rightarrow> pg_jobs (list_jobs ph k off limit r) @ all_pages ph k limit r n)"
  by pat_completeness auto
termination
  by (relation "measure (\<lambda>(ph, k, limit, r, off). length (newest_jobs (job_filter ph k) r) - off)")
    (auto simp: list_jobs_page page_limit_bounds(1) split: if_splits intro!: diff_less_mono2)

declare all_pages.simps [simp del]

lemma all_pages_drop: "all_pages ph k limit r off = drop off (newest_jobs (job_filter ph k) r)"
proof (induction ph k limit r off rule: all_pages.induct)
  case (1 ph k limit r off)
  let ?js = "newest_jobs (job_filter ph k) r"
  show ?case
  proof (cases "off + page_limit limit < length ?js")
    case True
    then have "all_pages ph k limit r (off + page_limit limit) = drop (off + page_limit limit) ?js"
      using 1 by (simp add: list_jobs_page)
    moreover have "drop (off + page_limit limit) ?js = drop (page_limit limit) (drop off ?js)" by (simp add: add.commute)
    ultimately show ?thesis using True by (simp only: all_pages.simps [of ph k limit r off] list_jobs_page if_True option.case append_take_drop_id)
  qed (simp add: all_pages.simps [of ph k limit r off] list_jobs_page)
qed

text \<open>
  C20. A listing is complete whatever the page size: for every filter and every requested limit, following
  \<open>nextOffset\<close> from the first page ends, no page is larger than \<open>PUBLIC_LIST_JOBS\<close>, and the pages
  together are the registered jobs of the filter, each exactly once, newest first.
\<close>

theorem pages_cover_jobs:
  "mset (all_pages ph k limit r 0) = mset (filter (job_filter ph k) (live_jobs r))
   \<and> sorted_wrt (\<lambda>a b. jb_sequence b \<le> jb_sequence a) (all_pages ph k limit r 0)
   \<and> length (pg_jobs (list_jobs ph k off limit r)) \<le> PUBLIC_LIST_JOBS"
proof -
  have "sorted (map (\<lambda>j. - int (jb_sequence j)) (newest_jobs (job_filter ph k) r))" by (simp add: newest_jobs_def)
  then have "sorted_wrt (\<lambda>a b. jb_sequence b \<le> jb_sequence a) (newest_jobs (job_filter ph k) r)"
    by (simp add: sorted_map)
  moreover have "length (pg_jobs (list_jobs ph k off limit r)) \<le> PUBLIC_LIST_JOBS"
    using page_limit_bounds(2) [of limit] unfolding list_jobs_page(1) by simp
  ultimately show ?thesis by (simp add: all_pages_drop newest_jobs_def)
qed

section \<open>A concrete registry\<close>

definition example_deps :: job_deps where
  "example_deps = \<lparr>jd_truncateTail = (\<lambda>s _ _. s), jd_numStr = (\<lambda>_. ''0''), jd_writer = True, jd_onTerminal = True, jd_laneRetired = (\<lambda>_. False)\<rparr>"

definition example_step :: job_env where
  "example_step = \<lparr>jv_now = 1, jv_view = None, jv_childLive = False, jv_handoff = None\<rparr>"

definition example_request :: "job_kind \<Rightarrow> job_request" where
  "example_request k = \<lparr>jq_kind = k, jq_label = ''l'', jq_targets = [''w''], jq_targetIds = [], jq_refs = Some [''g''],
     jq_child = \<lparr>jc_agentName = ''w'', jc_agentKind = ''pi'', jc_operatingPointId = ''op'', jc_requestedAgentKind = None,
       jc_requestedOperatingPointId = None\<rparr>, jq_settings = JNull\<rparr>"

definition example_ops :: "job_op list \<Rightarrow> (job_env \<times> job_op) list" where
  "example_ops ops = map (\<lambda>op. (example_step, op)) ops"

definition finished_wait :: "job_op list" where
  "finished_wait = [JoRegister (example_request JkWait) ''job_a'' 0, JoStart 0,
     JoReturn 0 (RunWait \<lparr>wr_wait_result = WrConditionMet, wr_matched = True, wr_reason = None, wr_evidence = JNull\<rparr>), JoSettle 0]"

definition cancelled_wait :: "job_op list" where
  "cancelled_wait = [JoRegister (example_request JkWait) ''job_a'' 0, JoStart 0, JoCancel ''job_a'',
     JoReturn 0 (RunThrew \<lparr>er_code = Some ''ABORTED'', er_message = ''aborted'', er_details = None\<rparr> None), JoCancelWaited 0, JoCancelFinish 0]"

lemma example_runs:
  "0 < length (jr_objects (job_trace example_deps (example_ops finished_wait) initial_registry))"
  "settled (jr_objects (job_trace example_deps (example_ops finished_wait) initial_registry) ! 0)"
  "0 < length (jr_objects (job_trace example_deps (example_ops cancelled_wait) initial_registry))"
  "jb_phase (jr_objects (job_trace example_deps (example_ops cancelled_wait) initial_registry) ! 0) = PhSettled"
  "jb_cancelReason (jr_objects (job_trace example_deps (example_ops cancelled_wait) initial_registry) ! 0) = Some CrCancelled"
  "job_outcome (jr_objects (job_trace example_deps (example_ops cancelled_wait) initial_registry) ! 0) = Some ''cancelled''"
  "0 < length (jr_objects (job_trace example_deps (example_ops (take 2 cancelled_wait)) initial_registry))"
  "jb_gateOpen (jr_objects (job_trace example_deps (example_ops (take 2 cancelled_wait)) initial_registry) ! 0)"
  "jb_phase (jr_objects (job_do example_deps (example_step, JoCancel ''job_a'')
     (job_trace example_deps (example_ops (take 2 cancelled_wait)) initial_registry)) ! 0) = PhCancelRequested"
  "length (filter (calls_back 0) (jr_out (job_trace example_deps (example_ops finished_wait) initial_registry))) = 1"
  by code_simp+

theorem job_settles_once_witness:
  "let r = job_trace example_deps (example_ops finished_wait) initial_registry;
       r' = job_trace example_deps (example_ops [JoCancel ''job_a'', JoSettle 0, JoShutdown]) r
   in settled (jr_objects r' ! 0) \<and> settlement (jr_objects r' ! 0) = settlement (jr_objects r ! 0)
     \<and> filter (calls_back 0) (jr_out r') = filter (calls_back 0) (jr_out r) \<and> length (filter (calls_back 0) (jr_out r)) = 1"
  using job_settles_once [OF refl refl example_runs(1,2), of "example_ops [JoCancel ''job_a'', JoSettle 0, JoShutdown]"]
    example_runs(10) unfolding Let_def by blast


theorem live_child_is_not_cancelled_witness:
  "\<exists>jobId. JoCancel ''job_a'' = JoCancel jobId
     \<and> map_of (jr_jobs (job_trace example_deps (example_ops (take 2 cancelled_wait)) initial_registry)) jobId = Some 0
     \<and> (\<not> jb_port (jr_objects (job_trace example_deps (example_ops (take 2 cancelled_wait)) initial_registry) ! 0) \<or> \<not> jv_childLive example_step)"
  by (rule live_child_is_not_cancelled [OF example_runs(7-9)]) simp_all

end
