(* ===== verification/Close_Topology.thy ===== *)
theory Close_Topology
  imports Topology
begin

text \<open>
  What closing a pane, a tab or a workspace takes with it (\<open>src/close.ts\<close>): the resources contained in the
  target, and every container it leaves empty. A close is refused when one of them is the caller's own
  pane, tab or workspace, or when the topology is malformed. The set \<open>visited\<close> of the source is the set of
  keys of the resources collected so far, so the model keeps the list alone.
\<close>

section \<open>Topologies\<close>

datatype close_kind = CkPane | CkTab | CkWorkspace

fun close_kind_name :: "close_kind \<Rightarrow> string" where
  "close_kind_name CkPane = ''pane''"
| "close_kind_name CkTab = ''tab''"
| "close_kind_name CkWorkspace = ''workspace''"

record close_node =
  cn_kind :: close_kind
  cn_id :: string
  cn_parentId :: "string option"
  cn_children :: "string list"

record close_caller =
  ca_paneId :: "string option"
  ca_tabId :: "string option"
  ca_workspaceId :: "string option"

record close_topology =
  ct_nodes :: "close_node list"
  ct_caller :: close_caller

definition resource_key :: "close_kind \<Rightarrow> string \<Rightarrow> string" where
  "resource_key k i = close_kind_name k @ '':'' @ i"

definition node_key :: "close_node \<Rightarrow> string" where
  "node_key n = resource_key (cn_kind n) (cn_id n)"

text \<open>The values of the map of nodes: a repeated key keeps its place and takes the later node.\<close>

definition node_map :: "close_node list \<Rightarrow> (string \<times> close_node) list" where
  "node_map ns = foldl (\<lambda>m n. al_put (node_key n) n m) [] ns"

definition node_values :: "close_node list \<Rightarrow> close_node list" where
  "node_values ns = map snd (node_map ns)"

definition names_parent :: "string \<Rightarrow> close_node \<Rightarrow> bool" where
  "names_parent p n \<longleftrightarrow> cn_id n = p \<or> node_key n = p"

fun add_children :: "close_node list \<Rightarrow> string list \<Rightarrow> close_node list \<Rightarrow> close_node list" where
  "add_children ns [] result = result"
| "add_children ns (c # cs) result =
     add_children ns cs
       (case find (\<lambda>n. cn_id n = c) ns of
          None \<Rightarrow> result
        | Some n \<Rightarrow> if list_ex (\<lambda>r. node_key r = node_key n) result then result else result @ [n])"

definition directChildren :: "close_node list \<Rightarrow> close_node \<Rightarrow> close_node list" where
  "directChildren ns n =
     add_children ns (cn_children n)
       (filter (\<lambda>c. case cn_parentId c of None \<Rightarrow> False | Some p \<Rightarrow> names_parent p n) ns)"

definition parentNode :: "close_node list \<Rightarrow> close_node \<Rightarrow> close_node option" where
  "parentNode ns n =
     (case cn_parentId n of None \<Rightarrow> None | Some p \<Rightarrow> if p = [] then None else find (names_parent p) ns)"

definition node_malformed :: "close_node list \<Rightarrow> close_node \<Rightarrow> bool" where
  "node_malformed ns n \<longleftrightarrow>
     (case cn_parentId n of None \<Rightarrow> False | Some p \<Rightarrow> p \<noteq> [] \<and> \<not> list_ex (names_parent p) ns)
     \<or> \<not> distinct (cn_children n) \<or> list_ex (\<lambda>c. \<not> list_ex (\<lambda>m. cn_id m = c) ns) (cn_children n)"

section \<open>The affected resources\<close>

definition seen :: "close_node list \<Rightarrow> close_node \<Rightarrow> bool" where
  "seen rs n \<longleftrightarrow> node_key n \<in> node_key ` set rs"

lemma add_children_subset: "set result \<subseteq> set ns \<Longrightarrow> set (add_children ns cs result) \<subseteq> set ns"
proof (induction cs arbitrary: result)
  case (Cons c cs)
  then show ?case by (auto split: option.splits simp: find_Some_iff intro!: Cons.IH)
qed simp

lemma directChildren_subset: "set (directChildren ns n) \<subseteq> set ns"
  unfolding directChildren_def by (rule add_children_subset) auto

text \<open>The recursive \<open>visit\<close>, with the nodes still to be visited as a list.\<close>

function visit_all :: "close_node list \<Rightarrow> close_node list \<Rightarrow> close_node list \<Rightarrow> close_node list" where
  "visit_all ns [] rs = rs"
| "visit_all ns (n # todo) rs =
     (if seen rs n then visit_all ns todo rs else visit_all ns (directChildren ns n @ todo) (rs @ [n]))"
  by pat_completeness auto
termination
proof (relation "measures [\<lambda>(ns, todo, rs). card (node_key ` (set ns \<union> set todo) - node_key ` set rs), \<lambda>(ns, todo, rs). length todo]")
  fix ns n todo and rs :: "close_node list"
  show "seen rs n \<Longrightarrow> ((ns, todo, rs), (ns, n # todo, rs))
      \<in> measures [\<lambda>(ns, todo, rs). card (node_key ` (set ns \<union> set todo) - node_key ` set rs), \<lambda>(ns, todo, rs). length todo]"
    by (simp add: seen_def insert_Diff_if)
  assume new: "\<not> seen rs n"
  have "node_key ` (set ns \<union> set (directChildren ns n @ todo)) - node_key ` set (rs @ [n])
      \<subset> node_key ` (set ns \<union> set (n # todo)) - node_key ` set rs"
    using new directChildren_subset [of ns n] by (auto simp: seen_def)
  then show "((ns, directChildren ns n @ todo, rs @ [n]), (ns, n # todo, rs))
      \<in> measures [\<lambda>(ns, todo, rs). card (node_key ` (set ns \<union> set todo) - node_key ` set rs), \<lambda>(ns, todo, rs). length todo]"
    by (simp add: psubset_card_mono)
qed simp

lemmas visit_all_Cons = visit_all.simps(2)

declare visit_all.simps(2) [simp del]

lemma visit_all_mono: "set rs \<subseteq> set (visit_all ns todo rs)"
  by (induction ns todo rs rule: visit_all.induct) (auto simp: visit_all_Cons)

lemma visit_all_seen: "n \<in> set todo \<Longrightarrow> seen (visit_all ns todo rs) n"
proof (induction ns todo rs rule: visit_all.induct)
  case (2 ns m todo rs)
  then show ?case using visit_all_mono [of "rs @ [m]" ns "directChildren ns m @ todo"] visit_all_mono [of rs ns todo]
    by (auto simp: seen_def visit_all_Cons)
qed simp

text \<open>
  The climb from the target to containers all of whose children are gone. The flag is whether a
  parent had been visited already.
\<close>

function climb :: "close_node list \<Rightarrow> close_node \<Rightarrow> close_node list \<Rightarrow> close_node list \<times> bool" where
  "climb ns child rs =
     (case parentNode ns child of
        None \<Rightarrow> (rs, False)
      | Some p \<Rightarrow>
          if seen rs p then (rs, True)
          else if filter (\<lambda>c. \<not> seen rs c) (directChildren ns p) \<noteq> [] then (rs, False)
          else climb ns p (visit_all ns [p] rs))"
  by pat_completeness auto
termination
proof (relation "measure (\<lambda>(ns, child, rs). card (node_key ` set ns - node_key ` set rs))")
  fix ns child p and rs :: "close_node list"
  assume p: "parentNode ns child = Some p" and new: "\<not> seen rs p"
  have p': "p \<in> set ns" using p by (auto simp: parentNode_def find_Some_iff split: option.splits if_splits)
  have there: "seen (visit_all ns [p] rs) p" by (rule visit_all_seen) simp
  have "node_key ` set ns - node_key ` set (visit_all ns [p] rs) \<subset> node_key ` set ns - node_key ` set rs"
  proof (rule psubsetI)
    show "node_key ` set ns - node_key ` set (visit_all ns [p] rs) \<subseteq> node_key ` set ns - node_key ` set rs"
      using visit_all_mono [of rs ns "[p]"] by auto
    have "node_key p \<notin> node_key ` set ns - node_key ` set (visit_all ns [p] rs)" using there by (simp add: seen_def)
    moreover have "node_key p \<in> node_key ` set ns - node_key ` set rs" using new p' by (simp add: seen_def)
    ultimately show "node_key ` set ns - node_key ` set (visit_all ns [p] rs) \<noteq> node_key ` set ns - node_key ` set rs" by blast
  qed
  then show "((ns, p, visit_all ns [p] rs), (ns, child, rs)) \<in> measure (\<lambda>(ns, child, rs). card (node_key ` set ns - node_key ` set rs))"
    by (simp add: psubset_card_mono)
qed simp

declare climb.simps [simp del]

definition close_root :: "close_node list \<Rightarrow> close_node \<Rightarrow> close_node" where
  "close_root ns target = (case find (\<lambda>n. node_key n = node_key target) ns of None \<Rightarrow> target | Some n \<Rightarrow> n)"

definition collectAffected :: "close_topology \<Rightarrow> close_node \<Rightarrow> close_node list \<times> bool" where
  "collectAffected t target =
     (let ns = node_values (ct_nodes t);
          malformed = \<not> distinct (map node_key (ct_nodes t)) \<or> list_ex (node_malformed ns) ns;
          start = close_root ns target;
          rs = visit_all ns [start] []
      in case find (\<lambda>n. node_key n = node_key start) ns of
           None \<Rightarrow> (rs, malformed)
         | Some child \<Rightarrow> (case climb ns child rs of (all, cyclic) \<Rightarrow> (all, malformed \<or> cyclic)))"

section \<open>The verdict\<close>

datatype close_code = ProtectedResource | TopologyInvalid

datatype close_validation = CloseAllowed "string list" | CloseRefused close_code "string list"

definition opt_key :: "close_kind \<Rightarrow> string option \<Rightarrow> string list" where
  "opt_key k i = (case i of None \<Rightarrow> [] | Some s \<Rightarrow> if s = [] then [] else [resource_key k s])"

definition protected_keys :: "close_caller \<Rightarrow> string list" where
  "protected_keys c = opt_key CkPane (ca_paneId c) @ opt_key CkTab (ca_tabId c) @ opt_key CkWorkspace (ca_workspaceId c)"

definition validateClose :: "close_topology \<Rightarrow> close_node \<Rightarrow> close_validation" where
  "validateClose t target =
     (let (rs, malformed) = collectAffected t target; ids = map cn_id rs in
      if malformed then CloseRefused TopologyInvalid ids
      else if list_ex (\<lambda>r. node_key r \<in> set (protected_keys (ct_caller t))) rs then CloseRefused ProtectedResource ids
      else CloseAllowed ids)"

section \<open>Topologies of a snapshot\<close>

definition workspace_node :: "jsval \<Rightarrow> close_node" where
  "workspace_node v = \<lparr>cn_kind = CkWorkspace, cn_id = id_of ''workspace_id'' v, cn_parentId = None, cn_children = []\<rparr>"

definition tab_node :: "jsval \<Rightarrow> close_node" where
  "tab_node v = \<lparr>cn_kind = CkTab, cn_id = id_of ''tab_id'' v, cn_parentId = Some (id_of ''workspace_id'' v), cn_children = []\<rparr>"

definition pane_node :: "bool \<Rightarrow> jsval \<Rightarrow> close_node" where
  "pane_node nested v = \<lparr>cn_kind = CkPane, cn_id = id_of ''pane_id'' v,
     cn_parentId = Some (if nested \<and> is_str (\<lambda>_. True) (jget ''parent_id'' v) then id_of ''parent_id'' v else id_of ''tab_id'' v),
     cn_children = []\<rparr>"

definition paneCloseTopology :: "snapshot \<Rightarrow> close_caller \<Rightarrow> close_topology" where
  "paneCloseTopology sn caller = \<lparr>ct_nodes = map workspace_node (sn_workspaces sn) @ map tab_node (sn_tabs sn)
     @ map (pane_node True) (sn_panes sn), ct_caller = caller\<rparr>"

definition tabCloseTopology :: "snapshot \<Rightarrow> close_caller \<Rightarrow> close_topology" where
  "tabCloseTopology sn caller = \<lparr>ct_nodes = map workspace_node (sn_workspaces sn) @ map tab_node (sn_tabs sn)
     @ map (pane_node False) (sn_panes sn), ct_caller = caller\<rparr>"

definition snapshotIds :: "snapshot \<Rightarrow> string list" where
  "snapshotIds sn = map (id_of ''workspace_id'') (sn_workspaces sn) @ map (id_of ''tab_id'') (sn_tabs sn)
     @ map (id_of ''pane_id'') (sn_panes sn)"

definition boundedIds :: "string list \<Rightarrow> nat \<Rightarrow> string list \<times> nat" where
  "boundedIds ids limit = (take limit ids, length ids - limit)"

definition omitted_field :: "string \<Rightarrow> nat \<Rightarrow> (string \<times> jsval) list" where
  "omitted_field k n = (if n = 0 then [] else [(k, JNum (of_nat n))])"

definition topologySummary :: "snapshot \<Rightarrow> jsval" where
  "topologySummary sn =
     (let (ws, wo) = boundedIds (map (id_of ''workspace_id'') (sn_workspaces sn)) 8;
          (ts, to) = boundedIds (map (id_of ''tab_id'') (sn_tabs sn)) 16;
          (ps, po) = boundedIds (map (id_of ''pane_id'') (sn_panes sn)) 32
      in JObj ([(''workspaceCount'', JNum (of_nat (length (sn_workspaces sn)))), (''tabCount'', JNum (of_nat (length (sn_tabs sn)))),
          (''paneCount'', JNum (of_nat (length (sn_panes sn)))), (''workspaceIds'', JArr (map JStr ws)),
          (''tabIds'', JArr (map JStr ts)), (''paneIds'', JArr (map JStr ps))]
         @ omitted_field ''workspaceIdsOmitted'' wo @ omitted_field ''tabIdsOmitted'' to @ omitted_field ''paneIdsOmitted'' po))"

section \<open>What a close takes with it\<close>

text \<open>
  The reference: the target, what is contained in an affected resource, and every container all of whose
  children are affected.
\<close>

inductive affected :: "close_node list \<Rightarrow> close_node \<Rightarrow> close_node \<Rightarrow> bool" for ns start where
  target: "affected ns start start"
| contained: "affected ns start n \<Longrightarrow> c \<in> set (directChildren ns n) \<Longrightarrow> affected ns start c"
| emptied: "affected ns start n \<Longrightarrow> parentNode ns n = Some p \<Longrightarrow>
    \<forall>c \<in> set (directChildren ns p). \<exists>c'. node_key c' = node_key c \<and> affected ns start c' \<Longrightarrow> affected ns start p"

text \<open>The chain of affected containers above the target.\<close>

inductive above :: "close_node list \<Rightarrow> close_node list \<Rightarrow> close_node \<Rightarrow> close_node \<Rightarrow> bool" for ns rs where
  itself: "above ns rs n n"
| parent: "parentNode ns n = Some p \<Longrightarrow> seen rs p \<Longrightarrow> above ns rs p q \<Longrightarrow> above ns rs n q"

definition contents_closed :: "close_node list \<Rightarrow> close_node list \<Rightarrow> bool" where
  "contents_closed ns rs \<longleftrightarrow> (\<forall>r \<in> set rs. \<forall>c \<in> set (directChildren ns r). seen rs c)"

definition no_empty_above :: "close_node list \<Rightarrow> close_node \<Rightarrow> close_node list \<Rightarrow> bool" where
  "no_empty_above ns n rs \<longleftrightarrow> (\<forall>c p. above ns rs n c \<longrightarrow> parentNode ns c = Some p \<longrightarrow> \<not> seen rs p
     \<longrightarrow> (\<exists>d \<in> set (directChildren ns p). \<not> seen rs d))"

lemma seen_mono: "seen rs n \<Longrightarrow> set rs \<subseteq> set rs' \<Longrightarrow> seen rs' n"
  by (auto simp: seen_def)

lemma visit_all_closed:
  assumes "\<forall>r \<in> set rs. \<forall>c \<in> set (directChildren ns r). seen (rs @ todo) c"
  shows "contents_closed ns (visit_all ns todo rs)"
  using assms
proof (induction ns todo rs rule: visit_all.induct)
  case (1 ns rs)
  then show ?case by (simp add: contents_closed_def)
next
  case (2 ns n todo rs)
  show ?case
  proof (cases "seen rs n")
    case True
    then have "seen (rs @ n # todo) c \<Longrightarrow> seen (rs @ todo) c" for c by (auto simp: seen_def)
    then show ?thesis using True 2 by (simp add: visit_all_Cons)
  next
    case False
    have "seen (rs @ n # todo) c \<Longrightarrow> seen ((rs @ [n]) @ directChildren ns n @ todo) c" for c by (auto simp: seen_def)
    moreover have "c \<in> set (directChildren ns n) \<Longrightarrow> seen ((rs @ [n]) @ directChildren ns n @ todo) c" for c by (auto simp: seen_def)
    ultimately have "\<forall>r \<in> set (rs @ [n]). \<forall>c \<in> set (directChildren ns r). seen ((rs @ [n]) @ directChildren ns n @ todo) c"
      using "2.prems" by auto
    then show ?thesis using False "2.IH"(2) by (simp add: visit_all_Cons)
  qed
qed

lemma visit_all_affected:
  "\<forall>n \<in> set rs \<union> set todo. affected ns start n \<Longrightarrow> \<forall>n \<in> set (visit_all ns todo rs). affected ns start n"
proof (induction ns todo rs rule: visit_all.induct)
  case (2 ns n todo rs)
  note IH = "2.IH" and prems = "2.prems"
  show ?case
  proof (cases "seen rs n")
    case False
    have "affected ns start n" using "2.prems" by simp
    then have kids: "m \<in> set (directChildren ns n) \<Longrightarrow> affected ns start m" for m by (rule affected.contained)
    have "\<forall>m \<in> set (rs @ [n]) \<union> set (directChildren ns n @ todo). affected ns start m"
    proof
      fix m assume "m \<in> set (rs @ [n]) \<union> set (directChildren ns n @ todo)"
      then consider "m \<in> set (directChildren ns n)" | "m \<in> set rs \<union> set (n # todo)" by auto
      then show "affected ns start m"
      proof cases
        case 1
        then show ?thesis by (rule kids)
      next
        case 2
        then show ?thesis by (rule prems [rule_format])
      qed
    qed
    from IH(2) [OF False this] show ?thesis by (simp only: visit_all_Cons False if_False)
  next
    case True
    have "\<forall>m \<in> set rs \<union> set todo. affected ns start m"
    proof
      fix m assume "m \<in> set rs \<union> set todo"
      then have "m \<in> set rs \<union> set (n # todo)" by auto
      then show "affected ns start m" by (rule prems [rule_format])
    qed
    from IH(1) [OF True this] show ?thesis by (simp only: visit_all_Cons True if_True)
  qed
qed simp

lemma visit_all_distinct: "distinct (map node_key rs) \<Longrightarrow> distinct (map node_key (visit_all ns todo rs))"
  by (induction ns todo rs rule: visit_all.induct) (auto simp: seen_def visit_all_Cons)

lemma climb_mono: "set rs \<subseteq> set (fst (climb ns child rs))"
proof (induction ns child rs rule: climb.induct)
  case (1 ns child rs)
  then show ?case using visit_all_mono [of rs ns] by (subst climb.simps) (auto split: option.splits)
qed

lemma climb_facts:
  assumes "contents_closed ns rs" and "\<forall>n \<in> set rs. affected ns start n" and "child \<in> set rs" and "distinct (map node_key rs)"
    and "climb ns child rs = (all, cyclic)"
  shows "contents_closed ns all \<and> (\<forall>n \<in> set all. affected ns start n) \<and> distinct (map node_key all)
    \<and> (cyclic \<or> no_empty_above ns child all)"
  using assms
proof (induction ns child rs rule: climb.induct)
  case (1 ns child rs)
  show ?case
  proof (cases "parentNode ns child")
    case None
    then show ?thesis using 1 by (subst (asm) climb.simps) (auto simp: no_empty_above_def elim: above.cases)
  next
    case (Some p)
    show ?thesis
    proof (cases "seen rs p \<or> filter (\<lambda>c. \<not> seen rs c) (directChildren ns p) \<noteq> []")
      case True
      have stop: "above ns rs child c \<Longrightarrow> \<not> seen rs p \<Longrightarrow> c = child" for c by (erule above.cases) (use Some in auto)
      have all: "all = rs" and halted: "cyclic \<or> (\<exists>d \<in> set (directChildren ns p). \<not> seen rs d)"
        using "1.prems"(5) True Some by (subst (asm) climb.simps, auto simp: filter_empty_conv split: if_splits)+
      have "no_empty_above ns child rs" if "\<exists>d \<in> set (directChildren ns p). \<not> seen rs d" "\<not> seen rs p"
        unfolding no_empty_above_def
      proof (intro allI impI)
        fix c q assume "above ns rs child c" "parentNode ns c = Some q"
        then have "q = p" using stop [of c] that(2) Some by simp
        then show "\<exists>d \<in> set (directChildren ns q). \<not> seen rs d" using that(1) by simp
      qed
      moreover have "cyclic" if "seen rs p" using that "1.prems"(5) Some by (subst (asm) climb.simps) simp
      ultimately show ?thesis using "1.prems"(1,2,4) halted unfolding all by blast
    next
      case False
      let ?rs = "visit_all ns [p] rs"
      have step: "climb ns p ?rs = (all, cyclic)" using "1.prems"(5) False Some by (subst (asm) climb.simps) (simp)
      have "\<exists>c'. node_key c' = node_key c \<and> affected ns start c'" if "c \<in> set (directChildren ns p)" for c
      proof -
        have "seen rs c" using that False by (auto simp: filter_empty_conv)
        then show ?thesis using "1.prems"(2) by (auto simp: seen_def)
      qed
      then have p: "affected ns start p" using affected.emptied [OF _ Some] "1.prems"(2,3) by blast
      have aff: "\<forall>n \<in> set ?rs. affected ns start n"
        by (rule visit_all_affected) (use p "1.prems"(2) in \<open>simp add: ball_Un\<close>)
      have cl: "contents_closed ns ?rs"
        using "1.prems"(1) by (intro visit_all_closed) (auto simp: contents_closed_def seen_def)
      have there: "p \<in> set ?rs" using False visit_all_mono [of "rs @ [p]" ns "directChildren ns p"] by (auto simp: visit_all_Cons)
      have facts: "contents_closed ns all \<and> (\<forall>n \<in> set all. affected ns start n) \<and> distinct (map node_key all)
          \<and> (cyclic \<or> no_empty_above ns p all)"
        using "1.IH" [OF Some _ _ cl aff there _ step] False visit_all_distinct [OF "1.prems"(4)] by (simp)
      moreover have "seen all p" using climb_mono [of ?rs ns p] there by (auto simp: step seen_def)
      moreover have "no_empty_above ns child all" if "no_empty_above ns p all" "seen all p"
        unfolding no_empty_above_def
      proof (intro allI impI)
        fix c q assume c: "above ns all child c" "parentNode ns c = Some q" "\<not> seen all q"
        from c(1) show "\<exists>d \<in> set (directChildren ns q). \<not> seen all d"
        proof cases
          case itself
          then show ?thesis using c(2,3) that(2) Some by simp
        next
          case (parent p')
          then show ?thesis using c(2,3) that(1) Some unfolding no_empty_above_def by simp
        qed
      qed
      ultimately show ?thesis by blast
    qed
  qed
qed

lemma find_key: "find (\<lambda>n. node_key n = k) ns = Some n \<Longrightarrow> n \<in> set ns \<and> node_key n = k"
  by (auto simp: find_Some_iff)

lemma collectAffected_facts:
  assumes "collectAffected t target = (rs, False)"
  defines "ns \<equiv> node_values (ct_nodes t)" and "start \<equiv> close_root (node_values (ct_nodes t)) target"
  shows "contents_closed ns rs \<and> (\<forall>n \<in> set rs. affected ns start n) \<and> distinct (map node_key rs) \<and> start \<in> set rs
    \<and> (start \<in> set ns \<longrightarrow> no_empty_above ns start rs)"
proof -
  let ?rs = "visit_all ns [start] []"
  note eq = assms(1) [unfolded collectAffected_def Let_def, folded ns_def start_def, folded ns_def]
  have cl: "contents_closed ns ?rs" by (rule visit_all_closed) simp
  have aff: "\<forall>n \<in> set ?rs. affected ns start n" by (rule visit_all_affected) (simp add: affected.target)
  have there: "start \<in> set ?rs" using visit_all_mono [of "[start]" ns "directChildren ns start"] by (simp add: seen_def visit_all_Cons)
  have dist: "distinct (map node_key ?rs)" by (rule visit_all_distinct) simp
  show ?thesis
  proof (cases "find (\<lambda>n. node_key n = node_key start) ns")
    case None
    then have "rs = ?rs" using eq by simp
    moreover have "start \<notin> set ns" using None by (auto simp: find_None_iff)
    ultimately show ?thesis using cl aff there dist by simp
  next
    case (Some child)
    have "child = start"
    proof -
      have start: "start = (case find (\<lambda>n. node_key n = node_key target) ns of None \<Rightarrow> target | Some n \<Rightarrow> n)"
        unfolding start_def ns_def close_root_def by (rule refl)
      show ?thesis
      proof (cases "find (\<lambda>n. node_key n = node_key target) ns")
        case (Some m)
        with start have "start = m" by simp
        with find_key [OF Some] have "node_key start = node_key target" by simp
        then show ?thesis using Some \<open>start = m\<close> \<open>find (\<lambda>n. node_key n = node_key start) ns = Some child\<close> by simp
      qed (use start Some in simp)
    qed
    then obtain all cyclic where climb: "climb ns start ?rs = (all, cyclic)" and rs: "rs = all" "\<not> cyclic"
      using eq Some by (auto split: prod.splits)
    have "set ?rs \<subseteq> set all" using climb_mono [of ?rs ns start] by (simp add: climb)
    then show ?thesis using climb_facts [OF cl aff there dist climb] there rs by auto
  qed
qed

subsection \<open>The resources a close takes, on the raw topology\<close>

text \<open>
  Containment as the node list states it: a node lies in the node whose identifier, or whose kind and
  identifier, it names as its parent. The topologies the program builds list no children beside that
  (\<open>built_without_children\<close>), and a parent name denotes one node.
\<close>

definition lies_in :: "close_node \<Rightarrow> close_node \<Rightarrow> bool" where
  "lies_in c n \<longleftrightarrow> cn_parentId c = Some (cn_id n) \<or> cn_parentId c = Some (close_kind_name (cn_kind n) @ '':'' @ cn_id n)"

definition plain_topology :: "close_node list \<Rightarrow> bool" where
  "plain_topology nodes \<longleftrightarrow> (\<forall>n \<in> set nodes. cn_children n = [] \<and> cn_id n \<noteq> [])
     \<and> (\<forall>c \<in> set nodes. \<forall>a \<in> set nodes. \<forall>b \<in> set nodes. lies_in c a \<longrightarrow> lies_in c b \<longrightarrow> a = b)"

text \<open>
  The least set that has the target, everything that lies in a member, and every container that has
  something in it and nothing but members: wherever in the topology it stands.
\<close>

inductive taken :: "close_node list \<Rightarrow> close_node \<Rightarrow> close_node \<Rightarrow> bool" for nodes target where
  target: "n \<in> set nodes \<Longrightarrow> cn_kind n = cn_kind target \<Longrightarrow> cn_id n = cn_id target \<Longrightarrow> taken nodes target n"
| inside: "taken nodes target n \<Longrightarrow> c \<in> set nodes \<Longrightarrow> lies_in c n \<Longrightarrow> taken nodes target c"
| emptied: "p \<in> set nodes \<Longrightarrow> c \<in> set nodes \<Longrightarrow> lies_in c p \<Longrightarrow>
    (\<And>d. d \<in> set nodes \<Longrightarrow> lies_in d p \<Longrightarrow> taken nodes target d) \<Longrightarrow> taken nodes target p"

lemma built_without_children:
  "\<forall>n \<in> set (ct_nodes (paneCloseTopology sn caller)). cn_children n = []"
  "\<forall>n \<in> set (ct_nodes (tabCloseTopology sn caller)). cn_children n = []"
  by (auto simp: paneCloseTopology_def tabCloseTopology_def workspace_node_def tab_node_def pane_node_def)

lemma al_put_fresh: "k \<notin> fst ` set xs \<Longrightarrow> al_put k v xs = xs @ [(k, v)]"
  by (induction k v xs rule: al_put.induct) auto

lemma node_values_distinct:
  assumes "distinct (map node_key ns)"
  shows "node_values ns = ns"
proof -
  have "foldl (\<lambda>m n. al_put (node_key n) n m) (map (\<lambda>n. (node_key n, n)) xs) ys = map (\<lambda>n. (node_key n, n)) (xs @ ys)"
    if "distinct (map node_key (xs @ ys))" for xs ys
    using that
  proof (induction ys arbitrary: xs)
    case (Cons y ys)
    have "al_put (node_key y) y (map (\<lambda>n. (node_key n, n)) xs) = map (\<lambda>n. (node_key n, n)) (xs @ [y])"
      using Cons.prems by (subst al_put_fresh) auto
    then show ?case using Cons.IH [of "xs @ [y]"] Cons.prems by simp
  qed simp
  from this [of "[]" ns] show ?thesis using assms by (simp add: node_values_def node_map_def comp_def)
qed

text \<open>Every collected node is the start, lies in a collected node, or is on the chain above the start.\<close>

lemma visit_all_origin:
  assumes "n \<in> set (visit_all ns todo rs)"
  shows "n \<in> set rs \<or> n \<in> set todo \<or> (\<exists>r \<in> set (visit_all ns todo rs). n \<in> set (directChildren ns r))"
  using assms
proof (induction ns todo rs rule: visit_all.induct)
  case (2 ns m todo rs)
  show ?case
  proof (cases "seen rs m")
    case True
    then show ?thesis using 2 by (auto simp: visit_all_Cons)
  next
    case False
    have m: "m \<in> set (visit_all ns (m # todo) rs)"
      using visit_all_mono [of "rs @ [m]" ns "directChildren ns m @ todo"] False by (simp add: visit_all_Cons)
    have "n \<in> set (rs @ [m]) \<or> n \<in> set (directChildren ns m @ todo)
        \<or> (\<exists>r \<in> set (visit_all ns (m # todo) rs). n \<in> set (directChildren ns r))"
      using "2.IH"(2) [OF False] "2.prems" False by (simp add: visit_all_Cons)
    with m show ?thesis by auto
  qed
qed simp

lemma climb_origin:
  assumes "n \<in> set (fst (climb ns child rs))"
  shows "n \<in> set rs \<or> (\<exists>r \<in> set (fst (climb ns child rs)). n \<in> set (directChildren ns r))
       \<or> above ns (fst (climb ns child rs)) child n"
  using assms
proof (induction ns child rs rule: climb.induct)
  case (1 ns child rs)
  show ?case
  proof (cases "\<exists>p. parentNode ns child = Some p \<and> \<not> seen rs p \<and> filter (\<lambda>c. \<not> seen rs c) (directChildren ns p) = []")
    case False
    then have "fst (climb ns child rs) = rs" by (subst climb.simps) (auto split: option.splits)
    then show ?thesis using "1.prems" by simp
  next
    case True
    then obtain p where p: "parentNode ns child = Some p" "\<not> seen rs p" "\<not> filter (\<lambda>c. \<not> seen rs c) (directChildren ns p) \<noteq> []"
      by blast
    let ?rs = "visit_all ns [p] rs" and ?all = "fst (climb ns child rs)"
    have step: "climb ns child rs = climb ns p ?rs" using p by (subst climb.simps) simp
    have sub: "set ?rs \<subseteq> set ?all" unfolding step by (rule climb_mono)
    have "p \<in> set ?rs" using p visit_all_mono [of "rs @ [p]" ns "directChildren ns p"] by (auto simp: visit_all_Cons)
    then have seen: "seen ?all p" using sub by (auto simp: seen_def)
    have up: "above ns ?all p q \<Longrightarrow> above ns ?all child q" for q using p(1) seen by (rule above.parent)
    have "n \<in> set ?rs \<or> (\<exists>r \<in> set ?all. n \<in> set (directChildren ns r)) \<or> above ns ?all p n"
      using "1.IH" [OF p] "1.prems" by (simp add: step)
    moreover have "n \<in> set rs \<or> n = p \<or> (\<exists>r \<in> set ?all. n \<in> set (directChildren ns r))" if "n \<in> set ?rs"
      using visit_all_origin [OF that] sub by auto
    ultimately show ?thesis using up above.itself [of ns ?all p] by blast
  qed
qed

lemma collectAffected_origin:
  assumes "collectAffected t target = (rs, False)" and "n \<in> set rs"
    and "find (\<lambda>n. node_key n = node_key (close_root (node_values (ct_nodes t)) target)) (node_values (ct_nodes t))
      = Some (close_root (node_values (ct_nodes t)) target)"
  shows "(\<exists>r \<in> set rs. n \<in> set (directChildren (node_values (ct_nodes t)) r))
       \<or> above (node_values (ct_nodes t)) rs (close_root (node_values (ct_nodes t)) target) n"
proof -
  let ?ns = "node_values (ct_nodes t)"
  let ?start = "close_root ?ns target"
  have rs: "rs = fst (climb ?ns ?start (visit_all ?ns [?start] []))"
    using assms(1,3) by (auto simp: collectAffected_def Let_def split: prod.splits)
  have "set (visit_all ?ns [?start] []) \<subseteq> set rs" unfolding rs by (rule climb_mono)
  then show ?thesis using climb_origin [of n ?ns ?start "visit_all ?ns [?start] []"] assms(2)
      visit_all_origin [of n ?ns "[?start]" "[]"] above.itself [of ?ns rs ?start]
    unfolding rs [symmetric] by auto
qed

lemma plain_children:
  "cn_children n = [] \<Longrightarrow> directChildren ns n = filter (\<lambda>c. lies_in c n) ns"
  unfolding directChildren_def
  by (auto simp: lies_in_def names_parent_def node_key_def resource_key_def intro!: filter_cong split: option.splits)

lemma plain_parent:
  assumes "plain_topology ns" and "c \<in> set ns"
  shows "parentNode ns c = Some p \<longleftrightarrow> p \<in> set ns \<and> lies_in c p"
proof
  assume "parentNode ns c = Some p"
  then show "p \<in> set ns \<and> lies_in c p"
    by (auto simp: parentNode_def find_Some_iff names_parent_def lies_in_def node_key_def resource_key_def
        split: option.splits if_splits)
next
  assume p: "p \<in> set ns \<and> lies_in c p"
  then obtain q where q: "cn_parentId c = Some q" "names_parent q p"
    by (auto simp: lies_in_def names_parent_def node_key_def resource_key_def)
  have "q \<noteq> []" using q(2) p assms(1)
    by (auto simp: plain_topology_def names_parent_def node_key_def resource_key_def)
  moreover have "find (names_parent q) ns \<noteq> None" using p q(2) by (auto simp: find_None_iff)
  then obtain p' where p': "find (names_parent q) ns = Some p'" by blast
  then have "p' \<in> set ns" "names_parent q p'" by (auto simp: find_Some_iff)
  moreover from this(2) have "lies_in c p'" using q(1) by (auto simp: lies_in_def names_parent_def node_key_def resource_key_def)
  ultimately have "p' = p" using assms p unfolding plain_topology_def by blast
  then show "parentNode ns c = Some p" using q(1) \<open>q \<noteq> []\<close> p' by (simp add: parentNode_def)
qed

text \<open>A plain topology whose keys are distinct, with the close the code collects on it.\<close>

lemma collected_is_taken:
  assumes "collectAffected t target = (rs, False)" and plain: "plain_topology (ct_nodes t)"
    and "n0 \<in> set (ct_nodes t)" "cn_kind n0 = cn_kind target" "cn_id n0 = cn_id target"
  shows "n \<in> set rs \<longleftrightarrow> taken (ct_nodes t) target n"
proof -
  define ns where "ns = ct_nodes t"
  have keys: "distinct (map node_key ns)" using assms(1) by (auto simp: collectAffected_def Let_def ns_def split: option.splits prod.splits)
  have vals: "node_values (ct_nodes t) = ns" using node_values_distinct [OF keys] by (simp add: ns_def)
  have same: "a = b" if "a \<in> set ns" "b \<in> set ns" "node_key a = node_key b" for a b
    using keys that by (simp add: distinct_map inj_on_def)
  have key: "node_key n0 = node_key target" using assms(4,5) by (simp add: node_key_def)
  have n0: "n0 \<in> set ns" using assms(3) by (simp add: ns_def)
  have start: "close_root ns target = n0"
  proof -
    have "find (\<lambda>n. node_key n = node_key target) ns \<noteq> None" using n0 key by (auto simp: find_None_iff)
    then obtain m where m: "find (\<lambda>n. node_key n = node_key target) ns = Some m" by blast
    with find_key [OF m] same n0 key show ?thesis by (auto simp: close_root_def)
  qed
  have found: "find (\<lambda>n. node_key n = node_key n0) ns = Some n0"
  proof -
    have "find (\<lambda>n. node_key n = node_key n0) ns \<noteq> None" using n0 by (auto simp: find_None_iff)
    then obtain m where m: "find (\<lambda>n. node_key n = node_key n0) ns = Some m" by blast
    with find_key [OF m] same n0 show ?thesis by auto
  qed
  note facts = collectAffected_facts [OF assms(1), unfolded vals start]
  note origin = collectAffected_origin [OF assms(1), unfolded vals start, OF _ found]
  have kids: "directChildren ns m = filter (\<lambda>c. lies_in c m) ns" if "m \<in> set ns" for m
    using plain that by (intro plain_children) (simp add: plain_topology_def ns_def)
  have par: "parentNode ns c = Some p \<longleftrightarrow> p \<in> set ns \<and> lies_in c p" if "c \<in> set ns" for c p
    using plain_parent [OF plain, of c p] that by (simp add: ns_def)
  have affected_taken: "affected ns n0 m \<Longrightarrow> m \<in> set ns \<and> taken ns target m" for m
  proof (induction rule: affected.induct)
    case target
    then show ?case using n0 assms(4,5) by (auto intro: taken.target)
  next
    case (contained m c)
    then show ?case using kids by (auto intro: taken.inside)
  next
    case (emptied m p)
    then have p: "p \<in> set ns" "lies_in m p" using par by auto
    have "taken ns target p"
    proof (rule taken.emptied [OF p(1) _ p(2)])
      show "m \<in> set ns" using emptied by simp
      fix d assume "d \<in> set ns" "lies_in d p"
      then have "d \<in> set (directChildren ns p)" using kids [OF p(1)] by simp
      then obtain c' where "node_key c' = node_key d" "c' \<in> set ns" "taken ns target c'" using emptied.IH emptied.hyps by blast
      then show "taken ns target d" using same \<open>d \<in> set ns\<close> by metis
    qed
    with p show ?case by simp
  qed
  have sub: "m \<in> set rs \<Longrightarrow> m \<in> set ns" for m using facts affected_taken by blast
  have seen: "seen rs m \<longleftrightarrow> m \<in> set rs" if "m \<in> set ns" for m
    using same sub that unfolding seen_def by (metis image_iff)
  have least: "taken ns target m \<Longrightarrow> m \<in> set rs" for m
  proof (induction rule: taken.induct)
    case (target n)
    then have "n = n0" using same n0 assms(4,5) by (simp add: node_key_def)
    then show ?case using facts by simp
  next
    case (inside n c)
    then have "c \<in> set (directChildren ns n)" using kids [of n] sub by simp
    then show ?case using facts inside seen unfolding contents_closed_def by blast
  next
    case (emptied p c)
    have c: "c \<in> set rs" using emptied by simp
    show ?case
    proof (rule ccontr)
      assume out: "p \<notin> set rs"
      consider r where "r \<in> set rs" "c \<in> set (directChildren ns r)" | "above ns rs n0 c" using origin [OF c] by blast
      then show False
      proof cases
        case 1
        then have "lies_in c r" "r \<in> set ns" using kids sub by auto
        then have "r = p" using plain emptied.hyps unfolding plain_topology_def ns_def by blast
        then show False using 1 out by simp
      next
        case 2
        have "parentNode ns c = Some p" using par emptied.hyps by simp
        then obtain d where "d \<in> set (directChildren ns p)" "\<not> seen rs d"
          using facts 2 out n0 seen [OF emptied.hyps(1)] unfolding no_empty_above_def by blast
        then show False using kids [OF emptied.hyps(1)] emptied.IH seen by auto
      qed
    qed
  qed
  show ?thesis using facts affected_taken least unfolding ns_def [symmetric] by blast
qed

text \<open>
  C11. A close never takes the caller with it. On a topology as the program builds them, with a target
  that is in it, an allowed close names exactly, and once each, the least set that has the target,
  everything inside a member and every container left empty, wherever it stands; and neither the
  caller's pane nor its tab nor its workspace is in that set.
\<close>

theorem allowed_close_spares_caller:
  assumes "validateClose t target = CloseAllowed ids" and "plain_topology (ct_nodes t)"
    and "\<exists>n \<in> set (ct_nodes t). cn_kind n = cn_kind target \<and> cn_id n = cn_id target"
  shows "\<exists>rs. ids = map cn_id rs \<and> distinct rs \<and> (\<forall>n. n \<in> set rs \<longleftrightarrow> taken (ct_nodes t) target n)
     \<and> (\<forall>n. taken (ct_nodes t) target n \<longrightarrow> Some (cn_id n) \<noteq>
          (case cn_kind n of CkPane \<Rightarrow> ca_paneId (ct_caller t) | CkTab \<Rightarrow> ca_tabId (ct_caller t) | CkWorkspace \<Rightarrow> ca_workspaceId (ct_caller t)))"
proof -
  obtain rs where rs: "collectAffected t target = (rs, False)" "ids = map cn_id rs"
    and free: "\<And>n. n \<in> set rs \<Longrightarrow> node_key n \<notin> set (protected_keys (ct_caller t))"
    using assms(1) by (auto simp: validateClose_def Let_def list_ex_iff split: prod.splits if_splits)
  have all: "n \<in> set rs \<longleftrightarrow> taken (ct_nodes t) target n" for n
    using collected_is_taken [OF rs(1) assms(2)] assms(3) by blast
  have named: "taken (ct_nodes t) target n \<Longrightarrow> cn_id n \<noteq> []" for n
    using assms(2) unfolding plain_topology_def by (auto elim: taken.cases)
  have "Some (cn_id n) \<noteq>
      (case cn_kind n of CkPane \<Rightarrow> ca_paneId (ct_caller t) | CkTab \<Rightarrow> ca_tabId (ct_caller t) | CkWorkspace \<Rightarrow> ca_workspaceId (ct_caller t))"
    if "taken (ct_nodes t) target n" for n
    using free [of n] all that named [OF that]
    by (cases "cn_kind n") (auto simp: protected_keys_def opt_key_def node_key_def)
  moreover have "distinct rs" using collectAffected_facts [OF rs(1)] by (auto simp: distinct_map)
  ultimately show ?thesis using rs(2) all by blast
qed

definition example_topology :: close_topology where
  "example_topology = \<lparr>ct_nodes = [\<lparr>cn_kind = CkWorkspace, cn_id = ''w'', cn_parentId = None, cn_children = []\<rparr>,
       \<lparr>cn_kind = CkTab, cn_id = ''t'', cn_parentId = Some ''w'', cn_children = []\<rparr>,
       \<lparr>cn_kind = CkTab, cn_id = ''u'', cn_parentId = Some ''w'', cn_children = []\<rparr>,
       \<lparr>cn_kind = CkPane, cn_id = ''p'', cn_parentId = Some ''t'', cn_children = []\<rparr>,
       \<lparr>cn_kind = CkPane, cn_id = ''q'', cn_parentId = Some ''p'', cn_children = []\<rparr>,
       \<lparr>cn_kind = CkPane, cn_id = ''c'', cn_parentId = Some ''u'', cn_children = []\<rparr>],
     ct_caller = \<lparr>ca_paneId = Some ''c'', ca_tabId = Some ''u'', ca_workspaceId = Some ''w''\<rparr>\<rparr>"

definition example_pane :: "string \<Rightarrow> close_node" where
  "example_pane i = \<lparr>cn_kind = CkPane, cn_id = i, cn_parentId = None, cn_children = []\<rparr>"

lemma example_close: "validateClose example_topology (example_pane ''p'') = CloseAllowed [''p'', ''q'', ''t'']"
  by code_simp

lemma plain_topology_single:
  assumes "list_all (\<lambda>n. cn_children n = [] \<and> cn_id n \<noteq> [] \<and> length (filter (lies_in n) nodes) \<le> 1) nodes"
  shows "plain_topology nodes"
proof -
  have "a = b" if "c \<in> set nodes" "a \<in> set nodes" "b \<in> set nodes" "lies_in c a" "lies_in c b" for a b c
  proof -
    have "length (filter (lies_in c) nodes) \<le> 1" using assms that(1) by (simp add: list_all_iff)
    then obtain x where "filter (lies_in c) nodes = [] \<or> filter (lies_in c) nodes = [x]"
      by (cases "filter (lies_in c) nodes") auto
    moreover have "a \<in> set (filter (lies_in c) nodes)" "b \<in> set (filter (lies_in c) nodes)" using that by simp_all
    ultimately show ?thesis by (metis empty_iff empty_set set_ConsD)
  qed
  with assms show ?thesis unfolding plain_topology_def list_all_iff by blast
qed

lemma example_plain: "plain_topology (ct_nodes example_topology)"
  by (rule plain_topology_single) code_simp

theorem allowed_close_spares_caller_witness:
  "\<exists>rs. [''p'', ''q'', ''t''] = map cn_id rs \<and> distinct rs
     \<and> (\<forall>n. n \<in> set rs \<longleftrightarrow> taken (ct_nodes example_topology) (example_pane ''p'') n)"
proof -
  have "\<exists>n \<in> set (ct_nodes example_topology). cn_kind n = cn_kind (example_pane ''p'') \<and> cn_id n = cn_id (example_pane ''p'')"
    by (simp add: example_topology_def example_pane_def)
  from allowed_close_spares_caller [OF example_close example_plain this]
  obtain rs where "[''p'', ''q'', ''t''] = map cn_id rs" "distinct rs"
    "\<forall>n. n \<in> set rs \<longleftrightarrow> taken (ct_nodes example_topology) (example_pane ''p'') n" by (elim exE conjE)
  then show ?thesis by (intro exI [of _ rs] conjI)
qed

end
