(* ===== verification/Caller_Policy.thy ===== *)
theory Caller_Policy
  imports Adoption
begin

text \<open>
  The classification of a calling pane and what it may send (\<open>src/caller-policy.ts\<close>). The evidence is the
  identity tokens of the pane and agent records in the authoritative snapshot. An observation that is
  malformed poisons its evidence, and two different values contradict each other, so nothing is selected
  by the order of the records.
\<close>

definition MAX_EVIDENCE_STRING :: nat where
  "MAX_EVIDENCE_STRING = 256"

datatype policy_operation = OpPrompt | OpSteer | OpKeys | OpCancel | OpInterrupt

datatype worker_binding = BoundTo string | Unbound string

datatype policy_scope = ScopeUnrestricted | ScopeWorker

datatype policy_basis = BaUnmarked | BaAdopted | BaOrchestrator | BaManagesChildren | BaLaunchedLeaf

record caller_policy =
  cp_paneId :: string
  cp_scope :: policy_scope
  cp_basis :: policy_basis
  cp_binding :: "worker_binding option"

datatype policy_error =
    PolicyUnavailable string
  | BindingUnavailable string
  | ScopeRejected

section \<open>Evidence\<close>

datatype evidence = EvAbsent | EvValue string | EvMalformed | EvContradictory

text \<open>One record's observation of a token or of the session.\<close>

datatype token_observation = ObNone | ObMalformed | ObValue string

definition tokenString :: "string \<Rightarrow> bool" where
  "tokenString s \<longleftrightarrow> s \<noteq> [] \<and> length s \<le> TOKEN_VALUE_MAX_LENGTH \<and> \<not> list_ex token_drop s"

definition merge_observations :: "token_observation list \<Rightarrow> evidence" where
  "merge_observations os =
     (let values = js_uniq (List.map_filter (\<lambda>ob. case ob of ObValue s \<Rightarrow> Some s | _ \<Rightarrow> None) os) in
      if ObMalformed \<in> set os then EvMalformed
      else if 1 < length values then EvContradictory
      else case values of [] \<Rightarrow> EvAbsent | s # _ \<Rightarrow> EvValue s)"

definition observe_token :: "string \<Rightarrow> jsval \<Rightarrow> token_observation" where
  "observe_token key v =
     (if \<not> own v ''tokens'' then ObNone
      else let tokens = jget ''tokens'' v in
        if \<not> is_record tokens then ObMalformed
        else if \<not> own tokens key then ObNone
        else case jget key tokens of JStr s \<Rightarrow> if tokenString s then ObValue s else ObMalformed | _ \<Rightarrow> ObMalformed)"

definition mergedToken :: "jsval list \<Rightarrow> string \<Rightarrow> evidence" where
  "mergedToken records key = merge_observations (map (observe_token key) records)"

definition sessionValue :: "jsval \<Rightarrow> string option" where
  "sessionValue v =
     (if \<not> is_record v then None
      else if list_all (\<lambda>k. is_str (\<lambda>s. s \<noteq> []) (jget k v)) [''source'', ''agent'', ''kind'', ''value'']
      then Some (str_of (jget ''value'' v)) else None)"

definition observe_session :: "jsval \<Rightarrow> token_observation" where
  "observe_session v =
     (if \<not> own v ''agent_session'' then ObNone
      else case sessionValue (jget ''agent_session'' v) of None \<Rightarrow> ObMalformed | Some s \<Rightarrow> ObValue s)"

definition callerSession :: "jsval list \<Rightarrow> evidence" where
  "callerSession records = merge_observations (map observe_session records)"

definition paneRecords :: "snapshot \<Rightarrow> string \<Rightarrow> jsval list" where
  "paneRecords sn pane = with_field ''pane_id'' pane (sn_panes sn) @ with_field ''pane_id'' pane (sn_agents sn)"

definition claimsActor :: "snapshot \<Rightarrow> string \<Rightarrow> string \<Rightarrow> bool" where
  "claimsActor sn pane caller \<longleftrightarrow> mergedToken (paneRecords sn pane) ''identity_actor'' = EvValue caller"

section \<open>Classification\<close>

definition workerBinding :: "snapshot \<Rightarrow> string \<Rightarrow> jsval list \<Rightarrow> worker_binding" where
  "workerBinding sn caller records =
     (case mergedToken records ''identity_actor'' of
        EvMalformed \<Rightarrow> Unbound ''actor_malformed''
      | EvContradictory \<Rightarrow> Unbound ''actor_contradictory''
      | EvAbsent \<Rightarrow> Unbound ''actor_missing''
      | EvValue actor \<Rightarrow>
          if actor = caller then Unbound ''actor_self''
          else if with_field ''pane_id'' actor (sn_panes sn) = [] then Unbound ''actor_stale''
          else case mergedToken records ''identity_session'' of
            EvMalformed \<Rightarrow> Unbound ''session_malformed''
          | EvContradictory \<Rightarrow> Unbound ''session_contradictory''
          | EvAbsent \<Rightarrow> Unbound ''session_missing''
          | EvValue token \<Rightarrow>
              (case callerSession records of
                 EvContradictory \<Rightarrow> Unbound ''session_contradictory''
               | EvValue current \<Rightarrow> if tokenValue current \<noteq> Some token then Unbound ''session_stale'' else BoundTo actor
               | _ \<Rightarrow> Unbound ''session_unverifiable''))"

definition classifyCaller :: "snapshot \<Rightarrow> string \<Rightarrow> (policy_error, caller_policy) result" where
  "classifyCaller sn caller =
     (if length (with_field ''pane_id'' caller (sn_panes sn)) \<noteq> 1 then Inl (PolicyUnavailable ''caller'')
      else let records = paneRecords sn caller;
               provenance = mergedToken records ''identity_provenance'';
               declared = mergedToken records ''identity_scope'';
               manages = list_ex (\<lambda>p. jget ''pane_id'' p \<noteq> JStr caller \<and> claimsActor sn (id_of ''pane_id'' p) caller) (sn_panes sn)
        in case provenance of
             EvMalformed \<Rightarrow> Inl (PolicyUnavailable ''provenance_malformed'')
           | EvContradictory \<Rightarrow> Inl (PolicyUnavailable ''provenance_contradictory'')
           | _ \<Rightarrow>
             if provenance \<notin> {EvAbsent, EvValue ''launched'', EvValue ''adopted''} then Inl (PolicyUnavailable ''provenance_unrecognized'')
             else case declared of
               EvMalformed \<Rightarrow> Inl (PolicyUnavailable ''scope_malformed'')
             | EvContradictory \<Rightarrow> Inl (PolicyUnavailable ''scope_contradictory'')
             | _ \<Rightarrow>
               if declared \<notin> {EvAbsent, EvValue ''orchestrator''} then Inl (PolicyUnavailable ''scope_unrecognized'')
               else if provenance = EvValue ''launched'' then
                 (let binding = Some (workerBinding sn caller records) in
                  if declared \<noteq> EvAbsent
                  then Inr \<lparr>cp_paneId = caller, cp_scope = ScopeUnrestricted, cp_basis = BaOrchestrator, cp_binding = binding\<rparr>
                  else if \<not> manages
                  then Inr \<lparr>cp_paneId = caller, cp_scope = ScopeWorker, cp_basis = BaLaunchedLeaf, cp_binding = binding\<rparr>
                  else Inr \<lparr>cp_paneId = caller, cp_scope = ScopeUnrestricted, cp_basis = BaManagesChildren, cp_binding = binding\<rparr>)
               else Inr \<lparr>cp_paneId = caller, cp_scope = ScopeUnrestricted,
                         cp_basis = (if manages then BaManagesChildren else if provenance \<noteq> EvAbsent then BaAdopted else BaUnmarked),
                         cp_binding = None\<rparr>)"

section \<open>The gates\<close>

definition assertSendScope :: "caller_policy \<Rightarrow> string option \<Rightarrow> (policy_error, unit) result" where
  "assertSendScope p target =
     (if cp_scope p \<noteq> ScopeWorker then Inr ()
      else case cp_binding p of
        Some (BoundTo parent) \<Rightarrow> if target \<noteq> Some parent then Inl ScopeRejected else Inr ()
      | Some (Unbound reason) \<Rightarrow> Inl (BindingUnavailable reason)
      | None \<Rightarrow> Inl (BindingUnavailable []))"

definition assertControlScope :: "caller_policy \<Rightarrow> (policy_error, unit) result" where
  "assertControlScope p = (if cp_scope p \<noteq> ScopeWorker then Inr () else Inl ScopeRejected)"

fun scope_name :: "policy_scope \<Rightarrow> string" where
  "scope_name ScopeUnrestricted = ''unrestricted''"
| "scope_name ScopeWorker = ''worker''"

fun basis_name :: "policy_basis \<Rightarrow> string" where
  "basis_name BaUnmarked = ''unmarked''"
| "basis_name BaAdopted = ''adopted''"
| "basis_name BaOrchestrator = ''orchestrator''"
| "basis_name BaManagesChildren = ''manages_children''"
| "basis_name BaLaunchedLeaf = ''launched_leaf''"

definition callerPolicyDiagnostics :: "caller_policy \<Rightarrow> jsval" where
  "callerPolicyDiagnostics p =
     JObj ([(''scope'', JStr (scope_name (cp_scope p))), (''basis'', JStr (basis_name (cp_basis p)))]
       @ (case cp_binding p of
            None \<Rightarrow> []
          | Some (BoundTo parent) \<Rightarrow> [(''replyPaneId'', JStr (take MAX_EVIDENCE_STRING parent))]
          | Some (Unbound reason) \<Rightarrow> [(''binding'', JStr ''unavailable''), (''bindingReason'', JStr reason)]))"

text \<open>\<open>None\<close> is an error of another class.\<close>

definition callerPolicyFailure :: "policy_error option \<Rightarrow> jsval" where
  "callerPolicyFailure e =
     JObj [(''scope'', JStr ''unavailable''),
       (''code'', JStr (case e of Some (BindingUnavailable _) \<Rightarrow> ''CALLER_BINDING_UNAVAILABLE'' | Some ScopeRejected \<Rightarrow> ''TARGET_SCOPE_REJECTED''
          | _ \<Rightarrow> ''CALLER_POLICY_UNAVAILABLE''))]"

section \<open>Evidence does not depend on the order of the records\<close>

lemma set_observed_values:
  "set (List.map_filter (\<lambda>ob. case ob of ObValue s \<Rightarrow> Some s | _ \<Rightarrow> None) os) = {s. ObValue s \<in> set os}"
  by (induction os) (auto simp: List.map_filter_simps split: token_observation.splits)

lemma observed_iff:
  "{s. \<exists>r \<in> set rs. f r = ObValue s} = {s. ObValue s \<in> set (map f rs)}"
  "(\<forall>r \<in> set rs. f r \<noteq> ObMalformed) \<longleftrightarrow> ObMalformed \<notin> set (map f rs)"
  by (force simp: image_iff)+

lemma merge_observations_value:
  "merge_observations os = EvValue s \<longleftrightarrow> ObMalformed \<notin> set os \<and> {s. ObValue s \<in> set os} = {s}"
proof -
  define vs where "vs = js_uniq (List.map_filter (\<lambda>ob. case ob of ObValue s \<Rightarrow> Some s | _ \<Rightarrow> None) os)"
  have d: "distinct vs" and v: "set vs = {s. ObValue s \<in> set os}" by (simp_all add: vs_def set_observed_values)
  have "vs = [s] \<longleftrightarrow> set vs = {s}"
    using d distinct_card [OF d] by (cases vs; cases "tl vs") (auto simp: card_Suc_eq)
  moreover have "merge_observations os = EvValue s \<longleftrightarrow> ObMalformed \<notin> set os \<and> vs = [s]"
    by (cases vs; cases "tl vs") (auto simp: merge_observations_def Let_def vs_def [symmetric])
  ultimately show ?thesis using v by simp
qed

lemma merge_observations_cong:
  assumes "set os = set os'"
  shows "merge_observations os = merge_observations os'"
proof -
  let ?vs = "\<lambda>os. js_uniq (List.map_filter (\<lambda>ob. case ob of ObValue s \<Rightarrow> Some s | _ \<Rightarrow> None) os)"
  have s: "set (?vs os) = set (?vs os')" by (simp add: set_observed_values assms)
  then have l: "length (?vs os) = length (?vs os')" by (metis distinct_card distinct_js_uniq)
  have h: "(case (?vs os) of [] \<Rightarrow> EvAbsent | s # _ \<Rightarrow> EvValue s) = (case (?vs os') of [] \<Rightarrow> EvAbsent | s # _ \<Rightarrow> EvValue s)"
    if "length (?vs os) \<le> 1"
    using that s l by (cases "?vs os"; cases "?vs os'") auto
  show ?thesis unfolding merge_observations_def Let_def using h l assms by auto
qed

section \<open>What a launched worker may do\<close>

lemma classify_worker:
  "classifyCaller sn c = Inr p \<Longrightarrow> cp_scope p = ScopeWorker \<Longrightarrow>
     mergedToken (paneRecords sn c) ''identity_provenance'' = EvValue ''launched''
     \<and> mergedToken (paneRecords sn c) ''identity_scope'' = EvAbsent
     \<and> \<not> list_ex (\<lambda>q. jget ''pane_id'' q \<noteq> JStr c \<and> claimsActor sn (id_of ''pane_id'' q) c) (sn_panes sn)
     \<and> cp_binding p = Some (workerBinding sn c (paneRecords sn c))"
  by (auto simp: classifyCaller_def Let_def split: if_splits evidence.splits)

lemma workerBinding_bound:
  "workerBinding sn c records = BoundTo t \<longleftrightarrow>
     mergedToken records ''identity_actor'' = EvValue t \<and> t \<noteq> c \<and> with_field ''pane_id'' t (sn_panes sn) \<noteq> []
     \<and> (\<exists>current token. callerSession records = EvValue current \<and> mergedToken records ''identity_session'' = EvValue token
          \<and> tokenValue current = Some token)"
  by (auto simp: workerBinding_def split: evidence.splits if_splits)

text \<open>
  C14. A launched worker can reach its manager and nobody else: when a worker's text send passes, the
  target is a live pane other than the worker, it is the one value every actor token of the worker's
  records carries, none of those records is malformed, the worker's session is the one the launch
  recorded, and no pane names the worker as its own manager. Keys and turn control never pass.
\<close>

theorem worker_reaches_only_its_manager:
  assumes "classifyCaller sn c = Inr p" and "cp_scope p = ScopeWorker" and "assertSendScope p (Some t) = Inr ()"
  shows "t \<noteq> c \<and> (\<exists>q \<in> set (sn_panes sn). jget ''pane_id'' q = JStr t)
     \<and> {s. \<exists>r \<in> set (paneRecords sn c). observe_token ''identity_actor'' r = ObValue s} = {t}
     \<and> (\<forall>r \<in> set (paneRecords sn c). observe_token ''identity_actor'' r \<noteq> ObMalformed)
     \<and> (\<exists>current. callerSession (paneRecords sn c) = EvValue current \<and> tokenValue current \<noteq> None
          \<and> mergedToken (paneRecords sn c) ''identity_session'' = EvValue (the (tokenValue current)))
     \<and> (\<forall>q \<in> set (sn_panes sn). claimsActor sn (id_of ''pane_id'' q) c \<longrightarrow> jget ''pane_id'' q = JStr c)
     \<and> assertControlScope p = Inl ScopeRejected"
proof -
  note w = classify_worker [OF assms(1,2)]
  have b: "workerBinding sn c (paneRecords sn c) = BoundTo t"
    using assms(2,3) w by (auto simp: assertSendScope_def split: worker_binding.splits if_splits)
  then have actor: "mergedToken (paneRecords sn c) ''identity_actor'' = EvValue t" by (simp add: workerBinding_bound)
  have one: "{s. \<exists>r \<in> set (paneRecords sn c). observe_token ''identity_actor'' r = ObValue s} = {t}"
    and well: "\<forall>r \<in> set (paneRecords sn c). observe_token ''identity_actor'' r \<noteq> ObMalformed"
    using actor observed_iff [where f = "observe_token ''identity_actor''" and rs = "paneRecords sn c"]
    by (simp_all add: mergedToken_def merge_observations_value del: set_map)
  have live: "\<exists>q \<in> set (sn_panes sn). jget ''pane_id'' q = JStr t"
    using b by (auto simp: workerBinding_bound with_field_def filter_empty_conv)
  show ?thesis using b w one well live assms(2) by (auto simp: workerBinding_bound assertControlScope_def list_ex_iff)
qed

text \<open>
  The evidence does not depend on the order or the repetition of the records: two lists of records
  with the same members give every token the same verdict, and a worker the same binding.
\<close>

theorem evidence_ignores_record_order:
  assumes "set records = set records'"
  shows "mergedToken records key = mergedToken records' key \<and> callerSession records = callerSession records'
     \<and> workerBinding sn c records = workerBinding sn c records'"
proof -
  have token: "mergedToken records k = mergedToken records' k" for k
    unfolding mergedToken_def by (rule merge_observations_cong) (simp add: assms)
  have session: "callerSession records = callerSession records'"
    unfolding callerSession_def by (rule merge_observations_cong) (simp add: assms)
  show ?thesis by (simp only: workerBinding_def token session)
qed

section \<open>A concrete snapshot\<close>

definition example_session_value :: jsval where
  "example_session_value = JObj [(''source'', JStr ''s''), (''agent'', JStr ''pi''), (''kind'', JStr ''id''), (''value'', JStr ''v1'')]"

definition example_worker :: jsval where
  "example_worker = JObj [(''pane_id'', JStr ''w''), (''tab_id'', JStr ''t''), (''workspace_id'', JStr ''k''), (''agent_session'', example_session_value),
     (''tokens'', JObj [(''identity_provenance'', JStr ''launched''), (''identity_actor'', JStr ''m''), (''identity_session'', JStr ''v1'')])]"

definition example_manager :: jsval where
  "example_manager = JObj [(''pane_id'', JStr ''m''), (''tab_id'', JStr ''t''), (''workspace_id'', JStr ''k'')]"

definition example_policy_snapshot :: snapshot where
  "example_policy_snapshot = \<lparr>sn_version = ''1'', sn_protocol = 1, sn_workspaces = [], sn_tabs = [],
     sn_panes = [example_manager, example_worker], sn_agents = []\<rparr>"

lemma example_classified:
  "classifyCaller example_policy_snapshot ''w''
   = Inr \<lparr>cp_paneId = ''w'', cp_scope = ScopeWorker, cp_basis = BaLaunchedLeaf, cp_binding = Some (BoundTo ''m'')\<rparr>"
  by code_simp

theorem worker_reaches_only_its_manager_witness:
  "{s. \<exists>r \<in> set (paneRecords example_policy_snapshot ''w''). observe_token ''identity_actor'' r = ObValue s} = {''m''}
   \<and> callerSession (paneRecords example_policy_snapshot ''w'') = EvValue ''v1''"
proof
  have "assertSendScope \<lparr>cp_paneId = ''w'', cp_scope = ScopeWorker, cp_basis = BaLaunchedLeaf, cp_binding = Some (BoundTo ''m'')\<rparr> (Some ''m'') = Inr ()"
    by (simp add: assertSendScope_def)
  from worker_reaches_only_its_manager [OF example_classified _ this]
  show "{s. \<exists>r \<in> set (paneRecords example_policy_snapshot ''w''). observe_token ''identity_actor'' r = ObValue s} = {''m''}" by simp
  show "callerSession (paneRecords example_policy_snapshot ''w'') = EvValue ''v1''" by code_simp
qed

theorem evidence_ignores_record_order_witness:
  "mergedToken [example_worker, example_manager] ''identity_actor'' = mergedToken [example_manager, example_worker, example_worker] ''identity_actor''"
  using evidence_ignores_record_order [of "[example_worker, example_manager]" "[example_manager, example_worker, example_worker]"] by auto

end
