(* ===== verification/Traces.thy ===== *)
theory Traces
  imports Prelude
begin

text \<open>
  Machines driven by a list of inputs. An invariant may also speak of the inputs so far: which calls were
  made is part of what an operation may rely on. The locale turns the step of a component's operations into
  a statement about every sequence of them.
\<close>

locale driven =
  fixes step :: "'i \<Rightarrow> 's \<Rightarrow> 's"
    and start :: 's
    and ok :: "'i set \<Rightarrow> 's \<Rightarrow> bool"
  assumes start_ok: "ok {} start"
    and step_ok: "ok H s \<Longrightarrow> ok (insert x H) (step x s)"
begin

lemma trace_ok: "ok (set xs) (fold step xs start)"
proof (induction xs rule: rev_induct)
  case Nil
  show ?case by (simp add: start_ok)
next
  case (snoc x xs)
  show ?case using step_ok [OF snoc] by simp
qed

text \<open>What every step keeps, once reached, is kept by every further sequence.\<close>

lemma trace_keeps:
  assumes "\<And>H s x. ok H s \<Longrightarrow> P s \<Longrightarrow> P (step x s)" and "P (fold step xs start)"
  shows "P (fold step (xs @ ys) start)"
proof (induction ys rule: rev_induct)
  case Nil
  show ?case by (simp add: assms(2))
next
  case (snoc y ys)
  show ?case using assms(1) [OF trace_ok snoc] by simp
qed

end

end
