(* ===== verification/Self_Close.thy ===== *)
theory Self_Close
  imports Prelude
begin

text \<open>
  The tracker of this host's own pane closes (\<open>src/supervision/self-close.ts\<close>). An attempt is an object that
  its finisher and its timer keep alive after it left the map, so attempts are kept in a list and the map
  of live entries points into it. Every operation reads the monotonic clock, whose readings are its
  arguments; a timer fires as an operation of its own. A claim is one call of \<open>consume\<close>; the answers it
  gets, at once or later, are recorded in order with the attempt they belong to.
\<close>

definition SELF_CLOSE_PENDING_TTL_MS :: int where
  "SELF_CLOSE_PENDING_TTL_MS = 60000"

definition SELF_CLOSE_CONFIRMED_TTL_MS :: int where
  "SELF_CLOSE_CONFIRMED_TTL_MS = 60000"

definition SELF_CLOSE_MAX_ENTRIES :: nat where
  "SELF_CLOSE_MAX_ENTRIES = 128"

record close_attempt =
  sa_pane :: string
  sa_deadline :: int
  sa_confirmed :: bool
  sa_claimed :: bool
  sa_finished :: bool
  sa_timer :: "int option"
  sa_waiters :: "nat list"

record close_tracker =
  tk_attempts :: "close_attempt list"
  tk_entries :: "(string \<times> nat) list"
  tk_listeners :: "nat list"
  tk_cleared :: bool
  tk_claims :: nat
  tk_answers :: "(nat \<times> nat option \<times> bool) list"
  tk_notified :: "(nat \<times> string) list"

definition createSelfCloseTracker :: close_tracker where
  "createSelfCloseTracker = \<lparr>tk_attempts = [], tk_entries = [], tk_listeners = [], tk_cleared = False, tk_claims = 0,
     tk_answers = [], tk_notified = []\<rparr>"

section \<open>The pieces\<close>

definition set_attempt :: "nat \<Rightarrow> (close_attempt \<Rightarrow> close_attempt) \<Rightarrow> close_tracker \<Rightarrow> close_tracker" where
  "set_attempt i f k = k\<lparr>tk_attempts := (tk_attempts k)[i := f (tk_attempts k ! i)]\<rparr>"

definition notifyClosed :: "string \<Rightarrow> close_tracker \<Rightarrow> close_tracker" where
  "notifyClosed pane k = k\<lparr>tk_notified := tk_notified k @ map (\<lambda>l. (l, pane)) (tk_listeners k)\<rparr>"

text \<open>Clear the timer, delete the entry by its pane, and answer the waiting claims.\<close>

definition retire_entry :: "nat \<Rightarrow> bool \<Rightarrow> close_tracker \<Rightarrow> close_tracker" where
  "retire_entry i suppress k =
     (let a = tk_attempts k ! i in
      (set_attempt i (\<lambda>a. a\<lparr>sa_timer := None, sa_waiters := []\<rparr>) k)
        \<lparr>tk_entries := al_del (sa_pane a) (tk_entries k),
         tk_answers := tk_answers k @ map (\<lambda>c. (c, Some i, suppress)) (sa_waiters a)\<rparr>)"

definition rearm :: "int \<Rightarrow> nat \<Rightarrow> close_tracker \<Rightarrow> close_tracker" where
  "rearm now i = set_attempt i (\<lambda>a. a\<lparr>sa_timer := Some (now + max 0 (sa_deadline a - now))\<rparr>)"

section \<open>The operations\<close>

definition retire_overdue :: "int \<Rightarrow> close_tracker \<Rightarrow> close_tracker" where
  "retire_overdue now k =
     fold (\<lambda>i k. if sa_deadline (tk_attempts k ! i) \<le> now then retire_entry i False k else k) (map snd (tk_entries k)) k"

definition retire_existing :: "string \<Rightarrow> close_tracker \<Rightarrow> close_tracker" where
  "retire_existing pane k = (case map_of (tk_entries k) pane of None \<Rightarrow> k | Some i \<Rightarrow> retire_entry i False k)"

definition new_attempt :: "int \<Rightarrow> string \<Rightarrow> close_attempt" where
  "new_attempt now pane = \<lparr>sa_pane = pane, sa_deadline = now + SELF_CLOSE_PENDING_TTL_MS, sa_confirmed = False,
     sa_claimed = False, sa_finished = False, sa_timer = None, sa_waiters = []\<rparr>"

text \<open>The result is the attempt its finisher is bound to; \<open>None\<close> is the finisher without effect.\<close>

definition begin_close :: "int \<Rightarrow> string \<Rightarrow> close_tracker \<Rightarrow> close_tracker \<times> nat option" where
  "begin_close now pane k =
     (if tk_cleared k then (k, None)
      else let k1 = retire_existing pane (retire_overdue now k) in
        if SELF_CLOSE_MAX_ENTRIES \<le> length (tk_entries k1) then (k1, None)
        else let i = length (tk_attempts k1);
                 k2 = k1\<lparr>tk_attempts := tk_attempts k1 @ [new_attempt now pane], tk_entries := al_put pane i (tk_entries k1)\<rparr>
             in (rearm now i k2, Some i))"

text \<open>The finisher of attempt \<open>i\<close>.\<close>

definition finish_close :: "int \<Rightarrow> nat \<Rightarrow> bool \<Rightarrow> close_tracker \<Rightarrow> close_tracker" where
  "finish_close now i confirmed k =
     (let a = tk_attempts k ! i in
      if sa_finished a then k
      else let k1 = set_attempt i (\<lambda>a. a\<lparr>sa_finished := True\<rparr>) k in
        if map_of (tk_entries k1) (sa_pane a) \<noteq> Some i then k1
        else if sa_deadline a \<le> now then retire_entry i False k1
        else if sa_claimed a then retire_entry i confirmed k1
        else if \<not> confirmed then retire_entry i False k1
        else let k2 = notifyClosed (sa_pane a) k1 in
          rearm now i (set_attempt i (\<lambda>a. a\<lparr>sa_confirmed := True, sa_deadline := now + SELF_CLOSE_CONFIRMED_TTL_MS\<rparr>) k2))"

definition answer_claim :: "nat option \<Rightarrow> bool \<Rightarrow> close_tracker \<Rightarrow> close_tracker" where
  "answer_claim i suppress k = k\<lparr>tk_answers := tk_answers k @ [(tk_claims k, i, suppress)], tk_claims := Suc (tk_claims k)\<rparr>"

definition consume_close :: "int \<Rightarrow> string \<Rightarrow> close_tracker \<Rightarrow> close_tracker" where
  "consume_close now pane k =
     (let k1 = notifyClosed pane k in
      case map_of (tk_entries k1) pane of
        None \<Rightarrow> answer_claim None False k1
      | Some i \<Rightarrow>
          (let a = tk_attempts k1 ! i in
           if sa_deadline a \<le> now then answer_claim (Some i) False (retire_entry i False k1)
           else if sa_confirmed a then answer_claim (Some i) True (retire_entry i True k1)
           else if sa_claimed a then answer_claim (Some i) False k1
           else (set_attempt i (\<lambda>a. a\<lparr>sa_claimed := True, sa_waiters := sa_waiters a @ [tk_claims k1]\<rparr>) k1)
                  \<lparr>tk_claims := Suc (tk_claims k1)\<rparr>))"

definition fire_timer :: "int \<Rightarrow> nat \<Rightarrow> close_tracker \<Rightarrow> close_tracker" where
  "fire_timer now i k =
     (case sa_timer (tk_attempts k ! i) of
        None \<Rightarrow> k
      | Some due \<Rightarrow> if due \<le> now then retire_entry i False k else k)"

definition onPaneClosed :: "nat \<Rightarrow> close_tracker \<Rightarrow> close_tracker" where
  "onPaneClosed l k = (if tk_cleared k then k else if l \<in> set (tk_listeners k) then k else k\<lparr>tk_listeners := tk_listeners k @ [l]\<rparr>)"

definition unsubscribe :: "nat \<Rightarrow> close_tracker \<Rightarrow> close_tracker" where
  "unsubscribe l k = k\<lparr>tk_listeners := filter (\<lambda>x. x \<noteq> l) (tk_listeners k)\<rparr>"

definition clear_tracker :: "close_tracker \<Rightarrow> close_tracker" where
  "clear_tracker k =
     (if tk_cleared k then k
      else (fold (\<lambda>i. retire_entry i False) (map snd (tk_entries k)) (k\<lparr>tk_cleared := True\<rparr>))\<lparr>tk_listeners := []\<rparr>)"

section \<open>Any sequence of operations\<close>

datatype close_op =
    CoBegin string
  | CoFinish nat bool
  | CoConsume string
  | CoFire nat
  | CoListen nat
  | CoUnlisten nat
  | CoClear

text \<open>A finisher and a timer exist only for an attempt that was begun.\<close>

fun close_step :: "int \<times> close_op \<Rightarrow> close_tracker \<Rightarrow> close_tracker" where
  "close_step (now, CoBegin pane) k = fst (begin_close now pane k)"
| "close_step (now, CoFinish i b) k = (if i < length (tk_attempts k) then finish_close now i b k else k)"
| "close_step (now, CoConsume pane) k = consume_close now pane k"
| "close_step (now, CoFire i) k = (if i < length (tk_attempts k) then fire_timer now i k else k)"
| "close_step (now, CoListen l) k = onPaneClosed l k"
| "close_step (now, CoUnlisten l) k = unsubscribe l k"
| "close_step (now, CoClear) k = clear_tracker k"

definition close_trace :: "(int \<times> close_op) list \<Rightarrow> close_tracker" where
  "close_trace ops = fold close_step ops createSelfCloseTracker"

end
