(* ===== verification/Self_Close_Properties.thy ===== *)
theory Self_Close_Properties
  imports Self_Close Traces
begin

text \<open>
  What the tracker of own closes promises over any sequence of calls, clock readings and timers: a close
  silences at most one wake and only after its own success was reported, and every claim is answered exactly
  once or waits for a timer that is set.
\<close>

section \<open>The invariant\<close>

definition live :: "close_tracker \<Rightarrow> nat \<Rightarrow> bool" where
  "live k i \<longleftrightarrow> map_of (tk_entries k) (sa_pane (tk_attempts k ! i)) = Some i"

definition suppressed :: "close_tracker \<Rightarrow> nat \<Rightarrow> nat" where
  "suppressed k i = length (filter (\<lambda>(c, j, b). j = Some i \<and> b) (tk_answers k))"

definition succeeded :: "(int \<times> close_op) set \<Rightarrow> nat \<Rightarrow> bool" where
  "succeeded H i \<longleftrightarrow> (\<exists>now. (now, CoFinish i True) \<in> H)"

definition attempt_ok :: "(int \<times> close_op) set \<Rightarrow> bool \<Rightarrow> nat \<Rightarrow> nat \<Rightarrow> close_attempt \<Rightarrow> bool" where
  "attempt_ok H alive n i a \<longleftrightarrow>
     (if alive then sa_timer a = Some (sa_deadline a) \<and> n = 0 else sa_timer a = None \<and> sa_waiters a = [])
     \<and> length (sa_waiters a) \<le> 1 \<and> (sa_waiters a \<noteq> [] \<longrightarrow> sa_claimed a \<and> \<not> sa_confirmed a)
     \<and> (sa_confirmed a \<longrightarrow> succeeded H i) \<and> n \<le> 1 \<and> (0 < n \<longrightarrow> succeeded H i)"

definition claims_ok :: "close_tracker \<Rightarrow> bool" where
  "claims_ok k \<longleftrightarrow> mset (map fst (tk_answers k)) + mset (concat (map sa_waiters (tk_attempts k))) = mset [0..<tk_claims k]
     \<and> (\<forall>c. (c, None, True) \<notin> set (tk_answers k))"

definition entries_ok :: "close_tracker \<Rightarrow> bool" where
  "entries_ok k \<longleftrightarrow> distinct (map fst (tk_entries k)) \<and> length (tk_entries k) \<le> SELF_CLOSE_MAX_ENTRIES
     \<and> (\<forall>e \<in> set (tk_entries k). snd e < length (tk_attempts k) \<and> sa_pane (tk_attempts k ! snd e) = fst e)
     \<and> (tk_cleared k \<longrightarrow> tk_entries k = [])"

definition tracker_ok :: "(int \<times> close_op) set \<Rightarrow> close_tracker \<Rightarrow> bool" where
  "tracker_ok H k \<longleftrightarrow> entries_ok k \<and> claims_ok k
     \<and> (\<forall>i < length (tk_attempts k). attempt_ok H (live k i) (suppressed k i) i (tk_attempts k ! i))
     \<and> (\<forall>i \<ge> length (tk_attempts k). suppressed k i = 0)"

lemma mset_concat_update:
  "i < length xs \<Longrightarrow> mset (concat (map f (xs[i := y]))) + mset (f (xs ! i)) = mset (concat (map f xs)) + mset (f y)"
proof (induction xs arbitrary: i)
  case (Cons x xs)
  then show ?case by (cases i) (auto simp: ac_simps)
qed simp

lemma succeeded_mono: "succeeded H i \<Longrightarrow> H \<subseteq> H' \<Longrightarrow> succeeded H' i"
  by (auto simp: succeeded_def)

lemma attempt_ok_mono: "attempt_ok H l n i a \<Longrightarrow> H \<subseteq> H' \<Longrightarrow> attempt_ok H' l n i a"
  by (auto simp: attempt_ok_def intro: succeeded_mono)

lemma tracker_ok_mono: "tracker_ok H k \<Longrightarrow> H \<subseteq> H' \<Longrightarrow> tracker_ok H' k"
  by (auto simp: tracker_ok_def intro: attempt_ok_mono)

lemma live_entry: "entries_ok k \<Longrightarrow> map_of (tk_entries k) p = Some i \<Longrightarrow> i < length (tk_attempts k) \<and> sa_pane (tk_attempts k ! i) = p \<and> live k i"
  by (fastforce simp: entries_ok_def live_def dest: map_of_SomeD)

section \<open>Retiring an entry\<close>

lemma length_al_del_le: "length (al_del k xs) \<le> length xs"
  by (simp add: al_del_def)

lemma set_al_put_absent: "k \<notin> fst ` set xs \<Longrightarrow> set (al_put k v xs) = insert (k, v) (set xs)"
  by (induction k v xs rule: al_put.induct) auto

lemma retire_fields:
  assumes "i < length (tk_attempts k)"
  shows "length (tk_attempts (retire_entry i b k)) = length (tk_attempts k)"
    and "tk_attempts (retire_entry i b k) ! j = (if j = i then (tk_attempts k ! i)\<lparr>sa_timer := None, sa_waiters := []\<rparr> else tk_attempts k ! j)"
    and "tk_entries (retire_entry i b k) = al_del (sa_pane (tk_attempts k ! i)) (tk_entries k)"
    and "tk_answers (retire_entry i b k) = tk_answers k @ map (\<lambda>c. (c, Some i, b)) (sa_waiters (tk_attempts k ! i))"
    and "tk_claims (retire_entry i b k) = tk_claims k" and "tk_cleared (retire_entry i b k) = tk_cleared k"
  using assms by (simp_all add: retire_entry_def set_attempt_def Let_def nth_list_update)

lemma retire_live:
  assumes "i < length (tk_attempts k)"
  shows "live (retire_entry i b k) j \<longleftrightarrow> live k j \<and> sa_pane (tk_attempts k ! j) \<noteq> sa_pane (tk_attempts k ! i)"
  using assms by (auto simp: live_def retire_fields)

lemma live_same_pane: "live k i \<Longrightarrow> live k j \<Longrightarrow> sa_pane (tk_attempts k ! j) = sa_pane (tk_attempts k ! i) \<Longrightarrow> j = i"
  by (simp add: live_def)

lemma retire_suppressed:
  assumes "i < length (tk_attempts k)"
  shows "suppressed (retire_entry i b k) j
    = suppressed k j + (if j = i \<and> b then length (sa_waiters (tk_attempts k ! i)) else 0)"
  using assms by (simp add: suppressed_def retire_fields filter_map comp_def)

lemma retire_claims:
  assumes "i < length (tk_attempts k)" and "claims_ok k"
  shows "claims_ok (retire_entry i b k)"
proof -
  let ?a = "(tk_attempts k ! i)\<lparr>sa_timer := None, sa_waiters := []\<rparr>"
  have "mset (concat (map sa_waiters ((tk_attempts k)[i := ?a]))) + mset (sa_waiters (tk_attempts k ! i)) = mset (concat (map sa_waiters (tk_attempts k)))"
    using mset_concat_update [OF assms(1), of sa_waiters ?a] by simp
  then show ?thesis using assms(2)
    by (simp add: claims_ok_def retire_entry_def set_attempt_def Let_def comp_def ac_simps) blast
qed

lemma retire_ok:
  assumes ok: "tracker_ok H k" and i: "i < length (tk_attempts k)" "live k i" and b: "b \<longrightarrow> succeeded H i"
  shows "tracker_ok H (retire_entry i b k)"
proof -
  have e: "entries_ok k" and a: "\<And>j. j < length (tk_attempts k) \<Longrightarrow> attempt_ok H (live k j) (suppressed k j) j (tk_attempts k ! j)"
    and c: "claims_ok k" and z: "\<And>j. length (tk_attempts k) \<le> j \<Longrightarrow> suppressed k j = 0"
    using ok by (simp_all add: tracker_ok_def)
  have "entries_ok (retire_entry i b k)"
    using e i(1) distinct_al_del [of "tk_entries k" "sa_pane (tk_attempts k ! i)"]
      le_trans [OF length_al_del_le [of "sa_pane (tk_attempts k ! i)" "tk_entries k"], of SELF_CLOSE_MAX_ENTRIES]
    by (auto simp: entries_ok_def retire_fields) (auto simp: al_del_def)
  moreover have "attempt_ok H (live (retire_entry i b k) j) (suppressed (retire_entry i b k) j) j (tk_attempts (retire_entry i b k) ! j)"
    if "j < length (tk_attempts k)" for j
  proof (cases "j = i")
    case True
    then show ?thesis using a [OF i(1)] i b
      by (auto simp: attempt_ok_def retire_live retire_suppressed retire_fields)
  next
    case False
    then have "live (retire_entry i b k) j = live k j" using i live_same_pane by (auto simp: retire_live)
    then show ?thesis using a [OF that] False i(1) by (simp add: retire_suppressed retire_fields)
  qed
  moreover have "suppressed (retire_entry i b k) j = 0" if "length (tk_attempts k) \<le> j" for j
    using z [OF that] that i(1) by (simp add: retire_suppressed)
  ultimately show ?thesis using retire_claims [OF i(1) c] i(1) by (simp add: tracker_ok_def retire_fields)
qed

lemma fold_retire_ok:
  assumes "tracker_ok H k" and "distinct ixs" and "\<forall>i \<in> set ixs. i < length (tk_attempts k) \<and> live k i"
  shows "tracker_ok H (fold (\<lambda>i k. if P i k then retire_entry i False k else k) ixs k)
    \<and> tk_cleared (fold (\<lambda>i k. if P i k then retire_entry i False k else k) ixs k) = tk_cleared k"
  using assms
proof (induction ixs arbitrary: k)
  case (Cons i ixs)
  let ?k = "if P i k then retire_entry i False k else k"
  have i: "i < length (tk_attempts k)" "live k i" using Cons.prems(3) by simp_all
  have "tracker_ok H ?k" using retire_ok [OF Cons.prems(1) i, of False] Cons.prems(1) by simp
  moreover have "\<forall>j \<in> set ixs. j < length (tk_attempts ?k) \<and> live ?k j"
    using Cons.prems(2,3) i live_same_pane by (auto simp: retire_fields(1) retire_live)
  ultimately show ?case using Cons.IH [of ?k] Cons.prems(2) i by (auto simp: retire_fields(6))
qed simp

lemma entries_live: "entries_ok k \<Longrightarrow> \<forall>i \<in> set (map snd (tk_entries k)). i < length (tk_attempts k) \<and> live k i"
  by (fastforce simp: entries_ok_def live_def)

lemma entries_distinct: "entries_ok k \<Longrightarrow> distinct (map snd (tk_entries k))"
proof -
  assume e: "entries_ok k"
  have "map fst (tk_entries k) = map (\<lambda>i. sa_pane (tk_attempts k ! i)) (map snd (tk_entries k))"
    using e by (auto simp: entries_ok_def)
  then show ?thesis using e by (metis distinct_map entries_ok_def)
qed

section \<open>The operations\<close>

lemma same_state_ok:
  assumes "tracker_ok H k" and "tk_attempts k' = tk_attempts k" and "tk_entries k' = tk_entries k"
    and "tk_answers k' = tk_answers k" and "tk_claims k' = tk_claims k" and "tk_cleared k' \<longrightarrow> tk_entries k' = []"
  shows "tracker_ok H k'"
proof -
  have "live k' i = live k i" "suppressed k' i = suppressed k i" for i by (simp_all add: live_def suppressed_def assms)
  then show ?thesis using assms by (simp add: tracker_ok_def entries_ok_def claims_ok_def)
qed

lemma notify_ok: "tracker_ok H (notifyClosed p k) \<longleftrightarrow> tracker_ok H k"
  by (simp add: tracker_ok_def entries_ok_def claims_ok_def live_def suppressed_def notifyClosed_def)

lemma set_attempt_fields:
  "tk_entries (set_attempt i f k) = tk_entries k" "tk_answers (set_attempt i f k) = tk_answers k"
  "tk_claims (set_attempt i f k) = tk_claims k" "tk_cleared (set_attempt i f k) = tk_cleared k"
  "length (tk_attempts (set_attempt i f k)) = length (tk_attempts k)"
  "i < length (tk_attempts k) \<Longrightarrow> tk_attempts (set_attempt i f k) ! j = (if j = i then f (tk_attempts k ! i) else tk_attempts k ! j)"
  by (simp_all add: set_attempt_def nth_list_update)

text \<open>A change of one attempt that keeps its pane and its waiting claims.\<close>

lemma set_attempt_ok:
  assumes "tracker_ok H k" and i: "i < length (tk_attempts k)"
    and f: "sa_pane (f (tk_attempts k ! i)) = sa_pane (tk_attempts k ! i)" "sa_waiters (f (tk_attempts k ! i)) = sa_waiters (tk_attempts k ! i)"
    and a: "attempt_ok H (live k i) (suppressed k i) i (f (tk_attempts k ! i))"
  shows "tracker_ok H (set_attempt i f k)"
proof -
  have l: "live (set_attempt i f k) j = live k j" for j using f(1) i by (simp add: live_def set_attempt_fields)
  have s: "suppressed (set_attempt i f k) j = suppressed k j" for j by (simp add: suppressed_def set_attempt_fields)
  have "map sa_waiters ((tk_attempts k)[i := f (tk_attempts k ! i)]) = map sa_waiters (tk_attempts k)"
    using f(2) i by (simp add: map_update list_update_same_conv)
  then have "claims_ok (set_attempt i f k)" using assms(1) by (simp add: claims_ok_def tracker_ok_def set_attempt_def)
  moreover have "entries_ok (set_attempt i f k)" using assms(1) f(1) i by (auto simp: entries_ok_def tracker_ok_def set_attempt_fields)
  ultimately show ?thesis using assms(1) a i by (auto simp: tracker_ok_def l s set_attempt_fields)
qed

lemma attempts_ok: "tracker_ok H k \<Longrightarrow> i < length (tk_attempts k) \<Longrightarrow> attempt_ok H (live k i) (suppressed k i) i (tk_attempts k ! i)"
  by (simp add: tracker_ok_def)

lemma answer_false_ok: "tracker_ok H k \<Longrightarrow> tracker_ok H (answer_claim j False k)"
  by (auto simp: tracker_ok_def entries_ok_def claims_ok_def live_def suppressed_def answer_claim_def)

lemma answer_true_ok:
  assumes "tracker_ok H k" and "i < length (tk_attempts k)" and "\<not> live k i" and "suppressed k i = 0" and "succeeded H i"
  shows "tracker_ok H (answer_claim (Some i) True k)"
  using assms by (auto simp: tracker_ok_def entries_ok_def claims_ok_def live_def suppressed_def answer_claim_def attempt_ok_def)

lemma new_attempt_fields:
  "sa_pane (new_attempt now pane) = pane" "sa_waiters (new_attempt now pane) = []"
  by (simp_all add: new_attempt_def)

lemma begin_ok: "tracker_ok H k \<Longrightarrow> tracker_ok H (fst (begin_close now pane k))"
proof (cases "tk_cleared k")
  case False
  assume ok: "tracker_ok H k"
  let ?k0 = "retire_overdue now k" and ?k1 = "retire_existing pane (retire_overdue now k)"
  have e: "entries_ok k" using ok by (simp add: tracker_ok_def)
  have k0: "tracker_ok H ?k0" "\<not> tk_cleared ?k0"
    using fold_retire_ok [OF ok entries_distinct [OF e] entries_live [OF e], of "\<lambda>i k. sa_deadline (tk_attempts k ! i) \<le> now"] False
    by (simp_all add: retire_overdue_def)
  then have e0: "entries_ok ?k0" by (simp add: tracker_ok_def)
  have k1: "tracker_ok H ?k1" "\<not> tk_cleared ?k1" "map_of (tk_entries ?k1) pane = None"
    using k0 retire_ok [OF k0(1), of _ False] live_entry [OF e0, of pane]
    by (auto simp: retire_existing_def retire_fields split: option.splits)
  then have e1: "entries_ok ?k1" and c1: "claims_ok ?k1" by (simp_all add: tracker_ok_def)
  show ?thesis
  proof (cases "SELF_CLOSE_MAX_ENTRIES \<le> length (tk_entries ?k1)")
    case room: False
    let ?i = "length (tk_attempts ?k1)"
    let ?k2 = "?k1\<lparr>tk_attempts := tk_attempts ?k1 @ [new_attempt now pane], tk_entries := al_put pane ?i (tk_entries ?k1)\<rparr>"
    define k3 where "k3 = rearm now ?i ?k2"
    have res: "fst (begin_close now pane k) = k3" using False room by (simp add: k3_def begin_close_def Let_def)
    have at2: "tk_attempts (k3) ! j = (if j = ?i then (new_attempt now pane)\<lparr>sa_timer := Some (now + SELF_CLOSE_PENDING_TTL_MS)\<rparr>
        else tk_attempts ?k1 ! j)" if "j < Suc ?i" for j
      using that by (auto simp: k3_def rearm_def set_attempt_fields nth_append new_attempt_def SELF_CLOSE_PENDING_TTL_MS_def)
    have fields: "tk_entries (k3) = al_put pane ?i (tk_entries ?k1)" "tk_answers (k3) = tk_answers ?k1"
        "tk_claims (k3) = tk_claims ?k1" "tk_cleared (k3) = tk_cleared ?k1"
        "length (tk_attempts (k3)) = Suc ?i" by (simp_all add: k3_def rearm_def set_attempt_fields)
    have absent: "pane \<notin> fst ` set (tk_entries ?k1)" using k1(3) by (simp add: map_of_None_keys)
    have ent: "set (al_put pane ?i (tk_entries ?k1)) = insert (pane, ?i) (set (tk_entries ?k1))"
      using absent by (rule set_al_put_absent)
    have "entries_ok (k3)"
      unfolding entries_ok_def
    proof (intro conjI ballI impI)
      fix e assume "e \<in> set (tk_entries (k3))"
      then have "e = (pane, ?i) \<or> e \<in> set (tk_entries ?k1)" by (simp add: fields ent)
      then have "snd e < Suc ?i \<and> sa_pane (tk_attempts (k3) ! snd e) = fst e"
        using e1 by (auto simp: entries_ok_def at2 less_Suc_eq new_attempt_fields)
      then show "snd e < length (tk_attempts (k3))" "sa_pane (tk_attempts (k3) ! snd e) = fst e"
        by (simp_all add: fields)
    qed (use e1 room k1(2) absent in \<open>simp_all add: entries_ok_def fields length_al_put_absent\<close>)
    moreover have "claims_ok (k3)"
    proof -
      have "map sa_waiters (tk_attempts (k3)) = map sa_waiters (tk_attempts ?k1) @ [[]]"
        by (rule nth_equalityI) (auto simp: fields at2 nth_append new_attempt_def)
      then show ?thesis using c1 by (simp add: claims_ok_def fields)
    qed
    moreover have "live (k3) j = (j = ?i \<or> live ?k1 j)" if "j < Suc ?i" for j
      using that e1 k1(3) live_entry [OF e1] by (auto simp: live_def fields at2 new_attempt_def)
    moreover have "suppressed (k3) j = suppressed ?k1 j" for j by (simp add: suppressed_def fields)
    ultimately show ?thesis using k1(1) unfolding res
      by (auto simp: tracker_ok_def fields at2 less_Suc_eq) (auto simp: attempt_ok_def new_attempt_def)
  qed (use k1 False in \<open>simp add: begin_close_def Let_def\<close>)
qed (simp add: begin_close_def)

lemma finish_ok:
  assumes ok: "tracker_ok H k" and i: "i < length (tk_attempts k)" and b: "b \<longrightarrow> succeeded H i"
  shows "tracker_ok H (finish_close now i b k)"
proof -
  let ?k1 = "set_attempt i (\<lambda>a. a\<lparr>sa_finished := True\<rparr>) k" and ?a = "tk_attempts k ! i"
  have k1: "tracker_ok H ?k1" using attempts_ok [OF ok i] by (intro set_attempt_ok [OF ok i]) (simp_all add: attempt_ok_def)
  have i1: "i < length (tk_attempts ?k1)" using i by (simp add: set_attempt_fields)
  show ?thesis
  proof (cases "live k i")
    case True
    have l1: "live ?k1 i" using True i by (simp add: live_def set_attempt_fields)
    have r: "tracker_ok H (retire_entry i c ?k1)" if "c \<longrightarrow> succeeded H i" for c using that by (rule retire_ok [OF k1 i1 l1])
    let ?k2 = "notifyClosed (sa_pane ?a) ?k1"
    let ?f = "\<lambda>a. a\<lparr>sa_confirmed := True, sa_deadline := now + SELF_CLOSE_CONFIRMED_TTL_MS\<rparr>"
    let ?g = "\<lambda>a. a\<lparr>sa_timer := Some (now + max 0 (sa_deadline a - now))\<rparr>"
    have fuse: "rearm now i (set_attempt i ?f ?k2) = set_attempt i (\<lambda>a. ?g (?f a)) ?k2"
      using i by (simp add: rearm_def set_attempt_def notifyClosed_def)
    have k2: "tracker_ok H ?k2" using k1 by (simp add: notify_ok)
    have at2: "tk_attempts ?k2 ! i = ?a\<lparr>sa_finished := True\<rparr>" "i < length (tk_attempts ?k2)" "live ?k2 i"
      using i l1 by (simp_all add: notifyClosed_def set_attempt_fields live_def)
    have "tracker_ok H (rearm now i (set_attempt i ?f ?k2))" if "b" "\<not> sa_claimed ?a" unfolding fuse
      using attempts_ok [OF k2 at2(2)] at2 that b
      by (intro set_attempt_ok [OF k2 at2(2)]) (auto simp: attempt_ok_def SELF_CLOSE_CONFIRMED_TTL_MS_def)
    then show ?thesis using ok k1 r [of False] r [of b] b by (auto simp: finish_close_def Let_def)
  next
    case False
    then have "map_of (tk_entries ?k1) (sa_pane ?a) \<noteq> Some i" by (simp add: live_def set_attempt_fields)
    then show ?thesis using ok k1 by (simp add: finish_close_def Let_def)
  qed
qed

lemma consume_ok: "tracker_ok H k \<Longrightarrow> tracker_ok H (consume_close now pane k)"
proof -
  assume ok: "tracker_ok H k"
  let ?k = "notifyClosed pane k"
  have k: "tracker_ok H ?k" using ok by (simp add: notify_ok)
  then have e: "entries_ok ?k" by (simp add: tracker_ok_def)
  show ?thesis
  proof (cases "map_of (tk_entries ?k) pane")
    case (Some i)
    note live = live_entry [OF e Some]
    let ?a = "tk_attempts ?k ! i"
    have i: "i < length (tk_attempts ?k)" and l: "live ?k i" using live by simp_all
    note a = attempts_ok [OF k i]
    have r: "tracker_ok H (retire_entry i c ?k)" if "c \<longrightarrow> succeeded H i" for c using that by (rule retire_ok [OF k i l])
    have confirmed: "tracker_ok H (answer_claim (Some i) True (retire_entry i True ?k))" if "sa_confirmed ?a"
    proof (rule answer_true_ok)
      have s: "succeeded H i" using a that by (simp add: attempt_ok_def)
      then show "tracker_ok H (retire_entry i True ?k)" "succeeded H i" using r by simp_all
      show "i < length (tk_attempts (retire_entry i True ?k))" "\<not> live (retire_entry i True ?k) i" using i by (simp_all add: retire_fields retire_live)
      show "suppressed (retire_entry i True ?k) i = 0" using a that l i by (auto simp: retire_suppressed attempt_ok_def)
    qed
    have waiting: "tracker_ok H ((set_attempt i (\<lambda>a. a\<lparr>sa_claimed := True, sa_waiters := sa_waiters a @ [tk_claims ?k]\<rparr>) ?k)\<lparr>tk_claims := Suc (tk_claims ?k)\<rparr>)"
      if "\<not> sa_confirmed ?a" "\<not> sa_claimed ?a"
    proof -
      let ?b = "?a\<lparr>sa_claimed := True, sa_waiters := [tk_claims ?k]\<rparr>"
      have none: "sa_waiters ?a = []" using a that by (auto simp: attempt_ok_def)
      let ?k' = "?k\<lparr>tk_attempts := (tk_attempts ?k)[i := ?b], tk_claims := Suc (tk_claims ?k)\<rparr>"
      have eq: "(set_attempt i (\<lambda>a. a\<lparr>sa_claimed := True, sa_waiters := sa_waiters a @ [tk_claims ?k]\<rparr>) ?k)\<lparr>tk_claims := Suc (tk_claims ?k)\<rparr> = ?k'"
        using none by (simp add: set_attempt_def)
      have lv: "live ?k' j = live ?k j" and sp: "suppressed ?k' j = suppressed ?k j" for j
        using i by (simp_all add: live_def suppressed_def nth_list_update)
      have "claims_ok ?k'"
        using k mset_concat_update [OF i, of sa_waiters ?b] none by (simp add: tracker_ok_def claims_ok_def)
      moreover have "entries_ok ?k'" using e i by (auto simp: entries_ok_def nth_list_update)
      moreover have "attempt_ok H (live ?k j) (suppressed ?k j) j (tk_attempts ?k' ! j)" if "j < length (tk_attempts ?k)" for j
        using attempts_ok [OF k that] i l \<open>\<not> sa_confirmed ?a\<close> by (auto simp: nth_list_update attempt_ok_def)
      ultimately show ?thesis unfolding eq using k by (simp add: tracker_ok_def lv sp)
    qed
    show ?thesis using Some r [of False] answer_false_ok confirmed waiting answer_false_ok [OF k]
      by (auto simp: consume_close_def Let_def)
  qed (use k in \<open>simp add: consume_close_def Let_def answer_false_ok\<close>)
qed

lemma fire_ok: "tracker_ok H k \<Longrightarrow> i < length (tk_attempts k) \<Longrightarrow> tracker_ok H (fire_timer now i k)"
  using attempts_ok [of H k i] retire_ok [of H k i False]
  by (cases "live k i") (auto simp: fire_timer_def attempt_ok_def split: option.splits)

lemma fold_retire_entries:
  "tracker_ok H k \<Longrightarrow> fold (\<lambda>i. retire_entry i False) ixs k = fold (\<lambda>i k. if True then retire_entry i False k else k) ixs k"
  by simp

lemma fold_retire_empties:
  assumes "entries_ok k"
  shows "tk_entries (fold (\<lambda>i. retire_entry i False) (map snd (tk_entries k)) k) = []"
proof -
  have "tk_entries (fold (\<lambda>i. retire_entry i False) ixs k) = filter (\<lambda>e. fst e \<notin> (\<lambda>i. sa_pane (tk_attempts k ! i)) ` set ixs) (tk_entries k)"
    if "\<forall>i \<in> set ixs. i < length (tk_attempts k)" for ixs k
    using that
  proof (induction ixs arbitrary: k)
    case (Cons i ixs)
    let ?k = "retire_entry i False k"
    have p: "sa_pane (tk_attempts ?k ! j) = sa_pane (tk_attempts k ! j)" for j using Cons.prems by (simp add: retire_fields)
    have "fold (\<lambda>i. retire_entry i False) (i # ixs) k = fold (\<lambda>i. retire_entry i False) ixs ?k" by simp
    then show ?case using Cons.IH [of ?k] Cons.prems
      by (auto simp: retire_fields(1,3) p al_del_def intro!: filter_cong)
  qed (simp add: filter_True)
  note gone = this [of "map snd (tk_entries k)" k]
  have "fst e \<in> (\<lambda>i. sa_pane (tk_attempts k ! i)) ` set (map snd (tk_entries k))" if "e \<in> set (tk_entries k)" for e
  proof (rule image_eqI)
    show "fst e = sa_pane (tk_attempts k ! snd e)" using assms that by (simp add: entries_ok_def)
    show "snd e \<in> set (map snd (tk_entries k))" using that by simp
  qed
  moreover have "\<forall>i \<in> set (map snd (tk_entries k)). i < length (tk_attempts k)" using assms by (auto simp: entries_ok_def)
  ultimately show ?thesis using gone by (simp only: filter_empty_conv) simp
qed

lemma retire_cleared: "retire_entry i b (k\<lparr>tk_cleared := c\<rparr>) = (retire_entry i b k)\<lparr>tk_cleared := c\<rparr>"
  by (simp add: retire_entry_def set_attempt_def Let_def)

lemma clear_ok: "tracker_ok H k \<Longrightarrow> tracker_ok H (clear_tracker k)"
proof (cases "tk_cleared k")
  case False
  assume ok: "tracker_ok H k"
  then have e: "entries_ok k" by (simp add: tracker_ok_def)
  let ?f = "fold (\<lambda>i. retire_entry i False) (map snd (tk_entries k))"
  have comm: "fold (\<lambda>i. retire_entry i False) ixs (k\<lparr>tk_cleared := True\<rparr>) = (fold (\<lambda>i. retire_entry i False) ixs k)\<lparr>tk_cleared := True\<rparr>" for ixs k
    by (induction ixs arbitrary: k) (simp_all add: retire_cleared)
  have "tracker_ok H (?f k)" using fold_retire_ok [OF ok entries_distinct [OF e] entries_live [OF e], of "\<lambda>_ _. True"] by simp
  then have "tracker_ok H ((?f k)\<lparr>tk_cleared := True, tk_listeners := []\<rparr>)"
    by (rule same_state_ok) (simp_all add: fold_retire_empties [OF e])
  then show ?thesis using False by (simp add: clear_tracker_def comm)
qed (simp add: clear_tracker_def)

lemma start_tracker_ok: "tracker_ok H createSelfCloseTracker"
  by (simp add: tracker_ok_def entries_ok_def claims_ok_def suppressed_def createSelfCloseTracker_def)

lemma close_step_ok: "tracker_ok H k \<Longrightarrow> tracker_ok (insert x H) (close_step x k)"
proof -
  assume "tracker_ok H k"
  then have k: "tracker_ok (insert x H) k" by (rule tracker_ok_mono) blast
  obtain now op where x: "x = (now, op)" by fastforce
  show ?thesis
  proof (cases op)
    case (CoFinish i b)
    then have "b \<longrightarrow> succeeded (insert x H) i" by (auto simp: succeeded_def x)
    then show ?thesis using finish_ok [OF k] k by (simp add: x CoFinish)
  next
    case (CoListen l)
    have "tracker_ok (insert x H) (onPaneClosed l k)" by (rule same_state_ok [OF k]) (use k in \<open>auto simp: onPaneClosed_def tracker_ok_def entries_ok_def\<close>)
    then show ?thesis by (simp add: x CoListen)
  next
    case (CoUnlisten l)
    have "tracker_ok (insert x H) (unsubscribe l k)" by (rule same_state_ok [OF k]) (use k in \<open>auto simp: unsubscribe_def tracker_ok_def entries_ok_def\<close>)
    then show ?thesis by (simp add: x CoUnlisten)
  qed (use k begin_ok consume_ok fire_ok clear_ok in \<open>simp_all add: x\<close>)
qed

interpretation tracker: driven close_step createSelfCloseTracker tracker_ok
  by unfold_locales (simp_all add: start_tracker_ok close_step_ok)

section \<open>What the tracker promises\<close>

text \<open>
  C12. A close silences at most one wake, and only when it succeeded: over any sequence of calls, clock
  readings and timers, at most one claim on an attempt is answered with \<open>true\<close>, such an answer belongs
  to an attempt, and the finisher of that attempt was called with success.
\<close>

theorem own_close_silences_once:
  "suppressed (close_trace ops) i \<le> 1
   \<and> ((c, j, True) \<in> set (tk_answers (close_trace ops)) \<longrightarrow> (\<exists>i now. j = Some i \<and> (now, CoFinish i True) \<in> set ops))"
proof -
  have ok: "tracker_ok (set ops) (close_trace ops)" unfolding close_trace_def by (rule tracker.trace_ok)
  have sup: "suppressed (close_trace ops) i \<le> 1" "0 < suppressed (close_trace ops) i \<Longrightarrow> succeeded (set ops) i" for i
    using ok by (cases "i < length (tk_attempts (close_trace ops))"; simp add: tracker_ok_def attempt_ok_def)+
  have "\<exists>i. j = Some i \<and> succeeded (set ops) i" if "(c, j, True) \<in> set (tk_answers (close_trace ops))"
  proof (cases j)
    case (Some i)
    have "(c, Some i, True) \<in> set (filter (\<lambda>(c, j, b). j = Some i \<and> b) (tk_answers (close_trace ops)))" using that Some by simp
    then have "0 < suppressed (close_trace ops) i" unfolding suppressed_def by (metis length_pos_if_in_set)
    then show ?thesis using sup(2) Some by blast
  qed (use that ok in \<open>simp add: tracker_ok_def claims_ok_def\<close>)
  then show ?thesis using sup(1) by (auto simp: succeeded_def)
qed

text \<open>
  C13. No claim is lost: over any sequence of calls, clock readings and timers every call of \<open>consume\<close> is
  answered exactly once or is waiting; what waits belongs to a live attempt whose timer is set to its
  deadline, at most \<open>SELF_CLOSE_MAX_ENTRIES\<close> attempts are live, and after \<open>clear\<close> nothing waits.
\<close>

theorem every_claim_is_answered_or_waits:
  assumes "k = close_trace ops"
  shows "mset (map fst (tk_answers k)) + mset (concat (map sa_waiters (tk_attempts k))) = mset [0..<tk_claims k]
     \<and> (\<forall>i < length (tk_attempts k). sa_waiters (tk_attempts k ! i) \<noteq> [] \<longrightarrow>
          \<not> tk_cleared k \<and> live k i \<and> sa_timer (tk_attempts k ! i) = Some (sa_deadline (tk_attempts k ! i)))
     \<and> length (tk_entries k) \<le> SELF_CLOSE_MAX_ENTRIES"
proof -
  have ok: "tracker_ok (set ops) k" unfolding assms close_trace_def by (rule tracker.trace_ok)
  have "\<not> tk_cleared k \<and> live k i \<and> sa_timer (tk_attempts k ! i) = Some (sa_deadline (tk_attempts k ! i))"
    if "i < length (tk_attempts k)" "sa_waiters (tk_attempts k ! i) \<noteq> []" for i
    using attempts_ok [OF ok that(1)] that(2) ok by (auto simp: attempt_ok_def tracker_ok_def entries_ok_def live_def split: if_splits)
  then show ?thesis using ok by (simp add: tracker_ok_def claims_ok_def entries_ok_def)
qed

section \<open>A concrete close\<close>

definition example_closes :: "(int \<times> close_op) list" where
  "example_closes = [(0, CoBegin ''p''), (1, CoConsume ''p''), (2, CoConsume ''p''), (3, CoFinish 0 True), (4, CoBegin ''q''), (5, CoConsume ''q'')]"

lemma example_answers: "tk_answers (close_trace example_closes) = [(1, Some 0, False), (0, Some 0, True)]"
  by code_simp

theorem own_close_silences_once_witness:
  "suppressed (close_trace example_closes) 0 \<le> 1 \<and> (\<exists>i now. Some (0::nat) = Some i \<and> (now, CoFinish i True) \<in> set example_closes)"
  using own_close_silences_once [of example_closes 0 0 "Some 0"] by (simp add: example_answers)

theorem every_claim_is_answered_or_waits_witness:
  "live (close_trace example_closes) 1 \<and> sa_timer (tk_attempts (close_trace example_closes) ! 1) = Some 60004"
proof -
  have "length (tk_attempts (close_trace example_closes)) = 2" "sa_waiters (tk_attempts (close_trace example_closes) ! 1) = [2]"
    "sa_deadline (tk_attempts (close_trace example_closes) ! 1) = 60004" by code_simp+
  then show ?thesis using every_claim_is_answered_or_waits [OF refl, of example_closes] by simp
qed

end
