(* ===== verification/Retirement.thy ===== *)
theory Retirement
  imports Handoff_Gate Caller_Policy Close_Topology Supervised_Identity
begin

text \<open>
  The retirement of finished lanes (\<open>src/daemon/retire.ts\<close>), with the verdict on a recorded child
  (\<open>classifyChild\<close> of \<open>src/daemon/reattach.ts\<close>), the follow-up veto (\<open>src/supervision/trace-follow-up.ts\<close>)
  and the close that is proven by a readback (\<open>src/mutations.ts\<close>). One sweep runs at a time. What the sweep
  observes of a lane, and what it observes again under the locks, are two records of the world: the
  sidecar store, the intents, the mailboxes, a snapshot, and the replies of the command line tool. The scan
  of the native trace and the reading of the Devin composer are parameters. The clock is read once for
  each observation.
\<close>

section \<open>The child a sidecar records\<close>

definition st_child :: "string \<Rightarrow> jsval \<Rightarrow> jsval" where
  "st_child k v = jget k (jget ''child'' v)"

definition st_native :: "jsval \<Rightarrow> agent_session option" where
  "st_native v = session_opt_of (jget ''nativeSession'' v)"

definition st_detail :: "jsval \<Rightarrow> string option" where
  "st_detail v = opt_str (jget ''detail'' (jget ''lifecycle'' v))"

definition HANDOFF_CYCLE_MARKS :: "string list" where
  "HANDOFF_CYCLE_MARKS = [''provider_limit'', ''cycle_reopened'']"

definition cycle_mark :: "jsval \<Rightarrow> string option" where
  "cycle_mark v = (case st_detail v of Some s \<Rightarrow> if s \<in> set HANDOFF_CYCLE_MARKS then Some s else None | None \<Rightarrow> None)"

definition same_recorded :: "prompt_identity \<Rightarrow> jsval \<Rightarrow> agent_session \<Rightarrow> bool" where
  "same_recorded live v session \<longleftrightarrow> JStr (pi_terminalId live) = st_child ''terminalId'' v \<and> JStr (pi_agentName live) = st_child ''agentName'' v
     \<and> JStr (pi_agentKind live) = st_child ''agentKind'' v \<and> pi_agentSession live = session"

datatype child_verdict = ChildMatched sup_identity | ChildAbsent | ChildAmbiguous string

definition live_identity :: "prompt_identity \<Rightarrow> sup_identity" where
  "live_identity i = \<lparr>si_paneId = pi_paneId i, si_terminalId = pi_terminalId i, si_agentName = pi_agentName i,
     si_agentKind = pi_agentKind i, si_session = pi_agentSession i\<rparr>"

text \<open>The callers have established that the terminal and the session are recorded.\<close>

definition classifyChild :: "ambient \<Rightarrow> snapshot \<Rightarrow> jsval \<Rightarrow> child_verdict" where
  "classifyChild am sn v =
     (case filter (\<lambda>p. jget ''terminal_id'' p = st_child ''terminalId'' v) (sn_panes sn) of
        [] \<Rightarrow> if st_child ''paneId'' v \<noteq> JNull \<and> list_ex (\<lambda>p. jget ''pane_id'' p = st_child ''paneId'' v) (sn_panes sn)
              then ChildAmbiguous ''pane_occupied_by_other_terminal'' else ChildAbsent
      | [p] \<Rightarrow>
          (let pane = id_of ''pane_id'' p in
           case bind_result (snapshotIdentityRecords sn pane) (\<lambda>records. requirePromptTargetIdentity records pane) of
             Inl _ \<Rightarrow> ChildAmbiguous ''identity_untrusted''
           | Inr live \<Rightarrow>
               if same_recorded live v (the (st_native v)) then ChildMatched (live_identity live)
               else ChildAmbiguous ''identity_changed'')
      | ps \<Rightarrow> ChildAmbiguous (''terminal_ambiguous:'' @ am_numStr am (of_nat (length ps))))"

section \<open>A close proven by its readback\<close>

datatype close_mutation = MutationDone | MutationUndispatched string | MutationFailed

datatype close_outcome = CloseConfirmed | CloseReconciled | CloseThrew string

text \<open>The reply of the close, and the snapshot read back after it unless the close was never dispatched.\<close>

definition closeWithReadback :: "close_mutation \<Rightarrow> snapshot option \<Rightarrow> string \<Rightarrow> close_outcome" where
  "closeWithReadback mutation readback target =
     (case mutation of
        MutationUndispatched code \<Rightarrow> CloseThrew code
      | _ \<Rightarrow>
          (case readback of
             None \<Rightarrow> CloseThrew ''MUTATION_UNCERTAIN''
           | Some sn \<Rightarrow>
               if with_field ''pane_id'' target (sn_panes sn) = []
               then (if mutation = MutationDone then CloseConfirmed else CloseReconciled)
               else CloseThrew ''MUTATION_UNCERTAIN''))"

section \<open>The state of the sweep\<close>

datatype retire_state = RvWatching | RvEligible | RvDeferred | RvRefused | RvRetired | RvFailed | RvKept | RvDisabled

fun retire_state_name :: "retire_state \<Rightarrow> string" where
  "retire_state_name RvWatching = ''watching''"
| "retire_state_name RvEligible = ''eligible''"
| "retire_state_name RvDeferred = ''deferred''"
| "retire_state_name RvRefused = ''refused''"
| "retire_state_name RvRetired = ''retired''"
| "retire_state_name RvFailed = ''failed''"
| "retire_state_name RvKept = ''kept''"
| "retire_state_name RvDisabled = ''disabled''"

record retire_view =
  rv_state :: retire_state
  rv_reason :: "string option"
  rv_stableForMs :: "int option"
  rv_at :: "int option"

record lane_entry =
  le_seq :: "rat option"
  le_screen :: "string option"
  le_sinceMs :: "int option"
  le_focusDefers :: nat
  le_attempts :: nat
  le_view :: retire_view

datatype retire_fx =
    FxBeginClose string string  \<comment> \<open>the run, and the pane that is closed for it\<close>
  | FxMarked string
  | FxFinishClose string bool
  | FxLaneRetired run_input

record retirer =
  rt_ledger :: "(string \<times> lane_entry) list"
  rt_retired :: "string list"
  rt_journaled :: "(string \<times> string) list"
  rt_log :: "(string \<times> string \<times> string option) list"
  rt_out :: "retire_fx list"

record retire_options =
  ro_enabled :: bool
  ro_graceMs :: int
  ro_maxFocusDefers :: nat
  ro_maxAttempts :: nat
  ro_dir :: string
  ro_endpoint :: string

definition DEFAULT_MAX_FOCUS_DEFERS :: nat where
  "DEFAULT_MAX_FOCUS_DEFERS = 60"

definition DEFAULT_MAX_ATTEMPTS :: nat where
  "DEFAULT_MAX_ATTEMPTS = 3"

definition TERMINAL_CHILD_LIFECYCLES :: "string list" where
  "TERMINAL_CHILD_LIFECYCLES = [''handed_off'', ''cancelled'', ''failed'']"

definition TASK_KEEP_REASON :: string where
  "TASK_KEEP_REASON = ''task_retention_keep''"

definition createLaneRetirer :: retirer where
  "createLaneRetirer = \<lparr>rt_ledger = [], rt_retired = [], rt_journaled = [], rt_log = [], rt_out = []\<rparr>"

definition new_entry :: lane_entry where
  "new_entry = \<lparr>le_seq = None, le_screen = None, le_sinceMs = None, le_focusDefers = 0, le_attempts = 0,
     le_view = \<lparr>rv_state = RvWatching, rv_reason = None, rv_stableForMs = None, rv_at = None\<rparr>\<rparr>"

text \<open>The tracked entry is one object, held by the map and by the evaluation that works on it.\<close>

definition entry_of :: "string \<Rightarrow> retirer \<Rightarrow> lane_entry" where
  "entry_of runId t = (case map_of (rt_ledger t) runId of None \<Rightarrow> new_entry | Some e \<Rightarrow> e)"

definition upd_entry :: "string \<Rightarrow> (lane_entry \<Rightarrow> lane_entry) \<Rightarrow> retirer \<Rightarrow> retirer" where
  "upd_entry runId f t = t\<lparr>rt_ledger := al_put runId (f (entry_of runId t)) (rt_ledger t)\<rparr>"

definition drop_entry :: "string \<Rightarrow> retirer \<Rightarrow> retirer" where
  "drop_entry runId t = t\<lparr>rt_ledger := al_del runId (rt_ledger t)\<rparr>"

definition emit_fx :: "retire_fx \<Rightarrow> retirer \<Rightarrow> retirer" where
  "emit_fx x t = t\<lparr>rt_out := rt_out t @ [x]\<rparr>"

definition journalKey :: "string \<Rightarrow> string \<Rightarrow> string \<times> string option \<Rightarrow> retirer \<Rightarrow> retirer" where
  "journalKey runId key line t =
     (if map_of (rt_journaled t) runId = Some key then t
      else t\<lparr>rt_journaled := al_put runId key (rt_journaled t), rt_log := rt_log t @ [(runId, line)]\<rparr>)"

definition journal :: "string \<Rightarrow> string option \<Rightarrow> retirer \<Rightarrow> retirer" where
  "journal runId decision t =
     (let view = le_view (entry_of runId t);
          outcome = (case decision of Some d \<Rightarrow> d | None \<Rightarrow> retire_state_name (rv_state view))
      in journalKey runId (outcome @ '':'' @ (case rv_reason view of None \<Rightarrow> ''-'' | Some r \<Rightarrow> r)) (outcome, rv_reason view) t)"

definition setView ::
  "string \<Rightarrow> int \<Rightarrow> retire_state \<Rightarrow> string option \<Rightarrow> int option \<Rightarrow> string option \<Rightarrow> retirer \<Rightarrow> retirer" where
  "setView runId now state reason stableMs decision t =
     journal runId decision (upd_entry runId (\<lambda>e. e\<lparr>le_view :=
       \<lparr>rv_state = state, rv_reason = reason, rv_stableForMs = stableMs, rv_at = Some now\<rparr>\<rparr>) t)"

definition resetClock :: "string \<Rightarrow> retirer \<Rightarrow> retirer" where
  "resetClock runId = upd_entry runId (\<lambda>e. e\<lparr>le_seq := None, le_screen := None, le_sinceMs := None\<rparr>)"

text \<open>A bounded single-line fragment, and the code of an error.\<close>

definition bounded_fragment :: "string \<Rightarrow> string" where
  "bounded_fragment s = take 64 (map (\<lambda>c. if char_in CHR 0x20 CHR 0x7E c then c else CHR ''_'') s)"

definition bounded_code :: "string \<Rightarrow> bool" where
  "bounded_code = head_tail_shape is_upper (\<lambda>c. is_upper c \<or> is_digit c \<or> c = CHR ''_'') 63"

definition codeOf :: "string option \<Rightarrow> string" where
  "codeOf code = (case code of Some s \<Rightarrow> if bounded_code s then s else ''ERROR'' | None \<Rightarrow> ''ERROR'')"

definition store_code :: "handoff_error \<Rightarrow> string" where
  "store_code e = (case e of HandoffUnavailable \<Rightarrow> ''HANDOFF_UNAVAILABLE'' | HandoffStoreFailed _ \<Rightarrow> ''HANDOFF_STORE_FAILED'')"

section \<open>What a sweep observes\<close>

datatype screen_read = ScreenFailed | ScreenTruncated | ScreenText string

datatype tail_scan = TsNone | TsUserTurn int | TsPendingTail | TsAmbiguous string | TsFailure string

record devin_composer =
  dv_queued :: bool
  dv_inputEmpty :: bool

text \<open>\<open>wo_scan\<close> is the tail scan; \<open>wo_readFault\<close> the code of an artifact read that failed with a foreign error.\<close>

record lane_world =
  wo_now :: int
  wo_store :: handoff_store
  wo_io :: handoff_io
  wo_artifact :: artifact_io
  wo_readFault :: "string option"
  wo_intents :: intent_store
  wo_intentIo :: intent_io
  wo_mail :: mail_store
  wo_mailIo :: mail_io
  wo_snapshot :: "string option + snapshot"
  wo_paneGet :: "string option + jsval"
  wo_agentGet :: "string option + jsval"
  wo_screen :: screen_read
  wo_scan :: "string \<Rightarrow> agent_session \<Rightarrow> jsval \<Rightarrow> rat \<Rightarrow> jsval \<Rightarrow> tail_scan"
  wo_composer :: "devin_composer option"
  wo_lease :: bool

definition open_state :: "lane_world \<Rightarrow> string \<Rightarrow> (handoff_error, jsval) result" where
  "open_state w runId = bind_result (openIn (wo_io w) runId) (\<lambda>_. readHandoffState (wo_io w) runId (wo_store w))"

text \<open>Only a record that is missing is a legacy run.\<close>

definition readProvenance :: "lane_world \<Rightarrow> string \<Rightarrow> (string, provenance option) result" where
  "readProvenance w runId =
     (case readHandoffProvenance (wo_io w) runId (wo_store w) of
        Inr p \<Rightarrow> Inr (Some p)
      | Inl e \<Rightarrow> if e = HandoffStoreFailed ''missing'' then Inr None else Inl ''provenance_unreadable'')"

definition task_keep :: "provenance option \<Rightarrow> bool" where
  "task_keep p = (case p of None \<Rightarrow> False | Some q \<Rightarrow> jget ''retention'' (pv_task q) = JStr ''keep'')"

definition screenDigest :: "ambient \<Rightarrow> lane_world \<Rightarrow> (string, string) result" where
  "screenDigest am w =
     (case wo_screen w of
        ScreenFailed \<Rightarrow> Inl ''screen_unavailable''
      | ScreenTruncated \<Rightarrow> Inl ''screen_truncated''
      | ScreenText s \<Rightarrow> Inr (am_sha256 am s))"

definition lifecycleOf :: "jsval \<Rightarrow> jsval \<Rightarrow> (string, string \<times> rat) result" where
  "lifecycleOf pane agent =
     (case joinTargetRecords pane (Some agent) of
        TargetInvalid r \<Rightarrow> Inl (''lifecycle_'' @ failure_name r)
      | _ \<Rightarrow>
          (case jget ''agent_status'' agent of
             JStr status \<Rightarrow> (case jget ''state_change_seq'' agent of
                 JNum seq \<Rightarrow> Inr (status, seq) | _ \<Rightarrow> Inl ''state_change_seq_unavailable'')
           | _ \<Rightarrow> Inl ''lifecycle_status_unavailable''))"

type_synonym veto = "(retire_state \<times> string) option"

fun child_runs_reason :: "lane_world \<Rightarrow> intent_child list \<Rightarrow> string option" where
  "child_runs_reason w [] = None"
| "child_runs_reason w (c # cs) =
     (case ic_runId c of
        None \<Rightarrow> child_runs_reason w cs
      | Some runId \<Rightarrow>
          (case open_state w runId of
             Inl _ \<Rightarrow> Some ''child_intent_child_untrusted''
           | Inr v \<Rightarrow> if st_lifecycle v \<notin> set TERMINAL_CHILD_LIFECYCLES then Some ''child_manages_live_intent''
                      else child_runs_reason w cs))"

fun managedChildrenReason :: "lane_world \<Rightarrow> launch_intent list \<Rightarrow> string option" where
  "managedChildrenReason w [] = None"
| "managedChildrenReason w (i # rest) =
     (if li_state i \<in> {Recorded, Unresolved, Effecting} then Some ''child_intent_open''
      else case child_runs_reason w (li_children i) of
        Some r \<Rightarrow> Some r
      | None \<Rightarrow> managedChildrenReason w rest)"

definition owner_caller :: "snapshot \<Rightarrow> jsval \<Rightarrow> provenance option \<Rightarrow> close_caller" where
  "owner_caller sn v p =
     (let owner = (case p of None \<Rightarrow> None | Some q \<Rightarrow> currentHandoffOwner q);
          resolved = (case owner of None \<Rightarrow> None | Some s \<Rightarrow> map_option (id_of ''pane_id'') (findSessionPane sn s));
          pane = (case resolved of Some x \<Rightarrow> Some x | None \<Rightarrow> opt_str (jget ''paneId'' (jget ''manager'' v)));
          entry = (case pane of None \<Rightarrow> None | Some x \<Rightarrow> find_field ''pane_id'' x (sn_panes sn))
      in \<lparr>ca_paneId = pane, ca_tabId = map_option (id_of ''tab_id'') entry, ca_workspaceId = map_option (id_of ''workspace_id'') entry\<rparr>)"

definition pane_target_node :: "string \<Rightarrow> string \<Rightarrow> close_node" where
  "pane_target_node pane tab = \<lparr>cn_kind = CkPane, cn_id = pane, cn_parentId = Some tab, cn_children = []\<rparr>"

definition vetoes ::
  "ambient \<Rightarrow> lane_world \<Rightarrow> snapshot \<Rightarrow> string \<Rightarrow> string \<Rightarrow> string \<Rightarrow> jsval \<Rightarrow> provenance option \<Rightarrow> veto" where
  "vetoes am w sn pane tab childKey v p =
     (case snd (list_intents am (wo_intentIo w) childKey (wo_intents w)) of
        Inl _ \<Rightarrow> Some (RvDeferred, ''intents_unavailable'')
      | Inr intents \<Rightarrow>
        (case managedChildrenReason w intents of
           Some r \<Rightarrow> Some (RvRefused, r)
         | None \<Rightarrow>
           (case list_unread (wo_mailIo w) childKey (wo_mail w) of
              Inl _ \<Rightarrow> Some (RvDeferred, ''mailbox_unavailable'')
            | Inr unread \<Rightarrow>
                if unread \<noteq> [] then Some (RvRefused, ''child_mailbox_unread'')
                else case validateClose (paneCloseTopology sn (owner_caller sn v p)) (pane_target_node pane tab) of
                  CloseAllowed _ \<Rightarrow> None
                | CloseRefused ProtectedResource _ \<Rightarrow> Some (RvRefused, ''owner_topology_protected'')
                | CloseRefused TopologyInvalid _ \<Rightarrow> Some (RvDeferred, ''topology_invalid''))))"

section \<open>The follow-up proof\<close>

text \<open>\<open>None\<close> is an error that is no handoff error, which is thrown on.\<close>

definition artifactCode :: "artifact_error \<Rightarrow> string option" where
  "artifactCode e = (case e of ArtifactMissing \<Rightarrow> Some ''missing'' | ArtifactInvalid _ \<Rightarrow> Some ''invalid''
     | ArtifactOversized \<Rightarrow> Some ''oversized'' | ArtifactUntrusted \<Rightarrow> Some ''untrusted'' | ArtifactReadFailed \<Rightarrow> None)"

definition scan_reason :: "tail_scan \<Rightarrow> string option" where
  "scan_reason s = (case s of TsNone \<Rightarrow> None | TsFailure f \<Rightarrow> Some (''trace_'' @ f) | TsPendingTail \<Rightarrow> Some ''trace_pending_tail''
     | TsUserTurn _ \<Rightarrow> Some ''trace_follow_up'' | TsAmbiguous r \<Rightarrow> Some (''trace_ambiguous:'' @ r))"

text \<open>
  The refusal, if any; the left side is the foreign error. A kind that names an inherited member is
  refused one check later than an unknown one.
\<close>

definition followUpVeto :: "ambient \<Rightarrow> lane_world \<Rightarrow> allocation \<Rightarrow> jsval \<Rightarrow> (string option, string option) result" where
  "followUpVeto am w run v =
     (let art = jget ''artifact'' v; history = jget ''traceHistory'' art in
      if map_of HANDOFF_TRACE_KINDS (str_of (st_child ''agentKind'' v)) = None then Inr (Some ''trace_unsupported_kind'')
      else case jget ''mtimeMs'' art of
        JNum anchor \<Rightarrow>
          if jget ''sha256'' art = JNull then Inr (Some ''trace_anchor_missing'')
          else if history = JUndef then Inr (Some ''trace_history_missing'')
          else if st_native v = None \<or> session_of (jget ''session'' history) \<noteq> the (st_native v)
          then Inr (Some ''trace_history_stale'')
          else (case readHandoffArtifact am run (wo_artifact w) of
                  Inl e \<Rightarrow> (case artifactCode e of Some c \<Rightarrow> Inr (Some (''trace_artifact_'' @ c)) | None \<Rightarrow> Inl (wo_readFault w))
                | Inr fresh \<Rightarrow>
                    if JStr (ha_sha256 fresh) \<noteq> jget ''sha256'' art then Inr (Some ''trace_artifact_changed'')
                    else Inr (scan_reason (wo_scan w (str_of (st_child ''agentKind'' v)) (the (st_native v)) (st_child ''workspace'' v)
                           anchor history)))
      | _ \<Rightarrow> Inr (Some ''trace_anchor_missing''))"

definition traceVeto :: "ambient \<Rightarrow> lane_world \<Rightarrow> allocation \<Rightarrow> jsval \<Rightarrow> string \<Rightarrow> (string option, veto) result" where
  "traceVeto am w run v pre =
     bind_result (followUpVeto am w run v) (\<lambda>reason.
       case reason of
         Some r \<Rightarrow> Inr (Some (RvRefused, pre @ r))
       | None \<Rightarrow>
           if st_child ''agentKind'' v \<noteq> JStr ''devin'' then Inr None
           else case wo_composer w of
             None \<Rightarrow> Inr (Some (RvDeferred, pre @ ''composer_unreadable''))
           | Some c \<Rightarrow>
               if dv_queued c then Inr (Some (RvRefused, pre @ ''composer_queued''))
               else if \<not> dv_inputEmpty c then Inr (Some (RvRefused, pre @ ''composer_draft''))
               else Inr None)"

section \<open>Evaluating a lane\<close>

text \<open>A stretch of the evaluation returns, throws, or goes on with what it read.\<close>

datatype 'a stage = Returned retirer | Thrown retirer "string option" | Continue retirer 'a

definition and_then :: "'a stage \<Rightarrow> (retirer \<Rightarrow> 'a \<Rightarrow> 'b stage) \<Rightarrow> 'b stage" where
  "and_then x f = (case x of Returned t \<Rightarrow> Returned t | Thrown t c \<Rightarrow> Thrown t c | Continue t a \<Rightarrow> f t a)"

definition answer_view :: "string \<Rightarrow> lane_world \<Rightarrow> retire_state \<Rightarrow> string \<Rightarrow> retirer \<Rightarrow> 'a stage" where
  "answer_view runId w st reason t = Returned (setView runId (wo_now w) st (Some reason) None None t)"

definition reset_view :: "string \<Rightarrow> lane_world \<Rightarrow> retire_state \<Rightarrow> string \<Rightarrow> retirer \<Rightarrow> 'a stage" where
  "reset_view runId w st reason t = answer_view runId w st reason (resetClock runId t)"

definition terminal_entry :: "lane_entry \<Rightarrow> bool" where
  "terminal_entry e \<longleftrightarrow> rv_state (le_view e) \<in> {RvRetired, RvFailed}
     \<or> (rv_state (le_view e) = RvKept \<and> rv_reason (le_view e) = Some TASK_KEEP_REASON)"

record lane_sidecar =
  ls_state :: jsval
  ls_provenance :: "provenance option"
  ls_childKey :: string

text \<open>The sidecars: the entry is tracked, and the run is finished, bound, unmarked and not kept.\<close>

definition lane_sidecars :: "ambient \<Rightarrow> string \<Rightarrow> lane_world \<Rightarrow> retirer \<Rightarrow> lane_sidecar stage" where
  "lane_sidecars am runId w t =
     (if (case map_of (rt_ledger t) runId of None \<Rightarrow> False | Some e \<Rightarrow> terminal_entry e) then Returned t
      else case open_state w runId of
        Inl e \<Rightarrow> answer_view runId w RvRefused (''sidecar_'' @ codeOf (Some (store_code e))) t
      | Inr v \<Rightarrow>
        if st_lifecycle v \<noteq> ''handed_off'' then Returned (drop_entry runId t)
        else let t1 = upd_entry runId (\<lambda>e. e) t in
          if st_child ''terminalId'' v = JNull \<or> st_native v = None then answer_view runId w RvRefused ''child_identity_unbound'' t1
          else case cycle_mark v of Some mark \<Rightarrow> answer_view runId w RvRefused mark t1 | None \<Rightarrow>
          case readProvenance w runId of
            Inl refusal \<Rightarrow> answer_view runId w RvRefused refusal t1
          | Inr p \<Rightarrow>
            if task_keep p then answer_view runId w RvKept TASK_KEEP_REASON t1
            else case managerSessionKey am (the (st_native v)) of
              Inl _ \<Rightarrow> answer_view runId w RvRefused ''child_session_invalid'' t1
            | Inr key \<Rightarrow> Continue t1 \<lparr>ls_state = v, ls_provenance = p, ls_childKey = key\<rparr>)"

text \<open>The child in the sweep's snapshot, the opt-out by token, and the follow-up proof.\<close>

definition lane_child ::
  "ambient \<Rightarrow> retire_options \<Rightarrow> string \<Rightarrow> lane_world \<Rightarrow> snapshot \<Rightarrow> jsval \<Rightarrow> retirer \<Rightarrow> (sup_identity \<times> jsval list) stage" where
  "lane_child am d runId w sn v t =
     (case classifyChild am sn v of
        ChildAbsent \<Rightarrow> Returned (journalKey runId ''skipped:child_absent'' (''skipped'', Some ''child_absent'') (drop_entry runId t))
      | ChildAmbiguous reason \<Rightarrow> reset_view runId w RvDeferred (bounded_fragment (''child_'' @ reason)) t
      | ChildMatched i \<Rightarrow>
        (case snapshotIdentityRecords sn (si_paneId i) of
           Inl _ \<Rightarrow> Thrown t None
         | Inr records \<Rightarrow>
             if mergedToken records ''retention'' = EvValue ''keep'' then reset_view runId w RvKept ''token_retention_keep'' t
             else case traceVeto am w (deriveRun (ro_dir d) (ro_endpoint d) runId) v [] of
               Inl c \<Rightarrow> Thrown t c
             | Inr (Some (st, reason)) \<Rightarrow> reset_view runId w st reason t
             | Inr None \<Rightarrow> Continue t (i, records)))"

text \<open>The stability clock: it restarts when the counter or the screen changed or it was not running.\<close>

definition observe_clock :: "rat \<Rightarrow> string \<Rightarrow> int \<Rightarrow> lane_entry \<Rightarrow> lane_entry" where
  "observe_clock seq screen now e =
     (if le_seq e \<noteq> Some seq \<or> le_screen e \<noteq> Some screen \<or> le_sinceMs e = None
      then e\<lparr>le_seq := Some seq, le_screen := Some screen, le_sinceMs := Some now\<rparr> else e)"

definition idle_status :: "string \<Rightarrow> bool" where
  "idle_status s \<longleftrightarrow> s = ''idle'' \<or> s = ''done''"

definition lane_clock :: "ambient \<Rightarrow> retire_options \<Rightarrow> string \<Rightarrow> lane_world \<Rightarrow> jsval list \<Rightarrow> retirer \<Rightarrow> int stage" where
  "lane_clock am d runId w records t =
     (case lifecycleOf (records ! 0) (records ! 1) of
        Inl refusal \<Rightarrow> reset_view runId w RvDeferred refusal t
      | Inr (status, seq) \<Rightarrow>
          if \<not> idle_status status then reset_view runId w RvDeferred (''child_active:'' @ bounded_fragment status) t
          else case screenDigest am w of
            Inl refusal \<Rightarrow> reset_view runId w RvDeferred refusal t
          | Inr screen \<Rightarrow>
              (let t1 = upd_entry runId (observe_clock seq screen (wo_now w)) t;
                   stableMs = wo_now w - the (le_sinceMs (entry_of runId t1))
               in if stableMs < ro_graceMs d then Returned (setView runId (wo_now w) RvWatching None (Some stableMs) None t1)
                  else Continue t1 stableMs))"

definition evidence_name :: "evidence \<Rightarrow> string" where
  "evidence_name e = (case e of EvAbsent \<Rightarrow> ''absent'' | EvValue _ \<Rightarrow> ''value'' | EvMalformed \<Rightarrow> ''malformed'' | EvContradictory \<Rightarrow> ''contradictory'')"

text \<open>The launch tokens, the child as no manager, and the owner's side.\<close>

definition lane_guards ::
  "ambient \<Rightarrow> string \<Rightarrow> lane_world \<Rightarrow> snapshot \<Rightarrow> lane_sidecar \<Rightarrow> sup_identity \<Rightarrow> jsval list \<Rightarrow> retirer \<Rightarrow> unit stage" where
  "lane_guards am runId w sn x i records t =
     (let provenance = mergedToken records ''identity_provenance''; session = mergedToken records ''identity_session'' in
      if provenance \<noteq> EvValue ''launched''
      then answer_view runId w RvRefused (''token_provenance_'' @ (case provenance of EvValue _ \<Rightarrow> ''not_launched'' | e \<Rightarrow> evidence_name e)) t
      else case session of
        EvValue token \<Rightarrow>
          if Some token \<noteq> tokenValue (as_value (the (st_native (ls_state x)))) then answer_view runId w RvRefused ''token_session_mismatch'' t
          else (case classifyCaller sn (si_paneId i) of
                  Inl _ \<Rightarrow> answer_view runId w RvRefused ''caller_policy_unavailable'' t
                | Inr policy \<Rightarrow>
                    if cp_scope policy \<noteq> ScopeWorker
                    then answer_view runId w RvRefused (''child_is_manager:'' @ basis_name (cp_basis policy)) t
                    else case vetoes am w sn (si_paneId i) (id_of ''tab_id'' (records ! 0)) (ls_childKey x) (ls_state x) (ls_provenance x) of
                      Some (st, reason) \<Rightarrow> answer_view runId w st reason t
                    | None \<Rightarrow> Continue t ())
      | e \<Rightarrow> answer_view runId w RvRefused (''token_session_'' @ evidence_name e) t)"

definition lane_focus :: "retire_options \<Rightarrow> string \<Rightarrow> lane_world \<Rightarrow> jsval \<Rightarrow> int \<Rightarrow> retirer \<Rightarrow> unit stage" where
  "lane_focus d runId w pane stableMs t =
     (if jget ''focused'' pane = JBool True \<and> le_focusDefers (entry_of runId t) < ro_maxFocusDefers d
      then Returned (setView runId (wo_now w) RvDeferred (Some ''focused'') (Some stableMs) None
             (upd_entry runId (\<lambda>e. e\<lparr>le_focusDefers := Suc (le_focusDefers e)\<rparr>) t))
      else let t1 = (if jget ''focused'' pane \<noteq> JBool True then upd_entry runId (\<lambda>e. e\<lparr>le_focusDefers := 0\<rparr>) t else t) in
        if \<not> ro_enabled d then Returned (setView runId (wo_now w) RvDisabled None (Some stableMs) (Some ''would_retire'') t1)
        else Continue (setView runId (wo_now w) RvEligible None (Some stableMs) None t1) ())"

section \<open>The proof under the locks\<close>

text \<open>
  What the close path meets: the two locks, the world observed again under them, the reply of the close with
  the snapshot read back after it, the supervisor then covering the child, and the answer to the event.
\<close>

record lane_locks =
  lk_pane :: bool
  lk_run :: bool
  lk_world :: lane_world
  lk_mutation :: close_mutation
  lk_readback :: "snapshot option"
  lk_jobId :: "string option"
  lk_event :: "(mail_error, write_result) result"

definition prompt_code :: "prompt_error \<Rightarrow> string" where
  "prompt_code e = (case e of IdentityUnavailable _ \<Rightarrow> ''TARGET_IDENTITY_UNAVAILABLE'' | IdentityChanged _ \<Rightarrow> ''TARGET_IDENTITY_CHANGED'')"

definition or_throw :: "retirer \<Rightarrow> ('e \<Rightarrow> string option) \<Rightarrow> ('e, 'a) result \<Rightarrow> (retirer \<Rightarrow> 'a \<Rightarrow> 'b stage) \<Rightarrow> 'b stage" where
  "or_throw t code r f = (case r of Inl e \<Rightarrow> Thrown t (code e) | Inr a \<Rightarrow> f t a)"

text \<open>The sidecar still records the matched child of a finished run.\<close>

definition still_recorded :: "sup_identity \<Rightarrow> jsval \<Rightarrow> bool" where
  "still_recorded i v \<longleftrightarrow> st_lifecycle v = ''handed_off'' \<and> st_child ''terminalId'' v = JStr (si_terminalId i)
     \<and> st_child ''agentName'' v = JStr (si_agentName i) \<and> st_child ''agentKind'' v = JStr (si_agentKind i)
     \<and> st_native v = Some (si_session i)"

definition relock_sidecar :: "string \<Rightarrow> lane_world \<Rightarrow> sup_identity \<Rightarrow> retirer \<Rightarrow> jsval stage" where
  "relock_sidecar runId w i t =
     (case readHandoffState (wo_io w) runId (wo_store w) of
        Inl _ \<Rightarrow> answer_view runId w RvDeferred ''recheck_sidecar'' t
      | Inr v \<Rightarrow>
          if \<not> still_recorded i v then answer_view runId w RvDeferred ''recheck_lifecycle'' t
          else case cycle_mark v of Some mark \<Rightarrow> answer_view runId w RvRefused (''recheck_'' @ mark) t | None \<Rightarrow> Continue t v)"

definition still_live :: "sup_identity \<Rightarrow> prompt_identity \<Rightarrow> bool" where
  "still_live i live \<longleftrightarrow> pi_terminalId live = si_terminalId i \<and> pi_agentName live = si_agentName i
     \<and> pi_agentKind live = si_agentKind i \<and> pi_agentSession live = si_session i"

definition launch_tokens :: "sup_identity \<Rightarrow> jsval list \<Rightarrow> bool" where
  "launch_tokens i records \<longleftrightarrow> mergedToken records ''identity_provenance'' = EvValue ''launched''
     \<and> (case mergedToken records ''identity_session'' of EvValue s \<Rightarrow> Some s = tokenValue (as_value (si_session i)) | _ \<Rightarrow> False)"

text \<open>The pane and the agent, read again by the command line tool.\<close>

definition relock_live :: "string \<Rightarrow> lane_world \<Rightarrow> sup_identity \<Rightarrow> retirer \<Rightarrow> (jsval \<times> jsval) stage" where
  "relock_live runId w i t =
     or_throw t id (wo_paneGet w) (\<lambda>t paneReply. or_throw t id (wo_agentGet w) (\<lambda>t agentReply.
     or_throw t (\<lambda>_. Some ''CLI_PROTOCOL_ERROR'') (paneFrom paneReply (si_paneId i)) (\<lambda>t pane.
     or_throw t (\<lambda>e. Some (prompt_code e)) (agentFrom agentReply) (\<lambda>t agent.
       case requirePromptTargetIdentity [pane, agent] (si_paneId i) of
         Inl _ \<Rightarrow> answer_view runId w RvDeferred ''recheck_identity'' t
       | Inr live \<Rightarrow>
           if \<not> still_live i live then answer_view runId w RvDeferred ''recheck_identity'' t
           else if \<not> launch_tokens i [pane, agent] then answer_view runId w RvDeferred ''recheck_tokens'' t
           else Continue t (pane, agent)))))"

definition relock_clock :: "string \<Rightarrow> lane_world \<Rightarrow> jsval \<times> jsval \<Rightarrow> retirer \<Rightarrow> unit stage" where
  "relock_clock runId w pa t =
     (case lifecycleOf (fst pa) (snd pa) of
        Inl refusal \<Rightarrow> reset_view runId w RvDeferred (''recheck_'' @ refusal) t
      | Inr (status, seq) \<Rightarrow>
          if \<not> idle_status status then reset_view runId w RvDeferred ''recheck_status'' t
          else if le_seq (entry_of runId t) \<noteq> Some seq then reset_view runId w RvDeferred ''recheck_seq'' t
          else Continue t ())"

text \<open>The opt-outs, then the owner's side against a fresh snapshot, then the focus.\<close>

definition relock_owner ::
  "ambient \<Rightarrow> retire_options \<Rightarrow> string \<Rightarrow> lane_world \<Rightarrow> sup_identity \<Rightarrow> string \<Rightarrow> jsval \<Rightarrow> jsval \<times> jsval \<Rightarrow> retirer \<Rightarrow> unit stage" where
  "relock_owner am d runId w i childKey v pa t =
     (case readProvenance w runId of
        Inl refusal \<Rightarrow> answer_view runId w RvDeferred (''recheck_'' @ refusal) t
      | Inr p \<Rightarrow>
          if task_keep p then answer_view runId w RvKept TASK_KEEP_REASON t
          else if mergedToken [fst pa, snd pa] ''retention'' = EvValue ''keep'' then reset_view runId w RvKept ''token_retention_keep'' t
          else or_throw t id (wo_snapshot w) (\<lambda>t sn.
            case vetoes am w sn (si_paneId i) (id_of ''tab_id'' (fst pa)) childKey v p of
              Some (st, reason) \<Rightarrow> answer_view runId w st (''recheck_'' @ reason) t
            | None \<Rightarrow>
                if jget ''focused'' (fst pa) = JBool True \<and> le_focusDefers (entry_of runId t) < ro_maxFocusDefers d
                then answer_view runId w RvDeferred ''recheck_focused'' t
                else Continue t ()))"

text \<open>The screen, the lease, and last of all the follow-up proof.\<close>

definition relock_last :: "ambient \<Rightarrow> retire_options \<Rightarrow> string \<Rightarrow> lane_world \<Rightarrow> jsval \<Rightarrow> retirer \<Rightarrow> unit stage" where
  "relock_last am d runId w v t =
     (case screenDigest am w of
        Inl refusal \<Rightarrow> reset_view runId w RvDeferred (''recheck_'' @ refusal) t
      | Inr screen \<Rightarrow>
          if Some screen \<noteq> le_screen (entry_of runId t) then reset_view runId w RvDeferred ''recheck_screen'' t
          else if \<not> wo_lease w then answer_view runId w RvDeferred ''pane_lock_lost'' t
          else case traceVeto am w (deriveRun (ro_dir d) (ro_endpoint d) runId) v ''recheck_'' of
            Inl c \<Rightarrow> Thrown t c
          | Inr (Some (st, reason)) \<Rightarrow> reset_view runId w st reason t
          | Inr None \<Rightarrow> Continue t ())"

definition relock ::
  "ambient \<Rightarrow> retire_options \<Rightarrow> string \<Rightarrow> lane_world \<Rightarrow> sup_identity \<Rightarrow> string \<Rightarrow> retirer \<Rightarrow> jsval stage" where
  "relock am d runId w i childKey t =
     and_then (relock_sidecar runId w i t) (\<lambda>t v.
     and_then (relock_live runId w i t) (\<lambda>t pa.
     and_then (relock_clock runId w pa t) (\<lambda>t _.
     and_then (relock_owner am d runId w i childKey v pa t) (\<lambda>t _.
     and_then (relock_last am d runId w v t) (\<lambda>t _. Continue t v)))))"

text \<open>What was decided: \<open>Continue\<close> carries the job of a proven close, or that another actor closed the pane.\<close>

definition dispatchClose ::
  "retire_options \<Rightarrow> string \<Rightarrow> lane_locks \<Rightarrow> sup_identity \<Rightarrow> retirer \<Rightarrow> string option stage" where
  "dispatchClose d runId lk i t =
     (let pane = si_paneId i; w = lk_world lk;
          t1 = upd_entry runId (\<lambda>e. e\<lparr>le_attempts := Suc (le_attempts e)\<rparr>) (emit_fx (FxBeginClose runId pane) t)
      in case closeWithReadback (lk_mutation lk) (lk_readback lk) pane of
           CloseReconciled \<Rightarrow> Continue (emit_fx (FxFinishClose pane False) t1) None
         | CloseConfirmed \<Rightarrow>
             (let t2 = (emit_fx (FxMarked runId) t1)\<lparr>rt_retired := List.insert runId (rt_retired t1)\<rparr>;
                  t3 = setView runId (wo_now w) RvRetired None None (Some (''retired pane='' @ pane)) t2
              in Continue (emit_fx (FxFinishClose pane True) t3)
                   (Some (case lk_jobId lk of Some j \<Rightarrow> j | None \<Rightarrow> ''daemon-retire'')))
         | CloseThrew code \<Rightarrow>
             answer_view runId w
               (if ro_maxAttempts d \<le> le_attempts (entry_of runId t1) then RvFailed else RvDeferred)
               (''close_'' @ codeOf (Some code)) (emit_fx (FxFinishClose pane False) t1))"

definition lockedClose ::
  "ambient \<Rightarrow> retire_options \<Rightarrow> string \<Rightarrow> lane_locks \<Rightarrow> sup_identity \<Rightarrow> string \<Rightarrow> retirer \<Rightarrow> string option stage" where
  "lockedClose am d runId lk i childKey t =
     and_then (relock am d runId (lk_world lk) i childKey t) (\<lambda>t _. dispatchClose d runId lk i t)"

section \<open>The close path\<close>

definition lane_retired_event :: "retire_options \<Rightarrow> string \<Rightarrow> sup_identity \<Rightarrow> jsval \<Rightarrow> string \<Rightarrow> run_input" where
  "lane_retired_event d runId i v jobId =
     \<lparr>ri_kind = ''lane_retired'', ri_runId = runId, ri_jobId = jobId,
      ri_child = Some \<lparr>mc_agentName = si_agentName i, mc_agentKind = si_agentKind i, mc_paneId = si_paneId i,
        mc_terminalId = Some (si_terminalId i)\<rparr>,
      ri_decision = None,
      ri_handoff = Some \<lparr>mh_state = ''handed_off'', mh_artifactSha256 = opt_str (jget ''sha256'' (jget ''artifact'' v))\<rparr>,
      ri_limit = None,
      ri_actions = Some [''pane_closed:'' @ si_paneId i, ''artifact:'' @ al_artifactPath (deriveRun (ro_dir d) (ro_endpoint d) runId)],
      ri_id = None\<rparr>"

definition retire_log :: "string \<Rightarrow> string \<Rightarrow> string option \<Rightarrow> retirer \<Rightarrow> retirer" where
  "retire_log runId decision reason t = t\<lparr>rt_log := rt_log t @ [(runId, decision, reason)]\<rparr>"

definition report_event :: "string \<Rightarrow> (mail_error, write_result) result \<Rightarrow> retirer \<Rightarrow> retirer" where
  "report_event runId answer t =
     (case answer of
        Inr (Persisted _) \<Rightarrow> t
      | Inr (NotPersisted _ why _ _) \<Rightarrow> retire_log runId ''retired_event_unpersisted'' (Some (refusal_name why)) t
      | Inl _ \<Rightarrow> retire_log runId ''retired_event_unpersisted'' (Some ''unavailable'') t)"

text \<open>\<open>v\<close> is the state the sweep read, which the event reports.\<close>

definition closeLane ::
  "ambient \<Rightarrow> retire_options \<Rightarrow> string \<Rightarrow> jsval \<Rightarrow> int \<Rightarrow> lane_locks \<Rightarrow> sup_identity \<Rightarrow> string \<Rightarrow> retirer \<Rightarrow> unit stage" where
  "closeLane am d runId v now lk i childKey t =
     (if \<not> lk_pane lk then Returned (setView runId now RvDeferred (Some ''pane_lock_unavailable'') None None t)
      else if \<not> lk_run lk then Returned (setView runId now RvDeferred (Some ''run_lock_unavailable'') None None t)
      else and_then (lockedClose am d runId lk i childKey t) (\<lambda>t outcome.
        case outcome of
          None \<Rightarrow> reset_view runId (lk_world lk) RvDeferred ''close_reconciled_absent'' t
        | Some jobId \<Rightarrow>
            Returned (report_event runId (lk_event lk) (emit_fx (FxLaneRetired (lane_retired_event d runId i v jobId)) t))))"

section \<open>The sweep\<close>

text \<open>Everything a lane is shown to be before its close is tried.\<close>

definition lane_proof ::
  "ambient \<Rightarrow> retire_options \<Rightarrow> string \<Rightarrow> lane_world \<Rightarrow> snapshot \<Rightarrow> retirer \<Rightarrow> (lane_sidecar \<times> sup_identity) stage" where
  "lane_proof am d runId w sn t =
     and_then (lane_sidecars am runId w t) (\<lambda>t x.
     and_then (lane_child am d runId w sn (ls_state x) t) (\<lambda>t (i, records).
     and_then (lane_clock am d runId w records t) (\<lambda>t stableMs.
     and_then (lane_guards am runId w sn x i records t) (\<lambda>t _.
     and_then (lane_focus d runId w (records ! 0) stableMs t) (\<lambda>t _. Continue t (x, i))))))"

definition evaluate ::
  "ambient \<Rightarrow> retire_options \<Rightarrow> string \<Rightarrow> lane_world \<Rightarrow> snapshot \<Rightarrow> lane_locks \<Rightarrow> retirer \<Rightarrow> unit stage" where
  "evaluate am d runId w sn lk t =
     and_then (lane_proof am d runId w sn t) (\<lambda>t (x, i).
       case closeLane am d runId (ls_state x) (wo_now w) lk i (ls_childKey x) t of
         Thrown t c \<Rightarrow> answer_view runId w RvDeferred (''sweep_error:'' @ codeOf c) t
       | r \<Rightarrow> r)"

text \<open>The entry of the runs directory: its name, and whether it is a directory.\<close>

record sweep_input =
  sw_snapshot :: "string option + snapshot"
  sw_entries :: "string option + (string \<times> bool) list"
  sw_world :: "string \<Rightarrow> lane_world"
  sw_locks :: "string \<Rightarrow> lane_locks"

definition run_dirs :: "(string \<times> bool) list \<Rightarrow> string list" where
  "run_dirs entries = map fst (filter (\<lambda>(name, dir). dir \<and> run_id_shape name) entries)"

definition visit :: "ambient \<Rightarrow> retire_options \<Rightarrow> sweep_input \<Rightarrow> snapshot \<Rightarrow> string \<Rightarrow> retirer \<Rightarrow> retirer" where
  "visit am d inp sn runId t =
     (case evaluate am d runId (sw_world inp runId) sn (sw_locks inp runId) t of
        Returned t \<Rightarrow> t
      | Continue t _ \<Rightarrow> t
      | Thrown t c \<Rightarrow> retire_log runId ''sweep_error'' (Some (bounded_fragment (codeOf c))) t)"

definition prune :: "string list \<Rightarrow> retirer \<Rightarrow> retirer" where
  "prune dirs t = t\<lparr>rt_ledger := filter (\<lambda>(k, _). k \<in> set dirs) (rt_ledger t),
     rt_journaled := filter (\<lambda>(k, _). k \<in> set dirs) (rt_journaled t)\<rparr>"

text \<open>A runs directory that does not exist is an empty one.\<close>

definition sweep :: "ambient \<Rightarrow> retire_options \<Rightarrow> sweep_input \<Rightarrow> retirer \<Rightarrow> retirer" where
  "sweep am d inp t =
     (case sw_snapshot inp of
        Inl c \<Rightarrow> retire_log [] ''sweep_unavailable'' (Some (bounded_fragment (codeOf c))) t
      | Inr sn \<Rightarrow>
        (case sw_entries inp of
           Inl c \<Rightarrow>
             if c = Some ''ENOENT'' then prune [] t
             else retire_log [] ''sweep_unavailable'' (Some (bounded_fragment (codeOf c))) t
         | Inr entries \<Rightarrow> prune (run_dirs entries) (fold (visit am d inp sn) (run_dirs entries) t)))"

definition retire_view_of :: "string \<Rightarrow> retirer \<Rightarrow> retire_view option" where
  "retire_view_of runId t = map_option le_view (map_of (rt_ledger t) runId)"

definition retiredByDaemon :: "string \<Rightarrow> retirer \<Rightarrow> bool" where
  "retiredByDaemon runId t \<longleftrightarrow> runId \<in> set (rt_retired t)"

end
