(* ===== verification/Retirement_Properties.thy ===== *)
theory Retirement_Properties
  imports Retirement Handoff_Gate_Properties Mailbox_Properties Intent_Lifecycle
begin

text \<open>
  What the retirement sweep promises over any sequence of sweeps: a close is tried only for a lane that was
  read idle and unchanged for the whole grace period, only on a proof made again under both locks, and the
  marker that silences the end of the job is published for proven closes alone, before the close is
  reported to the tracker.
\<close>

section \<open>What a stretch of the evaluation leaves alone\<close>

fun stage_of :: "'a stage \<Rightarrow> retirer" where
  "stage_of (Returned t) = t"
| "stage_of (Thrown t c) = t"
| "stage_of (Continue t a) = t"

definition lane_clock_of :: "lane_entry \<Rightarrow> rat option \<times> string option \<times> int option" where
  "lane_clock_of e = (le_seq e, le_screen e, le_sinceMs e)"

definition framed :: "string \<Rightarrow> retirer \<Rightarrow> retirer \<Rightarrow> bool" where
  "framed r t u \<longleftrightarrow> (\<forall>q. q \<noteq> r \<longrightarrow> entry_of q u = entry_of q t) \<and> rt_out u = rt_out t \<and> rt_retired u = rt_retired t"

definition stopped :: "string \<Rightarrow> retirer \<Rightarrow> bool" where
  "stopped r u \<longleftrightarrow> lane_clock_of (entry_of r u) = (None, None, None)"

definition placid :: "string \<Rightarrow> retirer \<Rightarrow> retirer \<Rightarrow> bool" where
  "placid r t u \<longleftrightarrow> framed r t u \<and> (lane_clock_of (entry_of r u) = lane_clock_of (entry_of r t) \<or> stopped r u)"

lemma framed_refl [simp]: "framed r t t"
  by (simp add: framed_def)

lemma framed_trans: "framed r t u \<Longrightarrow> framed r u v \<Longrightarrow> framed r t v"
  by (simp add: framed_def)

lemma placid_refl [simp]: "placid r t t"
  by (simp add: placid_def)

lemma placid_trans: "placid r t u \<Longrightarrow> placid r u v \<Longrightarrow> placid r t v"
  by (auto simp: placid_def stopped_def intro: framed_trans)

lemma placid_framed: "placid r t u \<Longrightarrow> framed r t u"
  by (simp add: placid_def)

lemma entry_upd [simp]: "entry_of q (upd_entry r f t) = (if q = r then f (entry_of r t) else entry_of q t)"
  by (simp add: entry_of_def upd_entry_def)

lemma entry_drop [simp]: "entry_of q (drop_entry r t) = (if q = r then new_entry else entry_of q t)"
  by (simp add: entry_of_def drop_entry_def)

lemma new_entry_clock [simp]: "lane_clock_of new_entry = (None, None, None)"
  by (simp add: lane_clock_of_def new_entry_def)

lemma entry_congs [simp]:
  "entry_of q (journalKey r k l t) = entry_of q t" "entry_of q (journal r dec t) = entry_of q t"
  "entry_of q (emit_fx x t) = entry_of q t" "entry_of q (retire_log r d why t) = entry_of q t"
  "entry_of q (report_event r ans t) = entry_of q t"
  by (auto simp: entry_of_def journalKey_def journal_def emit_fx_def retire_log_def report_event_def Let_def
      split: sum.splits write_result.splits)

lemma entry_retired [simp]: "entry_of q (t\<lparr>rt_retired := x\<rparr>) = entry_of q t"
  by (simp add: entry_of_def)

lemma entry_setView [simp]:
  "entry_of q (setView r now st why ms dec t) = (if q = r then (entry_of r t)\<lparr>le_view :=
     \<lparr>rv_state = st, rv_reason = why, rv_stableForMs = ms, rv_at = Some now\<rparr>\<rparr> else entry_of q t)"
  by (simp add: setView_def)

lemma retirer_outs [simp]:
  "rt_out (upd_entry r f t) = rt_out t" "rt_out (drop_entry r t) = rt_out t" "rt_out (journalKey r k l t) = rt_out t"
  "rt_out (setView r now st why ms dec t) = rt_out t" "rt_out (emit_fx x t) = rt_out t @ [x]"
  "rt_out (retire_log r d why t) = rt_out t" "rt_out (report_event r ans t) = rt_out t" "rt_out (resetClock r t) = rt_out t"
  "rt_retired (upd_entry r f t) = rt_retired t" "rt_retired (drop_entry r t) = rt_retired t"
  "rt_retired (journalKey r k l t) = rt_retired t" "rt_retired (setView r now st why ms dec t) = rt_retired t"
  "rt_retired (emit_fx x t) = rt_retired t" "rt_retired (retire_log r d why t) = rt_retired t"
  "rt_retired (report_event r ans t) = rt_retired t" "rt_retired (resetClock r t) = rt_retired t"
  by (auto simp: upd_entry_def drop_entry_def journalKey_def setView_def journal_def emit_fx_def retire_log_def
      report_event_def resetClock_def Let_def split: sum.splits write_result.splits)

lemma placid_setView [simp]: "placid r t (setView r now st why ms dec t)"
  by (simp add: placid_def framed_def lane_clock_of_def)

lemma placid_upd: "(\<And>e. lane_clock_of (f e) = lane_clock_of e) \<Longrightarrow> placid r t (upd_entry r f t)"
  by (simp add: placid_def framed_def)

lemma placid_drop [simp]: "placid r t (drop_entry r t)" "stopped r (drop_entry r t)"
  by (simp_all add: placid_def framed_def stopped_def)

lemma placid_journal [simp]: "placid r t (journalKey q k l u) \<longleftrightarrow> placid r t u" "stopped r (journalKey q k l u) \<longleftrightarrow> stopped r u"
  by (simp_all add: placid_def framed_def stopped_def)

lemma placid_reset: "placid r t (resetClock r t)" "stopped r (resetClock r t)"
  by (simp_all add: resetClock_def placid_def framed_def stopped_def lane_clock_of_def)

lemma placid_answer [simp]: "placid r t (stage_of (answer_view r w st why t))"
  by (simp add: answer_view_def)

lemma placid_reset_view [simp]: "placid r t (stage_of (reset_view r w st why t))"
  by (simp add: reset_view_def answer_view_def placid_trans [OF placid_reset(1) placid_setView])

lemma stopped_setView [simp]: "stopped r (setView r now st why ms dec t) \<longleftrightarrow> stopped r t"
  by (simp add: stopped_def lane_clock_of_def)

lemma stopped_reset_view [simp]: "stopped r (stage_of (reset_view r w st why t))"
  by (simp add: reset_view_def answer_view_def placid_reset)

lemma reset_view_returns: "\<exists>u. reset_view r w st why t = Returned u \<and> placid r t u \<and> stopped r u"
  by (simp add: reset_view_def answer_view_def placid_reset placid_trans [OF placid_reset(1) placid_setView])

lemma views_return [simp]:
  "answer_view r w st why t \<noteq> Continue u a" "reset_view r w st why t \<noteq> Continue u a"
  "answer_view r w st why t \<noteq> Thrown u c" "reset_view r w st why t \<noteq> Thrown u c"
  by (simp_all add: reset_view_def answer_view_def)

lemma and_then_Continue: "and_then x f = Continue u b \<longleftrightarrow> (\<exists>t a. x = Continue t a \<and> f t a = Continue u b)"
  by (cases x) (auto simp: and_then_def)

lemma stage_and_then:
  assumes "P (stage_of x)" and "\<And>t a. x = Continue t a \<Longrightarrow> P t \<Longrightarrow> P (stage_of (f t a))"
  shows "P (stage_of (and_then x f))"
  using assms by (cases x) (auto simp: and_then_def)

lemma placid_and_then:
  assumes "placid r t (stage_of x)" and "\<And>u a. x = Continue u a \<Longrightarrow> placid r u (stage_of (f u a))"
  shows "placid r t (stage_of (and_then x f))"
  using assms by (cases x) (auto simp: and_then_def intro: placid_trans)

lemma placid_or_throw: "(\<And>a. placid r t (stage_of (f t a))) \<Longrightarrow> placid r t (stage_of (or_throw t code x f))"
  by (simp add: or_throw_def split: sum.splits)

section \<open>The stages before the clock\<close>

lemma placid_sidecars: "placid r t (stage_of (lane_sidecars am r w t))"
proof -
  have "placid r t (upd_entry r (\<lambda>e. e) t)"
    by (rule placid_upd) simp
  then show ?thesis
    by (auto simp: lane_sidecars_def Let_def intro: placid_trans split: sum.splits option.splits)
qed

lemma placid_child: "placid r t (stage_of (lane_child am d r w sn v t))"
  by (auto simp: lane_child_def split: child_verdict.splits sum.splits option.splits)

lemma placid_guards: "placid r t (stage_of (lane_guards am r w sn x i recs t))"
  by (auto simp: lane_guards_def Let_def split: evidence.splits sum.splits option.splits)

lemma placid_focus: "placid r t (stage_of (lane_focus d r w pane ms t))"
proof -
  have "placid r t (setView r now st why sm dec (upd_entry r (\<lambda>e. e\<lparr>le_focusDefers := f e\<rparr>) t))" for f now st why sm dec
    by (rule placid_trans [OF placid_upd placid_setView]) (simp add: lane_clock_of_def)
  then show ?thesis
    by (auto simp: lane_focus_def Let_def)
qed

section \<open>The stages under the locks\<close>

lemma placid_relock: "placid r t (stage_of (relock am d r w i key t))"
  unfolding relock_def
proof (intro placid_and_then)
  show "placid r t (stage_of (relock_sidecar r w i t))"
    by (simp add: relock_sidecar_def split: sum.splits option.splits)
  show "placid r u (stage_of (relock_live r w i u))" for u
    unfolding relock_live_def by (intro placid_or_throw) (simp split: sum.splits)
  show "placid r u (stage_of (relock_clock r w pa u))" for u pa
    by (simp add: relock_clock_def split: sum.splits)
  show "placid r u (stage_of (relock_owner am d r w i key v pa u))" for u v pa
    by (auto simp: relock_owner_def intro!: placid_or_throw split: sum.splits option.splits)
  show "placid r u (stage_of (relock_last am d r w v u))" for u v
    by (simp add: relock_last_def split: sum.splits option.splits)
qed simp_all

section \<open>What one sweep reads of a lane\<close>

definition child_stage :: "ambient \<Rightarrow> retire_options \<Rightarrow> sweep_input \<Rightarrow> string \<Rightarrow> (sup_identity \<times> jsval list) stage option" where
  "child_stage am d inp r =
     (case (sw_snapshot inp, sw_entries inp) of
        (Inr sn, Inr entries) \<Rightarrow>
          if r \<notin> set (run_dirs entries) then None
          else (case lane_sidecars am r (sw_world inp r) createLaneRetirer of
                  Continue t x \<Rightarrow> Some (lane_child am d r (sw_world inp r) sn (ls_state x) t)
                | _ \<Rightarrow> None)
      | _ \<Rightarrow> None)"

text \<open>
  The sweep looked at the lane: its sidecars let it come to the child, and the follow-up proof did not fail
  with a foreign error. What it read is the counter and the screen of an idle child, or nothing.
\<close>

definition looked :: "ambient \<Rightarrow> retire_options \<Rightarrow> sweep_input \<Rightarrow> string \<Rightarrow> bool" where
  "looked am d inp r \<longleftrightarrow> (case child_stage am d inp r of None \<Rightarrow> False | Some (Thrown _ _) \<Rightarrow> False | Some _ \<Rightarrow> True)"

definition records_reading :: "ambient \<Rightarrow> lane_world \<Rightarrow> jsval list \<Rightarrow> (rat \<times> string) option" where
  "records_reading am w records =
     (case lifecycleOf (records ! 0) (records ! 1) of
        Inr (status, seq) \<Rightarrow>
          if idle_status status then (case screenDigest am w of Inr screen \<Rightarrow> Some (seq, screen) | Inl _ \<Rightarrow> None) else None
      | Inl _ \<Rightarrow> None)"

definition idle_reading :: "ambient \<Rightarrow> retire_options \<Rightarrow> sweep_input \<Rightarrow> string \<Rightarrow> (rat \<times> string) option" where
  "idle_reading am d inp r =
     (case child_stage am d inp r of
        Some (Continue t (i, records)) \<Rightarrow> records_reading am (sw_world inp r) records
      | _ \<Rightarrow> None)"

definition steady :: "ambient \<Rightarrow> retire_options \<Rightarrow> string \<Rightarrow> rat \<times> string \<Rightarrow> sweep_input list \<Rightarrow> bool" where
  "steady am d r reading ys \<longleftrightarrow> ys \<noteq> [] \<and> looked am d (hd ys) r
     \<and> (\<forall>y \<in> set ys. looked am d y r \<longrightarrow> idle_reading am d y r = Some reading)"

definition sweep_time :: "string \<Rightarrow> sweep_input \<Rightarrow> int" where
  "sweep_time r y = wo_now (sw_world y r)"

text \<open>The running clock of an entry stands for the stretch of sweeps since it was started.\<close>

definition clock_backed :: "ambient \<Rightarrow> retire_options \<Rightarrow> string \<Rightarrow> sweep_input list \<Rightarrow> lane_entry \<Rightarrow> bool" where
  "clock_backed am d r xs e \<longleftrightarrow>
     lane_clock_of e = (None, None, None)
     \<or> (\<exists>pre ys q c. xs = pre @ ys \<and> steady am d r (q, c) ys \<and> lane_clock_of e = (Some q, Some c, Some (sweep_time r (hd ys))))"

definition grace_shown :: "ambient \<Rightarrow> retire_options \<Rightarrow> string \<Rightarrow> sweep_input list \<Rightarrow> bool" where
  "grace_shown am d r xs \<longleftrightarrow> (\<exists>pre ys q c. xs = pre @ ys \<and> steady am d r (q, c) ys \<and> looked am d (last ys) r
     \<and> ro_graceMs d \<le> sweep_time r (last ys) - sweep_time r (hd ys))"

lemma stopped_backed: "stopped r u \<Longrightarrow> clock_backed am d r xs (entry_of r u)"
  by (simp add: stopped_def clock_backed_def)

lemma backed_cong: "lane_clock_of e = lane_clock_of e' \<Longrightarrow> clock_backed am d r xs e \<longleftrightarrow> clock_backed am d r xs e'"
  by (simp add: clock_backed_def)

lemma placid_backed: "placid r t u \<Longrightarrow> clock_backed am d r xs (entry_of r t) \<Longrightarrow> clock_backed am d r xs (entry_of r u)"
  using backed_cong stopped_backed by (metis placid_def)

lemma steady_extend:
  assumes "steady am d r g ys" and "looked am d x r \<Longrightarrow> idle_reading am d x r = Some g"
  shows "steady am d r g (ys @ [x])"
  using assms by (auto simp: steady_def)

lemma backed_extend:
  assumes "clock_backed am d r xs e"
    and "looked am d x r \<Longrightarrow> (case lane_clock_of e of (Some q, Some c, Some s) \<Rightarrow> idle_reading am d x r = Some (q, c) | _ \<Rightarrow> True)"
  shows "clock_backed am d r (xs @ [x]) e"
proof (cases "lane_clock_of e = (None, None, None)")
  case False
  then obtain pre ys q c where ys: "xs = pre @ ys" "steady am d r (q, c) ys" and e: "lane_clock_of e = (Some q, Some c, Some (sweep_time r (hd ys)))"
    using assms(1) by (auto simp: clock_backed_def)
  then have "steady am d r (q, c) (ys @ [x])" "hd (ys @ [x]) = hd ys"
    using assms(2) by (auto simp: steady_def intro: steady_extend)
  with ys(1) e show ?thesis
    unfolding clock_backed_def by (metis append.assoc)
qed (simp add: clock_backed_def)

section \<open>The stages do not depend on what is tracked\<close>

lemma reset_view_stops: "\<exists>u. reset_view r w st why t = Returned u \<and> stopped r u"
  using reset_view_returns by fast

lemma child_uniform:
  "(\<exists>c. \<forall>t. lane_child am d r w sn v t = Thrown t c)
   \<or> (\<forall>t. \<exists>u. lane_child am d r w sn v t = Returned u \<and> stopped r u)
   \<or> (\<exists>a. \<forall>t. lane_child am d r w sn v t = Continue t a)"
proof (cases "classifyChild am sn v")
  case (ChildMatched i)
  show ?thesis
  proof (cases "snapshotIdentityRecords sn (si_paneId i)")
    case (Inr records)
    note here = ChildMatched Inr
    show ?thesis
    proof (cases "mergedToken records ''retention'' = EvValue ''keep''")
      case False
      show ?thesis
      proof (cases "traceVeto am w (deriveRun (ro_dir d) (ro_endpoint d) r) v []")
        case (Inr veto)
        with here False show ?thesis by (cases veto) (auto simp: lane_child_def reset_view_stops)
      qed (use here False in \<open>simp add: lane_child_def\<close>)
    qed (use here in \<open>simp add: lane_child_def reset_view_stops\<close>)
  qed (use ChildMatched in \<open>simp add: lane_child_def\<close>)
qed (simp_all add: lane_child_def reset_view_stops)

lemma sidecars_uniform:
  assumes "\<not> terminal_entry (entry_of r t)"
  shows "(case lane_sidecars am r w createLaneRetirer of
            Continue u0 x \<Rightarrow> \<exists>u. lane_sidecars am r w t = Continue u x
          | _ \<Rightarrow> \<exists>u. lane_sidecars am r w t = Returned u)"
proof -
  have "\<not> (case map_of (rt_ledger t) r of None \<Rightarrow> False | Some e \<Rightarrow> terminal_entry e)"
    using assms by (simp add: entry_of_def split: option.splits)
  then show ?thesis
    by (simp add: lane_sidecars_def createLaneRetirer_def answer_view_def Let_def split: sum.splits option.splits)
qed

lemma clock_stage:
  "case records_reading am w records of
     None \<Rightarrow> \<exists>u. lane_clock am d r w records t = Returned u \<and> placid r t u \<and> stopped r u
   | Some (q, c) \<Rightarrow>
       framed r t (stage_of (lane_clock am d r w records t))
       \<and> lane_clock_of (entry_of r (stage_of (lane_clock am d r w records t))) = lane_clock_of (observe_clock q c (wo_now w) (entry_of r t))
       \<and> (\<forall>u ms. lane_clock am d r w records t = Continue u ms \<longrightarrow> ro_graceMs d \<le> wo_now w - the (le_sinceMs (entry_of r u)))"
  by (auto simp: records_reading_def lane_clock_def reset_view_returns Let_def framed_def lane_clock_of_def split: sum.splits)

section \<open>What the close path adds\<close>

text \<open>
  The block of effects of one close of pane \<open>p\<close> for run \<open>r\<close>, judged against what the close met: the marker
  and the event are there when the tool answered that it closed the pane and the snapshot read back after
  it has no such pane, and only then. A pane that is merely gone was closed by somebody else.
\<close>

definition close_confirmed :: "lane_locks \<Rightarrow> string \<Rightarrow> bool" where
  "close_confirmed lk p \<longleftrightarrow> lk_mutation lk = MutationDone
     \<and> (\<exists>after. lk_readback lk = Some after \<and> (\<forall>v \<in> set (sn_panes after). jget ''pane_id'' v \<noteq> JStr p))"

definition closing :: "lane_locks \<Rightarrow> string \<Rightarrow> string \<Rightarrow> retire_fx list \<Rightarrow> bool" where
  "closing lk r p b \<longleftrightarrow>
     (if close_confirmed lk p
      then \<exists>ev c. b = [FxBeginClose r p, FxMarked r, FxFinishClose p True, FxLaneRetired ev]
             \<and> ri_kind ev = ''lane_retired'' \<and> ri_runId ev = r \<and> ri_child ev = Some c \<and> mc_paneId c = p
      else b = [FxBeginClose r p, FxFinishClose p False])"

lemma confirmed_iff: "closeWithReadback m rb p = CloseConfirmed
   \<longleftrightarrow> m = MutationDone \<and> (\<exists>after. rb = Some after \<and> (\<forall>v \<in> set (sn_panes after). jget ''pane_id'' v \<noteq> JStr p))"
  by (auto simp: closeWithReadback_def with_field_def filter_empty_conv split: close_mutation.splits option.splits)

lemma closing_begins: "closing lk r p b \<Longrightarrow> FxBeginClose r' p' \<in> set b \<longleftrightarrow> r' = r \<and> p' = p"
  by (auto simp: closing_def split: if_splits)

definition undisturbed :: "string \<Rightarrow> retirer \<Rightarrow> retirer \<Rightarrow> bool" where
  "undisturbed r t u \<longleftrightarrow> (\<forall>q. q \<noteq> r \<longrightarrow> entry_of q u = entry_of q t)
     \<and> (lane_clock_of (entry_of r u) = lane_clock_of (entry_of r t) \<or> stopped r u)"

lemma placid_undisturbed: "placid r t u \<Longrightarrow> undisturbed r t u"
  by (auto simp: placid_def framed_def undisturbed_def)

lemma undisturbed_trans: "undisturbed r t u \<Longrightarrow> undisturbed r u v \<Longrightarrow> undisturbed r t v"
  by (auto simp: undisturbed_def stopped_def)

text \<open>What is reported between two states is one close: its block, and the marked run.\<close>

definition reports :: "lane_locks \<Rightarrow> string \<Rightarrow> string \<Rightarrow> retirer \<Rightarrow> retirer \<Rightarrow> bool" where
  "reports lk r p t u \<longleftrightarrow> (\<exists>b. closing lk r p b \<and> rt_out u = rt_out t @ b
     \<and> set (rt_retired u) = set (rt_retired t) \<union> {q. FxMarked q \<in> set b})"

lemma reports_before: "framed r t u \<Longrightarrow> reports lk r p u v \<Longrightarrow> reports lk r p t v"
  by (simp add: framed_def reports_def)

lemma reports_after: "reports lk r p t u \<Longrightarrow> framed r u v \<Longrightarrow> reports lk r p t v"
  by (simp add: framed_def reports_def)

lemma reports_failed:
  "\<not> close_confirmed lk p \<Longrightarrow> rt_retired u = rt_retired t
     \<Longrightarrow> rt_out u = rt_out t @ [FxBeginClose r p, FxFinishClose p False] \<Longrightarrow> reports lk r p t u"
  by (simp add: reports_def closing_def)

lemma reports_proven:
  assumes "close_confirmed lk p" and "rt_retired u = List.insert r (rt_retired t)"
    and "rt_out u = rt_out t @ [FxBeginClose r p, FxMarked r, FxFinishClose p True]"
    and "ri_kind ev = ''lane_retired''" "ri_runId ev = r" "\<exists>c. ri_child ev = Some c \<and> mc_paneId c = p"
  shows "reports lk r p t (report_event r ans (emit_fx (FxLaneRetired ev) u))"
  unfolding reports_def
  by (rule exI [of _ "[FxBeginClose r p, FxMarked r, FxFinishClose p True, FxLaneRetired ev]"])
    (use assms in \<open>auto simp: closing_def\<close>)

text \<open>The close itself: what it does before the event, which only a proven close writes.\<close>

lemma dispatch_shape:
  "case dispatchClose d r lk i t of
     Thrown u c \<Rightarrow> False
   | Returned u \<Rightarrow> \<not> close_confirmed lk (si_paneId i) \<and> undisturbed r t u \<and> rt_retired u = rt_retired t
       \<and> rt_out u = rt_out t @ [FxBeginClose r (si_paneId i), FxFinishClose (si_paneId i) False]
   | Continue u None \<Rightarrow> \<not> close_confirmed lk (si_paneId i) \<and> undisturbed r t u \<and> rt_retired u = rt_retired t
       \<and> rt_out u = rt_out t @ [FxBeginClose r (si_paneId i), FxFinishClose (si_paneId i) False]
   | Continue u (Some j) \<Rightarrow> close_confirmed lk (si_paneId i) \<and> undisturbed r t u \<and> rt_retired u = List.insert r (rt_retired t)
       \<and> rt_out u = rt_out t @ [FxBeginClose r (si_paneId i), FxMarked r, FxFinishClose (si_paneId i) True]"
proof -
  have iff: "close_confirmed lk (si_paneId i) \<longleftrightarrow> closeWithReadback (lk_mutation lk) (lk_readback lk) (si_paneId i) = CloseConfirmed"
    unfolding confirmed_iff close_confirmed_def by (rule refl)
  show ?thesis
  proof (cases "closeWithReadback (lk_mutation lk) (lk_readback lk) (si_paneId i)")
    case CloseConfirmed
    then show ?thesis by (simp add: iff dispatchClose_def Let_def undisturbed_def lane_clock_of_def)
  next
    case CloseReconciled
    then show ?thesis by (simp add: iff dispatchClose_def Let_def undisturbed_def lane_clock_of_def)
  next
    case (CloseThrew code)
    then show ?thesis by (simp add: iff dispatchClose_def answer_view_def Let_def undisturbed_def lane_clock_of_def)
  qed
qed

lemma undisturbed_report [simp]: "undisturbed r t (report_event q ans (emit_fx x u)) \<longleftrightarrow> undisturbed r t u"
  by (simp add: undisturbed_def stopped_def)

definition after_dispatch :: "retire_options \<Rightarrow> string \<Rightarrow> jsval \<Rightarrow> lane_locks \<Rightarrow> sup_identity \<Rightarrow> retirer \<Rightarrow> unit stage" where
  "after_dispatch d runId v lk i t =
     and_then (dispatchClose d runId lk i t) (\<lambda>t outcome.
        case outcome of
          None \<Rightarrow> reset_view runId (lk_world lk) RvDeferred ''close_reconciled_absent'' t
        | Some jobId \<Rightarrow>
            Returned (report_event runId (lk_event lk) (emit_fx (FxLaneRetired (lane_retired_event d runId i v jobId)) t)))"

lemma closeLane_dispatch:
  "closeLane am d r v now lk i key t =
     (if \<not> lk_pane lk then Returned (setView r now RvDeferred (Some ''pane_lock_unavailable'') None None t)
      else if \<not> lk_run lk then Returned (setView r now RvDeferred (Some ''run_lock_unavailable'') None None t)
      else and_then (relock am d r (lk_world lk) i key t) (\<lambda>t _. after_dispatch d r v lk i t))"
  by (simp add: closeLane_def lockedClose_def after_dispatch_def and_then_def split: stage.split)

lemma after_dispatch_reports:
  "\<exists>u. after_dispatch d r v lk i t = Returned u \<and> undisturbed r t u \<and> reports lk r (si_paneId i) t u"
proof (cases "dispatchClose d r lk i t")
  case (Returned u)
  then show ?thesis
    using dispatch_shape [where d = d and r = r and lk = lk and i = i and t = t] reports_failed
    by (simp add: after_dispatch_def and_then_def)
next
  case (Continue u outcome)
  note shape = dispatch_shape [where d = d and r = r and lk = lk and i = i and t = t]
  show ?thesis
  proof (cases outcome)
    case None
    obtain y where y: "reset_view r (lk_world lk) RvDeferred ''close_reconciled_absent'' u = (Returned y :: unit stage)" "placid r u y"
      using reset_view_returns by blast
    have u: "\<not> close_confirmed lk (si_paneId i)" "undisturbed r t u" "rt_retired u = rt_retired t"
        "rt_out u = rt_out t @ [FxBeginClose r (si_paneId i), FxFinishClose (si_paneId i) False]"
      using shape Continue None by simp_all
    have "undisturbed r t y" "reports lk r (si_paneId i) t y"
      using undisturbed_trans [OF u(2) placid_undisturbed [OF y(2)]]
        reports_after [OF reports_failed [OF u(1,3,4)] placid_framed [OF y(2)]] by simp_all
    then show ?thesis
      using Continue None y(1) by (simp add: after_dispatch_def and_then_def)
  next
    case (Some j)
    then have u: "close_confirmed lk (si_paneId i)" "undisturbed r t u" "rt_retired u = List.insert r (rt_retired t)"
        "rt_out u = rt_out t @ [FxBeginClose r (si_paneId i), FxMarked r, FxFinishClose (si_paneId i) True]"
      using shape Continue by simp_all
    have "reports lk r (si_paneId i) t (report_event r (lk_event lk) (emit_fx (FxLaneRetired (lane_retired_event d r i v j)) u))"
      by (rule reports_proven [OF u(1,3,4)]) (simp_all add: lane_retired_event_def)
    then show ?thesis
      using Continue Some u(2) by (simp add: after_dispatch_def and_then_def)
  qed
next
  case (Thrown u c)
  then show ?thesis using dispatch_shape [where d = d and r = r and lk = lk and i = i and t = t] by simp
qed

text \<open>The close path either changes nothing that is reported, or went through both locks and the proof.\<close>

definition closed_quietly :: "lane_locks \<Rightarrow> string \<Rightarrow> string \<Rightarrow> bool \<Rightarrow> retirer \<Rightarrow> retirer \<Rightarrow> bool" where
  "closed_quietly lk r p proven t u \<longleftrightarrow> placid r t u \<or> (proven \<and> undisturbed r t u \<and> reports lk r p t u)"

lemma closed_quietly_mono: "closed_quietly lk r p b t u \<Longrightarrow> (b \<Longrightarrow> b') \<Longrightarrow> closed_quietly lk r p b' t u"
  by (auto simp: closed_quietly_def)

lemma closed_after_placid: "placid r t u \<Longrightarrow> closed_quietly lk r p b u v \<Longrightarrow> closed_quietly lk r p b t v"
  unfolding closed_quietly_def
  using placid_trans undisturbed_trans [OF placid_undisturbed] reports_before [OF placid_framed] by blast

lemma placid_closed: "closed_quietly lk r p b t u \<Longrightarrow> placid r u v \<Longrightarrow> closed_quietly lk r p b t v"
  unfolding closed_quietly_def
  using placid_trans undisturbed_trans [OF _ placid_undisturbed] reports_after [OF _ placid_framed] by blast

lemma closed_undisturbed: "closed_quietly lk r p b t u \<Longrightarrow> undisturbed r t u"
  by (auto simp: closed_quietly_def intro: placid_undisturbed)

lemma closeLane_effects:
  "closed_quietly lk r (si_paneId i) (lk_pane lk \<and> lk_run lk \<and> (\<exists>u w. relock am d r (lk_world lk) i key t = Continue u w))
     t (stage_of (closeLane am d r v now lk i key t))"
proof (cases "lk_pane lk \<and> lk_run lk")
  case True
  show ?thesis
  proof (cases "relock am d r (lk_world lk) i key t")
    case (Continue u w)
    have "placid r t u" using placid_relock [of r t am d "lk_world lk" i key] Continue by simp
    moreover obtain y where "after_dispatch d r v lk i u = Returned y" "undisturbed r u y" "reports lk r (si_paneId i) u y"
      using after_dispatch_reports by blast
    ultimately show ?thesis
      using True Continue
      by (auto simp: closed_quietly_def closeLane_dispatch and_then_def
          intro: undisturbed_trans [OF placid_undisturbed] reports_before [OF placid_framed])
  qed (use True placid_relock [of r t am d "lk_world lk" i key] in \<open>simp_all add: closed_quietly_def closeLane_dispatch and_then_def\<close>)
qed (auto simp: closed_quietly_def closeLane_dispatch)

section \<open>The proof made again\<close>

text \<open>
  What the world under the locks shows, for the child, the mailbox key and the reading of the sweep. A
  focused pane is closed only when it has been spared for its focus often enough.
\<close>

definition reproved ::
  "ambient \<Rightarrow> retire_options \<Rightarrow> string \<Rightarrow> lane_world \<Rightarrow> sup_identity \<Rightarrow> string \<Rightarrow> rat \<times> string \<Rightarrow> nat \<Rightarrow> bool" where
  "reproved am d r w i key reading defers \<longleftrightarrow>
     (\<exists>v pr pane ar agent live status pv sn.
        readHandoffState (wo_io w) r (wo_store w) = Inr v \<and> still_recorded i v \<and> cycle_mark v = None
        \<and> wo_paneGet w = Inr pr \<and> paneFrom pr (si_paneId i) = Inr pane \<and> wo_agentGet w = Inr ar \<and> agentFrom ar = Inr agent
        \<and> requirePromptTargetIdentity [pane, agent] (si_paneId i) = Inr live \<and> still_live i live \<and> launch_tokens i [pane, agent]
        \<and> lifecycleOf pane agent = Inr (status, fst reading) \<and> idle_status status
        \<and> readProvenance w r = Inr pv \<and> \<not> task_keep pv \<and> mergedToken [pane, agent] ''retention'' \<noteq> EvValue ''keep''
        \<and> wo_snapshot w = Inr sn \<and> vetoes am w sn (si_paneId i) (id_of ''tab_id'' pane) key v pv = None
        \<and> (jget ''focused'' pane = JBool True \<longrightarrow> ro_maxFocusDefers d \<le> defers)
        \<and> screenDigest am w = Inr (snd reading) \<and> wo_lease w
        \<and> traceVeto am w (deriveRun (ro_dir d) (ro_endpoint d) r) v ''recheck_'' = Inr None)"

lemma or_throw_Continue: "or_throw t code x f = Continue u b \<longleftrightarrow> (\<exists>a. x = Inr a \<and> f t a = Continue u b)"
  by (auto simp: or_throw_def split: sum.splits)

lemma relock_sidecar_Continue:
  "relock_sidecar r w i t = Continue u v \<Longrightarrow>
     u = t \<and> readHandoffState (wo_io w) r (wo_store w) = Inr v \<and> still_recorded i v \<and> cycle_mark v = None"
  by (auto simp: relock_sidecar_def split: sum.split_asm option.split_asm if_split_asm)

lemma relock_live_Continue:
  "relock_live r w i t = Continue u pa \<Longrightarrow>
     u = t \<and> (\<exists>pr ar live. wo_paneGet w = Inr pr \<and> paneFrom pr (si_paneId i) = Inr (fst pa) \<and> wo_agentGet w = Inr ar \<and> agentFrom ar = Inr (snd pa)
       \<and> requirePromptTargetIdentity [fst pa, snd pa] (si_paneId i) = Inr live \<and> still_live i live)
     \<and> launch_tokens i [fst pa, snd pa]"
  unfolding relock_live_def or_throw_Continue by (elim exE conjE) (auto split: sum.split_asm if_split_asm)

lemma relock_clock_Continue:
  "relock_clock r w pa t = Continue u x \<Longrightarrow>
     u = t \<and> (\<exists>status seq. lifecycleOf (fst pa) (snd pa) = Inr (status, seq) \<and> idle_status status \<and> le_seq (entry_of r t) = Some seq)"
  by (auto simp: relock_clock_def split: sum.split_asm if_split_asm prod.split_asm)

lemma no_pair: "(\<forall>a b. x \<noteq> Some (a, b)) \<longleftrightarrow> x = None"
  by (cases x) auto

lemma relock_owner_Continue:
  "relock_owner am d r w i key v pa t = Continue u x \<Longrightarrow>
     u = t \<and> (\<exists>pv sn. readProvenance w r = Inr pv \<and> \<not> task_keep pv \<and> mergedToken [fst pa, snd pa] ''retention'' \<noteq> EvValue ''keep''
        \<and> wo_snapshot w = Inr sn \<and> vetoes am w sn (si_paneId i) (id_of ''tab_id'' (fst pa)) key v pv = None)
     \<and> (jget ''focused'' (fst pa) = JBool True \<longrightarrow> ro_maxFocusDefers d \<le> le_focusDefers (entry_of r t))"
  unfolding relock_owner_def
  by (auto simp: or_throw_Continue no_pair split: sum.split_asm option.split_asm if_split_asm prod.split_asm)

lemma relock_last_Continue:
  "relock_last am d r w v t = Continue u x \<Longrightarrow>
     u = t \<and> (\<exists>c. screenDigest am w = Inr c \<and> le_screen (entry_of r t) = Some c) \<and> wo_lease w
     \<and> traceVeto am w (deriveRun (ro_dir d) (ro_endpoint d) r) v ''recheck_'' = Inr None"
  unfolding relock_last_def by (auto split: sum.split_asm option.split_asm if_split_asm prod.split_asm)

lemma relock_proves:
  assumes "relock am d r w i key t = Continue u v" and "lane_clock_of (entry_of r t) = (Some q, Some c, since)"
  shows "reproved am d r w i key (q, c) (le_focusDefers (entry_of r t))"
proof -
  obtain t1 t2 t3 t4 t5 v0 pa where
    a: "relock_sidecar r w i t = Continue t1 v0" and b: "relock_live r w i t1 = Continue t2 pa"
    and c: "relock_clock r w pa t2 = Continue t3 ()"
    and e: "relock_owner am d r w i key v0 pa t3 = Continue t4 ()" and f: "relock_last am d r w v0 t4 = Continue t5 ()"
    using assms(1) by (auto simp: relock_def and_then_Continue)
  have same: "t1 = t" "t2 = t" "t3 = t" "t4 = t"
    using relock_sidecar_Continue [OF a] relock_live_Continue [OF b] relock_clock_Continue [OF c] relock_owner_Continue [OF e] by simp_all
  have entry: "le_seq (entry_of r t) = Some q" "le_screen (entry_of r t) = Some c"
    using assms(2) by (simp_all add: lane_clock_of_def)
  show ?thesis
    unfolding reproved_def
    using relock_sidecar_Continue [OF a] relock_live_Continue [OF b] relock_clock_Continue [OF c]
      relock_owner_Continue [OF e] relock_last_Continue [OF f] entry
    unfolding same by fastforce
qed

section \<open>The proof of the sweep\<close>

lemma sidecars_Continue:
  assumes "lane_sidecars am r w t = Continue u x"
  shows "u = upd_entry r (\<lambda>e. e) t" "\<not> terminal_entry (entry_of r t)"
    "open_state w r = Inr (ls_state x)" "st_lifecycle (ls_state x) = ''handed_off''"
    "st_child ''terminalId'' (ls_state x) \<noteq> JNull" "st_native (ls_state x) \<noteq> None" "cycle_mark (ls_state x) = None"
    "readProvenance w r = Inr (ls_provenance x)" "\<not> task_keep (ls_provenance x)"
    "managerSessionKey am (the (st_native (ls_state x))) = Inr (ls_childKey x)"
proof -
  have new: "\<not> terminal_entry new_entry" by (simp add: terminal_entry_def new_entry_def)
  show "\<not> terminal_entry (entry_of r t)"
    using assms new by (auto simp: lane_sidecars_def entry_of_def split: if_split_asm option.splits)
qed (use assms in \<open>auto simp: lane_sidecars_def Let_def split: sum.split_asm option.split_asm if_split_asm\<close>)

lemma child_Continue:
  "lane_child am d r w sn v t = Continue u (i, recs) \<Longrightarrow>
     u = t \<and> classifyChild am sn v = ChildMatched i \<and> snapshotIdentityRecords sn (si_paneId i) = Inr recs
     \<and> mergedToken recs ''retention'' \<noteq> EvValue ''keep''
     \<and> traceVeto am w (deriveRun (ro_dir d) (ro_endpoint d) r) v [] = Inr None"
  unfolding lane_child_def
  by (auto split: child_verdict.split_asm sum.split_asm option.split_asm if_split_asm prod.split_asm)

lemma clock_Continue:
  "lane_clock am d r w recs t = Continue u ms \<Longrightarrow>
     \<exists>status seq screen. lifecycleOf (recs ! 0) (recs ! 1) = Inr (status, seq) \<and> idle_status status
       \<and> screenDigest am w = Inr screen \<and> u = upd_entry r (observe_clock seq screen (wo_now w)) t"
  by (auto simp: lane_clock_def Let_def split: sum.split_asm if_split_asm prod.split_asm)

lemma guards_Continue:
  "lane_guards am r w sn x i recs t = Continue u a \<Longrightarrow>
     u = t \<and> mergedToken recs ''identity_provenance'' = EvValue ''launched''
     \<and> (\<exists>s. mergedToken recs ''identity_session'' = EvValue s \<and> Some s = tokenValue (as_value (the (st_native (ls_state x)))))
     \<and> (\<exists>policy. classifyCaller sn (si_paneId i) = Inr policy \<and> cp_scope policy = ScopeWorker)
     \<and> vetoes am w sn (si_paneId i) (id_of ''tab_id'' (recs ! 0)) (ls_childKey x) (ls_state x) (ls_provenance x) = None"
  unfolding lane_guards_def Let_def
  by (auto simp: no_pair split: evidence.split_asm sum.split_asm option.split_asm if_split_asm prod.split_asm)

lemma focus_Continue:
  "lane_focus d r w pane ms t = Continue u a \<Longrightarrow>
     ro_enabled d \<and> lane_clock_of (entry_of r u) = lane_clock_of (entry_of r t)
     \<and> (jget ''focused'' pane = JBool True \<longrightarrow> ro_maxFocusDefers d \<le> le_focusDefers (entry_of r t))
     \<and> le_focusDefers (entry_of r u) = (if jget ''focused'' pane = JBool True then le_focusDefers (entry_of r t) else 0)"
  by (auto simp: lane_focus_def Let_def lane_clock_of_def split: if_split_asm)

lemma classify_session: "classifyChild am sn v = ChildMatched i \<Longrightarrow> si_session i = the (st_native v)"
  by (auto simp: classifyChild_def Let_def live_identity_def same_recorded_def split: list.split_asm sum.split_asm if_split_asm)

text \<open>
  The lane as the sweep itself saw it: the run is finished, unmarked and not kept; the child is matched in
  the sweep's snapshot, idle, with the launch tokens of its session, no opt-out and no follow-up in its
  trace; it is a worker, manages nothing and has no mail, and its owner stays out of the close.
\<close>

definition shown_finished ::
  "ambient \<Rightarrow> retire_options \<Rightarrow> string \<Rightarrow> lane_world \<Rightarrow> snapshot \<Rightarrow> sup_identity \<Rightarrow> string \<Rightarrow> jsval \<Rightarrow> rat \<times> string \<Rightarrow> bool" where
  "shown_finished am d r w sn i key pane reading \<longleftrightarrow>
     (\<exists>v pv agent status policy.
        open_state w r = Inr v \<and> st_lifecycle v = ''handed_off'' \<and> cycle_mark v = None
        \<and> st_child ''terminalId'' v \<noteq> JNull \<and> st_native v = Some (si_session i)
        \<and> readProvenance w r = Inr pv \<and> \<not> task_keep pv \<and> managerSessionKey am (si_session i) = Inr key
        \<and> classifyChild am sn v = ChildMatched i \<and> snapshotIdentityRecords sn (si_paneId i) = Inr [pane, agent]
        \<and> mergedToken [pane, agent] ''retention'' \<noteq> EvValue ''keep''
        \<and> traceVeto am w (deriveRun (ro_dir d) (ro_endpoint d) r) v [] = Inr None
        \<and> lifecycleOf pane agent = Inr (status, fst reading) \<and> idle_status status \<and> screenDigest am w = Inr (snd reading)
        \<and> launch_tokens i [pane, agent] \<and> classifyCaller sn (si_paneId i) = Inr policy \<and> cp_scope policy = ScopeWorker
        \<and> vetoes am w sn (si_paneId i) (id_of ''tab_id'' pane) key v pv = None)"

text \<open>
  Everything a close of pane \<open>p\<close> rests on, of the child the sweep itself saw: \<open>e\<close> is what was tracked
  for the run before the visit.
\<close>

definition lane_shown ::
  "ambient \<Rightarrow> retire_options \<Rightarrow> string \<Rightarrow> lane_world \<Rightarrow> snapshot \<Rightarrow> lane_locks \<Rightarrow> lane_entry \<Rightarrow> string \<Rightarrow> bool" where
  "lane_shown am d r w sn lk e p \<longleftrightarrow>
     (\<exists>i key pane reading. si_paneId i = p \<and> ro_enabled d \<and> \<not> terminal_entry e
        \<and> shown_finished am d r w sn i key pane reading
        \<and> (jget ''focused'' pane = JBool True \<longrightarrow> ro_maxFocusDefers d \<le> le_focusDefers e)
        \<and> lk_pane lk \<and> lk_run lk
        \<and> reproved am d r (lk_world lk) i key reading (if jget ''focused'' pane = JBool True then le_focusDefers e else 0))"

lemma identity_records_two: "snapshotIdentityRecords sn p = Inr recs \<Longrightarrow> \<exists>a b. recs = [a, b]"
  by (auto simp: snapshotIdentityRecords_def split: list.split_asm)

text \<open>What follows the clock: the guards, the focus, and the close path with its catch.\<close>

definition lane_rest ::
  "ambient \<Rightarrow> retire_options \<Rightarrow> string \<Rightarrow> lane_world \<Rightarrow> snapshot \<Rightarrow> lane_locks \<Rightarrow> lane_sidecar \<Rightarrow> sup_identity \<Rightarrow> jsval list \<Rightarrow> int
   \<Rightarrow> retirer \<Rightarrow> unit stage" where
  "lane_rest am d r w sn lk x i recs ms t =
     and_then (lane_guards am r w sn x i recs t) (\<lambda>t _.
     and_then (lane_focus d r w (recs ! 0) ms t) (\<lambda>t _.
       case closeLane am d r (ls_state x) (wo_now w) lk i (ls_childKey x) t of
         Thrown t c \<Rightarrow> answer_view r w RvDeferred (''sweep_error:'' @ codeOf c) t
       | y \<Rightarrow> y))"

lemma evaluate_rest:
  "evaluate am d r w sn lk t =
     and_then (lane_sidecars am r w t) (\<lambda>t x.
     and_then (lane_child am d r w sn (ls_state x) t) (\<lambda>t (i, recs).
     and_then (lane_clock am d r w recs t) (\<lambda>t ms. lane_rest am d r w sn lk x i recs ms t)))"
  by (simp add: evaluate_def lane_proof_def lane_rest_def and_then_def split: stage.split prod.split)

definition rest_proven ::
  "ambient \<Rightarrow> retire_options \<Rightarrow> string \<Rightarrow> lane_world \<Rightarrow> snapshot \<Rightarrow> lane_locks \<Rightarrow> lane_sidecar \<Rightarrow> sup_identity \<Rightarrow> jsval list \<Rightarrow> lane_entry
   \<Rightarrow> rat \<times> string \<Rightarrow> bool" where
  "rest_proven am d r w sn lk x i recs e reading \<longleftrightarrow>
     (\<exists>u t. lane_guards am r w sn x i recs t = Continue u ()
        \<and> (jget ''focused'' (recs ! 0) = JBool True \<longrightarrow> ro_maxFocusDefers d \<le> le_focusDefers e) \<and> ro_enabled d \<and> lk_pane lk \<and> lk_run lk
        \<and> reproved am d r (lk_world lk) i (ls_childKey x) reading (if jget ''focused'' (recs ! 0) = JBool True then le_focusDefers e else 0))"

lemma rest_effects:
  assumes "lane_clock_of (entry_of r t) = (Some q, Some c, since)"
  shows "closed_quietly lk r (si_paneId i) (rest_proven am d r w sn lk x i recs (entry_of r t) (q, c))
     t (stage_of (lane_rest am d r w sn lk x i recs ms t))"
proof (cases "lane_guards am r w sn x i recs t")
  case guards: (Continue t' a)
  have t': "t' = t" using guards_Continue [OF guards] by simp
  show ?thesis
  proof (cases "lane_focus d r w (recs ! 0) ms t")
    case (Continue u b)
    note f = focus_Continue [OF Continue]
    have placid: "placid r t u" and clock: "lane_clock_of (entry_of r u) = (Some q, Some c, since)"
      using placid_focus [of r t d w "recs ! 0" ms] f Continue assms by simp_all
    let ?close = "closeLane am d r (ls_state x) (wo_now w) lk i (ls_childKey x) u"
    have "rest_proven am d r w sn lk x i recs (entry_of r t) (q, c)"
      if locks: "lk_pane lk \<and> lk_run lk \<and> (\<exists>y z. relock am d r (lk_world lk) i (ls_childKey x) u = Continue y z)"
    proof -
      obtain y z where "relock am d r (lk_world lk) i (ls_childKey x) u = Continue y z" using locks by blast
      from relock_proves [OF this clock] have "reproved am d r (lk_world lk) i (ls_childKey x) (q, c)
          (if jget ''focused'' (recs ! 0) = JBool True then le_focusDefers (entry_of r t) else 0)" using f by simp
      then show ?thesis using locks f guards unfolding rest_proven_def by (cases a) blast
    qed
    then have "closed_quietly lk r (si_paneId i) (rest_proven am d r w sn lk x i recs (entry_of r t) (q, c)) t (stage_of ?close)"
      by (rule closed_quietly_mono [OF closed_after_placid [OF placid closeLane_effects]])
    then show ?thesis
      using guards t' Continue
      by (cases ?close) (auto simp: lane_rest_def and_then_def intro: placid_closed)
  qed (use guards t' placid_focus [of r t d w "recs ! 0" ms] in \<open>simp_all add: lane_rest_def and_then_def closed_quietly_def\<close>)
qed (use placid_guards [of r t am w sn x i recs] in \<open>simp_all add: lane_rest_def and_then_def closed_quietly_def\<close>)

section \<open>One visit of a lane\<close>

definition framed_or_closed :: "lane_locks \<Rightarrow> string \<Rightarrow> (string \<Rightarrow> bool) \<Rightarrow> retirer \<Rightarrow> retirer \<Rightarrow> bool" where
  "framed_or_closed lk r B t u \<longleftrightarrow> framed r t u
     \<or> (\<exists>p. B p \<and> (\<forall>q. q \<noteq> r \<longrightarrow> entry_of q u = entry_of q t) \<and> reports lk r p t u)"

lemma closed_framed:
  assumes "framed r t u" and "closed_quietly lk r p b u v" and "b \<Longrightarrow> B p"
  shows "framed_or_closed lk r B t v"
proof (cases "placid r u v")
  case True
  then show ?thesis
    using framed_trans [OF assms(1) placid_framed] by (simp add: framed_or_closed_def)
next
  case False
  then have "B p" "undisturbed r u v" "reports lk r p u v"
    using assms(2,3) by (auto simp: closed_quietly_def)
  with assms(1) reports_before [OF assms(1)] show ?thesis
    unfolding framed_or_closed_def by (auto simp: framed_def undisturbed_def)
qed

lemma framed_or_closed_before: "framed r t u \<Longrightarrow> framed_or_closed lk r B u v \<Longrightarrow> framed_or_closed lk r B t v"
  unfolding framed_or_closed_def using framed_trans reports_before by (simp add: framed_def) blast

lemma observed_clock: "\<exists>since. lane_clock_of (observe_clock q c now e) = (Some q, Some c, Some since)"
  by (auto simp: observe_clock_def lane_clock_of_def)

lemma clock_framed: "framed r t (stage_of (lane_clock am d r w recs t))"
  using clock_stage [where am = am and w = w and records = recs and d = d and r = r and t = t] by (auto simp: placid_framed split: option.split_asm)

lemma rest_shown:
  assumes x: "lane_sidecars am r w t = Continue u x" and child: "lane_child am d r w sn (ls_state x) u = Continue u (i, recs)"
    and clock: "lifecycleOf (recs ! 0) (recs ! 1) = Inr (status, seq)" "idle_status status" "screenDigest am w = Inr screen"
    and rest: "rest_proven am d r w sn lk x i recs e' (seq, screen)" and same: "le_focusDefers e' = le_focusDefers (entry_of r t)"
  shows "lane_shown am d r w sn lk (entry_of r t) (si_paneId i)"
proof -
  note s = sidecars_Continue [OF x] and c = child_Continue [OF child]
  obtain pane agent where recs: "recs = [pane, agent]" using c identity_records_two by blast
  obtain v t' where g: "lane_guards am r w sn x i recs t' = Continue v ()" using rest by (auto simp: rest_proven_def)
  note guards = guards_Continue [OF g]
  have native: "the (st_native (ls_state x)) = si_session i" "st_native (ls_state x) = Some (si_session i)"
    using classify_session [of am sn "ls_state x" i] c s(6) by auto
  have "launch_tokens i [pane, agent]" using guards by (auto simp: launch_tokens_def native recs)
  then have "shown_finished am d r w sn i (ls_childKey x) pane (seq, screen)"
    unfolding shown_finished_def using s c clock guards native
    by (intro exI [of _ "ls_state x"] exI [of _ "ls_provenance x"] exI [of _ agent] exI [of _ status]) (auto simp: recs)
  with rest s(2) show ?thesis
    unfolding lane_shown_def rest_proven_def same
    by (intro exI [of _ i] exI [of _ "ls_childKey x"] exI [of _ pane] exI [of _ "(seq, screen)"]) (auto simp: recs)
qed

lemma evaluate_shown:
  "framed_or_closed lk r (lane_shown am d r w sn lk (entry_of r t)) t (stage_of (evaluate am d r w sn lk t))"
proof (cases "lane_sidecars am r w t")
  case x: (Continue u x)
  have u: "framed r t u" using placid_framed [OF placid_sidecars [of r t am w]] x by simp
  show ?thesis
  proof (cases "lane_child am d r w sn (ls_state x) u")
    case child: (Continue u' a)
    obtain i recs where a: "a = (i, recs)" by (cases a)
    note child = child [unfolded a]
    have u': "u' = u" using child_Continue [OF child] by simp
    show ?thesis
    proof (cases "lane_clock am d r w recs u")
      case (Continue v ms)
      then obtain status seq screen where c: "lifecycleOf (recs ! 0) (recs ! 1) = Inr (status, seq)" "idle_status status"
          "screenDigest am w = Inr screen" and v: "v = upd_entry r (observe_clock seq screen (wo_now w)) u"
        using clock_Continue by blast
      obtain since where clock: "lane_clock_of (entry_of r v) = (Some seq, Some screen, Some since)"
        using observed_clock [of seq screen "wo_now w" "entry_of r u"] by (auto simp: v)
      have same: "le_focusDefers (entry_of r v) = le_focusDefers (entry_of r t)"
        by (simp add: v observe_clock_def sidecars_Continue(1) [OF x])
      have "framed r t v" using framed_trans [OF u clock_framed [of r u am d w recs]] Continue by simp
      then have "framed_or_closed lk r (lane_shown am d r w sn lk (entry_of r t)) t (stage_of (lane_rest am d r w sn lk x i recs ms v))"
        by (rule closed_framed [where p = "si_paneId i", OF _ rest_effects [OF clock]])
          (rule rest_shown [OF x child [unfolded u'] c _ same])
      then show ?thesis using x child u' Continue by (simp add: evaluate_rest and_then_def)
    qed (use x child u' framed_trans [OF u clock_framed [of r u am d w recs]] in
        \<open>simp_all add: evaluate_rest and_then_def framed_or_closed_def\<close>)
  qed (use x framed_trans [OF u placid_framed [OF placid_child [of r u am d w sn "ls_state x"]]] in
      \<open>simp_all add: evaluate_rest and_then_def framed_or_closed_def\<close>)
qed (use placid_framed [OF placid_sidecars [of r t am w]] in \<open>simp_all add: evaluate_rest and_then_def framed_or_closed_def\<close>)

lemma visit_out: "rt_out (visit am d x sn r t) = rt_out (stage_of (evaluate am d r (sw_world x r) sn (sw_locks x r) t))"
  by (cases "evaluate am d r (sw_world x r) sn (sw_locks x r) t") (simp_all add: visit_def)

lemma framed_or_closed_visit:
  assumes "framed_or_closed lk r B t (stage_of (evaluate am d r (sw_world x r) sn (sw_locks x r) t))"
  shows "framed_or_closed lk r B t (visit am d x sn r t)"
  using assms
  by (cases "evaluate am d r (sw_world x r) sn (sw_locks x r) t")
    (auto simp: visit_def framed_or_closed_def framed_def reports_def)

lemma visit_shown:
  "framed_or_closed (sw_locks x r) r (lane_shown am d r (sw_world x r) sn (sw_locks x r) (entry_of r t)) t (visit am d x sn r t)"
  by (rule framed_or_closed_visit [OF evaluate_shown])

section \<open>One sweep, whatever was tracked before it\<close>

text \<open>The runs a sweep visits.\<close>

definition swept_runs :: "sweep_input \<Rightarrow> string list" where
  "swept_runs x = (case (sw_snapshot x, sw_entries x) of (Inr _, Inr entries) \<Rightarrow> run_dirs entries | _ \<Rightarrow> [])"

lemma visits_report:
  fixes t :: retirer
  shows "\<exists>bs. rt_out (fold (visit am d x sn) rs t) = rt_out t @ concat bs
     \<and> list_all2 (\<lambda>r b. b = [] \<or> (\<exists>p. closing (sw_locks x r) r p b
          \<and> (distinct rs \<longrightarrow> lane_shown am d r (sw_world x r) sn (sw_locks x r) (entry_of r t) p))) rs bs
     \<and> set (rt_retired (fold (visit am d x sn) rs t)) = set (rt_retired t) \<union> {q. FxMarked q \<in> set (concat bs)}
     \<and> (\<forall>q. q \<notin> set rs \<longrightarrow> entry_of q (fold (visit am d x sn) rs t) = entry_of q t)"
proof (induction rs rule: rev_induct)
  case (snoc r rs)
  let ?t = "fold (visit am d x sn) rs t" and ?u = "visit am d x sn r (fold (visit am d x sn) rs t)"
  let ?P = "\<lambda>rs r b. b = [] \<or> (\<exists>p. closing (sw_locks x r) r p b
          \<and> (distinct rs \<longrightarrow> lane_shown am d r (sw_world x r) sn (sw_locks x r) (entry_of r t) p))"
  obtain bs where bs: "rt_out ?t = rt_out t @ concat bs" "list_all2 (?P rs) rs bs"
      "set (rt_retired ?t) = set (rt_retired t) \<union> {q. FxMarked q \<in> set (concat bs)}"
      "\<forall>q. q \<notin> set rs \<longrightarrow> entry_of q ?t = entry_of q t"
    using snoc.IH by blast
  obtain b where b: "rt_out ?u = rt_out ?t @ b" "?P (rs @ [r]) r b"
      "set (rt_retired ?u) = set (rt_retired ?t) \<union> {q. FxMarked q \<in> set b}" "\<forall>q. q \<noteq> r \<longrightarrow> entry_of q ?u = entry_of q ?t"
  proof (cases "framed r ?t ?u")
    case True
    then show ?thesis using that [of "[]"] by (simp add: framed_def)
  next
    case False
    then obtain p b where p: "lane_shown am d r (sw_world x r) sn (sw_locks x r) (entry_of r ?t) p"
        "\<forall>q. q \<noteq> r \<longrightarrow> entry_of q ?u = entry_of q ?t" "closing (sw_locks x r) r p b" "rt_out ?u = rt_out ?t @ b"
        "set (rt_retired ?u) = set (rt_retired ?t) \<union> {q. FxMarked q \<in> set b}"
      using visit_shown [of x r am d sn ?t] by (auto simp: framed_or_closed_def reports_def)
    have "distinct (rs @ [r]) \<longrightarrow> lane_shown am d r (sw_world x r) sn (sw_locks x r) (entry_of r t) p"
    proof
      assume "distinct (rs @ [r])"
      then have "entry_of r ?t = entry_of r t" using bs(4) by simp
      with p(1) show "lane_shown am d r (sw_world x r) sn (sw_locks x r) (entry_of r t) p" by simp
    qed
    with p show ?thesis using that [of b] by blast
  qed
  have "list_all2 (?P (rs @ [r])) rs bs" by (rule list_all2_mono [OF bs(2)]) auto
  then have "list_all2 (?P (rs @ [r])) (rs @ [r]) (bs @ [b])" using b(2) by (intro list_all2_appendI) simp_all
  then show ?case using bs b by (intro exI [of _ "bs @ [b]"] conjI) auto
qed simp

lemma prune_reports [simp]: "rt_out (prune rs v) = rt_out v" "rt_retired (prune rs v) = rt_retired v"
  by (simp_all add: prune_def)

lemma sweep_reports:
  "\<exists>bs. rt_out (sweep am d x t) = rt_out t @ concat bs
     \<and> list_all2 (\<lambda>r b. b = [] \<or> (\<exists>p. closing (sw_locks x r) r p b
          \<and> (distinct (swept_runs x) \<longrightarrow> (\<exists>sn. sw_snapshot x = Inr sn
               \<and> lane_shown am d r (sw_world x r) sn (sw_locks x r) (entry_of r t) p)))) (swept_runs x) bs
     \<and> set (rt_retired (sweep am d x t)) = set (rt_retired t) \<union> {q. FxMarked q \<in> set (concat bs)}"
proof (cases "\<exists>sn entries. sw_snapshot x = Inr sn \<and> sw_entries x = Inr entries")
  case True
  then obtain sn entries where x: "sw_snapshot x = Inr sn" "sw_entries x = Inr entries" by blast
  then show ?thesis using visits_report [of am d x sn "run_dirs entries" t] by (simp add: sweep_def swept_runs_def) blast
next
  case False
  then show ?thesis
    by (intro exI [of _ "[]"]) (auto simp: sweep_def swept_runs_def split: sum.split)
qed

lemma block_of_close:
  assumes "list_all2 (\<lambda>r b. b = [] \<or> (\<exists>p. closing (L r) r p b \<and> P r p)) rs bs" and "FxBeginClose r p \<in> set (concat bs)"
  shows "r \<in> set rs \<and> P r p"
  using assms by (induction rule: list_all2_induct) (auto simp: closing_begins)

section \<open>The clock of a lane over any sequence of sweeps\<close>

definition lane_ok :: "ambient \<Rightarrow> retire_options \<Rightarrow> string \<Rightarrow> sweep_input list \<Rightarrow> lane_entry \<Rightarrow> bool" where
  "lane_ok am d r xs e \<longleftrightarrow> terminal_entry e \<or> clock_backed am d r xs e"

definition visited ::
  "ambient \<Rightarrow> retire_options \<Rightarrow> string \<Rightarrow> sweep_input list \<Rightarrow> sweep_input \<Rightarrow> retirer \<Rightarrow> retirer \<Rightarrow> bool" where
  "visited am d r xs x t u \<longleftrightarrow> lane_ok am d r (xs @ [x]) (entry_of r u)
     \<and> framed_or_closed (sw_locks x r) r (\<lambda>p. grace_shown am d r (xs @ [x])) t u"

lemma undisturbed_backed: "undisturbed r t u \<Longrightarrow> clock_backed am d r xs (entry_of r t) \<Longrightarrow> clock_backed am d r xs (entry_of r u)"
  using backed_cong stopped_backed by (metis undisturbed_def)

lemma placid_visited: "placid r t u \<Longrightarrow> clock_backed am d r (xs @ [x]) (entry_of r u) \<Longrightarrow> visited am d r xs x t u"
  by (simp add: visited_def lane_ok_def framed_or_closed_def placid_framed)

lemma stopped_visited: "placid r t u \<Longrightarrow> stopped r u \<Longrightarrow> visited am d r xs x t u"
  by (rule placid_visited [OF _ stopped_backed])

text \<open>Observing at \<open>x\<close> keeps the clock backed, and it was started when it was not running.\<close>

lemma observe_backed:
  assumes "clock_backed am d r ws e" and "ws = xs \<or> ws = xs @ [x]" and "looked am d x r" and "idle_reading am d x r = Some (q, c)"
  shows "clock_backed am d r (xs @ [x]) (observe_clock q c (sweep_time r x) e)"
    and "\<exists>since. lane_clock_of (observe_clock q c (sweep_time r x) e) = (Some q, Some c, Some since)"
proof -
  show "\<exists>since. lane_clock_of (observe_clock q c (sweep_time r x) e) = (Some q, Some c, Some since)"
    by (auto simp: observe_clock_def lane_clock_of_def)
  have start: "clock_backed am d r (xs @ [x]) (e\<lparr>le_seq := Some q, le_screen := Some c, le_sinceMs := Some (sweep_time r x)\<rparr>)"
    unfolding clock_backed_def lane_clock_of_def steady_def using assms(3,4)
    by (intro disjI2 exI [of _ xs] exI [of _ "[x]"]) simp
  show "clock_backed am d r (xs @ [x]) (observe_clock q c (sweep_time r x) e)"
  proof (cases "le_seq e \<noteq> Some q \<or> le_screen e \<noteq> Some c \<or> le_sinceMs e = None")
    case True
    with start show ?thesis by (simp add: observe_clock_def)
  next
    case False
    then have same: "observe_clock q c (sweep_time r x) e = e"
      by (simp add: observe_clock_def)
    have "clock_backed am d r (xs @ [x]) e" if "ws = xs"
      using assms(1) False that assms(4) by (intro backed_extend) (auto simp: lane_clock_of_def split: option.splits)
    then show ?thesis
      using same assms(1,2) by auto
  qed
qed

lemma grace_from_clock:
  assumes "clock_backed am d r (xs @ [x]) e" and "lane_clock_of e = (Some q, Some c, Some since)"
    and "looked am d x r" and "ro_graceMs d \<le> sweep_time r x - since"
  shows "grace_shown am d r (xs @ [x])"
proof -
  obtain pre ys q c where ys: "xs @ [x] = pre @ ys" "steady am d r (q, c) ys" "since = sweep_time r (hd ys)"
    using assms(1,2) by (auto simp: clock_backed_def)
  then have "last ys = x"
    by (metis last_appendR last_snoc steady_def)
  with ys assms(3,4) show ?thesis
    unfolding grace_shown_def by blast
qed

text \<open>From the clock on, for a lane the sweep looked at.\<close>

lemma clock_visited:
  assumes "clock_backed am d r ws (entry_of r t)" and "ws = xs \<or> ws = xs @ [x]"
    and "looked am d x r" and "idle_reading am d x r = records_reading am (sw_world x r) recs"
  shows "visited am d r xs x t (stage_of (and_then (lane_clock am d r (sw_world x r) recs t)
           (\<lambda>t ms. lane_rest am d r (sw_world x r) sn (sw_locks x r) y i recs ms t)))"
proof (cases "idle_reading am d x r")
  case None
  then show ?thesis
    using clock_stage [where am = am and w = "sw_world x r" and records = recs and d = d and r = r and t = t] assms(4) by (auto simp: and_then_def intro: stopped_visited)
next
  case (Some reading)
  obtain q c where reading: "reading = (q, c)"
    by (cases reading)
  let ?C = "lane_clock am d r (sw_world x r) recs t"
  let ?e = "observe_clock q c (sweep_time r x) (entry_of r t)"
  have rr: "records_reading am (sw_world x r) recs = Some (q, c)"
    using assms(4) Some reading by simp
  have stage: "framed r t (stage_of ?C)" "lane_clock_of (entry_of r (stage_of ?C)) = lane_clock_of ?e"
      "?C = Continue u ms \<Longrightarrow> ro_graceMs d \<le> wo_now (sw_world x r) - the (le_sinceMs (entry_of r u))" for u ms
    using clock_stage [where am = am and w = "sw_world x r" and records = recs and d = d and r = r and t = t]
    by (simp_all add: rr sweep_time_def)
  obtain since where clock: "lane_clock_of ?e = (Some q, Some c, Some since)"
    using observe_backed(2) [OF assms(1-3)] Some reading by blast
  have backed: "clock_backed am d r (xs @ [x]) (entry_of r (stage_of ?C))"
    using observe_backed(1) [OF assms(1-3)] Some reading stage(2) backed_cong by blast
  show ?thesis
  proof (cases ?C)
    case (Continue u ms)
    let ?R = "lane_rest am d r (sw_world x r) sn (sw_locks x r) y i recs ms u"
    have u: "lane_clock_of (entry_of r u) = (Some q, Some c, Some since)" "clock_backed am d r (xs @ [x]) (entry_of r u)"
      using stage(2) clock backed Continue by simp_all
    then have "grace_shown am d r (xs @ [x])"
      using stage(3) [OF Continue] assms(3) by (intro grace_from_clock) (auto simp: lane_clock_of_def sweep_time_def)
    then have "framed_or_closed (sw_locks x r) r (\<lambda>p. grace_shown am d r (xs @ [x])) t (stage_of ?R)"
      using stage(1) Continue by (intro closed_framed [where p = "si_paneId i", OF _ rest_effects [OF u(1)]]) simp_all
    moreover have "clock_backed am d r (xs @ [x]) (entry_of r (stage_of ?R))"
      by (rule undisturbed_backed [OF closed_undisturbed [OF rest_effects [OF u(1)]] u(2)])
    ultimately show ?thesis
      using Continue by (simp add: visited_def lane_ok_def and_then_def)
  qed (use stage(1) backed in \<open>simp_all add: visited_def lane_ok_def framed_or_closed_def and_then_def\<close>)
qed

lemma visited_after: "placid r t u \<Longrightarrow> visited am d r xs x u v \<Longrightarrow> visited am d r xs x t v"
  by (auto simp: visited_def intro: framed_or_closed_before [OF placid_framed])

lemma blind_visited:
  assumes "clock_backed am d r ws (entry_of r t)" and "ws = xs \<or> ws = xs @ [x]" and "\<not> looked am d x r" and "placid r t u"
  shows "visited am d r xs x t u"
proof -
  have "clock_backed am d r (xs @ [x]) (entry_of r t)"
    using assms(1-3) backed_extend by blast
  then show ?thesis
    using assms(4) placid_visited placid_backed by blast
qed

lemma evaluate_visited:
  assumes "sw_snapshot x = Inr sn" and "sw_entries x = Inr entries" and "r \<in> set (run_dirs entries)"
    and ws: "lane_ok am d r ws (entry_of r t)" "ws = xs \<or> ws = xs @ [x]"
  shows "visited am d r xs x t (stage_of (evaluate am d r (sw_world x r) sn (sw_locks x r) t))"
proof (cases "terminal_entry (entry_of r t)")
  case True
  then have "map_of (rt_ledger t) r \<noteq> None"
    by (auto simp: entry_of_def terminal_entry_def new_entry_def split: option.split_asm)
  with True show ?thesis
    by (auto simp: evaluate_def lane_proof_def lane_sidecars_def and_then_def entry_of_def visited_def lane_ok_def framed_or_closed_def)
next
  case False
  then have backed: "clock_backed am d r ws (entry_of r t)"
    using ws(1) by (simp add: lane_ok_def)
  let ?S = "lane_sidecars am r (sw_world x r)"
  note uniform = sidecars_uniform [OF False, of am "sw_world x r"]
  show ?thesis
  proof (cases "?S createLaneRetirer")
    case (Continue u0 y)
    then obtain u where u: "?S t = Continue u y"
      using uniform by auto
    have q: "placid r t u" and backed_u: "clock_backed am d r ws (entry_of r u)"
      using placid_sidecars [of r t am "sw_world x r"] placid_backed [OF _ backed] u by simp_all
    have stage: "child_stage am d x r = Some (lane_child am d r (sw_world x r) sn (ls_state y) u0)"
      using assms(1-3) Continue by (simp add: child_stage_def)
    show ?thesis
      using child_uniform [of am d r "sw_world x r" sn "ls_state y"]
    proof (elim disjE exE)
      fix c assume "\<forall>t. lane_child am d r (sw_world x r) sn (ls_state y) t = Thrown t c"
      then show ?thesis
        using stage u q backed ws(2) by (simp add: evaluate_rest and_then_def looked_def blind_visited)
    next
      assume returned: "\<forall>t. \<exists>v. lane_child am d r (sw_world x r) sn (ls_state y) t = Returned v \<and> stopped r v"
      then obtain v where "lane_child am d r (sw_world x r) sn (ls_state y) u = Returned v" "stopped r v"
        by blast
      then show ?thesis
        using u placid_trans [OF q] placid_child [of r u am d "sw_world x r" sn "ls_state y"]
        by (simp add: evaluate_rest and_then_def stopped_visited)
    next
      fix a assume on: "\<forall>t. lane_child am d r (sw_world x r) sn (ls_state y) t = Continue t a"
      obtain i recs where a: "a = (i, recs)"
        by (cases a)
      have "visited am d r xs x u (stage_of (and_then (lane_clock am d r (sw_world x r) recs u)
           (\<lambda>t ms. lane_rest am d r (sw_world x r) sn (sw_locks x r) y i recs ms t)))"
        using stage on a backed_u ws(2) by (intro clock_visited) (auto simp: looked_def idle_reading_def)
      then show ?thesis
        using u on a visited_after [OF q] by (simp add: evaluate_rest and_then_def)
    qed
  qed (use uniform placid_sidecars [of r t am "sw_world x r"] assms(1-3) backed ws(2) in
       \<open>auto simp: evaluate_rest and_then_def child_stage_def looked_def intro!: blind_visited\<close>)
qed

lemma visit_visited:
  assumes "sw_snapshot x = Inr sn" and "sw_entries x = Inr entries" and "r \<in> set (run_dirs entries)"
    and "lane_ok am d r ws (entry_of r t)" "ws = xs \<or> ws = xs @ [x]"
  shows "visited am d r xs x t (visit am d x sn r t)"
proof -
  have v: "visited am d r xs x t (stage_of (evaluate am d r (sw_world x r) sn (sw_locks x r) t))"
    by (rule evaluate_visited [OF assms])
  have "entry_of r (visit am d x sn r t) = entry_of r (stage_of (evaluate am d r (sw_world x r) sn (sw_locks x r) t))"
    by (cases "evaluate am d r (sw_world x r) sn (sw_locks x r) t") (simp_all add: visit_def)
  with v show ?thesis by (simp add: visited_def framed_or_closed_visit)
qed

text \<open>The closes begun since \<open>base\<close> each end a grace period shown at the sweep \<open>x\<close>.\<close>

definition graced ::
  "ambient \<Rightarrow> retire_options \<Rightarrow> sweep_input list \<Rightarrow> retirer \<Rightarrow> retirer \<Rightarrow> bool" where
  "graced am d ws base u \<longleftrightarrow> (\<exists>new. rt_out u = rt_out base @ new
     \<and> (\<forall>r p. FxBeginClose r p \<in> set new \<longrightarrow> grace_shown am d r ws))"

lemma visited_graced:
  assumes "graced am d (xs @ [x]) base t" and "visited am d r xs x t u"
  shows "graced am d (xs @ [x]) base u"
proof (cases "framed r t u")
  case True
  then show ?thesis using assms(1) by (simp add: graced_def framed_def)
next
  case False
  then obtain p b where "grace_shown am d r (xs @ [x])" "closing (sw_locks x r) r p b" "rt_out u = rt_out t @ b"
    using assms(2) by (auto simp: visited_def framed_or_closed_def reports_def)
  moreover obtain new where "rt_out t = rt_out base @ new" "\<forall>r p. FxBeginClose r p \<in> set new \<longrightarrow> grace_shown am d r (xs @ [x])"
    using assms(1) by (auto simp: graced_def)
  ultimately show ?thesis unfolding graced_def by (intro exI [of _ "new @ b"]) (auto simp: closing_begins)
qed

lemma fold_visits:
  assumes "sw_snapshot x = Inr sn" and "sw_entries x = Inr entries" and "set rs \<subseteq> set (run_dirs entries)"
    and "\<forall>r. lane_ok am d r xs (entry_of r t)"
  shows "graced am d (xs @ [x]) t (fold (visit am d x sn) rs t)
    \<and> (\<forall>r. lane_ok am d r (xs @ [x]) (entry_of r (fold (visit am d x sn) rs t)) \<or>
         (r \<notin> set rs \<and> lane_ok am d r xs (entry_of r (fold (visit am d x sn) rs t))))"
  using assms(3)
proof (induction rs rule: rev_induct)
  case Nil
  show ?case using assms(4) by (simp add: graced_def)
next
  case (snoc r rs)
  let ?t = "fold (visit am d x sn) rs t"
  have IH: "graced am d (xs @ [x]) t ?t"
      "\<And>q. lane_ok am d q (xs @ [x]) (entry_of q ?t) \<or> (q \<notin> set rs \<and> lane_ok am d q xs (entry_of q ?t))"
    using snoc by auto
  have v: "visited am d r xs x ?t (visit am d x sn r ?t)"
    using IH(2) [of r] snoc.prems visit_visited [OF assms(1,2)] by auto
  have others: "q \<noteq> r \<Longrightarrow> entry_of q (visit am d x sn r ?t) = entry_of q ?t" for q
    using v by (auto simp: visited_def framed_or_closed_def framed_def)
  have "lane_ok am d q (xs @ [x]) (entry_of q (visit am d x sn r ?t)) \<or>
      (q \<notin> set (rs @ [r]) \<and> lane_ok am d q xs (entry_of q (visit am d x sn r ?t)))" for q
  proof (cases "q = r")
    case True
    then show ?thesis using v by (simp add: visited_def)
  next
    case False
    then show ?thesis using IH(2) [of q] others by auto
  qed
  then show ?case
    using visited_graced [OF IH(1) v] by simp
qed

lemma map_of_filter_key: "map_of (filter (\<lambda>(k, _). P k) xs) k = (if P k then map_of xs k else None)"
  by (induction xs) auto

lemma entry_prune: "entry_of r (prune rs t) = (if r \<in> set rs then entry_of r t else new_entry)"
  by (simp add: prune_def entry_of_def map_of_filter_key)

lemma new_entry_ok: "lane_ok am d r xs new_entry"
  by (simp add: lane_ok_def clock_backed_def)

lemma sweep_ok:
  assumes "\<forall>r. lane_ok am d r xs (entry_of r t)"
  shows "graced am d (xs @ [x]) t (sweep am d x t) \<and> (\<forall>r. lane_ok am d r (xs @ [x]) (entry_of r (sweep am d x t)))"
proof (cases "\<exists>sn entries. sw_snapshot x = Inr sn \<and> sw_entries x = Inr entries")
  case True
  then obtain sn entries where x: "sw_snapshot x = Inr sn" "sw_entries x = Inr entries"
    by blast
  let ?u = "fold (visit am d x sn) (run_dirs entries) t"
  have "graced am d (xs @ [x]) t ?u \<and> (\<forall>r. lane_ok am d r (xs @ [x]) (entry_of r ?u) \<or>
      (r \<notin> set (run_dirs entries) \<and> lane_ok am d r xs (entry_of r ?u)))"
    by (rule fold_visits [OF x _ assms]) simp
  then have "graced am d (xs @ [x]) t (prune (run_dirs entries) ?u)
      \<and> (\<forall>r. lane_ok am d r (xs @ [x]) (entry_of r (prune (run_dirs entries) ?u)))"
    by (auto simp: graced_def entry_prune new_entry_ok)
  with x show ?thesis by (simp add: sweep_def)
next
  case False
  then have "\<not> looked am d x r" for r
    by (auto simp: looked_def child_stage_def split: sum.splits option.splits)
  then have "lane_ok am d r (xs @ [x]) (entry_of r t)" for r
    using assms backed_extend unfolding lane_ok_def by blast
  with False show ?thesis
    by (auto simp: sweep_def graced_def entry_prune new_entry_ok split: sum.splits)
qed

lemma all_sweeps_ok: "\<forall>r. lane_ok am d r xs (entry_of r (fold (sweep am d) xs createLaneRetirer))"
proof (induction xs rule: rev_induct)
  case Nil
  show ?case by (simp add: new_entry_ok createLaneRetirer_def entry_of_def)
next
  case (snoc x xs)
  then show ?case using sweep_ok [OF snoc.IH, of x] by simp
qed

lemma marked_history:
  "retiredByDaemon r (fold (sweep am d) xs createLaneRetirer)
     \<longleftrightarrow> FxMarked r \<in> set (rt_out (fold (sweep am d) xs createLaneRetirer))"
proof (induction xs rule: rev_induct)
  case (snoc x xs)
  let ?T = "fold (sweep am d) xs createLaneRetirer"
  obtain bs where "rt_out (sweep am d x ?T) = rt_out ?T @ concat bs"
      "set (rt_retired (sweep am d x ?T)) = set (rt_retired ?T) \<union> {q. FxMarked q \<in> set (concat bs)}"
    using sweep_reports [of am d x ?T] by blast
  with snoc show ?case by (simp add: retiredByDaemon_def)
qed (simp add: retiredByDaemon_def createLaneRetirer_def)

section \<open>What a close rests on\<close>

text \<open>
  C9. Every close ends a full grace period of proven inactivity, a retry no less than a first attempt:
  whenever the sweep after any history begins the close of a run's pane, there is a stretch of sweeps
  whose last is that very sweep, at least the grace period long by the clock; its first and its last sweep
  looked at the run's child, and every one of it that looked at the child found it idle or done with the
  same change counter and the same screen.
\<close>

theorem close_needs_unbroken_grace:
  assumes "T = fold (sweep am d) xs createLaneRetirer" and "rt_out (sweep am d x T) = rt_out T @ new"
    and "FxBeginClose r p \<in> set new"
  shows "\<exists>pre ys reading. xs @ [x] = pre @ ys \<and> ys \<noteq> [] \<and> last ys = x \<and> looked am d (hd ys) r \<and> looked am d x r
     \<and> (\<forall>y \<in> set ys. looked am d y r \<longrightarrow> idle_reading am d y r = Some reading)
     \<and> ro_graceMs d \<le> sweep_time r x - sweep_time r (hd ys)"
proof -
  have "graced am d (xs @ [x]) T (sweep am d x T)" using sweep_ok [OF all_sweeps_ok, of am d xs x] assms(1) by simp
  then have "grace_shown am d r (xs @ [x])" using assms(2,3) by (auto simp: graced_def)
  then obtain pre ys q c where ys: "xs @ [x] = pre @ ys" "steady am d r (q, c) ys" "looked am d (last ys) r"
      "ro_graceMs d \<le> sweep_time r (last ys) - sweep_time r (hd ys)"
    unfolding grace_shown_def by blast
  then have "last ys = x" unfolding steady_def by (metis last_appendR last_snoc)
  with ys show ?thesis
    unfolding steady_def by (intro exI [of _ pre] exI [of _ ys] exI [of _ "(q, c)"]) simp
qed

text \<open>
  C8. Every close, first or retried, whatever was tracked before it, rests on two proofs of the sweep that
  begins it. The sweep itself found retirement enabled and the lane not settled before; the run finished,
  unmarked and not kept; the child matched in its snapshot and idle, with the launch tokens of its session,
  no opt-out and no follow-up in its trace; the child a worker that manages nothing and has no mail, and
  its owner outside the close. Then, both locks held, the world under them shows the same run of exactly
  this child still finished and unmarked, the recorded identity in the pane and the agent read again, the
  tokens of the launch, the same counter and screen, no opt-out, the same vetoes absent, a valid lease and
  no follow-up. Both times a focused pane is spared unless it has been spared \<open>ro_maxFocusDefers\<close> times.
\<close>

theorem close_needs_proof_under_locks:
  assumes "rt_out (sweep am d x T) = rt_out T @ new" and "FxBeginClose r p \<in> set new"
    and "\<And>entries. sw_entries x = Inr entries \<Longrightarrow> distinct (map fst entries)"
  shows "\<exists>sn i key pane reading. sw_snapshot x = Inr sn \<and> si_paneId i = p \<and> ro_enabled d \<and> \<not> terminal_entry (entry_of r T)
     \<and> shown_finished am d r (sw_world x r) sn i key pane reading
     \<and> (jget ''focused'' pane = JBool True \<longrightarrow> ro_maxFocusDefers d \<le> le_focusDefers (entry_of r T))
     \<and> lk_pane (sw_locks x r) \<and> lk_run (sw_locks x r)
     \<and> reproved am d r (lk_world (sw_locks x r)) i key reading
         (if jget ''focused'' pane = JBool True then le_focusDefers (entry_of r T) else 0)"
proof -
  obtain bs where bs: "rt_out (sweep am d x T) = rt_out T @ concat bs"
    "list_all2 (\<lambda>r b. b = [] \<or> (\<exists>p. closing (sw_locks x r) r p b
          \<and> (distinct (swept_runs x) \<longrightarrow> (\<exists>sn. sw_snapshot x = Inr sn
               \<and> lane_shown am d r (sw_world x r) sn (sw_locks x r) (entry_of r T) p)))) (swept_runs x) bs"
    using sweep_reports [of am d x T] by blast
  have "distinct (swept_runs x)"
    using assms(3) by (auto simp: swept_runs_def run_dirs_def distinct_map_filter_ne split: sum.splits)
  moreover have "FxBeginClose r p \<in> set (concat bs)" using assms(1,2) bs(1) by simp
  ultimately obtain sn where "sw_snapshot x = Inr sn" "lane_shown am d r (sw_world x r) sn (sw_locks x r) (entry_of r T) p"
    using block_of_close [OF bs(2)] by blast
  then show ?thesis unfolding lane_shown_def by blast
qed

text \<open>
  C10. The marker stands for proven closes alone and comes first. Whatever was tracked, a sweep reports for
  each run it visits either nothing or one close, and judged against what that close met: where the tool
  answered that it closed the pane and the snapshot read back after it has no such pane, the close is
  begun, the run marked, the close finished as confirmed, and the run's one event written; in every other
  case, a pane closed by another actor included, it is begun and finished as not confirmed, with no marker
  and no event. \<open>retiredByDaemon\<close> then holds for the runs it held for and those marked, no others.
\<close>

theorem marker_only_for_confirmed_close:
  "(\<exists>bs. rt_out (sweep am d x T) = rt_out T @ concat bs
     \<and> list_all2 (\<lambda>r b. b = [] \<or> (\<exists>p.
           if lk_mutation (sw_locks x r) = MutationDone
              \<and> (\<exists>after. lk_readback (sw_locks x r) = Some after \<and> (\<forall>v \<in> set (sn_panes after). jget ''pane_id'' v \<noteq> JStr p))
           then \<exists>ev c. b = [FxBeginClose r p, FxMarked r, FxFinishClose p True, FxLaneRetired ev]
                  \<and> ri_kind ev = ''lane_retired'' \<and> ri_runId ev = r \<and> ri_child ev = Some c \<and> mc_paneId c = p
           else b = [FxBeginClose r p, FxFinishClose p False])) (swept_runs x) bs
     \<and> (\<forall>r. retiredByDaemon r (sweep am d x T) \<longleftrightarrow> retiredByDaemon r T \<or> FxMarked r \<in> set (concat bs)))
   \<and> (retiredByDaemon r (fold (sweep am d) xs createLaneRetirer)
      \<longleftrightarrow> FxMarked r \<in> set (rt_out (fold (sweep am d) xs createLaneRetirer)))"
proof
  show "retiredByDaemon r (fold (sweep am d) xs createLaneRetirer)
      \<longleftrightarrow> FxMarked r \<in> set (rt_out (fold (sweep am d) xs createLaneRetirer))" by (rule marked_history)
  obtain bs where bs: "rt_out (sweep am d x T) = rt_out T @ concat bs"
    "list_all2 (\<lambda>r b. b = [] \<or> (\<exists>p. closing (sw_locks x r) r p b
          \<and> (distinct (swept_runs x) \<longrightarrow> (\<exists>sn. sw_snapshot x = Inr sn
               \<and> lane_shown am d r (sw_world x r) sn (sw_locks x r) (entry_of r T) p)))) (swept_runs x) bs"
    "set (rt_retired (sweep am d x T)) = set (rt_retired T) \<union> {q. FxMarked q \<in> set (concat bs)}"
    using sweep_reports [of am d x T] by blast
  have blocks: "list_all2 (\<lambda>r b. b = [] \<or> (\<exists>p. closing (sw_locks x r) r p b)) (swept_runs x) bs"
    by (rule list_all2_mono [OF bs(2)]) blast
  have marked: "\<forall>r. retiredByDaemon r (sweep am d x T) \<longleftrightarrow> retiredByDaemon r T \<or> FxMarked r \<in> set (concat bs)"
    using bs(3) by (simp add: retiredByDaemon_def)
  show "\<exists>bs. rt_out (sweep am d x T) = rt_out T @ concat bs
     \<and> list_all2 (\<lambda>r b. b = [] \<or> (\<exists>p.
           if lk_mutation (sw_locks x r) = MutationDone
              \<and> (\<exists>after. lk_readback (sw_locks x r) = Some after \<and> (\<forall>v \<in> set (sn_panes after). jget ''pane_id'' v \<noteq> JStr p))
           then \<exists>ev c. b = [FxBeginClose r p, FxMarked r, FxFinishClose p True, FxLaneRetired ev]
                  \<and> ri_kind ev = ''lane_retired'' \<and> ri_runId ev = r \<and> ri_child ev = Some c \<and> mc_paneId c = p
           else b = [FxBeginClose r p, FxFinishClose p False])) (swept_runs x) bs
     \<and> (\<forall>r. retiredByDaemon r (sweep am d x T) \<longleftrightarrow> retiredByDaemon r T \<or> FxMarked r \<in> set (concat bs))"
    by (intro exI [of _ bs] conjI bs(1) marked) (rule blocks [unfolded closing_def close_confirmed_def])
qed

section \<open>A lane that is retired\<close>

definition lane_state_example :: jsval where
  "lane_state_example = JObj [(''v'', JNum 2), (''runId'', JStr example_artifact_run), (''endpoint'', JStr ''e''),
     (''manager'', JObj [(''paneId'', JStr ''m'')]), (''lifecycle'', JObj [(''state'', JStr ''handed_off'')]), (''repair'', JObj []),
     (''child'', JObj [(''agentName'', JStr ''worker''), (''agentKind'', JStr ''pi''), (''operatingPointId'', JStr ''op''),
        (''specLabel'', JStr ''spec''), (''fallbackCandidates'', JArr []), (''paneId'', JStr ''w''), (''terminalId'', JStr ''t2''), (''agentId'', JNull)]),
     (''nativeSession'', session_value example_session),
     (''artifact'', JObj [(''path'', JStr ''/h''), (''sha256'', JStr zeros), (''mtimeMs'', JNum 5),
        (''traceHistory'', JObj [(''kind'', JStr ''pi-jsonl''), (''session'', session_value example_session),
           (''position'', JObj [(''path'', JStr ''/p''), (''offset'', JNum 0), (''anchor'', JStr zeros)])])])]"

definition lane_fields :: "(string \<times> jsval) list" where
  "lane_fields = [(''pane_id'', JStr ''w''), (''terminal_id'', JStr ''t2''), (''agent'', JStr ''pi''),
     (''agent_session'', session_value example_session), (''agent_status'', JStr ''idle''), (''revision'', JNum 1), (''state_change_seq'', JNum 3),
     (''tokens'', JObj [(''identity_provenance'', JStr ''launched''), (''identity_session'', JStr ''s1'')])]"

definition lane_pane :: jsval where
  "lane_pane = JObj (lane_fields @ [(''tab_id'', JStr ''t''), (''workspace_id'', JStr ''k''), (''focused'', JBool False), (''agent_name'', JStr ''worker'')])"

definition lane_agent :: jsval where
  "lane_agent = JObj (lane_fields @ [(''name'', JStr ''worker'')])"

definition lane_panes :: "jsval list \<Rightarrow> snapshot" where
  "lane_panes panes = \<lparr>sn_version = ''1'', sn_protocol = 1, sn_workspaces = [JObj [(''workspace_id'', JStr ''k'')]],
     sn_tabs = [JObj [(''tab_id'', JStr ''t''), (''workspace_id'', JStr ''k'')]],
     sn_panes = JObj [(''pane_id'', JStr ''m''), (''tab_id'', JStr ''t''), (''workspace_id'', JStr ''k'')] # panes, sn_agents = [lane_agent]\<rparr>"

definition lane_artifact :: artifact_io where
  "lane_artifact = (let leaf = \<lparr>lf_file = True, lf_symlink = False, lf_owned = True, lf_mode = 0, lf_nlink = 1, lf_size = 200, lf_mtimeMs = 5\<rparr> in
     \<lparr>ai_namespace = True, ai_directory = True, ai_lstat = FsOk leaf, ai_open = FsOk (), ai_stat = Some leaf,
      ai_read = Some (200, contract_document example_artifact_run example_sections)\<rparr>)"

definition lane_world_example :: "int \<Rightarrow> lane_world" where
  "lane_world_example now = \<lparr>wo_now = now,
     wo_store = \<lparr>hs_endpoint = ''e'', hs_runs = [(example_artifact_run,
        \<lparr>rd_state = Some \<lparr>sc_value = Some lane_state_example, sc_bytes = 900, sc_trusted = True\<rparr>, rd_provenance = None\<rparr>)]\<rparr>,
     wo_io = calm_handoff,
     wo_artifact = lane_artifact, wo_readFault = None, wo_intents = empty_store,
     wo_intentIo = calm_io,
     wo_mail = \<lparr>ms_namespace = True, ms_root = Some True, ms_boxes = [], ms_status = None, ms_log = []\<rparr>,
     wo_mailIo = steady_io,
     wo_snapshot = Inr (lane_panes [lane_pane]), wo_paneGet = Inr (JObj [(''pane'', lane_pane)]), wo_agentGet = Inr (JObj [(''agent'', lane_agent)]),
     wo_screen = ScreenText ''done'', wo_scan = (\<lambda>_ _ _ _ _. TsNone), wo_composer = None, wo_lease = True\<rparr>"

definition lane_sweep :: "int \<Rightarrow> sweep_input" where
  "lane_sweep now = \<lparr>sw_snapshot = Inr (lane_panes [lane_pane]), sw_entries = Inr [(example_artifact_run, True)],
     sw_world = (\<lambda>_. lane_world_example now),
     sw_locks = (\<lambda>_. \<lparr>lk_pane = True, lk_run = True, lk_world = lane_world_example now, lk_mutation = MutationDone,
        lk_readback = Some (lane_panes []), lk_jobId = None, lk_event = Inr (Persisted ''x'')\<rparr>)\<rparr>"

definition lane_options :: retire_options where
  "lane_options = \<lparr>ro_enabled = True, ro_graceMs = 10, ro_maxFocusDefers = 60, ro_maxAttempts = 3, ro_dir = ''/h'', ro_endpoint = ''e''\<rparr>"

definition lane_identity :: sup_identity where
  "lane_identity = \<lparr>si_paneId = ''w'', si_terminalId = ''t2'', si_agentName = ''worker'', si_agentKind = ''pi'', si_session = example_session\<rparr>"

abbreviation lane_run :: allocation where
  "lane_run \<equiv> deriveRun ''/h'' ''e'' example_artifact_run"

lemma lane_state_facts:
  "valid_state ''e'' example_artifact_run lane_state_example" "run_id_shape example_artifact_run"
  "st_lifecycle lane_state_example = ''handed_off''" "st_child ''terminalId'' lane_state_example = JStr ''t2''"
  "st_native lane_state_example = Some example_session" "cycle_mark lane_state_example = None"
  "still_recorded lane_identity lane_state_example" "managerSessionKey hex_ambient example_session = Inr zeros"
  by code_simp+

lemma lane_pane_facts:
  "classifyChild hex_ambient (lane_panes [lane_pane]) lane_state_example = ChildMatched lane_identity"
  "snapshotIdentityRecords (lane_panes [lane_pane]) ''w'' = Inr [lane_pane, lane_agent]"
  "requirePromptTargetIdentity [lane_pane, lane_agent] ''w''
     = Inr \<lparr>pi_paneId = ''w'', pi_terminalId = ''t2'', pi_agentName = ''worker'', pi_agentKind = ''pi'', pi_agentSession = example_session\<rparr>"
  "lifecycleOf lane_pane lane_agent = Inr (''idle'', 3)" "launch_tokens lane_identity [lane_pane, lane_agent]"
  "mergedToken [lane_pane, lane_agent] ''retention'' = EvAbsent"
  "mergedToken [lane_pane, lane_agent] ''identity_provenance'' = EvValue ''launched''"
  "mergedToken [lane_pane, lane_agent] ''identity_session'' = EvValue ''s1''" "tokenValue ''s1'' = Some ''s1''"
  "classifyCaller (lane_panes [lane_pane]) ''w''
     = Inr \<lparr>cp_paneId = ''w'', cp_scope = ScopeWorker, cp_basis = BaLaunchedLeaf, cp_binding = Some (Unbound ''actor_missing'')\<rparr>"
  "paneFrom (JObj [(''pane'', lane_pane)]) ''w'' = Inr lane_pane" "agentFrom (JObj [(''agent'', lane_agent)]) = Inr lane_agent"
  "id_of ''tab_id'' lane_pane = ''t''" "jget ''focused'' lane_pane = JBool False"
  by code_simp+

lemma lane_vetoes:
  "vetoes hex_ambient (lane_world_example now) (lane_panes [lane_pane]) ''w'' ''t'' zeros lane_state_example None = None"
  by code_simp

lemma lane_artifact_read:
  "parseHandoffArtifact (contract_document example_artifact_run example_sections) (run_marker example_artifact_run)
     = Inr \<lparr>hd_runId = example_artifact_run, hd_status = ''done'', hd_sections = example_sections\<rparr>"
  "run_paths_consistent lane_run" "al_marker lane_run = run_marker example_artifact_run"
  by code_simp+

lemma lane_world_reads [simp]:
  "open_state (lane_world_example now) example_artifact_run = Inr lane_state_example"
  "readHandoffState (wo_io (lane_world_example now)) example_artifact_run (wo_store (lane_world_example now)) = Inr lane_state_example"
  "readProvenance (lane_world_example now) example_artifact_run = Inr None"
  "screenDigest hex_ambient (lane_world_example now) = Inr zeros" "wo_now (lane_world_example now) = now"
  "wo_paneGet (lane_world_example now) = Inr (JObj [(''pane'', lane_pane)])" "wo_agentGet (lane_world_example now) = Inr (JObj [(''agent'', lane_agent)])"
  "wo_snapshot (lane_world_example now) = Inr (lane_panes [lane_pane])" "wo_lease (lane_world_example now)"
  by (simp_all add: lane_world_example_def open_state_def openIn_def readHandoffState_def readProvenance_def readHandoffProvenance_def
      read_sidecar_def run_of_def calm_handoff_def screenDigest_def hex_ambient_def lane_state_facts HANDOFF_MAX_BYTES_def)

lemma lane_follow_up [simp]: "traceVeto hex_ambient (lane_world_example now) lane_run lane_state_example pre = Inr None"
proof -
  have kind: "st_child ''agentKind'' lane_state_example = JStr ''pi''" "map_of HANDOFF_TRACE_KINDS ''pi'' = Some ''pi-jsonl''"
      "jget ''mtimeMs'' (jget ''artifact'' lane_state_example) = JNum 5" "jget ''sha256'' (jget ''artifact'' lane_state_example) = JStr zeros"
      "jget ''traceHistory'' (jget ''artifact'' lane_state_example) \<noteq> JUndef"
      "session_of (jget ''session'' (jget ''traceHistory'' (jget ''artifact'' lane_state_example))) = example_session"
    by code_simp+
  have read: "\<exists>a. readHandoffArtifact hex_ambient lane_run (wo_artifact (lane_world_example now)) = Inr a \<and> ha_sha256 a = zeros"
    using lane_artifact_read
    by (simp add: readHandoffArtifact_def read_leaf_def lane_world_example_def lane_artifact_def leaf_trusted_def HANDOFF_MAX_BYTES_def
        hex_ambient_def Let_def)
  show ?thesis
    using read by (auto simp: traceVeto_def followUpVeto_def kind lane_state_facts(5) scan_reason_def lane_world_example_def Let_def)
qed

lemma lane_fields_of [simp]:
  "si_paneId lane_identity = ''w''" "idle_status ''idle''" "ro_dir lane_options = ''/h''" "ro_endpoint lane_options = ''e''" "ro_enabled lane_options"
  "ro_graceMs lane_options = 10" "\<not> task_keep None"
  "still_live lane_identity \<lparr>pi_paneId = ''w'', pi_terminalId = ''t2'', pi_agentName = ''worker'', pi_agentKind = ''pi'', pi_agentSession = example_session\<rparr>"
  by (simp_all add: lane_identity_def idle_status_def lane_options_def still_live_def task_keep_def)

abbreviation lane_side :: lane_sidecar where
  "lane_side \<equiv> \<lparr>ls_state = lane_state_example, ls_provenance = None, ls_childKey = zeros\<rparr>"

lemma lane_sidecars_pass:
  "\<not> terminal_entry (entry_of example_artifact_run t) \<Longrightarrow>
     lane_sidecars hex_ambient example_artifact_run (lane_world_example now) t = Continue (upd_entry example_artifact_run (\<lambda>e. e) t) lane_side"
  by (auto simp: lane_sidecars_def entry_of_def lane_state_facts task_keep_def Let_def split: option.splits)

lemma lane_child_pass:
  "lane_child hex_ambient lane_options example_artifact_run (lane_world_example now) (lane_panes [lane_pane]) lane_state_example t
     = Continue t (lane_identity, [lane_pane, lane_agent])"
  using lane_pane_facts(2) by (simp add: lane_child_def lane_pane_facts lane_identity_def lane_options_def)

lemma lane_clock_pass:
  "lane_clock hex_ambient lane_options example_artifact_run (lane_world_example now) [lane_pane, lane_agent] t =
     (let u = upd_entry example_artifact_run (observe_clock 3 zeros now) t; ms = now - the (le_sinceMs (entry_of example_artifact_run u))
      in if ms < 10 then Returned (setView example_artifact_run now RvWatching None (Some ms) None u) else Continue u ms)"
  by (simp add: lane_clock_def lane_pane_facts idle_status_def lane_options_def Let_def)

lemma lane_relock_pass:
  "lane_clock_of (entry_of example_artifact_run t) = (Some 3, Some zeros, since) \<Longrightarrow>
     relock hex_ambient lane_options example_artifact_run (lane_world_example now) lane_identity zeros t = Continue t lane_state_example"
  by (simp add: relock_def and_then_def relock_sidecar_def relock_live_def or_throw_def relock_clock_def relock_owner_def relock_last_def
      lane_state_facts lane_pane_facts lane_vetoes lane_clock_of_def)

lemma lane_guards_pass:
  "lane_guards hex_ambient example_artifact_run (lane_world_example now) (lane_panes [lane_pane]) lane_side lane_identity [lane_pane, lane_agent] t
     = Continue t ()"
proof -
  have "as_value example_session = ''s1''"
    by (simp add: example_session_def)
  then show ?thesis
    by (simp add: lane_guards_def lane_pane_facts lane_state_facts lane_vetoes Let_def)
qed

lemma lane_focus_pass:
  "\<exists>u. lane_focus lane_options example_artifact_run (lane_world_example now) lane_pane ms t = Continue u ()
     \<and> lane_clock_of (entry_of example_artifact_run u) = lane_clock_of (entry_of example_artifact_run t)"
  by (simp add: lane_focus_def lane_pane_facts lane_clock_of_def Let_def)

lemma lane_rest_closes:
  assumes "lane_clock_of (entry_of example_artifact_run t) = (Some 3, Some zeros, since)"
  shows "FxBeginClose example_artifact_run ''w'' \<in> set (rt_out (stage_of (lane_rest hex_ambient lane_options example_artifact_run
     (lane_world_example now) (lane_panes [lane_pane]) (sw_locks (lane_sweep now) example_artifact_run) lane_side lane_identity
     [lane_pane, lane_agent] ms t)))"
proof -
  let ?lk = "sw_locks (lane_sweep now) example_artifact_run"
  obtain u where u: "lane_focus lane_options example_artifact_run (lane_world_example now) lane_pane ms t = Continue u ()"
      "lane_clock_of (entry_of example_artifact_run u) = (Some 3, Some zeros, since)"
    using lane_focus_pass [of now ms t] assms by auto
  obtain v where v: "after_dispatch lane_options example_artifact_run lane_state_example ?lk lane_identity u = Returned v"
      "reports ?lk example_artifact_run ''w'' u v"
    using after_dispatch_reports [of lane_options example_artifact_run lane_state_example ?lk lane_identity u] by auto
  have "lk_pane ?lk" "lk_run ?lk" "lk_world ?lk = lane_world_example now"
    by (simp_all add: lane_sweep_def)
  then have "closeLane hex_ambient lane_options example_artifact_run lane_state_example now ?lk lane_identity zeros u = Returned v"
    using v(1) lane_relock_pass [OF u(2), of now] by (simp add: closeLane_dispatch and_then_def)
  moreover have "FxBeginClose example_artifact_run ''w'' \<in> set (rt_out v)"
    using v(2) by (auto simp: reports_def closing_begins)
  ultimately show ?thesis
    using u(1) by (simp add: lane_rest_def lane_guards_pass and_then_def)
qed

lemma lane_evaluated:
  assumes "\<not> terminal_entry (entry_of example_artifact_run t)"
  shows "evaluate hex_ambient lane_options example_artifact_run (lane_world_example now) (lane_panes [lane_pane]) lk t =
     and_then (lane_clock hex_ambient lane_options example_artifact_run (lane_world_example now) [lane_pane, lane_agent]
         (upd_entry example_artifact_run (\<lambda>e. e) t))
       (\<lambda>t ms. lane_rest hex_ambient lane_options example_artifact_run (lane_world_example now) (lane_panes [lane_pane]) lk lane_side
          lane_identity [lane_pane, lane_agent] ms t)"
  unfolding evaluate_rest lane_sidecars_pass [OF assms] by (simp add: and_then_def lane_child_pass)

lemma lane_sweeps:
  "sweep hex_ambient lane_options (lane_sweep now) t =
     prune [example_artifact_run] (visit hex_ambient lane_options (lane_sweep now) (lane_panes [lane_pane]) example_artifact_run t)"
  using lane_state_facts(2) by (simp add: sweep_def lane_sweep_def run_dirs_def)

lemma lane_first_sweep:
  "\<exists>e. entry_of example_artifact_run (sweep hex_ambient lane_options (lane_sweep 0) createLaneRetirer) = e \<and> \<not> terminal_entry e
     \<and> lane_clock_of e = (Some 3, Some zeros, Some 0)
     \<and> rt_out (sweep hex_ambient lane_options (lane_sweep 0) createLaneRetirer) = []"
proof -
  have fresh: "entry_of example_artifact_run createLaneRetirer = new_entry"
    by (simp add: entry_of_def createLaneRetirer_def)
  have none: "rt_out createLaneRetirer = []" by (simp add: createLaneRetirer_def)
  have "\<not> terminal_entry new_entry"
    by (simp add: terminal_entry_def new_entry_def)
  then show ?thesis
    using lane_evaluated [of createLaneRetirer 0 "sw_locks (lane_sweep 0) example_artifact_run"]
    by (simp add: lane_sweeps entry_prune visit_def fresh none lane_clock_pass and_then_def Let_def)
      (simp add: none lane_sweep_def fresh lane_clock_pass and_then_def Let_def observe_clock_def new_entry_def terminal_entry_def lane_clock_of_def)
qed

lemma lane_closes:
  "\<exists>new. rt_out (sweep hex_ambient lane_options (lane_sweep 10) (fold (sweep hex_ambient lane_options) [lane_sweep 0] createLaneRetirer))
       = rt_out (fold (sweep hex_ambient lane_options) [lane_sweep 0] createLaneRetirer) @ new
     \<and> FxBeginClose example_artifact_run ''w'' \<in> set new"
proof -
  let ?t = "sweep hex_ambient lane_options (lane_sweep 0) createLaneRetirer"
  obtain running: "\<not> terminal_entry (entry_of example_artifact_run ?t)"
      "lane_clock_of (entry_of example_artifact_run ?t) = (Some 3, Some zeros, Some 0)" and quiet: "rt_out ?t = []"
    using lane_first_sweep by blast
  let ?u = "upd_entry example_artifact_run (observe_clock 3 zeros 10) (upd_entry example_artifact_run (\<lambda>e. e) ?t)"
  have clock: "lane_clock_of (entry_of example_artifact_run ?u) = (Some 3, Some zeros, Some 0)"
    using running(2) by (simp add: observe_clock_def lane_clock_of_def)
  then have "lane_clock hex_ambient lane_options example_artifact_run (lane_world_example 10) [lane_pane, lane_agent]
      (upd_entry example_artifact_run (\<lambda>e. e) ?t) = Continue ?u 10"
    by (simp add: lane_clock_pass Let_def lane_clock_of_def)
  then have "FxBeginClose example_artifact_run ''w'' \<in> set (rt_out (stage_of (evaluate hex_ambient lane_options example_artifact_run
      (lane_world_example 10) (lane_panes [lane_pane]) (sw_locks (lane_sweep 10) example_artifact_run) ?t)))"
    using lane_rest_closes [OF clock, of 10 10] lane_evaluated [OF running(1)] by (simp add: and_then_def)
  moreover have "sw_world (lane_sweep 10) example_artifact_run = lane_world_example 10"
    by (simp add: lane_sweep_def)
  ultimately show ?thesis
    by (simp add: quiet) (simp add: lane_sweeps [of 10] visit_out)
qed

theorem close_needs_unbroken_grace_witness:
  "\<exists>ys. ys \<noteq> [] \<and> last ys = lane_sweep 10
     \<and> 10 \<le> sweep_time example_artifact_run (lane_sweep 10) - sweep_time example_artifact_run (hd ys)"
proof -
  let ?T = "fold (sweep hex_ambient lane_options) [lane_sweep 0] createLaneRetirer"
  obtain new where new: "rt_out (sweep hex_ambient lane_options (lane_sweep 10) ?T) = rt_out ?T @ new"
      "FxBeginClose example_artifact_run ''w'' \<in> set new"
    using lane_closes by blast
  obtain pre ys reading where "ys \<noteq> []" "last ys = lane_sweep 10"
      "ro_graceMs lane_options \<le> sweep_time example_artifact_run (lane_sweep 10) - sweep_time example_artifact_run (hd ys)"
    using close_needs_unbroken_grace [OF refl new] by (elim exE conjE)
  then show ?thesis by (intro exI [of _ ys]) simp
qed

theorem close_needs_proof_under_locks_witness:
  "\<exists>i key reading defers. si_paneId i = ''w'' \<and> lk_pane (sw_locks (lane_sweep 10) example_artifact_run)
     \<and> lk_run (sw_locks (lane_sweep 10) example_artifact_run)
     \<and> reproved hex_ambient lane_options example_artifact_run (lk_world (sw_locks (lane_sweep 10) example_artifact_run)) i key reading defers"
proof -
  let ?T = "fold (sweep hex_ambient lane_options) [lane_sweep 0] createLaneRetirer"
  obtain new where new: "rt_out (sweep hex_ambient lane_options (lane_sweep 10) ?T) = rt_out ?T @ new"
      "FxBeginClose example_artifact_run ''w'' \<in> set new"
    using lane_closes by blast
  have "sw_entries (lane_sweep 10) = Inr entries \<Longrightarrow> distinct (map fst entries)" for entries by (auto simp: lane_sweep_def)
  from close_needs_proof_under_locks [OF new this] show ?thesis by blast
qed

theorem marker_only_for_confirmed_close_witness:
  "retiredByDaemon example_artifact_run
     (sweep hex_ambient lane_options (lane_sweep 10) (fold (sweep hex_ambient lane_options) [lane_sweep 0] createLaneRetirer))"
proof -
  let ?T = "fold (sweep hex_ambient lane_options) [lane_sweep 0] createLaneRetirer"
  obtain new where new: "rt_out (sweep hex_ambient lane_options (lane_sweep 10) ?T) = rt_out ?T @ new"
      "FxBeginClose example_artifact_run ''w'' \<in> set new"
    using lane_closes by blast
  have runs: "swept_runs (lane_sweep 10) = [example_artifact_run]"
    using lane_state_facts(2) by (simp add: swept_runs_def lane_sweep_def run_dirs_def)
  have locks: "lk_mutation (sw_locks (lane_sweep 10) r) = MutationDone" "lk_readback (sw_locks (lane_sweep 10) r) = Some (lane_panes [])" for r
    by (simp_all add: lane_sweep_def)
  have absent: "\<forall>v \<in> set (sn_panes (lane_panes [])). jget ''pane_id'' v \<noteq> JStr ''w''" by (simp add: lane_panes_def)
  let ?P = "\<lambda>r b. b = [] \<or> (\<exists>p. if lk_mutation (sw_locks (lane_sweep 10) r) = MutationDone
              \<and> (\<exists>after. lk_readback (sw_locks (lane_sweep 10) r) = Some after \<and> (\<forall>v \<in> set (sn_panes after). jget ''pane_id'' v \<noteq> JStr p))
           then \<exists>ev c. b = [FxBeginClose r p, FxMarked r, FxFinishClose p True, FxLaneRetired ev]
                  \<and> ri_kind ev = ''lane_retired'' \<and> ri_runId ev = r \<and> ri_child ev = Some c \<and> mc_paneId c = p
           else b = [FxBeginClose r p, FxFinishClose p False])"
  obtain bs where bs: "rt_out (sweep hex_ambient lane_options (lane_sweep 10) ?T) = rt_out ?T @ concat bs"
      "list_all2 ?P [example_artifact_run] bs"
      "\<forall>r. retiredByDaemon r (sweep hex_ambient lane_options (lane_sweep 10) ?T) \<longleftrightarrow> retiredByDaemon r ?T \<or> FxMarked r \<in> set (concat bs)"
    using conjunct1 [OF marker_only_for_confirmed_close [where am = hex_ambient and d = lane_options and x = "lane_sweep 10" and T = ?T]]
    unfolding runs by (elim exE conjE) (rule that)
  obtain b where one: "bs = [b]" and shape: "?P example_artifact_run b"
    using bs(2) unfolding list_all2_Cons1 by (elim exE conjE) simp
  have b: "rt_out (sweep hex_ambient lane_options (lane_sweep 10) ?T) = rt_out ?T @ b"
      "retiredByDaemon example_artifact_run (sweep hex_ambient lane_options (lane_sweep 10) ?T)
         \<longleftrightarrow> retiredByDaemon example_artifact_run ?T \<or> FxMarked example_artifact_run \<in> set b"
    using bs(1,3) by (simp_all add: one)
  have "FxBeginClose example_artifact_run ''w'' \<in> set b" using b(1) new by simp
  with shape locks absent have "FxMarked example_artifact_run \<in> set b" by (auto split: if_splits)
  with b(2) show ?thesis by simp
qed

end
