(* ===== verification/Spec2Isabelle.thy ===== *)
theory Spec2Isabelle
  imports Routing_Policy Sessions Redaction Canonical_Json Js_Access Histories Retries Intents Intent_Lifecycle
    Mailbox Mailbox_Faults Mailbox_Properties Prompt_Identity Topology Adoption
    Handoff Handoff_Properties Handoff_Artifact Ownership Ownership_Properties
    Bounded_Text Supervision_Events Supervision_Ledger Supervision_Protocol Supervised_Identity
    Supervisor_State Supervisor Supervision_View Supervisor_Invariant Supervisor_Reachable Supervisor_Properties
    Handoff_Gate Handoff_Gate_Properties Job_Registry Job_Properties Close_Topology Caller_Policy
    Traces Self_Close Self_Close_Properties Retirement Retirement_Properties
begin

text \<open>
  A verification development for herdr-tools, the launch, supervision and messaging tools of a terminal
  multiplexer for coding agents. The implementation is TypeScript under \<open>src/src/\<close>.

  \<^bold>\<open>The program.\<close> A manager agent launches child agents in panes of the multiplexer. A launch is
  planned by the routing policy, recorded as an intent before any effect, and executed by a daemon; the
  child's identity is proven from the multiplexer's records and adopted under a name; its run has a
  handoff directory with two sidecar files; a supervisor follows the exact child over the event socket
  and wakes the manager; what the manager must know is written to its mailbox; a run can be transferred
  to another manager; and everything a model sees passes a redaction boundary.

  \<^bold>\<open>Theories and sources.\<close>

  \<^item> \<open>Prelude\<close>: results with typed errors, list and string idioms, byte lengths. \<open>Js_Access\<close>: reading an
    unknown JavaScript value. \<open>Sessions\<close>: native session keys and the runtime services (\<open>ambient\<close>).
    \<open>Histories\<close>, \<open>Retries\<close> and \<open>Traces\<close>: invariants over lists of operations, loops of attempts and machines
    driven by their inputs, as locales.
  \<^item> \<open>Routing_Policy\<close> (\<open>routing-policy.ts\<close>): tiers, workload profiles, the start tier and the fallback order.
  \<^item> \<open>Redaction\<close> (\<open>redaction.ts\<close>): the projection of object graphs with sharing, cycles and \<open>toJSON\<close>.
  \<^item> \<open>Canonical_Json\<close> (\<open>daemon/intents.ts\<close>, \<open>launch-schema.ts\<close>): the normalised task and its digest.
  \<^item> \<open>Intents\<close>, \<open>Intent_Lifecycle\<close> (\<open>daemon/intents.ts\<close>): the store of launch intents, every operation with its
    file faults, and the invariants of its histories.
  \<^item> \<open>Mailbox\<close>, \<open>Mailbox_Faults\<close>, \<open>Mailbox_Properties\<close> (\<open>daemon/mailbox.ts\<close>): event files, caps, loss accounts,
    held gaps, acknowledgement and moves.
  \<^item> \<open>Prompt_Identity\<close> (\<open>messages/prompt.ts\<close>), \<open>Topology\<close> (\<open>targets.ts\<close>, \<open>context.ts\<close>,
    \<open>messages/prompt-target.ts\<close>), \<open>Adoption\<close> (\<open>agent-identity.ts\<close>): who a pane holds and which pane is meant.
  \<^item> \<open>Handoff\<close>, \<open>Handoff_Properties\<close> (\<open>handoff.ts\<close>): the validators, creation and update of a run's sidecars.
    \<open>Handoff_Artifact\<close>: the run's layout, the contract block of its assignment, and the parser and the checked read
    of \<open>handoff.md\<close>.
  \<^item> \<open>Ownership\<close>, \<open>Ownership_Properties\<close> (\<open>daemon/ownership.ts\<close>): claims and transfers through a journal that is
    replayed after a crash.
  \<^item> \<open>Bounded_Text\<close> (\<open>job-registry.ts\<close>): the bisection behind every bounded summary.
  \<^item> \<open>Supervision_Events\<close>, \<open>Supervision_Ledger\<close> (\<open>supervision/events.ts\<close>): the event log, and the unbounded ledger
    it refines through the locale \<open>data_refinement\<close>.
  \<^item> \<open>Supervision_Protocol\<close> (\<open>supervision/protocol.ts\<close>), \<open>Supervised_Identity\<close> (\<open>supervision/identity.ts\<close>): what
    the socket may send, and whether an observation still shows the bound child.
  \<^item> \<open>Supervisor_State\<close>, \<open>Supervisor\<close>, \<open>Supervision_View\<close> (\<open>supervision/supervisor.ts\<close>, \<open>supervision/state.ts\<close>,
    parts of \<open>handoff-gate.ts\<close>): the supervisor as a state and one function per input, suspended at every
    \<open>await\<close>; its published view and the guard of its consumers. \<open>Supervisor_Invariant\<close> and
    \<open>Supervisor_Reachable\<close> carry the invariant through every operation; \<open>Supervisor_Properties\<close> states what follows.
  \<^item> \<open>Handoff_Gate\<close>, \<open>Handoff_Gate_Properties\<close> (\<open>handoff-gate.ts\<close>): the gate of handoffs. Its runs are objects shared by
    every holder of a reference and a map from identities; \<open>validate\<close> is cut at its awaits (read, locked edit,
    finish); the fences of repair prompts live in the state sidecar and hold between hosts.
  \<^item> \<open>Job_Registry\<close>, \<open>Job_Properties\<close> (\<open>job-registry.ts\<close>): the jobs as objects with a map from ids, the phases of an
    execution, the single settlement, cancellation with its wait for quiescence, the two stages of binding
    a supervised child, teardown and paged listing. \<open>job_step\<close> is one synchronous stretch of the code.

  \<^item> \<open>Close_Topology\<close> (\<open>close.ts\<close>): what a close takes with it, and whether the caller is among it.
    \<open>Caller_Policy\<close> (\<open>caller-policy.ts\<close>): whom a launched worker may write to.
  \<^item> \<open>Self_Close\<close>, \<open>Self_Close_Properties\<close> (\<open>supervision/self-close.ts\<close>): the closes of this host and the wakes they
    silence; a timer that fires is an operation of its own.
  \<^item> \<open>Retirement\<close>, \<open>Retirement_Properties\<close> (\<open>daemon/retire.ts\<close>, \<open>supervision/trace-follow-up.ts\<close>, \<open>classifyChild\<close> of
    \<open>daemon/reattach.ts\<close>, \<open>closeWithReadback\<close> of \<open>mutations.ts\<close>): the sweep that closes the panes of finished
    lanes. The evaluation of a lane is cut into stages that return, throw or go on; what it observes, and what
    it observes again under the locks, are two records of the world.

  \<^bold>\<open>How code becomes definitions.\<close> A function is a HOL function of the same name. A thrown error is the
  left side of a \<open>result\<close> with the constructors of the code's error codes. A file system, a clock, a
  random source and the multiplexer's replies are arguments: an operation that writes takes a record
  of what each of its writes does, so that every fault point is a branch. A string is a list of code
  units below 256; unknown input is \<open>jsval\<close>. A class with methods is a record and one function per
  method; an \<open>await\<close> is a constructor of \<open>await\<close>, and whatever may run meanwhile is an input of the model.

  \<^bold>\<open>Bounds and fuel.\<close> The projection of object graphs takes fuel, and \<open>model_safe_json_total\<close> shows that the
  depth limit makes it enough; the resolution of contexts takes the code's own number of attempts. The one
  loop that may not end, \<open>drain_until_empty\<close>, is a partial function, and
  \<open>inputs_return_unless_stopped_strengthening\<close> says exactly when it does not return.

  \<^bold>\<open>What the lemmas show.\<close> Store invariants are proved by induction over lists of operations
  (\<open>op_history\<close>), crash safety by induction over attempts (\<open>retry_loop\<close>), the log by refinement, and the
  supervisor by rule induction over its inputs (\<open>supervised\<close>). The retirement is followed over lists of
  sweeps: a running clock stands for a stretch of sweeps with one reading, and a close for a proof under the
  locks. Each property names its claim before it.

  \<^bold>\<open>Not modelled.\<close> The tools, the daemon's server and client, the profile compiler and the reviewers are
  orchestration over processes and sockets; the manifest lists them. Of the supervisor, the paid
  review cadence with its evidence and the diagnostic lines are left out; of the job registry, the public
  projections of details and reviews; of the retirement, the scan of the native trace and the reading of
  the Devin composer, whose verdicts are parameters. Prose of error messages is
  not modelled unless a caller reads it.
\<close>

end
